(* ===== verification/Js_Base.thy ===== *)
theory Js_Base
  imports Complex_Main "HOL-Library.AList" "HOL-Library.Word"
begin

text \<open>
  The prelude of the development: the part of JavaScript and of Node.js that the
  adapters under \<^verbatim>\<open>src/tools/*2api/src\<close> use.

  \<^item> \<open>thrown\<close>: what a \<^verbatim>\<open>throw\<close> or a rejected promise carries, either one of the
    adapters' own error classes (all four have the fields status, code and message)
    or any other JavaScript error; a fallible function returns \<open>thrown + 'a\<close>.
  \<^item> \<open>json\<close>: the values \<^verbatim>\<open>JSON.parse\<close> produces, with property access and
    truthiness; \<^verbatim>\<open>undefined\<close> is \<open>None\<close> of an option. Numbers are finite rationals.
  \<^item> strings: a JavaScript string is a list of code units; the model has the ones
    below 256, so \<^verbatim>\<open>length\<close>, \<^verbatim>\<open>trim\<close>, \<^verbatim>\<open>startsWith\<close>, \<^verbatim>\<open>includes\<close>, \<^verbatim>\<open>split\<close>,
    \<^verbatim>\<open>toLowerCase\<close> and UTF-8 encoding are exact on that range.
  \<^item> \<^verbatim>\<open>Map\<close>: an association list in insertion order with \<open>AList.update\<close>
    (in place, or at the end) and \<open>AList.delete\<close>.
\<close>

named_theorems js_defs \<comment> \<open>definitions of the string and value helpers\<close>
named_theorems splits_js \<comment> \<open>case split rules shared by the components\<close>

section \<open>Thrown values\<close>

record js_error =
  err_name :: string
  err_message :: string
  err_code :: "string option"
  err_status :: "rat option"

text \<open>
  \<open>Adapter\<close> is an instance of the adapter's own class (WindSurfError, CursorError,
  ArenaError, AdapterError); \<open>Foreign\<close> is any other error object.
\<close>

datatype thrown = Adapter int string string | Foreign js_error

definition js_error_of :: "string \<Rightarrow> string \<Rightarrow> thrown" where
  "js_error_of nm msg =
     Foreign \<lparr>err_name = nm, err_message = msg, err_code = None, err_status = None\<rparr>"

abbreviation plain_error :: "string \<Rightarrow> thrown" where
  "plain_error msg \<equiv> js_error_of ''Error'' msg"

abbreviation type_error :: "string \<Rightarrow> thrown" where
  "type_error msg \<equiv> js_error_of ''TypeError'' msg"

abbreviation range_error :: "string \<Rightarrow> thrown" where
  "range_error msg \<equiv> js_error_of ''RangeError'' msg"

fun status_of :: "thrown \<Rightarrow> int option" where
  "status_of (Adapter s c m) = Some s"
| "status_of (Foreign e) = None"

fun code_of :: "thrown \<Rightarrow> string option" where
  "code_of (Adapter s c m) = Some c"
| "code_of (Foreign e) = err_code e"

definition guard_js :: "bool \<Rightarrow> thrown \<Rightarrow> thrown + unit" where
  "guard_js bad e = (if bad then Inl e else Inr ())"

definition bind_js :: "thrown + 'a \<Rightarrow> ('a \<Rightarrow> thrown + 'b) \<Rightarrow> thrown + 'b" where
  "bind_js r f = (case r of Inl e \<Rightarrow> Inl e | Inr x \<Rightarrow> f x)"

lemma bind_js_Inl [simp]: "bind_js (Inl e) f = Inl e"
  by (simp add: bind_js_def)

lemma bind_js_Inr [simp]: "bind_js (Inr x) f = f x"
  by (simp add: bind_js_def)

lemma bind_js_eq_Inr [simp]:
  "bind_js r f = Inr y \<longleftrightarrow> (\<exists>x. r = Inr x \<and> f x = Inr y)"
  by (cases r) auto

lemma bind_js_eq_Inl:
  "bind_js r f = Inl e \<longleftrightarrow> r = Inl e \<or> (\<exists>x. r = Inr x \<and> f x = Inl e)"
  by (cases r) auto

lemma guard_js_eq_Inr [simp]: "guard_js bad e = Inr u \<longleftrightarrow> \<not> bad"
  by (simp add: guard_js_def)

lemma guard_js_eq_Inl [simp]: "guard_js bad e = Inl e' \<longleftrightarrow> bad \<and> e' = e"
  by (auto simp: guard_js_def)

lemma guard_js_True [simp]: "guard_js True e = Inl e"
  by (simp add: guard_js_def)

lemma guard_js_False [simp]: "guard_js False e = Inr ()"
  by (simp add: guard_js_def)

lemma not_isl_ex: "\<not> isl r \<Longrightarrow> \<exists>x. r = Inr x"
  by (cases r) auto

text \<open>\<^verbatim>\<open>Array.prototype.map\<close> with a callback that may throw: the first throw wins.\<close>

fun map_js :: "('a \<Rightarrow> thrown + 'b) \<Rightarrow> 'a list \<Rightarrow> thrown + 'b list" where
  "map_js f [] = Inr []"
| "map_js f (x # xs) =
     (case f x of Inl e \<Rightarrow> Inl e
      | Inr y \<Rightarrow> (case map_js f xs of Inl e \<Rightarrow> Inl e | Inr ys \<Rightarrow> Inr (y # ys)))"

lemma map_js_Inr_iff:
  "map_js f xs = Inr ys \<longleftrightarrow> list_all2 (\<lambda>x y. f x = Inr y) xs ys"
proof (induction xs arbitrary: ys)
  case Nil
  then show ?case by auto
next
  case (Cons x xs)
  show ?case
  proof (cases "f x")
    case (Inl e)
    then show ?thesis by (cases ys) auto
  next
    case (Inr y)
    then show ?thesis
      using Cons.IH [of "tl ys"] by (cases ys; cases "map_js f xs") auto
  qed
qed

lemma map_js_length: "map_js f xs = Inr ys \<Longrightarrow> length ys = length xs"
  by (auto simp: map_js_Inr_iff dest: list_all2_lengthD)

lemma map_js_last:
  "map_js f xs = Inr ys \<Longrightarrow> xs \<noteq> [] \<Longrightarrow> f (last xs) = Inr (last ys)"
  by (induction xs arbitrary: ys) (fastforce split: sum.splits if_splits dest: map_js_length)+

section \<open>JSON values\<close>

datatype json =
    JNull
  | JBool bool
  | JNum rat
  | JStr string
  | JArr "json list"
  | JObj "(string \<times> json) list"

text \<open>Property access: \<^verbatim>\<open>value.key\<close>, \<open>None\<close> for \<^verbatim>\<open>undefined\<close>.\<close>

fun getp :: "json \<Rightarrow> string \<Rightarrow> json option" where
  "getp (JObj kvs) k = map_of kvs k"
| "getp _ k = None"

definition ogetp :: "json option \<Rightarrow> string \<Rightarrow> json option" where
  "ogetp v k = (case v of None \<Rightarrow> None | Some w \<Rightarrow> getp w k)"

fun truthy :: "json option \<Rightarrow> bool" where
  "truthy None = False"
| "truthy (Some JNull) = False"
| "truthy (Some (JBool b)) = b"
| "truthy (Some (JNum q)) = (q \<noteq> 0)"
| "truthy (Some (JStr s)) = (s \<noteq> [])"
| "truthy (Some (JArr xs)) = True"
| "truthy (Some (JObj kvs)) = True"

text \<open>\<^verbatim>\<open>v == null\<close>: undefined or null.\<close>

definition nullish :: "json option \<Rightarrow> bool" where
  "nullish v \<longleftrightarrow> v = None \<or> v = Some JNull"

fun is_bool :: "json option \<Rightarrow> bool" where
  "is_bool (Some (JBool b)) = True"
| "is_bool _ = False"

fun str_of :: "json option \<Rightarrow> string option" where
  "str_of (Some (JStr s)) = Some s"
| "str_of _ = None"

fun num_of :: "json option \<Rightarrow> rat option" where
  "num_of (Some (JNum q)) = Some q"
| "num_of _ = None"

fun arr_of :: "json option \<Rightarrow> json list option" where
  "arr_of (Some (JArr xs)) = Some xs"
| "arr_of _ = None"

fun obj_of :: "json option \<Rightarrow> (string \<times> json) list option" where
  "obj_of (Some (JObj kvs)) = Some kvs"
| "obj_of _ = None"

text \<open>\<^verbatim>\<open>Number.isSafeInteger\<close> on a number.\<close>

definition is_safe_integer :: "rat \<Rightarrow> bool" where
  "is_safe_integer q = (q = of_int \<lfloor>q\<rfloor> \<and> \<bar>q\<bar> \<le> 9007199254740991)"

text \<open>\<^verbatim>\<open>Object.keys\<close> of a parsed object, in insertion order.\<close>

fun keys_of :: "json \<Rightarrow> string list" where
  "keys_of (JObj kvs) = map fst kvs"
| "keys_of _ = []"

lemma str_of_Some [simp]: "str_of v = Some s \<longleftrightarrow> v = Some (JStr s)"
  by (cases v rule: str_of.cases) auto

lemma arr_of_Some [simp]: "arr_of v = Some xs \<longleftrightarrow> v = Some (JArr xs)"
  by (cases v rule: arr_of.cases) auto

lemma num_of_Some [simp]: "num_of v = Some q \<longleftrightarrow> v = Some (JNum q)"
  by (cases v rule: num_of.cases) auto

lemma obj_of_Some [simp]: "obj_of v = Some kvs \<longleftrightarrow> v = Some (JObj kvs)"
  by (cases v rule: obj_of.cases) auto

lemma nullish_simps [simp]:
  "nullish None" "nullish (Some JNull)"
  "\<not> nullish (Some (JStr s))" "\<not> nullish (Some (JArr xs))" "\<not> nullish (Some (JBool b))"
  "\<not> nullish (Some (JNum q))" "\<not> nullish (Some (JObj kvs))"
  by (simp_all add: nullish_def)

section \<open>Strings\<close>

text \<open>White space as \<^verbatim>\<open>trim\<close> and the class \<^verbatim>\<open>\s\<close> know it, below 256.\<close>

definition is_ws :: "char \<Rightarrow> bool" where
  "is_ws c = (of_char c \<in> {9, 10, 11, 12, 13, 32, 160::nat})"

definition trim :: "string \<Rightarrow> string" where
  "trim s = rev (dropWhile is_ws (rev (dropWhile is_ws s)))"

definition starts_with :: "string \<Rightarrow> string \<Rightarrow> bool" where
  "starts_with s p = (take (length p) s = p)"

fun contains :: "string \<Rightarrow> string \<Rightarrow> bool" where
  "contains [] t = (t = [])"
| "contains (c # s) t = (starts_with (c # s) t \<or> contains s t)"

fun join_with :: "string \<Rightarrow> string list \<Rightarrow> string" where
  "join_with sep [] = []"
| "join_with sep [s] = s"
| "join_with sep (s # t # ss) = s @ sep @ join_with sep (t # ss)"

fun split_on :: "char \<Rightarrow> string \<Rightarrow> string list" where
  "split_on d [] = [[]]"
| "split_on d (c # s) =
     (if c = d then [] # split_on d s
      else (case split_on d s of [] \<Rightarrow> [[c]] | w # ws \<Rightarrow> (c # w) # ws))"

text \<open>\<^verbatim>\<open>toLowerCase\<close> below 256: A-Z and the accented capitals except the multiplication sign.\<close>

definition lower_char :: "char \<Rightarrow> char" where
  "lower_char c =
     (let n = of_char c :: nat in
      if (65 \<le> n \<and> n \<le> 90) \<or> (192 \<le> n \<and> n \<le> 222 \<and> n \<noteq> 215) then char_of (n + 32) else c)"

definition lower :: "string \<Rightarrow> string" where
  "lower s = map lower_char s"

definition is_digit :: "char \<Rightarrow> bool" where
  "is_digit c = (48 \<le> (of_char c :: nat) \<and> (of_char c :: nat) \<le> 57)"

definition is_hex_lower :: "char \<Rightarrow> bool" where
  "is_hex_lower c = (is_digit c \<or> (97 \<le> (of_char c :: nat) \<and> (of_char c :: nat) \<le> 102))"

definition is_hex :: "char \<Rightarrow> bool" where
  "is_hex c = (is_hex_lower c \<or> (65 \<le> (of_char c :: nat) \<and> (of_char c :: nat) \<le> 70))"

text \<open>The decimal digits of a natural number, as a template literal renders it.\<close>

fun show_nat :: "nat \<Rightarrow> string" where
  "show_nat n = (if n < 10 then [char_of (48 + n)] else show_nat (n div 10) @ [char_of (48 + n mod 10)])"

declare show_nat.simps [simp del]

declare is_ws_def [js_defs] trim_def [js_defs] starts_with_def [js_defs]
  lower_char_def [js_defs] lower_def [js_defs] is_digit_def [js_defs]
  is_hex_lower_def [js_defs] is_hex_def [js_defs]

lemma dropWhile_is_ws_idem [simp]: "dropWhile is_ws (dropWhile is_ws s) = dropWhile is_ws s"
  by (induction s) auto

lemma trim_Nil [simp]: "trim [] = []"
  by (simp add: trim_def)

lemma trim_eq_Nil_iff: "trim s = [] \<longleftrightarrow> (\<forall>c \<in> set s. is_ws c)"
proof -
  have "trim s = [] \<longleftrightarrow> (\<forall>c \<in> set (dropWhile is_ws s). is_ws c)"
    by (simp add: trim_def)
  also have "\<dots> \<longleftrightarrow> (\<forall>c \<in> set s. is_ws c)"
  proof
    assume "\<forall>c \<in> set (dropWhile is_ws s). is_ws c"
    then show "\<forall>c \<in> set s. is_ws c"
      by (metis dropWhile_eq_Nil_conv hd_dropWhile hd_in_set)
  next
    assume "\<forall>c \<in> set s. is_ws c"
    then show "\<forall>c \<in> set (dropWhile is_ws s). is_ws c"
      by (meson set_dropWhileD)
  qed
  finally show ?thesis .
qed

lemma length_trim: "length (trim s) \<le> length s"
proof -
  have "length (trim s) \<le> length (dropWhile is_ws s)"
    by (simp add: trim_def) (metis length_dropWhile_le length_rev)
  also have "\<dots> \<le> length s" by (rule length_dropWhile_le)
  finally show ?thesis .
qed

lemma dropWhile_fix: "s = [] \<or> \<not> P (hd s) \<Longrightarrow> dropWhile P s = s"
  by (cases s) auto

lemma trim_idem [simp]: "trim (trim s) = trim s"
proof -
  let ?u = "rev (dropWhile is_ws s)"
  let ?v = "dropWhile is_ws ?u"
  have "dropWhile is_ws (rev ?v) = rev ?v"
  proof (rule dropWhile_fix)
    show "rev ?v = [] \<or> \<not> is_ws (hd (rev ?v))"
    proof (cases "?v = []")
      case False
      then have "hd (rev ?v) = last ?v" by (simp add: hd_rev)
      also have "\<dots> = last ?u" using False by (metis dropWhile_eq_Nil_conv last_appendR takeWhile_dropWhile_id)
      also have "\<dots> = hd (dropWhile is_ws s)"
        using False by (metis dropWhile.simps(1) last_rev rev.simps(1))
      finally show ?thesis
        using False by (metis dropWhile.simps(1) hd_dropWhile dropWhile_eq_Nil_conv rev.simps(1))
    qed simp
  qed
  then show ?thesis by (simp add: trim_def)
qed

lemma join_with_Cons: "ss \<noteq> [] \<Longrightarrow> join_with sep (s # ss) = s @ sep @ join_with sep ss"
  by (cases ss) auto

lemma split_on_nonempty [simp]: "split_on d s \<noteq> []"
  by (induction s) (auto split: list.splits)

lemma split_on_segments: "w \<in> set (split_on d s) \<Longrightarrow> d \<notin> set w"
proof (induction s arbitrary: w)
  case (Cons c s)
  show ?case
  proof (cases "split_on d s")
    case (Cons v vs)
    then show ?thesis using Cons.IH Cons.prems by (cases "c = d") auto
  qed (use Cons.prems in \<open>auto split: if_splits\<close>)
qed simp

lemma split_on_append: "d \<notin> set w \<Longrightarrow> split_on d (w @ d # s) = w # split_on d s"
  by (induction w) auto

lemma split_on_none: "d \<notin> set w \<Longrightarrow> split_on d w = [w]"
  by (induction w) auto

lemma split_on_join:
  "ws \<noteq> [] \<Longrightarrow> \<forall>w \<in> set ws. d \<notin> set w \<Longrightarrow> split_on d (join_with [d] ws) = ws"
  by (induction "[d]" ws rule: join_with.induct) (auto simp: split_on_append split_on_none)

lemma contains_Nil [simp]: "contains s []"
  by (induction s) (auto simp: starts_with_def)

definition hex_run :: "nat \<Rightarrow> string \<Rightarrow> bool" where
  "hex_run n s = (length s = n \<and> list_all is_hex s)"

text \<open>\<^verbatim>\<open>/^[0-9a-f]{8}(?:-[0-9a-f]{4}){3}-[0-9a-f]{12}$/i\<close>\<close>

definition is_uuid :: "string \<Rightarrow> bool" where
  "is_uuid s = (case split_on CHR ''-'' s of
     [a, b, c, d, e] \<Rightarrow> hex_run 8 a \<and> hex_run 4 b \<and> hex_run 4 c \<and> hex_run 4 d \<and> hex_run 12 e
   | _ \<Rightarrow> False)"

section \<open>Bytes\<close>

type_synonym byte = "8 word"
type_synonym bytes = "byte list"

text \<open>\<^verbatim>\<open>Buffer.from(s, "utf8")\<close> on code units below 256.\<close>

definition utf8_char :: "char \<Rightarrow> bytes" where
  "utf8_char c =
     (let n = of_char c :: nat in
      if n < 128 then [of_nat n] else [of_nat (192 + n div 64), of_nat (128 + n mod 64)])"

definition utf8 :: "string \<Rightarrow> bytes" where
  "utf8 s = concat (map utf8_char s)"

lemma utf8_Nil [simp]: "utf8 [] = []"
  by (simp add: utf8_def)

lemma utf8_append [simp]: "utf8 (s @ t) = utf8 s @ utf8 t"
  by (simp add: utf8_def)

lemma byte_of_nat_inj:
  assumes "(of_nat m :: byte) = of_nat n" "m < 256" "n < 256"
  shows "m = n"
proof -
  have "unat (of_nat k :: byte) = k" if "k < 256" for k
    unfolding unat_of_nat using that by simp
  then have "unat (of_nat m :: byte) = m" "unat (of_nat n :: byte) = n" using assms(2,3) by blast+
  with assms(1) show ?thesis by metis
qed

lemma of_char_nat_inj: "(of_char c :: nat) = of_char d \<Longrightarrow> c = d"
  by (metis char_of_char)

lemma utf8_char_cases:
  "of_char c < (128::nat) \<Longrightarrow> utf8_char c = [of_nat (of_char c)]"
  "\<not> of_char c < (128::nat)
     \<Longrightarrow> utf8_char c = [of_nat (192 + of_char c div 64), of_nat (128 + of_char c mod 64)]"
  unfolding utf8_char_def Let_def by (simp_all only: if_True if_False)

lemma utf8_byte_bounds: "n < 256 \<Longrightarrow> 192 + n div 64 < (256::nat)" "128 + n mod 64 < (256::nat)"
proof -
  show "192 + n div 64 < (256::nat)" if "n < 256" using less_mult_imp_div_less [of n 4 64] that by simp
  show "128 + n mod 64 < (256::nat)" using mod_less_divisor [of 64 n] by linarith
qed

lemma utf8_char_prefix:
  assumes "utf8_char c @ r = utf8_char d @ r'"
  shows "c = d \<and> r = r'"
proof -
  let ?m = "of_char c :: nat" and ?n = "of_char d :: nat"
  have b: "?m < 256" "?n < 256" by simp_all
  then have q: "192 + ?m div 64 < 256" "192 + ?n div 64 < 256" "128 + ?m mod 64 < 256" "128 + ?n mod 64 < 256"
    by (blast intro: utf8_byte_bounds)+
  consider (11) "?m < 128" "?n < 128" | (12) "?m < 128" "\<not> ?n < 128" | (21) "\<not> ?m < 128" "?n < 128"
    | (22) "\<not> ?m < 128" "\<not> ?n < 128" by blast
  then show ?thesis
  proof cases
    case 11
    with assms have "of_nat ?m = (of_nat ?n :: byte)" "r = r'"
      by (simp_all only: utf8_char_cases not_False_eq_True append_Cons append_Nil list.inject)
    then show ?thesis using byte_of_nat_inj [OF _ b] of_char_nat_inj by blast
  next
    case 12
    with assms have "of_nat ?m = (of_nat (192 + ?n div 64) :: byte)"
      by (simp only: utf8_char_cases not_False_eq_True append_Cons append_Nil list.inject)
    then have "?m = 192 + ?n div 64" by (rule byte_of_nat_inj [OF _ b(1) q(2)])
    with 12 show ?thesis by linarith
  next
    case 21
    with assms have "of_nat (192 + ?m div 64) = (of_nat ?n :: byte)"
      by (simp only: utf8_char_cases not_False_eq_True append_Cons append_Nil list.inject)
    then have "192 + ?m div 64 = ?n" by (rule byte_of_nat_inj [OF _ q(1) b(2)])
    with 21 show ?thesis by linarith
  next
    case 22
    with assms have eqs: "of_nat (192 + ?m div 64) = (of_nat (192 + ?n div 64) :: byte)"
      "of_nat (128 + ?m mod 64) = (of_nat (128 + ?n mod 64) :: byte)" "r = r'"
      by (simp_all only: utf8_char_cases not_False_eq_True append_Cons append_Nil list.inject)
    have "192 + ?m div 64 = 192 + ?n div 64" "128 + ?m mod 64 = 128 + ?n mod 64"
      using byte_of_nat_inj [OF eqs(1) q(1,2)] byte_of_nat_inj [OF eqs(2) q(3,4)] by blast+
    then have "?m = ?n" by (metis add_left_cancel div_mult_mod_eq)
    then show ?thesis using eqs(3) of_char_nat_inj by blast
  qed
qed

lemma utf8_inj: "utf8 s = utf8 t \<Longrightarrow> s = t"
proof (induction s arbitrary: t)
  case Nil
  then show ?case by (cases t) (auto simp: utf8_def utf8_char_def Let_def split: if_splits)
next
  case (Cons c s)
  show ?case
  proof (cases t)
    case Nil
    with Cons.prems show ?thesis by (auto simp: utf8_def utf8_char_def Let_def split: if_splits)
  next
    case (Cons d t')
    with Cons.prems have "utf8_char c @ utf8 s = utf8_char d @ utf8 t'" by (simp add: utf8_def)
    then show ?thesis using utf8_char_prefix Cons.IH Cons by blast
  qed
qed
section \<open>Ordered maps\<close>

text \<open>Facts on the association lists that stand for \<^verbatim>\<open>Map\<close> objects.\<close>

lemma map_of_update [simp]:
  "map_of (AList.update k v m) = (map_of m)(k \<mapsto> v)"
  by (simp add: update_conv')

lemma map_of_delete [simp]:
  "map_of (AList.delete k m) = (map_of m)(k := None)"
  by (simp add: delete_conv')

lemma length_update:
  "length (AList.update k v m) = (if k \<in> fst ` set m then length m else Suc (length m))"
  by (induction m) auto

lemma length_delete_less:
  assumes "k \<in> fst ` set m"
  shows "length (AList.delete k m) < length m"
proof -
  from assms obtain v where "(k, v) \<in> set m" by auto
  then show ?thesis
    unfolding AList.delete_eq by (rule length_filter_less) simp
qed

lemma keys_update: "fst ` set (AList.update k v m) = insert k (fst ` set m)"
  by (induction m) auto

lemma keys_delete: "fst ` set (AList.delete k m) = fst ` set m - {k}"
  by (induction m) (auto simp: AList.delete_eq)

lemma distinct_keys_update:
  "distinct (map fst m) \<Longrightarrow> distinct (map fst (AList.update k v m))"
  by (simp add: distinct_update)

lemma distinct_keys_delete:
  "distinct (map fst m) \<Longrightarrow> distinct (map fst (AList.delete k m))"
  by (simp add: distinct_delete)

lemma map_of_eq_None_iff': "map_of m k = None \<longleftrightarrow> k \<notin> fst ` set m"
  by (rule map_of_eq_None_iff)

lemma set_update_cases: "e \<in> set (AList.update k v m) \<Longrightarrow> e = (k, v) \<or> e \<in> set m"
  by (induction m) (auto split: if_splits)

lemma set_delete_subset: "set (AList.delete k m) \<subseteq> set m"
  by (auto simp: AList.delete_eq)

section \<open>Heaps\<close>

text \<open>Objects live in lists; an update at a reference, read back at any reference.\<close>

lemma nth_update_if: "xs[r := y] ! s = (if s = r \<and> r < length xs then y else xs ! s)"
  by (cases "r < length xs") (auto simp: nth_list_update list_update_beyond)

end
