(* ===== verification/Js_Json.thy ===== *)
theory Js_Json
  imports Js_Base
begin

text \<open>
  \<^verbatim>\<open>JSON.stringify\<close> as the adapters use it (no replacer, no indentation), and the fact the
  prompts and digests rest on: the text of a value without numbers determines the value.
  The decimal rendering of a number is a parameter.
\<close>

section \<open>Rendering\<close>

definition hex_digit :: "nat \<Rightarrow> char" where
  "hex_digit n = (if n < 10 then char_of (48 + n) else char_of (87 + n))"

definition quote_char :: "char \<Rightarrow> string" where
  "quote_char c =
     (let n = of_char c :: nat in
      if n = 34 then [CHR 0x5C, CHR 0x22]
      else if n = 92 then [CHR 0x5C, CHR 0x5C]
      else if n = 8 then [CHR 0x5C, CHR ''b'']
      else if n = 12 then [CHR 0x5C, CHR ''f'']
      else if n = 10 then [CHR 0x5C, CHR ''n'']
      else if n = 13 then [CHR 0x5C, CHR ''r'']
      else if n = 9 then [CHR 0x5C, CHR ''t'']
      else if n < 32 then [CHR 0x5C, CHR ''u'', CHR ''0'', CHR ''0'', hex_digit (n div 16), hex_digit (n mod 16)]
      else [c])"

definition json_quote :: "string \<Rightarrow> string" where
  "json_quote s = CHR 0x22 # concat (map quote_char s) @ [CHR 0x22]"

fun stringify :: "(rat \<Rightarrow> string) \<Rightarrow> json \<Rightarrow> string"
  and stringify_elems :: "(rat \<Rightarrow> string) \<Rightarrow> json list \<Rightarrow> string list"
  and stringify_members :: "(rat \<Rightarrow> string) \<Rightarrow> (string \<times> json) list \<Rightarrow> string list" where
  "stringify num JNull = ''null''"
| "stringify num (JBool b) = (if b then ''true'' else ''false'')"
| "stringify num (JNum q) = num q"
| "stringify num (JStr s) = json_quote s"
| "stringify num (JArr xs) = ''['' @ join_with '','' (stringify_elems num xs) @ '']''"
| "stringify num (JObj kvs) = ''{'' @ join_with '','' (stringify_members num kvs) @ ''}''"
| "stringify_elems num [] = []"
| "stringify_elems num (x # xs) = stringify num x # stringify_elems num xs"
| "stringify_members num [] = []"
| "stringify_members num ((k, v) # kvs) = (json_quote k @ '':'' @ stringify num v) # stringify_members num kvs"

fun no_num :: "json \<Rightarrow> bool"
  and no_num_elems :: "json list \<Rightarrow> bool"
  and no_num_members :: "(string \<times> json) list \<Rightarrow> bool" where
  "no_num (JNum q) = False"
| "no_num (JArr xs) = no_num_elems xs"
| "no_num (JObj kvs) = no_num_members kvs"
| "no_num _ = True"
| "no_num_elems [] = True"
| "no_num_elems (x # xs) = (no_num x \<and> no_num_elems xs)"
| "no_num_members [] = True"
| "no_num_members ((k, v) # kvs) = (no_num v \<and> no_num_members kvs)"

lemma no_num_elems_iff: "no_num_elems xs \<longleftrightarrow> (\<forall>x \<in> set xs. no_num x)"
  by (induction xs) auto

lemma stringify_elems_map: "stringify_elems num xs = map (stringify num) xs"
  by (induction xs) auto

section \<open>Quoted strings are a prefix code\<close>

text \<open>
  The escape of one code unit, read back: either a code unit that is neither a quote nor
  a backslash, or a backslash with its letter.
\<close>

definition unquote_char :: "string \<Rightarrow> (char \<times> string) option" where
  "unquote_char s = (case s of
     [] \<Rightarrow> None
   | c # r \<Rightarrow>
       if c = CHR 0x22 then None
       else if c \<noteq> CHR 0x5C then Some (c, r)
       else (case r of
           [] \<Rightarrow> None
         | d # r1 \<Rightarrow>
             if d = CHR 0x22 \<or> d = CHR 0x5C then Some (d, r1)
             else if d = CHR ''b'' then Some (char_of (8::nat), r1)
             else if d = CHR ''f'' then Some (char_of (12::nat), r1)
             else if d = CHR ''n'' then Some (char_of (10::nat), r1)
             else if d = CHR ''r'' then Some (char_of (13::nat), r1)
             else if d = CHR ''t'' then Some (char_of (9::nat), r1)
             else (case r1 of
                 x # y # h # l # r2 \<Rightarrow>
                   Some (char_of ((of_char h - 48) * 16
                     + (if of_char l < (58::nat) then of_char l - 48 else of_char l - 87) :: nat), r2)
               | _ \<Rightarrow> None)))"

lemma of_char_hex_digit: "n < 16 \<Longrightarrow> of_char (hex_digit n) = (if n < 10 then 48 + n else 87 + n)"
  by (simp add: hex_digit_def of_char_of take_bit_nat_def)

lemma of_char_eqD: "of_char c = (n :: nat) \<Longrightarrow> c = char_of n"
  by auto

lemma char_of_quotes: "char_of (34::nat) = CHR 0x22" "char_of (92::nat) = CHR 0x5C"
  by code_simp+

lemma unquote_quote_char: "unquote_char (quote_char c @ r) = Some (c, r)"
proof -
  let ?n = "of_char c :: nat"
  have c: "c = char_of ?n" by simp
  show ?thesis
  proof (cases "?n \<in> {34, 92, 8, 12, 10, 13, 9}")
    case True
    then show ?thesis by (auto simp: quote_char_def unquote_char_def char_of_quotes dest!: of_char_eqD)
  next
    case False
    show ?thesis
    proof (cases "?n < 32")
      case True
      then have "?n div 16 < 2" "?n mod 16 < 16" by auto
      then show ?thesis
        using True False
        by (auto simp: quote_char_def unquote_char_def of_char_hex_digit Let_def div_mult_mod_eq)
    next
      case F: False
      then have "c \<noteq> CHR 0x22" "c \<noteq> CHR 0x5C" using False by auto
      with F False show ?thesis by (simp add: quote_char_def unquote_char_def)
    qed
  qed
qed

lemma quote_char_prefix:
  "quote_char c @ r = quote_char d @ r' \<Longrightarrow> c = d \<and> r = r'"
  by (metis unquote_quote_char option.inject prod.inject)

lemma quote_char_not_quote: "quote_char c @ r \<noteq> CHR 0x22 # r'"
  using unquote_quote_char [of c r] by (auto simp: unquote_char_def)

lemma quoted_prefix:
  "concat (map quote_char s) @ CHR 0x22 # r = concat (map quote_char t) @ CHR 0x22 # r'
     \<Longrightarrow> s = t \<and> r = r'"
proof (induction s arbitrary: t)
  case Nil
  then show ?case by (cases t) (auto simp: quote_char_not_quote [symmetric])
next
  case (Cons c s)
  show ?case
  proof (cases t)
    case Nil
    with Cons.prems show ?thesis by (simp add: quote_char_not_quote)
  next
    case (Cons d t')
    with Cons.prems have "c = d \<and> concat (map quote_char s) @ CHR 0x22 # r = concat (map quote_char t') @ CHR 0x22 # r'"
      using quote_char_prefix by simp
    then show ?thesis using Cons.IH Cons by blast
  qed
qed

lemma json_quote_prefix: "json_quote s @ r = json_quote t @ r' \<Longrightarrow> s = t \<and> r = r'"
  unfolding json_quote_def append_Cons append_assoc append_Nil list.inject
  using quoted_prefix by blast


section \<open>The text of a value determines the value\<close>

lemma stringify_start:
  "no_num x \<Longrightarrow> \<exists>c s. stringify num x = c # s \<and> c \<in> set ''ntf[{'' \<union> {CHR 0x22}"
  by (cases x) (auto simp: json_quote_def)

lemma join_close:
  "join_with '','' (w # ws) @ c # r
     = w @ (if ws = [] then c # r else CHR '','' # (join_with '','' ws @ c # r))"
  by (cases ws) simp_all

lemma stringify_elems_Nil [simp]: "stringify_elems num xs = [] \<longleftrightarrow> xs = []"
  by (cases xs) simp_all

lemma stringify_members_Nil [simp]: "stringify_members num kvs = [] \<longleftrightarrow> kvs = []"
  by (cases kvs) auto

lemma stringify_elems_close:
  "no_num_elems xs \<Longrightarrow> xs \<noteq> []
     \<Longrightarrow> join_with '','' (stringify_elems num xs) @ CHR '']'' # r \<noteq> CHR '']'' # r'"
  using stringify_start [of "hd xs" num] by (cases xs) (auto simp: join_close)

lemma stringify_members_close:
  "kvs \<noteq> [] \<Longrightarrow> join_with '','' (stringify_members num kvs) @ CHR ''}'' # r \<noteq> CHR ''}'' # r'"
  by (cases kvs) (auto simp: join_close json_quote_def)

lemma stringify_head_cases:
  assumes "no_num x" "no_num y" "stringify num x @ r = stringify num y @ r'"
  shows "(x = JNull \<and> y = JNull) \<or> (\<exists>b. x = JBool b \<and> y = JBool b)
     \<or> (\<exists>s t. x = JStr s \<and> y = JStr t) \<or> (\<exists>s t. x = JArr s \<and> y = JArr t)
     \<or> (\<exists>s t. x = JObj s \<and> y = JObj t)"
  using assms by (cases x; cases y) (auto simp: json_quote_def split: if_splits)

lemma stringify_prefix:
  "no_num x \<Longrightarrow> no_num y \<Longrightarrow> stringify num x @ r = stringify num y @ r' \<Longrightarrow> x = y \<and> r = r'"
  "no_num_elems xs \<Longrightarrow> no_num_elems ys
     \<Longrightarrow> join_with '','' (stringify_elems num xs) @ CHR '']'' # r
         = join_with '','' (stringify_elems num ys) @ CHR '']'' # r'
     \<Longrightarrow> xs = ys \<and> r = r'"
  "no_num_members kvs \<Longrightarrow> no_num_members lvs
     \<Longrightarrow> join_with '','' (stringify_members num kvs) @ CHR ''}'' # r
         = join_with '','' (stringify_members num lvs) @ CHR ''}'' # r'
     \<Longrightarrow> kvs = lvs \<and> r = r'"
proof (induction num x and num xs and num kvs arbitrary: y r r' and ys r r' and lvs r r'
    rule: stringify_stringify_elems_stringify_members.induct)
  case (1 num)
  with stringify_head_cases [OF 1] show ?case by auto
next
  case (2 num b)
  with stringify_head_cases [OF 2] show ?case by auto
next
  case (4 num s)
  from stringify_head_cases [OF 4] obtain t where y: "y = JStr t" by auto
  then show ?case using 4(3) json_quote_prefix [of s r t r'] by simp
next
  case (5 num xs)
  from stringify_head_cases [OF 5(2-4)] obtain ys where y: "y = JArr ys" by auto
  then show ?case using 5(1) [of ys r r'] 5(2-4) by simp
next
  case (6 num kvs)
  from stringify_head_cases [OF 6(2-4)] obtain lvs where y: "y = JObj lvs" by auto
  then show ?case using 6(1) [of lvs r r'] 6(2-4) by simp
next
  case (7 num)
  then show ?case using stringify_elems_close [of ys num r' r] by (cases ys) auto
next
  case (8 num x xs)
  show ?case
  proof (cases ys)
    case Nil
    with 8 show ?thesis using stringify_elems_close [of "x # xs" num r r'] by auto
  next
    case (Cons y ys')
    let ?e = "\<lambda>xs r. if xs = [] then CHR '']'' # r else CHR '','' # (join_with '','' (stringify_elems num xs) @ CHR '']'' # r)"
    have "stringify num x @ ?e xs r = stringify num y @ ?e ys' r'"
      using 8(5) unfolding Cons by (simp only: stringify_elems.simps join_close stringify_elems_Nil)
    then have "x = y \<and> ?e xs r = ?e ys' r'"
      by (rule 8(1) [rotated 2]) (use 8(3,4) Cons in simp_all)
    then have "x = y" "?e xs r = ?e ys' r'" by blast+
    with 8(2) [of ys' r r'] 8(3,4) Cons show ?thesis by (auto split: if_splits)
  qed
next
  case (9 num)
  then show ?case using stringify_members_close [of lvs num r' r] by (cases lvs) auto
next
  case (10 num k v kvs)
  show ?case
  proof (cases lvs)
    case Nil
    with 10 show ?thesis using stringify_members_close [of "(k, v) # kvs" num r r'] by auto
  next
    case (Cons lw lvs')
    obtain l w where lw: "lw = (l, w)" by (cases lw)
    let ?e = "\<lambda>xs r. if xs = [] then CHR ''}'' # r else CHR '','' # (join_with '','' (stringify_members num xs) @ CHR ''}'' # r)"
    have "json_quote k @ '':'' @ stringify num v @ ?e kvs r = json_quote l @ '':'' @ stringify num w @ ?e lvs' r'"
      using 10(5) unfolding Cons lw
      by (simp only: stringify_members.simps join_close stringify_members_Nil append_assoc)
    then have "k = l" "stringify num v @ ?e kvs r = stringify num w @ ?e lvs' r'"
      using json_quote_prefix by blast+
    then have "v = w \<and> ?e kvs r = ?e lvs' r'"
      by (intro 10(1)) (use 10(3,4) Cons lw in simp_all)
    then have "v = w" "?e kvs r = ?e lvs' r'" by blast+
    with \<open>k = l\<close> 10(2) [of lvs' r r'] 10(3,4) Cons lw show ?thesis by (auto split: if_splits)
  qed
qed simp

lemma stringify_inj:
  "no_num x \<Longrightarrow> no_num y \<Longrightarrow> stringify num x = stringify num y \<Longrightarrow> x = y"
  using stringify_prefix(1) [of x y num "[]" "[]"] by simp

section \<open>Conversions\<close>

text \<open>\<^verbatim>\<open>String(v)\<close> of a parsed value.\<close>

fun js_string :: "(rat \<Rightarrow> string) \<Rightarrow> json \<Rightarrow> string" where
  "js_string num JNull = ''null''"
| "js_string num (JBool b) = (if b then ''true'' else ''false'')"
| "js_string num (JNum q) = num q"
| "js_string num (JStr s) = s"
| "js_string num (JArr xs) =
     join_with '','' (map (\<lambda>x. if x = JNull then '''' else js_string num x) xs)"
| "js_string num (JObj kvs) = ''[object Object]''"

text \<open>
  \<^verbatim>\<open>Number(v)\<close> of a parsed value; \<open>to_number\<close> is \<^verbatim>\<open>Number\<close> on a string and \<open>None\<close> stands for
  NaN and the infinities.
\<close>

definition js_number :: "(string \<Rightarrow> rat option) \<Rightarrow> (rat \<Rightarrow> string) \<Rightarrow> json option \<Rightarrow> rat option" where
  "js_number to_number num v = (case v of
     None \<Rightarrow> None
   | Some JNull \<Rightarrow> Some 0
   | Some (JBool b) \<Rightarrow> Some (if b then 1 else 0)
   | Some (JNum q) \<Rightarrow> Some q
   | Some w \<Rightarrow> to_number (js_string num w))"

section \<open>Parsing and numbers\<close>

text \<open>
  What is left to the JavaScript engine: \<^verbatim>\<open>JSON.parse\<close>, \<open>None\<close> when it throws, the decimal text of a number, and
  \<^verbatim>\<open>Number\<close> of a text and of an object, \<open>None\<close> for NaN and the infinities.
\<close>

record js_env =
  je_parse :: "string \<Rightarrow> json option"
  je_num :: "rat \<Rightarrow> string"
  je_number :: "string \<Rightarrow> rat option"
  je_object_number :: "json \<Rightarrow> rat option"

text \<open>\<^verbatim>\<open>Number(value)\<close>, \<open>None\<close> for NaN and the infinities; \<open>undefined\<close> is NaN.\<close>

definition js_Number :: "js_env \<Rightarrow> json option \<Rightarrow> rat option" where
  "js_Number E v = (case v of
     None \<Rightarrow> None
   | Some JNull \<Rightarrow> Some 0
   | Some (JBool b) \<Rightarrow> Some (if b then 1 else 0)
   | Some (JNum q) \<Rightarrow> Some q
   | Some (JStr s) \<Rightarrow> je_number E s
   | Some w \<Rightarrow> je_object_number E w)"

end
