(* ===== verification/Http_Base.thy ===== *)
theory Http_Base
  imports Js_Json
begin

text \<open>
  What the HTTP servers of the adapters share: the request as Node.js presents it, the checks
  on its headers and body that the four \<^verbatim>\<open>server.mjs\<close> files repeat, and the contract of a
  pool of request slots as a locale. Hashing, UTF-8 decoding and \<^verbatim>\<open>JSON.parse\<close> are
  parameters.
\<close>

section \<open>Requests\<close>

text \<open>The path is the \<^verbatim>\<open>pathname\<close> of the parsed URL; header names are in lower case.\<close>

record http_request =
  h_method :: string
  h_path :: string
  h_headers :: "(string \<times> string) list"
  h_chunks :: "bytes list"

definition hdr :: "http_request \<Rightarrow> string \<Rightarrow> string option" where
  "hdr q k = map_of (h_headers q) k"

definition hdr_text :: "http_request \<Rightarrow> string \<Rightarrow> string" where
  "hdr_text q k = (case hdr q k of None \<Rightarrow> '''' | Some v \<Rightarrow> v)"

text \<open>\<^verbatim>\<open>replace(/^Bearer\s+/i, "")\<close>\<close>

definition strip_bearer :: "string \<Rightarrow> string" where
  "strip_bearer s =
     (if lower (take 6 s) = ''bearer'' \<and> drop 6 s \<noteq> [] \<and> is_ws (hd (drop 6 s))
      then dropWhile is_ws (drop 6 s) else s)"

definition presented_key :: "http_request \<Rightarrow> string" where
  "presented_key q =
     (if hdr_text q ''x-sub2api-adapter-key'' \<noteq> '''' then hdr_text q ''x-sub2api-adapter-key''
      else strip_bearer (hdr_text q ''authorization''))"

text \<open>\<^verbatim>\<open>sameSecret\<close>: equal digests of two non-empty strings.\<close>

definition same_secret :: "(bytes \<Rightarrow> 'd) \<Rightarrow> string \<Rightarrow> string \<Rightarrow> bool" where
  "same_secret sha left right = (left \<noteq> [] \<and> right \<noteq> [] \<and> sha (utf8 left) = sha (utf8 right))"

text \<open>\<^verbatim>\<open>authorization.startsWith("Bearer ") ? authorization.slice(7).trim() : ""\<close>\<close>

definition bearer_key :: "http_request \<Rightarrow> string" where
  "bearer_key q =
     (if starts_with (hdr_text q ''authorization'') ''Bearer '' then trim (drop 7 (hdr_text q ''authorization''))
      else '''')"

text \<open>\<^verbatim>\<open>/^application\/json(?:\s*;|$)/i\<close>\<close>

definition is_json_type :: "string \<Rightarrow> bool" where
  "is_json_type s =
     (lower (take 16 s) = ''application/json''
      \<and> (drop 16 s = [] \<or> starts_with (dropWhile is_ws (drop 16 s)) '';''))"

text \<open>\<^verbatim>\<open>Number(req.headers["content-length"]) > limit\<close>; Node.js lets only digits through.\<close>

definition digits_value :: "string \<Rightarrow> nat" where
  "digits_value s = foldl (\<lambda>n c. 10 * n + (of_char c - 48)) 0 s"

definition declared_too_large :: "nat \<Rightarrow> http_request \<Rightarrow> bool" where
  "declared_too_large limit q =
     (let s = hdr_text q ''content-length'' in s \<noteq> [] \<and> list_all is_digit s \<and> limit < digits_value s)"

text \<open>
  \<^verbatim>\<open>readJSON\<close> on a body that arrives completely: \<open>decode\<close> and \<open>parse\<close> are
  \<^verbatim>\<open>Buffer.toString\<close> and \<^verbatim>\<open>JSON.parse\<close>.
\<close>

definition read_json :: "(bytes \<Rightarrow> string) \<Rightarrow> (string \<Rightarrow> json option) \<Rightarrow> thrown \<Rightarrow> thrown \<Rightarrow> nat \<Rightarrow> bytes list
    \<Rightarrow> thrown + json" where
  "read_json decode parse too_large invalid limit chunks =
     (if limit < sum_list (map length chunks) then Inl too_large
      else (case parse (decode (concat chunks)) of None \<Rightarrow> Inl invalid | Some v \<Rightarrow> Inr v))"

text \<open>\<^verbatim>\<open>/^\/internal\/login\/sessions\/([a-f0-9]{64})(\/suffix)?$/\<close>: the id and whether the suffix is there.\<close>

definition LOGIN_PATH :: string where "LOGIN_PATH = ''/internal/login/sessions''"

definition session_route :: "string \<Rightarrow> string \<Rightarrow> (string \<times> bool) option" where
  "session_route suffix path =
     (let rest = drop (length LOGIN_PATH + 1) path;
          i = take 64 rest
      in if starts_with path (LOGIN_PATH @ ''/'') \<and> length i = 64 \<and> list_all is_hex_lower i
            \<and> (drop 64 rest = '''' \<or> drop 64 rest = suffix)
         then Some (i, drop 64 rest \<noteq> '''') else None)"

definition bad_owner :: "nat \<Rightarrow> http_request \<Rightarrow> bool" where
  "bad_owner limit q = (case hdr q ''x-login-owner'' of None \<Rightarrow> True | Some v \<Rightarrow> trim v = [] \<or> limit < length v)"

definition error_type :: "int \<Rightarrow> string" where
  "error_type status = (if status = 429 then ''rate_limit_error''
     else if 500 \<le> status then ''upstream_error'' else ''invalid_request_error'')"

text \<open>
  What the synchronous head of a handler decides: answer at once, refuse, serve one of the
  login endpoints (with the owner and the session id), or admit a request for an account key.
\<close>

datatype decision =
    Reply int json
  | Refuse thrown
  | LoginStart string
  | LoginPost string string
  | LoginDelete string string
  | ListModels string
  | ChatCompletion string

fun admits :: "decision \<Rightarrow> bool" where
  "admits (ListModels k) = True"
| "admits (ChatCompletion k) = True"
| "admits _ = False"

lemma read_json_Inr:
  "read_json decode parse e1 e2 limit chunks = Inr v
     \<longleftrightarrow> sum_list (map length chunks) \<le> limit \<and> parse (decode (concat chunks)) = Some v"
  by (auto simp: read_json_def split: option.splits)

lemma same_secret_inj:
  assumes "same_secret sha left right" and "\<And>x. sha x = sha (utf8 right) \<Longrightarrow> x = utf8 right"
  shows "left = right"
  using assms utf8_inj unfolding same_secret_def by blast

section \<open>Slots\<close>

text \<open>
  A pool of slots: a request that is admitted holds one, and an upstream operation must run
  in a slot that is held. From these two laws the number of running operations is bounded
  in every reachable state.
\<close>

locale slot_pool =
  fixes init :: 's
    and step :: "'s \<Rightarrow> 's \<Rightarrow> bool"
    and held :: "'s \<Rightarrow> nat set"
    and running :: "'s \<Rightarrow> nat set"
    and limit :: nat
  assumes init_free: "held init = {}" "running init = {}"
    and step_held: "step s s' \<Longrightarrow> held s' \<subseteq> held s \<or> (\<exists>c. card (held s) < limit \<and> held s' = insert c (held s))"
    and step_running: "step s s' \<Longrightarrow> running s \<subseteq> held s \<Longrightarrow> running s' \<subseteq> held s'"
begin

lemma pool_invariant:
  assumes "step\<^sup>*\<^sup>* init s"
  shows "finite (held s) \<and> card (held s) \<le> limit \<and> running s \<subseteq> held s"
  using assms
proof (induction rule: rtranclp_induct)
  case base
  then show ?case by (simp add: init_free)
next
  case (step s s')
  then have fin: "finite (held s)" "card (held s) \<le> limit" by auto
  from step_held [OF step.hyps(2)] have "finite (held s') \<and> card (held s') \<le> limit"
  proof
    assume "held s' \<subseteq> held s"
    then show ?thesis using fin by (meson card_mono finite_subset le_trans)
  next
    assume "\<exists>c. card (held s) < limit \<and> held s' = insert c (held s)"
    then show ?thesis using fin by (auto intro: order_trans [OF card_insert_le_m1] simp: card_insert_if)
  qed
  moreover have "running s' \<subseteq> held s'" using step_running [OF step.hyps(2)] step.IH by blast
  ultimately show ?case by blast
qed

lemma running_bounded: "step\<^sup>*\<^sup>* init s \<Longrightarrow> card (running s) \<le> limit"
  using pool_invariant by (meson card_mono le_trans)

end

end
