(* ===== verification/Http_Slots.thy ===== *)
theory Http_Slots
  imports Http_Base
begin

text \<open>
  What the servers of windsurf2api and cursor2api share beyond the head of a handler: the set
  of active controllers, in which a request holds a slot until its handler has finished and
  its upstream operation has settled, and the numeric settings of the process.
\<close>

section \<open>Active controllers\<close>

text \<open>
  The part of a handler that outlives its head: whether \<open>operation\<close> was assigned and has
  settled, whether the finally clause ran, and the reason of its abort controller.
\<close>

datatype op_state = NoOp | Running | Settled

record handler =
  hn_op :: op_state
  hn_done :: bool
  hn_abort :: "thrown option"

record pool =
  ws_handlers :: "handler list"
  ws_active :: "nat list"
  ws_stopping :: bool

definition init_pool :: pool where
  "init_pool = \<lparr>ws_handlers = [], ws_active = [], ws_stopping = False\<rparr>"

text \<open>\<^verbatim>\<open>controller = new AbortController(); active.add(controller)\<close>\<close>

definition srv_admit :: "pool \<Rightarrow> pool" where
  "srv_admit s = s\<lparr>ws_handlers := ws_handlers s @ [\<lparr>hn_op = NoOp, hn_done = False, hn_abort = None\<rparr>],
                   ws_active := ws_active s @ [length (ws_handlers s)]\<rparr>"

text \<open>\<^verbatim>\<open>operation = runtime.generate(...)\<close>\<close>

definition srv_operate :: "nat \<Rightarrow> pool \<Rightarrow> pool" where
  "srv_operate c s = s\<lparr>ws_handlers := (ws_handlers s)[c := (ws_handlers s ! c)\<lparr>hn_op := Running\<rparr>]\<rparr>"

text \<open>
  The operation settles; if the finally clause has already run, its reaction frees the slot.
\<close>

definition srv_settle :: "nat \<Rightarrow> pool \<Rightarrow> pool" where
  "srv_settle c s =
     (let s' = s\<lparr>ws_handlers := (ws_handlers s)[c := (ws_handlers s ! c)\<lparr>hn_op := Settled\<rparr>]\<rparr>
      in if hn_done (ws_handlers s ! c) then s'\<lparr>ws_active := remove1 c (ws_active s')\<rparr> else s')"

text \<open>
  The finally clause: without an operation the slot is freed at once, with a settled one by
  the reaction that runs next, with a running one not yet.
\<close>

definition srv_finally :: "nat \<Rightarrow> pool \<Rightarrow> pool" where
  "srv_finally c s =
     (let s' = s\<lparr>ws_handlers := (ws_handlers s)[c := (ws_handlers s ! c)\<lparr>hn_done := True\<rparr>]\<rparr>
      in if hn_op (ws_handlers s ! c) = Running then s' else s'\<lparr>ws_active := remove1 c (ws_active s')\<rparr>)"

definition abort_handler :: "thrown \<Rightarrow> handler \<Rightarrow> handler" where
  "abort_handler e h = (case hn_abort h of None \<Rightarrow> h\<lparr>hn_abort := Some e\<rparr> | Some _ \<Rightarrow> h)"

text \<open>A timer, a disconnected client: the controller is aborted, the slot stays held.\<close>

definition srv_abort :: "nat \<Rightarrow> thrown \<Rightarrow> pool \<Rightarrow> pool" where
  "srv_abort c e s = s\<lparr>ws_handlers := (ws_handlers s)[c := abort_handler e (ws_handlers s ! c)]\<rparr>"

definition srv_stop :: "thrown \<Rightarrow> pool \<Rightarrow> pool" where
  "srv_stop e s = (foldl (\<lambda>acc c. srv_abort c e acc) s (ws_active s))\<lparr>ws_stopping := True\<rparr>"

text \<open>
  The steps of a server that admits a request in the states \<open>admit\<close> allows and is stopped
  with the error \<open>shutdown\<close>.
\<close>

inductive pool_step :: "(pool \<Rightarrow> bool) \<Rightarrow> thrown \<Rightarrow> pool \<Rightarrow> pool \<Rightarrow> bool" for admit shutdown where
  st_admit: "admit s \<Longrightarrow> pool_step admit shutdown s (srv_admit s)"
| st_operate: "c < length (ws_handlers s) \<Longrightarrow> hn_op (ws_handlers s ! c) = NoOp
    \<Longrightarrow> \<not> hn_done (ws_handlers s ! c) \<Longrightarrow> pool_step admit shutdown s (srv_operate c s)"
| st_settle: "c < length (ws_handlers s) \<Longrightarrow> hn_op (ws_handlers s ! c) = Running
    \<Longrightarrow> pool_step admit shutdown s (srv_settle c s)"
| st_finally: "c < length (ws_handlers s) \<Longrightarrow> \<not> hn_done (ws_handlers s ! c)
    \<Longrightarrow> pool_step admit shutdown s (srv_finally c s)"
| st_abort: "pool_step admit shutdown s (srv_abort c e s)"
| st_stop: "pool_step admit shutdown s (srv_stop shutdown s)"

text \<open>The handlers that still need their slot.\<close>

definition in_use :: "pool \<Rightarrow> nat set" where
  "in_use s = {c. c < length (ws_handlers s)
     \<and> (\<not> hn_done (ws_handlers s ! c) \<or> hn_op (ws_handlers s ! c) = Running)}"

lemma in_use_cong:
  assumes "map (\<lambda>h. (hn_op h, hn_done h)) (ws_handlers s') = map (\<lambda>h. (hn_op h, hn_done h)) (ws_handlers s)"
  shows "in_use s' = in_use s"
proof -
  have len: "length (ws_handlers s') = length (ws_handlers s)" using assms by (metis length_map)
  moreover have "hn_op (ws_handlers s' ! c) = hn_op (ws_handlers s ! c)
      \<and> hn_done (ws_handlers s' ! c) = hn_done (ws_handlers s ! c)" if "c < length (ws_handlers s)" for c
    using arg_cong [OF assms, of "\<lambda>xs. xs ! c"] that len by simp
  ultimately show ?thesis unfolding in_use_def by auto
qed

lemma abort_keeps:
  "map (\<lambda>h. (hn_op h, hn_done h)) (ws_handlers (srv_abort c e s)) = map (\<lambda>h. (hn_op h, hn_done h)) (ws_handlers s)"
  "ws_active (srv_abort c e s) = ws_active s"
proof -
  have "(hn_op (abort_handler e h), hn_done (abort_handler e h)) = (hn_op h, hn_done h)" for h
    by (simp add: abort_handler_def split: option.splits)
  then show "map (\<lambda>h. (hn_op h, hn_done h)) (ws_handlers (srv_abort c e s)) = map (\<lambda>h. (hn_op h, hn_done h)) (ws_handlers s)"
    by (cases "c < length (ws_handlers s)") (simp_all add: srv_abort_def map_update list_update_same_conv list_update_beyond)
  show "ws_active (srv_abort c e s) = ws_active s" by (simp add: srv_abort_def)
qed

lemma stop_keeps:
  "in_use (srv_stop e s) = in_use s" "ws_active (srv_stop e s) = ws_active s"
proof -
  have f: "map (\<lambda>h. (hn_op h, hn_done h)) (ws_handlers (foldl (\<lambda>acc c. srv_abort c e acc) s cs))
      = map (\<lambda>h. (hn_op h, hn_done h)) (ws_handlers s)
      \<and> ws_active (foldl (\<lambda>acc c. srv_abort c e acc) s cs) = ws_active s" for e cs
    by (induction cs arbitrary: s) (simp_all add: abort_keeps)
  then show "in_use (srv_stop e s) = in_use s" by (intro in_use_cong) (simp add: srv_stop_def)
  show "ws_active (srv_stop e s) = ws_active s" using f by (simp add: srv_stop_def)
qed

text \<open>
  Every step changes the held slots and the used ones alike: both stay, both lose the same
  slot, or both gain a fresh one, and the last only below the limit.
\<close>

lemma pool_step_cases:
  assumes "pool_step admit shutdown s s'"
  shows "(ws_active s' = ws_active s \<and> in_use s' = in_use s)
     \<or> (\<exists>c. ws_active s' = remove1 c (ws_active s) \<and> in_use s' = in_use s - {c})
     \<or> (\<exists>c. c \<notin> in_use s \<and> admit s
          \<and> ws_active s' = ws_active s @ [c] \<and> in_use s' = insert c (in_use s))"
  using assms
proof (induction rule: pool_step.induct)
  case (st_admit s)
  have "length (ws_handlers s) \<notin> in_use s" by (simp add: in_use_def)
  moreover have "in_use (srv_admit s) = insert (length (ws_handlers s)) (in_use s)"
    by (auto simp: in_use_def srv_admit_def nth_append less_Suc_eq)
  ultimately show ?case using st_admit by (simp add: srv_admit_def)
next
  case (st_operate c s)
  then have "in_use (srv_operate c s) = in_use s"
    by (auto simp: in_use_def srv_operate_def nth_list_update)
  then show ?case by (simp add: srv_operate_def)
next
  case (st_settle c s)
  then have "in_use (srv_settle c s) = (if hn_done (ws_handlers s ! c) then in_use s - {c} else in_use s)"
    by (auto simp: in_use_def srv_settle_def Let_def nth_list_update split: if_splits)
  then show ?case by (auto simp: srv_settle_def Let_def)
next
  case (st_finally c s)
  then have "in_use (srv_finally c s) = (if hn_op (ws_handlers s ! c) = Running then in_use s else in_use s - {c})"
    by (auto simp: in_use_def srv_finally_def Let_def nth_list_update split: if_splits)
  then show ?case by (auto simp: srv_finally_def Let_def)
next
  case (st_abort s c e)
  then show ?case using in_use_cong [OF abort_keeps(1)] by (simp add: abort_keeps)
next
  case (st_stop s)
  then show ?case by (simp add: stop_keeps)
qed

lemma in_use_step:
  assumes "pool_step admit shutdown s s'" "distinct (ws_active s)" "set (ws_active s) = in_use s"
  shows "distinct (ws_active s') \<and> set (ws_active s') = in_use s'"
  using pool_step_cases [OF assms(1)] assms(2,3) by auto

text \<open>
  The contract of an admission check: it lets a request in only below a limit. Every server
  whose check does so is a slot pool, and holds its slots exactly as long as they are needed.
\<close>

locale request_slots =
  fixes admit :: "pool \<Rightarrow> bool"
    and shutdown :: thrown
    and limit :: nat
  assumes admit_below: "admit s \<Longrightarrow> length (ws_active s) < limit"
begin

lemma slots_exact:
  assumes "(pool_step admit shutdown)\<^sup>*\<^sup>* init_pool s"
  shows "distinct (ws_active s) \<and> set (ws_active s) = in_use s"
  using assms
proof (induction rule: rtranclp_induct)
  case base
  then show ?case by (simp add: init_pool_def in_use_def)
next
  case (step s s')
  then show ?case using in_use_step by blast
qed

end

sublocale request_slots \<subseteq> slot_pool init_pool "pool_step admit shutdown" "\<lambda>s. set (ws_active s)" in_use limit
proof
  show "set (ws_active init_pool) = {}" "in_use init_pool = {}" by (simp_all add: init_pool_def in_use_def)
  fix s s' assume "pool_step admit shutdown s s'"
  note c = pool_step_cases [OF this]
  have "admit s \<Longrightarrow> card (set (ws_active s)) < limit" using admit_below card_length le_less_trans by blast
  with c show "set (ws_active s') \<subseteq> set (ws_active s)
      \<or> (\<exists>c. card (set (ws_active s)) < limit \<and> set (ws_active s') = insert c (set (ws_active s)))"
    using set_remove1_subset by fastforce
  assume "in_use s \<subseteq> set (ws_active s)"
  with c show "in_use s' \<subseteq> set (ws_active s')" by (auto simp: subset_iff)
qed

section \<open>Settings\<close>

text \<open>
  \<^verbatim>\<open>index.mjs\<close>: a numeric setting; \<open>to_number\<close> is \<^verbatim>\<open>Number\<close> on a string (\<open>None\<close> for NaN
  and the infinities), \<open>environ\<close> the process environment.
\<close>

definition range_message :: "string \<Rightarrow> int \<Rightarrow> int \<Rightarrow> thrown" where
  "range_message name minimum maximum = plain_error (name @ '' must be an integer between ''
     @ show_nat (nat minimum) @ '' and '' @ show_nat (nat maximum) @ ''.'')"

definition integer :: "(string \<Rightarrow> rat option) \<Rightarrow> (string \<Rightarrow> string option) \<Rightarrow> string \<Rightarrow> int \<Rightarrow> int \<Rightarrow> int
    \<Rightarrow> thrown + int" where
  "integer to_number environ name fallback minimum maximum =
     (let value = (case environ name of None \<Rightarrow> Some (of_int fallback) | Some s \<Rightarrow> to_number s)
      in case value of
           Some v \<Rightarrow> if is_safe_integer v \<and> of_int minimum \<le> v \<and> v \<le> of_int maximum then Inr \<lfloor>v\<rfloor>
                     else Inl (range_message name minimum maximum)
         | None \<Rightarrow> Inl (range_message name minimum maximum))"

definition env_text :: "(string \<Rightarrow> string option) \<Rightarrow> string \<Rightarrow> string" where
  "env_text environ name = (case environ name of None \<Rightarrow> '''' | Some s \<Rightarrow> s)"

lemma integer_bounds:
  assumes "integer to_number environ name fallback minimum maximum = Inr v"
  shows "minimum \<le> v \<and> v \<le> maximum"
  using assms
  by (auto simp: integer_def Let_def le_floor_iff floor_le_iff split: option.splits if_splits)

end
