(* ===== verification/Login_Base.thy ===== *)
theory Login_Base
  imports Js_Json
begin

text \<open>
  The interface the four \<^verbatim>\<open>LoginSessions\<close> classes offer to their servers: sessions are
  JavaScript objects (references into a heap) filed under a random id, each owned by the
  administrator that started it. The locale states what \<open>get\<close> promises; each adapter's
  class interprets it, and the isolation facts are proved once.
\<close>

datatype login_status = Pending | Completed | Expired | Failed

fun status_text :: "login_status \<Rightarrow> string" where
  "status_text Pending = ''pending''"
| "status_text Completed = ''completed''"
| "status_text Expired = ''expired''"
| "status_text Failed = ''failed''"

locale owned_sessions =
  fixes sessions :: "'s \<Rightarrow> (string \<times> nat) list"
    and owner_of :: "'s \<Rightarrow> nat \<Rightarrow> string"
    and expires_of :: "'s \<Rightarrow> nat \<Rightarrow> int"
    and get :: "string \<Rightarrow> string \<Rightarrow> int \<Rightarrow> 's \<Rightarrow> (thrown + nat) \<times> 's"
    and not_found :: thrown
  assumes not_found_status: "status_of not_found = Some 404"
    and get_missing: "map_of (sessions s) i = None \<Longrightarrow> get ow i now s = (Inl not_found, s)"
    and get_foreign: "map_of (sessions s) i = Some r \<Longrightarrow> owner_of s r \<noteq> ow
          \<Longrightarrow> get ow i now s = (Inl not_found, s)"
    and get_expired: "map_of (sessions s) i = Some r \<Longrightarrow> owner_of s r = ow \<Longrightarrow> expires_of s r \<le> now
          \<Longrightarrow> \<exists>e s'. get ow i now s = (Inl e, s') \<and> status_of e = Some 410
                \<and> sessions s' = AList.delete i (sessions s)"
    and get_live: "map_of (sessions s) i = Some r \<Longrightarrow> owner_of s r = ow \<Longrightarrow> now < expires_of s r
          \<Longrightarrow> get ow i now s = (Inr r, s) \<or> isl (fst (get ow i now s))"
begin

lemma foreign_like_missing:
  assumes "map_of (sessions s) i = Some r" "owner_of s r \<noteq> ow" "map_of (sessions s) j = None"
  shows "get ow i now s = get ow j now s"
  using get_foreign [OF assms(1,2)] get_missing [OF assms(3)] by simp

lemma get_owned:
  assumes "get ow i now s = (Inr r, s')"
  shows "map_of (sessions s) i = Some r \<and> owner_of s r = ow \<and> now < expires_of s r \<and> s' = s"
proof (cases "map_of (sessions s) i")
  case None
  then show ?thesis using get_missing assms by simp
next
  case (Some q)
  have own: "owner_of s q = ow" using get_foreign [OF Some, of ow now] assms by auto
  moreover have "now < expires_of s q" using get_expired [OF Some own, of now] assms by fastforce
  ultimately show ?thesis using get_live [OF Some own, of now] assms Some by auto
qed

text \<open>All a caller learns: its own live session, or the one answer for everything else.\<close>

lemma get_private:
  "case map_of (sessions s) i of
     None \<Rightarrow> get ow i now s = (Inl not_found, s)
   | Some r \<Rightarrow> if owner_of s r = ow
       then (case get ow i now s of (Inr q, s') \<Rightarrow> q = r \<and> now < expires_of s r \<and> s' = s | (Inl _, _) \<Rightarrow> True)
       else get ow i now s = (Inl not_found, s)"
proof (cases "map_of (sessions s) i")
  case None
  then show ?thesis using get_missing by simp
next
  case (Some r)
  obtain out s' where g: "get ow i now s = (out, s')" by fastforce
  show ?thesis
  proof (cases "owner_of s r = ow")
    case True
    then show ?thesis using Some g get_owned [of ow i now s _ s'] by (cases out) auto
  next
    case False
    then show ?thesis using Some get_foreign [OF Some False] by simp
  qed
qed

lemma get_expired_gone:
  assumes "map_of (sessions s) i = Some r" "owner_of s r = ow" "expires_of s r \<le> now"
  shows "map_of (sessions (snd (get ow i now s))) i = None"
  using get_expired [OF assms] by auto

end

end
