(* ===== verification/Windsurf_Connect.thy ===== *)
theory Windsurf_Connect
  imports Js_Base
begin

text \<open>
  \<^verbatim>\<open>src/tools/windsurf2api/src/connect.mjs\<close>: the Connect-RPC envelope. A frame is one
  flag byte, a big-endian 32-bit length and the payload. \<^verbatim>\<open>zlib\<close> is a parameter:
  \<open>gzip\<close> compresses, \<open>gunzip\<close> decompresses or throws. The theory shows that framing
  and deframing are inverse and that the streaming parser gives the same frames for every
  way of cutting the byte stream into chunks.
\<close>

unbundle bit_operations_syntax

definition MAX_FRAME_SIZE :: nat where
  "MAX_FRAME_SIZE = 16 * 1024 * 1024"

text \<open>\<^verbatim>\<open>writeUInt32BE\<close> and \<^verbatim>\<open>readUInt32BE\<close>.\<close>

definition be32 :: "nat \<Rightarrow> bytes" where
  "be32 n = [of_nat (n div 2 ^ 24), of_nat (n div 2 ^ 16), of_nat (n div 2 ^ 8), of_nat n]"

definition of_be32 :: "byte \<Rightarrow> byte \<Rightarrow> byte \<Rightarrow> byte \<Rightarrow> nat" where
  "of_be32 a b c d = unat a * 2 ^ 24 + unat b * 2 ^ 16 + unat c * 2 ^ 8 + unat d"

definition wrapEnvelope :: "(bytes \<Rightarrow> bytes) \<Rightarrow> bool \<Rightarrow> bytes \<Rightarrow> thrown + bytes" where
  "wrapEnvelope gzip compress protoBuf =
     (let zip = compress \<and> 0 < length protoBuf;
          payload = (if zip then gzip protoBuf else protoBuf);
          fl = (if zip then 1 else 0 :: byte)
      in if 2 ^ 32 \<le> length payload then Inl (range_error ''ERR_OUT_OF_RANGE'')
         else Inr (fl # be32 (length payload) @ payload))"

record frame =
  fr_flags :: byte
  isEndStream :: bool
  fr_payload :: bytes

text \<open>The payload of a frame, decompressed when its gzip flag is set.\<close>

definition frame_payload :: "(bytes \<Rightarrow> thrown + bytes) \<Rightarrow> byte \<Rightarrow> bytes \<Rightarrow> thrown + bytes" where
  "frame_payload gunzip fl raw = (if fl AND 1 \<noteq> 0 then gunzip raw else Inr raw)"

text \<open>
  The loop of \<open>decodeFrames\<close>: a complete frame at the front is taken off, an incomplete
  one (or fewer than five bytes) is the rest.
\<close>

fun decodeFrames :: "(bytes \<Rightarrow> thrown + bytes) \<Rightarrow> bytes \<Rightarrow> thrown + (frame list \<times> bytes)" where
  "decodeFrames gunzip (fl # a # b # c # d # body) =
     (let len = of_be32 a b c d
      in if MAX_FRAME_SIZE < len then Inl (plain_error ''Connect frame exceeds size limit'')
         else if length body < len then Inr ([], fl # a # b # c # d # body)
         else (case frame_payload gunzip fl (take len body) of
                 Inl e \<Rightarrow> Inl e
               | Inr payload \<Rightarrow>
                   (case decodeFrames gunzip (drop len body) of
                      Inl e \<Rightarrow> Inl e
                    | Inr (out, rest) \<Rightarrow>
                        Inr (\<lparr>fr_flags = fl, isEndStream = (fl AND 2 \<noteq> 0), fr_payload = payload\<rparr> # out,
                             rest))))"
| "decodeFrames gunzip buf = Inr ([], buf)"

text \<open>\<open>FrameParser.push\<close>: the buffer is replaced before a throw can happen.\<close>

definition push :: "(bytes \<Rightarrow> thrown + bytes) \<Rightarrow> bytes \<Rightarrow> bytes \<Rightarrow> (thrown + frame list) \<times> bytes" where
  "push gunzip buffer chunk =
     (let buf = (if buffer \<noteq> [] then buffer @ chunk else chunk)
      in case decodeFrames gunzip buf of
           Inl e \<Rightarrow> (Inl e, buf)
         | Inr (frames, rest) \<Rightarrow> (Inr frames, rest))"

text \<open>A sequence of chunks: the frames delivered in order, up to the first throw.\<close>

fun push_all :: "(bytes \<Rightarrow> thrown + bytes) \<Rightarrow> bytes \<Rightarrow> bytes list \<Rightarrow> (thrown + frame list) \<times> bytes" where
  "push_all gunzip buffer [] = (Inr [], buffer)"
| "push_all gunzip buffer (c # cs) =
     (case push gunzip buffer c of
        (Inl e, buf) \<Rightarrow> (Inl e, buf)
      | (Inr fs, rest) \<Rightarrow>
          (case push_all gunzip rest cs of
             (Inl e, buf) \<Rightarrow> (Inl e, buf)
           | (Inr gs, buf) \<Rightarrow> (Inr (fs @ gs), buf)))"

section \<open>Frames across chunk boundaries\<close>

lemma push_eq:
  "push gunzip buffer chunk =
     (case decodeFrames gunzip (buffer @ chunk) of
        Inl e \<Rightarrow> (Inl e, buffer @ chunk) | Inr (fs, rest) \<Rightarrow> (Inr fs, rest))"
  by (cases "buffer = []") (simp_all add: push_def Let_def split: sum.splits)

lemma decodeFrames_append_error:
  "decodeFrames gz buf = Inl e \<Longrightarrow> decodeFrames gz (buf @ tail) = Inl e"
  by (induction gz buf rule: decodeFrames.induct)
    (auto simp: Let_def split: if_splits sum.splits prod.splits)

lemma decodeFrames_append:
  "decodeFrames gz buf = Inr (fs, rest) \<Longrightarrow>
   decodeFrames gz (buf @ tail) =
     (case decodeFrames gz (rest @ tail) of
        Inl e \<Rightarrow> Inl e | Inr (gs, r) \<Rightarrow> Inr (fs @ gs, r))"
proof (induction gz buf arbitrary: fs rest rule: decodeFrames.induct)
  case (1 gz fl a b c d body)
  let ?len = "of_be32 a b c d"
  from "1.prems" have small: "\<not> MAX_FRAME_SIZE < ?len" by (auto simp: Let_def split: if_splits)
  show ?case
  proof (cases "length body < ?len")
    case True
    with "1.prems" small show ?thesis by (auto simp: Let_def split: sum.splits prod.splits)
  next
    case False
    from "1.prems" small False obtain p gs where
      p: "frame_payload gz fl (take ?len body) = Inr p"
      and gs: "decodeFrames gz (drop ?len body) = Inr (gs, rest)"
      and fs: "fs = \<lparr>fr_flags = fl, isEndStream = (fl AND 2 \<noteq> 0), fr_payload = p\<rparr> # gs"
      by (auto simp: Let_def split: sum.splits prod.splits)
    have "decodeFrames gz (drop ?len body @ tail) =
        (case decodeFrames gz (rest @ tail) of Inl e \<Rightarrow> Inl e | Inr (hs, r) \<Rightarrow> Inr (gs @ hs, r))"
      using "1.IH" [OF refl _ _ p gs] small False by simp
    then show ?thesis
      using small False p fs by (auto simp: Let_def split: sum.splits prod.splits)
  qed
qed (auto split: sum.splits)

lemma decodeFrames_rest:
  "decodeFrames gz buf = Inr (fs, rest) \<Longrightarrow> decodeFrames gz rest = Inr ([], rest)"
  by (induction gz buf arbitrary: fs rest rule: decodeFrames.induct)
    (auto simp: Let_def split: if_splits sum.splits prod.splits)

lemma push_all_decodeFrames:
  assumes "decodeFrames gz buf = Inr ([], buf)"
  shows "case decodeFrames gz (buf @ concat cs) of
           Inl e \<Rightarrow> fst (push_all gz buf cs) = Inl e
         | Inr (fs, rest) \<Rightarrow> push_all gz buf cs = (Inr fs, rest)"
  using assms
proof (induction cs arbitrary: buf)
  case Nil
  then show ?case by simp
next
  case (Cons c cs)
  show ?case
  proof (cases "decodeFrames gz (buf @ c)")
    case (Inl e)
    then show ?thesis
      using decodeFrames_append_error [of gz "buf @ c" e "concat cs"] by (simp add: push_eq)
  next
    case (Inr p)
    obtain fs rest where p: "p = (fs, rest)" by (cases p) auto
    with Inr have dec: "decodeFrames gz (buf @ c) = Inr (fs, rest)" by simp
    note ih = Cons.IH [OF decodeFrames_rest [OF dec]]
    show ?thesis
      using decodeFrames_append [OF dec, of "concat cs"] ih dec
      by (auto simp: push_eq split: sum.splits prod.splits)
  qed
qed

text \<open>
  C14: however the byte stream is cut into chunks, the streaming parser delivers exactly
  the frames that decoding the whole stream at once gives, and keeps the same rest; it
  throws if and only if decoding the whole stream throws, with the same error.
\<close>

theorem push_all_chunk_invariant:
  "case decodeFrames gunzip (concat cs) of
     Inl e \<Rightarrow> fst (push_all gunzip [] cs) = Inl e
   | Inr (fs, rest) \<Rightarrow> push_all gunzip [] cs = (Inr fs, rest)"
  using push_all_decodeFrames [of gunzip "[]" cs] by simp

section \<open>Round trip\<close>

lemma unat_of_nat_byte: "unat (of_nat n :: byte) = n mod 256"
  by (simp add: unat_of_nat)

lemma of_be32_be32:
  assumes "n < 2 ^ 32"
  shows "of_be32 (of_nat (n div 2 ^ 24)) (of_nat (n div 2 ^ 16)) (of_nat (n div 2 ^ 8)) (of_nat n) = n"
proof -
  have "n = 256 * (n div 256) + n mod 256" by simp
  moreover have "n div 256 = 256 * (n div 65536) + n div 256 mod 256"
    using mult_div_mod_eq [of 256 "n div 256"] by (simp only: div_mult2_eq [symmetric]) simp
  moreover have "n div 65536 = 256 * (n div 16777216) + n div 65536 mod 256"
    using mult_div_mod_eq [of 256 "n div 65536"] by (simp only: div_mult2_eq [symmetric]) simp
  moreover have "n div 16777216 mod 256 = n div 16777216"
    using assms by simp
  ultimately have "n div 16777216 mod 256 * 16777216 + n div 65536 mod 256 * 65536
      + n div 256 mod 256 * 256 + n mod 256 = n"
    by linarith
  moreover have "(2::nat) ^ 24 = 16777216" "(2::nat) ^ 16 = 65536" "(2::nat) ^ 8 = 256"
    by simp_all
  ultimately show ?thesis by (simp only: of_be32_def unat_of_nat_byte)
qed

lemma decodeFrames_wrap:
  assumes w: "wrapEnvelope gzip cmp p = Inr f"
    and inv: "\<And>x. gunzip (gzip x) = Inr x"
    and size: "length (if cmp \<and> p \<noteq> [] then gzip p else p) \<le> MAX_FRAME_SIZE"
  shows "decodeFrames gunzip (f @ tail) =
     (case decodeFrames gunzip tail of Inl e \<Rightarrow> Inl e
      | Inr (out, rest) \<Rightarrow>
          Inr (\<lparr>fr_flags = (if cmp \<and> p \<noteq> [] then 1 else 0), isEndStream = False, fr_payload = p\<rparr> # out, rest))"
proof -
  let ?zip = "cmp \<and> p \<noteq> []"
  let ?pl = "if ?zip then gzip p else p"
  let ?fl = "if ?zip then 1 else 0 :: byte"
  let ?n = "length ?pl"
  have n32: "?n < 2 ^ 32" using size unfolding MAX_FRAME_SIZE_def by (rule order.strict_trans1) simp
  have f: "f = ?fl # be32 ?n @ ?pl"
    using w by (auto simp: wrapEnvelope_def Let_def split: if_splits)
  have len: "of_be32 (of_nat (?n div 2 ^ 24)) (of_nat (?n div 2 ^ 16)) (of_nat (?n div 2 ^ 8)) (of_nat ?n) = ?n"
    by (rule of_be32_be32 [OF n32])
  have "(?fl AND 2) = 0" by simp
  moreover have "frame_payload gunzip ?fl ?pl = Inr p"
    using inv by (auto simp: frame_payload_def)
  moreover have "\<not> MAX_FRAME_SIZE < ?n" using size by simp
  ultimately show ?thesis
    unfolding f be32_def append_Cons append_Nil decodeFrames.simps Let_def len
    by (simp split: sum.splits)
qed

text \<open>The frames a receiver should see for the messages a sender wrapped.\<close>

definition sent_frame :: "bool \<times> bytes \<Rightarrow> frame" where
  "sent_frame m = \<lparr>fr_flags = (if fst m \<and> snd m \<noteq> [] then 1 else 0), isEndStream = False,
                   fr_payload = snd m\<rparr>"

text \<open>
  If decompression inverts compression and every payload respects the frame limit,
  the concatenation of any wrapped messages (each compressed or not) decodes to exactly
  these messages, in order, with nothing left over.
\<close>

theorem envelope_roundtrip:
  assumes "\<And>x. gunzip (gzip x) = Inr x"
    and "list_all2 (\<lambda>m f. wrapEnvelope gzip (fst m) (snd m) = Inr f) ms fs"
    and "list_all (\<lambda>m. length (if fst m \<and> snd m \<noteq> [] then gzip (snd m) else snd m) \<le> MAX_FRAME_SIZE) ms"
  shows "decodeFrames gunzip (concat fs) = Inr (map sent_frame ms, [])"
  using assms(2,3)
proof (induction ms fs rule: list_all2_induct)
  case (Cons m ms f fs)
  then show ?case
    using decodeFrames_wrap [OF Cons.hyps(1) assms(1), of "concat fs"]
    by (simp add: sent_frame_def)
qed simp

theorem envelope_roundtrip_witness:
  "decodeFrames Inr (concat [[0, 0, 0, 0, 2, 7, 8], [1, 0, 0, 0, 1, 9]])
     = Inr (map sent_frame [(False, [7, 8]), (True, [9])], [])"
proof (rule envelope_roundtrip [where gzip = "\<lambda>x. x"])
  show "list_all2 (\<lambda>m f. wrapEnvelope (\<lambda>x. x) (fst m) (snd m) = Inr f)
          [(False, [7, 8]), (True, [9])] [[0, 0, 0, 0, 2, 7, 8], [1, 0, 0, 0, 1, 9]]"
    by (simp add: wrapEnvelope_def be32_def)
qed (simp_all add: MAX_FRAME_SIZE_def)

section \<open>Headers\<close>

definition connectHeaders :: "(string \<times> string) list \<Rightarrow> (string \<times> string) list" where
  "connectHeaders extra = foldl (\<lambda>h (k, v). AList.update k v h)
     [(''Content-Type'', ''application/connect+proto''),
      (''Connect-Protocol-Version'', ''1''),
      (''Connect-Accept-Encoding'', ''gzip''),
      (''User-Agent'', ''connect-es/2.0.0'')] extra"

end
