(* ===== verification/Chat_Request.thy ===== *)
theory Chat_Request
  imports Js_Json
begin

text \<open>
  What the three \<^verbatim>\<open>normalizeRequest\<close> functions of the adapters (windsurf2api, cursor2api,
  arena2api) share: the checks they repeat word for word, and the contract their servers
  rely on, as a locale that each adapter's own function interprets.
\<close>

section \<open>Shared checks\<close>

text \<open>\<^verbatim>\<open>!body || typeof body !== "object" || Array.isArray(body)\<close>\<close>

fun not_object :: "json \<Rightarrow> bool" where
  "not_object (JObj kvs) = False"
| "not_object _ = True"

text \<open>\<^verbatim>\<open>!Array.isArray(v) || !v.length\<close>\<close>

definition not_filled_array :: "json option \<Rightarrow> bool" where
  "not_filled_array v = (case arr_of v of None \<Rightarrow> True | Some xs \<Rightarrow> xs = [])"

text \<open>\<^verbatim>\<open>v != null && (!Array.isArray(v) || v.length)\<close>\<close>

definition filled_or_odd :: "json option \<Rightarrow> bool" where
  "filled_or_odd v = (\<not> nullish v \<and> (case arr_of v of None \<Rightarrow> True | Some xs \<Rightarrow> xs \<noteq> []))"

text \<open>The first key of the body that the adapter does not take.\<close>

definition bad_field :: "string list \<Rightarrow> string list \<Rightarrow> json \<Rightarrow> string option" where
  "bad_field accepted unsupported body = (case body of
     JObj kvs \<Rightarrow> map_option fst (find (\<lambda>(k, v).
        (k \<notin> set accepted \<and> k \<notin> set unsupported) \<or> (k \<in> set unsupported \<and> v \<noteq> JNull)) kvs)
   | _ \<Rightarrow> None)"

definition bad_stream_options :: "json option \<Rightarrow> bool" where
  "bad_stream_options v = (\<not> nullish v \<and> (case obj_of v of
     None \<Rightarrow> True
   | Some kvs \<Rightarrow> list_ex (\<lambda>(k, _). k \<noteq> ''include_usage'') kvs
       \<or> (map_of kvs ''include_usage'' \<noteq> None \<and> \<not> is_bool (map_of kvs ''include_usage''))))"

definition chat_roles :: "string list" where
  "chat_roles = [''system'', ''developer'', ''user'', ''assistant'']"

text \<open>\<^verbatim>\<open>!message || ![...].includes(message.role)\<close>\<close>

definition bad_role :: "json \<Rightarrow> bool" where
  "bad_role message = (case str_of (getp message ''role'') of None \<Rightarrow> True | Some r \<Rightarrow> r \<notin> set chat_roles)"

text \<open>\<^verbatim>\<open>content.map((part) => part.text).join("\n")\<close>\<close>

definition parts_text :: "json list \<Rightarrow> string" where
  "parts_text ps =
     join_with ''\<newline>'' (map (\<lambda>p. case str_of (getp p ''text'') of None \<Rightarrow> '''' | Some t \<Rightarrow> t) ps)"

text \<open>
  The text of a message: a list of text parts is joined with line feeds (a part for which
  \<open>bad_part\<close> holds is refused), a string is taken as it is, anything else is refused.
\<close>

definition content_text :: "(json \<Rightarrow> bool) \<Rightarrow> thrown \<Rightarrow> thrown \<Rightarrow> json option \<Rightarrow> thrown + string" where
  "content_text bad_part unsupported invalid content = (case content of
     Some (JArr parts) \<Rightarrow>
       if list_ex bad_part parts then Inl unsupported
       else Inr (parts_text parts)
   | Some (JStr s) \<Rightarrow> Inr s
   | _ \<Rightarrow> Inl invalid)"

text \<open>\<^verbatim>\<open>!part || part.type !== "text" || typeof part.text !== "string"\<close>\<close>

definition not_text_part :: "json \<Rightarrow> bool" where
  "not_text_part p = (getp p ''type'' \<noteq> Some (JStr ''text'') \<or> str_of (getp p ''text'') = None)"

text \<open>The same with no field besides these two.\<close>

definition not_strict_text_part :: "json \<Rightarrow> bool" where
  "not_strict_text_part p = (not_text_part p \<or> list_ex (\<lambda>k. k \<noteq> ''type'' \<and> k \<noteq> ''text'') (keys_of p))"

definition wants_stream :: "json \<Rightarrow> bool" where
  "wants_stream body = (getp body ''stream'' = Some (JBool True))"

definition wants_usage :: "json \<Rightarrow> bool" where
  "wants_usage body = (ogetp (getp body ''stream_options'') ''include_usage'' = Some (JBool True))"

section \<open>Facts on the checks\<close>

lemma not_object_iff: "\<not> not_object b \<longleftrightarrow> (\<exists>kvs. b = JObj kvs)"
  by (cases b) auto

lemma not_filled_array_iff: "\<not> not_filled_array v \<longleftrightarrow> (\<exists>xs. v = Some (JArr xs) \<and> xs \<noteq> [])"
  by (auto simp: not_filled_array_def split: option.splits)

lemma bad_field_None:
  "bad_field accepted unsupported (JObj kvs) = None
     \<longleftrightarrow> (\<forall>(k, v) \<in> set kvs. k \<in> set accepted \<or> k \<in> set unsupported \<and> v = JNull)
        \<and> (\<forall>(k, v) \<in> set kvs. k \<in> set unsupported \<longrightarrow> v = JNull)"
  by (force simp: bad_field_def find_None_iff)

lemma content_text_JStr [simp]: "content_text b u i (Some (JStr s)) = Inr s"
  by (simp add: content_text_def)

lemma content_text_error:
  "content_text b u i c = Inl e \<Longrightarrow> e = u \<or> e = i"
  by (auto simp: content_text_def split: option.splits json.splits if_splits)

lemma content_text_Inr:
  "content_text b u i c = Inr t \<Longrightarrow>
     c = Some (JStr t) \<or> (\<exists>ps. c = Some (JArr ps) \<and> (\<forall>p \<in> set ps. \<not> b p) \<and> t = parts_text ps)"
  by (auto simp: content_text_def list_ex_iff split: option.splits json.splits if_splits)

lemma map_js_error: "map_js f xs = Inl e \<Longrightarrow> \<exists>x \<in> set xs. f x = Inl e"
  by (induction xs) (auto split: sum.splits)

lemma bad_role_iff:
  "\<not> bad_role m \<longleftrightarrow> (\<exists>r. getp m ''role'' = Some (JStr r) \<and> r \<in> set chat_roles)"
  by (auto simp: bad_role_def split: option.splits)

section \<open>The contract\<close>

text \<open>A computation all of whose refusals are adapter errors with a 4xx status.\<close>

definition client_error :: "thrown + 'a \<Rightarrow> bool" where
  "client_error r \<longleftrightarrow> (\<forall>e. r = Inl e \<longrightarrow> (\<exists>s c m. e = Adapter s c m \<and> 400 \<le> s \<and> s < 500))"

lemma client_error_Inr [intro]: "client_error (Inr x)"
  by (simp add: client_error_def)

lemma client_error_Inl [intro]: "400 \<le> s \<Longrightarrow> s < 500 \<Longrightarrow> client_error (Inl (Adapter s c m))"
  by (auto simp: client_error_def)

lemma client_error_bind [intro]:
  "client_error r \<Longrightarrow> (\<And>x. client_error (f x)) \<Longrightarrow> client_error (bind_js r f)"
  by (cases r) (auto simp: client_error_def)

lemma client_error_guard [intro]: "400 \<le> s \<Longrightarrow> s < 500 \<Longrightarrow> client_error (guard_js b (Adapter s c m))"
  by (auto simp: client_error_def guard_js_def)

lemma client_error_map_js [intro]: "(\<And>x. client_error (f x)) \<Longrightarrow> client_error (map_js f xs)"
  unfolding client_error_def using map_js_error by metis

lemma client_error_content_text [intro]:
  "client_error (Inl u :: thrown + string) \<Longrightarrow> client_error (Inl i :: thrown + string)
     \<Longrightarrow> client_error (content_text b u i c)"
  unfolding client_error_def using content_text_error by fastforce

lemma client_error_option [intro]:
  "v = None \<or> client_error (f (the v)) \<Longrightarrow> client_error g \<Longrightarrow> client_error (case v of None \<Rightarrow> g | Some x \<Rightarrow> f x)"
  by (cases v) auto

lemma bad_field_Inr:
  "(case bad_field a u (JObj kvs) of Some f \<Rightarrow> Inl (E f) | None \<Rightarrow> Inr ()) = Inr x
     \<Longrightarrow> \<forall>(k, v) \<in> set kvs. k \<in> set a \<or> v = JNull"
  by (cases "bad_field a u (JObj kvs)") (auto simp: bad_field_None)

text \<open>
  What a server relies on after \<^verbatim>\<open>normalizeRequest(await readJSON(...))\<close>: a refusal is an
  adapter error with a 4xx status; an accepted body is an object, names a model, carries
  nothing the adapter does not take, and ends in a user message with visible text.
\<close>

definition user_turn :: "json \<Rightarrow> string \<Rightarrow> bool" where
  "user_turn message t \<longleftrightarrow> getp message ''role'' = Some (JStr ''user'') \<and> trim t \<noteq> []
     \<and> (getp message ''content'' = Some (JStr t)
        \<or> (\<exists>ps. getp message ''content'' = Some (JArr ps) \<and> t = parts_text ps))"

locale chat_normalizer =
  fixes normalize :: "json \<Rightarrow> thrown + 'r"
    and model_of :: "'r \<Rightarrow> string"
    and stream_of :: "'r \<Rightarrow> bool"
    and taken :: "string list"
  assumes refusal: "normalize b = Inl e \<Longrightarrow> \<exists>s c m. e = Adapter s c m \<and> 400 \<le> s \<and> s < 500"
    and accepted_fields: "normalize (JObj kvs) = Inr r \<Longrightarrow> (k, v) \<in> set kvs \<Longrightarrow> k \<in> set taken \<or> v = JNull"
    and accepted_object: "normalize b = Inr r \<Longrightarrow> \<exists>kvs. b = JObj kvs"
    and accepted_model: "normalize b = Inr r
          \<Longrightarrow> \<exists>s. getp b ''model'' = Some (JStr s) \<and> model_of r = trim s \<and> trim s \<noteq> []"
    and accepted_stream: "normalize b = Inr r \<Longrightarrow> stream_of r = wants_stream b"
    and accepted_turn: "normalize b = Inr r
          \<Longrightarrow> \<exists>ms t. getp b ''messages'' = Some (JArr ms) \<and> ms \<noteq> [] \<and> user_turn (last ms) t"
begin

lemma refusal_not_server_error:
  assumes "normalize b = Inl e"
  shows "\<exists>s. status_of e = Some s \<and> 400 \<le> s \<and> s < 500"
  using refusal [OF assms] by auto

lemma foreign_field_refused:
  assumes "(k, v) \<in> set kvs" "k \<notin> set taken" "v \<noteq> JNull"
  shows "\<exists>e s. normalize (JObj kvs) = Inl e \<and> status_of e = Some s \<and> 400 \<le> s \<and> s < 500"
proof (cases "normalize (JObj kvs)")
  case (Inl e)
  then show ?thesis using refusal_not_server_error by auto
next
  case (Inr r)
  then show ?thesis using accepted_fields assms by blast
qed

lemma no_user_turn_refused:
  assumes "\<not> (\<exists>ms t. getp b ''messages'' = Some (JArr ms) \<and> ms \<noteq> [] \<and> user_turn (last ms) t)"
  shows "\<exists>e. normalize b = Inl e"
  using assms accepted_turn by (cases "normalize b") blast+

end

end
