(* ===== verification/Windsurf_Proto.thy ===== *)
theory Windsurf_Proto
  imports Js_Base
begin

text \<open>
  \<^verbatim>\<open>src/tools/windsurf2api/src/proto.mjs\<close>: the schema-less protobuf wire codec.
  Varints are encoded and decoded as the source does, with one path for 31-bit numbers
  and one for BigInt; fields are parsed into a list. The theory shows that decoding
  inverts encoding for every 64-bit value, that the parser always consumes input (so it
  ends), and that parsing a sequence of written fields gives the fields back.
\<close>

unbundle bit_operations_syntax

section \<open>Numbers\<close>

text \<open>A JavaScript number (finite) or a BigInt.\<close>

datatype jsnumber = JsNum rat | JsBig int

fun bit_length :: "nat \<Rightarrow> nat" where
  "bit_length n = (if n = 0 then 0 else Suc (bit_length (n div 2)))"

declare bit_length.simps [simp del]

text \<open>\<^verbatim>\<open>Number(big)\<close> on a non-negative BigInt: 53 significant bits, ties to even.\<close>

definition round_double :: "nat \<Rightarrow> nat" where
  "round_double n =
     (if n < 2 ^ 53 then n
      else (let e = bit_length n - 53; q = n div 2 ^ e; r = n mod 2 ^ e; half = 2 ^ (e - 1)
            in (if half < r \<or> (r = half \<and> odd q) then Suc q else q) * 2 ^ e))"

definition number_of_big :: "int \<Rightarrow> int" where
  "number_of_big i = (if i < 0 then - int (round_double (nat (- i))) else int (round_double (nat i)))"

fun number_of :: "jsnumber \<Rightarrow> rat" where
  "number_of (JsNum q) = q"
| "number_of (JsBig i) = of_int (number_of_big i)"


lemma bit_length_lower: "0 < n \<Longrightarrow> 2 ^ (bit_length n - 1) \<le> n"
proof (induction n rule: bit_length.induct)
  case (1 n)
  show ?case
  proof (cases "n = 1")
    case True
    then show ?thesis by (simp add: bit_length.simps)
  next
    case False
    with "1.prems" have pos: "0 < n div 2" by simp
    with "1.IH" "1.prems" have IH: "2 ^ (bit_length (n div 2) - 1) \<le> n div 2" by simp
    have "0 < bit_length (n div 2)" using pos by (subst bit_length.simps) simp
    then have "bit_length n - 1 = Suc (bit_length (n div 2) - 1)"
      using "1.prems" by (subst bit_length.simps) simp
    then show ?thesis using IH by simp
  qed
qed

lemma bit_length_upper: "n < 2 ^ bit_length n"
proof (induction n rule: bit_length.induct)
  case (1 n)
  show ?case
  proof (cases "n = 0")
    case False
    with 1 have "n div 2 < 2 ^ bit_length (n div 2)" by simp
    then show ?thesis using False by (subst bit_length.simps) simp
  qed simp
qed

lemma round_double_ge:
  assumes "2 ^ 53 \<le> n"
  shows "2 ^ 53 \<le> round_double n"
proof -
  let ?e = "bit_length n - 53"
  have "(2::nat) ^ 53 < 2 ^ bit_length n"
    using assms bit_length_upper [of n] by (rule le_less_trans)
  then have len: "53 < bit_length n" by (rule power_less_imp_less_exp [rotated]) simp
  then have split: "bit_length n - 1 = 52 + ?e" by simp
  have "0 < n" using assms by simp
  then have "2 ^ (bit_length n - 1) \<le> n" by (rule bit_length_lower)
  then have "2 ^ (52 + ?e) \<le> n" unfolding split .
  then have "2 ^ 52 \<le> n div 2 ^ ?e"
    by (simp add: less_eq_div_iff_mult_less_eq power_add)
  then have "(2::nat) ^ 52 * 2 ^ ?e \<le> n div 2 ^ ?e * 2 ^ ?e" by simp
  moreover have "(2::nat) ^ 53 \<le> 2 ^ 52 * 2 ^ ?e"
  proof -
    have "(2::nat) ^ 53 \<le> 2 ^ (52 + ?e)" using len by (intro power_increasing) auto
    then show ?thesis by (simp only: power_add)
  qed
  moreover have "n div 2 ^ ?e * 2 ^ ?e \<le> round_double n"
    using assms by (simp add: round_double_def Let_def)
  ultimately show ?thesis by linarith
qed

section \<open>Varints\<close>

text \<open>The BigInt loop of \<open>encodeVarint\<close>, on the masked value.\<close>

function enc_big :: "nat \<Rightarrow> bytes" where
  "enc_big b =
     (let byte = b AND 127; b' = drop_bit 7 b
      in if b' = 0 then [of_nat byte] else of_nat (byte OR 128) # enc_big b')"
  by pat_completeness auto
termination
  by (relation "measure id") (auto simp: drop_bit_eq_div)

text \<open>The 31-bit loop: a do-while, the continuation bit is set after the shift.\<close>

function enc_small :: "nat \<Rightarrow> bytes" where
  "enc_small v =
     (let byte = v AND 127; v' = drop_bit 7 v; byte' = (if 0 < v' then byte OR 128 else byte)
      in of_nat byte' # (if 0 < v' then enc_small v' else []))"
  by pat_completeness auto
termination
  by (relation "measure id") (auto simp: drop_bit_eq_div)

declare enc_big.simps [simp del] enc_small.simps [simp del]

definition mask64 :: "int \<Rightarrow> nat" where
  "mask64 i = nat (i AND 0xffffffffffffffff)"

definition encodeVarint :: "jsnumber \<Rightarrow> thrown + bytes" where
  "encodeVarint value = (case value of
     JsBig i \<Rightarrow> Inr (enc_big (mask64 i))
   | JsNum q \<Rightarrow>
       if q < 0 \<or> 0x7fffffff < q then
         (if q = of_int \<lfloor>q\<rfloor> then Inr (enc_big (mask64 \<lfloor>q\<rfloor>))
          else Inl (range_error ''not an integer''))
       else Inr (enc_small (nat \<lfloor>q\<rfloor>)))"

text \<open>
  \<open>decodeVarint\<close>: the first loop reads at most four bytes into a 28-bit number, the
  second continues on a BigInt. The arguments are the unread bytes, the accumulated
  value, the shift and the number of bytes read.
\<close>

fun decode_big :: "bytes \<Rightarrow> nat \<Rightarrow> nat \<Rightarrow> nat \<Rightarrow> thrown + (jsnumber \<times> nat)" where
  "decode_big [] big bigShift n = Inl (plain_error ''Truncated varint'')"
| "decode_big (byte # bs) big bigShift n =
     (let big' = big OR push_bit bigShift (unat byte AND 127)
      in if unat byte AND 128 = 0 then
           (let asNum = of_nat (round_double big') :: rat
            in Inr (if is_safe_integer asNum then JsNum asNum else JsBig (int big'), Suc n))
         else if 64 \<le> bigShift + 7 then Inl (plain_error ''Varint overflow'')
         else decode_big bs big' (bigShift + 7) (Suc n))"

fun decode_small :: "bytes \<Rightarrow> nat \<Rightarrow> nat \<Rightarrow> nat \<Rightarrow> thrown + (jsnumber \<times> nat)" where
  "decode_small [] result shift n = Inl (plain_error ''Truncated varint'')"
| "decode_small (byte # bs) result shift n =
     (if shift < 28 then
        (let result' = result OR push_bit shift (unat byte AND 127)
         in if unat byte AND 128 = 0 then Inr (JsNum (of_nat result'), Suc n)
            else decode_small bs result' (shift + 7) (Suc n))
      else decode_big (byte # bs) result shift n)"

definition decodeVarint :: "bytes \<Rightarrow> nat \<Rightarrow> thrown + (jsnumber \<times> nat)" where
  "decodeVarint buf offset = decode_small (drop offset buf) 0 0 0"

subsection \<open>Bit facts\<close>

lemma and_127: "(n::nat) AND 127 = n mod 128"
  using take_bit_eq_mask [of 7 n] by (simp add: take_bit_eq_mod mask_eq_exp_minus_1)

lemma drop_bit_7: "drop_bit 7 (n::nat) = n div 128"
  by (simp add: drop_bit_eq_div)

lemma or_128: "n < 128 \<Longrightarrow> n OR 128 = n + (128::nat)"
proof -
  assume n: "n < 128"
  have "n + 128 = n OR 128"
  proof (rule disjunctive_add)
    fix k
    show "\<not> bit n k \<or> \<not> bit (128::nat) k"
    proof (cases "k = 7")
      case True
      with n show ?thesis by (simp add: bit_iff_odd)
    next
      case False
      have "(128::nat) = 2 ^ 7" by simp
      with False show ?thesis by (metis bit_exp_iff)
    qed
  qed
  then show ?thesis by simp
qed

lemma and_128_byte: "n < 256 \<Longrightarrow> (n AND 128 = (0::nat)) = (n < 128)"
proof -
  assume n: "n < 256"
  have "(n AND 2 ^ 7 = 0) = (\<not> bit n 7)" by (rule and_exp_eq_0_iff_not_bit)
  also have "\<dots> = (n < 128)"
  proof (cases "n < 128")
    case False
    with n have "n div 2 ^ 7 = 1" by (simp add: div_nat_eqI)
    with False show ?thesis by (simp add: bit_iff_odd)
  qed (simp add: bit_iff_odd)
  finally show ?thesis by simp
qed

lemma or_push_bit:
  fixes a b k :: nat
  assumes "a < 2 ^ k"
  shows "a OR push_bit k b = a + b * 2 ^ k"
proof -
  have "a + push_bit k b = a OR push_bit k b"
  proof (rule disjunctive_add)
    fix n
    show "\<not> bit a n \<or> \<not> bit (push_bit k b) n"
    proof (cases "n < k")
      case False
      then have "a < 2 ^ n" using assms
        by (meson less_le_trans linorder_not_less one_le_numeral power_increasing)
      then show ?thesis by (simp add: bit_iff_odd)
    qed (simp add: bit_push_bit_iff)
  qed
  then show ?thesis by (simp add: push_bit_eq_mult)
qed

lemma byte_cont:
  "unat (of_nat (n mod 128 OR 128) :: byte) AND 127 = n mod 128"
  "unat (of_nat (n mod 128 OR 128) :: byte) AND 128 \<noteq> 0"
proof -
  have u: "unat (of_nat (n mod 128 OR 128) :: byte) = n mod 128 + 128"
    by (simp only: unat_of_nat) (simp add: or_128)
  show "unat (of_nat (n mod 128 OR 128) :: byte) AND 127 = n mod 128"
    by (simp add: u and_127)
  show "unat (of_nat (n mod 128 OR 128) :: byte) AND 128 \<noteq> 0"
    unfolding u by (subst and_128_byte) auto
qed

lemma byte_last:
  assumes "n < 128"
  shows "unat (of_nat n :: byte) AND 127 = n" and "unat (of_nat n :: byte) AND 128 = 0"
  using assms by (auto simp: unat_of_nat and_127 and_128_byte)

lemma enc_big_unfold:
  "enc_big v = (if v < 128 then [of_nat v] else of_nat (v mod 128 OR 128) # enc_big (v div 128))"
  by (subst enc_big.simps) (simp add: and_127 drop_bit_7 Let_def div_eq_0_iff)

lemma enc_small_eq_enc_big: "enc_small v = enc_big v"
proof (induction v rule: enc_small.induct)
  case (1 v)
  then show ?case
    by (subst enc_small.simps, subst enc_big_unfold)
      (auto simp: and_127 drop_bit_7 Let_def div_eq_0_iff div_greater_zero_iff)
qed

lemma enc_big_nonempty [simp]: "enc_big v \<noteq> []"
  by (subst enc_big_unfold) simp

lemma mask64_eq: "mask64 i = nat (i mod 2 ^ 64)"
proof -
  have "i AND mask 64 = i mod 2 ^ 64"
    by (simp only: take_bit_eq_mask [symmetric] take_bit_eq_mod)
  then show ?thesis by (simp add: mask64_def mask_eq_exp_minus_1)
qed

lemma mask64_less: "mask64 i < 2 ^ 64"
  by (simp add: mask64_eq nat_less_iff)

lemma mask64_of_nat: "n < 2 ^ 64 \<Longrightarrow> mask64 (int n) = n"
  by (simp add: mask64_eq)

subsection \<open>Decoding inverts encoding\<close>

text \<open>The value the decoder returns for the unsigned integer \<open>v\<close>.\<close>

definition js_uint :: "nat \<Rightarrow> jsnumber" where
  "js_uint v = (if v < 2 ^ 53 then JsNum (of_nat v) else JsBig (int v))"

lemma is_safe_integer_of_nat: "is_safe_integer (of_nat n) \<longleftrightarrow> n < 2 ^ 53"
proof -
  have "(of_nat n :: rat) \<le> 9007199254740991 \<longleftrightarrow> n \<le> 9007199254740991"
    by (metis of_nat_le_iff of_nat_numeral)
  then show ?thesis by (auto simp: is_safe_integer_def)
qed

lemma safe_round_iff: "is_safe_integer (of_nat (round_double n)) \<longleftrightarrow> n < 2 ^ 53"
  using round_double_ge [of n]
  by (auto simp: is_safe_integer_of_nat round_double_def)

lemma decoded_value:
  "(if is_safe_integer (of_nat (round_double n)) then JsNum (of_nat (round_double n)) else JsBig (int n))
     = js_uint n"
  by (simp add: js_uint_def safe_round_iff) (simp add: round_double_def)

lemma push_bound:
  fixes a v s :: nat
  assumes "a < 2 ^ s" shows "a + (v mod 128) * 2 ^ s < 2 ^ (s + 7)"
proof -
  have "(v mod 128) * 2 ^ s \<le> 127 * 2 ^ s" by simp
  then have "a + (v mod 128) * 2 ^ s < 2 ^ s + 127 * 2 ^ s" using assms by linarith
  then show ?thesis by (simp add: power_add)
qed

lemma shift_step:
  fixes a v s :: nat
  shows "a + (v mod 128) * 2 ^ s + (v div 128) * 2 ^ (s + 7) = a + v * 2 ^ s"
proof -
  have "(v mod 128) * 2 ^ s + (v div 128) * 2 ^ (s + 7) = (v mod 128 + v div 128 * 128) * 2 ^ s"
    by (simp only: power_add distrib_right) simp
  then show ?thesis by (simp only: mod_div_mult_eq add.assoc)
qed

lemma next_value_bound:
  fixes v s :: nat
  assumes "v < 2 ^ (64 - s)" "128 \<le> v"
  shows "s + 7 < 64" and "v div 128 < 2 ^ (64 - (s + 7))"
proof -
  show s: "s + 7 < 64"
  proof (rule ccontr)
    assume "\<not> s + 7 < 64"
    then have "(2::nat) ^ (64 - s) \<le> 2 ^ 7" by (intro power_increasing) auto
    with assms show False by simp
  qed
  from s have "64 - s = (64 - (s + 7)) + 7" by simp
  then have "(2::nat) ^ (64 - s) = 2 ^ (64 - (s + 7)) * 128" by (simp only: power_add) simp
  with assms(1) show "v div 128 < 2 ^ (64 - (s + 7))"
    by (simp add: less_mult_imp_div_less)
qed

lemma decode_big_enc_big:
  assumes "a < 2 ^ s" "v < 2 ^ (64 - s)"
  shows "decode_big (enc_big v @ rest) a s n
           = Inr (js_uint (a + v * 2 ^ s), n + length (enc_big v))"
  using assms
proof (induction v arbitrary: a s n rule: enc_big.induct)
  case (1 v)
  show ?case
  proof (cases "v < 128")
    case True
    then show ?thesis
      using "1.prems"(1)
      by (simp add: enc_big_unfold [of v] byte_last or_push_bit decoded_value Let_def del: push_bit_nat_def)
  next
    case False
    note nb = next_value_bound [OF "1.prems"(2)]
    have ih: "decode_big (enc_big (v div 128) @ rest) (a + (v mod 128) * 2 ^ s) (s + 7) (Suc n)
       = Inr (js_uint (a + (v mod 128) * 2 ^ s + (v div 128) * 2 ^ (s + 7)),
              Suc n + length (enc_big (v div 128)))"
      using "1.IH" [OF refl refl, of "a + (v mod 128) * 2 ^ s" "s + 7" "Suc n"] False nb
        push_bound [OF "1.prems"(1), of v]
      by (simp add: drop_bit_7 div_eq_0_iff)
    show ?thesis
      using False nb(1) "1.prems"(1) ih
      by (simp add: enc_big_unfold [of v] byte_cont or_push_bit Let_def shift_step)
  qed
qed

lemma decode_small_enc_big:
  assumes "a < 2 ^ s" "v < 2 ^ (64 - s)" "s \<le> 28" "a + v * 2 ^ s < 2 ^ 64" "7 dvd s"
  shows "decode_small (enc_big v @ rest) a s n
           = Inr (js_uint (a + v * 2 ^ s), n + length (enc_big v))"
  using assms
proof (induction v arbitrary: a s n rule: enc_big.induct)
  case (1 v)
  consider (big) "s = 28" | (stop) "s < 28" "v < 128" | (go) "s < 28" "\<not> v < 128"
    using "1.prems"(3) by linarith
  then show ?case
  proof cases
    case big
    obtain x xs where x: "enc_big v = x # xs" by (cases "enc_big v") auto
    show ?thesis
      using decode_big_enc_big [OF "1.prems"(1,2), of rest n] big by (simp add: x)
  next
    case stop
    have "v * 2 ^ s < 128 * 2 ^ s" using stop by simp
    moreover have "(128::nat) * 2 ^ s = 2 ^ (s + 7)" by (simp add: power_add)
    ultimately have "a + v * 2 ^ s < 2 ^ (s + 7) + 2 ^ s"
      using "1.prems"(1) by linarith
    also have "\<dots> \<le> 2 ^ 35 + 2 ^ 28"
      using stop by (intro add_mono power_increasing) auto
    finally have "a + v * 2 ^ s < 2 ^ 53" by simp
    then show ?thesis
      using stop "1.prems"(1)
      by (simp add: enc_big_unfold [of v] byte_last or_push_bit Let_def js_uint_def)
  next
    case go
    note nb = next_value_bound [OF "1.prems"(2)]
    have s7: "s + 7 \<le> 28" using go(1) "1.prems"(5) by presburger
    have ih: "decode_small (enc_big (v div 128) @ rest) (a + (v mod 128) * 2 ^ s) (s + 7) (Suc n)
       = Inr (js_uint (a + v * 2 ^ s), Suc n + length (enc_big (v div 128)))"
      using "1.IH" [OF refl refl, of "a + (v mod 128) * 2 ^ s" "s + 7" "Suc n"] go nb
        push_bound [OF "1.prems"(1), of v] "1.prems"(4,5) shift_step [of a v s] s7
      by (simp add: drop_bit_7 div_eq_0_iff)
    show ?thesis
      using go "1.prems"(1) ih
      by (simp add: enc_big_unfold [of v] byte_cont or_push_bit Let_def shift_step)
  qed
qed

lemma decodeVarint_enc_big:
  assumes "v < 2 ^ 64"
  shows "decodeVarint (enc_big v @ rest) 0 = Inr (js_uint v, length (enc_big v))"
  using decode_small_enc_big [of 0 0 v rest 0] assms by (simp add: decodeVarint_def)

lemma decodeVarint_offset:
  "decodeVarint (pre @ bs) (length pre) = decodeVarint bs 0"
  by (simp add: decodeVarint_def)

subsection \<open>Progress\<close>

lemma decode_big_progress:
  "decode_big bs big sh n = Inr (v, m) \<Longrightarrow> n < m \<and> m \<le> n + length bs"
  by (induction bs big sh n rule: decode_big.induct) (auto simp: Let_def split: if_splits)

lemma decode_small_progress:
  "decode_small bs r sh n = Inr (v, m) \<Longrightarrow> n < m \<and> m \<le> n + length bs"
proof (induction bs r sh n rule: decode_small.induct)
  case (2 b bs r sh n)
  then show ?case
    using decode_big_progress [of "b # bs" r sh n v m] by (auto simp: Let_def split: if_splits)
qed simp

lemma decodeVarint_progress:
  "decodeVarint buf off = Inr (v, m) \<Longrightarrow> 0 < m \<and> m \<le> length buf - off"
  using decode_small_progress [of "drop off buf" 0 0 0 v m] by (simp add: decodeVarint_def)

section \<open>Writing fields\<close>

text \<open>\<^verbatim>\<open>encodeVarint\<close> of an integer number never throws: its bytes.\<close>

definition varint :: "int \<Rightarrow> bytes" where
  "varint i = (case encodeVarint (JsNum (of_int i)) of Inl e \<Rightarrow> [] | Inr bs \<Rightarrow> bs)"

text \<open>\<^verbatim>\<open>(field << 3) | wireType\<close> is a signed 32-bit integer.\<close>

definition tag :: "nat \<Rightarrow> nat \<Rightarrow> bytes" where
  "tag field wireType = varint (signed_take_bit 31 (push_bit 3 (int field) OR int wireType))"

definition writeVarintField :: "nat \<Rightarrow> jsnumber \<Rightarrow> thrown + bytes" where
  "writeVarintField field value =
     (case encodeVarint value of Inl e \<Rightarrow> Inl e | Inr bs \<Rightarrow> Inr (tag field 0 @ bs))"

text \<open>The same with an integer number as the value, which never throws.\<close>

definition writeIntField :: "nat \<Rightarrow> int \<Rightarrow> bytes" where
  "writeIntField field i = tag field 0 @ varint i"

text \<open>\<open>None\<close> is undefined or null, for which nothing is written.\<close>

definition writeStringField :: "nat \<Rightarrow> string option \<Rightarrow> bytes" where
  "writeStringField field str = (case str of
     None \<Rightarrow> []
   | Some s \<Rightarrow> (let data = utf8 s in tag field 2 @ varint (int (length data)) @ data))"

definition writeBytesField :: "nat \<Rightarrow> bytes \<Rightarrow> bytes" where
  "writeBytesField field buf = tag field 2 @ varint (int (length buf)) @ buf"

definition writeMessageField :: "nat \<Rightarrow> bytes \<Rightarrow> bytes" where
  "writeMessageField field msgBuf =
     (if msgBuf = [] then [] else tag field 2 @ varint (int (length msgBuf)) @ msgBuf)"

definition writeFixed64Field :: "nat \<Rightarrow> bytes \<Rightarrow> bytes" where
  "writeFixed64Field field buf8 = tag field 1 @ buf8"

section \<open>Parsing fields\<close>

datatype fvalue = VNum jsnumber | VBuf bytes

record pfield =
  fieldNum :: nat
  wireType :: nat
  fvalue :: fvalue

text \<open>The switch on the wire type: the value and the unread bytes.\<close>

definition parse_value :: "nat \<Rightarrow> bytes \<Rightarrow> thrown + (fvalue \<times> bytes)" where
  "parse_value wt buf =
     (if wt = 0 then
        (case decodeVarint buf 0 of Inl e \<Rightarrow> Inl e | Inr (v, n) \<Rightarrow> Inr (VNum v, drop n buf))
      else if wt = 1 then
        (if length buf < 8 then Inl (plain_error ''truncated fixed64'')
         else Inr (VBuf (take 8 buf), drop 8 buf))
      else if wt = 2 then
        (case decodeVarint buf 0 of Inl e \<Rightarrow> Inl e
         | Inr (len, n) \<Rightarrow>
             (let size = number_of len; rest = drop n buf
              in if size < 0 \<or> of_nat (length rest) < size
                 then Inl (plain_error ''truncated len-delimited'')
                 else Inr (VBuf (take (nat \<lfloor>size\<rfloor>) rest), drop (nat \<lfloor>size\<rfloor>) rest)))
      else if wt = 5 then
        (if length buf < 4 then Inl (plain_error ''truncated fixed32'')
         else Inr (VBuf (take 4 buf), drop 4 buf))
      else Inl (plain_error ''Unknown wire type''))"

lemma parse_value_length: "parse_value wt buf = Inr (v, rest) \<Longrightarrow> length rest \<le> length buf"
  by (auto simp: parse_value_def Let_def split: if_splits sum.splits prod.splits)

text \<open>\<^verbatim>\<open>>>> 3\<close> works on the number modulo two to the 32.\<close>

function parseFields :: "bytes \<Rightarrow> thrown + pfield list" where
  "parseFields buf =
     (if buf = [] then Inr []
      else (case decodeVarint buf 0 of Inl e \<Rightarrow> Inl e
       | Inr (t, n) \<Rightarrow>
          (let x = nat \<lfloor>number_of t\<rfloor>; num = drop_bit 3 (take_bit 32 x); wt = x AND 7
           in case parse_value wt (drop n buf) of Inl e \<Rightarrow> Inl e
            | Inr (v, rest) \<Rightarrow>
                (case parseFields rest of Inl e \<Rightarrow> Inl e
                 | Inr fs \<Rightarrow> Inr (\<lparr>fieldNum = num, wireType = wt, fvalue = v\<rparr> # fs)))))"
  by pat_completeness auto
termination
  by (relation "measure length")
    (auto dest!: decodeVarint_progress parse_value_length simp: neq_Nil_conv)

declare parseFields.simps [simp del]

definition getField :: "pfield list \<Rightarrow> nat \<Rightarrow> nat option \<Rightarrow> pfield option" where
  "getField fs num wt =
     find (\<lambda>f. fieldNum f = num \<and> (case wt of None \<Rightarrow> True | Some w \<Rightarrow> wireType f = w)) fs"

definition getAllFields :: "pfield list \<Rightarrow> nat \<Rightarrow> pfield list" where
  "getAllFields fs num = filter (\<lambda>f. fieldNum f = num) fs"

section \<open>Properties\<close>

lemma length_enc_big: "v < 2 ^ (7 * k) \<Longrightarrow> 0 < k \<Longrightarrow> length (enc_big v) \<le> k"
proof (induction v arbitrary: k rule: enc_big.induct)
  case (1 v)
  show ?case
  proof (cases "v < 128")
    case False
    obtain j where k: "k = Suc j" using "1.prems"(2) by (cases k) auto
    have "v div 128 < 2 ^ (7 * j)"
      using "1.prems"(1) by (simp add: k power_add less_mult_imp_div_less mult.commute)
    moreover have "0 < j"
    proof (rule ccontr)
      assume "\<not> 0 < j"
      with "1.prems"(1) k False show False by simp
    qed
    ultimately have "length (enc_big (v div 128)) \<le> j"
      using "1.IH" [OF refl refl, of j] False by (simp add: drop_bit_7 div_eq_0_iff)
    then show ?thesis using False by (subst enc_big_unfold) (simp add: k)
  qed (use "1.prems"(2) in \<open>subst enc_big_unfold, simp\<close>)
qed

lemma encodeVarint_int:
  "encodeVarint (JsNum (of_int i)) = Inr (enc_big (mask64 i))"
proof (cases "i < 0 \<or> 0x7fffffff < i")
  case True
  then have "(of_int i :: rat) < 0 \<or> 0x7fffffff < (of_int i :: rat)"
    by (metis of_int_0 of_int_less_iff of_int_numeral)
  then show ?thesis by (auto simp: encodeVarint_def)
next
  case False
  then have "\<not> ((of_int i :: rat) < 0 \<or> 0x7fffffff < (of_int i :: rat))"
    by (metis of_int_0 of_int_less_iff of_int_numeral)
  moreover have "mask64 i = nat i"
    using False by (simp add: mask64_eq)
  ultimately show ?thesis by (simp add: encodeVarint_def enc_small_eq_enc_big)
qed

lemma varint_eq: "varint i = enc_big (mask64 i)"
  by (simp add: varint_def encodeVarint_int)

lemma writeVarintField_int: "writeVarintField f (JsNum (of_int i)) = Inr (writeIntField f i)"
  by (simp add: writeVarintField_def writeIntField_def varint_eq encodeVarint_int)

text \<open>
  For every integer, the number and the BigInt path of the encoder give the same at
  most ten bytes, and decoding them anywhere in a buffer returns the value modulo two to
  the 64 (so negative numbers travel as two's complement) and consumes exactly these bytes.
\<close>

theorem varint_roundtrip:
  "\<exists>bs. encodeVarint (JsBig i) = Inr bs \<and> encodeVarint (JsNum (of_int i)) = Inr bs
      \<and> length bs \<le> 10
      \<and> decodeVarint (pre @ bs @ rest) (length pre) = Inr (js_uint (nat (i mod 2 ^ 64)), length bs)"
proof -
  let ?bs = "enc_big (mask64 i)"
  have "mask64 i < 2 ^ (7 * 10)"
    using mask64_less [of i] by (simp add: less_trans)
  then have "length ?bs \<le> 10" by (rule length_enc_big) simp
  moreover have "decodeVarint (pre @ ?bs @ rest) (length pre) = Inr (js_uint (mask64 i), length ?bs)"
    by (simp add: decodeVarint_offset decodeVarint_enc_big [OF mask64_less])
  moreover have "encodeVarint (JsBig i) = Inr ?bs" by (simp add: encodeVarint_def)
  ultimately show ?thesis by (auto simp: encodeVarint_int mask64_eq)
qed

subsection \<open>Parsing what was written\<close>

text \<open>A field as a client writes it, its bytes and the entry the parser makes of it.\<close>

datatype wire = WVarint nat int | WFixed64 nat bytes | WBytes nat bytes

fun put_wire :: "wire \<Rightarrow> bytes" where
  "put_wire (WVarint f i) =
     (case writeVarintField f (JsNum (of_int i)) of Inl e \<Rightarrow> [] | Inr bs \<Rightarrow> bs)"
| "put_wire (WFixed64 f bs) = writeFixed64Field f bs"
| "put_wire (WBytes f bs) = writeBytesField f bs"

fun got_wire :: "wire \<Rightarrow> pfield" where
  "got_wire (WVarint f i) =
     \<lparr>fieldNum = f, wireType = 0, fvalue = VNum (js_uint (nat (i mod 2 ^ 64)))\<rparr>"
| "got_wire (WFixed64 f bs) = \<lparr>fieldNum = f, wireType = 1, fvalue = VBuf bs\<rparr>"
| "got_wire (WBytes f bs) = \<lparr>fieldNum = f, wireType = 2, fvalue = VBuf bs\<rparr>"

fun wf_wire :: "wire \<Rightarrow> bool" where
  "wf_wire (WVarint f i) = (f < 2 ^ 28)"
| "wf_wire (WFixed64 f bs) = (f < 2 ^ 28 \<and> length bs = 8)"
| "wf_wire (WBytes f bs) = (f < 2 ^ 28 \<and> length bs < 2 ^ 53)"

lemma tag_eq:
  assumes "f < 2 ^ 28" "wt < 8"
  shows "tag f wt = enc_big (8 * f + wt)"
proof -
  have "push_bit 3 f OR wt = wt OR push_bit 3 f" by (rule or.commute)
  also have "\<dots> = wt + f * 2 ^ 3" using assms(2) by (intro or_push_bit) simp
  finally have "push_bit 3 (int f) OR int wt = int (8 * f + wt)"
    by (metis mult.commute add.commute of_nat_or_eq of_nat_push_bit numeral_power_eq_of_nat_cancel_iff
        power3_eq_cube mult_numeral_1 numeral_times_numeral num_double semiring_norm(12) of_nat_numeral)
  moreover have "signed_take_bit 31 (int (8 * f + wt)) = int (8 * f + wt)"
    using assms by (intro signed_take_bit_int_eq_self) auto
  moreover have "mask64 (int (8 * f + wt)) = 8 * f + wt"
    using assms by (intro mask64_of_nat) simp
  ultimately show ?thesis by (simp add: tag_def varint_eq)
qed

lemma js_uint_small: "v < 2 ^ 53 \<Longrightarrow> js_uint v = JsNum (of_nat v)"
  by (simp add: js_uint_def)

lemma drop_length_same: "drop (length xs) xs @ drop (length xs - length xs) ys = ys"
  by simp

lemma parse_after_tag:
  assumes "f < 2 ^ 28" "wt < 8" "parse_value wt body = Inr (v, rest)"
  shows "parseFields (tag f wt @ body) =
     (case parseFields rest of Inl e \<Rightarrow> Inl e
      | Inr fs \<Rightarrow> Inr (\<lparr>fieldNum = f, wireType = wt, fvalue = v\<rparr> # fs))"
proof -
  let ?x = "8 * f + wt"
  have bound: "?x < 2 ^ 31" using assms(1,2) by simp
  have dec: "decodeVarint (enc_big ?x @ body) 0 = Inr (JsNum (of_nat ?x), length (enc_big ?x))"
    using decodeVarint_enc_big [of ?x body] bound by (simp add: js_uint_small)
  have seven: "?x AND 7 = wt"
    using assms(2) take_bit_eq_mask [of 3 ?x] by (simp add: take_bit_eq_mod mask_eq_exp_minus_1)
  have num: "drop_bit 3 (take_bit 32 ?x) = f"
    using assms(2) bound by (simp add: drop_bit_eq_div take_bit_eq_mod)
  have fl: "nat \<lfloor>(of_nat ?x :: rat)\<rfloor> = ?x" by (simp only: floor_of_nat nat_int)
  show ?thesis
    by (subst parseFields.simps, simp only: tag_eq [OF assms(1,2)] dec number_of.simps)
      (simp only: Let_def sum.case prod.case number_of.simps fl seven num append_is_Nil_conv enc_big_nonempty
        drop_append simp_thms if_False drop_length_same assms(3))
qed

lemma parse_value_varint:
  "parse_value 0 (enc_big (mask64 i) @ rest) = Inr (VNum (js_uint (nat (i mod 2 ^ 64))), rest)"
  unfolding mask64_eq [symmetric]
  by (simp add: parse_value_def decodeVarint_enc_big [OF mask64_less])

lemma parse_value_bytes:
  assumes "length bs < 2 ^ 53"
  shows "parse_value 2 (varint (int (length bs)) @ bs @ rest) = Inr (VBuf bs, rest)"
proof -
  have m: "mask64 (int (length bs)) = length bs" using assms by (intro mask64_of_nat) simp
  have "decodeVarint (enc_big (length bs) @ bs @ rest) 0
          = Inr (JsNum (of_nat (length bs)), length (enc_big (length bs)))"
    using decodeVarint_enc_big [of "length bs" "bs @ rest"] assms by (simp add: js_uint_small)
  then show ?thesis by (simp add: parse_value_def varint_eq m)
qed

lemma parse_value_fixed64:
  "length bs = 8 \<Longrightarrow> parse_value 1 (bs @ rest) = Inr (VBuf bs, rest)"
  by (simp add: parse_value_def)

lemma parseFields_put_wire:
  assumes "wf_wire w"
  shows "parseFields (put_wire w @ rest) =
     (case parseFields rest of Inl e \<Rightarrow> Inl e | Inr fs \<Rightarrow> Inr (got_wire w # fs))"
proof (cases w)
  case (WVarint f i)
  show ?thesis
    using assms parse_after_tag [OF _ _ parse_value_varint, of f i rest]
    unfolding WVarint got_wire.simps by (simp add: writeVarintField_def encodeVarint_int)
next
  case (WFixed64 f bs)
  show ?thesis
    using assms parse_after_tag [OF _ _ parse_value_fixed64, of f bs rest]
    unfolding WFixed64 got_wire.simps by (simp add: writeFixed64Field_def)
next
  case (WBytes f bs)
  show ?thesis
    using assms parse_after_tag [OF _ _ parse_value_bytes, of f bs rest]
    unfolding WBytes got_wire.simps by (simp add: writeBytesField_def)
qed

lemma parseFields_Nil [simp]: "parseFields [] = Inr []"
  by (simp add: parseFields.simps)

lemma put_wire_int [simp]: "put_wire (WVarint f i) = writeIntField f i"
  by (simp add: writeVarintField_int)

lemma put_wire_string: "put_wire (WBytes f (utf8 s)) = writeStringField f (Some s)"
  by (simp add: writeStringField_def writeBytesField_def Let_def)

lemma put_wire_message: "m \<noteq> [] \<Longrightarrow> put_wire (WBytes f m) = writeMessageField f m"
  by (simp add: writeMessageField_def writeBytesField_def)

lemma parseFields_wires:
  "list_all wf_wire ws \<Longrightarrow> parseFields (concat (map put_wire ws)) = Inr (map got_wire ws)"
  by (induction ws) (auto simp: parseFields_put_wire simp del: put_wire.simps)

text \<open>
  Parsing the concatenation of any sequence of written fields (varints of any
  integer, fixed64 values, length-delimited values) returns exactly these fields, in
  order, with their field numbers, wire types and values.
\<close>

theorem parse_written_fields:
  "list_all wf_wire ws \<Longrightarrow> parseFields (concat (map put_wire ws)) = Inr (map got_wire ws)"
  by (rule parseFields_wires)

theorem parse_written_fields_witness:
  "list_all wf_wire [WVarint 2 300, WBytes 3 [104, 105], WVarint 20 (-1)]
   \<and> parseFields (concat (map put_wire [WVarint 2 300, WBytes 3 [104, 105], WVarint 20 (-1)]))
       = Inr (map got_wire [WVarint 2 300, WBytes 3 [104, 105], WVarint 20 (-1)])"
proof -
  have wf: "list_all wf_wire [WVarint 2 300, WBytes 3 [104, 105], WVarint 20 (-1)]" by simp
  show ?thesis using wf parse_written_fields [OF wf] by blast
qed

end
