(* ===== verification/Windsurf_Protocol.thy ===== *)
theory Windsurf_Protocol
  imports Windsurf_Proto
begin

text \<open>
  \<^verbatim>\<open>src/tools/windsurf2api/src/protocol.mjs\<close>: the chat request message, the response
  frames, the model catalogue, the user status and the classification of upstream errors.
  Random values (\<^verbatim>\<open>randomUUID\<close>, the fingerprint) and the Node.js codecs that are not
  integer arithmetic (UTF-8 decoding, IEEE doubles) are parameters. The theory shows what
  a receiver parses out of a built request and what the adapter reads out of a response.
\<close>

text \<open>Buffer codecs of Node.js, as parameters.\<close>

record node =
  utf8_dec :: "bytes \<Rightarrow> string"
  f64le :: "rat \<Rightarrow> bytes"
  read_double :: "bytes \<Rightarrow> rat"
  read_float :: "bytes \<Rightarrow> rat"

section \<open>Requests\<close>

definition CLIENT_NAME :: string where "CLIENT_NAME = ''chisel''"
definition CLIENT_VERSION :: string where "CLIENT_VERSION = ''2026.8.18''"

definition missing_key :: thrown where
  "missing_key = Adapter 401 ''missing_windsurf_key'' ''A Windsurf session token is required.''"

definition sessionToken :: "string option \<Rightarrow> thrown + string" where
  "sessionToken apiKey =
     (let value = trim (case apiKey of None \<Rightarrow> '''' | Some s \<Rightarrow> s)
      in if value = [] then Inl missing_key else Inr value)"

definition buildClientMetadata :: "string \<Rightarrow> string option \<Rightarrow> bytes" where
  "buildClientMetadata fingerprint token = concat [
     writeStringField 1 (Some CLIENT_NAME),
     writeStringField 2 (Some CLIENT_VERSION),
     writeStringField 3 token,
     writeStringField 4 (Some ''en''),
     writeStringField 5 (Some ''linux''),
     writeStringField 7 (Some CLIENT_VERSION),
     writeStringField 12 (Some CLIENT_NAME),
     writeStringField 31 (Some fingerprint)]"

record completion_config =
  maxTokens :: "rat option"
  temperature :: "rat option"
  topK :: "rat option"
  topP :: "rat option"
  contextWindow :: "rat option"

definition or_default :: "'a option \<Rightarrow> 'a \<Rightarrow> 'a" where
  "or_default v d = (case v of None \<Rightarrow> d | Some x \<Rightarrow> x)"

definition clamp_temperature :: "rat option \<Rightarrow> rat" where
  "clamp_temperature t = (let temp = or_default t 1 in if temp < 1 / 1000 then 1 / 1000 else temp)"

definition buildCompletionConfig :: "node \<Rightarrow> completion_config \<Rightarrow> thrown + bytes" where
  "buildCompletionConfig nd c =
     bind_js (writeVarintField 2 (JsNum (or_default (maxTokens c) 8192))) (\<lambda>mt.
     bind_js (writeVarintField 3 (JsNum (or_default (contextWindow c) 128000))) (\<lambda>cw.
     bind_js (writeVarintField 7 (JsNum (or_default (topK c) 40))) (\<lambda>tk.
       Inr (concat [writeIntField 1 1, mt, cw,
              writeFixed64Field 5 (f64le nd (clamp_temperature (temperature c))),
              tk, writeFixed64Field 8 (f64le nd (or_default (topP c) (95 / 100)))]))))"

record chat_message =
  role :: string
  content :: json

text \<open>
  A content part that is not a text part is dropped; \<^verbatim>\<open>join\<close> renders a missing text
  as the empty string.
\<close>

definition part_text :: "json \<Rightarrow> string" where
  "part_text p = (case str_of (getp p ''text'') of None \<Rightarrow> '''' | Some s \<Rightarrow> s)"

fun messageText :: "json \<Rightarrow> string" where
  "messageText (JStr s) = s"
| "messageText (JArr ps) =
     join_with ''\<newline>'' (map part_text (filter (\<lambda>p. getp p ''type'' = Some (JStr ''text'')) ps))"
| "messageText _ = ''''"

definition mergeable :: "chat_message \<Rightarrow> bool" where
  "mergeable m = (role m = ''user'' \<or> role m = ''assistant'')"

definition merge_text :: "string \<Rightarrow> string \<Rightarrow> string" where
  "merge_text a b = (if b \<noteq> [] then (if a \<noteq> [] then a @ ''\<newline>\<newline>'' @ b else b) else a)"

definition merge_step :: "chat_message list \<Rightarrow> chat_message \<Rightarrow> chat_message list" where
  "merge_step merged m =
     (if merged \<noteq> [] \<and> mergeable (last merged) \<and> mergeable m \<and> role (last merged) = role m
      then butlast merged @
        [(last merged)\<lparr>content := JStr (merge_text (messageText (content (last merged)))
                                                 (messageText (content m)))\<rparr>]
      else merged @ [m])"

definition mergeTextMessages :: "chat_message list \<Rightarrow> chat_message list" where
  "mergeTextMessages messages = foldl merge_step [] messages"

record chat_args =
  a_token :: "string option"
  a_messages :: "chat_message list"
  a_model :: string
  a_session :: "string option"
  a_completion :: completion_config

text \<open>
  The loop over the merged messages: the system prompt so far, the encoded messages so
  far and the number of \<^verbatim>\<open>randomUUID()\<close> calls made so far.
\<close>

fun chat_loop :: "(nat \<Rightarrow> string) \<Rightarrow> chat_message list \<Rightarrow> string \<Rightarrow> bytes list \<Rightarrow> nat
    \<Rightarrow> string \<times> bytes list \<times> nat" where
  "chat_loop uuid [] sys msgs k = (sys, msgs, k)"
| "chat_loop uuid (m # ms) sys msgs k =
     (let t = messageText (content m)
      in if role m = ''system'' then
           chat_loop uuid ms (sys @ (if sys \<noteq> [] then ''\<newline>'' @ t else t)) msgs k
         else if role m = ''assistant'' \<and> trim t = [] then chat_loop uuid ms sys msgs k
         else chat_loop uuid ms sys
                (msgs @ [concat [writeStringField 1 (Some (uuid k)),
                                 writeIntField 2 (if role m = ''assistant'' then 2 else 1),
                                 writeStringField 3 (Some t)]])
                (Suc k))"

definition buildChatRequest :: "node \<Rightarrow> (nat \<Rightarrow> string) \<Rightarrow> string \<Rightarrow> chat_args \<Rightarrow> thrown + bytes" where
  "buildChatRequest nd uuid fingerprint a =
     bind_js (sessionToken (a_token a)) (\<lambda>_.
     bind_js (guard_js (a_model a = []) (Adapter 400 ''invalid_model'' ''A model selector is required.'')) (\<lambda>_.
       (let (sys, msgs, k) = chat_loop uuid (mergeTextMessages (a_messages a)) '''' [] 0;
            modelConfig = concat [writeStringField 1 (Some (uuid k)), writeIntField 2 1, writeIntField 3 4];
            sid = (case a_session a of None \<Rightarrow> uuid (Suc k) | Some s \<Rightarrow> if s = [] then uuid (Suc k) else s)
        in bind_js (buildCompletionConfig nd (a_completion a)) (\<lambda>cc.
             Inr (concat ([writeMessageField 1 (buildClientMetadata fingerprint (a_token a)),
                           writeStringField 2 (Some sys)]
                   @ map (writeMessageField 3) msgs
                   @ [writeIntField 7 5,
                      writeMessageField 8 cc,
                      writeMessageField 15 modelConfig,
                      writeStringField 16 (Some sid),
                      writeIntField 20 1,
                      writeStringField 21 (Some (a_model a))]))))))"

section \<open>Responses\<close>

definition buf_of :: "pfield \<Rightarrow> bytes" where
  "buf_of f = (case fvalue f of VBuf b \<Rightarrow> b | VNum _ \<Rightarrow> [])"

definition num_val :: "pfield \<Rightarrow> rat" where
  "num_val f = (case fvalue f of VNum n \<Rightarrow> number_of n | VBuf _ \<Rightarrow> 0)"

definition readNumeric :: "node \<Rightarrow> pfield list \<Rightarrow> nat \<Rightarrow> rat option" where
  "readNumeric nd fs number = (case getField fs number None of
     None \<Rightarrow> None
   | Some f \<Rightarrow> if wireType f = 0 then Some (num_val f)
               else if wireType f = 1 then Some (read_double nd (buf_of f))
               else if wireType f = 5 then Some (read_float nd (buf_of f))
               else None)"

record token_usage =
  prompt_tokens :: rat
  completion_tokens :: rat
  total_tokens :: rat
  cached_tokens :: "rat option"
  cache_creation_input_tokens :: "rat option"

definition normalizeUsage :: "rat option \<Rightarrow> rat option \<Rightarrow> rat option \<Rightarrow> rat option \<Rightarrow> token_usage option" where
  "normalizeUsage prompt completion cacheRead cacheWrite = (case completion of
     None \<Rightarrow> None
   | Some c \<Rightarrow>
       (let fresh = or_default prompt 0; rd = or_default cacheRead 0; wr = or_default cacheWrite 0;
            promptTokens = fresh + rd
        in Some \<lparr>prompt_tokens = promptTokens, completion_tokens = c,
                 total_tokens = promptTokens + c + wr,
                 cached_tokens = (if rd \<noteq> 0 then Some rd else None),
                 cache_creation_input_tokens = (if wr \<noteq> 0 then Some wr else None)\<rparr>))"

record decoded_frame =
  contentBytes :: "bytes option"
  reasoningBytes :: "bytes option"
  finish :: "fvalue option"
  usage :: "token_usage option"

definition decodeFrame :: "node \<Rightarrow> bytes \<Rightarrow> decoded_frame" where
  "decodeFrame nd payload = (case parseFields payload of
     Inl e \<Rightarrow> \<lparr>contentBytes = None, reasoningBytes = None, finish = None, usage = None\<rparr>
   | Inr fs \<Rightarrow>
       \<lparr>contentBytes = map_option buf_of (getField fs 3 (Some 2)),
        reasoningBytes = map_option buf_of (getField fs 9 (Some 2)),
        finish = map_option fvalue (getField fs 5 (Some 0)),
        usage = (case getField fs 7 (Some 2) of
            None \<Rightarrow> None
          | Some meta \<Rightarrow>
              (let mf = (case parseFields (buf_of meta) of Inl e \<Rightarrow> [] | Inr g \<Rightarrow> g)
               in if readNumeric nd mf 3 = None then None
                  else normalizeUsage (readNumeric nd mf 2) (readNumeric nd mf 3)
                         (readNumeric nd mf 5) (readNumeric nd mf 4)))\<rparr>)"

record catalog_model =
  selector :: string
  label :: string
  alias_name :: string
  provider :: "rat option"

text \<open>One iteration of the loop of \<open>decodeCatalog\<close>: \<open>None\<close> for \<^verbatim>\<open>continue\<close>.\<close>

definition decode_model :: "node \<Rightarrow> bytes \<Rightarrow> thrown + catalog_model option" where
  "decode_model nd raw = bind_js (parseFields raw) (\<lambda>fs.
     case getField fs 22 (Some 2) of
       None \<Rightarrow> Inr None
     | Some sf \<Rightarrow>
         if (case getField fs 4 (Some 0) of None \<Rightarrow> False | Some d \<Rightarrow> num_val d = 1) then Inr None
         else
           (let sel = utf8_dec nd (buf_of sf);
                al = (case getField fs 23 (Some 2) of
                        None \<Rightarrow> ''''
                      | Some info \<Rightarrow>
                          (case parseFields (buf_of info) of
                             Inl e \<Rightarrow> ''''
                           | Inr g \<Rightarrow> (case getField g 23 (Some 2) of
                                         None \<Rightarrow> '''' | Some af \<Rightarrow> utf8_dec nd (buf_of af))))
            in Inr (Some \<lparr>selector = sel,
                          label = (case getField fs 1 (Some 2) of None \<Rightarrow> sel | Some lf \<Rightarrow> utf8_dec nd (buf_of lf)),
                          alias_name = al,
                          provider = map_option num_val (getField fs 10 (Some 0))\<rparr>)))"

definition decodeCatalog :: "node \<Rightarrow> bytes \<Rightarrow> thrown + catalog_model list" where
  "decodeCatalog nd raw = bind_js (parseFields raw) (\<lambda>fs.
     bind_js (map_js (\<lambda>c. decode_model nd (buf_of c)) (filter (\<lambda>f. fieldNum f = 1 \<and> wireType f = 2) fs))
       (\<lambda>ms. Inr (map the (filter (\<lambda>m. m \<noteq> None) ms))))"

record user_status =
  plan :: string
  email :: string

definition email_candidate :: "string \<Rightarrow> bool" where
  "email_candidate text = (length text \<le> 320 \<and> CHR ''@'' \<in> set text
     \<and> \<not> list_ex (\<lambda>c. (of_char c :: nat) < 32) text)"

definition plan_of :: "node \<Rightarrow> pfield list \<Rightarrow> string option" where
  "plan_of nd fs = map_option (\<lambda>f. trim (utf8_dec nd (buf_of f))) (getField fs 2 (Some 2))"

definition decodeUserStatus :: "node \<Rightarrow> bytes \<Rightarrow> user_status" where
  "decodeUserStatus nd raw = (case parseFields raw of
     Inl e \<Rightarrow> \<lparr>plan = '''', email = ''''\<rparr>
   | Inr tops \<Rightarrow>
       (let account = (case getField tops 1 (Some 2) of None \<Rightarrow> getField tops 2 (Some 2) | Some f \<Rightarrow> Some f);
            fs = (case account of None \<Rightarrow> [] | Some a \<Rightarrow>
                    (case parseFields (buf_of a) of Inl e \<Rightarrow> [] | Inr g \<Rightarrow> g));
            plan1 = or_default (plan_of nd fs) '''';
            email1 = foldl (\<lambda>acc f. if wireType f \<noteq> 2 then acc
                        else (let text = utf8_dec nd (buf_of f)
                              in if email_candidate text then trim text else acc)) '''' fs;
            plan2 = (if plan1 = '''' then
                       (case getField tops 2 (Some 2) of
                          None \<Rightarrow> plan1
                        | Some l \<Rightarrow> (case parseFields (buf_of l) of
                                       Inl e \<Rightarrow> plan1 | Inr g \<Rightarrow> or_default (plan_of nd g) plan1))
                     else plan1)
        in \<lparr>plan = plan2, email = email1\<rparr>))"

definition classifyUpstreamError :: "int \<Rightarrow> string \<Rightarrow> thrown" where
  "classifyUpstreamError status body =
     (let text = lower (take 500 body)
      in if status = 401 \<or> status = 403 \<or> contains text ''permission_denied''
            \<or> contains text ''unauthenticated'' then
           Adapter 401 ''windsurf_authentication_failed''
             ''Windsurf rejected the saved session token; sign in again.''
         else if status = 429 \<or> contains text ''resource_exhausted'' \<or> contains text ''rate limit'' then
           Adapter 429 ''windsurf_rate_limited'' ''Windsurf account rate or usage limit reached.''
         else if contains text ''/upgrade'' \<or> contains text ''upgrade to access'' then
           Adapter 402 ''windsurf_plan_required''
             ''This Windsurf model is not included in the account plan.''
         else if 500 \<le> status \<or> contains text ''unavailable'' \<or> contains text ''internal error'' then
           Adapter 502 ''windsurf_upstream_error'' ''Windsurf upstream returned an error.''
         else Adapter (if status = 0 then 502 else status) ''windsurf_upstream_error''
                ''Windsurf upstream request failed.'')"

text \<open>
  \<open>publicError\<close> of \<^verbatim>\<open>protocol.mjs\<close>, which \<^verbatim>\<open>request.mjs\<close> repeats.
\<close>

definition publicError :: "thrown \<Rightarrow> thrown" where
  "publicError e = (case e of
     Adapter s c m \<Rightarrow> Adapter s c m
   | Foreign f \<Rightarrow>
       Adapter (case err_status f of Some q \<Rightarrow> if q = of_int \<lfloor>q\<rfloor> then \<lfloor>q\<rfloor> else 502 | None \<Rightarrow> 502)
         (case err_code f of Some c \<Rightarrow> if c = [] then ''windsurf_adapter_error'' else c
                           | None \<Rightarrow> ''windsurf_adapter_error'')
         (if err_message f = [] then ''Windsurf adapter request failed.'' else err_message f))"

section \<open>What a receiver parses out of a request\<close>

text \<open>
  The turns the request should carry: system messages are left out, so are blank
  assistant messages; source 2 is the assistant, 1 everyone else.
\<close>

fun turns :: "chat_message list \<Rightarrow> (int \<times> string) list" where
  "turns [] = []"
| "turns (m # ms) =
     (if role m = ''system'' \<or> (role m = ''assistant'' \<and> trim (messageText (content m)) = []) then turns ms
      else ((if role m = ''assistant'' then 2 else 1), messageText (content m)) # turns ms)"

fun system_prompt :: "string \<Rightarrow> chat_message list \<Rightarrow> string" where
  "system_prompt acc [] = acc"
| "system_prompt acc (m # ms) =
     (if role m = ''system'' then
        system_prompt (if acc \<noteq> [] then acc @ ''\<newline>'' @ messageText (content m) else messageText (content m)) ms
      else system_prompt acc ms)"

definition turn_wires :: "(nat \<Rightarrow> string) \<Rightarrow> nat \<times> int \<times> string \<Rightarrow> wire list" where
  "turn_wires uuid t = (case t of (i, src, txt) \<Rightarrow>
     [WBytes 1 (utf8 (uuid i)), WVarint 2 src, WBytes 3 (utf8 txt)])"

definition turn_bytes :: "(nat \<Rightarrow> string) \<Rightarrow> nat \<times> int \<times> string \<Rightarrow> bytes" where
  "turn_bytes uuid t = concat (map put_wire (turn_wires uuid t))"

lemma turn_bytes_eq:
  "turn_bytes uuid (i, src, txt) =
     concat [writeStringField 1 (Some (uuid i)), writeIntField 2 src, writeStringField 3 (Some txt)]"
  unfolding turn_bytes_def turn_wires_def
  by (simp only: prod.case list.map put_wire_string put_wire_int)

lemma chat_loop_eq:
  "chat_loop uuid ms sys msgs k =
     (system_prompt sys ms, msgs @ map (turn_bytes uuid) (enumerate k (turns ms)), k + length (turns ms))"
  by (induction ms arbitrary: sys msgs k) (auto simp: Let_def turn_bytes_eq)

lemma tag_nonempty [simp]: "tag f wt \<noteq> []"
  by (simp add: tag_def varint_eq)

lemma put_wire_nonempty [simp]: "put_wire w \<noteq> []"
  by (cases w) (simp_all add: writeIntField_def writeFixed64Field_def writeBytesField_def del: put_wire.simps(1))

lemma length_put_bytes: "length b \<le> length (put_wire (WBytes f b))"
  by (simp add: writeBytesField_def)

definition small_field :: "wire \<Rightarrow> bool" where
  "small_field w = (case w of WVarint f i \<Rightarrow> f < 2 ^ 28 | WBytes f b \<Rightarrow> f < 2 ^ 28 | WFixed64 f b \<Rightarrow> False)"

lemma wf_wires_of_length:
  "list_all small_field ws \<Longrightarrow> length (concat (map put_wire ws)) < 2 ^ 53 \<Longrightarrow> list_all wf_wire ws"
proof (induction ws)
  case (Cons w ws)
  have "length (put_wire w) < 2 ^ 53" using Cons.prems(2) by (simp del: put_wire.simps)
  then have "wf_wire w"
    using Cons.prems(1) le_less_trans [OF length_put_bytes]
    by (cases w) (auto simp: small_field_def simp del: put_wire.simps)
  then show ?case using Cons by simp
qed simp

text \<open>The fields of a built request, in order.\<close>

definition request_wires :: "(nat \<Rightarrow> string) \<Rightarrow> string \<Rightarrow> chat_args \<Rightarrow> bytes \<Rightarrow> wire list" where
  "request_wires uuid fingerprint a cc =
     (let ms = mergeTextMessages (a_messages a); k = length (turns ms)
      in [WBytes 1 (buildClientMetadata fingerprint (a_token a)), WBytes 2 (utf8 (system_prompt '''' ms))]
         @ map (\<lambda>t. WBytes 3 (turn_bytes uuid t)) (enumerate 0 (turns ms))
         @ [WVarint 7 5, WBytes 8 cc,
            WBytes 15 (concat [writeStringField 1 (Some (uuid k)), writeIntField 2 1, writeIntField 3 4]),
            WBytes 16 (utf8 (case a_session a of None \<Rightarrow> uuid (Suc k)
                             | Some s \<Rightarrow> if s = [] then uuid (Suc k) else s)),
            WVarint 20 1, WBytes 21 (utf8 (a_model a))])"

lemma turn_bytes_nonempty [simp]: "turn_bytes uuid t \<noteq> []"
  by (cases t) (simp add: turn_bytes_eq writeIntField_def)

lemma buildClientMetadata_nonempty [simp]: "buildClientMetadata fp tok \<noteq> []"
  by (simp add: buildClientMetadata_def writeStringField_def Let_def)

lemma buildCompletionConfig_nonempty: "buildCompletionConfig nd c = Inr cc \<Longrightarrow> cc \<noteq> []"
  by (auto simp: buildCompletionConfig_def writeIntField_def)

lemma map_put_messages:
  "list_all (\<lambda>m. m \<noteq> []) ms \<Longrightarrow> map (writeMessageField f) ms = map (\<lambda>m. put_wire (WBytes f m)) ms"
  by (induction ms) (auto simp: put_wire_message simp del: put_wire.simps)

lemma buildChatRequest_wires:
  assumes "buildChatRequest nd uuid fp a = Inr req"
  shows "\<exists>cc. buildCompletionConfig nd (a_completion a) = Inr cc
           \<and> req = concat (map put_wire (request_wires uuid fp a cc))"
proof -
  let ?ms = "mergeTextMessages (a_messages a)"
  let ?k = "length (turns ?ms)"
  let ?mc = "concat [writeStringField 1 (Some (uuid ?k)), writeIntField 2 1, writeIntField 3 4]"
  have mc: "?mc \<noteq> []" by (simp add: writeIntField_def)
  have msgs: "map (writeMessageField 3) (map (turn_bytes uuid) (enumerate 0 (turns ?ms)))
      = map put_wire (map (\<lambda>t. WBytes 3 (turn_bytes uuid t)) (enumerate 0 (turns ?ms)))"
    by (subst map_put_messages) (auto simp: list_all_iff simp del: put_wire.simps)
  obtain cc where cc: "buildCompletionConfig nd (a_completion a) = Inr cc"
    using assms by (auto simp: buildChatRequest_def Let_def split: prod.splits)
  have "req = concat (map put_wire (request_wires uuid fp a cc))"
    using assms cc msgs mc buildCompletionConfig_nonempty [OF cc]
    unfolding buildChatRequest_def request_wires_def
    by (simp only: chat_loop_eq prod.case Let_def bind_js_eq_Inr append_Nil add_0
        list.map map_append put_wire_int put_wire_string put_wire_message buildClientMetadata_nonempty)
      (auto simp: put_wire_message put_wire_string simp del: put_wire.simps concat.simps)
  with cc show ?thesis by blast
qed

lemma request_wires_small: "list_all small_field (request_wires uuid fp a cc)"
  by (auto simp: request_wires_def Let_def small_field_def list_all_iff)

lemma filter_got_turns:
  "filter (\<lambda>f. fieldNum f = 3) (map got_wire (request_wires uuid fp a cc))
     = map (\<lambda>t. got_wire (WBytes 3 (turn_bytes uuid t)))
         (enumerate 0 (turns (mergeTextMessages (a_messages a))))"
proof -
  have "filter (\<lambda>f. fieldNum f = 3) (map (\<lambda>t. got_wire (WBytes 3 (turn_bytes uuid t))) ts)
      = map (\<lambda>t. got_wire (WBytes 3 (turn_bytes uuid t))) ts" for ts
    by (induction ts) auto
  then show ?thesis by (simp add: request_wires_def Let_def comp_def)
qed

lemma find_not_in_turns:
  "num \<noteq> 3 \<Longrightarrow>
   find (\<lambda>f. fieldNum f = num \<and> wireType f = 2) (map (\<lambda>t. got_wire (WBytes 3 (turn_bytes uuid t))) ts @ fs)
     = find (\<lambda>f. fieldNum f = num \<and> wireType f = 2) fs"
  by (induction ts) auto

lemma getField_request:
  "getField (map got_wire (request_wires uuid fp a cc)) 2 (Some 2)
     = Some (got_wire (WBytes 2 (utf8 (system_prompt '''' (mergeTextMessages (a_messages a))))))"
  "getField (map got_wire (request_wires uuid fp a cc)) 21 (Some 2)
     = Some (got_wire (WBytes 21 (utf8 (a_model a))))"
  by (simp_all add: getField_def request_wires_def Let_def comp_def find_not_in_turns [unfolded got_wire.simps])

lemma turn_bytes_length_bound:
  assumes "t \<in> set (enumerate 0 (turns (mergeTextMessages (a_messages a))))"
    and "length (concat (map put_wire (request_wires uuid fp a cc))) < 2 ^ 53"
  shows "length (turn_bytes uuid t) < 2 ^ 53"
proof -
  have "WBytes 3 (turn_bytes uuid t) \<in> set (request_wires uuid fp a cc)"
    using assms(1) by (auto simp: request_wires_def Let_def)
  with wf_wires_of_length [OF request_wires_small assms(2)] show ?thesis
    by (auto simp: list_all_iff)
qed

lemma parse_turn:
  assumes "length (turn_bytes uuid t) < 2 ^ 53"
  shows "parseFields (turn_bytes uuid t) = Inr (map got_wire (turn_wires uuid t))"
proof -
  have "list_all small_field (turn_wires uuid t)"
    by (cases t) (simp add: turn_wires_def small_field_def)
  from wf_wires_of_length [OF this] assms show ?thesis
    unfolding turn_bytes_def by (intro parseFields_wires) simp
qed

text \<open>
  C15: whatever request is built (below two to the 53 bytes), the receiver parses the
  requested model out of field 21, the system prompt out of field 2, and out of the
  repeated field 3 exactly the non-blank turns of the merged conversation, in order, each
  with its own identifier, its source and its text.
\<close>

theorem chat_request_carries_conversation:
  assumes "buildChatRequest nd uuid fp a = Inr req" and "length req < 2 ^ 53"
  shows "\<exists>fs. parseFields req = Inr fs
     \<and> map_option buf_of (getField fs 21 (Some 2)) = Some (utf8 (a_model a))
     \<and> map_option buf_of (getField fs 2 (Some 2))
         = Some (utf8 (system_prompt '''' (mergeTextMessages (a_messages a))))
     \<and> map (\<lambda>f. parseFields (buf_of f)) (getAllFields fs 3)
         = map (\<lambda>t. Inr (map got_wire (turn_wires uuid t)))
             (enumerate 0 (turns (mergeTextMessages (a_messages a))))"
proof -
  obtain cc where req: "req = concat (map put_wire (request_wires uuid fp a cc))"
    using buildChatRequest_wires [OF assms(1)] by blast
  let ?fs = "map got_wire (request_wires uuid fp a cc)"
  have "parseFields req = Inr ?fs"
    unfolding req
    by (intro parseFields_wires wf_wires_of_length request_wires_small assms(2) [unfolded req])
  moreover have "map (\<lambda>f. parseFields (buf_of f)) (getAllFields ?fs 3)
      = map (\<lambda>t. Inr (map got_wire (turn_wires uuid t)))
          (enumerate 0 (turns (mergeTextMessages (a_messages a))))"
    using parse_turn [OF turn_bytes_length_bound [OF _ assms(2) [unfolded req]]]
    by (simp add: getAllFields_def filter_got_turns buf_of_def)
  ultimately show ?thesis
    by (intro exI [of _ ?fs]) (simp add: getField_request buf_of_def)
qed

definition witness_args :: chat_args where
  "witness_args = \<lparr>a_token = Some ''tok'',
     a_messages = [\<lparr>role = ''system'', content = JStr ''be brief''\<rparr>, \<lparr>role = ''user'', content = JStr ''hi''\<rparr>],
     a_model = ''swe'', a_session = None,
     a_completion = \<lparr>maxTokens = None, temperature = Some 0, topK = None, topP = None, contextWindow = None\<rparr>\<rparr>"

definition witness_node :: node where
  "witness_node = \<lparr>utf8_dec = map (\<lambda>b. char_of (unat b)), f64le = (\<lambda>_. replicate 8 0),
     read_double = (\<lambda>_. 0), read_float = (\<lambda>_. 0)\<rparr>"

lemma length_utf8: "length (utf8 s) \<le> 2 * length s"
  by (induction s) (auto simp: utf8_def utf8_char_def Let_def)

lemma length_varint: "length (varint i) \<le> 10"
  unfolding varint_eq by (rule length_enc_big) (use mask64_less [of i] in \<open>simp_all add: less_trans\<close>)

lemma length_tag: "length (tag f wt) \<le> 10"
  unfolding tag_def by (rule length_varint)

lemma length_writeStringField: "length (writeStringField f (Some s)) \<le> 20 + 2 * length s"
  unfolding writeStringField_def Let_def option.case length_append
  using length_tag [of f 2] length_varint [of "int (length (utf8 s))"] length_utf8 [of s] by linarith

lemma length_writeIntField: "length (writeIntField f i) \<le> 20"
  unfolding writeIntField_def length_append using length_tag [of f 0] length_varint [of i] by linarith

lemma length_put_wire:
  "length (put_wire w) \<le> 20 + (case w of WVarint f i \<Rightarrow> 0 | WFixed64 f b \<Rightarrow> length b | WBytes f b \<Rightarrow> length b)"
proof (cases w)
  case (WVarint f i)
  then show ?thesis using length_writeIntField [of f i] by (simp del: put_wire.simps)
next
  case (WFixed64 f b)
  then show ?thesis using length_tag [of f 1] by (simp add: writeFixed64Field_def)
next
  case (WBytes f b)
  then show ?thesis
    using length_tag [of f 2] length_varint [of "int (length b)"] by (simp add: writeBytesField_def)
qed

lemma length_put_wires:
  "length (concat (map put_wire ws))
     \<le> sum_list (map (\<lambda>w. 20 + (case w of WVarint f i \<Rightarrow> 0 | WFixed64 f b \<Rightarrow> length b | WBytes f b \<Rightarrow> length b)) ws)"
  by (induction ws) (auto intro: add_mono length_put_wire simp del: put_wire.simps)

lemma witness_completion:
  "\<exists>cc. buildCompletionConfig witness_node (a_completion witness_args) = Inr cc \<and> length cc \<le> 200"
proof -
  have i: "JsNum (8192::rat) = JsNum (of_int 8192)" "JsNum (128000::rat) = JsNum (of_int 128000)"
    "JsNum (40::rat) = JsNum (of_int 40)" by simp_all
  show ?thesis
    using length_writeIntField [of 1 1] length_writeIntField [of 2 8192] length_writeIntField [of 3 128000]
      length_writeIntField [of 7 40] length_tag [of 5 1] length_tag [of 8 1]
    unfolding buildCompletionConfig_def witness_args_def or_default_def
    by (simp only: chat_args.simps completion_config.simps option.case i writeVarintField_int bind_js_Inr)
      (simp add: writeFixed64Field_def witness_node_def)
qed

lemma witness_request:
  "\<exists>req. buildChatRequest witness_node (\<lambda>_. ''u'') ''f'' witness_args = Inr req \<and> length req < 2 ^ 53"
proof -
  obtain cc where cc: "buildCompletionConfig witness_node (a_completion witness_args) = Inr cc"
    "length cc \<le> 200" using witness_completion by blast
  have tok: "sessionToken (a_token witness_args) = Inr ''tok''" by code_simp
  obtain req where req: "buildChatRequest witness_node (\<lambda>_. ''u'') ''f'' witness_args = Inr req"
    using cc(1) tok unfolding buildChatRequest_def
    by (simp add: chat_loop_eq Let_def) (simp add: witness_args_def)
  have ms: "mergeTextMessages (a_messages witness_args) = a_messages witness_args"
    by (simp add: witness_args_def mergeTextMessages_def merge_step_def mergeable_def)
  let ?m = "length (buildClientMetadata ''f'' (a_token witness_args))"
  have "?m \<le> 300"
    unfolding buildClientMetadata_def concat.simps length_append
    using length_writeStringField [of 1 CLIENT_NAME] length_writeStringField [of 2 CLIENT_VERSION]
      length_writeStringField [of 3 "''tok''"] length_writeStringField [of 4 "''en''"]
      length_writeStringField [of 5 "''linux''"] length_writeStringField [of 7 CLIENT_VERSION]
      length_writeStringField [of 12 CLIENT_NAME] length_writeStringField [of 31 "''f''"]
    by (simp add: CLIENT_NAME_def CLIENT_VERSION_def witness_args_def)
  moreover have "length (turn_bytes (\<lambda>_. ''u'') (0, 1, ''hi'')) \<le> 100"
    using length_writeStringField [of 1 "''u''"] length_writeIntField [of 2 1] length_writeStringField [of 3 "''hi''"]
    by (simp add: turn_bytes_eq)
  moreover have "length (writeStringField 1 (Some ''u'') @ writeIntField 2 1 @ writeIntField 3 4) \<le> 100"
    using length_writeStringField [of 1 "''u''"] length_writeIntField [of 2 1] length_writeIntField [of 3 4] by simp
  moreover have "length req \<le> 20 * 9 + (?m + length (utf8 ''be brief'')
      + length (turn_bytes (\<lambda>_. ''u'') (0, 1, ''hi'')) + length cc
      + length (writeStringField 1 (Some ''u'') @ writeIntField 2 1 @ writeIntField 3 4)
      + length (utf8 ''u'') + length (utf8 ''swe''))"
    using buildChatRequest_wires [OF req] cc(1)
      length_put_wires [of "request_wires (\<lambda>_. ''u'') ''f'' witness_args cc"]
    by (auto simp: request_wires_def ms Let_def) (simp add: witness_args_def)
  ultimately have "length req < 2 ^ 53"
    using cc(2) length_utf8 [of "''be brief''"] length_utf8 [of "''u''"] length_utf8 [of "''swe''"] by simp
  with req show ?thesis by blast
qed

theorem chat_request_carries_conversation_witness:
  "\<exists>req fs. buildChatRequest witness_node (\<lambda>_. ''u'') ''f'' witness_args = Inr req
     \<and> parseFields req = Inr fs
     \<and> map_option buf_of (getField fs 21 (Some 2)) = Some (utf8 ''swe'')
     \<and> length (getAllFields fs 3) = 1"
proof -
  obtain req where req: "buildChatRequest witness_node (\<lambda>_. ''u'') ''f'' witness_args = Inr req"
    and small: "length req < 2 ^ 53"
    using witness_request by blast
  obtain fs where "parseFields req = Inr fs"
    and "map_option buf_of (getField fs 21 (Some 2)) = Some (utf8 (a_model witness_args))"
    and m: "map (\<lambda>f. parseFields (buf_of f)) (getAllFields fs 3)
         = map (\<lambda>t. Inr (map got_wire (turn_wires (\<lambda>_. ''u'') t)))
             (enumerate 0 (turns (mergeTextMessages (a_messages witness_args))))"
    using chat_request_carries_conversation [OF req small] by blast
  moreover have "length (getAllFields fs 3)
      = length (turns (mergeTextMessages (a_messages witness_args)))"
    using arg_cong [OF m, of length] by simp
  moreover have "length (turns (mergeTextMessages (a_messages witness_args))) = 1"
    by code_simp
  ultimately show ?thesis using req by (auto simp: witness_args_def)
qed

end
