(* ===== verification/Windsurf_Request.thy ===== *)
theory Windsurf_Request
  imports Chat_Request Windsurf_Protocol
begin

text \<open>
  \<^verbatim>\<open>src/tools/windsurf2api/src/request.mjs\<close>: the validation of an OpenAI chat request
  body and the request handed to the runtime. The theory interprets the contract
  \<open>chat_normalizer\<close> and shows what accepted conversations become on the wire.
\<close>

section \<open>Definitions\<close>

definition acceptedFields :: "string list" where
  "acceptedFields = [''model'', ''messages'', ''stream'', ''stream_options'', ''n'', ''user'', ''metadata'',
     ''session_id'', ''conversation_id'', ''prompt_cache_key'', ''store'', ''temperature'',
     ''top_p'', ''max_tokens'', ''max_completion_tokens'', ''tools'', ''tool_choice'',
     ''parallel_tool_calls'']"

definition unsupportedFields :: "string list" where
  "unsupportedFields = [''functions'', ''function_call'', ''stop'', ''seed'', ''logprobs'', ''top_logprobs'',
     ''logit_bias'', ''response_format'', ''modalities'', ''audio'', ''prediction'',
     ''presence_penalty'', ''frequency_penalty'', ''service_tier'', ''web_search_options'']"

record windsurf_request =
  wr_model :: string
  wr_messages :: "chat_message list"
  wr_stream :: bool
  wr_includeUsage :: bool
  wr_session_id :: "string option"
  wr_completion :: completion_config

text \<open>The callback of \<^verbatim>\<open>body.messages.map\<close>.\<close>

definition normalize_message :: "json \<Rightarrow> thrown + chat_message" where
  "normalize_message message =
     bind_js (guard_js (bad_role message) (Adapter 400 ''unsupported_message''
        ''Only system, developer, user and assistant text messages are supported.'')) (\<lambda>_.
     bind_js (content_text not_text_part
        (Adapter 400 ''unsupported_content'' ''Images, files and audio are not supported by this Windsurf adapter.'')
        (Adapter 400 ''invalid_content'' ''Message content must be text.'')
        (getp message ''content'')) (\<lambda>content.
       Inr \<lparr>role = (if getp message ''role'' = Some (JStr ''developer'') then ''system''
                     else (case str_of (getp message ''role'') of None \<Rightarrow> '''' | Some r \<Rightarrow> r)),
            content = JStr content\<rparr>))"

definition bad_model :: "json option \<Rightarrow> bool" where
  "bad_model v = (case str_of v of None \<Rightarrow> True | Some s \<Rightarrow> trim s = [] \<or> 512 < length s)"

definition bad_turn :: "chat_message \<Rightarrow> bool" where
  "bad_turn m = (role m \<noteq> ''user'' \<or> trim (messageText (content m)) = [])"

definition requested_completion :: "json \<Rightarrow> completion_config" where
  "requested_completion body =
     \<lparr>maxTokens = (case num_of (getp body ''max_tokens'') of
          Some q \<Rightarrow> Some q | None \<Rightarrow> num_of (getp body ''max_completion_tokens'')),
      temperature = num_of (getp body ''temperature''),
      topK = None,
      topP = num_of (getp body ''top_p''),
      contextWindow = None\<rparr>"

definition normalizeRequest :: "json \<Rightarrow> thrown + windsurf_request" where
  "normalizeRequest body =
     bind_js (guard_js (not_object body)
       (Adapter 400 ''invalid_request'' ''Request must be a JSON object.'')) (\<lambda>_.
     bind_js (guard_js (bad_model (getp body ''model''))
       (Adapter 400 ''invalid_model'' ''A model ID from /v1/models is required.'')) (\<lambda>_.
     bind_js (guard_js (not_filled_array (getp body ''messages''))
       (Adapter 400 ''invalid_messages'' ''messages must be a non-empty array.'')) (\<lambda>_.
     bind_js (guard_js (getp body ''stream'' \<noteq> None \<and> \<not> is_bool (getp body ''stream''))
       (Adapter 400 ''invalid_stream'' ''stream must be a boolean.'')) (\<lambda>_.
     bind_js (guard_js (filled_or_odd (getp body ''tools''))
       (Adapter 400 ''unsupported_tools'' ''Windsurf currently supports text conversations without caller tools.'')) (\<lambda>_.
     bind_js (guard_js (\<not> nullish (getp body ''tool_choice'') \<and> getp body ''tool_choice'' \<noteq> Some (JStr ''none''))
       (Adapter 400 ''unsupported_tools'' ''Only tool_choice=none is supported.'')) (\<lambda>_.
     bind_js (guard_js (\<not> nullish (getp body ''n'') \<and> getp body ''n'' \<noteq> Some (JNum 1))
       (Adapter 400 ''unsupported_parameter'' ''Only n=1 is supported.'')) (\<lambda>_.
     bind_js (case bad_field acceptedFields unsupportedFields body of
         Some field \<Rightarrow> Inl (Adapter 400 ''unsupported_parameter'' (field @ '' has no supported Windsurf mapping.''))
       | None \<Rightarrow> Inr ()) (\<lambda>_.
     bind_js (guard_js (bad_stream_options (getp body ''stream_options''))
       (Adapter 400 ''invalid_stream_options'' ''Only stream_options.include_usage (boolean) is supported.'')) (\<lambda>_.
     bind_js (map_js normalize_message (case arr_of (getp body ''messages'') of None \<Rightarrow> [] | Some ms \<Rightarrow> ms)) (\<lambda>messages.
     bind_js (guard_js (bad_turn (last messages))
       (Adapter 400 ''invalid_turn'' ''The current turn must end with a non-empty user message.'')) (\<lambda>_.
       Inr \<lparr>wr_model = (case str_of (getp body ''model'') of None \<Rightarrow> '''' | Some s \<Rightarrow> trim s),
            wr_messages = messages,
            wr_stream = wants_stream body,
            wr_includeUsage = wants_usage body,
            wr_session_id = str_of (getp body ''session_id''),
            wr_completion = requested_completion body\<rparr>)))))))))))"

section \<open>Laws\<close>

lemma normalize_message_Inr:
  assumes "normalize_message m = Inr c"
  shows "\<exists>r t. getp m ''role'' = Some (JStr r) \<and> r \<in> set chat_roles
     \<and> c = \<lparr>role = (if r = ''developer'' then ''system'' else r), content = JStr t\<rparr>
     \<and> (getp m ''content'' = Some (JStr t) \<or> (\<exists>ps. getp m ''content'' = Some (JArr ps) \<and> t = parts_text ps))"
proof -
  from assms obtain t where "\<not> bad_role m"
    and t: "getp m ''content'' = Some (JStr t) \<or> (\<exists>ps. getp m ''content'' = Some (JArr ps) \<and> t = parts_text ps)"
    and c: "c = \<lparr>role = (if getp m ''role'' = Some (JStr ''developer'') then ''system''
                     else (case str_of (getp m ''role'') of None \<Rightarrow> '''' | Some r \<Rightarrow> r)), content = JStr t\<rparr>"
    unfolding normalize_message_def bind_js_eq_Inr guard_js_eq_Inr sum.inject
    using content_text_Inr by blast
  then show ?thesis unfolding bad_role_iff by fastforce
qed

lemma normalizeRequest_client_error: "client_error (normalizeRequest body)"
  unfolding normalizeRequest_def normalize_message_def
  by (intro client_error_bind client_error_guard client_error_map_js client_error_content_text
      client_error_option client_error_Inr client_error_Inl disjI2) simp_all

lemma normalizeRequest_Inr:
  assumes "normalizeRequest body = Inr r"
  shows "\<exists>kvs ms s. body = JObj kvs \<and> getp body ''messages'' = Some (JArr ms) \<and> ms \<noteq> []
     \<and> getp body ''model'' = Some (JStr s) \<and> trim s \<noteq> [] \<and> wr_model r = trim s
     \<and> (\<forall>(k, v) \<in> set kvs. k \<in> set acceptedFields \<or> v = JNull)
     \<and> map_js normalize_message ms = Inr (wr_messages r) \<and> \<not> bad_turn (last (wr_messages r))
     \<and> wr_stream r = wants_stream body \<and> wr_includeUsage r = wants_usage body
     \<and> wr_session_id r = str_of (getp body ''session_id'') \<and> wr_completion r = requested_completion body"
proof -
  note d = assms [unfolded normalizeRequest_def bind_js_eq_Inr guard_js_eq_Inr sum.inject not_object_iff
      not_filled_array_iff]
  from d obtain kvs ms where b: "body = JObj kvs" and m: "getp body ''messages'' = Some (JArr ms)" "ms \<noteq> []"
    and s: "\<not> bad_model (getp body ''model'')" by blast
  from s obtain s where s': "getp body ''model'' = Some (JStr s)" "trim s \<noteq> []"
    by (auto simp: bad_model_def split: option.splits)
  from d obtain x where "(case bad_field acceptedFields unsupportedFields body of
         Some field \<Rightarrow> Inl (Adapter 400 ''unsupported_parameter'' (field @ '' has no supported Windsurf mapping.''))
       | None \<Rightarrow> Inr ()) = Inr x" by blast
  then have f: "\<forall>(k, v) \<in> set kvs. k \<in> set acceptedFields \<or> v = JNull"
    unfolding b by (rule bad_field_Inr)
  from d obtain messages where "map_js normalize_message (case arr_of (getp body ''messages'') of None \<Rightarrow> [] | Some ms \<Rightarrow> ms) = Inr messages"
    and "\<not> bad_turn (last messages)"
    and "r = \<lparr>wr_model = (case str_of (getp body ''model'') of None \<Rightarrow> '''' | Some s \<Rightarrow> trim s),
            wr_messages = messages, wr_stream = wants_stream body, wr_includeUsage = wants_usage body,
            wr_session_id = str_of (getp body ''session_id''),
            wr_completion = requested_completion body\<rparr>" by blast
  with b m s' f show ?thesis by simp
qed

lemma bad_turn_last:
  assumes "map_js normalize_message ms = Inr cs" "ms \<noteq> []" "\<not> bad_turn (last cs)"
  shows "\<exists>t. user_turn (last ms) t \<and> last cs = \<lparr>role = ''user'', content = JStr t\<rparr>"
  using normalize_message_Inr [OF map_js_last [OF assms(1,2)]] assms(3)
  by (auto simp: bad_turn_def user_turn_def split: if_splits)

interpretation windsurf_norm: chat_normalizer normalizeRequest wr_model wr_stream acceptedFields
proof
  show "\<exists>s c m. e = Adapter s c m \<and> 400 \<le> s \<and> s < 500" if "normalizeRequest b = Inl e" for b e
    using normalizeRequest_client_error that unfolding client_error_def by blast
  show "k \<in> set acceptedFields \<or> v = JNull"
    if "normalizeRequest (JObj kvs) = Inr r" "(k, v) \<in> set kvs" for kvs r k v
    using normalizeRequest_Inr [OF that(1)] that(2) by fast
  show "\<exists>kvs. b = JObj kvs" if "normalizeRequest b = Inr r" for b r
    using normalizeRequest_Inr [OF that] by blast
  show "\<exists>s. getp b ''model'' = Some (JStr s) \<and> wr_model r = trim s \<and> trim s \<noteq> []"
    if "normalizeRequest b = Inr r" for b r
    using normalizeRequest_Inr [OF that] by blast
  show "wr_stream r = wants_stream b" if "normalizeRequest b = Inr r" for b r
    using normalizeRequest_Inr [OF that] by blast
  show "\<exists>ms t. getp b ''messages'' = Some (JArr ms) \<and> ms \<noteq> [] \<and> user_turn (last ms) t"
    if "normalizeRequest b = Inr r" for b r
    using normalizeRequest_Inr [OF that] bad_turn_last by blast
qed

section \<open>Merging\<close>

lemma trim_append_nonempty: "trim b \<noteq> [] \<Longrightarrow> trim (a @ b) \<noteq> []"
  by (auto simp: trim_eq_Nil_iff)

lemma mergeTextMessages_snoc: "mergeTextMessages (ms @ [m]) = merge_step (mergeTextMessages ms) m"
  by (simp add: mergeTextMessages_def)

lemma merge_step_nonempty [simp]: "merge_step merged m \<noteq> []"
  by (simp add: merge_step_def)

lemma last_merge_step:
  "role (last (merge_step merged m)) = role m"
  "\<exists>p. messageText (content (last (merge_step merged m))) = p @ messageText (content m)"
  by (auto simp: merge_step_def merge_text_def)

text \<open>The non-empty texts of the messages of one role, in order.\<close>

definition texts :: "string \<Rightarrow> chat_message list \<Rightarrow> string list" where
  "texts r ms = filter (\<lambda>t. t \<noteq> []) (map (\<lambda>m. messageText (content m)) (filter (\<lambda>m. role m = r) ms))"

lemma join_with_append:
  "join_with sep (xs @ ys) =
     (if xs = [] then join_with sep ys else if ys = [] then join_with sep xs
      else join_with sep xs @ sep @ join_with sep ys)"
  by (induction xs) (auto simp: join_with_Cons)

lemma texts_append: "texts r (xs @ ys) = texts r xs @ texts r ys"
  by (simp add: texts_def)

lemma texts_Cons:
  "texts r (m # ms) =
     (if role m = r \<and> messageText (content m) \<noteq> [] then [messageText (content m)] else []) @ texts r ms"
  by (simp add: texts_def)

lemma texts_Nil [simp]: "texts r [] = []"
  by (simp add: texts_def)

lemma join_texts_Nil: "join_with sep (texts r ms) = [] \<longleftrightarrow> texts r ms = []"
proof -
  have "\<forall>t \<in> set ts. t \<noteq> [] \<Longrightarrow> join_with sep ts = [] \<longleftrightarrow> ts = []" for ts
    by (induction ts) (auto simp: join_with_append [of sep "[_]", simplified] split: if_splits)
  then show ?thesis by (simp add: texts_def)
qed

lemma texts_merge_step:
  "join_with sep (texts r (merge_step merged m)) = join_with sep (texts r (merged @ [m]))"
  if "sep = ''\<newline>\<newline>''"
proof (cases "merged \<noteq> [] \<and> mergeable (last merged) \<and> mergeable m \<and> role (last merged) = role m")
  case True
  then obtain bl l where b: "merged = bl @ [l]" "role l = role m" by (metis append_butlast_last_id)
  have "merge_step merged m = bl @ [l\<lparr>content := JStr (merge_text (messageText (content l)) (messageText (content m)))\<rparr>]"
    using True b by (auto simp: merge_step_def)
  then show ?thesis
    using b that unfolding b(1) by (simp add: texts_append texts_Cons join_with_append merge_text_def)
next
  case False
  then have "merge_step merged m = merged @ [m]" by (auto simp: merge_step_def)
  then show ?thesis by simp
qed

definition separate :: "chat_message \<Rightarrow> chat_message \<Rightarrow> bool" where
  "separate a b \<longleftrightarrow> \<not> (mergeable a \<and> mergeable b \<and> role a = role b)"

lemma successively_merge_step:
  assumes "successively separate merged"
  shows "successively separate (merge_step merged m)"
proof (cases "merged \<noteq> [] \<and> mergeable (last merged) \<and> mergeable m \<and> role (last merged) = role m")
  case True
  then obtain bl l where "merged = bl @ [l]" by (metis append_butlast_last_id)
  with True assms show ?thesis
    by (auto simp: merge_step_def successively_append_iff separate_def mergeable_def)
next
  case False
  then show ?thesis
    using assms by (auto simp: merge_step_def successively_append_iff separate_def)
qed

text \<open>
  Merging is in normal form and loses nothing: after it no two neighbouring messages are
  both from the user or both from the assistant, every other message is kept as it was, and
  for either role the non-empty texts joined by blank lines are what they were before.
\<close>

lemma merge_normal_form_lossless:
  "successively separate (mergeTextMessages ms)
     \<and> filter (\<lambda>m. \<not> mergeable m) (mergeTextMessages ms) = filter (\<lambda>m. \<not> mergeable m) ms
     \<and> join_with ''\<newline>\<newline>'' (texts r (mergeTextMessages ms)) = join_with ''\<newline>\<newline>'' (texts r ms)"
proof (induction ms rule: rev_induct)
  case Nil
  then show ?case by (simp add: mergeTextMessages_def)
next
  case (snoc m ms)
  have "filter (\<lambda>m. \<not> mergeable m) (merge_step merged m) = filter (\<lambda>m. \<not> mergeable m) (merged @ [m])" for merged
    by (cases merged rule: rev_cases) (auto simp: merge_step_def mergeable_def)
  then show ?case
    using snoc join_texts_Nil [of "''\<newline>\<newline>''" r ms] join_texts_Nil [of "''\<newline>\<newline>''" r "mergeTextMessages ms"]
    by (simp add: mergeTextMessages_snoc texts_merge_step successively_merge_step
        texts_append join_with_append)
qed

lemma turns_append: "turns (xs @ ys) = turns xs @ turns ys"
  by (induction xs) auto

lemma turns_last_user:
  assumes "ms \<noteq> []" "role (last ms) = ''user''"
  shows "turns ms = turns (butlast ms) @ [(1, messageText (content (last ms)))]"
  using turns_append [of "butlast ms" "[last ms]"] assms by simp

text \<open>
  An accepted request always reaches the upstream with the caller's question at the end:
  the last turn that \<open>buildChatRequest\<close> encodes has the user as its source, its text ends
  with the text of the caller's last message, and that text is not blank. This holds even
  when the last messages were merged.
\<close>

theorem accepted_request_ends_in_user_turn:
  assumes "normalizeRequest body = Inr r"
  shows "\<exists>ms t p ts. getp body ''messages'' = Some (JArr ms) \<and> user_turn (last ms) t
     \<and> turns (mergeTextMessages (wr_messages r)) = ts @ [(1, p @ t)] \<and> trim (p @ t) \<noteq> []"
proof -
  from normalizeRequest_Inr [OF assms] obtain ms where
    ms: "getp body ''messages'' = Some (JArr ms)" "ms \<noteq> []"
      "map_js normalize_message ms = Inr (wr_messages r)" "\<not> bad_turn (last (wr_messages r))" by blast
  from bad_turn_last [OF ms(3,2,4)] obtain t where
    t: "user_turn (last ms) t" "last (wr_messages r) = \<lparr>role = ''user'', content = JStr t\<rparr>" by blast
  have "wr_messages r \<noteq> []" using map_js_length [OF ms(3)] ms(2) by auto
  then obtain merged where
    merged: "mergeTextMessages (wr_messages r) = merge_step merged \<lparr>role = ''user'', content = JStr t\<rparr>"
    using mergeTextMessages_snoc t(2) by (metis append_butlast_last_id)
  from last_merge_step [of merged "\<lparr>role = ''user'', content = JStr t\<rparr>"] obtain p where
    p: "messageText (content (last (mergeTextMessages (wr_messages r)))) = p @ t"
    unfolding merged by auto
  have "turns (mergeTextMessages (wr_messages r))
      = turns (butlast (mergeTextMessages (wr_messages r))) @ [(1, p @ t)]"
    using turns_last_user [of "mergeTextMessages (wr_messages r)"] p
      last_merge_step(1) [of merged "\<lparr>role = ''user'', content = JStr t\<rparr>"]
    by (simp add: merged)
  moreover have "trim (p @ t) \<noteq> []"
    using t(1) by (intro trim_append_nonempty) (simp add: user_turn_def)
  ultimately show ?thesis using ms(1) t(1) by blast
qed

definition witness_body :: json where
  "witness_body = JObj [(''model'', JStr '' swe-1 ''), (''stream'', JBool True),
     (''messages'', JArr [
        JObj [(''role'', JStr ''developer''), (''content'', JStr ''be brief'')],
        JObj [(''role'', JStr ''user''), (''content'', JStr ''hello'')],
        JObj [(''role'', JStr ''user''),
              (''content'', JArr [JObj [(''type'', JStr ''text''), (''text'', JStr ''how are'')],
                                JObj [(''type'', JStr ''text''), (''text'', JStr ''you?'')]])]])]"

lemma witness_body_accepted: "\<exists>r. normalizeRequest witness_body = Inr r"
  by (rule not_isl_ex) code_simp

theorem accepted_request_ends_in_user_turn_witness:
  "\<exists>r p ts. normalizeRequest witness_body = Inr r
     \<and> turns (mergeTextMessages (wr_messages r)) = ts @ [(1, p @ ''how are\<newline>you?'')]"
proof -
  obtain r where r: "normalizeRequest witness_body = Inr r" using witness_body_accepted by blast
  from accepted_request_ends_in_user_turn [OF r] obtain ms t p ts where
    "getp witness_body ''messages'' = Some (JArr ms)" "user_turn (last ms) t"
    "turns (mergeTextMessages (wr_messages r)) = ts @ [(1, p @ t)]" by blast
  then have "t = ''how are\<newline>you?''"
    by (auto simp: witness_body_def user_turn_def parts_text_def)
  with r \<open>turns _ = _\<close> show ?thesis by blast
qed

end
