(* ===== verification/Windsurf_Runtime.thy ===== *)
theory Windsurf_Runtime
  imports Windsurf_Connect Windsurf_Request
begin

text \<open>
  \<^verbatim>\<open>src/tools/windsurf2api/src/runtime.mjs\<close>: the per-token model catalogue cache, the
  token exchange, the preparation of a chat request and the response stream. The cache and
  the stream are state machines: each callback or promise reaction of the code is one
  operation on their state, and the order in which they run is left open. Parameters: the
  Node.js codecs, \<^verbatim>\<open>JSON.parse\<close>, \<^verbatim>\<open>StringDecoder.write\<close> (its carry is a list of
  bytes), the clock, the hash of a token and the random values.
\<close>

record env =
  nd :: node
  gunzip :: "bytes \<Rightarrow> thrown + bytes"
  json_parse :: "string \<Rightarrow> json option"
  num_str :: "rat \<Rightarrow> string"
  decoder_write :: "bytes \<Rightarrow> bytes \<Rightarrow> string \<times> bytes"

section \<open>Small operations\<close>

definition authHeader :: "string \<Rightarrow> string" where
  "authHeader token = ''Basic '' @ token @ ''-'' @ token"

text \<open>The body of a unary call; the fingerprint is the hexadecimal text of 366 random bytes.\<close>

definition buildMetadataLocal :: "string \<Rightarrow> string \<Rightarrow> bytes" where
  "buildMetadataLocal fingerprint token = concat [
     writeStringField 1 (Some ''chisel''),
     writeStringField 2 (Some ''2026.8.18''),
     writeStringField 3 (Some token),
     writeStringField 4 (Some ''en''),
     writeStringField 5 (Some ''linux''),
     writeStringField 7 (Some ''2026.8.18''),
     writeStringField 12 (Some ''chisel''),
     writeStringField 31 (Some fingerprint)]"

definition callUnary_body :: "string \<Rightarrow> string \<Rightarrow> bytes" where
  "callUnary_body fingerprint token = writeMessageField 1 (buildMetadataLocal fingerprint token)"

text \<open>The headers of a chat stream.\<close>

definition chat_headers :: "string \<Rightarrow> bytes \<Rightarrow> (string \<times> string) list" where
  "chat_headers token framed = connectHeaders [(''authorization'', authHeader token),
     (''Content-Length'', show_nat (length framed)), (''Accept'', ''*/*'')]"

text \<open>The settled value of \<open>callUnary\<close> when the response has ended.\<close>

definition callUnary_end :: "node \<Rightarrow> int \<Rightarrow> bytes \<Rightarrow> thrown + bytes" where
  "callUnary_end n status raw =
     (if status \<noteq> 200 then Inl (classifyUpstreamError status (utf8_dec n raw)) else Inr raw)"

text \<open>The settled value of \<open>callUnary\<close> when the request fails: the abort reason, if there is one.\<close>

definition callUnary_error :: "thrown option \<Rightarrow> thrown \<Rightarrow> thrown + bytes" where
  "callUnary_error reason e = Inl (case reason of None \<Rightarrow> e | Some r \<Rightarrow> r)"

definition postJSON_end :: "env \<Rightarrow> int \<Rightarrow> bytes \<Rightarrow> thrown + json" where
  "postJSON_end E status raw =
     (let text = utf8_dec (nd E) raw
      in if status < 200 \<or> 300 \<le> status then Inl (classifyUpstreamError status text)
         else (case json_parse E text of
                 Some v \<Rightarrow> Inr v
               | None \<Rightarrow> Inl (Adapter 502 ''windsurf_register_failed''
                              ''Windsurf registration returned an invalid response.'')))"

definition REGISTER_ENDPOINTS :: "(string \<times> string) list" where
  "REGISTER_ENDPOINTS =
     [(''register.windsurf.com'', ''/exa.seat_management_pb.SeatManagementService/RegisterUser''),
      (''api.codeium.com'', ''/register_user/'')]"

record registered =
  reg_apiKey :: string
  reg_name :: "json option"
  reg_url :: "json option"

text \<open>\<^verbatim>\<open>a || b\<close> and \<^verbatim>\<open>a || ""\<close>\<close>

definition or_else :: "json option \<Rightarrow> json option \<Rightarrow> json option" where
  "or_else a b = (if truthy a then a else b)"

text \<open>
  The loop of \<open>registerToken\<close>; \<open>post\<close> is the settled value of \<open>postJSON\<close> for an endpoint.
\<close>

fun register_loop :: "env \<Rightarrow> (string \<times> string \<Rightarrow> thrown + json) \<Rightarrow> (string \<times> string) list \<Rightarrow> thrown option
    \<Rightarrow> thrown + registered option" where
  "register_loop E post [] lastError = (case lastError of Some e \<Rightarrow> Inl e | None \<Rightarrow> Inr None)"
| "register_loop E post (ep # eps) lastError = (case post ep of
     Inl e \<Rightarrow> register_loop E post eps (Some e)
   | Inr data \<Rightarrow>
       (let apiKey = or_else (getp data ''api_key'') (getp data ''apiKey'')
        in if truthy apiKey then
             Inr (Some \<lparr>reg_apiKey = js_string (num_str E) (the apiKey),
                        reg_name = or_else (getp data ''name'') (Some (JStr '''')),
                        reg_url = or_else (or_else (getp data ''api_server_url'') (getp data ''apiServerUrl''))
                                    (Some (JStr ''''))\<rparr>)
           else register_loop E post eps lastError))"

definition register_body :: "env \<Rightarrow> string \<Rightarrow> string" where
  "register_body E token = stringify (num_str E) (JObj [(''firebase_id_token'', JStr token)])"

definition registerToken :: "env \<Rightarrow> (string \<times> string \<Rightarrow> thrown + json) \<Rightarrow> thrown + registered option" where
  "registerToken E post = register_loop E post REGISTER_ENDPOINTS None"

text \<open>\<open>userStatus\<close>; \<open>call\<close> is the settled value of the unary call with the token.\<close>

definition userStatus :: "node \<Rightarrow> (string \<Rightarrow> thrown + bytes) \<Rightarrow> string option \<Rightarrow> thrown + user_status" where
  "userStatus n call apiKey =
     (let token = trim (case apiKey of None \<Rightarrow> '''' | Some s \<Rightarrow> s)
      in if token = [] then Inl missing_key
         else bind_js (call token) (\<lambda>raw. Inr (decodeUserStatus n raw)))"

fun find_model :: "catalog_model list \<Rightarrow> string \<Rightarrow> string option" where
  "find_model [] name = None"
| "find_model (m # ms) name =
     (if selector m = name \<or> alias_name m = name then Some (selector m) else find_model ms name)"

definition resolveModel :: "catalog_model list \<Rightarrow> string \<Rightarrow> thrown + string" where
  "resolveModel catalog requested =
     (let name = trim requested
      in if name = [] then Inl (Adapter 400 ''invalid_model'' ''A model selector is required.'')
         else (case find_model catalog name of
                 Some s \<Rightarrow> Inr s
               | None \<Rightarrow> Inl (Adapter 400 ''model_not_found''
                   ''The requested model is absent from this Windsurf account's catalog.'')))"

text \<open>
  \<open>generateRequest\<close> from the arrival of the catalogue to the framed body handed to
  \<open>streamChat\<close>. A request made by \<open>normalizeRequest\<close> has no tools.
\<close>

definition prepare_chat :: "env \<Rightarrow> (nat \<Rightarrow> string) \<Rightarrow> string \<Rightarrow> bool \<Rightarrow> string \<Rightarrow> catalog_model list
    \<Rightarrow> windsurf_request \<Rightarrow> thrown + bytes" where
  "prepare_chat E uuid fingerprint stopping apiKey catalog request =
     bind_js (guard_js stopping (Adapter 503 ''adapter_shutdown'' ''Windsurf adapter is shutting down.'')) (\<lambda>_.
     bind_js (resolveModel catalog (wr_model request)) (\<lambda>model.
     bind_js (buildChatRequest (nd E) uuid fingerprint
        \<lparr>a_token = Some (trim apiKey), a_messages = wr_messages request, a_model = model,
         a_session = wr_session_id request, a_completion = wr_completion request\<rparr>) (\<lambda>proto.
       wrapEnvelope (\<lambda>b. b) False proto)))"

section \<open>The catalogue cache\<close>

record cat_item =
  i_key :: string
  i_expires :: int
  i_pending :: bool
  i_abort :: "thrown option"
  i_result :: "(thrown + catalog_model list) option"

text \<open>\<^verbatim>\<open>this.catalogs\<close> maps a key to an item object; the objects live in \<open>items\<close>.\<close>

record cache =
  catalogs :: "(string \<times> nat) list"
  items :: "cat_item list"
  rt_stopping :: bool

definition usable :: "int \<Rightarrow> cat_item \<Rightarrow> bool" where
  "usable now it = (i_pending it \<or> now < i_expires it)"

text \<open>A new item for a key, with the eviction of the oldest entry beyond 64.\<close>

definition catalog_insert :: "int \<Rightarrow> int \<Rightarrow> string \<Rightarrow> cache \<Rightarrow> nat \<times> cache" where
  "catalog_insert ttl now' key c =
     (let r = length (items c);
          m = AList.update key r (catalogs c)
      in (r, c\<lparr>items := items c @ [\<lparr>i_key = key, i_expires = now' + ttl, i_pending = True,
                                     i_abort = None, i_result = None\<rparr>],
                catalogs := (if 64 < length m then AList.delete (fst (hd m)) m else m)\<rparr>))"

text \<open>
  The synchronous part of \<open>catalog\<close>: the item whose promise the caller awaits. \<open>now\<close> and
  \<open>now'\<close> are the two readings of the clock.
\<close>

definition catalog_enter :: "int \<Rightarrow> int \<Rightarrow> int \<Rightarrow> string \<Rightarrow> cache \<Rightarrow> nat \<times> cache" where
  "catalog_enter ttl now now' key c =
     (case map_of (catalogs c) key of
        Some r \<Rightarrow> if usable now (items c ! r) then (r, c) else catalog_insert ttl now' key c
      | None \<Rightarrow> catalog_insert ttl now' key c)"

definition catalog_result :: "node \<Rightarrow> thrown + bytes \<Rightarrow> thrown + catalog_model list" where
  "catalog_result n raw = bind_js raw (\<lambda>b. bind_js (decodeCatalog n b) (\<lambda>models.
     bind_js (guard_js (models = []) (Adapter 502 ''empty_model_catalog''
        ''Windsurf returned no available models for this account.'')) (\<lambda>_. Inr models)))"

text \<open>The reactions of the item's promise: \<open>then\<close>/\<open>catch\<close>, and later \<open>finally\<close>.\<close>

definition catalog_settle :: "node \<Rightarrow> nat \<Rightarrow> thrown + bytes \<Rightarrow> cache \<Rightarrow> cache" where
  "catalog_settle n r raw c =
     (let it = items c ! r; res = catalog_result n raw
      in c\<lparr>items := (items c)[r := it\<lparr>i_result := Some res\<rparr>],
           catalogs := (if isl res \<and> map_of (catalogs c) (i_key it) = Some r
                        then AList.delete (i_key it) (catalogs c) else catalogs c)\<rparr>)"

definition catalog_finally :: "nat \<Rightarrow> cache \<Rightarrow> cache" where
  "catalog_finally r c = c\<lparr>items := (items c)[r := (items c ! r)\<lparr>i_pending := False\<rparr>]\<rparr>"

text \<open>\<open>stop\<close>: every item still in the map is aborted, unless it already was.\<close>

definition abort_item :: "thrown \<Rightarrow> cat_item \<Rightarrow> cat_item" where
  "abort_item e it = (case i_abort it of None \<Rightarrow> it\<lparr>i_abort := Some e\<rparr> | Some _ \<Rightarrow> it)"

definition runtime_stop :: "cache \<Rightarrow> cache" where
  "runtime_stop c = c\<lparr>rt_stopping := True,
     items := foldl (\<lambda>its r. its[r := abort_item (Adapter 503 ''adapter_shutdown''
                ''Windsurf adapter is shutting down.'') (its ! r)]) (items c) (map snd (catalogs c))\<rparr>"

definition empty_cache :: cache where
  "empty_cache = \<lparr>catalogs = [], items = [], rt_stopping = False\<rparr>"

inductive cache_step :: "node \<Rightarrow> int \<Rightarrow> cache \<Rightarrow> cache \<Rightarrow> bool" for n ttl where
  cs_enter: "cache_step n ttl c (snd (catalog_enter ttl now now' key c))"
| cs_settle: "r < length (items c) \<Longrightarrow> i_result (items c ! r) = None
    \<Longrightarrow> cache_step n ttl c (catalog_settle n r raw c)"
| cs_finally: "r < length (items c) \<Longrightarrow> i_result (items c ! r) \<noteq> None
    \<Longrightarrow> cache_step n ttl c (catalog_finally r c)"
| cs_stop: "cache_step n ttl c (runtime_stop c)"

inductive cache_reachable :: "node \<Rightarrow> int \<Rightarrow> cache \<Rightarrow> bool" for n ttl where
  cr_init: "cache_reachable n ttl empty_cache"
| cr_step: "cache_reachable n ttl c \<Longrightarrow> cache_step n ttl c c' \<Longrightarrow> cache_reachable n ttl c'"

text \<open>
  The invariant of the cache: one entry per key, at most 64, each referring to its own
  item, which is in flight or holds a non-empty catalogue.
\<close>

definition good_item :: "cat_item \<Rightarrow> bool" where
  "good_item it \<longleftrightarrow> i_result it = None \<and> i_pending it \<or> (\<exists>models. i_result it = Some (Inr models) \<and> models \<noteq> [])"

definition item_ok :: "cache \<Rightarrow> string \<times> nat \<Rightarrow> bool" where
  "item_ok c e = (case e of (k, r) \<Rightarrow> r < length (items c) \<and> i_key (items c ! r) = k \<and> good_item (items c ! r))"

definition cache_inv :: "cache \<Rightarrow> bool" where
  "cache_inv c \<longleftrightarrow> distinct (map fst (catalogs c)) \<and> length (catalogs c) \<le> 64
     \<and> (\<forall>e \<in> set (catalogs c). item_ok c e)"

lemma item_ok_append: "item_ok c e \<Longrightarrow> item_ok (c\<lparr>items := items c @ its, catalogs := m\<rparr>) e"
  by (auto simp: item_ok_def nth_append split: prod.splits)


lemma cache_inv_insert:
  assumes "cache_inv c"
  shows "cache_inv (snd (catalog_insert ttl now' key c))"
proof -
  let ?r = "length (items c)"
  let ?m = "AList.update key ?r (catalogs c)"
  let ?m' = "if 64 < length ?m then AList.delete (fst (hd ?m)) ?m else ?m"
  let ?c = "snd (catalog_insert ttl now' key c)"
  have d: "distinct (map fst ?m)" using assms by (simp add: cache_inv_def distinct_keys_update)
  have len: "length ?m \<le> 65" using assms by (simp add: cache_inv_def length_update)
  have sub: "set ?m' \<subseteq> set ?m" by (simp add: set_delete_subset)
  have "length ?m' \<le> 64"
  proof (cases "64 < length ?m")
    case True
    then have "hd ?m \<in> set ?m" by (intro hd_in_set) auto
    then have "length (AList.delete (fst (hd ?m)) ?m) < length ?m"
      by (intro length_delete_less) auto
    with len True show ?thesis by simp
  qed simp
  moreover have "item_ok ?c e" if "e \<in> set ?m'" for e
  proof -
    from that sub have "e \<in> set ?m" by blast
    from set_update_cases [OF this] show ?thesis
    proof
      assume "e = (key, ?r)"
      then show ?thesis by (simp add: catalog_insert_def Let_def item_ok_def good_item_def)
    next
      assume "e \<in> set (catalogs c)"
      then show ?thesis
        using assms by (auto simp: catalog_insert_def Let_def cache_inv_def intro!: item_ok_append)
    qed
  qed
  moreover have "distinct (map fst ?m')" using d by (simp add: distinct_keys_delete)
  ultimately show ?thesis
    by (simp add: cache_inv_def catalog_insert_def Let_def)
qed

lemma cache_inv_enter: "cache_inv c \<Longrightarrow> cache_inv (snd (catalog_enter ttl now now' key c))"
  using cache_inv_insert by (auto simp: catalog_enter_def split: option.splits)

lemma catalog_result_nonempty: "catalog_result n raw = Inr models \<Longrightarrow> models \<noteq> []"
  by (auto simp: catalog_result_def)

lemma cache_inv_settle:
  assumes "cache_inv c" "r < length (items c)"
  shows "cache_inv (catalog_settle n r raw c)"
proof -
  let ?c = "catalog_settle n r raw c"
  have keys: "set (catalogs ?c) \<subseteq> set (catalogs c)"
    by (simp add: catalog_settle_def Let_def set_delete_subset)
  have "item_ok ?c (k, s)" if e: "(k, s) \<in> set (catalogs ?c)" for k s
  proof (cases "s = r")
    case True
    from e keys have old: "(k, r) \<in> set (catalogs c)" "i_key (items c ! r) = k"
      using assms(1) True by (auto simp: cache_inv_def item_ok_def)
    then have "map_of (catalogs c) k = Some r" using assms(1) by (simp add: cache_inv_def)
    with e old True have ok: "\<not> isl (catalog_result n raw)"
      by (auto simp: catalog_settle_def Let_def AList.delete_eq split: if_splits)
    then obtain models where "catalog_result n raw = Inr models" using not_isl_ex by blast
    with True old assms(2) show ?thesis
      using catalog_result_nonempty by (simp add: item_ok_def good_item_def catalog_settle_def Let_def)
  next
    case False
    with e keys assms show ?thesis
      by (auto simp: item_ok_def catalog_settle_def Let_def cache_inv_def)
  qed
  then show ?thesis
    using assms keys
    by (auto simp: cache_inv_def catalog_settle_def Let_def distinct_keys_delete
        intro: order_trans [OF length_delete_le])
qed

lemma cache_inv_finally:
  "cache_inv c \<Longrightarrow> r < length (items c) \<Longrightarrow> i_result (items c ! r) \<noteq> None \<Longrightarrow> cache_inv (catalog_finally r c)"
  by (auto simp: cache_inv_def catalog_finally_def item_ok_def good_item_def nth_list_update)

lemma abort_fold_keeps:
  assumes "\<And>it. g (abort_item e it) = g it"
  shows "map g (foldl (\<lambda>its r. its[r := abort_item e (its ! r)]) its rs) = map g its"
proof (induction rs arbitrary: its)
  case (Cons r rs)
  have "map g (its[r := abort_item e (its ! r)]) = map g its"
    by (cases "r < length its") (simp_all add: map_update assms list_update_same_conv list_update_beyond)
  with Cons show ?case by simp
qed simp

lemma cache_inv_stop:
  assumes "cache_inv c"
  shows "cache_inv (runtime_stop c)"
proof -
  let ?e = "Adapter 503 ''adapter_shutdown'' ''Windsurf adapter is shutting down.''"
  let ?g = "\<lambda>it. (i_key it, good_item it)"
  have m: "map ?g (items (runtime_stop c)) = map ?g (items c)"
    unfolding runtime_stop_def
    by (simp, rule abort_fold_keeps) (simp add: abort_item_def good_item_def split: option.splits)
  then have len: "length (items (runtime_stop c)) = length (items c)" by (metis length_map)
  have "?g (items (runtime_stop c) ! r) = ?g (items c ! r)" if "r < length (items c)" for r
    using arg_cong [OF m, of "\<lambda>l. l ! r"] that len by simp
  moreover have "catalogs (runtime_stop c) = catalogs c" by (simp add: runtime_stop_def)
  ultimately show ?thesis
    using assms len by (auto simp: cache_inv_def item_ok_def)
qed

lemma cache_inv_step: "cache_step n ttl c c' \<Longrightarrow> cache_inv c \<Longrightarrow> cache_inv c'"
  by (induction rule: cache_step.induct)
    (simp_all add: cache_inv_enter cache_inv_settle cache_inv_finally cache_inv_stop)

lemma cache_inv_reachable: "cache_reachable n ttl c \<Longrightarrow> cache_inv c"
proof (induction rule: cache_reachable.induct)
  case cr_init
  then show ?case by (simp add: cache_inv_def empty_cache_def)
next
  case (cr_step c c')
  then show ?case using cache_inv_step by blast
qed

text \<open>
  In every state the runtime can reach, whatever the order of calls, settlements,
  clean-ups and shutdown, the catalogue cache has at most 64 entries, one per token, and
  each is either still in flight or holds a non-empty catalogue: a failed or empty
  catalogue is never kept.
\<close>

theorem cache_bounded_and_never_failed:
  assumes "cache_reachable n ttl c"
  shows "length (catalogs c) \<le> 64 \<and> distinct (map fst (catalogs c))
     \<and> (\<forall>(k, r) \<in> set (catalogs c). i_key (items c ! r) = k
          \<and> (i_pending (items c ! r) \<and> i_result (items c ! r) = None
             \<or> (\<exists>models. i_result (items c ! r) = Some (Inr models) \<and> models \<noteq> [])))"
  using cache_inv_reachable [OF assms] by (auto simp: cache_inv_def item_ok_def good_item_def)

theorem cache_bounded_and_never_failed_witness:
  "let c = catalog_settle witness_node 0 (Inl missing_key) (snd (catalog_enter 5 1 1 ''k'' empty_cache))
   in length (catalogs c) \<le> 64 \<and> catalogs c = []"
proof -
  let ?c1 = "snd (catalog_enter 5 1 1 ''k'' empty_cache)"
  have one: "length (items ?c1) = 1" "i_result (items ?c1 ! 0) = None" by code_simp+
  have "cache_reachable witness_node 5 ?c1"
    by (rule cr_step [OF cr_init cs_enter])
  then have "cache_reachable witness_node 5 (catalog_settle witness_node 0 (Inl missing_key) ?c1)"
    by (rule cr_step) (rule cs_settle, simp_all add: one)
  from cache_bounded_and_never_failed [OF this] show ?thesis
    unfolding Let_def by (rule conjI [OF conjunct1]) code_simp
qed

text \<open>
  A model name is resolved to the selector of the first catalogue entry that carries it
  as its selector or as its alias; blank and unknown names are refused with status 400.
\<close>

lemma resolveModel_spec:
  "case resolveModel catalog requested of
     Inr s \<Rightarrow> (\<exists>pre m post. catalog = pre @ m # post \<and> s = selector m
        \<and> (selector m = trim requested \<or> alias_name m = trim requested)
        \<and> list_all (\<lambda>m'. selector m' \<noteq> trim requested \<and> alias_name m' \<noteq> trim requested) pre)
   | Inl e \<Rightarrow> status_of e = Some 400
        \<and> (trim requested = [] \<or> list_all (\<lambda>m. selector m \<noteq> trim requested \<and> alias_name m \<noteq> trim requested) catalog)"
proof -
  have None: "find_model c name = None \<longleftrightarrow> (\<forall>m \<in> set c. selector m \<noteq> name \<and> alias_name m \<noteq> name)" for c name
    by (induction c) auto
  have Some: "find_model c name = Some s \<Longrightarrow> \<exists>pre m post. c = pre @ m # post \<and> s = selector m
      \<and> (selector m = name \<or> alias_name m = name) \<and> find_model pre name = None" for c name s
  proof (induction c)
    case (Cons x c)
    show ?case
    proof (cases "selector x = name \<or> alias_name x = name")
      case True
      with Cons.prems show ?thesis by (intro exI [of _ "[]"] exI [of _ x] exI [of _ c]) auto
    next
      case False
      with Cons obtain pre m post where "c = pre @ m # post" "s = selector m"
        "selector m = name \<or> alias_name m = name" "find_model pre name = None" by auto
      with False show ?thesis by (intro exI [of _ "x # pre"] exI [of _ m] exI [of _ post]) auto
    qed
  qed simp
  show ?thesis
    using None [of catalog "trim requested"] Some [of catalog "trim requested"] None
    by (auto simp: resolveModel_def Let_def list_all_iff split: option.splits)
qed

section \<open>The response stream\<close>

record reply =
  re_content :: string
  re_reasoning :: string
  re_usage :: "token_usage option"

datatype callback = OnText string | OnThinking string

datatype response = Waiting | Streaming | Failing int bytes

text \<open>
  The variables of one \<open>streamChat\<close> call: the frame buffer, the carries of the two
  decoders, the text so far, the settled value of the promise, the reason of the abort
  controller and, as a history variable, the callbacks made.
\<close>

record stream =
  st_response :: response
  st_buffer :: bytes
  st_cdec :: bytes
  st_rdec :: bytes
  st_content :: string
  st_reasoning :: string
  st_usage :: "token_usage option"
  st_settled :: "(thrown + reply) option"
  st_abort :: "thrown option"
  st_calls :: "callback list"

definition init_stream :: stream where
  "init_stream = \<lparr>st_response = Waiting, st_buffer = [], st_cdec = [], st_rdec = [], st_content = '''',
     st_reasoning = '''', st_usage = None, st_settled = None, st_abort = None, st_calls = []\<rparr>"

definition settle :: "thrown + reply \<Rightarrow> stream \<Rightarrow> stream" where
  "settle v st = (case st_settled st of None \<Rightarrow> st\<lparr>st_settled := Some v\<rparr> | Some _ \<Rightarrow> st)"

definition abort_stream :: "thrown \<Rightarrow> stream \<Rightarrow> stream" where
  "abort_stream e st = (case st_abort st of None \<Rightarrow> st\<lparr>st_abort := Some e\<rparr> | Some _ \<Rightarrow> st)"

text \<open>
  The status of a trailer's error object, \<^verbatim>\<open>parsed.error.status || 502\<close>, for numeric
  statuses; a status of any other type is outside the model and read as absent.
\<close>

definition trailer_status :: "json \<Rightarrow> int" where
  "trailer_status err = (case num_of (getp err ''status'') of
     Some q \<Rightarrow> if q = 0 then 502 else \<lfloor>q\<rfloor> | None \<Rightarrow> 502)"

text \<open>What an end-of-stream frame says: an upstream error, or success.\<close>

definition trailer_error :: "env \<Rightarrow> bytes \<Rightarrow> thrown option" where
  "trailer_error E payload =
     (let text = trim (utf8_dec (nd E) payload)
      in if text \<noteq> [] \<and> text \<noteq> ''{}'' then
           (case json_parse E text of
              None \<Rightarrow> None
            | Some parsed \<Rightarrow>
                if truthy (getp parsed ''error'')
                then Some (classifyUpstreamError (trailer_status (the (getp parsed ''error'')))
                             (stringify (num_str E) (the (getp parsed ''error''))))
                else None)
         else None)"

definition end_frame :: "env \<Rightarrow> frame \<Rightarrow> stream \<Rightarrow> stream" where
  "end_frame E f st = (case trailer_error E (fr_payload f) of
     Some e \<Rightarrow> settle (Inl e) st
   | None \<Rightarrow> settle (Inr \<lparr>re_content = st_content st, re_reasoning = st_reasoning st,
                          re_usage = st_usage st\<rparr>) st)"

definition on_content :: "env \<Rightarrow> bytes option \<Rightarrow> stream \<Rightarrow> stream" where
  "on_content E b st = (case b of None \<Rightarrow> st | Some bs \<Rightarrow>
     (let (text, carry) = decoder_write E (st_cdec st) bs
      in if text \<noteq> [] then st\<lparr>st_cdec := carry, st_content := st_content st @ text,
                               st_calls := st_calls st @ [OnText text]\<rparr>
         else st\<lparr>st_cdec := carry\<rparr>))"

definition on_reasoning :: "env \<Rightarrow> bytes option \<Rightarrow> stream \<Rightarrow> stream" where
  "on_reasoning E b st = (case b of None \<Rightarrow> st | Some bs \<Rightarrow>
     (let (text, carry) = decoder_write E (st_rdec st) bs
      in if text \<noteq> [] then st\<lparr>st_rdec := carry, st_reasoning := st_reasoning st @ text,
                               st_calls := st_calls st @ [OnThinking text]\<rparr>
         else st\<lparr>st_rdec := carry\<rparr>))"

definition message_frame :: "env \<Rightarrow> frame \<Rightarrow> stream \<Rightarrow> stream" where
  "message_frame E f st =
     (let d = decodeFrame (nd E) (fr_payload f);
          st1 = on_reasoning E (reasoningBytes d) (on_content E (contentBytes d) st)
      in case usage d of None \<Rightarrow> st1 | Some u \<Rightarrow> st1\<lparr>st_usage := Some u\<rparr>)"

text \<open>The loop over the frames of one chunk: it returns at an end-of-stream frame.\<close>

fun frames_loop :: "env \<Rightarrow> frame list \<Rightarrow> stream \<Rightarrow> stream" where
  "frames_loop E [] st = st"
| "frames_loop E (f # fs) st =
     (if isEndStream f then end_frame E f st else frames_loop E fs (message_frame E f st))"

datatype stream_event =
    Response int
  | Data bytes
  | ResError thrown
  | ResEnd
  | ReqError thrown
  | Deadline
  | Aborted thrown

definition timeout_error :: thrown where
  "timeout_error = Adapter 504 ''windsurf_timeout'' ''Windsurf request timed out.''"

definition truncated_error :: thrown where
  "truncated_error = Adapter 502 ''windsurf_stream_truncated'' ''Windsurf stream ended before a terminal frame.''"

definition on_data :: "env \<Rightarrow> bytes \<Rightarrow> stream \<Rightarrow> stream" where
  "on_data E chunk st = (case push (gunzip E) (st_buffer st) chunk of
     (Inl e, buf) \<Rightarrow> settle (Inl e) (abort_stream e (st\<lparr>st_buffer := buf\<rparr>))
   | (Inr frames, buf) \<Rightarrow> frames_loop E frames (st\<lparr>st_buffer := buf\<rparr>))"

text \<open>
  One event of the request or of its timers. The deadline timer is cleared when the
  promise settles.
\<close>

fun stream_event_step :: "env \<Rightarrow> stream \<Rightarrow> stream_event \<Rightarrow> stream" where
  "stream_event_step E st (Response status) =
     (if st_response st \<noteq> Waiting then st
      else st\<lparr>st_response := (if status \<noteq> 200 then Failing status [] else Streaming)\<rparr>)"
| "stream_event_step E st (Data chunk) = (case st_response st of
     Waiting \<Rightarrow> st
   | Failing status chunks \<Rightarrow> st\<lparr>st_response := Failing status (chunks @ chunk)\<rparr>
   | Streaming \<Rightarrow> on_data E chunk st)"
| "stream_event_step E st (ResError e) = (if st_response st = Waiting then st else settle (Inl e) st)"
| "stream_event_step E st ResEnd = (case st_response st of
     Waiting \<Rightarrow> st
   | Failing status chunks \<Rightarrow> settle (Inl (classifyUpstreamError status (utf8_dec (nd E) chunks))) st
   | Streaming \<Rightarrow> settle (Inl truncated_error) st)"
| "stream_event_step E st (ReqError e) =
     settle (Inl (case st_abort st of Some r \<Rightarrow> r | None \<Rightarrow> e)) st"
| "stream_event_step E st Deadline = (if st_settled st = None then abort_stream timeout_error st else st)"
| "stream_event_step E st (Aborted r) = abort_stream r st"

definition run_stream :: "env \<Rightarrow> stream \<Rightarrow> stream_event list \<Rightarrow> stream" where
  "run_stream E st evs = foldl (stream_event_step E) st evs"

lemmas stream_ops = settle_def abort_stream_def end_frame_def on_content_def on_reasoning_def message_frame_def

subsection \<open>The promise settles once\<close>

lemma settle_Some: "st_settled st = Some v \<Longrightarrow> settle w st = st"
  by (simp add: settle_def)

lemma settled_frame [simp]:
  "st_settled (on_content E b st) = st_settled st" "st_settled (on_reasoning E b st) = st_settled st"
  "st_settled (message_frame E f st) = st_settled st" "st_settled (abort_stream e st) = st_settled st"
  by (auto simp: stream_ops Let_def split: option.splits prod.splits)

lemma settled_frames_loop: "st_settled st = Some v \<Longrightarrow> st_settled (frames_loop E fs st) = Some v"
  by (induction fs arbitrary: st) (auto simp: end_frame_def settle_Some split: option.splits)

lemma settled_step: "st_settled st = Some v \<Longrightarrow> st_settled (stream_event_step E st ev) = Some v"
  by (cases ev) (auto simp: on_data_def settle_Some settled_frames_loop split: response.splits prod.splits sum.splits)

lemma settled_run: "st_settled st = Some v \<Longrightarrow> st_settled (run_stream E st evs) = Some v"
  unfolding run_stream_def by (induction evs arbitrary: st) (auto simp: settled_step)

subsection \<open>The reply is what was streamed\<close>

fun said_text :: "callback list \<Rightarrow> string" where
  "said_text [] = []"
| "said_text (OnText t # cs) = t @ said_text cs"
| "said_text (OnThinking t # cs) = said_text cs"

fun said_thinking :: "callback list \<Rightarrow> string" where
  "said_thinking [] = []"
| "said_thinking (OnText t # cs) = said_thinking cs"
| "said_thinking (OnThinking t # cs) = t @ said_thinking cs"

lemma said_append [simp]:
  "said_text (xs @ ys) = said_text xs @ said_text ys"
  "said_thinking (xs @ ys) = said_thinking xs @ said_thinking ys"
  by (induction xs rule: said_text.induct) auto

definition reply_said :: "reply \<Rightarrow> callback list \<Rightarrow> bool" where
  "reply_said rep calls \<longleftrightarrow> (\<exists>pre post. calls = pre @ post \<and> re_content rep = said_text pre
     \<and> re_reasoning rep = said_thinking pre)"

definition stream_inv :: "stream \<Rightarrow> bool" where
  "stream_inv st \<longleftrightarrow> st_content st = said_text (st_calls st) \<and> st_reasoning st = said_thinking (st_calls st)
     \<and> (\<forall>rep. st_settled st = Some (Inr rep) \<longrightarrow> reply_said rep (st_calls st))"

lemma reply_said_append: "reply_said rep calls \<Longrightarrow> reply_said rep (calls @ more_calls)"
  unfolding reply_said_def by (metis append.assoc)

lemma stream_inv_error [intro]: "stream_inv st \<Longrightarrow> stream_inv (settle (Inl e) st)"
  by (auto simp: stream_inv_def settle_def split: option.splits)

lemma stream_inv_abort [intro]: "stream_inv st \<Longrightarrow> stream_inv (abort_stream e st)"
  by (auto simp: stream_inv_def abort_stream_def split: option.splits)

lemma stream_inv_end_frame: "stream_inv st \<Longrightarrow> stream_inv (end_frame E f st)"
  by (auto simp: stream_inv_def end_frame_def settle_def reply_said_def split: option.splits)

lemma stream_inv_message_frame: "stream_inv st \<Longrightarrow> stream_inv (message_frame E f st)"
  by (auto simp: stream_inv_def message_frame_def on_content_def on_reasoning_def Let_def
      intro: reply_said_append split: option.splits prod.splits)

lemma stream_inv_frames_loop: "stream_inv st \<Longrightarrow> stream_inv (frames_loop E fs st)"
  by (induction fs arbitrary: st) (auto simp: stream_inv_end_frame stream_inv_message_frame)

lemma stream_inv_more [simp]:
  "stream_inv (st\<lparr>st_buffer := b\<rparr>) = stream_inv st" "stream_inv (st\<lparr>st_response := rr\<rparr>) = stream_inv st"
  by (simp_all add: stream_inv_def)

lemma stream_inv_step: "stream_inv st \<Longrightarrow> stream_inv (stream_event_step E st ev)"
  by (cases ev)
    (auto simp: on_data_def stream_inv_frames_loop
      intro!: stream_inv_error stream_inv_abort split: response.splits prod.splits sum.splits)

lemma stream_inv_run: "stream_inv st \<Longrightarrow> stream_inv (run_stream E st evs)"
  unfolding run_stream_def by (induction evs arbitrary: st) (auto simp: stream_inv_step)

lemma stream_inv_init: "stream_inv init_stream"
  by (simp add: stream_inv_def init_stream_def)


subsection \<open>The outcome does not depend on the chunks\<close>

lemma message_frame_frame:
  "message_frame E f (st\<lparr>st_buffer := b\<rparr>) = (message_frame E f st)\<lparr>st_buffer := b\<rparr>"
  "message_frame E f (st\<lparr>st_response := rr\<rparr>) = (message_frame E f st)\<lparr>st_response := rr\<rparr>"
  by (simp_all add: message_frame_def on_content_def on_reasoning_def Let_def split: option.splits prod.splits)

lemma end_frame_frame:
  "end_frame E f (st\<lparr>st_buffer := b\<rparr>) = (end_frame E f st)\<lparr>st_buffer := b\<rparr>"
  "end_frame E f (st\<lparr>st_response := rr\<rparr>) = (end_frame E f st)\<lparr>st_response := rr\<rparr>"
  by (simp_all add: end_frame_def settle_def split: option.splits)

lemma frames_loop_frame:
  "frames_loop E fs (st\<lparr>st_buffer := b\<rparr>) = (frames_loop E fs st)\<lparr>st_buffer := b\<rparr>"
  "frames_loop E fs (st\<lparr>st_response := rr\<rparr>) = (frames_loop E fs st)\<lparr>st_response := rr\<rparr>"
  by (induction fs arbitrary: st) (simp_all add: message_frame_frame end_frame_frame)

lemma response_frames_loop [simp]: "st_response (frames_loop E fs st) = st_response st"
proof (induction fs arbitrary: st)
  case (Cons f fs)
  have "st_response (message_frame E f st) = st_response st" for st
    by (simp add: message_frame_def on_content_def on_reasoning_def Let_def split: option.splits prod.splits)
  with Cons show ?case by (simp add: end_frame_def settle_def split: option.splits)
qed simp

lemma end_frame_settles: "\<exists>v. st_settled (end_frame E f st) = Some v"
  by (auto simp: end_frame_def settle_def split: option.splits)

lemma frames_loop_append:
  "(\<exists>v. st_settled (frames_loop E fs st) = Some v \<and> frames_loop E (fs @ gs) st = frames_loop E fs st)
     \<or> frames_loop E (fs @ gs) st = frames_loop E gs (frames_loop E fs st)"
  using end_frame_settles by (induction fs arbitrary: st) auto

lemma run_data_chunks:
  assumes "st_response st = Streaming"
    and "decodeFrames (gunzip E) (st_buffer st @ concat cs) = Inr (fs, rest)"
  shows "st_settled (run_stream E st (map Data cs)) = st_settled (frames_loop E fs st)
     \<or> cs = []"
  using assms
proof (induction cs arbitrary: st fs)
  case (Cons c cs)
  let ?b = "st_buffer st @ c"
  obtain fs1 rest1 where one: "decodeFrames (gunzip E) ?b = Inr (fs1, rest1)"
    using Cons.prems(2) decodeFrames_append_error [of "gunzip E" ?b _ "concat cs"]
    by (cases "decodeFrames (gunzip E) ?b") auto
  from decodeFrames_append [OF this, of "concat cs"] Cons.prems(2) obtain fs2 where
    two: "decodeFrames (gunzip E) (rest1 @ concat cs) = Inr (fs2, rest)" "fs = fs1 @ fs2"
    by (auto split: sum.splits)
  let ?st = "(frames_loop E fs1 st)\<lparr>st_buffer := rest1\<rparr>"
  have step: "run_stream E st (map Data (c # cs)) = run_stream E ?st (map Data cs)"
    using Cons.prems(1) one
    by (simp add: run_stream_def on_data_def push_eq frames_loop_frame)
  have "st_settled (run_stream E ?st (map Data cs)) = st_settled (frames_loop E fs2 ?st)"
  proof (cases "cs = []")
    case True
    with two decodeFrames_rest [OF one] show ?thesis by (simp add: run_stream_def)
  next
    case False
    with Cons.IH [of ?st fs2] Cons.prems(1) two show ?thesis by simp
  qed
  also have "\<dots> = st_settled (frames_loop E (fs1 @ fs2) st)"
    using frames_loop_append [of E fs1 st fs2] settled_frames_loop
    by (auto simp: frames_loop_frame)
  finally show ?case using step two(2) by simp
qed simp

lemma stream_outcome_chunks:
  assumes "decodeFrames (gunzip E) (concat cs) = Inr (fs, rest)"
  shows "st_settled (run_stream E init_stream (Response 200 # map Data cs))
     = st_settled (frames_loop E fs init_stream)"
proof -
  let ?st = "init_stream\<lparr>st_response := Streaming\<rparr>"
  have start: "run_stream E init_stream (Response 200 # map Data cs) = run_stream E ?st (map Data cs)"
    by (simp add: run_stream_def init_stream_def)
  note resp = frames_loop_frame(2) [where E = E and fs = fs and st = init_stream and rr = Streaming]
  show ?thesis
  proof (cases "cs = []")
    case True
    with assms show ?thesis by (auto simp: run_stream_def init_stream_def)
  next
    case False
    with run_data_chunks [of ?st E cs fs rest] assms resp show ?thesis
      unfolding start by (auto simp: init_stream_def)
  qed
qed

text \<open>
  The settled outcome of a chat stream is a function of the bytes received, not of how the
  network cut them into chunks: if they decode into frames, any chunking settles the
  promise exactly as processing those frames at once does.
\<close>

theorem stream_outcome_chunk_invariant:
  assumes "decodeFrames (gunzip E) (concat cs) = Inr (fs, rest)"
  shows "st_settled (run_stream E init_stream (Response 200 # map Data cs))
     = st_settled (frames_loop E fs init_stream)"
  by (rule stream_outcome_chunks [OF assms])

lemma unary_metadata_mirrors_chat: "buildMetadataLocal fp token = buildClientMetadata fp (Some token)"
  by (simp add: buildMetadataLocal_def buildClientMetadata_def CLIENT_NAME_def CLIENT_VERSION_def)

subsection \<open>A reply, end to end\<close>

lemma decodeFrames_plain:
  assumes "length p \<le> MAX_FRAME_SIZE" and "fl AND 1 = 0"
  shows "decodeFrames gz (fl # be32 (length p) @ p @ tail) =
     (case decodeFrames gz tail of Inl e \<Rightarrow> Inl e
      | Inr (out, rest) \<Rightarrow> Inr (\<lparr>fr_flags = fl, isEndStream = (fl AND 2 \<noteq> 0), fr_payload = p\<rparr> # out, rest))"
proof -
  have n32: "length p < 2 ^ 32" using assms(1) unfolding MAX_FRAME_SIZE_def by (rule order.strict_trans1) simp
  note len = of_be32_be32 [OF n32]
  have "frame_payload gz fl p = Inr p" using assms(2) by (simp add: frame_payload_def)
  moreover have "\<not> MAX_FRAME_SIZE < length p" using assms(1) by simp
  ultimately show ?thesis
    unfolding be32_def append_Cons append_Nil decodeFrames.simps Let_def len
    by (simp split: sum.splits)
qed

text \<open>
  What the upstream sends for a reply made of the texts \<open>ts\<close>: one uncompressed envelope per
  text, with the text in field 3 of the message, and a trailer.
\<close>

definition text_message :: "string \<Rightarrow> bytes" where
  "text_message t = writeStringField 3 (Some t)"

definition reply_bytes :: "string list \<Rightarrow> bytes" where
  "reply_bytes ts = concat (map (\<lambda>t. 0 # be32 (length (text_message t)) @ text_message t) ts)
     @ 2 # be32 2 @ utf8 ''{}''"

definition text_frame :: "string \<Rightarrow> frame" where
  "text_frame t = \<lparr>fr_flags = 0, isEndStream = False, fr_payload = text_message t\<rparr>"

definition trailer_frame :: frame where
  "trailer_frame = \<lparr>fr_flags = 2, isEndStream = True, fr_payload = utf8 ''{}''\<rparr>"

lemma decode_reply_bytes:
  "list_all (\<lambda>t. length (text_message t) \<le> MAX_FRAME_SIZE) ts \<Longrightarrow>
   decodeFrames gz (reply_bytes ts) = Inr (map text_frame ts @ [trailer_frame], [])"
proof (induction ts)
  case Nil
  have two: "length (utf8 ''{}'') = 2" by code_simp
  have "decodeFrames gz (2 # be32 (length (utf8 ''{}'')) @ utf8 ''{}'' @ []) = Inr ([trailer_frame], [])"
    by (subst decodeFrames_plain) (simp_all add: two MAX_FRAME_SIZE_def trailer_frame_def)
  then show ?case by (simp add: reply_bytes_def two)
next
  case (Cons t ts)
  then show ?case
    using decodeFrames_plain [of "text_message t" 0 gz "reply_bytes ts"]
    by (simp add: reply_bytes_def text_frame_def)
qed

lemma length_text_message: "length (utf8 t) \<le> length (text_message t)"
  by (simp add: text_message_def writeStringField_def Let_def)

lemma decodeFrame_text:
  assumes "length (text_message t) \<le> MAX_FRAME_SIZE"
  shows "decodeFrame n (text_message t)
     = \<lparr>contentBytes = Some (utf8 t), reasoningBytes = None, finish = None, usage = None\<rparr>"
proof -
  have "length (utf8 t) \<le> MAX_FRAME_SIZE" using length_text_message [of t] assms by simp
  then have "length (utf8 t) < 2 ^ 53" unfolding MAX_FRAME_SIZE_def by (rule order.strict_trans1) simp
  then have "parseFields (text_message t) = Inr [got_wire (WBytes 3 (utf8 t))]"
    using parseFields_wires [of "[WBytes 3 (utf8 t)]"]
    by (simp add: text_message_def put_wire_string [symmetric] del: put_wire.simps)
  then show ?thesis by (simp add: decodeFrame_def getField_def buf_of_def)
qed

definition decodes_whole :: "env \<Rightarrow> string \<Rightarrow> bool" where
  "decodes_whole E t = (decoder_write E [] (utf8 t) = (t, []))"

lemma frames_loop_reply:
  assumes "utf8_dec (nd E) (utf8 ''{}'') = ''{}''"
  shows "list_all (\<lambda>t. length (text_message t) \<le> MAX_FRAME_SIZE) ts \<Longrightarrow> list_all (decodes_whole E) ts
     \<Longrightarrow> st_cdec st = [] \<Longrightarrow> st_settled st = None
     \<Longrightarrow> st_settled (frames_loop E (map text_frame ts @ [trailer_frame]) st)
         = Some (Inr \<lparr>re_content = st_content st @ concat ts, re_reasoning = st_reasoning st,
                       re_usage = st_usage st\<rparr>)"
proof (induction ts arbitrary: st)
  case Nil
  have "trim ''{}'' = ''{}''" by code_simp
  with Nil show ?case
    by (simp add: trailer_frame_def end_frame_def trailer_error_def assms settle_def)
next
  case (Cons t ts)
  let ?st = "message_frame E (text_frame t) st"
  have "?st = (if t \<noteq> [] then st\<lparr>st_cdec := [], st_content := st_content st @ t, st_calls := st_calls st @ [OnText t]\<rparr>
      else st\<lparr>st_cdec := []\<rparr>)"
    using Cons.prems by (simp add: message_frame_def text_frame_def decodeFrame_text on_content_def
        on_reasoning_def decodes_whole_def)
  then show ?case using Cons.IH [of ?st] Cons.prems by (simp add: text_frame_def split: if_splits)
qed

lemma reply_roundtrip:
  assumes "utf8_dec (nd E) (utf8 ''{}'') = ''{}''" and "list_all (decodes_whole E) ts"
    and "list_all (\<lambda>t. length (text_message t) \<le> MAX_FRAME_SIZE) ts" and "concat cs = reply_bytes ts"
  shows "st_settled (run_stream E init_stream (Response 200 # map Data cs))
     = Some (Inr \<lparr>re_content = concat ts, re_reasoning = '''', re_usage = None\<rparr>)"
  using stream_outcome_chunks [of E cs] decode_reply_bytes [OF assms(3), of "gunzip E"] assms
    frames_loop_reply [OF assms(1,3,2), of init_stream]
  by (simp add: init_stream_def)

text \<open>
  C10: a reply survives the whole way back: the upstream encodes the texts as protobuf
  messages, wraps each in an envelope and ends with a trailer; however the network cuts the
  bytes, the adapter resolves with the concatenation of the texts. The hypotheses are those
  on the Node.js decoders: each text, sent whole, is decoded whole.
\<close>

theorem streamed_reply_roundtrip:
  assumes "utf8_dec (nd E) (utf8 ''{}'') = ''{}''" and "list_all (decodes_whole E) ts"
    and "list_all (\<lambda>t. length (text_message t) \<le> MAX_FRAME_SIZE) ts" and "concat cs = reply_bytes ts"
  shows "st_settled (run_stream E init_stream (Response 200 # map Data cs))
     = Some (Inr \<lparr>re_content = concat ts, re_reasoning = '''', re_usage = None\<rparr>)"
  by (rule reply_roundtrip [OF assms])

definition witness_env :: env where
  "witness_env = \<lparr>nd = witness_node, gunzip = Inr, json_parse = (\<lambda>_. None), num_str = (\<lambda>_. ''0''),
     decoder_write = (\<lambda>c b. (map (\<lambda>x. char_of (unat x)) b, []))\<rparr>"

lemma text_message_small:
  assumes "length t \<le> 100"
  shows "length (text_message t) \<le> MAX_FRAME_SIZE"
proof -
  have "length (text_message t) \<le> 220"
    using length_writeStringField [of 3 t] assms unfolding text_message_def by linarith
  then show ?thesis by (rule order_trans) (simp add: MAX_FRAME_SIZE_def)
qed

lemma witness_reply:
  "utf8_dec (nd witness_env) (utf8 ''{}'') = ''{}''"
  "list_all (decodes_whole witness_env) [''Hel'', ''lo'']"
  "list_all (\<lambda>t. length (text_message t) \<le> MAX_FRAME_SIZE) [''Hel'', ''lo'']"
  by (code_simp, code_simp, simp add: text_message_small)

theorem streamed_reply_roundtrip_witness:
  "st_settled (run_stream witness_env init_stream
      (Response 200 # map Data [take 3 (reply_bytes [''Hel'', ''lo'']), drop 3 (reply_bytes [''Hel'', ''lo''])]))
     = Some (Inr \<lparr>re_content = ''Hello'', re_reasoning = '''', re_usage = None\<rparr>)"
  using streamed_reply_roundtrip [OF witness_reply,
      of "[take 3 (reply_bytes [''Hel'', ''lo'']), drop 3 (reply_bytes [''Hel'', ''lo''])]"]
  by simp


theorem stream_outcome_chunk_invariant_witness:
  "st_settled (run_stream witness_env init_stream (Response 200 # map Data [[0, 0], [0, 0], [1]]))
     = st_settled (frames_loop witness_env [] init_stream)"
proof (rule stream_outcome_chunk_invariant)
  show "decodeFrames (gunzip witness_env) (concat [[0, 0], [0, 0], [1]]) = Inr ([], [0, 0, 0, 0, 1])"
    by (simp add: of_be32_def MAX_FRAME_SIZE_def Let_def)
qed

end
