(* ===== verification/Windsurf_Login.thy ===== *)
theory Windsurf_Login
  imports Login_Base Windsurf_Runtime
begin

text \<open>
  \<^verbatim>\<open>src/tools/windsurf2api/src/login.mjs\<close>: the sign-in sessions of the Windsurf adapter.
  Sessions are objects on a heap, since the maps \<^verbatim>\<open>sessions\<close> and \<^verbatim>\<open>activeByOwner\<close> share
  them, the code compares them by identity, and \<open>complete\<close> writes to one across an await.
  The clock, the random ids, the URL parser and the JWT payload decoder are parameters.
\<close>

section \<open>Sessions\<close>

record account =
  uid :: string
  nickname :: string
  acc_plan :: "string option"

record session =
  ss_id :: string
  ss_owner :: string
  ss_status :: login_status
  ss_state :: string
  ss_expiresAt :: int
  ss_authUrl :: string
  ss_apiKey :: "string option"
  ss_account :: "account option"

record logins =
  sessions :: "(string \<times> nat) list"
  activeByOwner :: "(string \<times> nat) list"
  heap :: "session list"

definition init_logins :: logins where
  "init_logins = \<lparr>sessions = [], activeByOwner = [], heap = []\<rparr>"

definition MAX_SESSIONS :: nat where "MAX_SESSIONS = 50"
definition SESSION_TTL_MS :: int where "SESSION_TTL_MS = 30 * 60 * 1000"
definition SIGNIN_URL :: string where "SIGNIN_URL = ''https://windsurf.com/windsurf/signin''"

text \<open>The query of \<open>buildAuthURL\<close>; the state is 48 hexadecimal digits, which need no escape.\<close>

definition buildAuthURL :: "string \<Rightarrow> string" where
  "buildAuthURL state = SIGNIN_URL @ ''?response_type=token'' @
     ''&client_id=3GUryQ7ldAeKEuD2obYnppsnmj58eP5u'' @ ''&redirect_uri=show-auth-token'' @
     ''&state='' @ state @ ''&prompt=login'' @ ''&redirect_parameters_type=query'' @ ''&workflow=''"

text \<open>\<^verbatim>\<open>if (this.activeByOwner.get(owner) === session) this.activeByOwner.delete(owner)\<close>\<close>

definition drop_active :: "string \<Rightarrow> nat \<Rightarrow> logins \<Rightarrow> logins" where
  "drop_active ow r l =
     (if map_of (activeByOwner l) ow = Some r then l\<lparr>activeByOwner := AList.delete ow (activeByOwner l)\<rparr> else l)"

definition drop_session :: "string \<times> nat \<Rightarrow> logins \<Rightarrow> logins" where
  "drop_session e l = (case e of (i, r) \<Rightarrow>
     drop_active (ss_owner (heap l ! r)) r (l\<lparr>sessions := AList.delete i (sessions l)\<rparr>))"

text \<open>The loop over the expired sessions at the head of \<open>start\<close>.\<close>

definition sweep :: "int \<Rightarrow> logins \<Rightarrow> logins" where
  "sweep now l = foldl (\<lambda>acc e. if ss_expiresAt (heap acc ! snd e) \<le> now then drop_session e acc else acc)
     l (sessions l)"

definition replace_active :: "string \<Rightarrow> logins \<Rightarrow> logins" where
  "replace_active ow l = (case map_of (activeByOwner l) ow of
     None \<Rightarrow> l
   | Some r \<Rightarrow> if map_of (sessions l) (ss_id (heap l ! r)) = Some r
               then l\<lparr>sessions := AList.delete (ss_id (heap l ! r)) (sessions l)\<rparr> else l)"

text \<open>\<open>start\<close>; \<open>st\<close> and \<open>i\<close> are the random state and id.\<close>

definition start :: "int \<Rightarrow> string \<Rightarrow> string \<Rightarrow> string \<Rightarrow> int \<Rightarrow> logins \<Rightarrow> (thrown + nat) \<times> logins" where
  "start ttl st i ow now l =
     (let l1 = replace_active ow (sweep now l)
      in if MAX_SESSIONS \<le> length (sessions l1)
         then (Inl (Adapter 429 ''login_limit'' ''Too many Windsurf login attempts. Try again later.''), l1)
         else
           (let r = length (heap l1);
                s = \<lparr>ss_id = i, ss_owner = ow, ss_status = Pending, ss_state = st, ss_expiresAt = now + ttl,
                     ss_authUrl = buildAuthURL st, ss_apiKey = None, ss_account = None\<rparr>
            in (Inr r, l1\<lparr>sessions := AList.update i r (sessions l1),
                          activeByOwner := AList.update ow r (activeByOwner l1),
                          heap := heap l1 @ [s]\<rparr>)))"

definition login_not_found :: thrown where
  "login_not_found = Adapter 404 ''login_not_found'' ''Login session not found.''"

definition login_expired :: thrown where
  "login_expired = Adapter 410 ''login_expired'' ''Windsurf login expired; start a new login.''"

definition get :: "string \<Rightarrow> string \<Rightarrow> int \<Rightarrow> logins \<Rightarrow> (thrown + nat) \<times> logins" where
  "get ow i now l = (case map_of (sessions l) i of
     None \<Rightarrow> (Inl login_not_found, l)
   | Some r \<Rightarrow>
       if ss_owner (heap l ! r) \<noteq> ow then (Inl login_not_found, l)
       else if ss_expiresAt (heap l ! r) \<le> now \<or> ss_status (heap l ! r) = Expired
         then (Inl login_expired, drop_session (i, r) l)
       else (Inr r, l))"

section \<open>Tokens\<close>

text \<open>A parsed URL: the query parameters in order, and the fragment with its hash sign.\<close>

record url =
  url_params :: "(string \<times> string) list"
  url_hash :: string

definition starts_http :: "string \<Rightarrow> bool" where
  "starts_http s = (starts_with (lower s) ''http://'' \<or> starts_with (lower s) ''https://'')"

definition pick :: "(string \<times> string) list \<Rightarrow> string" where
  "pick ps = (let v = (\<lambda>k. case map_of ps k of None \<Rightarrow> '''' | Some s \<Rightarrow> s)
     in if v ''token'' \<noteq> '''' then v ''token''
        else if v ''api_key'' \<noteq> '''' then v ''api_key''
        else if v ''access_token'' \<noteq> '''' then v ''access_token''
        else v ''auth_token'')"

definition extractToken :: "(string \<Rightarrow> url option) \<Rightarrow> (string \<Rightarrow> (string \<times> string) list) \<Rightarrow> string \<Rightarrow> string" where
  "extractToken parse_url parse_params input =
     (let raw = trim input
      in if raw = [] \<or> 8192 < length raw then ''''
         else if list_ex is_ws raw then ''''
         else if \<not> starts_http raw then (if CHR ''@'' \<in> set raw then '''' else raw)
         else (case parse_url raw of
                 None \<Rightarrow> ''''
               | Some u \<Rightarrow>
                   (let q = pick (url_params u)
                    in if q \<noteq> '''' then trim q
                       else if url_hash u \<noteq> '''' then
                         trim (pick (parse_params (if starts_with (url_hash u) ''#'' then tl (url_hash u) else url_hash u)))
                       else '''')))"

text \<open>\<open>payload\<close> decodes the middle part of a JWT, \<open>None\<close> when it is not JSON.\<close>

definition emailFromToken :: "(string \<Rightarrow> json option) \<Rightarrow> string \<Rightarrow> string" where
  "emailFromToken payload token =
     (let jwt = (if starts_with token ''devin-session-token$'' then drop (length ''devin-session-token$'') token else token);
          parts = split_on CHR ''.'' jwt
      in if length parts < 2 then ''''
         else (case payload (parts ! 1) of
                 None \<Rightarrow> ''''
               | Some p \<Rightarrow>
                   (case find (\<lambda>k. case str_of (getp p k) of None \<Rightarrow> False | Some s \<Rightarrow> CHR ''@'' \<in> set s)
                           [''email'', ''preferred_username'', ''name'', ''sub''] of
                      None \<Rightarrow> '''' | Some k \<Rightarrow> the (str_of (getp p k)))))"

section \<open>Completion\<close>

text \<open>
  \<open>resolveCredential\<close>: \<open>status\<close> and \<open>register\<close> are the settled values of the runtime's
  calls; a runtime may lack \<open>registerToken\<close>.
\<close>

definition resolveCredential :: "(string \<Rightarrow> thrown + user_status) \<Rightarrow> (string \<Rightarrow> thrown + registered option) option
    \<Rightarrow> string \<Rightarrow> thrown + (string \<times> user_status)" where
  "resolveCredential status register token = (case status token of
     Inr s \<Rightarrow> Inr (token, s)
   | Inl directError \<Rightarrow>
       (let registered = (case register of
              None \<Rightarrow> None
            | Some reg \<Rightarrow> (case reg token of Inl _ \<Rightarrow> None | Inr r \<Rightarrow> r))
        in case registered of
             Some r \<Rightarrow>
               if reg_apiKey r \<noteq> [] then bind_js (status (reg_apiKey r)) (\<lambda>s. Inr (reg_apiKey r, s))
               else Inl (case directError of Adapter _ _ _ \<Rightarrow> directError
                     | Foreign _ \<Rightarrow> Adapter 502 ''windsurf_login_failed''
                         ''Windsurf sign-in did not complete; restart the sign-in.'')
           | None \<Rightarrow> Inl (case directError of Adapter _ _ _ \<Rightarrow> directError
                     | Foreign _ \<Rightarrow> Adapter 502 ''windsurf_login_failed''
                         ''Windsurf sign-in did not complete; restart the sign-in.'')))"

text \<open>
  \<open>complete\<close> up to its await: either the answer is known, or a token of session \<open>r\<close> is to be
  resolved.
\<close>

datatype completing = Answer nat | Resolve nat string

definition complete_begin :: "(string \<Rightarrow> string) \<Rightarrow> bool \<Rightarrow> string \<Rightarrow> string \<Rightarrow> string \<Rightarrow> int \<Rightarrow> logins
    \<Rightarrow> (thrown + completing) \<times> logins" where
  "complete_begin extract has_status ow i callbackUrl now l = (case get ow i now l of
     (Inl e, l') \<Rightarrow> (Inl e, l')
   | (Inr r, l') \<Rightarrow>
       if ss_status (heap l' ! r) = Completed then (Inr (Answer r), l')
       else (let token = extract callbackUrl
             in if token = [] then (Inl (Adapter 400 ''windsurf_invalid_callback''
                    ''Paste the token shown on the Provide Authentication Token page, or the full redirect URL.''), l')
                else if \<not> has_status then (Inl (Adapter 503 ''windsurf_login_unavailable''
                    ''Windsurf sign-in is unavailable in this adapter build.''), l')
                else (Inr (Resolve r token), l')))"

text \<open>The rest of \<open>complete\<close>, when the credential has arrived; it writes to the session object.\<close>

definition complete_finish :: "(string \<Rightarrow> json option) \<Rightarrow> string \<Rightarrow> nat \<Rightarrow> string \<times> user_status \<Rightarrow> logins \<Rightarrow> logins" where
  "complete_finish payload ow r cred l = (case cred of (apiKey, status) \<Rightarrow>
     (let mail = (if email status \<noteq> '''' then email status else emailFromToken payload apiKey);
          name = (if mail \<noteq> '''' then mail else ''windsurf'');
          s = (heap l ! r)\<lparr>ss_status := Completed, ss_apiKey := Some apiKey,
                 ss_account := Some \<lparr>uid = name, nickname = name,
                    acc_plan = (if plan status \<noteq> '''' then Some (plan status) else None)\<rparr>\<rparr>
      in drop_active ow r (l\<lparr>heap := (heap l)[r := s]\<rparr>)))"

definition cancel :: "string \<Rightarrow> string \<Rightarrow> int \<Rightarrow> logins \<Rightarrow> (thrown + unit) \<times> logins" where
  "cancel ow i now l = (case get ow i now l of
     (Inl e, l') \<Rightarrow> (Inl e, l')
   | (Inr r, l') \<Rightarrow> (Inr (), drop_active ow r (l'\<lparr>sessions := AList.delete i (sessions l')\<rparr>)))"

record login_result =
  session_id :: string
  lr_mode :: string
  lr_status :: string
  expires_at :: int
  auth_url :: "string option"
  lr_account :: "account option"
  api_key :: "string option"

definition result :: "session \<Rightarrow> login_result" where
  "result s = \<lparr>session_id = ss_id s, lr_mode = ''callback'', lr_status = status_text (ss_status s),
     expires_at = ss_expiresAt s,
     auth_url = (if ss_authUrl s \<noteq> '''' then Some (ss_authUrl s) else None),
     lr_account = ss_account s,
     api_key = (if ss_status s = Completed \<and> ss_apiKey s \<noteq> None \<and> ss_apiKey s \<noteq> Some '''' then ss_apiKey s else None)\<rparr>"

definition close :: "logins \<Rightarrow> logins" where
  "close l = l\<lparr>activeByOwner := [], sessions := []\<rparr>"

section \<open>Isolation\<close>

interpretation windsurf_login: owned_sessions sessions "\<lambda>l r. ss_owner (heap l ! r)"
  "\<lambda>l r. ss_expiresAt (heap l ! r)" get login_not_found
  by unfold_locales
    (auto simp: get_def login_not_found_def login_expired_def drop_session_def drop_active_def)

section \<open>Reachable states\<close>

inductive login_step :: "logins \<Rightarrow> logins \<Rightarrow> bool" where
  ls_start: "login_step l (snd (start ttl st i ow now l))"
| ls_begin: "login_step l (snd (complete_begin extract has_status ow i cb now l))"
| ls_finish: "r < length (heap l) \<Longrightarrow> ss_owner (heap l ! r) = ow
    \<Longrightarrow> login_step l (complete_finish payload ow r cred l)"
| ls_cancel: "login_step l (snd (cancel ow i now l))"
| ls_close: "login_step l (close l)"

inductive login_reachable :: "logins \<Rightarrow> bool" where
  lr_init: "login_reachable init_logins"
| lr_step: "login_reachable l \<Longrightarrow> login_step l l' \<Longrightarrow> login_reachable l'"

definition filed :: "logins \<Rightarrow> string \<times> nat \<Rightarrow> bool" where
  "filed l e = (case e of (i, r) \<Rightarrow> r < length (heap l) \<and> ss_id (heap l ! r) = i
     \<and> (ss_status (heap l ! r) = Pending \<longrightarrow> map_of (activeByOwner l) (ss_owner (heap l ! r)) = Some r))"

definition logins_inv :: "logins \<Rightarrow> bool" where
  "logins_inv l \<longleftrightarrow> distinct (map fst (sessions l)) \<and> length (sessions l) \<le> MAX_SESSIONS
     \<and> (\<forall>e \<in> set (sessions l). filed l e)
     \<and> (\<forall>(ow, r) \<in> set (activeByOwner l). r < length (heap l) \<and> ss_owner (heap l ! r) = ow)"

lemma logins_inv_drop_session:
  assumes "logins_inv l" "ss_id (heap l ! r) = i"
  shows "logins_inv (drop_session (i, r) l)"
proof -
  let ?l = "drop_session (i, r) l"
  have s: "sessions ?l = AList.delete i (sessions l)" "heap ?l = heap l"
    "set (activeByOwner ?l) \<subseteq> set (activeByOwner l)"
    by (simp_all add: drop_session_def drop_active_def set_delete_subset)
  have "filed ?l (j, q)" if "(j, q) \<in> set (sessions ?l)" for j q
  proof -
    have j: "(j, q) \<in> set (sessions l)" "j \<noteq> i"
      using that by (auto simp: s AList.delete_eq)
    then have "filed l (j, q)" using assms(1) by (simp add: logins_inv_def)
    moreover have "q \<noteq> r" using calculation j(2) assms(2) by (auto simp: filed_def)
    ultimately show ?thesis by (auto simp: filed_def drop_session_def drop_active_def)
  qed
  then show ?thesis
    using assms(1) s by (auto simp: logins_inv_def distinct_keys_delete intro: order_trans [OF length_delete_le])
qed

lemma logins_inv_sweep:
  assumes "logins_inv l"
  shows "logins_inv (sweep now l)"
proof -
  have "logins_inv (foldl (\<lambda>acc e. if ss_expiresAt (heap acc ! snd e) \<le> now then drop_session e acc else acc) acc es)"
    if "logins_inv acc" "\<forall>(i, r) \<in> set es. ss_id (heap acc ! r) = i" for acc es
    using that
  proof (induction es arbitrary: acc)
    case (Cons e es)
    have h: "heap (drop_session e acc) = heap acc" by (auto simp: drop_session_def drop_active_def split: prod.splits)
    show ?case
      using Cons.IH [of "drop_session e acc"] Cons.IH [of acc] Cons.prems logins_inv_drop_session [of acc "snd e" "fst e"] h
      by auto
  qed simp
  moreover have "\<forall>(i, r) \<in> set (sessions l). ss_id (heap l ! r) = i"
    using assms by (auto simp: logins_inv_def filed_def)
  ultimately show ?thesis unfolding sweep_def using assms by blast
qed

lemma logins_inv_delete:
  "logins_inv l \<Longrightarrow> logins_inv (l\<lparr>sessions := AList.delete i (sessions l)\<rparr>)"
  using set_delete_subset [of i "sessions l"]
  by (auto simp: logins_inv_def filed_def distinct_keys_delete intro: order_trans [OF length_delete_le])

lemma logins_inv_replace_active: "logins_inv l \<Longrightarrow> logins_inv (replace_active ow l)"
  by (auto simp: replace_active_def logins_inv_delete split: option.splits)

lemma replace_active_clears:
  assumes "logins_inv l" "(j, q) \<in> set (sessions (replace_active ow l))"
  shows "map_of (activeByOwner (replace_active ow l)) ow \<noteq> Some q"
proof
  assume a: "map_of (activeByOwner (replace_active ow l)) ow = Some q"
  then have act: "map_of (activeByOwner l) ow = Some q"
    by (auto simp: replace_active_def split: option.splits if_splits)
  have "(j, q) \<in> set (sessions l)"
    using assms(2) act set_delete_subset by (auto simp: replace_active_def AList.delete_eq split: if_splits)
  then have "ss_id (heap l ! q) = j" "map_of (sessions l) j = Some q"
    using assms(1) by (auto simp: logins_inv_def filed_def)
  then show False using assms(2) act by (auto simp: replace_active_def AList.delete_eq)
qed

lemma logins_inv_start:
  assumes "logins_inv l"
  shows "logins_inv (snd (start ttl st i ow now l))"
proof -
  let ?l1 = "replace_active ow (sweep now l)"
  have inv: "logins_inv ?l1" using assms logins_inv_sweep logins_inv_replace_active by blast
  have clear: "map_of (activeByOwner ?l1) ow \<noteq> Some q" if "(j, q) \<in> set (sessions ?l1)" for j q
    using replace_active_clears [OF logins_inv_sweep [OF assms] that] .
  show ?thesis
  proof (cases "MAX_SESSIONS \<le> length (sessions ?l1)")
    case True
    with inv show ?thesis by (simp add: start_def Let_def)
  next
    case False
    let ?l2 = "snd (start ttl st i ow now l)"
    let ?r = "length (heap ?l1)"
    obtain s where s: "?l2 = ?l1\<lparr>sessions := AList.update i ?r (sessions ?l1),
        activeByOwner := AList.update ow ?r (activeByOwner ?l1), heap := heap ?l1 @ [s]\<rparr>"
      and own: "ss_id s = i" "ss_owner s = ow"
      using False by (simp add: start_def Let_def)
    have "filed ?l2 e" if e: "e \<in> set (sessions ?l2)" for e
    proof -
      from e have "e = (i, ?r) \<or> e \<in> set (sessions ?l1)"
        using set_update_cases [of e i ?r "sessions ?l1"] by (simp add: s)
      then show ?thesis
      proof
        assume "e = (i, ?r)"
        then show ?thesis by (simp add: filed_def s own)
      next
        assume old: "e \<in> set (sessions ?l1)"
        then have "filed ?l1 e" using inv by (simp add: logins_inv_def)
        moreover obtain j q where e: "e = (j, q)" by (cases e)
        moreover have "map_of (activeByOwner ?l1) ow \<noteq> Some q" using clear old e by blast
        ultimately show ?thesis by (auto simp: filed_def s nth_append)
      qed
    qed
    moreover have "length (sessions ?l2) \<le> MAX_SESSIONS"
      using False by (simp add: s length_update)
    moreover have "p < length (heap ?l2) \<and> ss_owner (heap ?l2 ! p) = o'"
      if "(o', p) \<in> set (activeByOwner ?l2)" for o' p
    proof -
      have "(o', p) = (ow, ?r) \<or> (o', p) \<in> set (activeByOwner ?l1)"
        using that set_update_cases [of "(o', p)" ow ?r "activeByOwner ?l1"] by (simp add: s)
      then show ?thesis using inv by (auto simp: s own logins_inv_def nth_append)
    qed
    moreover have "distinct (map fst (sessions ?l2))"
      using inv by (simp add: s logins_inv_def distinct_keys_update)
    ultimately show ?thesis unfolding logins_inv_def by blast
  qed
qed

lemma get_state:
  "snd (get ow i now l) = l
     \<or> (\<exists>r. map_of (sessions l) i = Some r \<and> snd (get ow i now l) = drop_session (i, r) l)"
  by (auto simp: get_def split: option.splits)

lemma session_id_of:
  assumes "logins_inv l" "map_of (sessions l) i = Some r"
  shows "ss_id (heap l ! r) = i"
proof -
  have "filed l (i, r)" using assms map_of_SomeD [OF assms(2)] by (simp add: logins_inv_def)
  then show ?thesis by (simp add: filed_def)
qed

lemma logins_inv_get: "logins_inv l \<Longrightarrow> logins_inv (snd (get ow i now l))"
  using get_state [of ow i now l] logins_inv_drop_session session_id_of by metis

lemma logins_inv_begin: "logins_inv l \<Longrightarrow> logins_inv (snd (complete_begin extract has_status ow i cb now l))"
  using logins_inv_get [of l ow i now] by (auto simp: complete_begin_def Let_def split: prod.splits sum.splits)

lemma logins_inv_cancel:
  assumes "logins_inv l"
  shows "logins_inv (snd (cancel ow i now l))"
proof (cases "get ow i now l")
  case (Pair x l')
  show ?thesis
  proof (cases x)
    case (Inl e)
    then show ?thesis using Pair logins_inv_get [OF assms, of ow i now] by (simp add: cancel_def)
  next
    case (Inr r)
    from windsurf_login.get_owned [of ow i now l r l'] Pair Inr
    have r: "map_of (sessions l) i = Some r" "ss_owner (heap l ! r) = ow" "l' = l" by auto
    then have "ss_id (heap l ! r) = i" using session_id_of [OF assms] by blast
    from logins_inv_drop_session [OF assms this] r Pair Inr show ?thesis
      by (simp add: cancel_def drop_session_def)
  qed
qed

lemma logins_inv_finish:
  assumes "logins_inv l" "r < length (heap l)" "ss_owner (heap l ! r) = ow"
  shows "logins_inv (complete_finish payload ow r cred l)"
proof -
  obtain s where s: "complete_finish payload ow r cred l = drop_active ow r (l\<lparr>heap := (heap l)[r := s]\<rparr>)"
    "ss_status s = Completed" "ss_id s = ss_id (heap l ! r)" "ss_owner s = ow"
    using assms(3) by (cases cred) (simp add: complete_finish_def Let_def)
  have "filed (complete_finish payload ow r cred l) e" if "e \<in> set (sessions l)" for e
  proof -
    have "filed l e" using assms(1) that by (simp add: logins_inv_def)
    with s assms(2) show ?thesis
      by (cases e) (auto simp: filed_def drop_active_def nth_list_update)
  qed
  then show ?thesis
    using assms s by (auto simp: logins_inv_def drop_active_def nth_list_update AList.delete_eq)
qed

lemma logins_inv_step: "login_step l l' \<Longrightarrow> logins_inv l \<Longrightarrow> logins_inv l'"
  by (induction rule: login_step.induct)
    (simp_all add: logins_inv_start logins_inv_begin logins_inv_cancel logins_inv_finish,
      simp add: logins_inv_def close_def)

lemma logins_inv_reachable: "login_reachable l \<Longrightarrow> logins_inv l"
proof (induction rule: login_reachable.induct)
  case lr_init
  then show ?case by (simp add: logins_inv_def init_logins_def MAX_SESSIONS_def)
next
  case (lr_step l l')
  then show ?case using logins_inv_step by blast
qed

text \<open>
  In every reachable state of the Windsurf sign-in, whatever the interleaving of starts,
  completions that are still waiting for the upstream, cancellations and expiries, there are
  at most 50 sessions and no administrator has two pending ones, even if random ids collide.
\<close>

theorem one_pending_login_per_owner:
  assumes "login_reachable l"
    and "(i, r) \<in> set (sessions l)" "(j, q) \<in> set (sessions l)"
    and "ss_status (heap l ! r) = Pending" "ss_status (heap l ! q) = Pending"
    and "ss_owner (heap l ! r) = ss_owner (heap l ! q)"
  shows "length (sessions l) \<le> 50 \<and> i = j \<and> r = q"
proof -
  have inv: "logins_inv l" by (rule logins_inv_reachable [OF assms(1)])
  then have "filed l (i, r)" "filed l (j, q)" using assms(2,3) by (simp_all add: logins_inv_def)
  with assms(4-6) show ?thesis using inv by (auto simp: filed_def logins_inv_def MAX_SESSIONS_def)
qed

theorem one_pending_login_per_owner_witness:
  "let l = snd (start SESSION_TTL_MS ''s2'' ''b'' ''admin'' 10 (snd (start SESSION_TTL_MS ''s1'' ''a'' ''admin'' 5 init_logins)))
   in sessions l = [(''b'', 1)] \<and> length (sessions l) \<le> 50"
proof -
  let ?l = "snd (start SESSION_TTL_MS ''s2'' ''b'' ''admin'' 10 (snd (start SESSION_TTL_MS ''s1'' ''a'' ''admin'' 5 init_logins)))"
  have "login_reachable ?l" by (rule lr_step [OF lr_step [OF lr_init ls_start] ls_start])
  moreover have "sessions ?l = [(''b'', 1)]" "ss_status (heap ?l ! 1) = Pending" by code_simp+
  ultimately show ?thesis
    using one_pending_login_per_owner [of ?l "''b''" 1 "''b''" 1] unfolding Let_def by simp
qed

end
