(* ===== verification/Windsurf_Server.thy ===== *)
theory Windsurf_Server
  imports Http_Slots Windsurf_Login
begin

text \<open>
  \<^verbatim>\<open>src/tools/windsurf2api/src/server.mjs\<close>: the routing and admission of a request, the
  validation of a chat body, the set of active controllers, the error response and the order
  in which stream callbacks reach the client. The head of the handler (up to its first
  await) is the function \<open>route\<close>; what follows an await is a step of a relation.
\<close>

section \<open>Admission\<close>

record wconfig =
  wc_adapterKey :: string
  wc_maxConcurrent :: nat
  wc_maxBodyBytes :: nat

definition invalid_adapter_key :: thrown where
  "invalid_adapter_key = Adapter 401 ''invalid_adapter_key'' ''Missing or invalid adapter key.''"

definition adapter_shutdown :: thrown where
  "adapter_shutdown = Adapter 503 ''adapter_shutdown'' ''Windsurf adapter is shutting down.''"

text \<open>The branch for paths under \<^verbatim>\<open>/internal/login/sessions\<close>.\<close>

definition route_login :: "http_request \<Rightarrow> decision" where
  "route_login q =
     (if bad_owner 256 q then Refuse (Adapter 400 ''login_owner_required'' ''Login owner is required.'')
      else let ow = hdr_text q ''x-login-owner'' in
        if h_method q = ''POST'' \<and> h_path q = LOGIN_PATH then LoginStart ow
        else (case session_route ''/callback'' (h_path q) of
                Some (i, callback) \<Rightarrow>
                  if h_method q = ''POST'' \<and> callback then LoginPost ow i
                  else if h_method q = ''DELETE'' \<and> \<not> callback then LoginDelete ow i
                  else Refuse (Adapter 404 ''not_found'' ''Unknown login endpoint.'')
              | None \<Rightarrow> Refuse (Adapter 404 ''not_found'' ''Unknown login endpoint.'')))"

definition route :: "(bytes \<Rightarrow> 'd) \<Rightarrow> wconfig \<Rightarrow> bool \<Rightarrow> nat \<Rightarrow> http_request \<Rightarrow> decision" where
  "route sha cfg stopping active q =
     (if h_method q = ''GET'' \<and> h_path q = ''/livez'' then
        Reply (if stopping then 503 else 200) (JObj [(''status'', JStr (if stopping then ''stopping'' else ''ok''))])
      else if \<not> same_secret sha (presented_key q) (wc_adapterKey cfg) then Refuse invalid_adapter_key
      else if stopping then Refuse adapter_shutdown
      else if h_method q = ''GET'' \<and> h_path q = ''/healthz'' then
        Reply 200 (JObj [(''status'', JStr ''ok''), (''runtime'', JStr ''windsurf-connect''),
                         (''upstream_verified'', JBool False)])
      else if starts_with (h_path q) LOGIN_PATH then route_login q
      else if \<not> (h_method q = ''GET'' \<and> h_path q = ''/v1/models''
                 \<or> h_method q = ''POST'' \<and> h_path q = ''/v1/chat/completions'') then
        Refuse (Adapter 404 ''not_found'' ''Endpoint not found.'')
      else if bearer_key q = [] \<or> 8192 < length (bearer_key q) then Refuse missing_key
      else if wc_maxConcurrent cfg \<le> active then
        Refuse (Adapter 503 ''windsurf_adapter_busy'' ''Windsurf adapter concurrency limit reached.'')
      else if h_method q = ''GET'' then ListModels (bearer_key q)
      else ChatCompletion (bearer_key q))"

text \<open>The checks on an admitted chat request and its body, up to \<open>runtime.generate\<close>.\<close>

definition chat_request :: "(bytes \<Rightarrow> string) \<Rightarrow> (string \<Rightarrow> json option) \<Rightarrow> wconfig \<Rightarrow> http_request
    \<Rightarrow> thrown + windsurf_request" where
  "chat_request decode parse cfg q =
     bind_js (guard_js (\<not> is_json_type (hdr_text q ''content-type''))
       (Adapter 415 ''invalid_content_type'' ''Content-Type must be application/json.'')) (\<lambda>_.
     bind_js (guard_js (hdr_text q ''content-encoding'' \<noteq> '''' \<and> hdr_text q ''content-encoding'' \<noteq> ''identity'')
       (Adapter 415 ''unsupported_encoding'' ''Compressed request bodies are not supported.'')) (\<lambda>_.
     bind_js (guard_js (declared_too_large (wc_maxBodyBytes cfg) q)
       (Adapter 413 ''request_too_large'' ''Request body exceeds the Windsurf adapter limit.'')) (\<lambda>_.
     bind_js (read_json decode parse
        (Adapter 413 ''request_too_large'' ''Request body exceeds the Windsurf adapter limit.'')
        (Adapter 400 ''invalid_json'' ''Request body must be valid JSON.'')
        (wc_maxBodyBytes cfg) (h_chunks q)) normalizeRequest)))"

text \<open>The answer of the models endpoint.\<close>

definition model_entry :: "catalog_model \<Rightarrow> json" where
  "model_entry m = JObj [(''id'', JStr (selector m)), (''object'', JStr ''model''), (''created'', JNum 0),
     (''owned_by'', JStr ''windsurf''),
     (''display_name'', JStr (if label m \<noteq> '''' then label m else selector m)),
     (''input_modalities'', JArr [JStr ''text''])]"

definition models_body :: "catalog_model list \<Rightarrow> json" where
  "models_body ms = JObj [(''object'', JStr ''list''), (''data'', JArr (map model_entry ms))]"

text \<open>
  The catch clause before any byte was sent: the abort reason wins over the error; the
  status, the payload and the extra headers.
\<close>

definition error_payload :: "thrown \<Rightarrow> json" where
  "error_payload e = (case e of
     Adapter s c m \<Rightarrow> JObj [(''error'', JObj [(''type'', JStr (error_type s)), (''code'', JStr c),
        (''message'', JStr m), (''status'', JNum (of_int s))])]
   | Foreign _ \<Rightarrow> JNull)"

definition error_response :: "thrown option \<Rightarrow> thrown \<Rightarrow> int \<times> json \<times> (string \<times> string) list" where
  "error_response aborted e =
     (let detail = publicError (case aborted of Some r \<Rightarrow> r | None \<Rightarrow> e);
          s = (case status_of detail of Some s \<Rightarrow> s | None \<Rightarrow> 502)
      in (s, error_payload detail,
          (if aborted \<noteq> None then [(''Connection'', ''close'')] else [])
            @ (if s = 429 \<or> s = 503 then [(''Retry-After'', ''30'')] else [])))"

text \<open>The success body of a request that does not stream, and its usage header.\<close>

definition reply_message :: "reply \<Rightarrow> json" where
  "reply_message r = JObj ([(''role'', JStr ''assistant''), (''content'', JStr (re_content r))]
     @ (if re_reasoning r \<noteq> '''' then [(''reasoning_content'', JStr (re_reasoning r))] else []))"

definition usage_json :: "token_usage \<Rightarrow> json" where
  "usage_json u = JObj ([(''prompt_tokens'', JNum (prompt_tokens u)),
      (''completion_tokens'', JNum (completion_tokens u)), (''total_tokens'', JNum (total_tokens u))]
     @ (case cached_tokens u of None \<Rightarrow> [] | Some n \<Rightarrow> [(''prompt_tokens_details'', JObj [(''cached_tokens'', JNum n)])])
     @ (case cache_creation_input_tokens u of None \<Rightarrow> [] | Some n \<Rightarrow> [(''cache_creation_input_tokens'', JNum n)]))"

definition completion_body :: "string \<Rightarrow> rat \<Rightarrow> string \<Rightarrow> reply \<Rightarrow> json" where
  "completion_body i created model r = JObj ([(''id'', JStr i), (''object'', JStr ''chat.completion''),
      (''created'', JNum created), (''model'', JStr model),
      (''choices'', JArr [JObj [(''index'', JNum 0), (''message'', reply_message r), (''finish_reason'', JStr ''stop'')]])]
     @ (case re_usage r of None \<Rightarrow> [] | Some u \<Rightarrow> [(''usage'', usage_json u)]))"

text \<open>
  Nothing but the liveness probe is served without the adapter key: whatever the path,
  method and state, any other decision than the probe's answer and the 401 refusal implies
  that the presented key is the configured one, if the hash has no collision with it.
\<close>

theorem only_the_key_holder_is_served:
  assumes "route sha cfg stopping active q = d"
    and "d \<noteq> Refuse invalid_adapter_key"
    and "\<not> (h_method q = ''GET'' \<and> h_path q = ''/livez'')"
    and "\<And>x. sha x = sha (utf8 (wc_adapterKey cfg)) \<Longrightarrow> x = utf8 (wc_adapterKey cfg)"
  shows "presented_key q = wc_adapterKey cfg \<and> wc_adapterKey cfg \<noteq> []"
proof -
  have "same_secret sha (presented_key q) (wc_adapterKey cfg)"
    using assms(1-3) unfolding route_def by presburger
  then show ?thesis by (metis assms(4) same_secret_def same_secret_inj)
qed

definition witness_cfg :: wconfig where
  "witness_cfg = \<lparr>wc_adapterKey = ''s3cret'', wc_maxConcurrent = 2, wc_maxBodyBytes = 1000\<rparr>"

definition witness_query :: http_request where
  "witness_query = \<lparr>h_method = ''GET'', h_path = ''/v1/models'',
     h_headers = [(''x-sub2api-adapter-key'', ''s3cret''), (''authorization'', ''Bearer tok'')], h_chunks = []\<rparr>"

theorem only_the_key_holder_is_served_witness:
  "route id witness_cfg False 0 witness_query = ListModels ''tok''
     \<and> presented_key witness_query = wc_adapterKey witness_cfg"
proof -
  have r: "route id witness_cfg False 0 witness_query = ListModels ''tok''" by code_simp
  have "h_path witness_query \<noteq> ''/livez''" by code_simp
  with only_the_key_holder_is_served [OF r] r show ?thesis by simp
qed

section \<open>Active controllers\<close>

text \<open>The steps of the server: a request is admitted when the head of its handler says so.\<close>

definition wadmit :: "(bytes \<Rightarrow> 'd) \<Rightarrow> wconfig \<Rightarrow> pool \<Rightarrow> bool" where
  "wadmit sha cfg s \<longleftrightarrow> (\<exists>q. admits (route sha cfg (ws_stopping s) (length (ws_active s)) q))"

abbreviation srv_step :: "(bytes \<Rightarrow> 'd) \<Rightarrow> wconfig \<Rightarrow> pool \<Rightarrow> pool \<Rightarrow> bool" where
  "srv_step sha cfg \<equiv> pool_step (wadmit sha cfg) adapter_shutdown"

lemma route_admits_free: "admits (route sha cfg stopping active q) \<Longrightarrow> active < wc_maxConcurrent cfg"
  by (auto simp: route_def route_login_def Let_def split: if_splits option.splits prod.splits)

interpretation windsurf_slots: request_slots "wadmit sha cfg" adapter_shutdown "wc_maxConcurrent cfg" for sha cfg
  by unfold_locales (auto simp: wadmit_def dest: route_admits_free)

text \<open>
  C9: in every reachable state of the server the slots held are exactly those of handlers
  that have not finished or whose upstream operation still runs, and they are at most the
  configured number. So a client that disconnects, a timeout or a shutdown neither frees a
  slot while the upstream operation runs nor leaks one afterwards.
\<close>

theorem upstream_operations_bounded:
  assumes "(srv_step sha cfg)\<^sup>*\<^sup>* init_pool s"
  shows "set (ws_active s) = in_use s \<and> card (in_use s) \<le> wc_maxConcurrent cfg"
  using windsurf_slots.slots_exact [OF assms] windsurf_slots.running_bounded [OF assms] by blast

theorem upstream_operations_bounded_witness:
  "let s = srv_abort 0 timeout_error (srv_operate 0 (srv_admit init_pool))
   in set (ws_active s) = {0} \<and> in_use s = {0} \<and> card (in_use s) \<le> 2"
proof -
  let ?s1 = "srv_admit init_pool" and ?s2 = "srv_operate 0 (srv_admit init_pool)"
  let ?s = "srv_abort 0 timeout_error ?s2"
  have "srv_step id witness_cfg init_pool ?s1"
    by (rule st_admit, unfold wadmit_def, rule exI [of _ witness_query]) code_simp
  moreover have "srv_step id witness_cfg ?s1 ?s2"
    by (rule st_operate) (simp_all add: srv_admit_def init_pool_def)
  moreover have "srv_step id witness_cfg ?s2 ?s" by (rule st_abort)
  ultimately have r: "(srv_step id witness_cfg)\<^sup>*\<^sup>* init_pool ?s"
    by (blast intro: rtranclp.intros)
  have "ws_active ?s = [0]" "wc_maxConcurrent witness_cfg = 2" by code_simp+
  with upstream_operations_bounded [OF r] show ?thesis unfolding Let_def by auto
qed

section \<open>The order of stream events\<close>

text \<open>
  The client's view of a stream: the opening chunk with the role, then one event per write.
  A callback is an async function: it runs \<open>beginStream\<close>, awaits it, writes its chunk. The
  runtime calls the callbacks of all frames of one data event without awaiting them; their
  continuations are microtasks, which run in order when the data event is done. A write
  that meets no back-pressure does not wait.
\<close>

datatype sse = RoleChunk | Chunk callback

datatype microtask = ResumeBegin callback | ResumeWrite callback

record writer =
  headersSent :: bool
  queue :: "microtask list"
  written :: "sse list"

definition fresh_writer :: writer where
  "fresh_writer = \<lparr>headersSent = False, queue = [], written = []\<rparr>"

text \<open>
  The synchronous part of a callback: the first one sends the headers and the role chunk and
  is suspended inside \<open>beginStream\<close>; a later one is suspended right after it.
\<close>

definition call_back :: "writer \<Rightarrow> callback \<Rightarrow> writer" where
  "call_back w cb =
     (if headersSent w then w\<lparr>queue := queue w @ [ResumeWrite cb]\<rparr>
      else w\<lparr>headersSent := True, written := written w @ [RoleChunk], queue := queue w @ [ResumeBegin cb]\<rparr>)"

text \<open>
  One microtask: when \<open>beginStream\<close> resumes it returns, and the callback waiting for it is
  queued; a callback past it writes its chunk.
\<close>

fun run_task :: "microtask \<Rightarrow> microtask list \<Rightarrow> sse list \<Rightarrow> microtask list \<times> sse list" where
  "run_task (ResumeBegin cb) q out = (q @ [ResumeWrite cb], out)"
| "run_task (ResumeWrite cb) q out = (q, out @ [Chunk cb])"

fun task_weight :: "microtask \<Rightarrow> nat" where
  "task_weight (ResumeBegin cb) = 2"
| "task_weight (ResumeWrite cb) = 1"

function drain :: "microtask list \<Rightarrow> sse list \<Rightarrow> sse list" where
  "drain [] out = out"
| "drain (t # q) out = (case run_task t q out of (q', out') \<Rightarrow> drain q' out')"
  by pat_completeness auto
termination
proof (relation "measure (\<lambda>(q, out). sum_list (map task_weight q))", simp)
  fix t :: microtask and q :: "microtask list" and out :: "sse list"
  fix q' out' assume "(q', out') = run_task t q out"
  then show "((q', out'), t # q, out) \<in> measure (\<lambda>(q, out). sum_list (map task_weight q))"
    by (cases t) auto
qed

text \<open>One data event with the callbacks of its frames, followed by the microtasks.\<close>

definition data_event :: "writer \<Rightarrow> callback list \<Rightarrow> writer" where
  "data_event w cbs =
     (let w' = foldl call_back w cbs
      in w'\<lparr>queue := [], written := drain (queue w') (written w')\<rparr>)"

lemma drain_writes: "drain (map ResumeWrite cbs) out = out @ map Chunk cbs"
  by (induction cbs arbitrary: out) auto

lemma drain_begin: "drain (ResumeBegin cb # map ResumeWrite cbs) out = out @ map Chunk cbs @ [Chunk cb]"
  using drain_writes [of "cbs @ [cb]" out] by simp

lemma call_back_sent:
  "headersSent w \<Longrightarrow> foldl call_back w cbs = w\<lparr>queue := queue w @ map ResumeWrite cbs\<rparr>"
  by (induction cbs arbitrary: w) (auto simp: call_back_def)

lemma data_event_sent:
  "headersSent w \<Longrightarrow> queue w = [] \<Longrightarrow> data_event w cbs = w\<lparr>written := written w @ map Chunk cbs\<rparr>"
  by (simp add: data_event_def call_back_sent drain_writes Let_def)

lemma data_event_fresh:
  "data_event fresh_writer (cb # cbs)
     = \<lparr>headersSent = True, queue = [], written = RoleChunk # map Chunk cbs @ [Chunk cb]\<rparr>"
  by (simp add: data_event_def Let_def call_back_def fresh_writer_def call_back_sent drain_begin del: drain.simps)

lemma data_events_sent:
  "headersSent w \<Longrightarrow> queue w = []
     \<Longrightarrow> foldl data_event w evs = w\<lparr>written := written w @ map Chunk (concat evs)\<rparr>"
  by (induction evs arbitrary: w) (simp_all add: data_event_sent)

text \<open>
  What a streaming client receives when the first data event of the upstream carries the
  callbacks \<open>cb # cbs\<close> and later ones carry \<open>evs\<close>: the role chunk first, nothing lost or
  repeated, and everything in order, except that the very first delta is written after the
  other deltas of its data event.
\<close>

theorem stream_order:
  "written (foldl data_event fresh_writer ((cb # cbs) # evs))
     = RoleChunk # map Chunk cbs @ [Chunk cb] @ map Chunk (concat evs)"
  by (simp add: data_event_fresh data_events_sent)

section \<open>Start-up\<close>

text \<open>\<^verbatim>\<open>index.mjs\<close>\<close>

record settings =
  se_port :: int
  se_host :: string
  se_adapterKey :: string
  se_timeoutMs :: int
  se_maxConcurrent :: int
  se_maxBodyBytes :: int

text \<open>The settings of the process, and \<open>createServer\<close>'s refusal of an empty key.\<close>

definition windsurf_settings :: "(string \<Rightarrow> rat option) \<Rightarrow> (string \<Rightarrow> string option) \<Rightarrow> thrown + settings" where
  "windsurf_settings to_number environ =
     bind_js (integer to_number environ ''WINDSURF_PORT'' 7869 1 65535) (\<lambda>port.
     bind_js (integer to_number environ ''WINDSURF_REQUEST_TIMEOUT_MS'' 600000 1000 900000) (\<lambda>timeoutMs.
     bind_js (integer to_number environ ''WINDSURF_MAX_CONCURRENT'' 4 1 32) (\<lambda>maxConcurrent.
     bind_js (integer to_number environ ''WINDSURF_MAX_BODY_BYTES'' 4194304 1024 33554432) (\<lambda>maxBodyBytes.
     bind_js (guard_js (trim (env_text environ ''WINDSURF_ADAPTER_KEY'') = [])
        (plain_error ''WINDSURF_ADAPTER_KEY is required.'')) (\<lambda>_.
       Inr \<lparr>se_port = port,
            se_host = (if env_text environ ''WINDSURF_HOST'' \<noteq> '''' then env_text environ ''WINDSURF_HOST'' else ''127.0.0.1''),
            se_adapterKey = trim (env_text environ ''WINDSURF_ADAPTER_KEY''), se_timeoutMs = timeoutMs,
            se_maxConcurrent = maxConcurrent, se_maxBodyBytes = maxBodyBytes\<rparr>)))))"

definition server_config :: "settings \<Rightarrow> wconfig" where
  "server_config se = \<lparr>wc_adapterKey = se_adapterKey se, wc_maxConcurrent = nat (se_maxConcurrent se),
     wc_maxBodyBytes = nat (se_maxBodyBytes se)\<rparr>"

lemma settings_bounds:
  assumes "windsurf_settings to_number environ = Inr se"
  shows "1 \<le> se_maxConcurrent se \<and> se_maxConcurrent se \<le> 32 \<and> se_adapterKey se \<noteq> []"
  using assms unfolding windsurf_settings_def bind_js_eq_Inr guard_js_eq_Inr
  by (auto dest!: integer_bounds)
end
