(* ===== verification/Cursor_Request.thy ===== *)
theory Cursor_Request
  imports Chat_Request
begin

text \<open>
  \<^verbatim>\<open>src/tools/cursor2api/src/request.mjs\<close>: validation of a chat request, the prompt handed
  to the SDK, the conversion of token usage and the classification of SDK errors. The theory
  interprets \<open>chat_normalizer\<close> and shows that the prompt determines the conversation.
\<close>

section \<open>Requests\<close>

definition acceptedFields :: "string list" where
  "acceptedFields = [''model'', ''messages'', ''stream'', ''stream_options'', ''n'', ''tools'', ''tool_choice'',
     ''parallel_tool_calls'', ''reasoning_effort'', ''user'', ''metadata'', ''session_id'',
     ''conversation_id'', ''prompt_cache_key'', ''store'']"

definition unsupportedFields :: "string list" where
  "unsupportedFields = [''functions'', ''function_call'', ''temperature'', ''top_p'', ''max_tokens'',
     ''max_completion_tokens'', ''stop'', ''seed'', ''logprobs'', ''top_logprobs'',
     ''logit_bias'', ''response_format'', ''modalities'', ''audio'', ''prediction'',
     ''presence_penalty'', ''frequency_penalty'', ''service_tier'', ''web_search_options'']"

record cursor_request =
  cr_model :: string
  cr_prompt :: string
  cr_stream :: bool
  cr_includeUsage :: bool
  cr_reasoningEffort :: "string option"

text \<open>A normalized message keeps its role, its text and a non-empty name.\<close>

definition message_json :: "string \<Rightarrow> string \<Rightarrow> json option \<Rightarrow> json" where
  "message_json r c name = JObj ([(''role'', JStr r), (''content'', JStr c)]
     @ (case str_of name of Some n \<Rightarrow> if n \<noteq> [] then [(''name'', JStr n)] else [] | None \<Rightarrow> []))"

definition odd_message_field :: "json \<Rightarrow> bool" where
  "odd_message_field m = (case m of
     JObj kvs \<Rightarrow> list_ex (\<lambda>(k, v). k \<notin> {''role'', ''content'', ''name''} \<and> v \<noteq> JNull) kvs | _ \<Rightarrow> False)"

definition odd_name :: "json option \<Rightarrow> bool" where
  "odd_name v = (\<not> nullish v \<and> str_of v = None)"

definition normalize_message :: "json \<Rightarrow> thrown + json" where
  "normalize_message message =
     bind_js (guard_js (bad_role message) (Adapter 400 ''unsupported_message''
        ''Only system, developer, user and assistant text messages are supported.'')) (\<lambda>_.
     bind_js (guard_js (odd_message_field message) (Adapter 400 ''unsupported_message''
        ''Tool calls and non-text message fields are not supported.'')) (\<lambda>_.
     bind_js (content_text not_strict_text_part
        (Adapter 400 ''unsupported_content'' ''Images, files and audio are not supported by this Cursor adapter.'')
        (Adapter 400 ''invalid_content'' ''Message content must be text.'')
        (getp message ''content'')) (\<lambda>content.
     bind_js (guard_js (odd_name (getp message ''name''))
        (Adapter 400 ''invalid_content'' ''Message content must be text.'')) (\<lambda>_.
       Inr (message_json (case str_of (getp message ''role'') of None \<Rightarrow> '''' | Some r \<Rightarrow> r)
              content (getp message ''name''))))))"

definition bad_model :: "json option \<Rightarrow> bool" where
  "bad_model v = (case str_of v of None \<Rightarrow> True | Some s \<Rightarrow> trim s = [] \<or> 512 < length s)"

definition bad_effort :: "json option \<Rightarrow> bool" where
  "bad_effort v = (\<not> nullish v \<and> (case str_of v of None \<Rightarrow> True | Some s \<Rightarrow> s = []))"

text \<open>\<^verbatim>\<open>messages.at(-1).role !== "user" || !messages.at(-1).content.trim()\<close>\<close>

definition bad_turn :: "json \<Rightarrow> bool" where
  "bad_turn m = (getp m ''role'' \<noteq> Some (JStr ''user'')
     \<or> (case str_of (getp m ''content'') of None \<Rightarrow> True | Some t \<Rightarrow> trim t = []))"

text \<open>The prompt; messages have no numbers, so the rendering of numbers is immaterial.\<close>

definition prompt_head :: string where
  "prompt_head = join_with ''\<newline>\<newline>''
     [''The following JSON is the caller's complete conversation.'',
      ''Apply system and developer instructions, use assistant messages as history, and answer the last user message.'',
      ''Return an answer as text. No filesystem, shell, network or interactive tools are available.'']"

definition prompt_of :: "(rat \<Rightarrow> string) \<Rightarrow> json list \<Rightarrow> string" where
  "prompt_of num messages = prompt_head @ ''\<newline>\<newline>'' @ stringify num (JArr messages)"

definition normalizeRequest :: "(rat \<Rightarrow> string) \<Rightarrow> json \<Rightarrow> thrown + cursor_request" where
  "normalizeRequest num body =
     bind_js (guard_js (not_object body)
       (Adapter 400 ''invalid_request'' ''Request must be a JSON object.'')) (\<lambda>_.
     bind_js (guard_js (bad_model (getp body ''model''))
       (Adapter 400 ''invalid_model'' ''A model ID from /v1/models is required.'')) (\<lambda>_.
     bind_js (guard_js (not_filled_array (getp body ''messages''))
       (Adapter 400 ''invalid_messages'' ''messages must be a non-empty array.'')) (\<lambda>_.
     bind_js (guard_js (getp body ''stream'' \<noteq> None \<and> \<not> is_bool (getp body ''stream''))
       (Adapter 400 ''invalid_stream'' ''stream must be a boolean.'')) (\<lambda>_.
     bind_js (guard_js (filled_or_odd (getp body ''tools''))
       (Adapter 400 ''unsupported_tools'' ''Cursor currently supports text conversations without caller tools.'')) (\<lambda>_.
     bind_js (guard_js (\<not> nullish (getp body ''tool_choice'') \<and> getp body ''tool_choice'' \<noteq> Some (JStr ''none''))
       (Adapter 400 ''unsupported_tools'' ''Only tool_choice=none is supported.'')) (\<lambda>_.
     bind_js (guard_js (\<not> nullish (getp body ''parallel_tool_calls'') \<and> \<not> is_bool (getp body ''parallel_tool_calls''))
       (Adapter 400 ''invalid_request'' ''parallel_tool_calls must be a boolean.'')) (\<lambda>_.
     bind_js (guard_js (\<not> nullish (getp body ''n'') \<and> getp body ''n'' \<noteq> Some (JNum 1))
       (Adapter 400 ''unsupported_parameter'' ''Only n=1 is supported.'')) (\<lambda>_.
     bind_js (guard_js (bad_effort (getp body ''reasoning_effort''))
       (Adapter 400 ''invalid_reasoning_effort'' ''reasoning_effort must be a non-empty string.'')) (\<lambda>_.
     bind_js (case bad_field acceptedFields unsupportedFields body of
         Some field \<Rightarrow> Inl (Adapter 400 ''unsupported_parameter'' (field @ '' has no supported Cursor SDK mapping.''))
       | None \<Rightarrow> Inr ()) (\<lambda>_.
     bind_js (guard_js (bad_stream_options (getp body ''stream_options''))
       (Adapter 400 ''invalid_stream_options'' ''Only stream_options.include_usage (boolean) is supported.'')) (\<lambda>_.
     bind_js (map_js normalize_message (case arr_of (getp body ''messages'') of None \<Rightarrow> [] | Some ms \<Rightarrow> ms)) (\<lambda>messages.
     bind_js (guard_js (bad_turn (last messages))
       (Adapter 400 ''invalid_turn'' ''The current turn must end with a non-empty user message.'')) (\<lambda>_.
       Inr \<lparr>cr_model = (case str_of (getp body ''model'') of None \<Rightarrow> '''' | Some s \<Rightarrow> trim s),
            cr_prompt = prompt_of num messages,
            cr_stream = wants_stream body,
            cr_includeUsage = wants_usage body,
            cr_reasoningEffort = str_of (getp body ''reasoning_effort'')\<rparr>)))))))))))))"

section \<open>Laws\<close>

lemma cursor_normalizeRequest_client_error: "client_error (normalizeRequest num body)"
  unfolding normalizeRequest_def normalize_message_def
  by (intro client_error_bind client_error_guard client_error_map_js client_error_content_text
      client_error_option client_error_Inr client_error_Inl disjI2) simp_all

lemma cursor_normalize_message_Inr:
  assumes "normalize_message m = Inr c"
  shows "\<exists>r t. getp m ''role'' = Some (JStr r) \<and> r \<in> set chat_roles \<and> c = message_json r t (getp m ''name'')
     \<and> (getp m ''content'' = Some (JStr t) \<or> (\<exists>ps. getp m ''content'' = Some (JArr ps) \<and> t = parts_text ps))"
proof -
  from assms obtain t where "\<not> bad_role m"
    and t: "getp m ''content'' = Some (JStr t) \<or> (\<exists>ps. getp m ''content'' = Some (JArr ps) \<and> t = parts_text ps)"
    and c: "c = message_json (case str_of (getp m ''role'') of None \<Rightarrow> '''' | Some r \<Rightarrow> r) t (getp m ''name'')"
    unfolding normalize_message_def bind_js_eq_Inr guard_js_eq_Inr sum.inject
    using content_text_Inr by blast
  then show ?thesis unfolding bad_role_iff by fastforce
qed

lemma cursor_normalizeRequest_Inr:
  assumes "normalizeRequest num body = Inr r"
  shows "\<exists>kvs ms s cs. body = JObj kvs \<and> getp body ''messages'' = Some (JArr ms) \<and> ms \<noteq> []
     \<and> getp body ''model'' = Some (JStr s) \<and> trim s \<noteq> [] \<and> cr_model r = trim s
     \<and> (\<forall>(k, v) \<in> set kvs. k \<in> set acceptedFields \<or> v = JNull)
     \<and> map_js normalize_message ms = Inr cs \<and> \<not> bad_turn (last cs) \<and> cr_prompt r = prompt_of num cs
     \<and> cr_stream r = wants_stream body"
proof -
  note d = assms [unfolded normalizeRequest_def bind_js_eq_Inr guard_js_eq_Inr sum.inject not_object_iff
      not_filled_array_iff]
  from d obtain kvs ms where b: "body = JObj kvs" and m: "getp body ''messages'' = Some (JArr ms)" "ms \<noteq> []"
    and s: "\<not> bad_model (getp body ''model'')" by blast
  from s obtain s where s': "getp body ''model'' = Some (JStr s)" "trim s \<noteq> []"
    by (auto simp: bad_model_def split: option.splits)
  from d obtain x where "(case bad_field acceptedFields unsupportedFields body of
         Some field \<Rightarrow> Inl (Adapter 400 ''unsupported_parameter'' (field @ '' has no supported Cursor SDK mapping.''))
       | None \<Rightarrow> Inr ()) = Inr x" by blast
  then have f: "\<forall>(k, v) \<in> set kvs. k \<in> set acceptedFields \<or> v = JNull"
    unfolding b by (rule bad_field_Inr)
  from d obtain messages where "map_js normalize_message (case arr_of (getp body ''messages'') of None \<Rightarrow> [] | Some ms \<Rightarrow> ms) = Inr messages"
    and "\<not> bad_turn (last messages)"
    and "r = \<lparr>cr_model = (case str_of (getp body ''model'') of None \<Rightarrow> '''' | Some s \<Rightarrow> trim s),
            cr_prompt = prompt_of num messages, cr_stream = wants_stream body, cr_includeUsage = wants_usage body,
            cr_reasoningEffort = str_of (getp body ''reasoning_effort'')\<rparr>" by blast
  with b m s' f show ?thesis by simp
qed

lemma cursor_bad_turn_last:
  assumes "map_js normalize_message ms = Inr cs" "ms \<noteq> []" "\<not> bad_turn (last cs)"
  shows "\<exists>t. user_turn (last ms) t"
  using cursor_normalize_message_Inr [OF map_js_last [OF assms(1,2)]] assms(3)
  by (auto simp: bad_turn_def user_turn_def message_json_def)

interpretation cursor_norm: chat_normalizer "normalizeRequest num" cr_model cr_stream acceptedFields for num
proof
  show "\<exists>s c m. e = Adapter s c m \<and> 400 \<le> s \<and> s < 500" if "normalizeRequest num b = Inl e" for b e
    using cursor_normalizeRequest_client_error that unfolding client_error_def by blast
  show "k \<in> set acceptedFields \<or> v = JNull"
    if "normalizeRequest num (JObj kvs) = Inr r" "(k, v) \<in> set kvs" for kvs r k v
    using cursor_normalizeRequest_Inr [OF that(1)] that(2) by fast
  show "\<exists>kvs. b = JObj kvs" if "normalizeRequest num b = Inr r" for b r
    using cursor_normalizeRequest_Inr [OF that] by blast
  show "\<exists>s. getp b ''model'' = Some (JStr s) \<and> cr_model r = trim s \<and> trim s \<noteq> []"
    if "normalizeRequest num b = Inr r" for b r
    using cursor_normalizeRequest_Inr [OF that] by blast
  show "cr_stream r = wants_stream b" if "normalizeRequest num b = Inr r" for b r
    using cursor_normalizeRequest_Inr [OF that] by blast
  show "\<exists>ms t. getp b ''messages'' = Some (JArr ms) \<and> ms \<noteq> [] \<and> user_turn (last ms) t"
    if "normalizeRequest num b = Inr r" for b r
    using cursor_normalizeRequest_Inr [OF that] cursor_bad_turn_last by blast
qed

lemma cursor_normalized_no_num:
  assumes "map_js normalize_message ms = Inr cs"
  shows "no_num (JArr cs)"
proof -
  have "no_num c" if "normalize_message m = Inr c" for m c
    using cursor_normalize_message_Inr [OF that] by (auto simp: message_json_def split: option.splits)
  with assms [unfolded map_js_Inr_iff] have "no_num_elems cs"
    by (induction rule: list_all2_induct) simp_all
  then show ?thesis by simp
qed

text \<open>
  The single prompt the SDK receives loses nothing of the conversation: if two accepted
  bodies give the same prompt, their normalized messages (roles, texts, names, order) are
  the same, whatever characters the texts contain.
\<close>

theorem prompt_determines_conversation:
  assumes "normalizeRequest num b1 = Inr r1" and "normalizeRequest num b2 = Inr r2"
    and "cr_prompt r1 = cr_prompt r2"
    and "getp b1 ''messages'' = Some (JArr ms1)" and "getp b2 ''messages'' = Some (JArr ms2)"
  shows "map_js normalize_message ms1 = map_js normalize_message ms2"
proof -
  from cursor_normalizeRequest_Inr [OF assms(1)] assms(4) obtain cs1 where
    c1: "map_js normalize_message ms1 = Inr cs1" "cr_prompt r1 = prompt_of num cs1" by auto
  from cursor_normalizeRequest_Inr [OF assms(2)] assms(5) obtain cs2 where
    c2: "map_js normalize_message ms2 = Inr cs2" "cr_prompt r2 = prompt_of num cs2" by auto
  have "stringify num (JArr cs1) = stringify num (JArr cs2)"
    using assms(3) c1(2) c2(2) by (simp add: prompt_of_def)
  then have "cs1 = cs2"
    using stringify_inj [OF cursor_normalized_no_num [OF c1(1)] cursor_normalized_no_num [OF c2(1)]] by simp
  with c1 c2 show ?thesis by simp
qed

definition witness_body :: "json \<Rightarrow> json" where
  "witness_body c = JObj [(''model'', JStr ''gpt''), (''messages'', JArr [
     JObj [(''role'', JStr ''user''), (''content'', c)]])]"

lemma cursor_witness_isl:
  "\<not> isl (normalizeRequest (\<lambda>_. ''0'') (witness_body (JStr ''a'')))"
  "\<not> isl (normalizeRequest (\<lambda>_. ''0'') (witness_body (JArr [JObj [(''type'', JStr ''text''), (''text'', JStr ''a'')]])))"
  by code_simp+

theorem prompt_determines_conversation_witness:
  "\<exists>r1 r2. normalizeRequest (\<lambda>_. ''0'') (witness_body (JStr ''a'')) = Inr r1
     \<and> normalizeRequest (\<lambda>_. ''0'') (witness_body (JArr [JObj [(''type'', JStr ''text''), (''text'', JStr ''a'')]])) = Inr r2
     \<and> map_js normalize_message [JObj [(''role'', JStr ''user''), (''content'', JStr ''a'')]]
       = map_js normalize_message [JObj [(''role'', JStr ''user''),
           (''content'', JArr [JObj [(''type'', JStr ''text''), (''text'', JStr ''a'')]])]]"
proof -
  let ?c2 = "JArr [JObj [(''type'', JStr ''text''), (''text'', JStr ''a'')]]"
  obtain r1 where r1: "normalizeRequest (\<lambda>_. ''0'') (witness_body (JStr ''a'')) = Inr r1"
    using not_isl_ex [of "normalizeRequest (\<lambda>_. ''0'') (witness_body (JStr ''a''))"] by (auto simp: cursor_witness_isl)
  obtain r2 where r2: "normalizeRequest (\<lambda>_. ''0'') (witness_body ?c2) = Inr r2"
    using not_isl_ex [of "normalizeRequest (\<lambda>_. ''0'') (witness_body ?c2)"] by (auto simp: cursor_witness_isl)
  have "cr_prompt (projr (normalizeRequest (\<lambda>_. ''0'') (witness_body (JStr ''a''))))
      = cr_prompt (projr (normalizeRequest (\<lambda>_. ''0'') (witness_body ?c2)))" by code_simp
  then have "cr_prompt r1 = cr_prompt r2" by (simp add: r1 r2)
  moreover have "getp (witness_body c) ''messages'' = Some (JArr [JObj [(''role'', JStr ''user''), (''content'', c)]])" for c
    by (simp add: witness_body_def)
  ultimately show ?thesis using prompt_determines_conversation [OF r1 r2] r1 r2 by blast
qed

section \<open>Usage\<close>

text \<open>
  \<open>usageFromSDK\<close>. Sums of safe integers that are themselves safe are exact in doubles, and
  larger ones stay unsafe when rounded, so the sums are written over the rationals.
\<close>

definition sdk_fields :: "string list" where
  "sdk_fields = [''inputTokens'', ''outputTokens'', ''cacheReadTokens'', ''cacheWriteTokens'', ''totalTokens'']"

definition token_count :: "json option \<Rightarrow> bool" where
  "token_count v = (case num_of v of None \<Rightarrow> False | Some q \<Rightarrow> is_safe_integer q \<and> 0 \<le> q)"

definition count_of :: "json \<Rightarrow> string \<Rightarrow> rat" where
  "count_of u k = (case num_of (getp u k) of None \<Rightarrow> 0 | Some q \<Rightarrow> q)"

record usage_report =
  ur_prompt :: rat
  ur_completion :: rat
  ur_total :: rat
  ur_cached :: rat
  ur_created :: rat
  ur_reasoning :: "rat option"

definition bad_counts :: "json \<Rightarrow> bool" where
  "bad_counts u = (list_ex (\<lambda>k. \<not> token_count (getp u k)) sdk_fields
     \<or> (getp u ''reasoningTokens'' \<noteq> None
        \<and> (\<not> token_count (getp u ''reasoningTokens'') \<or> count_of u ''outputTokens'' < count_of u ''reasoningTokens'')))"

definition usageFromSDK :: "json option \<Rightarrow> thrown + usage_report option" where
  "usageFromSDK usage = (if \<not> truthy usage then Inr None else (let u = the usage in
     bind_js (guard_js (bad_counts u) (Adapter 502 ''invalid_usage'' ''Cursor returned invalid token usage.'')) (\<lambda>_.
     let promptTokens = count_of u ''inputTokens'' + count_of u ''cacheReadTokens'' + count_of u ''cacheWriteTokens'' in
     bind_js (guard_js (\<not> is_safe_integer promptTokens
          \<or> promptTokens + count_of u ''outputTokens'' \<noteq> count_of u ''totalTokens'')
        (Adapter 502 ''invalid_usage'' ''Cursor returned inconsistent token usage.'')) (\<lambda>_.
       Inr (Some \<lparr>ur_prompt = promptTokens, ur_completion = count_of u ''outputTokens'',
                  ur_total = count_of u ''totalTokens'', ur_cached = count_of u ''cacheReadTokens'',
                  ur_created = count_of u ''cacheWriteTokens'',
                  ur_reasoning = num_of (getp u ''reasoningTokens'')\<rparr>)))))"

lemma token_count_nonneg: "token_count (getp u k) \<Longrightarrow> 0 \<le> count_of u k"
  by (auto simp: token_count_def count_of_def split: option.splits)

text \<open>
  Token usage that reaches a client adds up: the total is prompt plus completion, cached
  and cache-creation tokens are part of the prompt, reasoning tokens part of the completion,
  and nothing is negative; usage that does not add up is refused with status 502.
\<close>

theorem usage_adds_up:
  "case usageFromSDK usage of
     Inr None \<Rightarrow> \<not> truthy usage
   | Inr (Some r) \<Rightarrow> ur_total r = ur_prompt r + ur_completion r \<and> ur_cached r + ur_created r \<le> ur_prompt r
        \<and> 0 \<le> ur_cached r \<and> 0 \<le> ur_created r \<and> 0 \<le> ur_completion r
        \<and> (case ur_reasoning r of None \<Rightarrow> True | Some q \<Rightarrow> 0 \<le> q \<and> q \<le> ur_completion r)
   | Inl e \<Rightarrow> status_of e = Some 502"
proof (cases "truthy usage")
  case False
  then show ?thesis by (simp add: usageFromSDK_def)
next
  case True
  let ?u = "the usage"
  show ?thesis
  proof (cases "bad_counts ?u")
    case True
    with \<open>truthy usage\<close> show ?thesis by (simp add: usageFromSDK_def Let_def)
  next
    case False
    then have "0 \<le> count_of ?u ''inputTokens''" "0 \<le> count_of ?u ''outputTokens''"
      "0 \<le> count_of ?u ''cacheReadTokens''" "0 \<le> count_of ?u ''cacheWriteTokens''"
      by (auto simp: bad_counts_def sdk_fields_def intro: token_count_nonneg)
    moreover have "case num_of (getp ?u ''reasoningTokens'') of None \<Rightarrow> True
        | Some q \<Rightarrow> 0 \<le> q \<and> q \<le> count_of ?u ''outputTokens''"
      using False token_count_nonneg [of ?u "''reasoningTokens''"]
      by (auto simp: bad_counts_def count_of_def split: option.splits)
    ultimately show ?thesis
      using True False by (auto simp: usageFromSDK_def Let_def guard_js_def split: option.splits)
  qed
qed

section \<open>Errors\<close>

text \<open>
  \<open>publicError\<close>. \<^verbatim>\<open>Number(error?.status)\<close> of an absent status is NaN, which equals nothing.
\<close>

definition publicError :: "thrown \<Rightarrow> thrown" where
  "publicError e = (case e of Adapter s c m \<Rightarrow> e
   | Foreign f \<Rightarrow>
      (let name = err_name f;
           code = lower (case err_code f of None \<Rightarrow> '''' | Some c \<Rightarrow> c);
           status = err_status f
       in if name = ''AuthenticationError'' \<or> status = Some 401
             \<or> code \<in> set [''unauthenticated'', ''invalid_api_key'', ''bad_api_key'', ''bad_user_api_key'',
                 ''not_logged_in'', ''auth_token_not_found'', ''auth_token_expired'', ''invalid_auth_id'',
                 ''agent_requires_login'', ''unauthorized''] then
            Adapter 401 ''cursor_authentication_failed'' ''Cursor rejected the account API key.''
          else if name = ''RateLimitError'' \<or> status = Some 429
             \<or> code \<in> set [''resource_exhausted'', ''rate_limit_exceeded'', ''usage_limit_exceeded'',
                 ''free_user_usage_limit'', ''pro_user_usage_limit'', ''free_user_rate_limit_exceeded'',
                 ''pro_user_rate_limit_exceeded'', ''openai_rate_limit_exceeded'',
                 ''generic_rate_limit_exceeded'', ''gpt_4_vision_preview_rate_limit'', ''rate_limited'',
                 ''rate_limited_changeable'', ''api_key_rate_limit''] then
            Adapter 429 ''rate_limit_exceeded'' ''Cursor account rate or usage limit reached.''
          else if code \<in> set [''plan_required'', ''upgrade_required'', ''subscription_required''] then
            Adapter 403 ''cursor_plan_required''
              ''The linked Cursor account is on the free plan, but Cursor Cloud Agent requires Pro.''
          else if status = Some 403
             \<or> code \<in> set [''permission_denied'', ''model_access_denied'', ''model_blocked'',
                 ''not_high_enough_permissions''] then
            Adapter 403 ''cursor_permission_denied'' ''Cursor account is not permitted to use this model.''
          else if name = ''ConfigurationError'' \<or> status = Some 400
             \<or> code \<in> set [''invalid_argument'', ''bad_model_name'', ''bad_request''] then
            Adapter 400 ''cursor_configuration_error'' ''Cursor rejected the model or account configuration.''
          else if status = Some 504 \<or> code \<in> set [''deadline_exceeded'', ''timeout''] then
            Adapter 504 ''cursor_timeout'' ''Cursor generation timed out.''
          else Adapter 502 ''cursor_upstream_error'' ''Cursor did not complete the request successfully.''))"

lemma publicError_is_adapter: "\<exists>s c m. publicError e = Adapter s c m"
  by (simp add: publicError_def Let_def split: thrown.splits)

end
