(* ===== verification/Js_Uri.thy ===== *)
theory Js_Uri
  imports Js_Json
begin

text \<open>
  \<^verbatim>\<open>encodeURIComponent\<close> on code units below 256: the UTF-8 bytes of every character but
  the unreserved ones are written as a percent sign and two capital hexadecimal digits.
  A decoder shows that the encoding is injective and which characters it never produces.
\<close>

definition uri_unreserved :: "char \<Rightarrow> bool" where
  "uri_unreserved c =
     (let n = of_char c :: nat in (48 \<le> n \<and> n \<le> 57) \<or> (65 \<le> n \<and> n \<le> 90) \<or> (97 \<le> n \<and> n \<le> 122)
        \<or> n \<in> {33, 39, 40, 41, 42, 45, 46, 95, 126})"

definition upper_hex :: "nat \<Rightarrow> char" where
  "upper_hex n = (if n < 10 then char_of (48 + n) else char_of (55 + n))"

definition percent_byte :: "byte \<Rightarrow> string" where
  "percent_byte b = [CHR ''%'', upper_hex (unat b div 16), upper_hex (unat b mod 16)]"

definition uri_char :: "char \<Rightarrow> string" where
  "uri_char c = (if uri_unreserved c then [c] else concat (map percent_byte (utf8_char c)))"

definition encodeURIComponent :: "string \<Rightarrow> string" where
  "encodeURIComponent s = concat (map uri_char s)"

text \<open>The decoder.\<close>

definition hex_value :: "char \<Rightarrow> nat" where
  "hex_value c = (let n = of_char c :: nat in if n < 58 then n - 48 else n - 55)"

fun uri_bytes :: "string \<Rightarrow> bytes" where
  "uri_bytes [] = []"
| "uri_bytes (c # r) =
     (if c = CHR ''%'' then
        (case r of a # b # r' \<Rightarrow> of_nat (16 * hex_value a + hex_value b) # uri_bytes r' | _ \<Rightarrow> [])
      else of_nat (of_char c) # uri_bytes r)"

declare uri_bytes.simps [simp del]

lemma of_char_upper_hex: "n < 16 \<Longrightarrow> of_char (upper_hex n) = (if n < 10 then 48 + n else 55 + n)"
  by (simp add: upper_hex_def of_char_of take_bit_nat_def)

lemma hex_value_upper_hex: "n < 16 \<Longrightarrow> hex_value (upper_hex n) = n"
  by (simp add: hex_value_def of_char_upper_hex)

lemma byte_half: "unat (b :: byte) div 16 < 16"
proof -
  have "unat b < 2 ^ LENGTH(8)" by (rule unsigned_less)
  then show ?thesis using less_mult_imp_div_less [of "unat b" 16 16] by simp
qed

lemma uri_bytes_percent: "uri_bytes (percent_byte b @ r) = b # uri_bytes r"
proof -
  have "hex_value (upper_hex (unat b div 16)) = unat b div 16"
    "hex_value (upper_hex (unat b mod 16)) = unat b mod 16"
    by (simp_all only: hex_value_upper_hex byte_half mod_less_divisor zero_less_numeral)
  then have "of_nat (16 * hex_value (upper_hex (unat b div 16)) + hex_value (upper_hex (unat b mod 16))) = b"
    by (simp only: mult_div_mod_eq) simp
  then show ?thesis by (simp add: percent_byte_def uri_bytes.simps del: of_nat_add of_nat_mult)
qed

lemma uri_bytes_percents: "uri_bytes (concat (map percent_byte bs) @ r) = bs @ uri_bytes r"
  by (induction bs) (simp_all add: uri_bytes_percent)

lemma unreserved_below: "uri_unreserved c \<Longrightarrow> of_char c < (128::nat) \<and> c \<noteq> CHR ''%''"
  by (auto simp: uri_unreserved_def Let_def)

lemma uri_bytes_char: "uri_bytes (uri_char c @ r) = utf8_char c @ uri_bytes r"
proof (cases "uri_unreserved c")
  case True
  with unreserved_below [OF True] show ?thesis
    by (simp add: uri_char_def utf8_char_cases(1) uri_bytes.simps)
next
  case False
  then show ?thesis by (simp add: uri_char_def uri_bytes_percents)
qed

lemma uri_bytes_encode: "uri_bytes (encodeURIComponent s) = utf8 s"
proof -
  have "uri_bytes (encodeURIComponent s @ r) = utf8 s @ uri_bytes r" for r
    by (induction s) (simp_all add: encodeURIComponent_def utf8_def uri_bytes_char)
  from this [of "[]"] show ?thesis by (simp add: uri_bytes.simps)
qed

lemma encodeURIComponent_inj: "encodeURIComponent s = encodeURIComponent t \<Longrightarrow> s = t"
  by (metis uri_bytes_encode utf8_inj)

lemma upper_hex_unreserved: "n < 16 \<Longrightarrow> uri_unreserved (upper_hex n)"
  by (simp add: uri_unreserved_def of_char_upper_hex Let_def)

lemma percent_byte_chars: "c \<in> set (percent_byte b) \<Longrightarrow> c = CHR ''%'' \<or> uri_unreserved c"
  using byte_half [of b] by (auto simp: percent_byte_def upper_hex_unreserved)

lemma encoded_chars: "c \<in> set (encodeURIComponent s) \<Longrightarrow> c = CHR ''%'' \<or> uri_unreserved c"
  using percent_byte_chars by (fastforce simp: encodeURIComponent_def uri_char_def split: if_splits)

lemma encoded_no_separator:
  "CHR ''='' \<notin> set (encodeURIComponent s)" "CHR '','' \<notin> set (encodeURIComponent s)"
  "CHR ''['' \<notin> set (encodeURIComponent s)" "CHR '']'' \<notin> set (encodeURIComponent s)"
  "CHR ''&'' \<notin> set (encodeURIComponent s)"
  using encoded_chars by (force simp: uri_unreserved_def)+

text \<open>Splitting at a separator that the parts do not contain.\<close>

lemma append_sep_inj:
  "a @ d # b = a' @ d # b' \<Longrightarrow> d \<notin> set a \<Longrightarrow> d \<notin> set a' \<Longrightarrow> a = a' \<and> b = b'"
proof (induction a arbitrary: a')
  case Nil
  then show ?case by (cases a') auto
next
  case (Cons x a)
  then show ?case by (cases a') auto
qed

lemma append_last_sep_inj:
  assumes "a @ d # b = a' @ d # b'" "d \<notin> set b" "d \<notin> set b'"
  shows "a = a' \<and> b = b'"
proof -
  from arg_cong [OF assms(1), of rev] have "rev b @ d # rev a = rev b' @ d # rev a'" by simp
  from append_sep_inj [OF this] assms(2,3) show ?thesis by simp
qed

lemma join_with_inj:
  assumes "join_with [d] xs = join_with [d] ys"
    and "\<forall>x \<in> set xs. d \<notin> set x \<and> x \<noteq> []" "\<forall>y \<in> set ys. d \<notin> set y \<and> y \<noteq> []"
  shows "xs = ys"
  using assms
proof (induction xs arbitrary: ys)
  case Nil
  then show ?case by (cases ys; cases "tl ys") auto
next
  case (Cons x xs)
  show ?case
  proof (cases ys)
    case Nil
    with Cons.prems show ?thesis by (cases xs) auto
  next
    case (Cons y zs)
    note ys = this
    show ?thesis
    proof (cases "xs = [] \<or> zs = []")
      case True
      then show ?thesis
        using Cons.prems ys by (cases xs; cases zs) (auto simp: in_set_conv_decomp)
    next
      case False
      with Cons.prems ys have "x @ d # join_with [d] xs = y @ d # join_with [d] zs"
        by (simp add: join_with_Cons)
      with append_sep_inj [OF this] Cons.prems Cons.IH [of zs] ys show ?thesis by simp
    qed
  qed
qed

end
