(* ===== verification/Cursor_Runtime.thy ===== *)
theory Cursor_Runtime
  imports Cursor_Request Js_Uri "HOL-Library.List_Lexorder" "HOL-Library.Char_ord" "HOL-Library.Multiset"
begin

text \<open>
  \<^verbatim>\<open>src/tools/cursor2api/src/runtime.mjs\<close>, with \<^verbatim>\<open>abort.mjs\<close> and \<^verbatim>\<open>sdk-worker.mjs\<close>: the names
  of models and variants, the selection of a model, the catalogue cache with its waiters, the
  worker and its acknowledgements, and a generation through the SDK. The SDK is a parameter:
  a catalogue has the shape its types document, and a generation is the sequence of updates
  and events the SDK delivers. Every promise reaction of the code is one operation on an
  explicit state; the order of the reactions is left open.
\<close>

section \<open>Worker arguments\<close>

fun workerExecArgv :: "string list \<Rightarrow> string list" where
  "workerExecArgv [] = []"
| "workerExecArgv (a # as) =
     (if a = ''--input-type'' then workerExecArgv (tl as)
      else if starts_with a ''--input-type='' then workerExecArgv as
      else a # workerExecArgv as)"

lemma workerExecArgv_clean:
  "a \<in> set (workerExecArgv as) \<Longrightarrow> a \<in> set as \<and> a \<noteq> ''--input-type'' \<and> \<not> starts_with a ''--input-type=''"
  by (induction as rule: workerExecArgv.induct) (auto split: if_splits dest: list.set_sel(2) [rotated])

section \<open>Models and variants\<close>

record sdk_param =
  p_id :: string
  p_value :: string

record sdk_variant =
  v_params :: "sdk_param list option"
  v_displayName :: "string option"

record sdk_parameter =
  q_id :: string
  q_values :: "string list"

record sdk_model =
  m_id :: "json option"
  m_displayName :: "string option"
  m_variants :: "sdk_variant list option"
  m_parameters :: "sdk_parameter list option"

text \<open>An element of the catalogue array may be null, which the code skips.\<close>

type_synonym sdk_catalog = "sdk_model option list"

definition param_text :: "sdk_param \<Rightarrow> string" where
  "param_text p = encodeURIComponent (p_id p) @ ''='' @ encodeURIComponent (p_value p)"

definition variantID :: "string \<Rightarrow> sdk_param list \<Rightarrow> string" where
  "variantID i params = i @ ''['' @ join_with '','' (sort (map param_text params)) @ '']''"

record selection =
  sel_id :: string
  sel_params :: "sdk_param list"

record model_info =
  e_id :: string
  e_display_name :: string
  e_selection :: selection

definition or_text :: "string option \<Rightarrow> string \<Rightarrow> string" where
  "or_text s d = (case s of Some (c # cs) \<Rightarrow> c # cs | _ \<Rightarrow> d)"

definition base_entry :: "string \<Rightarrow> sdk_model \<Rightarrow> model_info" where
  "base_entry i m = \<lparr>e_id = i, e_display_name = or_text (m_displayName m) i,
     e_selection = \<lparr>sel_id = i, sel_params = []\<rparr>\<rparr>"

definition variant_entry :: "string \<Rightarrow> sdk_param list \<Rightarrow> sdk_variant \<Rightarrow> model_info" where
  "variant_entry i ps v = \<lparr>e_id = variantID i ps, e_display_name = or_text (v_displayName v) (variantID i ps),
     e_selection = \<lparr>sel_id = i, sel_params = ps\<rparr>\<rparr>"

definition add_variant :: "string \<Rightarrow> sdk_variant \<Rightarrow> (string \<times> model_info) list \<Rightarrow> (string \<times> model_info) list" where
  "add_variant i v entries = (case v_params v of
     Some (p # ps) \<Rightarrow> AList.update (variantID i (p # ps)) (variant_entry i (p # ps) v) entries
   | _ \<Rightarrow> entries)"

definition model_name :: "sdk_model option \<Rightarrow> string option" where
  "model_name m = (case m of None \<Rightarrow> None
     | Some m' \<Rightarrow> (case str_of (m_id m') of Some (c # cs) \<Rightarrow> Some (c # cs) | _ \<Rightarrow> None))"

definition add_model :: "sdk_model option \<Rightarrow> (string \<times> model_info) list \<Rightarrow> (string \<times> model_info) list" where
  "add_model m entries = (case model_name m of
     None \<Rightarrow> entries
   | Some i \<Rightarrow> fold (add_variant i) (case m_variants (the m) of None \<Rightarrow> [] | Some vs \<Rightarrow> vs)
                (AList.update i (base_entry i (the m)) entries))"

definition modelEntries :: "sdk_catalog \<Rightarrow> (string \<times> model_info) list" where
  "modelEntries catalog = fold add_model catalog []"

text \<open>The listing of \<open>models\<close>: the entries without their selections.\<close>

definition entry_json :: "model_info \<Rightarrow> json" where
  "entry_json e = JObj [(''id'', JStr (e_id e)), (''object'', JStr ''model''), (''created'', JNum 0),
     (''owned_by'', JStr ''cursor''), (''display_name'', JStr (e_display_name e)),
     (''input_modalities'', JArr [JStr ''text''])]"

definition models_listing :: "sdk_catalog \<Rightarrow> json list" where
  "models_listing catalog = map (entry_json \<circ> snd) (modelEntries catalog)"

text \<open>
  \<^verbatim>\<open>catalog.find((model) => model.id === id)\<close>: reading \<^verbatim>\<open>id\<close> of a null element throws.
\<close>

fun find_definition :: "string \<Rightarrow> sdk_catalog \<Rightarrow> thrown + sdk_model" where
  "find_definition i [] = Inl (type_error ''Cannot read properties of undefined (reading 'parameters')'')"
| "find_definition i (m # ms) = (case m of
     None \<Rightarrow> Inl (type_error ''Cannot read properties of null (reading 'id')'')
   | Some m' \<Rightarrow> if m_id m' = Some (JStr i) then Inr m' else find_definition i ms)"

definition effort_parameter :: "string \<Rightarrow> sdk_parameter \<Rightarrow> bool" where
  "effort_parameter effort p =
     (if effort = ''none'' then q_id p = ''thinking'' \<and> ''false'' \<in> set (q_values p)
      else q_id p \<in> {''effort'', ''reasoning'', ''thought_level''} \<and> effort \<in> set (q_values p))"

definition effort_value :: "string \<Rightarrow> string" where
  "effort_value effort = (if effort = ''none'' then ''false'' else effort)"

definition with_effort :: "sdk_parameter list \<Rightarrow> string option \<Rightarrow> (string \<times> string) list
    \<Rightarrow> thrown + (string \<times> string) list" where
  "with_effort parameters effort params = (case effort of
     None \<Rightarrow> Inr params
   | Some e \<Rightarrow> (case find (effort_parameter e) parameters of
       None \<Rightarrow> Inl (Adapter 400 ''unsupported_reasoning_effort''
                 ''The selected Cursor model does not expose this reasoning effort.'')
     | Some p \<Rightarrow> Inr (AList.update (q_id p) (effort_value e) params)))"

definition param_known :: "sdk_parameter list \<Rightarrow> string \<times> string \<Rightarrow> bool" where
  "param_known parameters kv = list_ex (\<lambda>p. q_id p = fst kv \<and> snd kv \<in> set (q_values p)) parameters"

definition param_map :: "sdk_param list \<Rightarrow> (string \<times> string) list" where
  "param_map ps = fold (\<lambda>p. AList.update (p_id p) (p_value p)) ps []"

definition model_not_found :: thrown where
  "model_not_found = Adapter 400 ''model_not_found''
     ''The requested model is absent from this Cursor account's model catalog.''"

definition selectModel :: "sdk_catalog \<Rightarrow> string \<Rightarrow> string option \<Rightarrow> thrown + selection" where
  "selectModel catalog name effort = (case map_of (modelEntries catalog) name of
     None \<Rightarrow> Inl model_not_found
   | Some entry \<Rightarrow>
       bind_js (find_definition (sel_id (e_selection entry)) catalog) (\<lambda>definition.
         let parameters = (case m_parameters definition of None \<Rightarrow> [] | Some ps \<Rightarrow> ps) in
         bind_js (with_effort parameters effort (param_map (sel_params (e_selection entry)))) (\<lambda>params.
         bind_js (guard_js (\<not> list_all (param_known parameters) params)
           (Adapter 502 ''invalid_model_catalog'' ''Cursor returned an unsupported model parameter variant.'')) (\<lambda>_.
         Inr \<lparr>sel_id = sel_id (e_selection entry),
              sel_params = map (\<lambda>(i, v). \<lparr>p_id = i, p_value = v\<rparr>) params\<rparr>))))"

subsection \<open>A name stands for one variant\<close>

lemma param_text_inj:
  assumes "param_text p = param_text q"
  shows "p = q"
proof -
  from assms have "encodeURIComponent (p_id p) @ CHR ''='' # encodeURIComponent (p_value p)
      = encodeURIComponent (p_id q) @ CHR ''='' # encodeURIComponent (p_value q)"
    by (simp add: param_text_def)
  from append_sep_inj [OF this] show ?thesis
    using encodeURIComponent_inj encoded_no_separator(1) by (metis sdk_param.surjective old.unit.exhaust)
qed

lemma param_text_chars: "CHR '','' \<notin> set (param_text p)" "CHR ''['' \<notin> set (param_text p)" "param_text p \<noteq> []"
  by (auto simp: param_text_def encoded_no_separator)

lemma join_with_chars: "c \<in> set (join_with sep ss) \<Longrightarrow> c \<in> set sep \<or> (\<exists>s \<in> set ss. c \<in> set s)"
  by (induction sep ss rule: join_with.induct) auto

lemma variantID_injective:
  assumes "variantID i ps = variantID j qs"
  shows "i = j \<and> mset ps = mset qs"
proof -
  let ?body = "\<lambda>ps. join_with '','' (sort (map param_text ps)) @ '']''"
  have no: "CHR ''['' \<notin> set (?body ps)" for ps
    using join_with_chars [of "CHR ''[''"] param_text_chars(2) by force
  from assms have "i @ CHR ''['' # ?body ps = j @ CHR ''['' # ?body qs" by (simp add: variantID_def)
  from append_last_sep_inj [OF this no no] have ij: "i = j" and
    "join_with '','' (sort (map param_text ps)) = join_with '','' (sort (map param_text qs))" by auto
  from join_with_inj [OF this(2)] have "sort (map param_text ps) = sort (map param_text qs)"
    using param_text_chars by auto
  then have "image_mset param_text (mset ps) = image_mset param_text (mset qs)"
    by (metis mset_map mset_sort)
  then have "mset ps = mset qs"
    using param_text_inj by (metis (no_types, lifting) inj_onI multiset.inj_map inj_def)
  with ij show ?thesis by simp
qed

text \<open>
  The name under which a variant is listed determines the model and, up to their order,
  the parameters of the variant, whatever characters the identifiers contain: no two
  different variants share a name.
\<close>

theorem variant_name_identifies_variant:
  assumes "variantID i ps = variantID j qs"
  shows "i = j \<and> mset ps = mset qs"
  using assms by (rule variantID_injective)

theorem variant_name_identifies_variant_witness:
  "let p = \<lparr>p_id = ''a='', p_value = ''b,c''\<rparr>; q = \<lparr>p_id = ''a'', p_value = ''[d]''\<rparr>
   in variantID ''m'' [p, q] = variantID ''m'' [q, p] \<and> mset [p, q] = mset [q, p]"
proof -
  let ?p = "\<lparr>p_id = ''a='', p_value = ''b,c''\<rparr>" and ?q = "\<lparr>p_id = ''a'', p_value = ''[d]''\<rparr>"
  have eq: "variantID ''m'' [?p, ?q] = variantID ''m'' [?q, ?p]" using linear by (auto simp: variantID_def)
  from variant_name_identifies_variant [OF this] eq show ?thesis unfolding Let_def by blast
qed

subsection \<open>Selecting a model\<close>

definition entry_of :: "sdk_catalog \<Rightarrow> string \<Rightarrow> model_info \<Rightarrow> bool" where
  "entry_of catalog name e \<longleftrightarrow> e_id e = name
     \<and> (\<exists>m. Some m \<in> set catalog \<and> m_id m = Some (JStr (sel_id (e_selection e))))
     \<and> (name = sel_id (e_selection e) \<and> sel_params (e_selection e) = []
        \<or> name = variantID (sel_id (e_selection e)) (sel_params (e_selection e)))"

definition entries_ok :: "sdk_catalog \<Rightarrow> (string \<times> model_info) list \<Rightarrow> bool" where
  "entries_ok catalog es \<longleftrightarrow> (\<forall>e \<in> set es. entry_of catalog (fst e) (snd e))"

lemma entries_ok_update: "entries_ok c es \<Longrightarrow> entry_of c n e \<Longrightarrow> entries_ok c (AList.update n e es)"
  by (auto simp: entries_ok_def dest!: set_update_cases)

lemma model_name_Some: "model_name m = Some i \<Longrightarrow> \<exists>m'. m = Some m' \<and> m_id m' = Some (JStr i)"
  by (auto simp: model_name_def split: option.splits list.splits)

lemma entries_ok_variant:
  assumes "entries_ok c es" "Some m \<in> set c" "m_id m = Some (JStr i)"
  shows "entries_ok c (add_variant i v es)"
  using assms
  by (auto simp: add_variant_def split: option.splits list.splits
      intro!: entries_ok_update simp: entry_of_def variant_entry_def)

lemma entries_ok_variants:
  "entries_ok c es \<Longrightarrow> Some m \<in> set c \<Longrightarrow> m_id m = Some (JStr i) \<Longrightarrow> entries_ok c (fold (add_variant i) vs es)"
  by (induction vs arbitrary: es) (auto intro: entries_ok_variant)

lemma entries_ok_model:
  assumes "entries_ok c es" "m \<in> set c"
  shows "entries_ok c (add_model m es)"
proof (cases "model_name m")
  case None
  then show ?thesis using assms by (simp add: add_model_def)
next
  case (Some i)
  then obtain m' where m': "m = Some m'" "m_id m' = Some (JStr i)" using model_name_Some by blast
  then have "entry_of c i (base_entry i m')" using assms(2) by (auto simp: entry_of_def base_entry_def)
  then show ?thesis
    using assms m' Some by (auto simp: add_model_def intro!: entries_ok_variants entries_ok_update)
qed

lemma entries_ok_models: "entries_ok c es \<Longrightarrow> set ms \<subseteq> set c \<Longrightarrow> entries_ok c (fold add_model ms es)"
  by (induction ms arbitrary: es) (auto intro: entries_ok_model)

lemma modelEntries_ok: "map_of (modelEntries catalog) name = Some e \<Longrightarrow> entry_of catalog name e"
  using entries_ok_models [of catalog "[]" catalog]
  by (auto simp: modelEntries_def entries_ok_def dest!: map_of_SomeD)

lemma find_definition_Inr: "find_definition i c = Inr m \<Longrightarrow> Some m \<in> set c \<and> m_id m = Some (JStr i)"
  by (induction c) (auto split: option.splits if_splits)

definition param_pairs :: "selection \<Rightarrow> (string \<times> string) list" where
  "param_pairs s = map (\<lambda>p. (p_id p, p_value p)) (sel_params s)"

lemma param_map_distinct_keys: "distinct (map fst (param_map ps))"
proof -
  have "distinct (map fst es) \<Longrightarrow> distinct (map fst (fold (\<lambda>p. AList.update (p_id p) (p_value p)) ps es))" for es
    by (induction ps arbitrary: es) (auto intro: distinct_keys_update)
  then show ?thesis by (simp add: param_map_def)
qed

lemma update_new: "k \<notin> fst ` set m \<Longrightarrow> AList.update k v m = m @ [(k, v)]"
  by (induction m) auto

lemma param_map_distinct: "distinct (map p_id ps) \<Longrightarrow> param_map ps = map (\<lambda>p. (p_id p, p_value p)) ps"
proof -
  have "distinct (map p_id ps) \<Longrightarrow> fst ` set es \<inter> p_id ` set ps = {} \<Longrightarrow>
      fold (\<lambda>p. AList.update (p_id p) (p_value p)) ps es = es @ map (\<lambda>p. (p_id p, p_value p)) ps" for es
    by (induction ps arbitrary: es) (auto simp: update_new image_iff)
  then show "distinct (map p_id ps) \<Longrightarrow> ?thesis" by (simp add: param_map_def)
qed

definition offers :: "sdk_model \<Rightarrow> string \<times> string \<Rightarrow> bool" where
  "offers m kv = (case m_parameters m of None \<Rightarrow> False | Some qs \<Rightarrow> param_known qs kv)"

lemma with_effort_Inr:
  "with_effort qs effort params = Inr params' \<Longrightarrow> distinct (map fst params) \<Longrightarrow>
     distinct (map fst params') \<and> (case effort of None \<Rightarrow> params' = params
       | Some e \<Rightarrow> (\<exists>q \<in> set qs. effort_parameter e q \<and> map_of params' (q_id q) = Some (effort_value e)))"
  by (auto simp: with_effort_def find_Some_iff distinct_update split: option.splits intro!: bexI [OF _ nth_mem])

lemma param_pairs_of: "param_pairs \<lparr>sel_id = i, sel_params = map (\<lambda>(i, v). \<lparr>p_id = i, p_value = v\<rparr>) ps\<rparr> = ps"
  by (induction ps) (auto simp: param_pairs_def)

lemma offers_known:
  "offers m kv \<longleftrightarrow> param_known (case m_parameters m of None \<Rightarrow> [] | Some ps \<Rightarrow> ps) kv"
  by (simp add: offers_def param_known_def split: option.splits)

lemma selectModel_Inr:
  assumes "selectModel catalog name effort = Inr sel"
  obtains e m where "entry_of catalog name e" "Some m \<in> set catalog" "m_id m = Some (JStr (sel_id sel))"
    "sel_id sel = sel_id (e_selection e)" "list_all (offers m) (param_pairs sel)"
    "with_effort (case m_parameters m of None \<Rightarrow> [] | Some ps \<Rightarrow> ps) effort (param_map (sel_params (e_selection e)))
       = Inr (param_pairs sel)"
proof -
  from assms obtain e where e: "map_of (modelEntries catalog) name = Some e"
    by (auto simp: selectModel_def split: option.splits)
  from assms obtain m where m: "find_definition (sel_id (e_selection e)) catalog = Inr m"
    unfolding selectModel_def e by auto
  let ?qs = "case m_parameters m of None \<Rightarrow> [] | Some ps \<Rightarrow> ps"
  from assms obtain params where p: "with_effort ?qs effort (param_map (sel_params (e_selection e))) = Inr params"
      "list_all (param_known ?qs) params"
    and sel: "sel = \<lparr>sel_id = sel_id (e_selection e), sel_params = map (\<lambda>(i, v). \<lparr>p_id = i, p_value = v\<rparr>) params\<rparr>"
    unfolding selectModel_def e using m by (auto simp: Let_def)
  show ?thesis
    by (rule that [of e m])
      (use modelEntries_ok [OF e] find_definition_Inr [OF m] p sel in
        \<open>auto simp: param_pairs_of list_all_iff offers_known\<close>)
qed

text \<open>
  What \<open>selectModel\<close> hands to the SDK is a model of the account's own catalogue, with
  parameters that this model offers, each given once; with a reasoning effort one of them
  is the effort; without one, the selection is the plain model or, when the parameters of
  the named variant have different identifiers, exactly that variant.
\<close>

theorem selection_is_offered:
  assumes "selectModel catalog name effort = Inr sel"
  shows "\<exists>m. Some m \<in> set catalog \<and> m_id m = Some (JStr (sel_id sel))
     \<and> list_all (offers m) (param_pairs sel) \<and> distinct (map fst (param_pairs sel))
     \<and> (case effort of
          Some e \<Rightarrow> (\<exists>k. map_of (param_pairs sel) k = Some (effort_value e)
                      \<and> k \<in> {''thinking'', ''effort'', ''reasoning'', ''thought_level''})
        | None \<Rightarrow> name = sel_id sel \<and> param_pairs sel = []
           \<or> (\<exists>ps. name = variantID (sel_id sel) ps \<and> (distinct (map p_id ps) \<longrightarrow> sel_params sel = ps)))"
proof -
  from assms obtain e m where e: "entry_of catalog name e" "sel_id sel = sel_id (e_selection e)"
    and m: "Some m \<in> set catalog" "m_id m = Some (JStr (sel_id sel))" "list_all (offers m) (param_pairs sel)"
    and w: "with_effort (case m_parameters m of None \<Rightarrow> [] | Some ps \<Rightarrow> ps) effort
       (param_map (sel_params (e_selection e))) = Inr (param_pairs sel)"
    by (rule selectModel_Inr)
  note w' = with_effort_Inr [OF w param_map_distinct_keys]
  have same: "sel_params sel = ps" if "param_pairs sel = map (\<lambda>p. (p_id p, p_value p)) ps" for ps
  proof -
    have inj: "inj (\<lambda>p::sdk_param. (p_id p, p_value p))" by (rule injI) simp
    from that show ?thesis using inj unfolding param_pairs_def by (simp add: inj_map_eq_map)
  qed
  show ?thesis
  proof (cases effort)
    case None
    with w' have pairs: "param_pairs sel = param_map (sel_params (e_selection e))" by simp
    have "name = sel_id sel \<and> param_pairs sel = []
        \<or> (\<exists>ps. name = variantID (sel_id sel) ps \<and> (distinct (map p_id ps) \<longrightarrow> sel_params sel = ps))"
    proof (cases "sel_params (e_selection e) = []")
      case True
      then have "param_pairs sel = []" "sel_params sel = []" using pairs by (simp_all add: param_map_def param_pairs_def)
      then show ?thesis using e True by (auto simp: entry_of_def)
    next
      case False
      then have "name = variantID (sel_id sel) (sel_params (e_selection e))" using e by (simp add: entry_of_def)
      then show ?thesis using same pairs param_map_distinct by metis
    qed
    with m conjunct1 [OF w'] None show ?thesis by (intro exI [of _ m]) simp
  next
    case (Some ef)
    with w' obtain q where "effort_parameter ef q" "map_of (param_pairs sel) (q_id q) = Some (effort_value ef)" by auto
    with Some w' m show ?thesis
      by (intro exI [of _ m]) (auto simp: effort_parameter_def split: if_splits)
  qed
qed

definition witness_model :: sdk_model where
  "witness_model = \<lparr>m_id = Some (JStr ''gpt''), m_displayName = None,
     m_variants = Some [\<lparr>v_params = Some [\<lparr>p_id = ''fast'', p_value = ''true''\<rparr>], v_displayName = None\<rparr>],
     m_parameters = Some [\<lparr>q_id = ''fast'', q_values = [''true'']\<rparr>, \<lparr>q_id = ''effort'', q_values = [''low'', ''high'']\<rparr>]\<rparr>"

definition witness_selection :: selection where
  "witness_selection = \<lparr>sel_id = ''gpt'',
     sel_params = [\<lparr>p_id = ''fast'', p_value = ''true''\<rparr>, \<lparr>p_id = ''effort'', p_value = ''high''\<rparr>]\<rparr>"

theorem selection_is_offered_witness:
  "selectModel [Some witness_model] ''gpt[fast=true]'' (Some ''high'') = Inr witness_selection
   \<and> distinct (map fst (param_pairs witness_selection))"
proof -
  have s: "selectModel [Some witness_model] ''gpt[fast=true]'' (Some ''high'') = Inr witness_selection" by code_simp
  from selection_is_offered [OF s] have "distinct (map fst (param_pairs witness_selection))" by blast
  with s show ?thesis ..
qed

section \<open>The catalogue cache\<close>

text \<open>
  An item of the cache is an object: the map \<open>catalogs\<close> refers to it by its position in
  \<open>items\<close>, so that an item that was evicted lives on for its waiters. \<open>waiting\<close> lists, as a
  history variable, the items the callers inside \<open>abortable\<close> wait for.
\<close>

record citem =
  ci_key :: string
  ci_expires :: int
  ci_pending :: bool
  ci_waiters :: int
  ci_abort :: "thrown option"
  ci_result :: "(thrown + sdk_catalog) option"

record runtime =
  catalogs :: "(string \<times> nat) list"
  items :: "citem list"
  stopping :: bool
  waiting :: "nat list"

definition init_runtime :: runtime where
  "init_runtime = \<lparr>catalogs = [], items = [], stopping = False, waiting = []\<rparr>"

definition upd_item :: "nat \<Rightarrow> (citem \<Rightarrow> citem) \<Rightarrow> runtime \<Rightarrow> runtime" where
  "upd_item r f c = c\<lparr>items := (items c)[r := f (items c ! r)]\<rparr>"

definition drop_item :: "nat \<Rightarrow> runtime \<Rightarrow> runtime" where
  "drop_item r c = (let key = ci_key (items c ! r) in
     if map_of (catalogs c) key = Some r then c\<lparr>catalogs := AList.delete key (catalogs c)\<rparr> else c)"

definition adapter_shutdown :: thrown where
  "adapter_shutdown = Adapter 503 ''adapter_shutdown'' ''Cursor adapter is shutting down.''"

text \<open>A new item; the first entry of a full map is dropped before the key is set.\<close>

definition new_item :: "int \<Rightarrow> int \<Rightarrow> string \<Rightarrow> citem" where
  "new_item ttl now key = \<lparr>ci_key = key, ci_expires = now + ttl, ci_pending = True, ci_waiters = 0,
     ci_abort = None, ci_result = None\<rparr>"

definition evicted :: "(string \<times> nat) list \<Rightarrow> (string \<times> nat) list" where
  "evicted m = (if 64 \<le> length m then AList.delete (fst (hd m)) m else m)"

definition catalog_new :: "int \<Rightarrow> int \<Rightarrow> string \<Rightarrow> runtime \<Rightarrow> nat \<times> runtime" where
  "catalog_new ttl now key c =
     (let r = length (items c)
      in (r, c\<lparr>items := items c @ [new_item ttl now key], catalogs := AList.update key r (evicted (catalogs c))\<rparr>))"

definition fresh :: "int \<Rightarrow> citem \<Rightarrow> bool" where
  "fresh now it = (ci_pending it \<or> now < ci_expires it)"

definition catalog_find :: "int \<Rightarrow> int \<Rightarrow> int \<Rightarrow> string \<Rightarrow> runtime \<Rightarrow> nat \<times> runtime" where
  "catalog_find ttl now now' key c = (case map_of (catalogs c) key of
     Some r \<Rightarrow> if fresh now (items c ! r) then (r, c) else catalog_new ttl now' key c
   | None \<Rightarrow> catalog_new ttl now' key c)"

text \<open>
  \<open>catalog\<close> up to the await: \<open>aborted\<close> is the reason of a signal that is already aborted.
\<close>

definition catalog_enter :: "int \<Rightarrow> thrown option \<Rightarrow> int \<Rightarrow> int \<Rightarrow> string \<Rightarrow> runtime \<Rightarrow> (thrown + nat) \<times> runtime" where
  "catalog_enter ttl aborted now now' key c = (case aborted of
     Some e \<Rightarrow> (Inl e, c)
   | None \<Rightarrow> (case catalog_find ttl now now' key c of (r, c') \<Rightarrow>
       (Inr r, (upd_item r (\<lambda>it. it\<lparr>ci_waiters := ci_waiters it + 1\<rparr>) c')\<lparr>waiting := r # waiting c'\<rparr>)))"

text \<open>The reactions of the query: \<open>then\<close> with \<open>catch\<close>, and \<open>finally\<close>. \<open>None\<close> is a value that is no array.\<close>

definition catalog_value :: "thrown + sdk_catalog option \<Rightarrow> thrown + sdk_catalog" where
  "catalog_value q = bind_js q (\<lambda>v. case v of
     Some cat \<Rightarrow> if modelEntries cat = [] then Inl (Adapter 502 ''empty_model_catalog''
                     ''Cursor returned no available models for this account.'') else Inr cat
   | None \<Rightarrow> Inl (Adapter 502 ''empty_model_catalog'' ''Cursor returned no available models for this account.''))"

definition catalog_settle :: "nat \<Rightarrow> thrown + sdk_catalog option \<Rightarrow> runtime \<Rightarrow> runtime" where
  "catalog_settle r q c =
     (let v = catalog_value q; c' = (if isl v then drop_item r c else c)
      in upd_item r (\<lambda>it. it\<lparr>ci_result := Some v\<rparr>) c')"

definition catalog_finally :: "nat \<Rightarrow> runtime \<Rightarrow> runtime" where
  "catalog_finally r = upd_item r (\<lambda>it. it\<lparr>ci_pending := False\<rparr>)"

definition abort_item :: "thrown \<Rightarrow> citem \<Rightarrow> citem" where
  "abort_item e it = (case ci_abort it of None \<Rightarrow> it\<lparr>ci_abort := Some e\<rparr> | Some _ \<Rightarrow> it)"

text \<open>The caller leaves: its promise settled, or its signal was aborted with the given reason.\<close>

definition catalog_leave :: "thrown option \<Rightarrow> nat \<Rightarrow> runtime \<Rightarrow> runtime" where
  "catalog_leave aborted r c =
     (let c' = (upd_item r (\<lambda>it. it\<lparr>ci_waiters := ci_waiters it - 1\<rparr>) c)\<lparr>waiting := remove1 r (waiting c)\<rparr>
      in case aborted of
           Some e \<Rightarrow> if ci_pending (items c' ! r) \<and> ci_waiters (items c' ! r) = 0
                      then upd_item r (abort_item e) (drop_item r c') else c'
         | None \<Rightarrow> c')"

text \<open>\<open>stop\<close> aborts every item still in the map.\<close>

definition runtime_stop :: "runtime \<Rightarrow> runtime" where
  "runtime_stop c = (fold (\<lambda>r. upd_item r (abort_item adapter_shutdown)) (map snd (catalogs c)) c)\<lparr>stopping := True\<rparr>"

inductive cache_step :: "int \<Rightarrow> runtime \<Rightarrow> runtime \<Rightarrow> bool" for ttl where
  cs_enter: "cache_step ttl c (snd (catalog_enter ttl aborted now now' key c))"
| cs_settle: "r < length (items c) \<Longrightarrow> ci_result (items c ! r) = None \<Longrightarrow> cache_step ttl c (catalog_settle r q c)"
| cs_finally: "r < length (items c) \<Longrightarrow> ci_result (items c ! r) \<noteq> None \<Longrightarrow> cache_step ttl c (catalog_finally r c)"
| cs_leave: "r \<in> set (waiting c) \<Longrightarrow> aborted \<noteq> None \<or> ci_result (items c ! r) \<noteq> None \<Longrightarrow> cache_step ttl c (catalog_leave aborted r c)"
| cs_stop: "cache_step ttl c (runtime_stop c)"

abbreviation cache_reachable :: "int \<Rightarrow> runtime \<Rightarrow> bool" where
  "cache_reachable ttl \<equiv> (cache_step ttl)\<^sup>*\<^sup>* init_runtime"

subsection \<open>The invariant of the cache\<close>

definition good_item :: "citem \<Rightarrow> bool" where
  "good_item it \<longleftrightarrow> ci_result it = None \<and> ci_pending it
     \<or> (\<exists>cat. ci_result it = Some (Inr cat) \<and> modelEntries cat \<noteq> [])"

definition map_ok :: "runtime \<Rightarrow> bool" where
  "map_ok c \<longleftrightarrow> distinct (map fst (catalogs c)) \<and> length (catalogs c) \<le> 64
     \<and> (\<forall>k r. (k, r) \<in> set (catalogs c) \<longrightarrow> r < length (items c) \<and> ci_key (items c ! r) = k \<and> good_item (items c ! r))"

definition waiters_ok :: "runtime \<Rightarrow> bool" where
  "waiters_ok c \<longleftrightarrow> (\<forall>r. r \<in> set (waiting c) \<longrightarrow> r < length (items c))
     \<and> (\<forall>r < length (items c). ci_waiters (items c ! r) = int (count_list (waiting c) r))"

definition abort_ok :: "runtime \<Rightarrow> bool" where
  "abort_ok c \<longleftrightarrow> stopping c \<or> (\<forall>r < length (items c). ci_abort (items c ! r) \<noteq> None
     \<longrightarrow> r \<notin> set (waiting c) \<and> r \<notin> snd ` set (catalogs c))"

definition cache_inv :: "runtime \<Rightarrow> bool" where
  "cache_inv c \<longleftrightarrow> map_ok c \<and> waiters_ok c \<and> abort_ok c"

lemma upd_item_simps [simp]:
  "length (items (upd_item r f c)) = length (items c)" "catalogs (upd_item r f c) = catalogs c"
  "stopping (upd_item r f c) = stopping c" "waiting (upd_item r f c) = waiting c"
  "s < length (items c) \<Longrightarrow> items (upd_item r f c) ! s = (if s = r then f (items c ! r) else items c ! s)"
  by (simp_all add: upd_item_def nth_list_update)

lemma drop_item_simps [simp]:
  "items (drop_item r c) = items c" "stopping (drop_item r c) = stopping c" "waiting (drop_item r c) = waiting c"
  by (simp_all add: drop_item_def Let_def)

lemma drop_item_subset: "set (catalogs (drop_item r c)) \<subseteq> set (catalogs c)"
  by (simp add: drop_item_def Let_def set_delete_subset)

lemma map_ok_smaller:
  assumes "map_ok c" "set m \<subseteq> set (catalogs c)" "distinct (map fst m)" "length m \<le> 64"
  shows "map_ok (c\<lparr>catalogs := m\<rparr>)"
  using assms by (auto simp: map_ok_def)

lemma map_ok_drop:
  assumes "map_ok c"
  shows "map_ok (drop_item r c)"
proof -
  have "length (AList.delete k (catalogs c)) \<le> 64" for k
    by (rule order_trans [OF length_delete_le]) (use assms in \<open>simp add: map_ok_def\<close>)
  then have "map_ok (c\<lparr>catalogs := AList.delete k (catalogs c)\<rparr>)" for k
    using assms by (intro map_ok_smaller set_delete_subset distinct_keys_delete) (simp_all add: map_ok_def)
  with assms show ?thesis by (simp add: drop_item_def Let_def)
qed

lemma dropped: "map_ok c \<Longrightarrow> (k, r) \<notin> set (catalogs (drop_item r c))"
proof
  assume m: "map_ok c" and e: "(k, r) \<in> set (catalogs (drop_item r c))"
  then have old: "(k, r) \<in> set (catalogs c)" using drop_item_subset by blast
  with m have "ci_key (items c ! r) = k" "map_of (catalogs c) k = Some r" by (simp_all add: map_ok_def)
  with e show False by (auto simp: drop_item_def Let_def AList.delete_eq)
qed

text \<open>An update of an item that keeps what the map needs.\<close>

lemma map_ok_upd:
  assumes "map_ok c" "\<And>it. ci_key (f it) = ci_key it" "r \<in> snd ` set (catalogs c) \<Longrightarrow> good_item (f (items c ! r))"
  shows "map_ok (upd_item r f c)"
  using assms by (fastforce simp: map_ok_def image_iff)

lemma good_item_keeps [simp]:
  "good_item (it\<lparr>ci_waiters := w\<rparr>) = good_item it" "good_item (abort_item e it) = good_item it"
  "ci_key (abort_item e it) = ci_key it" "ci_waiters (abort_item e it) = ci_waiters it" "ci_abort (abort_item e it) \<noteq> None"
  by (simp_all add: good_item_def abort_item_def split: option.splits)

lemma map_ok_good: "map_ok c \<Longrightarrow> r \<in> snd ` set (catalogs c) \<Longrightarrow> good_item (items c ! r)"
  by (auto simp: map_ok_def)

lemma map_ok_waiting [simp]: "map_ok (c\<lparr>waiting := w\<rparr>) = map_ok c"
  by (simp add: map_ok_def)

lemma evicted_ok:
  assumes "length m \<le> 64" "distinct (map fst m)"
  shows "length (evicted m) < 64" "set (evicted m) \<subseteq> set m" "distinct (map fst (evicted m))"
proof -
  show "length (evicted m) < 64"
  proof (cases "64 \<le> length m")
    case True
    then have "hd m \<in> set m" by (intro hd_in_set) auto
    then have "length (AList.delete (fst (hd m)) m) < length m" by (intro length_delete_less) auto
    with True assms show ?thesis by (simp add: evicted_def)
  qed (simp add: evicted_def)
qed (use assms in \<open>simp_all add: evicted_def set_delete_subset distinct_keys_delete\<close>)

lemma map_ok_new:
  assumes "map_ok c"
  shows "map_ok (snd (catalog_new ttl now key c))"
proof -
  let ?m = "evicted (catalogs c)"
  have ev: "length ?m < 64" "set ?m \<subseteq> set (catalogs c)" "distinct (map fst ?m)"
    using evicted_ok assms by (simp_all add: map_ok_def)
  have "length (AList.update key (length (items c)) ?m) \<le> 64" using ev by (simp add: length_update)
  moreover have "distinct (map fst (AList.update key (length (items c)) ?m))"
    using ev by (simp add: distinct_keys_update)
  moreover have "r < Suc (length (items c)) \<and> ci_key ((items c @ [it]) ! r) = k \<and> good_item ((items c @ [it]) ! r)"
    if "(k, r) \<in> set (AList.update key (length (items c)) ?m)" "ci_key it = key" "good_item it" for k r it
    using set_update_cases [OF that(1)] ev that assms by (auto simp: map_ok_def nth_append)
  moreover have "ci_key (new_item ttl now key) = key" "good_item (new_item ttl now key)"
    by (simp_all add: new_item_def good_item_def)
  ultimately show ?thesis unfolding map_ok_def catalog_new_def Let_def by simp
qed

lemma map_ok_find: "map_ok c \<Longrightarrow> map_ok (snd (catalog_find ttl now now' key c))"
  using map_ok_new by (auto simp: catalog_find_def split: option.splits)

text \<open>What \<open>catalog_find\<close> does to the other parts of the state.\<close>

lemma catalog_find_cases:
  "(\<exists>r. catalog_find ttl now now' key c = (r, c) \<and> (key, r) \<in> set (catalogs c))
   \<or> catalog_find ttl now now' key c = catalog_new ttl now' key c"
  by (auto simp: catalog_find_def split: option.splits dest!: map_of_SomeD)

lemma cache_inv_new:
  assumes "cache_inv c"
  shows "cache_inv (snd (catalog_new ttl now key c))"
proof -
  have m: "map_ok c" and w: "waiters_ok c" and a: "abort_ok c" using assms by (simp_all add: cache_inv_def)
  have ev: "set (evicted (catalogs c)) \<subseteq> set (catalogs c)" using m evicted_ok by (simp add: map_ok_def)
  have "length (items c) \<notin> set (waiting c)" using w by (auto simp: waiters_ok_def)
  then have "count_list (waiting c) (length (items c)) = 0" by (simp add: count_list_0_iff)
  then have "waiters_ok (snd (catalog_new ttl now key c))"
    using w by (auto simp: waiters_ok_def catalog_new_def Let_def nth_append new_item_def less_Suc_eq)
  moreover have "abort_ok (snd (catalog_new ttl now key c))"
    using a ev by (auto simp: abort_ok_def catalog_new_def Let_def nth_append new_item_def less_Suc_eq
        split: if_splits dest!: set_update_cases)
  ultimately show ?thesis using map_ok_new [OF m] by (simp add: cache_inv_def)
qed

lemma cache_inv_join:
  assumes "cache_inv c" "(k, r) \<in> set (catalogs c)"
  shows "cache_inv ((upd_item r (\<lambda>it. it\<lparr>ci_waiters := ci_waiters it + 1\<rparr>) c)\<lparr>waiting := r # waiting c\<rparr>)"
proof -
  have m: "map_ok c" and w: "waiters_ok c" and a: "abort_ok c" using assms by (simp_all add: cache_inv_def)
  have "map_ok (upd_item r (\<lambda>it. it\<lparr>ci_waiters := ci_waiters it + 1\<rparr>) c)"
    using m map_ok_good [OF m] by (intro map_ok_upd) auto
  moreover have "r < length (items c)" using m assms(2) by (simp add: map_ok_def)
  moreover have "r \<in> snd ` set (catalogs c)" using assms(2) by force
  ultimately show ?thesis using w a by (auto simp: cache_inv_def waiters_ok_def abort_ok_def)
qed

lemma catalog_new_in: "(key, fst (catalog_new ttl now key c)) \<in> set (catalogs (snd (catalog_new ttl now key c)))"
proof -
  have "map_of (AList.update key r m) key = Some r" for r m by simp
  then show ?thesis unfolding catalog_new_def Let_def by (simp add: map_of_SomeD)
qed

lemma cursor_cache_inv_enter:
  assumes "cache_inv c"
  shows "cache_inv (snd (catalog_enter ttl aborted now now' key c))"
proof (cases aborted)
  case None
  obtain r c' where f: "catalog_find ttl now now' key c = (r, c')" by fastforce
  from catalog_find_cases [of ttl now now' key c] have "cache_inv c' \<and> (key, r) \<in> set (catalogs c')"
  proof
    assume "\<exists>r. catalog_find ttl now now' key c = (r, c) \<and> (key, r) \<in> set (catalogs c)"
    then show ?thesis using f assms by auto
  next
    assume "catalog_find ttl now now' key c = catalog_new ttl now' key c"
    with f have "r = fst (catalog_new ttl now' key c)" "c' = snd (catalog_new ttl now' key c)" by simp_all
    then show ?thesis using cache_inv_new [OF assms] catalog_new_in by metis
  qed
  then show ?thesis using cache_inv_join [of c' key r] by (simp add: catalog_enter_def None f)
qed (simp add: catalog_enter_def assms)

lemma cache_inv_drop:
  assumes "cache_inv c"
  shows "cache_inv (drop_item r c)"
proof -
  have "snd ` set (catalogs (drop_item r c)) \<subseteq> snd ` set (catalogs c)" by (intro image_mono drop_item_subset)
  then show ?thesis
    using assms map_ok_drop by (simp add: cache_inv_def waiters_ok_def abort_ok_def) blast
qed

lemma cache_inv_upd:
  assumes "cache_inv c" "r < length (items c)" "\<And>it. ci_key (f it) = ci_key it" "\<And>it. ci_waiters (f it) = ci_waiters it"
    and "r \<in> snd ` set (catalogs c) \<Longrightarrow> good_item (f (items c ! r))"
    and "stopping c \<or> ci_abort (f (items c ! r)) = ci_abort (items c ! r)
           \<or> r \<notin> set (waiting c) \<and> r \<notin> snd ` set (catalogs c)"
  shows "cache_inv (upd_item r f c)"
  using assms map_ok_upd [of c f r]
  by (auto simp: cache_inv_def waiters_ok_def abort_ok_def)

lemma catalog_value_good: "catalog_value q = Inr cat \<Longrightarrow> modelEntries cat \<noteq> []"
  by (auto simp: catalog_value_def split: option.splits if_splits)

lemma cursor_cache_inv_settle:
  assumes "cache_inv c" "r < length (items c)"
  shows "cache_inv (catalog_settle r q c)"
proof (cases "catalog_value q")
  case (Inl e)
  have "r \<notin> snd ` set (catalogs (drop_item r c))" using dropped assms by (force simp: cache_inv_def)
  then show ?thesis
    using assms Inl by (auto simp: catalog_settle_def Let_def intro!: cache_inv_upd cache_inv_drop)
next
  case (Inr cat)
  then show ?thesis
    using assms catalog_value_good [OF Inr]
    by (auto simp: catalog_settle_def Let_def good_item_def intro!: cache_inv_upd)
qed

lemma cursor_cache_inv_finally:
  assumes "cache_inv c" "r < length (items c)" "ci_result (items c ! r) \<noteq> None"
  shows "cache_inv (catalog_finally r c)"
proof -
  have "r \<in> snd ` set (catalogs c) \<Longrightarrow> good_item (items c ! r)" using assms(1) map_ok_good by (simp add: cache_inv_def)
  then show ?thesis
    unfolding catalog_finally_def using assms by (intro cache_inv_upd) (auto simp: good_item_def)
qed

lemma count_list_remove1: "r \<in> set xs \<Longrightarrow> count_list (remove1 r xs) s = (if s = r then count_list xs s - 1 else count_list xs s)"
  by (induction xs) (auto simp: count_list_0_iff Suc_diff_le dest: count_list_0_iff [THEN iffD1])

lemma cache_inv_left:
  assumes "cache_inv c" "r \<in> set (waiting c)"
  shows "cache_inv ((upd_item r (\<lambda>it. it\<lparr>ci_waiters := ci_waiters it - 1\<rparr>) c)\<lparr>waiting := remove1 r (waiting c)\<rparr>)"
proof -
  have m: "map_ok c" and w: "waiters_ok c" and a: "abort_ok c" using assms by (simp_all add: cache_inv_def)
  have "map_ok (upd_item r (\<lambda>it. it\<lparr>ci_waiters := ci_waiters it - 1\<rparr>) c)"
    using m map_ok_good [OF m] by (intro map_ok_upd) auto
  moreover have "0 < count_list (waiting c) r" using assms(2) by (metis count_list_0_iff gr0I)
  ultimately show ?thesis
    using w a assms(2) set_remove1_subset [of r "waiting c"]
    by (auto simp: cache_inv_def waiters_ok_def abort_ok_def count_list_remove1 of_nat_diff)
qed

lemma no_waiter: "waiters_ok c \<Longrightarrow> r < length (items c) \<Longrightarrow> ci_waiters (items c ! r) = 0 \<Longrightarrow> r \<notin> set (waiting c)"
  by (auto simp: waiters_ok_def count_list_0_iff)

lemma cache_inv_leave:
  assumes "cache_inv c" "r \<in> set (waiting c)"
  shows "cache_inv (catalog_leave aborted r c)"
proof -
  let ?c = "(upd_item r (\<lambda>it. it\<lparr>ci_waiters := ci_waiters it - 1\<rparr>) c)\<lparr>waiting := remove1 r (waiting c)\<rparr>"
  have inv: "cache_inv ?c" using assms by (rule cache_inv_left)
  have r: "r < length (items c)" using assms by (auto simp: cache_inv_def waiters_ok_def)
  have "cache_inv (upd_item r (abort_item e) (drop_item r ?c))" if "ci_waiters (items ?c ! r) = 0" for e
  proof (rule cache_inv_upd [OF cache_inv_drop [OF inv]])
    have out: "r \<notin> snd ` set (catalogs (drop_item r ?c))" using dropped inv by (force simp: cache_inv_def)
    then show "good_item (abort_item e (items (drop_item r ?c) ! r))" if "r \<in> snd ` set (catalogs (drop_item r ?c))"
      using that by blast
    have "waiters_ok ?c" "r < length (items ?c)" using inv r by (simp_all add: cache_inv_def)
    then have "r \<notin> set (waiting ?c)" using that by (rule no_waiter)
    with out show "stopping (drop_item r ?c) \<or> ci_abort (abort_item e (items (drop_item r ?c) ! r)) = ci_abort (items (drop_item r ?c) ! r)
        \<or> r \<notin> set (waiting (drop_item r ?c)) \<and> r \<notin> snd ` set (catalogs (drop_item r ?c))" by simp
  qed (use r in simp_all)
  then show ?thesis using inv by (auto simp: catalog_leave_def Let_def split: option.splits)
qed

lemma cache_inv_stop_fold:
  assumes "cache_inv c" "stopping c" "\<forall>r \<in> set rs. r < length (items c)"
  shows "cache_inv (fold (\<lambda>r. upd_item r (abort_item e)) rs c)"
  using assms
proof (induction rs arbitrary: c)
  case (Cons r rs)
  have "cache_inv (upd_item r (abort_item e) c)"
    using Cons.prems map_ok_good by (intro cache_inv_upd) (auto simp: cache_inv_def)
  with Cons show ?case by simp
qed simp

lemma fold_upd_stopping: "(fold (\<lambda>r. upd_item r f) rs c)\<lparr>stopping := b\<rparr> = fold (\<lambda>r. upd_item r f) rs (c\<lparr>stopping := b\<rparr>)"
proof (induction rs arbitrary: c)
  case (Cons r rs)
  have "(upd_item r f c)\<lparr>stopping := b\<rparr> = upd_item r f (c\<lparr>stopping := b\<rparr>)" by (cases c) (simp add: upd_item_def)
  with Cons show ?case by simp
qed simp

lemma cursor_cache_inv_stop:
  assumes "cache_inv c"
  shows "cache_inv (runtime_stop c)"
proof -
  have "cache_inv (c\<lparr>stopping := True\<rparr>)" using assms by (simp add: cache_inv_def map_ok_def waiters_ok_def abort_ok_def)
  then show ?thesis
    unfolding runtime_stop_def fold_upd_stopping
    using assms by (intro cache_inv_stop_fold) (auto simp: cache_inv_def map_ok_def)
qed

lemma cursor_cache_inv_step: "cache_step ttl c c' \<Longrightarrow> cache_inv c \<Longrightarrow> cache_inv c'"
  by (induction rule: cache_step.induct)
    (simp_all add: cursor_cache_inv_enter cursor_cache_inv_settle cursor_cache_inv_finally cache_inv_leave cursor_cache_inv_stop)

lemma cache_inv_init: "cache_inv init_runtime"
  by (simp add: cache_inv_def map_ok_def waiters_ok_def abort_ok_def init_runtime_def)

lemma cursor_cache_inv_reachable: "cache_reachable ttl c \<Longrightarrow> cache_inv c"
  by (induction rule: rtranclp_induct) (auto intro: cursor_cache_inv_step cache_inv_init)


definition witness_cache :: runtime where
  "witness_cache = catalog_leave (Some adapter_shutdown) 0
     (snd (catalog_enter 5 None 1 1 ''k'' (snd (catalog_enter 5 None 1 1 ''k'' init_runtime))))"


end
