(* ===== verification/Cursor_Worker.thy ===== *)
theory Cursor_Worker
  imports Cursor_Runtime "HOL-Library.Sublist"
begin

text \<open>
  A generation of cursor2api: \<open>generateRequest\<close>, \<open>runWorker\<close> and \<open>generateWithSDK\<close> of
  \<^verbatim>\<open>runtime.mjs\<close>, \<open>abortable\<close> of \<^verbatim>\<open>abort.mjs\<close> and the worker of \<^verbatim>\<open>sdk-worker.mjs\<close>. The two
  threads exchange messages through two queues; the worker waits for the acknowledgement of
  every piece of text it sends.
\<close>

section \<open>Racing a promise with a signal\<close>

datatype 'v race = Settles "thrown + 'v" | Aborts thrown

text \<open>The events before the first one do not matter after it: a promise settles once.\<close>

definition race_value :: "'v race \<Rightarrow> thrown + 'v" where
  "race_value e = (case e of Settles v \<Rightarrow> v | Aborts r \<Rightarrow> Inl r)"

definition abortable :: "thrown option \<Rightarrow> 'v race list \<Rightarrow> (thrown + 'v) option" where
  "abortable aborted events = (case aborted of
     Some r \<Rightarrow> Some (Inl r)
   | None \<Rightarrow> (case events of [] \<Rightarrow> None | e # _ \<Rightarrow> Some (race_value e)))"

section \<open>Preparing a generation\<close>

definition throw_if_aborted :: "thrown option \<Rightarrow> thrown + unit" where
  "throw_if_aborted aborted = (case aborted of None \<Rightarrow> Inr () | Some r \<Rightarrow> Inl r)"

text \<open>\<open>generateRequest\<close> from the arrival of the catalogue to the start of the run.\<close>

definition prepare_generation :: "thrown option \<Rightarrow> bool \<Rightarrow> sdk_catalog \<Rightarrow> cursor_request \<Rightarrow> thrown + selection" where
  "prepare_generation aborted stop catalog request =
     bind_js (throw_if_aborted aborted) (\<lambda>_.
     bind_js (guard_js stop adapter_shutdown) (\<lambda>_.
       selectModel catalog (cr_model request) (cr_reasoningEffort request)))"

text \<open>What \<open>runWorker\<close> checks before it creates a worker.\<close>

definition worker_admitted :: "thrown option \<Rightarrow> bool \<Rightarrow> thrown + unit" where
  "worker_admitted aborted stop =
     bind_js (throw_if_aborted aborted) (\<lambda>_. guard_js stop adapter_shutdown)"

section \<open>The worker and its acknowledgements\<close>

datatype kind = Text | Thinking

datatype 'v message = Delta kind nat string | Result 'v | Error int string string

text \<open>
  Both threads of one \<open>runWorker\<close>: the messages on their way up and the acknowledgements on
  their way down, the deltas whose callback is running, the worker's \<open>acknowledgements\<close> and
  \<open>nextID\<close>, the promise, the signal, and two histories: what was sent and what was passed to
  the callbacks.
\<close>

record 'v link =
  up :: "'v message list"
  running :: "nat list"
  down :: "nat list"
  acknowledgements :: "nat list"
  nextID :: nat
  settled :: "(thrown + 'v) option"
  l_aborted :: "thrown option"
  sent :: "(kind \<times> string) list"
  called :: "(kind \<times> string) list"

definition init_link :: "'v link" where
  "init_link = \<lparr>up = [], running = [], down = [], acknowledgements = [], nextID = 0, settled = None,
     l_aborted = None, sent = [], called = []\<rparr>"

definition settle_link :: "thrown + 'v \<Rightarrow> 'v link \<Rightarrow> 'v link" where
  "settle_link v s = (case settled s of None \<Rightarrow> s\<lparr>settled := Some v\<rparr> | Some _ \<Rightarrow> s)"

text \<open>\<open>delta\<close> of the worker, and the end of its script.\<close>

definition delta :: "kind \<Rightarrow> string \<Rightarrow> 'v link \<Rightarrow> 'v link" where
  "delta k v s = s\<lparr>nextID := Suc (nextID s), acknowledgements := acknowledgements s @ [nextID s],
     up := up s @ [Delta k (nextID s) v], sent := sent s @ [(k, v)]\<rparr>"

definition worker_end :: "thrown + 'v \<Rightarrow> 'v link \<Rightarrow> 'v link" where
  "worker_end r s = s\<lparr>up := up s @ [case r of
     Inr v \<Rightarrow> Result v
   | Inl e \<Rightarrow> (case publicError e of Adapter st c m \<Rightarrow> Error st c m
               | Foreign f \<Rightarrow> Error 502 ''cursor_upstream_error'' (err_message f))]\<rparr>"

text \<open>The worker's message listener: an acknowledgement resolves its delta.\<close>

definition worker_ack :: "nat \<Rightarrow> 'v link \<Rightarrow> 'v link" where
  "worker_ack i s = s\<lparr>acknowledgements := removeAll i (acknowledgements s)\<rparr>"

text \<open>The parent's message listener, up to the await of the callback.\<close>

definition parent_message :: "'v message \<Rightarrow> 'v link \<Rightarrow> 'v link" where
  "parent_message m s = (case l_aborted s of
     Some r \<Rightarrow> settle_link (Inl r) s
   | None \<Rightarrow> (case m of
       Result v \<Rightarrow> settle_link (Inr v) s
     | Error st c t \<Rightarrow> settle_link (Inl (Adapter st c t)) s
     | Delta k i v \<Rightarrow> s\<lparr>running := running s @ [i], called := called s @ [(k, v)]\<rparr>))"

text \<open>The callback ends: the delta is acknowledged, or the promise is rejected.\<close>

definition callback_end :: "nat \<Rightarrow> thrown + unit \<Rightarrow> 'v link \<Rightarrow> 'v link" where
  "callback_end i r s = (case r of
     Inr _ \<Rightarrow> s\<lparr>running := remove1 i (running s), down := down s @ [i]\<rparr>
   | Inl e \<Rightarrow> settle_link (Inl e) (s\<lparr>running := remove1 i (running s)\<rparr>))"

definition worker_exited :: thrown where
  "worker_exited = Adapter 502 ''cursor_worker_exited'' ''Cursor SDK worker exited without a result.''"

inductive link_step :: "'v link \<Rightarrow> 'v link \<Rightarrow> bool" where
  ls_delta: "link_step s (delta k v s)"
| ls_end: "link_step s (worker_end r s)"
| ls_up: "up s = m # ms \<Longrightarrow> link_step s (parent_message m (s\<lparr>up := ms\<rparr>))"
| ls_called: "i \<in> set (running s) \<Longrightarrow> link_step s (callback_end i r s)"
| ls_down: "down s = i # is \<Longrightarrow> link_step s (worker_ack i (s\<lparr>down := is\<rparr>))"
| ls_exit: "link_step s (settle_link (Inl worker_exited) s)"
| ls_error: "link_step s (settle_link (Inl e) s)"
| ls_abort: "l_aborted s = None \<Longrightarrow> link_step s (settle_link (Inl r) (s\<lparr>l_aborted := Some r\<rparr>))"

fun delta_ids :: "'v message list \<Rightarrow> nat list" where
  "delta_ids [] = []"
| "delta_ids (Delta k i v # ms) = i # delta_ids ms"
| "delta_ids (_ # ms) = delta_ids ms"

fun delta_texts :: "'v message list \<Rightarrow> (kind \<times> string) list" where
  "delta_texts [] = []"
| "delta_texts (Delta k i v # ms) = (k, v) # delta_texts ms"
| "delta_texts (_ # ms) = delta_texts ms"

lemma delta_append [simp]:
  "delta_ids (ms @ ns) = delta_ids ms @ delta_ids ns" "delta_texts (ms @ ns) = delta_texts ms @ delta_texts ns"
  by (induction ms rule: delta_ids.induct) simp_all

text \<open>The identifiers on their way: up, in a callback, or down.\<close>

definition in_flight :: "'v link \<Rightarrow> nat list" where
  "in_flight s = delta_ids (up s) @ running s @ down s"

definition link_inv :: "'v link \<Rightarrow> bool" where
  "link_inv s \<longleftrightarrow> distinct (acknowledgements s) \<and> distinct (in_flight s)
     \<and> set (in_flight s) \<subseteq> set (acknowledgements s)
     \<and> (\<forall>i \<in> set (acknowledgements s). i < nextID s)
     \<and> (settled s = None \<longrightarrow> set (acknowledgements s) \<subseteq> set (in_flight s))
     \<and> (l_aborted s \<noteq> None \<longrightarrow> settled s \<noteq> None)
     \<and> (l_aborted s = None \<longrightarrow> sent s = called s @ delta_texts (up s)) \<and> prefix (called s) (sent s)"

lemma settle_link_simps [simp]:
  "up (settle_link v s) = up s" "running (settle_link v s) = running s" "down (settle_link v s) = down s"
  "acknowledgements (settle_link v s) = acknowledgements s" "nextID (settle_link v s) = nextID s"
  "l_aborted (settle_link v s) = l_aborted s" "sent (settle_link v s) = sent s" "called (settle_link v s) = called s"
  "settled (settle_link v s) \<noteq> None" "in_flight (settle_link v s) = in_flight s"
  by (simp_all add: settle_link_def in_flight_def split: option.splits)

lemma link_inv_settled:
  assumes "link_inv s"
  shows "link_inv (settle_link v s)"
  using assms by (simp add: link_inv_def)

lemma link_inv_delta:
  assumes "link_inv s"
  shows "link_inv (delta k v s)"
proof -
  have "nextID s \<notin> set (acknowledgements s)" using assms by (auto simp: link_inv_def)
  moreover have "nextID s \<notin> set (in_flight s)" using assms calculation by (auto simp: link_inv_def)
  ultimately show ?thesis
    using assms by (auto simp: link_inv_def delta_def in_flight_def less_Suc_eq prefix_def)
qed

lemma link_inv_end:
  assumes "link_inv s"
  shows "link_inv (worker_end r s)"
proof -
  obtain m where m: "worker_end r s = s\<lparr>up := up s @ [m]\<rparr>" "delta_ids [m] = []" "delta_texts [m] = []"
    by (cases r) (auto simp: worker_end_def split: thrown.splits)
  show ?thesis using assms unfolding m(1) by (simp add: link_inv_def in_flight_def m(2,3))
qed

lemma link_inv_up:
  assumes "link_inv s" "up s = m # ms"
  shows "link_inv (parent_message m (s\<lparr>up := ms\<rparr>))"
proof (cases "l_aborted s")
  case None
  show ?thesis
  proof (cases m)
    case (Delta k i v)
    then show ?thesis
      using assms None by (auto simp: link_inv_def parent_message_def in_flight_def prefix_def)
  qed (use assms None in \<open>auto simp: parent_message_def link_inv_def in_flight_def intro!: link_inv_settled\<close>)
next
  case (Some r)
  then have "link_inv (s\<lparr>up := ms\<rparr>)"
    using assms by (cases m) (auto simp: link_inv_def in_flight_def)
  then show ?thesis using Some by (simp add: parent_message_def link_inv_settled)
qed

lemma link_inv_called:
  assumes "link_inv s" "i \<in> set (running s)"
  shows "link_inv (callback_end i r s)"
proof (cases r)
  case (Inl e)
  let ?s = "settle_link (Inl e) (s\<lparr>running := remove1 i (running s)\<rparr>)"
  have "set (in_flight ?s) \<subseteq> set (in_flight s)" "distinct (in_flight ?s)"
    using assms set_remove1_subset [of i "running s"] by (auto simp: link_inv_def in_flight_def)
  then show ?thesis using assms Inl by (auto simp: link_inv_def callback_end_def)
next
  case (Inr u)
  then show ?thesis
    using assms by (auto simp: link_inv_def callback_end_def in_flight_def)
qed

lemma link_inv_down:
  assumes "link_inv s" "down s = i # is"
  shows "link_inv (worker_ack i (s\<lparr>down := is\<rparr>))"
  using assms by (auto simp: link_inv_def worker_ack_def in_flight_def distinct_removeAll)

lemma link_inv_abort:
  assumes "link_inv s"
  shows "link_inv (settle_link (Inl r) (s\<lparr>l_aborted := Some r\<rparr>))"
  using assms by (auto simp: link_inv_def in_flight_def)

lemma link_inv_step: "link_step s s' \<Longrightarrow> link_inv s \<Longrightarrow> link_inv s'"
  by (induction rule: link_step.induct)
    (auto intro: link_inv_delta link_inv_end link_inv_up link_inv_called link_inv_down link_inv_settled link_inv_abort)

lemma link_inv_init: "link_inv init_link"
  by (simp add: link_inv_def init_link_def in_flight_def)

lemma link_inv_reachable: "link_step\<^sup>*\<^sup>* init_link s \<Longrightarrow> link_inv s"
  by (induction rule: rtranclp_induct) (blast intro: link_inv_step link_inv_init)+

text \<open>
  C13: between the worker and the adapter, the callbacks receive the pieces of text in the
  order in which the SDK produced them and without a gap, no two pieces wait under one
  identifier, and while the request is not settled every piece the worker waits for is still
  on its way, in a callback or acknowledged on the way back: an acknowledgement is never
  lost, so the worker cannot hang.
\<close>

theorem deltas_in_order_and_acknowledged:
  assumes "link_step\<^sup>*\<^sup>* init_link s"
  shows "prefix (called s) (sent s) \<and> distinct (acknowledgements s)
     \<and> (settled s = None \<longrightarrow> sent s = called s @ delta_texts (up s)
          \<and> set (acknowledgements s) = set (delta_ids (up s)) \<union> set (running s) \<union> set (down s))"
  using link_inv_reachable [OF assms] by (auto simp: link_inv_def in_flight_def)

definition witness_link :: "nat link" where
  "witness_link = parent_message (Delta Text 0 ''a'') ((delta Text ''b'' (delta Text ''a'' init_link))\<lparr>up := [Delta Text 1 ''b'']\<rparr>)"

theorem deltas_in_order_and_acknowledged_witness:
  "prefix (called witness_link) (sent witness_link) \<and> settled witness_link = None \<and> running witness_link = [0]
   \<and> called witness_link = [(Text, ''a'')]"
proof -
  let ?s = "delta Text ''b'' (delta Text ''a'' init_link) :: nat link"
  have "link_step init_link (delta Text ''a'' init_link :: nat link)" "link_step (delta Text ''a'' init_link) ?s"
    by (rule ls_delta)+
  moreover have "link_step ?s witness_link"
    unfolding witness_link_def by (rule ls_up) (simp add: delta_def init_link_def)
  ultimately have "link_step\<^sup>*\<^sup>* init_link witness_link" by (blast intro: rtranclp.intros)
  from deltas_in_order_and_acknowledged [OF this] show ?thesis
    by (simp add: witness_link_def delta_def init_link_def parent_message_def)
qed

section \<open>A generation through the SDK\<close>

record cursor_reply =
  rp_content :: string
  rp_reasoning :: string
  rp_streamed :: bool
  rp_usage :: "usage_report option"
  rp_requestID :: "json option"

text \<open>The variables of one \<open>generateWithSDK\<close>, with the callbacks made as a history.\<close>

record generation =
  g_streamed :: string
  g_reasoning :: string
  g_aborted :: "thrown option"
  g_called :: "(kind \<times> string) list"
  g_result :: "(thrown + cursor_reply) option"

definition init_generation :: "thrown option \<Rightarrow> generation" where
  "init_generation aborted = \<lparr>g_streamed = '''', g_reasoning = '''', g_aborted = aborted, g_called = [], g_result = None\<rparr>"

text \<open>
  What the SDK delivers: the agent is created; \<open>onDelta\<close> is called with an update; the run's
  stream yields an event; \<open>run.wait()\<close> resolves; or one of its promises rejects. The signal
  may be aborted in between.
\<close>

datatype sdk_event = Created | Update string string | Yielded string | Waited json | Rejected thrown | Signal thrown

definition return_once :: "thrown + cursor_reply \<Rightarrow> generation \<Rightarrow> generation" where
  "return_once v g = (case g_result g of None \<Rightarrow> g\<lparr>g_result := Some v\<rparr> | Some _ \<Rightarrow> g)"

definition unless_aborted :: "(generation \<Rightarrow> generation) \<Rightarrow> generation \<Rightarrow> generation" where
  "unless_aborted f g = (case g_aborted g of Some r \<Rightarrow> return_once (Inl r) g | None \<Rightarrow> f g)"

text \<open>\<open>onDelta\<close>: what it throws goes to the SDK.\<close>

definition on_delta :: "string \<Rightarrow> string \<Rightarrow> generation \<Rightarrow> generation" where
  "on_delta type text g =
     (if g_aborted g \<noteq> None then g
      else if type = ''text-delta'' then g\<lparr>g_streamed := g_streamed g @ text, g_called := g_called g @ [(Text, text)]\<rparr>
      else if type = ''thinking-delta'' then g\<lparr>g_reasoning := g_reasoning g @ text, g_called := g_called g @ [(Thinking, text)]\<rparr>
      else g)"

definition unexpected_tool :: thrown where
  "unexpected_tool = Adapter 502 ''unexpected_cursor_tool'' ''Cursor attempted a tool call despite the disabled toolset.''"

definition run_error :: "json \<Rightarrow> thrown" where
  "run_error result = Foreign \<lparr>err_name = ''Error'', err_message = ''Cursor run did not finish.'',
     err_code = str_of (ogetp (getp result ''error'') ''code''), err_status = None\<rparr>"

definition final_reply :: "json \<Rightarrow> generation \<Rightarrow> thrown + cursor_reply" where
  "final_reply result g =
     bind_js (guard_js (getp result ''status'' \<noteq> Some (JStr ''finished'')) (run_error result)) (\<lambda>_.
     bind_js (case str_of (getp result ''result'') of
         None \<Rightarrow> Inl (Adapter 502 ''empty_cursor_response'' ''Cursor finished without a text answer.'')
       | Some t \<Rightarrow> if trim t = [] then Inl (Adapter 502 ''empty_cursor_response'' ''Cursor finished without a text answer.'')
                   else Inr t) (\<lambda>content.
     bind_js (guard_js (g_streamed g \<noteq> [] \<and> g_streamed g \<noteq> content)
       (Adapter 502 ''inconsistent_cursor_stream'' ''Cursor's final answer differs from its streamed answer.'')) (\<lambda>_.
     bind_js (usageFromSDK (getp result ''usage'')) (\<lambda>usage.
       Inr \<lparr>rp_content = content, rp_reasoning = g_reasoning g, rp_streamed = (g_streamed g \<noteq> []),
            rp_usage = usage, rp_requestID = getp result ''requestId''\<rparr>))))"

fun sdk_step :: "sdk_event \<Rightarrow> generation \<Rightarrow> generation" where
  "sdk_step Created g = unless_aborted (\<lambda>g. g) g"
| "sdk_step (Update type text) g = on_delta type text g"
| "sdk_step (Yielded type) g =
     unless_aborted (\<lambda>g. if type = ''tool_call'' then return_once (Inl unexpected_tool) g else g) g"
| "sdk_step (Waited result) g = unless_aborted (\<lambda>g. return_once (final_reply result g) g) g"
| "sdk_step (Rejected e) g = return_once (Inl e) g"
| "sdk_step (Signal r) g = (if g_aborted g = None then g\<lparr>g_aborted := Some r\<rparr> else g)"

definition generateWithSDK :: "thrown option \<Rightarrow> sdk_event list \<Rightarrow> generation" where
  "generateWithSDK aborted events = fold sdk_step events (init_generation aborted)"

definition spoken :: "kind \<Rightarrow> (kind \<times> string) list \<Rightarrow> string" where
  "spoken k cs = concat (map snd (filter (\<lambda>c. fst c = k) cs))"

definition gen_inv :: "generation \<Rightarrow> bool" where
  "gen_inv g \<longleftrightarrow> g_streamed g = spoken Text (g_called g) \<and> g_reasoning g = spoken Thinking (g_called g)"

lemma gen_inv_step: "gen_inv g \<Longrightarrow> gen_inv (sdk_step e g)"
  by (cases e)
    (auto simp: gen_inv_def unless_aborted_def return_once_def on_delta_def spoken_def split: option.splits)

lemma gen_inv_run: "gen_inv (generateWithSDK aborted es)"
proof -
  have "gen_inv g \<Longrightarrow> gen_inv (fold sdk_step es g)" for g
    by (induction es arbitrary: g) (auto intro: gen_inv_step)
  then show ?thesis by (simp add: generateWithSDK_def gen_inv_def init_generation_def spoken_def)
qed

lemma result_kept: "g_result g \<noteq> None \<Longrightarrow> g_result (sdk_step e g) = g_result g"
  by (cases e) (auto simp: unless_aborted_def return_once_def on_delta_def split: option.splits)

lemma result_kept_run: "g_result g \<noteq> None \<Longrightarrow> g_result (fold sdk_step es g) = g_result g"
  by (induction es arbitrary: g) (auto simp: result_kept)

lemma return_once_Inr:
  "g_result (return_once v g) = Some (Inr r) \<Longrightarrow> g_result g = None \<Longrightarrow> v = Inr r"
  by (auto simp: return_once_def)

text \<open>A reply is returned by the event with which the run ends, on a signal that is not aborted.\<close>

lemma reply_from_wait:
  assumes "g_result (sdk_step e g) = Some (Inr r)" "g_result g = None"
  shows "\<exists>result. e = Waited result \<and> g_aborted g = None \<and> final_reply result g = Inr r"
  using assms by (cases e) (auto simp: unless_aborted_def return_once_def on_delta_def split: option.splits if_splits)

lemma first_reply:
  assumes "g_result (fold sdk_step es g) = Some (Inr r)" "g_result g = None"
  shows "\<exists>pre result post. es = pre @ Waited result # post \<and> final_reply result (fold sdk_step pre g) = Inr r
     \<and> g_aborted (fold sdk_step pre g) = None"
  using assms
proof (induction es arbitrary: g)
  case (Cons e es)
  show ?case
  proof (cases "g_result (sdk_step e g)")
    case None
    with Cons.prems Cons.IH [of "sdk_step e g"] obtain pre result post where
      "es = pre @ Waited result # post" "final_reply result (fold sdk_step pre (sdk_step e g)) = Inr r"
      "g_aborted (fold sdk_step pre (sdk_step e g)) = None" by auto
    then show ?thesis by (intro exI [of _ "e # pre"] exI [of _ result] exI [of _ post]) simp
  next
    case (Some v)
    with Cons.prems have "g_result (sdk_step e g) = Some (Inr r)" by (simp add: result_kept_run)
    from reply_from_wait [OF this Cons.prems(2)] show ?thesis
      by (intro exI [of _ "[]"]) auto
  qed
qed simp

lemma final_reply_Inr:
  assumes "final_reply result g = Inr r"
  shows "getp result ''status'' = Some (JStr ''finished'')" "getp result ''result'' = Some (JStr (rp_content r))"
    "trim (rp_content r) \<noteq> []" "g_streamed g = [] \<or> g_streamed g = rp_content r" "rp_reasoning r = g_reasoning g"
    "rp_streamed r \<longleftrightarrow> g_streamed g \<noteq> []" "usageFromSDK (getp result ''usage'') = Inr (rp_usage r)"
  using assms unfolding final_reply_def bind_js_eq_Inr guard_js_eq_Inr
  by (auto split: option.splits if_splits)

lemma reply_from_stream:
  assumes "g_result (generateWithSDK aborted es) = Some (Inr r)"
  shows "\<exists>pre result post. es = pre @ Waited result # post
     \<and> getp result ''status'' = Some (JStr ''finished'') \<and> getp result ''result'' = Some (JStr (rp_content r))
     \<and> trim (rp_content r) \<noteq> []
     \<and> (let cs = g_called (generateWithSDK aborted pre)
        in spoken Text cs \<in> {[], rp_content r} \<and> rp_reasoning r = spoken Thinking cs \<and> (rp_streamed r \<longleftrightarrow> spoken Text cs \<noteq> []))"
proof -
  have "g_result (init_generation aborted) = None" by (simp add: init_generation_def)
  from first_reply [OF assms [unfolded generateWithSDK_def] this] obtain pre result post where
    es: "es = pre @ Waited result # post" and fr: "final_reply result (generateWithSDK aborted pre) = Inr r"
    unfolding generateWithSDK_def by blast
  have "gen_inv (generateWithSDK aborted pre)" by (rule gen_inv_run)
  with es final_reply_Inr [OF fr] show ?thesis by (auto simp: gen_inv_def Let_def)
qed

text \<open>
  When a generation returns a reply, the run has finished with exactly this text, which
  is not blank; what the client was streamed before that is nothing or, put together, this
  very text; and the reasoning is what the thinking callback received.
\<close>

theorem reply_agrees_with_the_stream:
  assumes "g_result (generateWithSDK aborted es) = Some (Inr r)"
  shows "\<exists>pre result post. es = pre @ Waited result # post
     \<and> getp result ''status'' = Some (JStr ''finished'') \<and> getp result ''result'' = Some (JStr (rp_content r))
     \<and> trim (rp_content r) \<noteq> []
     \<and> (let cs = g_called (generateWithSDK aborted pre)
        in spoken Text cs \<in> {[], rp_content r} \<and> rp_reasoning r = spoken Thinking cs \<and> (rp_streamed r \<longleftrightarrow> spoken Text cs \<noteq> []))"
  using assms by (rule reply_from_stream)

definition witness_events :: "sdk_event list" where
  "witness_events = [Created, Update ''thinking-delta'' ''hm'', Update ''text-delta'' ''o'', Update ''text-delta'' ''k'',
     Yielded ''assistant'', Waited (JObj [(''status'', JStr ''finished''), (''result'', JStr ''ok'')])]"

definition witness_reply :: cursor_reply where
  "witness_reply = \<lparr>rp_content = ''ok'', rp_reasoning = ''hm'', rp_streamed = True, rp_usage = None, rp_requestID = None\<rparr>"

theorem reply_agrees_with_the_stream_witness:
  "g_result (generateWithSDK None witness_events) = Some (Inr witness_reply) \<and> trim (rp_content witness_reply) \<noteq> []"
proof -
  have "g_result (generateWithSDK None witness_events) = Some (Inr witness_reply)" by code_simp
  with reply_agrees_with_the_stream [OF this] show ?thesis by blast
qed

end
