(* ===== verification/Cursor_Login.thy ===== *)
theory Cursor_Login
  imports Cursor_Worker Login_Base
begin

text \<open>
  \<^verbatim>\<open>src/tools/cursor2api/src/login.mjs\<close>: the browser sign-in. Sessions are objects on a heap,
  filed in the map under a random id; the SDK's \<^verbatim>\<open>auth.login\<close> runs as the session's task and
  its reactions are operations of their own, as are the timer and \<^verbatim>\<open>onLoginUrl\<close>.
\<close>

record session =
  ss_id :: string
  ss_owner :: string
  ss_status :: login_status
  ss_expiresAt :: int
  ss_aborted :: bool
  ss_authUrl :: "string option"
  ss_apiKey :: "json option"
  ss_account :: "json option"
  ss_failure :: "thrown option"

record logins =
  sessions :: "(string \<times> nat) list"
  active :: "nat option"
  heap :: "session list"

definition init_logins :: logins where
  "init_logins = \<lparr>sessions = [], active = None, heap = []\<rparr>"

definition SESSION_TTL_MS :: int where "SESSION_TTL_MS = 30 * 60 * 1000"

definition live_sessions :: "int \<Rightarrow> logins \<Rightarrow> (string \<times> nat) list" where
  "live_sessions now l = filter (\<lambda>e. now < ss_expiresAt (heap l ! snd e)) (sessions l)"

definition new_session :: "string \<Rightarrow> string \<Rightarrow> int \<Rightarrow> session" where
  "new_session i ow now = \<lparr>ss_id = i, ss_owner = ow, ss_status = Pending, ss_expiresAt = now + SESSION_TTL_MS,
     ss_aborted = False, ss_authUrl = None, ss_apiKey = None, ss_account = None, ss_failure = None\<rparr>"

text \<open>\<open>start\<close>; \<open>i\<close> is the random id.\<close>

definition start :: "string \<Rightarrow> string \<Rightarrow> int \<Rightarrow> logins \<Rightarrow> (thrown + nat) \<times> logins" where
  "start i ow now l =
     (if active l \<noteq> None then (Inl (Adapter 429 ''login_busy'' ''A Cursor login is already running.''), l)
      else (let l1 = l\<lparr>sessions := live_sessions now l\<rparr>
            in if 50 \<le> length (sessions l1) then
                 (Inl (Adapter 429 ''login_limit'' ''Too many Cursor login attempts. Try again later.''), l1)
               else (Inr (length (heap l)),
                     l1\<lparr>sessions := AList.update i (length (heap l)) (sessions l1),
                        active := Some (length (heap l)), heap := heap l @ [new_session i ow now]\<rparr>)))"

definition upd_session :: "nat \<Rightarrow> (session \<Rightarrow> session) \<Rightarrow> logins \<Rightarrow> logins" where
  "upd_session r f l = l\<lparr>heap := (heap l)[r := f (heap l ! r)]\<rparr>"

definition abort_session :: "nat \<Rightarrow> logins \<Rightarrow> logins" where
  "abort_session r = upd_session r (\<lambda>s. s\<lparr>ss_aborted := True\<rparr>)"

definition onLoginUrl :: "nat \<Rightarrow> string \<Rightarrow> logins \<Rightarrow> logins" where
  "onLoginUrl r url = upd_session r (\<lambda>s. s\<lparr>ss_authUrl := Some url\<rparr>)"

definition loginFailure :: "thrown \<Rightarrow> thrown" where
  "loginFailure e = (case e of
     Foreign f \<Rightarrow> if err_name f = ''AuthenticationError''
       then Adapter 401 ''cursor_login_failed'' ''Cursor rejected the login attempt; restart the sign-in.''
       else Adapter 502 ''cursor_login_failed'' ''Cursor sign-in did not complete; restart the sign-in.''
   | Adapter _ _ _ \<Rightarrow> Adapter 502 ''cursor_login_failed'' ''Cursor sign-in did not complete; restart the sign-in.'')"

definition account_of :: "json \<Rightarrow> json" where
  "account_of result = JObj ([(''uid'', case getp result ''email'' of
        Some v \<Rightarrow> if truthy (Some v) then v else JStr ''cursor'' | None \<Rightarrow> JStr ''cursor'')]
     @ (case getp result ''email'' of None \<Rightarrow> [] | Some v \<Rightarrow> [(''nickname'', v)]))"

text \<open>The reactions of the task: then and catch, later finally.\<close>

definition task_result :: "nat \<Rightarrow> thrown + json \<Rightarrow> logins \<Rightarrow> logins" where
  "task_result r outcome l = (case outcome of
     Inr result \<Rightarrow> if ss_aborted (heap l ! r) then l
       else upd_session r (\<lambda>s. s\<lparr>ss_status := Completed, ss_apiKey := getp result ''apiKey'',
              ss_account := Some (account_of result)\<rparr>) l
   | Inl e \<Rightarrow> if ss_aborted (heap l ! r) then upd_session r (\<lambda>s. s\<lparr>ss_status := Expired\<rparr>) l
       else upd_session r (\<lambda>s. s\<lparr>ss_status := Failed, ss_failure := Some (loginFailure e)\<rparr>) l)"

definition task_finally :: "logins \<Rightarrow> logins" where
  "task_finally l = l\<lparr>active := None\<rparr>"

definition login_not_found :: thrown where
  "login_not_found = Adapter 404 ''login_not_found'' ''Login session not found.''"

definition get :: "string \<Rightarrow> string \<Rightarrow> int \<Rightarrow> logins \<Rightarrow> (thrown + nat) \<times> logins" where
  "get ow i now l = (case map_of (sessions l) i of
     None \<Rightarrow> (Inl login_not_found, l)
   | Some r \<Rightarrow>
       if ss_owner (heap l ! r) \<noteq> ow then (Inl login_not_found, l)
       else if ss_expiresAt (heap l ! r) \<le> now then
         (Inl (Adapter 410 ''login_expired'' ''Login session expired.''),
          (abort_session r l)\<lparr>sessions := AList.delete i (sessions l)\<rparr>)
       else (Inr r, l))"

record login_result =
  session_id :: string
  lr_mode :: string
  lr_status :: string
  expires_at :: int
  auth_url :: "string option"
  lr_account :: "json option"
  api_key :: "json option"

definition result :: "session \<Rightarrow> login_result" where
  "result s = \<lparr>session_id = ss_id s, lr_mode = ''poll'', lr_status = status_text (ss_status s),
     expires_at = ss_expiresAt s, auth_url = (if ss_authUrl s = Some [] then None else ss_authUrl s),
     lr_account = ss_account s,
     api_key = (if ss_status s = Completed \<and> truthy (ss_apiKey s) then ss_apiKey s else None)\<rparr>"

text \<open>The answer of \<open>startResult\<close>, once the link is there or the wait is over.\<close>

definition startResult :: "nat \<Rightarrow> logins \<Rightarrow> login_result" where
  "startResult r l = result (heap l ! r)"

definition poll :: "string \<Rightarrow> string \<Rightarrow> int \<Rightarrow> logins \<Rightarrow> (thrown + login_result) \<times> logins" where
  "poll ow i now l = (case get ow i now l of
     (Inl e, l') \<Rightarrow> (Inl e, l')
   | (Inr r, l') \<Rightarrow> (case ss_status (heap l' ! r) of
       Failed \<Rightarrow> (Inl (case ss_failure (heap l' ! r) of Some e \<Rightarrow> e | None \<Rightarrow> type_error ''undefined''), l')
     | Expired \<Rightarrow> (Inl (Adapter 410 ''login_expired'' ''Cursor login expired; start a new login.''), l')
     | _ \<Rightarrow> (Inr (result (heap l' ! r)), l')))"

definition cancel :: "string \<Rightarrow> string \<Rightarrow> int \<Rightarrow> logins \<Rightarrow> (thrown + unit) \<times> logins" where
  "cancel ow i now l = (case get ow i now l of
     (Inl e, l') \<Rightarrow> (Inl e, l')
   | (Inr r, l') \<Rightarrow> (Inr (), (abort_session r l')\<lparr>sessions := AList.delete i (sessions l')\<rparr>))"

definition close_begin :: "logins \<Rightarrow> logins" where
  "close_begin l = (case active l of None \<Rightarrow> l | Some r \<Rightarrow> abort_session r l)"

definition close_end :: "logins \<Rightarrow> logins" where
  "close_end l = l\<lparr>sessions := []\<rparr>"

interpretation cursor_login: owned_sessions sessions "\<lambda>l r. ss_owner (heap l ! r)"
  "\<lambda>l r. ss_expiresAt (heap l ! r)" get login_not_found
  by unfold_locales (auto simp: get_def login_not_found_def abort_session_def upd_session_def)

section \<open>Runs\<close>

text \<open>
  A session's task settles once, and its finally clause follows; the other operations happen
  in any order. Random ids do not repeat.
\<close>

inductive login_step :: "logins \<Rightarrow> logins \<Rightarrow> bool" where
  lg_start: "i \<notin> ss_id ` set (heap l) \<Longrightarrow> login_step l (snd (start i ow now l))"
| lg_url: "active l = Some r \<Longrightarrow> login_step l (onLoginUrl r url l)"
| lg_timer: "active l = Some r \<Longrightarrow> login_step l (abort_session r l)"
| lg_task: "active l = Some r \<Longrightarrow> ss_status (heap l ! r) = Pending \<Longrightarrow> login_step l (task_finally (task_result r outcome l))"
| lg_poll: "login_step l (snd (poll ow i now l))"
| lg_cancel: "login_step l (snd (cancel ow i now l))"
| lg_close: "login_step l (close_begin l)"
| lg_closed: "active l = None \<Longrightarrow> login_step l (close_end l)"

definition login_inv :: "logins \<Rightarrow> bool" where
  "login_inv l \<longleftrightarrow> length (sessions l) \<le> 50 \<and> (\<forall>e \<in> set (sessions l). snd e < length (heap l))
     \<and> (\<forall>r. active l = Some r \<longrightarrow> r < length (heap l) \<and> ss_status (heap l ! r) = Pending)
     \<and> (\<forall>r < length (heap l). (ss_status (heap l ! r) = Pending \<longrightarrow> active l = Some r \<or> ss_aborted (heap l ! r))
          \<and> (ss_apiKey (heap l ! r) \<noteq> None \<longrightarrow> ss_status (heap l ! r) = Completed))"

lemma login_inv_abort: "login_inv l \<Longrightarrow> login_inv (abort_session r l)"
  by (auto simp: login_inv_def abort_session_def upd_session_def nth_update_if)

lemma login_inv_less:
  assumes "login_inv l" "set m \<subseteq> set (sessions l)" "length m \<le> length (sessions l)"
  shows "login_inv (l\<lparr>sessions := m\<rparr>)"
  using assms by (auto simp: login_inv_def)

lemma login_inv_delete: "login_inv l \<Longrightarrow> login_inv (l\<lparr>sessions := AList.delete i (sessions l)\<rparr>)"
  by (rule login_inv_less) (auto simp: set_delete_subset length_delete_le)

lemma cursor_login_inv_remove: "login_inv l \<Longrightarrow> login_inv ((abort_session r l)\<lparr>sessions := AList.delete i (sessions l)\<rparr>)"
  using login_inv_delete [OF login_inv_abort, of l i r] by (simp add: abort_session_def upd_session_def)

lemma cursor_login_inv_get: "login_inv l \<Longrightarrow> login_inv (snd (get ow i now l))"
  by (auto simp: get_def cursor_login_inv_remove split: option.splits)

lemma login_inv_poll: "login_inv l \<Longrightarrow> login_inv (snd (poll ow i now l))"
  using cursor_login_inv_get [of l ow i now]
  by (auto simp: poll_def split: prod.splits sum.splits login_status.splits)

lemma login_inv_cancel: "login_inv l \<Longrightarrow> login_inv (snd (cancel ow i now l))"
  using cursor_login_inv_get [of l ow i now]
  by (auto simp: cancel_def cursor_login_inv_remove split: prod.splits sum.splits)

lemma cursor_login_inv_start:
  assumes "login_inv l"
  shows "login_inv (snd (start i ow now l))"
proof -
  have live: "login_inv (l\<lparr>sessions := live_sessions now l\<rparr>)"
    using assms by (rule login_inv_less) (auto simp: live_sessions_def)
  show ?thesis
  proof (cases "active l = None \<and> length (live_sessions now l) < 50")
    case True
    have "length (AList.update i (length (heap l)) (live_sessions now l)) \<le> 50"
      using True by (simp add: length_update)
    moreover have "\<forall>e \<in> set (AList.update i (length (heap l)) (live_sessions now l)). snd e < Suc (length (heap l))"
      using live by (auto simp: login_inv_def dest!: set_update_cases)
    ultimately show ?thesis
      using True assms
      by (auto simp: start_def Let_def login_inv_def nth_append new_session_def less_Suc_eq)
  next
    case False
    then show ?thesis using assms live by (auto simp: start_def Let_def)
  qed
qed

lemma login_inv_task:
  assumes "login_inv l" "active l = Some r"
  shows "login_inv (task_finally (task_result r outcome l))"
  using assms
  by (auto simp: login_inv_def task_finally_def task_result_def upd_session_def nth_list_update split: sum.splits)

lemma cursor_login_inv_step: "login_step l l' \<Longrightarrow> login_inv l \<Longrightarrow> login_inv l'"
proof (induction rule: login_step.induct)
  case (lg_url l r url)
  then show ?case by (auto simp: login_inv_def onLoginUrl_def upd_session_def nth_list_update)
next
  case (lg_close l)
  then show ?case by (simp add: close_begin_def login_inv_abort split: option.splits)
next
  case (lg_closed l)
  then show ?case by (simp add: close_end_def login_inv_def)
qed (simp_all add: cursor_login_inv_start login_inv_abort login_inv_task login_inv_poll login_inv_cancel)

lemma login_inv_reachable: "login_step\<^sup>*\<^sup>* init_logins l \<Longrightarrow> login_inv l"
  by (induction rule: rtranclp_induct)
    (simp_all add: login_inv_def init_logins_def cursor_login_inv_step [unfolded login_inv_def])

text \<open>
  In every reachable state there are at most 50 sign-in sessions, and of the sessions that
  are pending and not aborted there is at most one, the running login; and the minted account
  key leaves the adapter only in an answer to the administrator that started the session,
  while that session is filed, has not expired and is completed.
\<close>

theorem minted_key_only_to_its_owner:
  assumes "login_step\<^sup>*\<^sup>* init_logins l"
  shows "length (sessions l) \<le> 50
     \<and> (\<forall>r < length (heap l). ss_status (heap l ! r) = Pending \<and> \<not> ss_aborted (heap l ! r) \<longrightarrow> active l = Some r)
     \<and> (\<forall>ow i now ans k. fst (poll ow i now l) = Inr ans \<and> api_key ans = Some k
          \<longrightarrow> (\<exists>r. map_of (sessions l) i = Some r \<and> ss_owner (heap l ! r) = ow \<and> now < ss_expiresAt (heap l ! r)
                \<and> ss_status (heap l ! r) = Completed \<and> ss_apiKey (heap l ! r) = Some k))"
proof -
  have "\<exists>r. map_of (sessions l) i = Some r \<and> ss_owner (heap l ! r) = ow \<and> now < ss_expiresAt (heap l ! r)
      \<and> ss_status (heap l ! r) = Completed \<and> ss_apiKey (heap l ! r) = Some k"
    if p: "fst (poll ow i now l) = Inr ans" "api_key ans = Some k" for ow i now ans k
  proof -
    from p(1) obtain r l' where g: "get ow i now l = (Inr r, l')"
      by (auto simp: poll_def split: prod.splits sum.splits)
    note o = cursor_login.get_owned [OF g]
    then have "ans = result (heap l ! r)"
      using p(1) g by (auto simp: poll_def split: login_status.splits)
    with p(2) o show ?thesis by (auto simp: result_def split: if_splits)
  qed
  then show ?thesis using login_inv_reachable [OF assms] by (auto simp: login_inv_def)
qed

definition witness_logins :: logins where
  "witness_logins = task_finally (task_result 0 (Inr (JObj [(''apiKey'', JStr ''key''), (''email'', JStr ''a@b'')]))
     (snd (start ''id'' ''admin'' 0 init_logins)))"

theorem minted_key_only_to_its_owner_witness:
  "login_step\<^sup>*\<^sup>* init_logins witness_logins \<and> length (sessions witness_logins) \<le> 50
   \<and> (\<exists>ans. fst (poll ''admin'' ''id'' 5 witness_logins) = Inr ans \<and> api_key ans = Some (JStr ''key''))"
proof -
  let ?l = "snd (start ''id'' ''admin'' 0 init_logins)"
  have "login_step init_logins ?l" by (rule lg_start) (simp add: init_logins_def)
  moreover have "login_step ?l witness_logins"
    unfolding witness_logins_def by (rule lg_task) code_simp+
  ultimately have r: "login_step\<^sup>*\<^sup>* init_logins witness_logins" by (blast intro: rtranclp.intros)
  have "map_sum (\<lambda>_. ()) api_key (fst (poll ''admin'' ''id'' 5 witness_logins)) = Inr (Some (JStr ''key''))" by code_simp
  then have "\<exists>ans. fst (poll ''admin'' ''id'' 5 witness_logins) = Inr ans \<and> api_key ans = Some (JStr ''key'')"
    by (cases "fst (poll ''admin'' ''id'' 5 witness_logins)") auto
  then show ?thesis using r minted_key_only_to_its_owner [OF r] by blast
qed

end
