(* ===== verification/Cursor_Server.thy ===== *)
theory Cursor_Server
  imports Http_Slots Cursor_Login
begin

text \<open>
  \<^verbatim>\<open>src/tools/cursor2api/src/server.mjs\<close> and \<^verbatim>\<open>index.mjs\<close>: routing and admission of a request,
  the validation of a chat body, the answers, the events of a stream and the error response.
  The slots are those of \<open>Http_Slots\<close>; here the models endpoint holds its slot like a
  generation does.
\<close>

section \<open>Admission\<close>

record cconfig =
  cc_adapterKey :: string
  cc_maxConcurrent :: nat
  cc_maxBodyBytes :: nat
  cc_logins :: bool

definition invalid_adapter_key :: thrown where
  "invalid_adapter_key = Adapter 401 ''invalid_adapter_key'' ''Missing or invalid adapter key.''"

definition route_login :: "cconfig \<Rightarrow> http_request \<Rightarrow> decision" where
  "route_login cfg q =
     (if \<not> cc_logins cfg then
        Refuse (Adapter 503 ''login_unavailable'' ''Cursor login is unavailable in this adapter build.'')
      else if bad_owner 256 q then Refuse (Adapter 400 ''login_owner_required'' ''Login owner is required.'')
      else let ow = hdr_text q ''x-login-owner'' in
        if h_method q = ''POST'' \<and> h_path q = LOGIN_PATH then LoginStart ow
        else (case session_route ''/poll'' (h_path q) of
                Some (i, polls) \<Rightarrow>
                  if h_method q = ''POST'' \<and> polls then LoginPost ow i
                  else if h_method q = ''DELETE'' \<and> \<not> polls then LoginDelete ow i
                  else Refuse (Adapter 404 ''not_found'' ''Unknown login endpoint.'')
              | None \<Rightarrow> Refuse (Adapter 404 ''not_found'' ''Unknown login endpoint.'')))"

definition route :: "(bytes \<Rightarrow> 'd) \<Rightarrow> cconfig \<Rightarrow> bool \<Rightarrow> nat \<Rightarrow> http_request \<Rightarrow> decision" where
  "route sha cfg stops n q =
     (if h_method q = ''GET'' \<and> h_path q = ''/livez'' then
        Reply (if stops then 503 else 200) (JObj [(''status'', JStr (if stops then ''stopping'' else ''ok''))])
      else if \<not> same_secret sha (presented_key q) (cc_adapterKey cfg) then Refuse invalid_adapter_key
      else if stops then Refuse adapter_shutdown
      else if h_method q = ''GET'' \<and> h_path q = ''/healthz'' then
        Reply 200 (JObj [(''status'', JStr ''ok''), (''runtime'', JStr ''cursor-sdk''),
                         (''upstream_verified'', JBool False)])
      else if starts_with (h_path q) LOGIN_PATH then route_login cfg q
      else if \<not> (h_method q = ''GET'' \<and> h_path q = ''/v1/models''
                 \<or> h_method q = ''POST'' \<and> h_path q = ''/v1/chat/completions'') then
        Refuse (Adapter 404 ''not_found'' ''Endpoint not found.'')
      else if bearer_key q = [] \<or> 4096 < length (bearer_key q) then
        Refuse (Adapter 401 ''missing_cursor_key'' ''A Cursor account API key is required.'')
      else if cc_maxConcurrent cfg \<le> n then
        Refuse (Adapter 503 ''cursor_adapter_busy'' ''Cursor adapter concurrency limit reached.'')
      else if h_method q = ''GET'' then ListModels (bearer_key q)
      else ChatCompletion (bearer_key q))"

definition too_large :: thrown where
  "too_large = Adapter 413 ''request_too_large'' ''Request body exceeds the Cursor adapter limit.''"

definition chat_request :: "(bytes \<Rightarrow> string) \<Rightarrow> (string \<Rightarrow> json option) \<Rightarrow> (rat \<Rightarrow> string) \<Rightarrow> cconfig \<Rightarrow> http_request
    \<Rightarrow> thrown + cursor_request" where
  "chat_request decode parse num cfg q =
     bind_js (guard_js (\<not> is_json_type (hdr_text q ''content-type''))
       (Adapter 415 ''invalid_content_type'' ''Content-Type must be application/json.'')) (\<lambda>_.
     bind_js (guard_js (hdr_text q ''content-encoding'' \<noteq> '''' \<and> hdr_text q ''content-encoding'' \<noteq> ''identity'')
       (Adapter 415 ''unsupported_encoding'' ''Compressed request bodies are not supported.'')) (\<lambda>_.
     bind_js (guard_js (declared_too_large (cc_maxBodyBytes cfg) q) too_large) (\<lambda>_.
     bind_js (read_json decode parse too_large
        (Adapter 400 ''invalid_json'' ''Request body must be valid JSON.'')
        (cc_maxBodyBytes cfg) (h_chunks q)) (normalizeRequest num))))"

definition models_body :: "sdk_catalog \<Rightarrow> json" where
  "models_body catalog = JObj [(''object'', JStr ''list''), (''data'', JArr (models_listing catalog))]"

section \<open>Slots\<close>

definition cadmit :: "(bytes \<Rightarrow> 'd) \<Rightarrow> cconfig \<Rightarrow> pool \<Rightarrow> bool" where
  "cadmit sha cfg s \<longleftrightarrow> (\<exists>q. admits (route sha cfg (ws_stopping s) (length (ws_active s)) q))"

lemma cursor_route_admits_free: "admits (route sha cfg stops n q) \<Longrightarrow> n < cc_maxConcurrent cfg"
  by (auto simp: route_def route_login_def Let_def split: if_splits option.splits prod.splits)

interpretation cursor_slots: request_slots "cadmit sha cfg" adapter_shutdown "cc_maxConcurrent cfg" for sha cfg
  by unfold_locales (auto simp: cadmit_def dest: cursor_route_admits_free)

section \<open>Answers\<close>

definition usage_json :: "usage_report \<Rightarrow> json" where
  "usage_json u = JObj ([(''prompt_tokens'', JNum (ur_prompt u)), (''completion_tokens'', JNum (ur_completion u)),
      (''total_tokens'', JNum (ur_total u)),
      (''prompt_tokens_details'', JObj [(''cached_tokens'', JNum (ur_cached u)), (''cache_creation_tokens'', JNum (ur_created u))])]
     @ (case ur_reasoning u of None \<Rightarrow> [] | Some n \<Rightarrow> [(''completion_tokens_details'', JObj [(''reasoning_tokens'', JNum n)])]))"

definition reply_message :: "cursor_reply \<Rightarrow> json" where
  "reply_message r = JObj ([(''role'', JStr ''assistant''), (''content'', JStr (rp_content r))]
     @ (if rp_reasoning r \<noteq> '''' then [(''reasoning_content'', JStr (rp_reasoning r))] else []))"

text \<open>The answer that is not streamed: its body and the header that names the source of the usage.\<close>

definition completion_answer :: "string \<Rightarrow> rat \<Rightarrow> string \<Rightarrow> cursor_reply \<Rightarrow> json \<times> (string \<times> string) list" where
  "completion_answer i created model r =
     (JObj ([(''id'', JStr i), (''object'', JStr ''chat.completion''), (''created'', JNum created), (''model'', JStr model),
        (''choices'', JArr [JObj [(''index'', JNum 0), (''message'', reply_message r), (''finish_reason'', JStr ''stop'')]])]
       @ (case rp_usage r of None \<Rightarrow> [] | Some u \<Rightarrow> [(''usage'', usage_json u)])),
      [(''X-Cursor-Usage-Source'', if rp_usage r = None then ''unavailable'' else ''sdk'')])"

definition error_payload :: "thrown \<Rightarrow> json" where
  "error_payload e = (case e of
     Adapter s c m \<Rightarrow> JObj [(''error'', JObj [(''type'', JStr (error_type s)), (''code'', JStr c),
        (''message'', JStr m), (''status'', JNum (of_int s))])]
   | Foreign _ \<Rightarrow> JNull)"

text \<open>The catch clause before any byte was sent: the abort reason wins over the error.\<close>

definition error_detail :: "thrown option \<Rightarrow> thrown \<Rightarrow> thrown" where
  "error_detail aborted e = publicError (case aborted of Some r \<Rightarrow> r | None \<Rightarrow> e)"

definition error_response :: "thrown option \<Rightarrow> thrown \<Rightarrow> int \<times> json \<times> (string \<times> string) list" where
  "error_response aborted e =
     (let detail = error_detail aborted e;
          s = (case status_of detail of Some s \<Rightarrow> s | None \<Rightarrow> 502)
      in (s, error_payload detail,
          (if aborted \<noteq> None then [(''Connection'', ''close'')] else [])
            @ (if s = 429 \<or> s = 503 then [(''Retry-After'', ''30'')] else [])))"

section \<open>The events of a stream\<close>

text \<open>
  The chunks the client receives, without their common fields. The worker awaits every
  callback, so one runs after the other.
\<close>

datatype chunk = Role | Content string | Reasoning string | Stop | UsageChunk usage_report | Done | ErrorChunk json

record cwriter =
  headersSent :: bool
  out :: "chunk list"

definition fresh_writer :: cwriter where
  "fresh_writer = \<lparr>headersSent = False, out = []\<rparr>"

definition writeSSE :: "chunk \<Rightarrow> cwriter \<Rightarrow> cwriter" where
  "writeSSE c w = w\<lparr>out := out w @ [c]\<rparr>"

definition beginStream :: "cwriter \<Rightarrow> cwriter" where
  "beginStream w = (if headersSent w then w else writeSSE Role (w\<lparr>headersSent := True\<rparr>))"

definition stream_callback :: "kind \<times> string \<Rightarrow> cwriter \<Rightarrow> cwriter" where
  "stream_callback c w = writeSSE (case fst c of Text \<Rightarrow> Content (snd c) | Thinking \<Rightarrow> Reasoning (snd c)) (beginStream w)"

definition finish_stream :: "bool \<Rightarrow> cursor_reply \<Rightarrow> cwriter \<Rightarrow> cwriter" where
  "finish_stream includeUsage r w =
     (let w1 = beginStream w;
          w2 = (if rp_streamed r then w1 else writeSSE (Content (rp_content r)) w1);
          w3 = writeSSE Stop w2;
          w4 = (case (includeUsage, rp_usage r) of (True, Some u) \<Rightarrow> writeSSE (UsageChunk u) w3 | _ \<Rightarrow> w3)
      in writeSSE Done w4)"

text \<open>The catch clause once the headers are sent: one error event, no stop and no end marker.\<close>

definition fail_stream :: "thrown option \<Rightarrow> thrown \<Rightarrow> cwriter \<Rightarrow> cwriter" where
  "fail_stream aborted e = writeSSE (ErrorChunk (error_payload (error_detail aborted e)))"

definition streamed_answer :: "bool \<Rightarrow> (kind \<times> string) list \<Rightarrow> cursor_reply \<Rightarrow> chunk list" where
  "streamed_answer includeUsage calls r = out (finish_stream includeUsage r (fold stream_callback calls fresh_writer))"

fun content_of :: "chunk \<Rightarrow> string" where
  "content_of (Content s) = s"
| "content_of _ = ''''"

fun reasoning_of :: "chunk \<Rightarrow> string" where
  "reasoning_of (Reasoning s) = s"
| "reasoning_of _ = ''''"

definition call_chunk :: "kind \<times> string \<Rightarrow> chunk" where
  "call_chunk c = (case fst c of Text \<Rightarrow> Content (snd c) | Thinking \<Rightarrow> Reasoning (snd c))"

lemma callbacks_sent: "headersSent w \<Longrightarrow> fold stream_callback cs w = w\<lparr>out := out w @ map call_chunk cs\<rparr>"
  by (induction cs arbitrary: w) (simp_all add: stream_callback_def beginStream_def writeSSE_def call_chunk_def)

lemma callbacks_fresh:
  "beginStream (fold stream_callback cs fresh_writer) = \<lparr>headersSent = True, out = Role # map call_chunk cs\<rparr>"
proof (cases cs)
  case Nil
  then show ?thesis by (simp add: beginStream_def fresh_writer_def writeSSE_def)
next
  case (Cons c cs')
  have "stream_callback c fresh_writer = \<lparr>headersSent = True, out = [Role, call_chunk c]\<rparr>"
    by (simp add: stream_callback_def beginStream_def fresh_writer_def writeSSE_def call_chunk_def)
  then show ?thesis using Cons by (simp add: callbacks_sent beginStream_def)
qed

definition answer_tail :: "bool \<Rightarrow> cursor_reply \<Rightarrow> chunk list" where
  "answer_tail includeUsage r = Stop # (case (includeUsage, rp_usage r) of (True, Some u) \<Rightarrow> [UsageChunk u] | _ \<Rightarrow> []) @ [Done]"

lemma streamed_answer_eq:
  "streamed_answer includeUsage cs r = Role # map call_chunk cs
     @ (if rp_streamed r then [] else [Content (rp_content r)]) @ answer_tail includeUsage r"
  by (auto simp: streamed_answer_def finish_stream_def Let_def callbacks_fresh writeSSE_def answer_tail_def
      split: bool.splits option.splits)

lemma contents_of_calls:
  "concat (map content_of (map call_chunk cs)) = spoken Text cs"
  "concat (map reasoning_of (map call_chunk cs)) = spoken Thinking cs"
  by (induction cs) (auto simp: spoken_def call_chunk_def split: kind.splits)

lemma tail_silent:
  "concat (map content_of (answer_tail includeUsage r)) = []" "concat (map reasoning_of (answer_tail includeUsage r)) = []"
  by (auto simp: answer_tail_def split: bool.splits option.splits)

text \<open>
  C16: a streaming client of cursor2api receives exactly the reply: when a generation returns
  \<open>r\<close>, the events are the role, the deltas in the order the SDK produced them, the stop, the
  usage if it was asked for and is known, and the end marker; the content deltas put together
  are the reply's text, neither cut nor repeated, and the reasoning deltas its reasoning.
\<close>

theorem stream_delivers_the_reply:
  assumes "g_result (generateWithSDK aborted es) = Some (Inr r)"
  shows "\<exists>pre post. es = pre @ post \<and>
     (let ev = streamed_answer includeUsage (g_called (generateWithSDK aborted pre)) r
      in concat (map content_of ev) = rp_content r \<and> concat (map reasoning_of ev) = rp_reasoning r
         \<and> hd ev = Role \<and> count_list ev Role = 1 \<and> last ev = Done \<and> count_list ev Stop = 1)"
proof -
  from reply_from_stream [OF assms] obtain pre result post where es: "es = pre @ Waited result # post"
    and r: "spoken Text (g_called (generateWithSDK aborted pre)) \<in> {[], rp_content r}"
      "rp_reasoning r = spoken Thinking (g_called (generateWithSDK aborted pre))"
      "rp_streamed r \<longleftrightarrow> spoken Text (g_called (generateWithSDK aborted pre)) \<noteq> []"
    unfolding Let_def by blast
  let ?cs = "g_called (generateWithSDK aborted pre)"
  let ?ev = "streamed_answer includeUsage ?cs r"
  have n: "count_list (map call_chunk cs) Role = 0" "count_list (map call_chunk cs) Stop = 0" for cs
    by (induction cs) (auto simp: call_chunk_def split: kind.splits)
  have t: "count_list (answer_tail includeUsage r) Role = 0" "count_list (answer_tail includeUsage r) Stop = 1"
    "last (answer_tail includeUsage r) = Done" "answer_tail includeUsage r \<noteq> []"
    by (auto simp: answer_tail_def split: bool.splits option.splits)
  have "concat (map content_of ?ev) = rp_content r" "concat (map reasoning_of ?ev) = rp_reasoning r"
    using r by (auto simp: streamed_answer_eq contents_of_calls [unfolded map_map] tail_silent)
  moreover have "hd ?ev = Role" "count_list ?ev Role = 1" "last ?ev = Done" "count_list ?ev Stop = 1"
    using t by (simp_all add: streamed_answer_eq n)
  ultimately show ?thesis using es by (intro exI [of _ pre] exI [of _ "Waited result # post"]) (simp add: Let_def)
qed

theorem stream_delivers_the_reply_witness:
  "g_result (generateWithSDK None witness_events) = Some (Inr witness_reply)
   \<and> (\<exists>pre post. witness_events = pre @ post \<and>
        concat (map content_of (streamed_answer True (g_called (generateWithSDK None pre)) witness_reply)) = ''ok'')"
proof -
  have g: "g_result (generateWithSDK None witness_events) = Some (Inr witness_reply)" by code_simp
  from stream_delivers_the_reply [OF g, of True] show ?thesis
    unfolding Let_def using g by (simp add: witness_reply_def) blast
qed

section \<open>Start-up\<close>

text \<open>\<^verbatim>\<open>index.mjs\<close>: the settings, and \<open>createServer\<close>'s refusal of an empty key. The SDK is always given.\<close>

record csettings =
  cs_port :: int
  cs_host :: string
  cs_timeoutMs :: int
  cs_config :: cconfig

definition cursor_settings :: "(string \<Rightarrow> rat option) \<Rightarrow> (string \<Rightarrow> string option) \<Rightarrow> thrown + csettings" where
  "cursor_settings to_number environ =
     bind_js (integer to_number environ ''CURSOR_PORT'' 7868 1 65535) (\<lambda>port.
     bind_js (integer to_number environ ''CURSOR_REQUEST_TIMEOUT_MS'' 300000 1000 900000) (\<lambda>timeoutMs.
     bind_js (integer to_number environ ''CURSOR_MAX_CONCURRENT'' 4 1 32) (\<lambda>maxConcurrent.
     bind_js (integer to_number environ ''CURSOR_MAX_BODY_BYTES'' 4194304 1024 33554432) (\<lambda>maxBodyBytes.
     bind_js (guard_js (trim (env_text environ ''CURSOR_ADAPTER_KEY'') = [])
        (plain_error ''CURSOR_ADAPTER_KEY is required.'')) (\<lambda>_.
       Inr \<lparr>cs_port = port,
            cs_host = (if env_text environ ''CURSOR_HOST'' \<noteq> '''' then env_text environ ''CURSOR_HOST'' else ''127.0.0.1''),
            cs_timeoutMs = timeoutMs,
            cs_config = \<lparr>cc_adapterKey = trim (env_text environ ''CURSOR_ADAPTER_KEY''),
              cc_maxConcurrent = nat maxConcurrent, cc_maxBodyBytes = nat maxBodyBytes, cc_logins = True\<rparr>\<rparr>)))))"

lemma cursor_settings_bounds:
  assumes "cursor_settings to_number environ = Inr se"
  shows "1 \<le> cc_maxConcurrent (cs_config se) \<and> cc_maxConcurrent (cs_config se) \<le> 32 \<and> cc_adapterKey (cs_config se) \<noteq> []"
  using assms unfolding cursor_settings_def bind_js_eq_Inr guard_js_eq_Inr
  by (auto dest!: integer_bounds)

end
