(* ===== verification/Arena_Request.thy ===== *)
theory Arena_Request
  imports Chat_Request
begin

text \<open>
  \<^verbatim>\<open>src/tools/arena2api/src/request.mjs\<close>: client identities, validation of a chat request,
  the digest that guards idempotent replays, and the check of an upstream reply. The theory
  interprets \<open>chat_normalizer\<close> and shows that the digest identifies the request.
\<close>

section \<open>Definitions\<close>

definition unsupportedParameters :: "string list" where
  "unsupportedParameters = [''functions'', ''function_call'', ''tool_choice'', ''response_format'', ''temperature'',
     ''top_p'', ''max_tokens'', ''max_completion_tokens'', ''stop'', ''seed'', ''logprobs'', ''top_logprobs'',
     ''logit_bias'', ''reasoning_effort'', ''modalities'', ''audio'', ''prediction'', ''presence_penalty'',
     ''frequency_penalty'', ''parallel_tool_calls'', ''service_tier'', ''store'', ''web_search_options'']"

definition acceptedParameters :: "string list" where
  "acceptedParameters = [''model'', ''messages'', ''stream'', ''stream_options'', ''tools'', ''n'', ''user'', ''metadata'',
     ''session_id'', ''conversation_id'', ''prompt_cache_key'']"

definition is_control :: "char \<Rightarrow> bool" where
  "is_control c = ((of_char c :: nat) < 32 \<or> (of_char c :: nat) = 127)"

text \<open>\<open>identity\<close> of a header value (\<open>None\<close> when the header is absent).\<close>

definition identity :: "string option \<Rightarrow> thrown + string" where
  "identity v = (case v of
     None \<Rightarrow> Inl (Adapter 400 ''session_identity_required'' ''Send a stable X-Arena-Session-Id (maximum 512 characters).'')
   | Some s \<Rightarrow> if trim s = [] \<or> 512 < length s \<or> list_ex is_control s
       then Inl (Adapter 400 ''session_identity_required'' ''Send a stable X-Arena-Session-Id (maximum 512 characters).'')
       else Inr (trim s))"

record arena_request =
  ar_model :: string
  ar_messages :: "json list"
  ar_prompt :: string
  ar_stream :: bool

definition odd_message_field :: "json \<Rightarrow> bool" where
  "odd_message_field m = (case m of
     JObj kvs \<Rightarrow> list_ex (\<lambda>(k, v). k \<noteq> ''role'' \<and> k \<noteq> ''content'' \<and> v \<noteq> JNull) kvs | _ \<Rightarrow> False)"

definition normalize_message :: "json \<Rightarrow> thrown + json" where
  "normalize_message message =
     bind_js (guard_js (bad_role message \<or> truthy (getp message ''tool_calls'') \<or> truthy (getp message ''function_call''))
        (Adapter 400 ''unsupported_message''
           ''Only system, developer, user and assistant text messages are supported.'')) (\<lambda>_.
     bind_js (guard_js (odd_message_field message) (Adapter 400 ''unsupported_message''
        ''Message fields other than role and text content are not supported.'')) (\<lambda>_.
     bind_js (content_text not_strict_text_part
        (Adapter 400 ''unsupported_content'' ''Images, files and audio are not supported.'')
        (Adapter 400 ''invalid_content'' ''Message content must be text.'')
        (getp message ''content'')) (\<lambda>content.
       Inr (JObj [(''role'', JStr (case str_of (getp message ''role'') of None \<Rightarrow> '''' | Some r \<Rightarrow> r)),
                  (''content'', JStr content)]))))"

definition bad_model :: "json option \<Rightarrow> bool" where
  "bad_model v = (case str_of v of None \<Rightarrow> True | Some s \<Rightarrow> trim s = [])"

definition bad_turn :: "json \<Rightarrow> bool" where
  "bad_turn m = (getp m ''role'' \<noteq> Some (JStr ''user'')
     \<or> (case str_of (getp m ''content'') of None \<Rightarrow> True | Some t \<Rightarrow> trim t = []))"

definition prompt_of :: "(rat \<Rightarrow> string) \<Rightarrow> json list \<Rightarrow> string" where
  "prompt_of num messages = join_with ''\<newline>\<newline>''
     [''The following JSON is the caller's complete conversation for this turn.'',
      ''Apply system and developer instructions, use assistant messages as history, and answer only the last user message.'',
      ''Earlier Arena messages are transport history; this supplied conversation is authoritative.'',
      ''Return text only. Do not execute Arena sandbox tools or request interactive input.'',
      stringify num (JArr messages)]"

definition normalizeRequest :: "(rat \<Rightarrow> string) \<Rightarrow> json \<Rightarrow> thrown + arena_request" where
  "normalizeRequest num body =
     bind_js (guard_js (not_object body)
       (Adapter 400 ''invalid_request'' ''Request must be a JSON object.'')) (\<lambda>_.
     bind_js (guard_js (bad_model (getp body ''model''))
       (Adapter 400 ''invalid_model'' ''model is required.'')) (\<lambda>_.
     bind_js (guard_js (not_filled_array (getp body ''messages''))
       (Adapter 400 ''invalid_messages'' ''messages must be a non-empty array.'')) (\<lambda>_.
     bind_js (guard_js (getp body ''stream'' \<noteq> None \<and> \<not> is_bool (getp body ''stream''))
       (Adapter 400 ''invalid_stream'' ''stream must be a boolean.'')) (\<lambda>_.
     bind_js (guard_js (filled_or_odd (getp body ''tools''))
       (Adapter 400 ''unsupported_tools'' ''This Arena adapter currently supports text conversations only.'')) (\<lambda>_.
     bind_js (case bad_field acceptedParameters unsupportedParameters body of
         Some field \<Rightarrow> Inl (Adapter 400 ''unsupported_parameter'' (field @ '' is not supported by the Arena browser protocol.''))
       | None \<Rightarrow> Inr ()) (\<lambda>_.
     bind_js (guard_js (bad_stream_options (getp body ''stream_options''))
       (Adapter 400 ''unsupported_parameter''
          ''Only stream_options.include_usage (boolean) is accepted; usage remains unavailable.'')) (\<lambda>_.
     bind_js (guard_js (\<not> nullish (getp body ''n'') \<and> getp body ''n'' \<noteq> Some (JNum 1))
       (Adapter 400 ''unsupported_parameter'' ''Only n=1 is supported.'')) (\<lambda>_.
     bind_js (map_js normalize_message (case arr_of (getp body ''messages'') of None \<Rightarrow> [] | Some ms \<Rightarrow> ms)) (\<lambda>messages.
     bind_js (guard_js (bad_turn (last messages))
       (Adapter 400 ''invalid_turn'' ''The current turn must end with a non-empty user message.'')) (\<lambda>_.
     bind_js (guard_js (64000 < length (prompt_of num messages))
       (Adapter 413 ''context_too_large'' ''Conversation exceeds the adapter's 64000-character limit.'')) (\<lambda>_.
       Inr \<lparr>ar_model = (case str_of (getp body ''model'') of None \<Rightarrow> '''' | Some s \<Rightarrow> trim s),
            ar_messages = messages,
            ar_prompt = prompt_of num messages,
            ar_stream = wants_stream body\<rparr>)))))))))))"

text \<open>\<open>requestDigest\<close>; \<open>sha\<close> is the SHA-256 hash of bytes.\<close>

definition requestDigest :: "(bytes \<Rightarrow> 'd) \<Rightarrow> (rat \<Rightarrow> string) \<Rightarrow> arena_request \<Rightarrow> 'd" where
  "requestDigest sha num r =
     sha (utf8 (stringify num (JObj [(''model'', JStr (ar_model r)), (''messages'', JArr (ar_messages r))])))"

text \<open>\<open>completion\<close>; the id and the time are parameters.\<close>

definition completion :: "string \<Rightarrow> rat \<Rightarrow> string \<Rightarrow> string \<Rightarrow> json" where
  "completion i created model content = JObj [(''id'', JStr (''chatcmpl-arena-'' @ i)),
     (''object'', JStr ''chat.completion''), (''created'', JNum created), (''model'', JStr model),
     (''choices'', JArr [JObj [(''index'', JNum 0),
        (''message'', JObj [(''role'', JStr ''assistant''), (''content'', JStr content)]),
        (''finish_reason'', JStr ''stop'')]])]"

text \<open>\<^verbatim>\<open>value?.[0]\<close>\<close>

definition elem0 :: "json option \<Rightarrow> json option" where
  "elem0 v = (case v of Some (JArr (x # xs)) \<Rightarrow> Some x | Some (JObj kvs) \<Rightarrow> map_of kvs ''0'' | _ \<Rightarrow> None)"

definition placeholder_reply :: "string \<Rightarrow> bool" where
  "placeholder_reply t = list_ex (starts_with t)
     [''(empty Agent response'', ''(Arena stream error:'', ''(Arena agent attempted'', ''(Arena agent is waiting'']"

definition validateReply :: "json option \<Rightarrow> thrown + string" where
  "validateReply payload =
     (let content = ogetp (ogetp (elem0 (ogetp payload ''choices'')) ''message'') ''content''
      in case str_of content of
           Some t \<Rightarrow> if trim t = [] \<or> placeholder_reply (trim t)
             then Inl (Adapter 502 ''arena_generation_failed'' ''Arena did not return a completed text answer.'')
             else Inr t
         | None \<Rightarrow> Inl (Adapter 502 ''arena_generation_failed'' ''Arena did not return a completed text answer.''))"

section \<open>Laws\<close>

lemma arena_normalizeRequest_client_error: "client_error (normalizeRequest num body)"
  unfolding normalizeRequest_def normalize_message_def
  by (intro client_error_bind client_error_guard client_error_map_js client_error_content_text
      client_error_option client_error_Inr client_error_Inl disjI2) simp_all

lemma arena_normalize_message_Inr:
  assumes "normalize_message m = Inr c"
  shows "\<exists>r t. getp m ''role'' = Some (JStr r) \<and> r \<in> set chat_roles
     \<and> c = JObj [(''role'', JStr r), (''content'', JStr t)]
     \<and> (getp m ''content'' = Some (JStr t) \<or> (\<exists>ps. getp m ''content'' = Some (JArr ps) \<and> t = parts_text ps))"
proof -
  from assms obtain t where "\<not> bad_role m"
    and t: "getp m ''content'' = Some (JStr t) \<or> (\<exists>ps. getp m ''content'' = Some (JArr ps) \<and> t = parts_text ps)"
    and c: "c = JObj [(''role'', JStr (case str_of (getp m ''role'') of None \<Rightarrow> '''' | Some r \<Rightarrow> r)), (''content'', JStr t)]"
    unfolding normalize_message_def bind_js_eq_Inr guard_js_eq_Inr sum.inject
    using content_text_Inr by blast
  then show ?thesis unfolding bad_role_iff by fastforce
qed

lemma arena_normalizeRequest_Inr:
  assumes "normalizeRequest num body = Inr r"
  shows "\<exists>kvs ms s. body = JObj kvs \<and> getp body ''messages'' = Some (JArr ms) \<and> ms \<noteq> []
     \<and> getp body ''model'' = Some (JStr s) \<and> trim s \<noteq> [] \<and> ar_model r = trim s
     \<and> (\<forall>(k, v) \<in> set kvs. k \<in> set acceptedParameters \<or> v = JNull)
     \<and> map_js normalize_message ms = Inr (ar_messages r) \<and> \<not> bad_turn (last (ar_messages r))
     \<and> ar_prompt r = prompt_of num (ar_messages r) \<and> length (ar_prompt r) \<le> 64000
     \<and> ar_stream r = wants_stream body"
proof -
  note d = assms [unfolded normalizeRequest_def bind_js_eq_Inr guard_js_eq_Inr sum.inject not_object_iff
      not_filled_array_iff]
  from d obtain kvs ms where b: "body = JObj kvs" and m: "getp body ''messages'' = Some (JArr ms)" "ms \<noteq> []"
    and s: "\<not> bad_model (getp body ''model'')" by blast
  from s obtain s where s': "getp body ''model'' = Some (JStr s)" "trim s \<noteq> []"
    by (auto simp: bad_model_def split: option.splits)
  from d obtain x where "(case bad_field acceptedParameters unsupportedParameters body of
         Some field \<Rightarrow> Inl (Adapter 400 ''unsupported_parameter'' (field @ '' is not supported by the Arena browser protocol.''))
       | None \<Rightarrow> Inr ()) = Inr x" by blast
  then have f: "\<forall>(k, v) \<in> set kvs. k \<in> set acceptedParameters \<or> v = JNull"
    unfolding b by (rule bad_field_Inr)
  from d obtain messages where "map_js normalize_message (case arr_of (getp body ''messages'') of None \<Rightarrow> [] | Some ms \<Rightarrow> ms) = Inr messages"
    and "\<not> bad_turn (last messages)" and "\<not> 64000 < length (prompt_of num messages)"
    and "r = \<lparr>ar_model = (case str_of (getp body ''model'') of None \<Rightarrow> '''' | Some s \<Rightarrow> trim s),
            ar_messages = messages, ar_prompt = prompt_of num messages, ar_stream = wants_stream body\<rparr>" by blast
  with b m s' f show ?thesis by simp
qed

lemma arena_bad_turn_last:
  assumes "map_js normalize_message ms = Inr cs" "ms \<noteq> []" "\<not> bad_turn (last cs)"
  shows "\<exists>t. user_turn (last ms) t"
  using arena_normalize_message_Inr [OF map_js_last [OF assms(1,2)]] assms(3)
  by (auto simp: bad_turn_def user_turn_def)

interpretation arena_norm: chat_normalizer "normalizeRequest num" ar_model ar_stream acceptedParameters for num
proof
  show "\<exists>s c m. e = Adapter s c m \<and> 400 \<le> s \<and> s < 500" if "normalizeRequest num b = Inl e" for b e
    using arena_normalizeRequest_client_error that unfolding client_error_def by blast
  show "k \<in> set acceptedParameters \<or> v = JNull"
    if "normalizeRequest num (JObj kvs) = Inr r" "(k, v) \<in> set kvs" for kvs r k v
    using arena_normalizeRequest_Inr [OF that(1)] that(2) by fast
  show "\<exists>kvs. b = JObj kvs" if "normalizeRequest num b = Inr r" for b r
    using arena_normalizeRequest_Inr [OF that] by blast
  show "\<exists>s. getp b ''model'' = Some (JStr s) \<and> ar_model r = trim s \<and> trim s \<noteq> []"
    if "normalizeRequest num b = Inr r" for b r
    using arena_normalizeRequest_Inr [OF that] by blast
  show "ar_stream r = wants_stream b" if "normalizeRequest num b = Inr r" for b r
    using arena_normalizeRequest_Inr [OF that] by blast
  show "\<exists>ms t. getp b ''messages'' = Some (JArr ms) \<and> ms \<noteq> [] \<and> user_turn (last ms) t"
    if "normalizeRequest num b = Inr r" for b r
    using arena_normalizeRequest_Inr [OF that] arena_bad_turn_last by blast
qed

lemma arena_normalized_no_num:
  assumes "map_js normalize_message ms = Inr cs"
  shows "no_num (JArr cs)"
proof -
  have "no_num c" if "normalize_message m = Inr c" for m c
    using arena_normalize_message_Inr [OF that] by auto
  with assms [unfolded map_js_Inr_iff] have "no_num_elems cs"
    by (induction rule: list_all2_induct) simp_all
  then show ?thesis by simp
qed

lemma requestDigest_inj:
  assumes "normalizeRequest num b1 = Inr r1" and "normalizeRequest num b2 = Inr r2"
    and "requestDigest sha num r1 = requestDigest sha num r2"
    and "\<And>x y. sha x = sha y \<Longrightarrow> x = y"
  shows "ar_model r1 = ar_model r2 \<and> ar_messages r1 = ar_messages r2"
proof -
  let ?j = "\<lambda>r. JObj [(''model'', JStr (ar_model r)), (''messages'', JArr (ar_messages r))]"
  have "stringify num (?j r1) = stringify num (?j r2)"
    using assms(3,4) utf8_inj unfolding requestDigest_def by blast
  moreover have "no_num (?j r1)" "no_num (?j r2)"
    using arena_normalizeRequest_Inr [OF assms(1)] arena_normalizeRequest_Inr [OF assms(2)] arena_normalized_no_num by auto
  ultimately have "?j r1 = ?j r2" using stringify_inj by blast
  then show ?thesis by simp
qed

text \<open>
  The digest that guards idempotent replays identifies the turn: accepted requests with the
  same digest have the same model and the same messages, so they also send the same prompt,
  if the hash has no collisions; and an accepted prompt has at most 64000 characters.
\<close>

theorem digest_identifies_turn:
  assumes "normalizeRequest num b1 = Inr r1" and "normalizeRequest num b2 = Inr r2"
    and "requestDigest sha num r1 = requestDigest sha num r2"
    and "\<And>x y. sha x = sha y \<Longrightarrow> x = y"
  shows "ar_model r1 = ar_model r2 \<and> ar_messages r1 = ar_messages r2 \<and> ar_prompt r1 = ar_prompt r2
     \<and> length (ar_prompt r1) \<le> 64000"
  using requestDigest_inj [OF assms] arena_normalizeRequest_Inr [OF assms(1)] arena_normalizeRequest_Inr [OF assms(2)] by auto

definition witness_body :: "json \<Rightarrow> json" where
  "witness_body c = JObj [(''model'', JStr '' m ''), (''messages'', JArr [
     JObj [(''role'', JStr ''user''), (''content'', c)]])]"

lemma arena_witness_isl:
  "\<not> isl (normalizeRequest (\<lambda>_. ''0'') (witness_body (JStr ''a'')))"
proof -
  let ?m = "JObj [(''role'', JStr ''user''), (''content'', JStr ''a'')]"
  have ws: "trim '' m '' = ''m''" "trim ''a'' = ''a''" by code_simp+
  have "normalize_message ?m = Inr ?m" by code_simp
  moreover have "length (prompt_of (\<lambda>_. ''0'') [?m]) \<le> 64000"
    by (simp add: prompt_of_def json_quote_def quote_char_def Let_def)
  ultimately show ?thesis
    by (simp add: normalizeRequest_def witness_body_def bad_model_def not_filled_array_def filled_or_odd_def
        bad_field_def acceptedParameters_def unsupportedParameters_def bad_stream_options_def bad_turn_def ws)
qed

theorem digest_identifies_turn_witness:
  "\<exists>r. normalizeRequest (\<lambda>_. ''0'') (witness_body (JStr ''a'')) = Inr r \<and> length (ar_prompt r) \<le> 64000"
proof -
  obtain r where r: "normalizeRequest (\<lambda>_. ''0'') (witness_body (JStr ''a'')) = Inr r"
    using not_isl_ex [OF arena_witness_isl] by blast
  from digest_identifies_turn [OF r r, of id] r show ?thesis by auto
qed

end
