(* ===== verification/Arena_State.thy ===== *)
theory Arena_State
  imports Arena_Request
begin

text \<open>
  \<^verbatim>\<open>src/tools/arena2api/src/state.mjs\<close>: the persisted binding of Arena sessions to clients
  and the idempotency records. The state has the value in memory and the value in the state
  file; a save may fail, which throws and leaves the file as it was (the file is replaced by
  a rename), and a restart reads the file again.
\<close>

section \<open>State\<close>

record entry =
  en_digest :: string
  en_completed :: bool
  en_payload :: "json option"

record asession =
  as_client :: string
  as_requests :: "(string \<times> entry) list"
  as_claimedAt :: string
  as_pending :: "(string \<times> string) option"

type_synonym sessions_value = "(string \<times> asession) list"

record session_state =
  mem :: sessions_value
  disk :: sessions_value

text \<open>The error of a failed write: an I/O error of the file system.\<close>

definition io_error :: thrown where
  "io_error = js_error_of ''Error'' ''write failed''"

definition saveJSON :: "bool \<Rightarrow> session_state \<Rightarrow> (thrown + unit) \<times> session_state" where
  "saveJSON writable st = (if writable then (Inr (), st\<lparr>disk := mem st\<rparr>) else (Inl io_error, st))"

text \<open>The constructor on a file that was written by \<open>saveJSON\<close>, or on no file.\<close>

definition restart :: "session_state \<Rightarrow> session_state" where
  "restart st = st\<lparr>mem := disk st\<rparr>"

definition init_state :: session_state where
  "init_state = \<lparr>mem = [], disk = []\<rparr>"

definition claim :: "bool \<Rightarrow> string \<Rightarrow> string \<Rightarrow> string \<Rightarrow> session_state \<Rightarrow> (thrown + unit) \<times> session_state" where
  "claim writable now sessionId clientId st = (case map_of (mem st) sessionId of
     Some previous \<Rightarrow>
       if as_client previous \<noteq> clientId then
         (Inl (Adapter 409 ''session_already_bound''
            ''This Arena session belongs to another client conversation. Configure a separate session.''), st)
       else (Inr (), st)
   | None \<Rightarrow> saveJSON writable (st\<lparr>mem := AList.update sessionId
       \<lparr>as_client = clientId, as_requests = [], as_claimedAt = now, as_pending = None\<rparr> (mem st)\<rparr>))"

text \<open>The session object as \<open>begin\<close> and \<open>finish\<close> leave it.\<close>

definition opened :: "string \<Rightarrow> string \<Rightarrow> asession \<Rightarrow> asession" where
  "opened key digest session = session\<lparr>as_pending := Some (key, digest),
     as_requests := (if key \<noteq> [] then AList.update key
        \<lparr>en_digest = digest, en_completed = False, en_payload = None\<rparr> (as_requests session)
      else as_requests session)\<rparr>"

definition finished :: "string \<Rightarrow> json \<Rightarrow> asession \<Rightarrow> asession" where
  "finished key payload session = session\<lparr>as_pending := None,
     as_requests := (if key \<noteq> [] then AList.update key
        ((the (map_of (as_requests session) key))\<lparr>en_completed := True, en_payload := Some payload\<rparr>)
        (as_requests session) else as_requests session)\<rparr>"

text \<open>
  \<open>begin\<close>: a stored reply, or \<open>None\<close> when the turn may be generated. An empty key stands for
  a request without one. A session that was never claimed is a type error.
\<close>

definition begin_turn :: "bool \<Rightarrow> string \<Rightarrow> string \<Rightarrow> string \<Rightarrow> session_state
    \<Rightarrow> (thrown + json option) \<times> session_state" where
  "begin_turn writable sessionId key digest st = (case map_of (mem st) sessionId of
     None \<Rightarrow> (Inl (type_error ''Cannot read properties of undefined''), st)
   | Some session \<Rightarrow>
       (case (if key = [] then None else map_of (as_requests session) key) of
          Some prior \<Rightarrow>
            if en_digest prior \<noteq> digest then
              (Inl (Adapter 409 ''idempotency_conflict'' ''This idempotency key was used for a different request.''), st)
            else if \<not> en_completed prior then
              (Inl (Adapter 409 ''turn_outcome_unknown''
                 ''The previous turn did not complete locally. Inspect the Arena session before retrying with a new key.''), st)
            else (Inr (en_payload prior), st)
        | None \<Rightarrow>
            if as_pending session \<noteq> None then
              (Inl (Adapter 409 ''turn_outcome_unknown''
                 ''A previous turn was interrupted. Inspect the Arena session and configure a fresh dedicated session before continuing.''), st)
            else if key \<noteq> [] \<and> 500 \<le> length (as_requests session) then
              (Inl (Adapter 409 ''session_history_limit''
                 ''This session has reached its persisted request limit. Configure a new dedicated Arena session.''), st)
            else
              (case saveJSON writable (st\<lparr>mem := AList.update sessionId (opened key digest session) (mem st)\<rparr>) of
                 (Inl e, st') \<Rightarrow> (Inl e, st')
               | (Inr _, st') \<Rightarrow> (Inr None, st'))))"

definition finish_turn :: "bool \<Rightarrow> string \<Rightarrow> string \<Rightarrow> json \<Rightarrow> session_state \<Rightarrow> (thrown + unit) \<times> session_state" where
  "finish_turn writable sessionId key payload st = (case map_of (mem st) sessionId of
     None \<Rightarrow> (Inl (type_error ''Cannot read properties of undefined''), st)
   | Some session \<Rightarrow>
       if key \<noteq> [] \<and> map_of (as_requests session) key = None then
         (Inl (type_error ''Cannot set properties of undefined''), st)
       else
         saveJSON writable (st\<lparr>mem := AList.update sessionId (finished key payload session) (mem st)\<rparr>))"

section \<open>Runs\<close>

text \<open>
  A run of the server over the state, with two history variables: the turns handed to the
  upstream so far, and those of the current process that have not finished.
\<close>

record run =
  r_state :: session_state
  r_generated :: "(string \<times> string) list"
  r_open :: "(string \<times> string) list"

definition init_run :: run where
  "init_run = \<lparr>r_state = init_state, r_generated = [], r_open = []\<rparr>"

inductive run_step :: "run \<Rightarrow> run \<Rightarrow> bool" where
  rs_claim: "run_step r (r\<lparr>r_state := snd (claim writable now sid client (r_state r))\<rparr>)"
| rs_begin: "begin_turn writable sid key digest (r_state r) = (Inr None, st')
    \<Longrightarrow> run_step r (r\<lparr>r_state := st', r_generated := r_generated r @ [(sid, key)], r_open := r_open r @ [(sid, key)]\<rparr>)"
| rs_answer: "fst (begin_turn writable sid key digest (r_state r)) \<noteq> Inr None
    \<Longrightarrow> run_step r (r\<lparr>r_state := snd (begin_turn writable sid key digest (r_state r))\<rparr>)"
| rs_finish: "(sid, key) \<in> set (r_open r)
    \<Longrightarrow> run_step r (r\<lparr>r_state := snd (finish_turn writable sid key payload (r_state r)),
                      r_open := remove1 (sid, key) (r_open r)\<rparr>)"
| rs_fail: "run_step r (r\<lparr>r_open := remove1 t (r_open r)\<rparr>)"
| rs_restart: "run_step r (r\<lparr>r_state := restart (r_state r), r_open := []\<rparr>)"

definition recorded :: "sessions_value \<Rightarrow> string \<Rightarrow> string \<Rightarrow> bool" where
  "recorded v sid key = (\<exists>s. map_of v sid = Some s \<and> map_of (as_requests s) key \<noteq> None)"

text \<open>Records are only ever added: every operation keeps those in memory, and a save those on disk.\<close>

lemma recorded_update:
  assumes "recorded v sid key" "\<And>s. map_of v i = Some s \<Longrightarrow> dom (map_of (as_requests s)) \<subseteq> dom (map_of (as_requests s'))"
  shows "recorded (AList.update i s' v) sid key"
  using assms by (auto simp: recorded_def)

definition payload_kept :: "sessions_value \<Rightarrow> bool" where
  "payload_kept v \<longleftrightarrow> (\<forall>sid s key en. map_of v sid = Some s \<longrightarrow> map_of (as_requests s) key = Some en
     \<longrightarrow> en_completed en \<longrightarrow> en_payload en \<noteq> None)"

definition grows :: "session_state \<Rightarrow> session_state \<Rightarrow> bool" where
  "grows st st' \<longleftrightarrow> (\<forall>sid key. recorded (mem st) sid key \<longrightarrow> recorded (mem st') sid key)
     \<and> (payload_kept (mem st) \<longrightarrow> payload_kept (mem st')) \<and> (disk st' = disk st \<or> disk st' = mem st')"

lemma grows_refl: "grows st st"
  by (simp add: grows_def)

lemma grows_save:
  assumes "\<And>s. map_of (mem st) i = Some s \<Longrightarrow> dom (map_of (as_requests s)) \<subseteq> dom (map_of (as_requests s'))"
    and "payload_kept (mem st) \<Longrightarrow> payload_kept (AList.update i s' (mem st))"
  shows "grows st (snd (saveJSON writable (st\<lparr>mem := AList.update i s' (mem st)\<rparr>)))"
  using recorded_update [OF _ assms(1)] assms(2) by (simp add: grows_def saveJSON_def)

lemma payload_kept_update:
  assumes "payload_kept v"
    and "\<And>key en. map_of (as_requests s') key = Some en \<Longrightarrow> en_completed en \<Longrightarrow> en_payload en \<noteq> None"
  shows "payload_kept (AList.update i s' v)"
  using assms by (simp add: payload_kept_def)

lemma claim_grows: "grows st (snd (claim writable now sid client st))"
proof (cases "map_of (mem st) sid")
  case None
  show ?thesis
    unfolding claim_def None option.case by (rule grows_save) (auto simp: None intro: payload_kept_update)
next
  case (Some s)
  then show ?thesis by (simp add: claim_def grows_refl)
qed

lemma payload_kept_session:
  "payload_kept v \<Longrightarrow> map_of v sid = Some s \<Longrightarrow> map_of (as_requests s) key = Some en \<Longrightarrow> en_completed en
     \<Longrightarrow> en_payload en \<noteq> None"
  unfolding payload_kept_def by blast

lemma begin_cases:
  "(snd (begin_turn writable sid key digest st) = st
      \<and> (payload_kept (mem st) \<longrightarrow> fst (begin_turn writable sid key digest st) \<noteq> Inr None))
   \<or> (\<exists>s. map_of (mem st) sid = Some s \<and> (key \<noteq> [] \<longrightarrow> map_of (as_requests s) key = None) \<and> as_pending s = None
       \<and> snd (begin_turn writable sid key digest st)
           = snd (saveJSON writable (st\<lparr>mem := AList.update sid (opened key digest s) (mem st)\<rparr>))
       \<and> (fst (begin_turn writable sid key digest st) = Inr None \<longleftrightarrow> writable))"
proof (cases "map_of (mem st) sid")
  case None
  then show ?thesis by (simp add: begin_turn_def)
next
  case s: (Some s)
  show ?thesis
  proof (cases "(if key = [] then None else map_of (as_requests s) key)")
    case (Some prior)
    then have "key \<noteq> []" "map_of (as_requests s) key = Some prior" by (auto split: if_splits)
    with s payload_kept_session [of "mem st" sid s key prior] show ?thesis
      by (auto simp: begin_turn_def)
  next
    case None
    then have k: "key \<noteq> [] \<longrightarrow> map_of (as_requests s) key = None" by (auto split: if_splits)
    show ?thesis
    proof (cases "as_pending s \<noteq> None \<or> (key \<noteq> [] \<and> 500 \<le> length (as_requests s))")
      case True
      with s None show ?thesis unfolding begin_turn_def s option.case None by auto
    next
      case False
      then have p: "as_pending s = None" by blast
      have "begin_turn writable sid key digest st =
          (case saveJSON writable (st\<lparr>mem := AList.update sid (opened key digest s) (mem st)\<rparr>) of
             (Inl e, st') \<Rightarrow> (Inl e, st') | (Inr _, st') \<Rightarrow> (Inr None, st'))"
        using False unfolding begin_turn_def s option.case None by auto
      then show ?thesis
        using s k p by (intro disjI2 exI [of _ s]) (auto simp: saveJSON_def)
    qed
  qed
qed

lemma begin_grows: "grows st (snd (begin_turn writable sid key digest st))"
proof -
  have "grows st (snd (saveJSON writable (st\<lparr>mem := AList.update sid (opened key digest s) (mem st)\<rparr>)))"
    if s: "map_of (mem st) sid = Some s" for s
  proof (rule grows_save)
    show "dom (map_of (as_requests t)) \<subseteq> dom (map_of (as_requests (opened key digest s)))"
      if "map_of (mem st) sid = Some t" for t
      using that s by (auto simp: opened_def)
    assume k: "payload_kept (mem st)"
    show "payload_kept (AList.update sid (opened key digest s) (mem st))"
      by (rule payload_kept_update [OF k])
        (use payload_kept_session [OF k s] in \<open>auto simp: opened_def split: if_splits\<close>)
  qed
  then show ?thesis using begin_cases [of writable sid key digest st] grows_refl by metis
qed

lemma finish_grows: "grows st (snd (finish_turn writable sid key payload st))"
proof (cases "map_of (mem st) sid")
  case None
  then show ?thesis by (simp add: finish_turn_def grows_refl)
next
  case s: (Some s)
  show ?thesis
  proof (cases "key \<noteq> [] \<and> map_of (as_requests s) key = None")
    case True
    with s show ?thesis by (simp add: finish_turn_def grows_refl)
  next
    case False
    show ?thesis
      unfolding finish_turn_def s option.case if_not_P [OF False]
    proof (rule grows_save)
      show "dom (map_of (as_requests t)) \<subseteq> dom (map_of (as_requests (finished key payload s)))"
        if "map_of (mem st) sid = Some t" for t
        using that s by (auto simp: finished_def)
      assume k: "payload_kept (mem st)"
      show "payload_kept (AList.update sid (finished key payload s) (mem st))"
        by (rule payload_kept_update [OF k])
          (use payload_kept_session [OF k s] in \<open>auto simp: finished_def split: if_splits\<close>)
    qed
  qed
qed

text \<open>The invariant of a run: every turn with a key that was generated is on record, in memory and on disk.\<close>

definition keyed :: "(string \<times> string) list \<Rightarrow> (string \<times> string) list" where
  "keyed ts = filter (\<lambda>t. snd t \<noteq> []) ts"

definition run_inv :: "run \<Rightarrow> bool" where
  "run_inv r \<longleftrightarrow> distinct (keyed (r_generated r))
     \<and> (\<forall>(sid, key) \<in> set (keyed (r_generated r)). recorded (mem (r_state r)) sid key \<and> recorded (disk (r_state r)) sid key)
     \<and> payload_kept (mem (r_state r)) \<and> payload_kept (disk (r_state r))"

lemma run_inv_grows:
  assumes "run_inv r" "grows (r_state r) st'"
  shows "run_inv (r\<lparr>r_state := st'\<rparr>)"
  using assms by (auto simp: run_inv_def grows_def)

lemma run_inv_open [simp]: "run_inv (r\<lparr>r_open := ts\<rparr>) = run_inv r"
  by (simp add: run_inv_def)

lemma run_inv_begin:
  assumes inv: "run_inv r" and b: "begin_turn writable sid key digest (r_state r) = (Inr None, st')"
  shows "run_inv (r\<lparr>r_state := st', r_generated := r_generated r @ [(sid, key)], r_open := ts\<rparr>)"
proof -
  let ?st = "r_state r"
  have g: "grows ?st st'" using begin_grows [of ?st writable sid key digest] b by simp
  have "payload_kept (mem ?st)" using inv by (simp add: run_inv_def)
  with begin_cases [of writable sid key digest ?st] b obtain s where
    s: "map_of (mem ?st) sid = Some s" "key \<noteq> [] \<longrightarrow> map_of (as_requests s) key = None"
      "st' = snd (saveJSON writable (?st\<lparr>mem := AList.update sid (opened key digest s) (mem ?st)\<rparr>))" "writable"
    by auto
  have new: "key \<noteq> [] \<longrightarrow> \<not> recorded (mem ?st) sid key"
    using s(1,2) by (simp add: recorded_def)
  have rec: "mem st' = disk st'" "key \<noteq> [] \<longrightarrow> recorded (mem st') sid key"
    using s(3,4) by (auto simp: saveJSON_def recorded_def opened_def)
  show ?thesis
    using inv g new rec by (auto simp: run_inv_def grows_def keyed_def)
qed

lemma run_inv_step: "run_step r r' \<Longrightarrow> run_inv r \<Longrightarrow> run_inv r'"
proof (induction rule: run_step.induct)
  case (rs_begin writable sid key digest r st')
  then show ?case using run_inv_begin by blast
next
  case (rs_restart r)
  then show ?case by (auto simp: run_inv_def restart_def)
qed (use run_inv_grows claim_grows begin_grows finish_grows in \<open>force+\<close>)

lemma run_inv_reachable:
  assumes "run_step\<^sup>*\<^sup>* init_run r"
  shows "run_inv r"
  using assms
proof (induction rule: rtranclp_induct)
  case base
  then show ?case by (simp add: run_inv_def init_run_def keyed_def payload_kept_def init_state_def)
next
  case (step r r')
  then show ?case using run_inv_step by blast
qed

lemma count_list_distinct: "distinct xs \<Longrightarrow> count_list xs x \<le> 1"
  by (induction xs) (auto simp: count_list_0_iff)

text \<open>
  C1: a turn with an idempotency key is handed to the upstream at most once per Arena session,
  across any sequence of claims, turns, failures, failed writes of the state file, crashes
  and restarts.
\<close>

theorem keyed_turn_generated_at_most_once:
  assumes "run_step\<^sup>*\<^sup>* init_run r" and "key \<noteq> []"
  shows "count_list (r_generated r) (sid, key) \<le> 1"
proof -
  have "distinct (keyed (r_generated r))" using run_inv_reachable [OF assms(1)] by (simp add: run_inv_def)
  then have "count_list (keyed (r_generated r)) (sid, key) \<le> 1" by (rule count_list_distinct)
  moreover have "count_list (keyed ts) (sid, key) = count_list ts (sid, key)" for ts
    using assms(2) by (induction ts) (auto simp: keyed_def)
  ultimately show ?thesis by simp
qed

definition witness_run :: run where
  "witness_run = \<lparr>r_state = snd (begin_turn True ''s'' ''k'' ''d'' (snd (claim True ''t'' ''s'' ''c'' init_state))),
     r_generated = [(''s'', ''k'')], r_open = [(''s'', ''k'')]\<rparr>"

lemma witness_run_reachable: "run_step\<^sup>*\<^sup>* init_run witness_run"
proof -
  let ?r1 = "init_run\<lparr>r_state := snd (claim True ''t'' ''s'' ''c'' (r_state init_run))\<rparr>"
  have one: "run_step init_run ?r1" by (rule rs_claim)
  have "begin_turn True ''s'' ''k'' ''d'' (r_state ?r1) = (Inr None, r_state witness_run)"
    by (simp add: init_run_def witness_run_def claim_def begin_turn_def saveJSON_def init_state_def)
  from rs_begin [OF this] have "run_step ?r1 witness_run"
    by (simp add: init_run_def witness_run_def)
  with one show ?thesis by (blast intro: rtranclp.intros)
qed

theorem keyed_turn_generated_at_most_once_witness:
  "count_list (r_generated witness_run) (''s'', ''k'') \<le> 1 \<and> (''s'', ''k'') \<in> set (r_generated witness_run)"
  using keyed_turn_generated_at_most_once [OF witness_run_reachable, of "''k''" "''s''"]
  by (simp add: witness_run_def)

section \<open>Replays\<close>

text \<open>The record of a finished turn, in memory and on disk, with no such turn open.\<close>

definition replayable :: "run \<Rightarrow> string \<Rightarrow> string \<Rightarrow> entry \<Rightarrow> bool" where
  "replayable r sid key en \<longleftrightarrow> (sid, key) \<notin> set (r_open r)
     \<and> (\<exists>s. map_of (mem (r_state r)) sid = Some s \<and> map_of (as_requests s) key = Some en)
     \<and> (\<exists>s. map_of (disk (r_state r)) sid = Some s \<and> map_of (as_requests s) key = Some en)"

definition has_entry :: "sessions_value \<Rightarrow> string \<Rightarrow> string \<Rightarrow> entry \<Rightarrow> bool" where
  "has_entry v sid key en \<longleftrightarrow> (\<exists>s. map_of v sid = Some s \<and> map_of (as_requests s) key = Some en)"

lemma replayable_iff:
  "replayable r sid key en \<longleftrightarrow> (sid, key) \<notin> set (r_open r)
     \<and> has_entry (mem (r_state r)) sid key en \<and> has_entry (disk (r_state r)) sid key en"
  by (simp add: replayable_def has_entry_def)

lemma claim_has_entry:
  assumes "has_entry (mem st) sid key en" "has_entry (disk st) sid key en"
  shows "has_entry (mem (snd (claim w now i c st))) sid key en \<and> has_entry (disk (snd (claim w now i c st))) sid key en"
  using assms by (auto simp: claim_def saveJSON_def has_entry_def split: option.splits)

lemma begin_has_entry:
  assumes "has_entry (mem st) sid key en" "has_entry (disk st) sid key en" "key \<noteq> []"
  shows "has_entry (mem (snd (begin_turn w i k d st))) sid key en \<and> has_entry (disk (snd (begin_turn w i k d st))) sid key en"
  using begin_cases [of w i k d st]
proof
  assume "snd (begin_turn w i k d st) = st \<and> (payload_kept (mem st) \<longrightarrow> fst (begin_turn w i k d st) \<noteq> Inr None)"
  then show ?thesis using assms by simp
next
  assume "\<exists>s. map_of (mem st) i = Some s \<and> (k \<noteq> [] \<longrightarrow> map_of (as_requests s) k = None) \<and> as_pending s = None
       \<and> snd (begin_turn w i k d st) = snd (saveJSON w (st\<lparr>mem := AList.update i (opened k d s) (mem st)\<rparr>))
       \<and> (fst (begin_turn w i k d st) = Inr None \<longleftrightarrow> w)"
  then obtain s where s: "map_of (mem st) i = Some s" "k \<noteq> [] \<longrightarrow> map_of (as_requests s) k = None"
    "snd (begin_turn w i k d st) = snd (saveJSON w (st\<lparr>mem := AList.update i (opened k d s) (mem st)\<rparr>))" by blast
  then show ?thesis
    using assms by (auto simp: saveJSON_def has_entry_def opened_def)
qed

lemma finish_has_entry:
  assumes "has_entry (mem st) sid key en" "has_entry (disk st) sid key en" "(i, k) \<noteq> (sid, key)" "key \<noteq> []"
  shows "has_entry (mem (snd (finish_turn w i k p st))) sid key en \<and> has_entry (disk (snd (finish_turn w i k p st))) sid key en"
  using assms by (auto simp: finish_turn_def saveJSON_def has_entry_def finished_def split: option.splits)

lemma begin_fresh:
  assumes "begin_turn w i k d st = (Inr None, st')" "has_entry (mem st) sid key en" "payload_kept (mem st)" "key \<noteq> []"
  shows "(i, k) \<noteq> (sid, key)"
  using begin_cases [of w i k d st] assms by (auto simp: has_entry_def)

lemma replayable_step:
  assumes "run_step r r'" "run_inv r" "replayable r sid key en" "key \<noteq> []"
  shows "replayable r' sid key en"
  using assms
proof (induction rule: run_step.induct)
  case (rs_claim r w now i c)
  then show ?case using claim_has_entry by (simp add: replayable_iff)
next
  case (rs_begin w i k d r st')
  then have "(i, k) \<noteq> (sid, key)"
    using begin_fresh [OF rs_begin.hyps, of sid key en] by (simp add: run_inv_def replayable_iff)
  then show ?case
    using rs_begin begin_has_entry [of "r_state r" sid key en w i k d] by (auto simp: replayable_iff)
next
  case (rs_answer w i k d r)
  then show ?case using begin_has_entry by (simp add: replayable_iff)
next
  case (rs_finish i k r w p)
  then have "(i, k) \<noteq> (sid, key)" by (auto simp: replayable_iff)
  with rs_finish show ?case
    using finish_has_entry [of "r_state r" sid key en i k w p] notin_set_remove1 by (auto simp: replayable_iff)
next
  case (rs_fail r t)
  then show ?case using notin_set_remove1 by (auto simp: replayable_iff)
next
  case (rs_restart r)
  then show ?case by (simp add: replayable_iff restart_def)
qed

lemma replayable_steps:
  assumes "run_step\<^sup>*\<^sup>* r r'" "run_inv r" "replayable r sid key en" "key \<noteq> []"
  shows "replayable r' sid key en \<and> run_inv r'"
  using assms
proof (induction rule: rtranclp_induct)
  case (step r' r'')
  then show ?case using replayable_step run_inv_step by blast
qed simp

text \<open>A turn is open at most once.\<close>

definition open_inv :: "run \<Rightarrow> bool" where
  "open_inv r \<longleftrightarrow> distinct (keyed (r_open r)) \<and> set (r_open r) \<subseteq> set (r_generated r)"

lemma keyed_remove1: "distinct (keyed ts) \<Longrightarrow> distinct (keyed (remove1 t ts))"
  by (simp add: keyed_def filter_remove1)

lemma open_inv_step: "run_step r r' \<Longrightarrow> run_inv r \<Longrightarrow> open_inv r \<Longrightarrow> open_inv r'"
proof (induction rule: run_step.induct)
  case (rs_begin w i k d r st')
  have "(i, k) \<notin> set (r_generated r)" if "k \<noteq> []"
  proof
    assume "(i, k) \<in> set (r_generated r)"
    then have "recorded (mem (r_state r)) i k" using rs_begin(2) that by (auto simp: run_inv_def keyed_def)
    then obtain en where "has_entry (mem (r_state r)) i k en" by (auto simp: recorded_def has_entry_def)
    with begin_fresh [OF rs_begin.hyps this _ that] rs_begin(2) show False by (simp add: run_inv_def)
  qed
  with rs_begin show ?case by (auto simp: open_inv_def keyed_def)
next
  case (rs_finish i k r w p)
  then show ?case using set_remove1_subset keyed_remove1 by (fastforce simp: open_inv_def)
next
  case (rs_fail r t)
  then show ?case using set_remove1_subset keyed_remove1 by (fastforce simp: open_inv_def)
qed (auto simp: open_inv_def keyed_def)

lemma open_inv_reachable:
  assumes "run_step\<^sup>*\<^sup>* init_run r"
  shows "open_inv r"
  using assms
proof (induction rule: rtranclp_induct)
  case base
  then show ?case by (simp add: open_inv_def init_run_def keyed_def)
next
  case (step r r')
  then show ?case using open_inv_step run_inv_reachable by blast
qed

lemma remove1_keyed:
  assumes "distinct (keyed ts)" "snd t \<noteq> []"
  shows "t \<notin> set (remove1 t ts)"
proof -
  have "remove1 t (keyed ts) = keyed (remove1 t ts)" using assms(2) by (simp add: keyed_def filter_remove1)
  then have "t \<notin> set (keyed (remove1 t ts))" using assms(1) by (metis distinct_remove1_removeAll removeAll_id set_removeAll Diff_iff singletonI)
  with assms(2) show ?thesis by (simp add: keyed_def)
qed

lemma finish_replayable:
  assumes "run_step\<^sup>*\<^sup>* init_run r" "(sid, key) \<in> set (r_open r)" "key \<noteq> []"
    and "finish_turn True sid key payload (r_state r) = (Inr u, st')"
  shows "\<exists>en. en_completed en \<and> en_payload en = Some payload
     \<and> replayable (r\<lparr>r_state := st', r_open := remove1 (sid, key) (r_open r)\<rparr>) sid key en"
proof -
  from assms(3,4) obtain s en where s: "map_of (mem (r_state r)) sid = Some s" "map_of (as_requests s) key = Some en"
    by (auto simp: finish_turn_def split: option.splits if_splits)
  have "st' = (r_state r)\<lparr>mem := AList.update sid (finished key payload s) (mem (r_state r)),
      disk := AList.update sid (finished key payload s) (mem (r_state r))\<rparr>"
    using assms(3,4) s by (auto simp: finish_turn_def saveJSON_def)
  then have "has_entry (mem st') sid key (en\<lparr>en_completed := True, en_payload := Some payload\<rparr>)
      \<and> has_entry (disk st') sid key (en\<lparr>en_completed := True, en_payload := Some payload\<rparr>)"
    using s assms(3) by (simp add: has_entry_def finished_def)
  moreover have "(sid, key) \<notin> set (remove1 (sid, key) (r_open r))"
    using remove1_keyed open_inv_reachable [OF assms(1)] assms(3) by (simp add: open_inv_def)
  ultimately show ?thesis
    by (intro exI [of _ "en\<lparr>en_completed := True, en_payload := Some payload\<rparr>"]) (simp add: replayable_iff)
qed



end
