(* ===== verification/Arena_Login.thy ===== *)
theory Arena_Login
  imports Login_Base Arena_Request
begin

text \<open>
  \<^verbatim>\<open>src/tools/arena2api/src/login.mjs\<close> and \<^verbatim>\<open>arena-login.mjs\<close>: the classification of
  login failures, which must not repeat a raw error text, and the sign-in sessions, of which
  one runs at a time. The browser that performs the sign-in is the environment: it settles
  a session's task with an account or an error.
\<close>

section \<open>Login failures\<close>

definition failures :: "(string \<times> int \<times> string) list" where
  "failures = [
     (''arena_access_blocked'', 503, ''Arena blocked access from the server browser. Check the server network or proxy before retrying.''),
     (''arena_verification_required'', 503, ''Arena rejected security verification during chat. Confirm that the account can send messages on the Arena website.''),
     (''login_invalid_credentials'', 401, ''Arena rejected the email or password.''),
     (''session_not_usable'', 403, ''Arena accepted sign-in but the account session is unavailable.''),
     (''session_not_ready'', 502, ''Arena signed in but did not return a usable text session.''),
     (''browser_unavailable'', 503, ''The Arena browser could not start. Check the browser installation.''),
     (''arena_network_error'', 502, ''The server browser could not reach Arena. Check the server network or proxy.''),
     (''arena_login_timeout'', 504, ''Arena login or session preparation timed out. Retry later.''),
     (''arena_session_prepare_failed'', 502, ''Arena signed in but could not create or verify an Agent session.''),
     (''login_failed'', 502, ''Arena login failed. Retry or check the server login diagnostics.'')]"

definition stages :: "string list" where
  "stages = [''login'', ''browser_launch'', ''arena_home'', ''email_sign_in'', ''agent_session'', ''session_probe'', ''save_session'']"

text \<open>\<^verbatim>\<open>/text/i.test(s)\<close> for a literal text in lower case.\<close>

definition mentions :: "string \<Rightarrow> string \<Rightarrow> bool" where
  "mentions s text = contains (lower s) text"

definition arenaRecaptchaRejected :: "string \<Rightarrow> bool" where
  "arenaRecaptchaRejected s = mentions s ''recaptcha validation failed''"

text \<open>\<^verbatim>\<open>/a.*(?:b|c)/i\<close>: \<open>a\<close> and, later on the same line, one of \<open>bs\<close>.\<close>

definition line_ends :: "char \<Rightarrow> bool" where
  "line_ends c = (c = CHR 0x0A \<or> c = CHR 0x0D)"

fun mentions_then :: "string \<Rightarrow> string list \<Rightarrow> string \<Rightarrow> bool" where
  "mentions_then a bs [] = False"
| "mentions_then a bs (c # s) =
     ((starts_with (c # s) a \<and> list_ex (contains (takeWhile (\<lambda>x. \<not> line_ends x) (drop (length a) (c # s)))) bs)
      \<or> mentions_then a bs s)"

text \<open>An error object, with the fields the classification reads.\<close>

record login_error =
  le_arena :: bool
  le_code :: "string option"
  le_stage :: "string option"
  le_message :: "string option"
  le_name :: string
  le_upstreamStatus :: "rat option"
  le_status :: "rat option"

text \<open>\<^verbatim>\<open>/^Arena login failed \((\d{3})\):/.exec(message)?.[1]\<close>, as a number\<close>

definition login_status_of :: "string \<Rightarrow> rat option" where
  "login_status_of m =
     (let rest = drop (length ''Arena login failed ('') m; d = take 3 rest
      in if starts_with m ''Arena login failed ('' \<and> length d = 3 \<and> list_all is_digit d \<and> starts_with (drop 3 rest) ''):''
         then Some (of_nat (foldl (\<lambda>n c. 10 * n + (of_char c - 48)) 0 d)) else None)"

definition or_num :: "rat option \<Rightarrow> rat option \<Rightarrow> rat option" where
  "or_num a b = (case a of Some q \<Rightarrow> if q \<noteq> 0 then a else b | None \<Rightarrow> b)"

record login_failure =
  lf_status :: int
  lf_code :: string
  lf_message :: string
  lf_stage :: string
  lf_upstreamStatus :: "int option"

definition known_failure :: "string option \<Rightarrow> bool" where
  "known_failure c = (case c of None \<Rightarrow> False | Some k \<Rightarrow> map_of failures k \<noteq> None)"

definition pick_stage :: "string option \<Rightarrow> string \<Rightarrow> string" where
  "pick_stage stage fallback = (case stage of
     Some s \<Rightarrow> if s \<in> set stages then s else if fallback \<in> set stages then fallback else ''login''
   | None \<Rightarrow> if fallback \<in> set stages then fallback else ''login'')"

definition http_status :: "rat option \<Rightarrow> int option" where
  "http_status q = (case q of
     Some v \<Rightarrow> if v = of_int \<lfloor>v\<rfloor> \<and> 100 \<le> v \<and> v \<le> 599 then Some \<lfloor>v\<rfloor> else None | None \<Rightarrow> None)"

text \<open>The code for an error without a known one.\<close>

definition classify_failure :: "string \<Rightarrow> string \<Rightarrow> string \<Rightarrow> int option \<Rightarrow> string" where
  "classify_failure stage message name upstream =
     (if arenaRecaptchaRejected message \<and> (stage = ''agent_session'' \<or> stage = ''session_probe'') then
        ''arena_verification_required''
      else if list_ex (mentions message) [''just a moment'', ''attention required'', ''cloudflare'', ''cf-chl-'',
                ''recaptcha validation failed'']
           \<or> (stage = ''arena_home'' \<and> (upstream = Some 403 \<or> upstream = Some 429)) then
        ''arena_access_blocked''
      else if stage = ''email_sign_in'' \<and> (upstream = Some 401 \<or> (upstream = Some 400
                \<and> (mentions_then ''invalid'' [''email'', ''password'', ''credential''] (lower message)
                   \<or> mentions_then ''incorrect'' [''password''] (lower message)))) then
        ''login_invalid_credentials''
      else if name = ''TimeoutError'' \<or> mentions message ''timeout'' \<or> mentions message ''timed out'' then
        ''arena_login_timeout''
      else if stage = ''browser_launch'' then ''browser_unavailable''
      else if list_ex (mentions message) [''net::err_'', ''econnreset'', ''econnrefused'', ''econnaborted'', ''enotfound'',
                ''eai_again'', ''etimedout'', ''fetch failed''] then
        ''arena_network_error''
      else if stage = ''agent_session'' \<or> stage = ''session_probe'' then ''arena_session_prepare_failed''
      else ''login_failed'')"

definition loginFailure :: "login_error \<Rightarrow> string \<Rightarrow> login_failure" where
  "loginFailure e fallbackStage =
     (let stage = pick_stage (le_stage e) fallbackStage;
          message = (case le_message e of None \<Rightarrow> '''' | Some m \<Rightarrow> m);
          adapterFailure = (le_arena e \<and> known_failure (le_code e));
          status = or_num (le_upstreamStatus e)
                     (or_num (if adapterFailure then None else le_status e) (login_status_of message));
          upstream = http_status status;
          code0 = (if known_failure (le_code e) then the (le_code e) else ''login_failed'');
          code = (if code0 = ''login_failed'' then classify_failure stage message (le_name e) upstream else code0)
      in case map_of failures code of
           Some (s, m) \<Rightarrow> \<lparr>lf_status = s, lf_code = code, lf_message = m, lf_stage = stage, lf_upstreamStatus = upstream\<rparr>
         | None \<Rightarrow> \<lparr>lf_status = 0, lf_code = code, lf_message = '''', lf_stage = stage, lf_upstreamStatus = upstream\<rparr>)"

lemma classify_known: "map_of failures (classify_failure stage message name upstream) \<noteq> None"
proof -
  have "classify_failure stage message name upstream \<in> set [''arena_verification_required'', ''arena_access_blocked'',
      ''login_invalid_credentials'', ''arena_login_timeout'', ''browser_unavailable'', ''arena_network_error'',
      ''arena_session_prepare_failed'', ''login_failed'']"
    unfolding classify_failure_def by simp
  moreover have "\<forall>c \<in> set [''arena_verification_required'', ''arena_access_blocked'',
      ''login_invalid_credentials'', ''arena_login_timeout'', ''browser_unavailable'', ''arena_network_error'',
      ''arena_session_prepare_failed'', ''login_failed'']. map_of failures c \<noteq> None"
    by (simp add: failures_def)
  ultimately show ?thesis by blast
qed

lemma pick_stage_known: "pick_stage stage fallback \<in> set stages"
  by (auto simp: pick_stage_def stages_def split: option.splits)

lemma loginFailure_row:
  "let f = loginFailure e fallback
   in map_of failures (lf_code f) = Some (lf_status f, lf_message f) \<and> lf_stage f \<in> set stages
     \<and> (case lf_upstreamStatus f of None \<Rightarrow> True | Some s \<Rightarrow> 100 \<le> s \<and> s \<le> 599)"
proof -
  let ?stage = "pick_stage (le_stage e) fallback"
  let ?m = "case le_message e of None \<Rightarrow> '''' | Some m \<Rightarrow> m"
  let ?up = "http_status (or_num (le_upstreamStatus e)
      (or_num (if le_arena e \<and> known_failure (le_code e) then None else le_status e) (login_status_of ?m)))"
  let ?c0 = "if known_failure (le_code e) then the (le_code e) else ''login_failed''"
  let ?code = "if ?c0 = ''login_failed'' then classify_failure ?stage ?m (le_name e) ?up else ?c0"
  have "map_of failures ?code \<noteq> None"
    using classify_known by (auto simp: known_failure_def split: option.splits)
  then obtain s m where sm: "map_of failures ?code = Some (s, m)" by auto
  have up: "case ?up of None \<Rightarrow> True | Some s \<Rightarrow> 100 \<le> s \<and> s \<le> 599"
    by (auto simp: http_status_def le_floor_iff floor_le_iff split: option.splits)
  have "loginFailure e fallback
      = \<lparr>lf_status = s, lf_code = ?code, lf_message = m, lf_stage = ?stage, lf_upstreamStatus = ?up\<rparr>"
    unfolding loginFailure_def Let_def sm by simp
  then show ?thesis using sm up pick_stage_known unfolding Let_def by (simp only: login_failure.simps)
qed

text \<open>
  Whatever an error says, and it may quote passwords, cookies or addresses, what is shown
  of it comes from the fixed table: its status and message are those of its code, its stage
  is one of the known stages, and an upstream status is a number between 100 and 599.
\<close>

lemma login_failure_from_table:
  "let f = loginFailure e fallback
   in map_of failures (lf_code f) = Some (lf_status f, lf_message f) \<and> lf_stage f \<in> set stages
     \<and> (case lf_upstreamStatus f of None \<Rightarrow> True | Some s \<Rightarrow> 100 \<le> s \<and> s \<le> 599)"
  by (rule loginFailure_row)

section \<open>Probe output\<close>

text \<open>\<^verbatim>\<open>split(/\r?\n/)\<close>: a carriage return before a line feed goes with it.\<close>

definition split_lines :: "string \<Rightarrow> string list" where
  "split_lines s = (let ls = split_on CHR 0x0A s
     in map (\<lambda>l. if l \<noteq> [] \<and> last l = CHR 0x0D then butlast l else l) (butlast ls) @ [last ls])"

text \<open>The error text of a stream record; its body is JSON in a string.\<close>

definition record_rejected :: "(string \<Rightarrow> json option) \<Rightarrow> (rat \<Rightarrow> string) \<Rightarrow> json \<Rightarrow> bool" where
  "record_rejected parse num rec = (case str_of (getp rec ''body'') of
     None \<Rightarrow> False
   | Some b \<Rightarrow> (case parse b of
       None \<Rightarrow> False
     | Some body \<Rightarrow>
         (let data = getp body ''data'';
              pick = (\<lambda>k. if truthy (ogetp data k) then ogetp data k else None);
              message = (case pick ''errorText'' of Some m \<Rightarrow> Some m
                         | None \<Rightarrow> (case pick ''message'' of Some m \<Rightarrow> Some m | None \<Rightarrow> ogetp data ''error''))
          in ogetp data ''type'' = Some (JStr ''error'')
             \<and> arenaRecaptchaRejected (case message of None \<Rightarrow> '''' | Some (JStr t) \<Rightarrow> t | Some v \<Rightarrow> stringify num v))))"

definition arenaOutputRecaptchaRejected :: "(string \<Rightarrow> json option) \<Rightarrow> (rat \<Rightarrow> string) \<Rightarrow> string \<Rightarrow> bool" where
  "arenaOutputRecaptchaRejected parse num raw = list_ex (\<lambda>line.
     starts_with line ''data: '' \<and> (case parse (drop 6 line) of
       None \<Rightarrow> False
     | Some event \<Rightarrow> list_ex (record_rejected parse num)
         (case arr_of (getp event ''records'') of None \<Rightarrow> [] | Some rs \<Rightarrow> rs))) (split_lines raw)"

section \<open>Sessions\<close>

record session =
  ss_id :: string
  ss_owner :: string
  ss_status :: login_status
  ss_expires_at :: int
  ss_aborted :: bool
  ss_account :: "json option"
  ss_error :: "thrown option"

record logins =
  sessions :: "(string \<times> nat) list"
  active :: "nat option"
  heap :: "session list"

definition init_logins :: logins where
  "init_logins = \<lparr>sessions = [], active = None, heap = []\<rparr>"

definition bad_input :: "json option \<Rightarrow> bool" where
  "bad_input input =
     (let email = trim (case str_of (ogetp input ''email'') of None \<Rightarrow> '''' | Some s \<Rightarrow> s)
      in email = [] \<or> 320 < length email
         \<or> (case str_of (ogetp input ''password'') of None \<Rightarrow> True | Some p \<Rightarrow> p = [] \<or> 4096 < length p))"

definition live_sessions :: "int \<Rightarrow> logins \<Rightarrow> (string \<times> nat) list" where
  "live_sessions now l = filter (\<lambda>e. now < ss_expires_at (heap l ! snd e)) (sessions l)"

text \<open>\<open>start\<close> up to the launch of the task; \<open>i\<close> is the random id.\<close>

definition start :: "int \<Rightarrow> string \<Rightarrow> string \<Rightarrow> json option \<Rightarrow> int \<Rightarrow> logins \<Rightarrow> (thrown + nat) \<times> logins" where
  "start timeoutMs i ow input now l =
     (if active l \<noteq> None then (Inl (Adapter 429 ''login_busy'' ''An Arena login is already running.''), l)
      else if bad_input input then
        (Inl (Adapter 400 ''invalid_login'' ''Arena email and password are required.''), l)
      else (let l1 = l\<lparr>sessions := live_sessions now l\<rparr>
            in if 50 \<le> length (sessions l1) then
                 (Inl (Adapter 429 ''login_limit'' ''Too many login attempts. Try again later.''), l1)
               else (Inr (length (heap l1)),
                     l1\<lparr>sessions := AList.update i (length (heap l1)) (sessions l1),
                        active := Some (length (heap l1)),
                        heap := heap l1 @ [\<lparr>ss_id = i, ss_owner = ow, ss_status = Pending,
                           ss_expires_at = now + timeoutMs, ss_aborted = False, ss_account = None, ss_error = None\<rparr>]\<rparr>)))"

definition abort_session :: "nat \<Rightarrow> logins \<Rightarrow> logins" where
  "abort_session r l = l\<lparr>heap := (heap l)[r := (heap l ! r)\<lparr>ss_aborted := True\<rparr>]\<rparr>"

text \<open>The reactions of the task: its result, then its finally clause.\<close>

definition task_result :: "nat \<Rightarrow> thrown + json \<Rightarrow> logins \<Rightarrow> logins" where
  "task_result r outcome l = (case outcome of
     Inr account \<Rightarrow>
       if ss_aborted (heap l ! r) then l
       else l\<lparr>heap := (heap l)[r := (heap l ! r)\<lparr>ss_account := Some account, ss_status := Completed\<rparr>]\<rparr>
   | Inl e \<Rightarrow> l\<lparr>heap := (heap l)[r := (heap l ! r)\<lparr>ss_error := Some e, ss_status := Failed\<rparr>]\<rparr>)"

definition task_finally :: "logins \<Rightarrow> logins" where
  "task_finally l = l\<lparr>active := None\<rparr>"

definition login_not_found :: thrown where
  "login_not_found = Adapter 404 ''login_not_found'' ''Login session not found.''"

definition get :: "string \<Rightarrow> string \<Rightarrow> int \<Rightarrow> logins \<Rightarrow> (thrown + nat) \<times> logins" where
  "get ow i now l = (case map_of (sessions l) i of
     None \<Rightarrow> (Inl login_not_found, l)
   | Some r \<Rightarrow>
       if ss_owner (heap l ! r) \<noteq> ow then (Inl login_not_found, l)
       else if ss_expires_at (heap l ! r) \<le> now then
         (Inl (Adapter 410 ''login_expired'' ''Login session expired.''),
          (abort_session r l)\<lparr>sessions := AList.delete i (sessions l)\<rparr>)
       else (Inr r, l))"

record login_result =
  session_id :: string
  lr_mode :: string
  lr_status :: string
  expires_at :: int
  lr_account :: "json option"

definition result :: "session \<Rightarrow> login_result" where
  "result s = \<lparr>session_id = ss_id s, lr_mode = ''poll'', lr_status = status_text (ss_status s),
     expires_at = ss_expires_at s, lr_account = ss_account s\<rparr>"

definition poll :: "string \<Rightarrow> string \<Rightarrow> int \<Rightarrow> logins \<Rightarrow> (thrown + login_result) \<times> logins" where
  "poll ow i now l = (case get ow i now l of
     (Inl e, l') \<Rightarrow> (Inl e, l')
   | (Inr r, l') \<Rightarrow>
       (case (ss_status (heap l' ! r), ss_error (heap l' ! r)) of
          (Failed, Some e) \<Rightarrow> (Inl e, l')
        | _ \<Rightarrow> (Inr (result (heap l' ! r)), l')))"

definition cancel :: "string \<Rightarrow> string \<Rightarrow> int \<Rightarrow> logins \<Rightarrow> (thrown + unit) \<times> logins" where
  "cancel ow i now l = (case get ow i now l of
     (Inl e, l') \<Rightarrow> (Inl e, l')
   | (Inr r, l') \<Rightarrow> (Inr (), (abort_session r l')\<lparr>sessions := AList.delete i (sessions l')\<rparr>))"

text \<open>\<open>close\<close>: abort the running login; when its task is done, drop the sessions.\<close>

definition close_begin :: "logins \<Rightarrow> logins" where
  "close_begin l = (case active l of None \<Rightarrow> l | Some r \<Rightarrow> abort_session r l)"

definition close_end :: "logins \<Rightarrow> logins" where
  "close_end l = l\<lparr>sessions := []\<rparr>"

interpretation arena_login: owned_sessions sessions "\<lambda>l r. ss_owner (heap l ! r)"
  "\<lambda>l r. ss_expires_at (heap l ! r)" get login_not_found
  by unfold_locales (auto simp: get_def login_not_found_def abort_session_def)

end
