(* ===== verification/Arena_Server.thy ===== *)
theory Arena_Server
  imports Http_Base Arena_State Arena_Login
begin

text \<open>
  \<^verbatim>\<open>src/tools/arena2api/src/server.mjs\<close>: authentication, routing, the synchronous segment
  that admits a turn, the completion of a turn, and the exclusion between generating and
  signing in, which share one browser. The file system, the upstream and \<^verbatim>\<open>JSON.parse\<close> are
  parameters.
\<close>

section \<open>Requests\<close>

record aconfig =
  ac_apiKey :: string
  ac_timeoutMs :: int

record amodel =
  am_id :: string
  am_sessionId :: string
  am_accountEmail :: string
  am_name :: string

text \<open>\<^verbatim>\<open>pathname.replace(/\/+$/, "") || "/"\<close>\<close>

definition clean_path :: "string \<Rightarrow> string" where
  "clean_path p = (let q = rev (dropWhile (\<lambda>c. c = CHR ''/'') (rev p)) in if q = [] then ''/'' else q)"

definition authenticated :: "string \<Rightarrow> http_request \<Rightarrow> bool" where
  "authenticated key q = (utf8 (strip_bearer (hdr_text q ''authorization'')) = utf8 key)"

datatype adecision =
    AReply int json
  | ARefuse thrown
  | ALoginStart string
  | ALoginPoll string string
  | ALoginCancel string string
  | AHealth
  | AModels
  | AChat

definition route :: "aconfig \<Rightarrow> http_request \<Rightarrow> adecision" where
  "route cfg q =
     (let path = clean_path (h_path q) in
      if h_method q = ''GET'' \<and> path = ''/livez'' then
        AReply 200 (JObj [(''status'', JStr ''ok''), (''adapter'', JStr ''arena'')])
      else if \<not> authenticated (ac_apiKey cfg) q then
        ARefuse (Adapter 401 ''invalid_api_key'' ''Invalid adapter key.'')
      else if starts_with path LOGIN_PATH then
        (if bad_owner 256 q then ARefuse (Adapter 400 ''login_owner_required'' ''Login owner is required.'')
         else let ow = hdr_text q ''x-login-owner'' in
           if h_method q = ''POST'' \<and> path = LOGIN_PATH then ALoginStart ow
           else (case session_route ''/poll'' path of
                   Some (i, p) \<Rightarrow>
                     if h_method q = ''POST'' \<and> p then ALoginPoll ow i
                     else if h_method q = ''DELETE'' \<and> \<not> p then ALoginCancel ow i
                     else ARefuse (Adapter 404 ''not_found'' ''Unknown login endpoint.'')
                 | None \<Rightarrow> ARefuse (Adapter 404 ''not_found'' ''Unknown login endpoint.'')))
      else if h_method q = ''GET'' \<and> path = ''/healthz'' then AHealth
      else if h_method q = ''GET'' \<and> path = ''/v1/models'' then AModels
      else if h_method q \<noteq> ''POST'' \<or> path \<noteq> ''/v1/chat/completions'' then
        ARefuse (Adapter 404 ''not_found'' ''Supported endpoints: GET /v1/models and POST /v1/chat/completions.'')
      else AChat)"

text \<open>\<^verbatim>\<open>readBody\<close> on a body that arrives completely.\<close>

definition readBody :: "(bytes \<Rightarrow> string) \<Rightarrow> (string \<Rightarrow> json option) \<Rightarrow> bytes list \<Rightarrow> thrown + json" where
  "readBody decode parse chunks = read_json decode parse
     (Adapter 413 ''request_too_large'' ''Request exceeds 1 MB.'')
     (Adapter 400 ''invalid_json'' ''Request body must be valid JSON.'') 1000000 chunks"

text \<open>\<^verbatim>\<open>a || b || c\<close> over header values\<close>

definition first_header :: "http_request \<Rightarrow> string list \<Rightarrow> string option" where
  "first_header q ks = (case find (\<lambda>k. hdr_text q k \<noteq> '''') ks of
     Some k \<Rightarrow> Some (hdr_text q k)
   | None \<Rightarrow> hdr q (last ks))"

section \<open>Turns\<close>

text \<open>
  The state the handlers share: \<open>busy\<close>, the handlers that own the turn, the sign-in
  sessions and the persisted session state.
\<close>

record aserver =
  av_busy :: bool
  av_turns :: "nat list"
  av_logins :: logins
  av_state :: session_state

definition init_aserver :: aserver where
  "init_aserver = \<lparr>av_busy = False, av_turns = [], av_logins = init_logins, av_state = init_state\<rparr>"

text \<open>What a turn needs from outside: the hash, the renderer of numbers, the clock, the file system.\<close>

record aenv =
  e_sha :: "bytes \<Rightarrow> string"
  e_num :: "rat \<Rightarrow> string"
  e_now :: string
  e_writable :: bool

definition turn_key :: "aenv \<Rightarrow> http_request \<Rightarrow> thrown + string" where
  "turn_key E q =
     (let supplied = first_header q [''x-arena-idempotency-key'', ''idempotency-key'']
      in case supplied of
           Some v \<Rightarrow> if v \<noteq> '''' then bind_js (identity (Some v)) (\<lambda>k. Inr (e_sha E (utf8 k))) else Inr ''''
         | None \<Rightarrow> Inr '''')"

text \<open>
  The segment from the parsed body to \<open>busy = true\<close>, which has no await: the stored reply,
  or \<open>None\<close> when handler \<open>h\<close> now owns the turn. \<open>models\<close> and \<open>ready\<close> are
  \<open>runtime.models()\<close> and \<open>runtime.health().ready\<close>.
\<close>

definition chat_turn :: "aenv \<Rightarrow> amodel list \<Rightarrow> bool \<Rightarrow> nat \<Rightarrow> http_request \<Rightarrow> json \<Rightarrow> aserver
    \<Rightarrow> (thrown + (arena_request \<times> amodel \<times> string \<times> json option)) \<times> aserver" where
  "chat_turn E models ready h q body s =
     (case bind_js (normalizeRequest (e_num E) body) (\<lambda>request.
           bind_js (identity (first_header q [''x-arena-session-id'', ''x-codex-session-id'', ''x-session-id''])) (\<lambda>client.
           bind_js (turn_key E q) (\<lambda>key.
             (case find (\<lambda>m. am_id m = ar_model request) models of
                None \<Rightarrow> Inl (Adapter 404 ''model_not_found'' ''Configure a dedicated Arena session for this model first.'')
              | Some m \<Rightarrow>
                  bind_js (guard_js (av_busy s \<or> active (av_logins s) \<noteq> None)
                    (Adapter 503 ''arena_busy'' ''The adapter is processing one turn. Retry after it completes.'')) (\<lambda>_.
                  bind_js (guard_js (\<not> ready) (Adapter 503 ''login_required''
                    ''Configure an Arena login and a dedicated session before generating.'')) (\<lambda>_.
                    Inr (request, client, key, m))))))) of
        Inl e \<Rightarrow> (Inl e, s)
      | Inr (request, client, key, m) \<Rightarrow>
          (case claim (e_writable E) (e_now E) (am_sessionId m) client (av_state s) of
             (Inl e, st1) \<Rightarrow> (Inl e, s\<lparr>av_state := st1\<rparr>)
           | (Inr _, st1) \<Rightarrow>
               (case begin_turn (e_writable E) (am_sessionId m) key (requestDigest (e_sha E) (e_num E) request) st1 of
                  (Inl e, st2) \<Rightarrow> (Inl e, s\<lparr>av_state := st2\<rparr>)
                | (Inr (Some payload), st2) \<Rightarrow> (Inr (request, m, key, Some payload), s\<lparr>av_state := st2\<rparr>)
                | (Inr None, st2) \<Rightarrow>
                    (Inr (request, m, key, None),
                     s\<lparr>av_state := st2, av_busy := True, av_turns := av_turns s @ [h]\<rparr>))))"

text \<open>
  The segment after \<open>runtime.generate\<close> resolved with \<open>upstream\<close>: the reply must be a
  completed answer and agree with what was streamed; only then the record is finished.
\<close>

definition finish_chat :: "bool \<Rightarrow> string \<Rightarrow> rat \<Rightarrow> string \<Rightarrow> string \<Rightarrow> string \<Rightarrow> string \<Rightarrow> json option \<Rightarrow> aserver
    \<Rightarrow> (thrown + json) \<times> aserver" where
  "finish_chat writable i created model sid key streamed upstream s = (case validateReply upstream of
     Inl e \<Rightarrow> (Inl e, s)
   | Inr content \<Rightarrow>
       if streamed \<noteq> [] \<and> trim streamed \<noteq> trim content then
         (Inl (Adapter 502 ''inconsistent_stream'' ''Arena's streamed answer differs from its final answer.''), s)
       else
         (let payload = completion i created model content
          in case finish_turn writable sid key payload (av_state s) of
               (Inl e, st) \<Rightarrow> (Inl e, s\<lparr>av_state := st\<rparr>)
             | (Inr _, st) \<Rightarrow> (Inr payload, s\<lparr>av_state := st\<rparr>)))"

text \<open>The finally clause of a handler that owns the turn.\<close>

definition end_turn :: "nat \<Rightarrow> aserver \<Rightarrow> aserver" where
  "end_turn h s = s\<lparr>av_busy := False, av_turns := remove1 h (av_turns s)\<rparr>"

text \<open>The sign-in endpoint after its body was read.\<close>

definition login_start :: "string \<Rightarrow> string \<Rightarrow> json option \<Rightarrow> int \<Rightarrow> aserver \<Rightarrow> (thrown + nat) \<times> aserver" where
  "login_start i ow input now s =
     (if av_busy s then (Inl (Adapter 429 ''arena_busy'' ''Arena is generating. Retry after it finishes.''), s)
      else (case start 600000 i ow input now (av_logins s) of (r, l) \<Rightarrow> (r, s\<lparr>av_logins := l\<rparr>)))"

text \<open>The catch clause: status, body and headers of an error.\<close>

definition error_response :: "thrown \<Rightarrow> int \<times> json \<times> (string \<times> string) list" where
  "error_response e =
     (let s = (case e of Adapter s c m \<Rightarrow> s
               | Foreign f \<Rightarrow> (case err_status f of Some q \<Rightarrow> if q \<noteq> 0 then \<lfloor>q\<rfloor> else 502 | None \<Rightarrow> 502));
          message = (case e of Adapter s c m \<Rightarrow> m
               | Foreign f \<Rightarrow> ''Arena adapter request failed. Inspect the local account/session configuration.'');
          code = (case code_of e of Some c \<Rightarrow> if c \<noteq> '''' then c else ''arena_upstream_error''
               | None \<Rightarrow> ''arena_upstream_error'')
      in (s, JObj [(''error'', JObj [(''type'', JStr ''arena_adapter_error''), (''code'', JStr code), (''message'', JStr message)])],
          if s = 503 then [(''Retry-After'', ''5'')] else []))"

section \<open>One browser\<close>

inductive a_step :: "aserver \<Rightarrow> aserver \<Rightarrow> bool" where
  a_turn: "h \<notin> set (av_turns s) \<Longrightarrow> a_step s (snd (chat_turn E models ready h q body s))"
| a_finish: "a_step s (snd (finish_chat w i c m sid key streamed up s))"
| a_end: "h \<in> set (av_turns s) \<Longrightarrow> a_step s (end_turn h s)"
| a_login: "a_step s (snd (login_start i ow input now s))"
| a_poll: "a_step s (s\<lparr>av_logins := snd (poll ow i now (av_logins s))\<rparr>)"
| a_cancel: "a_step s (s\<lparr>av_logins := snd (cancel ow i now (av_logins s))\<rparr>)"
| a_abort: "a_step s (s\<lparr>av_logins := abort_session r (av_logins s)\<rparr>)"
| a_result: "a_step s (s\<lparr>av_logins := task_result r outcome (av_logins s)\<rparr>)"
| a_finally: "active (av_logins s) \<noteq> None \<Longrightarrow> a_step s (s\<lparr>av_logins := task_finally (av_logins s)\<rparr>)"
| a_close: "a_step s (s\<lparr>av_logins := close_begin (av_logins s)\<rparr>)"
| a_closed: "a_step s (s\<lparr>av_logins := close_end (av_logins s)\<rparr>)"

text \<open>The users of the browser: the running sign-in (0) and the handlers that own a turn.\<close>

definition browser_users :: "aserver \<Rightarrow> nat set" where
  "browser_users s = Suc ` set (av_turns s) \<union> (if active (av_logins s) = None then {} else {0})"

definition turn_flag :: "aserver \<Rightarrow> bool" where
  "turn_flag s = (length (av_turns s) \<le> 1 \<and> (av_turns s \<noteq> [] \<longrightarrow> av_busy s))"

lemma active_login_ops [simp]:
  "active (snd (get ow i now l)) = active l" "active (snd (poll ow i now l)) = active l"
  "active (snd (cancel ow i now l)) = active l" "active (abort_session r l) = active l"
  "active (task_result r out l) = active l" "active (close_begin l) = active l" "active (close_end l) = active l"
proof -
  show g: "active (snd (get ow i now l)) = active l" for ow i now l
    by (auto simp: get_def abort_session_def split: option.splits)
  show "active (snd (poll ow i now l)) = active l"
    using g [of ow i now l] by (auto simp: poll_def split: prod.splits sum.splits login_status.splits option.splits)
  show "active (snd (cancel ow i now l)) = active l"
    using g [of ow i now l] by (auto simp: cancel_def abort_session_def split: prod.splits sum.splits)
qed (auto simp: abort_session_def task_result_def close_begin_def close_end_def split: sum.splits option.splits)

lemma chat_turn_cases:
  "(av_turns (snd (chat_turn E models ready h q body s)) = av_turns s
      \<and> av_busy (snd (chat_turn E models ready h q body s)) = av_busy s
      \<and> av_logins (snd (chat_turn E models ready h q body s)) = av_logins s)
   \<or> (\<not> av_busy s \<and> active (av_logins s) = None
      \<and> av_turns (snd (chat_turn E models ready h q body s)) = av_turns s @ [h]
      \<and> av_busy (snd (chat_turn E models ready h q body s))
      \<and> av_logins (snd (chat_turn E models ready h q body s)) = av_logins s)"
  by (auto simp: chat_turn_def bind_js_def guard_js_def split: sum.splits prod.splits option.splits if_splits)

lemma finish_chat_keeps:
  "av_turns (snd (finish_chat w i c m sid key streamed up s)) = av_turns s"
  "av_busy (snd (finish_chat w i c m sid key streamed up s)) = av_busy s"
  "av_logins (snd (finish_chat w i c m sid key streamed up s)) = av_logins s"
  by (auto simp: finish_chat_def Let_def split: sum.splits prod.splits)

lemma login_start_cases:
  "snd (login_start i ow input now s) = s
   \<or> (\<not> av_busy s \<and> av_turns (snd (login_start i ow input now s)) = av_turns s
      \<and> \<not> av_busy (snd (login_start i ow input now s))
      \<and> (active (av_logins (snd (login_start i ow input now s))) = active (av_logins s)
         \<or> active (av_logins s) = None))"
  by (auto simp: login_start_def start_def Let_def)

lemma turn_flag_step: "a_step s s' \<Longrightarrow> turn_flag s \<Longrightarrow> turn_flag s'"
proof (induction rule: a_step.induct)
  case (a_turn h s E models ready q body)
  then show ?case
    using chat_turn_cases [of E models ready h q body s] by (auto simp: turn_flag_def)
next
  case (a_end h s)
  then show ?case by (cases "av_turns s") (auto simp: turn_flag_def end_turn_def)
next
  case (a_login s i ow input now)
  then show ?case using login_start_cases [of i ow input now s] by (auto simp: turn_flag_def)
qed (auto simp: turn_flag_def finish_chat_keeps)

lemma users_step:
  assumes "a_step s s'" "turn_flag s"
  shows "browser_users s' \<subseteq> browser_users s
     \<or> (\<exists>c. card (browser_users s) < 1 \<and> browser_users s' = insert c (browser_users s))"
  using assms
proof (induction rule: a_step.induct)
  case (a_turn h s E models ready q body)
  then show ?case
    using chat_turn_cases [of E models ready h q body s]
    by (auto simp: browser_users_def turn_flag_def intro: exI [of _ "Suc h"])
next
  case (a_end h s)
  then show ?case using set_remove1_subset [of h "av_turns s"] by (auto simp: browser_users_def end_turn_def)
next
  case (a_login s i ow input now)
  then show ?case
    using login_start_cases [of i ow input now s]
    by (auto simp: browser_users_def turn_flag_def intro: exI [of _ 0])
qed (auto simp: browser_users_def finish_chat_keeps task_finally_def)

definition a_step_ok :: "aserver \<Rightarrow> aserver \<Rightarrow> bool" where
  "a_step_ok s s' \<longleftrightarrow> turn_flag s \<and> a_step s s'"

interpretation arena_slots: slot_pool init_aserver a_step_ok browser_users browser_users 1
  by unfold_locales
    (use users_step in \<open>auto simp: a_step_ok_def browser_users_def init_aserver_def init_logins_def\<close>)

lemma a_reachable:
  assumes "a_step\<^sup>*\<^sup>* init_aserver s"
  shows "a_step_ok\<^sup>*\<^sup>* init_aserver s \<and> turn_flag s"
  using assms
proof (induction rule: rtranclp_induct)
  case base
  then show ?case by (simp add: turn_flag_def init_aserver_def)
next
  case (step s s')
  then show ?case using turn_flag_step by (metis a_step_ok_def rtranclp.rtrancl_into_rtrancl)
qed


definition witness_login :: "json option" where
  "witness_login = Some (JObj [(''email'', JStr ''a@b.c''), (''password'', JStr ''pw'')])"

lemma bad_input_witness: "\<not> bad_input witness_login"
  by (simp add: bad_input_def witness_login_def ogetp_def trim_def is_ws_def)


end
