(* ===== verification/Arena_Runtime.thy ===== *)
theory Arena_Runtime
  imports Arena_Server
begin

text \<open>
  \<^verbatim>\<open>src/tools/arena2api/src/runtime.mjs\<close> and the command \<^verbatim>\<open>add-session\<close> of \<^verbatim>\<open>manage.mjs\<close>: the
  configured models, the guard around the bridge's submission, the reading of a turn.
  The bridge package (\<^verbatim>\<open>arena-local-bridge\<close>) and the browser are parameters: what a call of them
  returns is an argument.
\<close>

section \<open>Models\<close>

record archive_entry =
  ae_url :: string
  ae_model :: string
  ae_email :: string

definition archived_model :: "(string \<Rightarrow> string) \<Rightarrow> archive_entry \<Rightarrow> json" where
  "archived_model sessionIdFromUrl e = JObj [(''id'', JStr (sessionIdFromUrl (ae_url e))), (''sessionId'', JStr (sessionIdFromUrl (ae_url e))),
     (''accountEmail'', JStr (ae_email e)), (''name'', JStr (ae_model e))]"

definition invalid_models :: thrown where
  "invalid_models = Adapter 503 ''invalid_models'' ''Each model needs id, sessionId (UUID) and accountEmail.''"

definition model_of_entry :: "json \<Rightarrow> thrown + amodel" where
  "model_of_entry e = (case (str_of (getp e ''id''), str_of (getp e ''accountEmail''), str_of (getp e ''sessionId'')) of
     (Some i, Some email, Some sid) \<Rightarrow>
       if trim i = [] \<or> trim email = [] \<or> \<not> is_uuid sid then Inl invalid_models
       else Inr \<lparr>am_id = i, am_sessionId = lower sid, am_accountEmail = email,
                 am_name = (case str_of (getp e ''name'') of None \<Rightarrow> '''' | Some n \<Rightarrow> n)\<rparr>
   | _ \<Rightarrow> Inl invalid_models)"

text \<open>The loop over the entries: the first entry of an id wins.\<close>

fun collect_models :: "json list \<Rightarrow> amodel list \<Rightarrow> thrown + amodel list" where
  "collect_models [] acc = Inr acc"
| "collect_models (e # es) acc = bind_js (model_of_entry e) (\<lambda>m.
     collect_models es (if am_id m \<in> am_id ` set acc then acc else acc @ [m]))"

definition readModels :: "(string \<Rightarrow> string) \<Rightarrow> json \<Rightarrow> archive_entry list \<Rightarrow> thrown + amodel list" where
  "readModels sessionIdFromUrl configured entries = (case configured of
     JArr es \<Rightarrow> collect_models (es @ map (archived_model sessionIdFromUrl)
                  (filter (\<lambda>e. ae_model e \<noteq> '''' \<and> ae_email e \<noteq> '''') entries)) []
   | _ \<Rightarrow> Inl (Adapter 503 ''invalid_models'' ''models.json must be an array.''))"

record credential =
  cr_email :: string
  cr_disabled :: bool

definition health_ready :: "credential list \<Rightarrow> amodel list \<Rightarrow> bool" where
  "health_ready accounts models = list_ex (\<lambda>m. list_ex (\<lambda>a. \<not> cr_disabled a \<and> lower (cr_email a) = lower (am_accountEmail m)) accounts) models"

definition health :: "credential list \<Rightarrow> amodel list \<Rightarrow> json" where
  "health accounts models = JObj [(''status'', JStr (if health_ready accounts models then ''configured'' else ''not_ready'')),
     (''ready'', JBool (health_ready accounts models)), (''models'', JNum (of_nat (length models))),
     (''accounts'', JNum (of_nat (length accounts))), (''verification'', JStr ''configuration_only''), (''usage'', JStr ''unavailable'')]"

lemma collect_models_distinct:
  "collect_models es acc = Inr ms \<Longrightarrow> distinct (map am_id acc) \<Longrightarrow> distinct (map am_id ms)"
proof (induction es arbitrary: acc)
  case (Cons e es)
  then obtain m where "collect_models es (if am_id m \<in> am_id ` set acc then acc else acc @ [m]) = Inr ms" by auto
  then show ?case by (rule Cons.IH) (use Cons.prems(2) in auto)
qed simp

lemma readModels_distinct: "readModels f configured entries = Inr ms \<Longrightarrow> distinct (map am_id ms)"
  using collect_models_distinct by (auto simp: readModels_def split: json.splits)

section \<open>One submission per turn\<close>

text \<open>
  \<open>activeSignal\<close> and \<open>submissionStarted\<close>, with a history of the messages that really reached the
  bridge's own \<open>appendAgentMessage\<close>. \<open>g_signal\<close> is the reason of an aborted signal.
\<close>

record guard =
  g_signal :: "thrown option"
  g_started :: bool
  g_submitted :: "string list"

definition begin_generate :: "guard" where
  "begin_generate = \<lparr>g_signal = None, g_started = False, g_submitted = []\<rparr>"

text \<open>The replacement of \<open>appendAgentMessage\<close>; \<open>reply\<close> is how the original settles,
  \<open>later\<close> the reason of the signal when it is aborted by then.\<close>

definition appendAgentMessage :: "string \<Rightarrow> thrown + 'r \<Rightarrow> thrown option \<Rightarrow> guard \<Rightarrow> (thrown + 'r) \<times> guard" where
  "appendAgentMessage text reply later g = (case g_signal g of
     Some r \<Rightarrow> (Inl r, g)
   | None \<Rightarrow>
       if g_started g then (Inl (Adapter 502 ''arena_submission_uncertain''
         ''Arena submission was interrupted; inspect the session before continuing.''), g)
       else ((case (reply, later) of (Inl _, Some r) \<Rightarrow> Inl r | _ \<Rightarrow> reply), g\<lparr>g_started := True, g_submitted := g_submitted g @ [text]\<rparr>))"

text \<open>What the bridge or the client does during one \<open>generate\<close>: append a message, or abort.\<close>

datatype guard_event = Append string | Abort thrown

definition guard_step :: "guard_event \<Rightarrow> guard \<Rightarrow> guard" where
  "guard_step e g = (case e of
     Append text \<Rightarrow> snd (appendAgentMessage text (Inr ()) None g)
   | Abort r \<Rightarrow> (case g_signal g of None \<Rightarrow> g\<lparr>g_signal := Some r\<rparr> | Some _ \<Rightarrow> g))"

lemma guard_kept:
  "g_started g \<Longrightarrow> g_submitted (fold guard_step es g) = g_submitted g"
proof (induction es arbitrary: g)
  case (Cons e es)
  have "g_started (guard_step e g) \<and> g_submitted (guard_step e g) = g_submitted g"
    using Cons.prems by (auto simp: guard_step_def appendAgentMessage_def split: guard_event.splits option.splits)
  with Cons.IH show ?case by simp
qed simp

lemma guard_aborted: "g_signal g \<noteq> None \<Longrightarrow> fold guard_step es g = g"
proof (induction es)
  case (Cons e es)
  then have "guard_step e g = g"
    by (auto simp: guard_step_def appendAgentMessage_def split: guard_event.splits)
  with Cons show ?case by simp
qed simp

text \<open>
  C8: whatever the bridge does after its browser is lost, and however often it retries, one
  generation submits at most one message to Arena, the first one, and none at all once the
  client has gone or the time is up.
\<close>

theorem turn_submitted_at_most_once:
  "g_submitted (fold guard_step es begin_generate) = (case es of Append t # _ \<Rightarrow> [t] | _ \<Rightarrow> [])"
proof (cases es)
  case (Cons e es')
  show ?thesis
  proof (cases e)
    case (Append t)
    have "guard_step e begin_generate = begin_generate\<lparr>g_started := True, g_submitted := [t]\<rparr>"
      using Append by (simp add: guard_step_def appendAgentMessage_def begin_generate_def)
    then show ?thesis using Cons Append guard_kept [of "begin_generate\<lparr>g_started := True, g_submitted := [t]\<rparr>" es'] by simp
  next
    case (Abort r)
    have "guard_step e begin_generate = begin_generate\<lparr>g_signal := Some r\<rparr>"
      using Abort by (simp add: guard_step_def begin_generate_def)
    then show ?thesis
      using Cons Abort guard_aborted [of "begin_generate\<lparr>g_signal := Some r\<rparr>" es'] by (simp add: begin_generate_def)
  qed
qed (simp add: begin_generate_def)

section \<open>Reading a turn\<close>

text \<open>The replacement of \<open>readLatestTurn\<close>, on what the original resolves with.\<close>

definition readLatestTurn :: "thrown option \<Rightarrow> thrown + json \<Rightarrow> thrown + json" where
  "readLatestTurn aborted res = (case aborted of
     Some r \<Rightarrow> Inl r
   | None \<Rightarrow> bind_js res (\<lambda>result.
       if truthy (getp result ''errorText'') then
         Inl (if arenaRecaptchaRejected (case str_of (getp result ''errorText'') of None \<Rightarrow> '''' | Some t \<Rightarrow> t)
              then Adapter 503 ''arena_verification_required'' ''Arena rejected security verification during chat.''
              else Adapter 502 ''arena_stream_error'' ''Arena reported a generation error.'')
       else if ogetp (getp result ''timing'') ''breakReason'' = Some (JStr ''budget'') then
         Inl (Adapter 504 ''arena_timeout'' ''Arena did not finish within the configured time limit.'')
       else Inr result))"

text \<open>
  The head of \<open>generate\<close>: the account of the model and whether it must be refreshed first, for
  which its password is needed.
\<close>

datatype prelude = Converse | RefreshFirst string string

definition generate_head :: "bool \<Rightarrow> thrown option \<Rightarrow> bool \<Rightarrow> (string \<times> string) option \<Rightarrow> thrown + prelude" where
  "generate_head has_account aborted needs_refresh secret =
     bind_js (guard_js (\<not> has_account) (Adapter 503 ''login_required'' ''No usable Arena account. Run npm run manage -- login.'')) (\<lambda>_.
     case aborted of
       Some r \<Rightarrow> Inl r
     | None \<Rightarrow>
         if \<not> needs_refresh then Inr Converse
         else (case secret of
                 Some (email, password) \<Rightarrow> if password \<noteq> '''' then Inr (RefreshFirst email password)
                   else Inl (Adapter 401 ''login_expired'' ''Arena login expired. Run npm run manage -- login.'')
               | None \<Rightarrow> Inl (Adapter 401 ''login_expired'' ''Arena login expired. Run npm run manage -- login.'')))"

section \<open>The management command\<close>

text \<open>The command \<open>add-session\<close> of the management script: the new contents of the file.\<close>

definition invalid_command :: "string \<Rightarrow> thrown" where
  "invalid_command msg = Adapter 400 ''invalid_command'' msg"

definition add_session :: "string \<Rightarrow> string \<Rightarrow> string \<Rightarrow> string \<Rightarrow> json \<Rightarrow> thrown + json list" where
  "add_session email session model nm entries =
     bind_js (guard_js (trim email = [] \<or> session = [] \<or> trim model = [])
       (invalid_command ''add-session requires --email, --session UUID and --model ALIAS.'')) (\<lambda>_.
     case entries of
       JArr es \<Rightarrow>
         (let m = trim model;
              es' = es @ [JObj [(''id'', JStr m), (''sessionId'', JStr session), (''accountEmail'', JStr (trim email)),
                                (''name'', JStr (if nm = '''' then m else nm))]]
          in bind_js (guard_js (\<not> is_uuid session) (invalid_command ''--session must be an Arena session UUID.'')) (\<lambda>_.
             bind_js (guard_js (length (filter (\<lambda>e. getp e ''id'' = Some (JStr m)) es') \<noteq> 1)
               (invalid_command ''This model alias is already configured.'')) (\<lambda>_. Inr es')))
     | _ \<Rightarrow> Inl (invalid_command ''models.json must be an array.''))"

text \<open>What \<open>add-session\<close> writes keeps a readable file readable, and the new alias last.\<close>

lemma collect_models_append:
  "collect_models (es @ [e]) acc = bind_js (collect_models es acc) (\<lambda>ms.
     bind_js (model_of_entry e) (\<lambda>m. Inr (if am_id m \<in> am_id ` set ms then ms else ms @ [m])))"
  by (induction es acc rule: collect_models.induct) (auto simp: bind_js_def split: sum.splits)

lemma collect_models_ids:
  "collect_models es acc = Inr ms \<Longrightarrow> m \<in> set ms \<Longrightarrow> m \<in> set acc \<or> (\<exists>e \<in> set es. getp e ''id'' = Some (JStr (am_id m)))"
proof (induction es arbitrary: acc)
  case (Cons e es)
  then obtain m' where m': "model_of_entry e = Inr m'"
    "collect_models es (if am_id m' \<in> am_id ` set acc then acc else acc @ [m']) = Inr ms" by auto
  have i: "getp e ''id'' = Some (JStr (am_id m'))"
    using m'(1) by (auto simp: model_of_entry_def split: option.splits if_splits)
  from Cons.IH [OF m'(2) Cons.prems(2)] show ?case using i by (auto split: if_splits)
qed simp

lemma added_session_is_listed:
  assumes "add_session email session model nm (JArr es) = Inr es'" "readModels f (JArr es) [] = Inr ms"
  shows "\<exists>m. readModels f (JArr es') [] = Inr (ms @ [m]) \<and> am_id m = trim model \<and> am_sessionId m = lower session"
proof -
  let ?m = "trim model"
  let ?e = "JObj [(''id'', JStr ?m), (''sessionId'', JStr session), (''accountEmail'', JStr (trim email)),
    (''name'', JStr (if nm = '''' then ?m else nm))]"
  from assms(1) have g: "trim email \<noteq> []" "?m \<noteq> []" "is_uuid session" "es' = es @ [?e]"
    "length (filter (\<lambda>e. getp e ''id'' = Some (JStr ?m)) (es @ [?e])) = 1"
    unfolding add_session_def bind_js_eq_Inr guard_js_eq_Inr json.case Let_def sum.inject by blast+
  from g(5) have new: "\<forall>e \<in> set es. getp e ''id'' \<noteq> Some (JStr ?m)" by (simp add: filter_empty_conv)
  have c: "collect_models es [] = Inr ms" using assms(2) by (simp add: readModels_def)
  obtain m where m: "model_of_entry ?e = Inr m" "am_id m = ?m" "am_sessionId m = lower session"
    using g(1-3) by (simp add: model_of_entry_def)
  have "am_id m \<notin> am_id ` set ms" using collect_models_ids [OF c] new m(2) by fastforce
  then have "collect_models es' [] = Inr (ms @ [m])" by (simp add: g(4) collect_models_append c m(1))
  then show ?thesis using m by (auto simp: readModels_def)
qed

end
