(* ===== verification/Arena_Session.thy ===== *)
theory Arena_Session
  imports Arena_Runtime
begin

text \<open>
  The sign-in of an Arena account and the preparation of its session:
  \<open>loginArena\<close> of \<^verbatim>\<open>src/tools/arena2api/src/arena-login.mjs\<close>, \<open>createArenaSession\<close> of
  \<^verbatim>\<open>arena-session.mjs\<close>, and \<open>loginAndPrepare\<close> and \<open>login\<close> of \<^verbatim>\<open>runtime.mjs\<close>. What the browser and the
  bridge answer are arguments, an error among them. The abort signal is looked at before and
  after every step and again when an error is caught: whichever look finds it aborted, its
  reason is what is thrown. So \<open>aborted\<close> is the reason of the signal when it is aborted before
  the last look, and the result is that reason.
\<close>

section \<open>Errors of the steps\<close>

definition bind_le :: "login_error + 'a \<Rightarrow> ('a \<Rightarrow> login_error + 'b) \<Rightarrow> login_error + 'b" where
  "bind_le r f = (case r of Inl e \<Rightarrow> Inl e | Inr x \<Rightarrow> f x)"

definition guard_le :: "bool \<Rightarrow> login_error \<Rightarrow> login_error + unit" where
  "guard_le bad e = (if bad then Inl e else Inr ())"

lemma bind_le_simps [simp]: "bind_le (Inl e) f = Inl e" "bind_le (Inr x) f = f x"
  by (simp_all add: bind_le_def)

lemma bind_le_eq_Inr [simp]: "bind_le r f = Inr y \<longleftrightarrow> (\<exists>x. r = Inr x \<and> f x = Inr y)"
  by (cases r) auto

lemma guard_le_eq_Inr [simp]: "guard_le bad e = Inr u \<longleftrightarrow> \<not> bad"
  by (simp add: guard_le_def)

text \<open>\<^verbatim>\<open>new ArenaError(status, code, message)\<close>, with an upstream status set on it or not.\<close>

definition arena_error :: "int \<Rightarrow> string \<Rightarrow> string \<Rightarrow> int option \<Rightarrow> login_error" where
  "arena_error status code message upstream =
     \<lparr>le_arena = True, le_code = Some code, le_stage = None, le_message = Some message, le_name = ''Error'',
      le_upstreamStatus = map_option of_int upstream, le_status = Some (of_int status)\<rparr>"

definition syntax_error :: login_error where
  "syntax_error = \<lparr>le_arena = False, le_code = None, le_stage = None, le_message = Some ''Unexpected token'',
     le_name = ''SyntaxError'', le_upstreamStatus = None, le_status = None\<rparr>"

text \<open>A failure that is thrown on, and caught again as an error.\<close>

definition failure_error :: "login_failure \<Rightarrow> login_error" where
  "failure_error f = \<lparr>le_arena = True, le_code = Some (lf_code f), le_stage = Some (lf_stage f), le_message = Some (lf_message f),
     le_name = ''Error'', le_upstreamStatus = map_option of_int (lf_upstreamStatus f), le_status = Some (of_int (lf_status f))\<rparr>"

datatype prepare_error = Aborted thrown | Failed login_failure

text \<open>The \<open>catch\<close> of the two functions.\<close>

definition catch_failure :: "thrown option \<Rightarrow> string \<Rightarrow> login_error + 'a \<Rightarrow> prepare_error + 'a" where
  "catch_failure aborted stage r = (case aborted of
     Some reason \<Rightarrow> Inl (Aborted reason)
   | None \<Rightarrow> (case r of Inl e \<Rightarrow> Inl (Failed (loginFailure e stage)) | Inr x \<Rightarrow> Inr x))"

section \<open>Signing in\<close>

text \<open>
  \<open>loginArena\<close>: the browser starts, the home page must be reachable, and only then are the
  credentials sent. \<open>home\<close> is the status, \<open>None\<close> without a response, and the title of the page.
\<close>

definition home_check :: "int option \<Rightarrow> string \<Rightarrow> login_error + unit" where
  "home_check status title =
     bind_le (guard_le (status = Some 403 \<or> status = Some 429
         \<or> list_ex (mentions title) [''just a moment'', ''attention required'', ''checking your browser'', ''security verification''])
       (arena_error 503 ''arena_access_blocked'' ''Arena blocked the server browser before sign-in.'' status)) (\<lambda>_.
     guard_le (case status of None \<Rightarrow> True | Some s \<Rightarrow> 400 \<le> s)
       (arena_error 502 ''arena_network_error'' ''Arena could not be reached before sign-in.'' status))"

definition loginArena :: "thrown option \<Rightarrow> login_error + unit \<Rightarrow> login_error + int option \<times> string \<Rightarrow> login_error + 'r
    \<Rightarrow> prepare_error + 'r" where
  "loginArena aborted launch home login = (case launch of
     Inl e \<Rightarrow> catch_failure aborted ''browser_launch'' (Inl e)
   | Inr _ \<Rightarrow> (case bind_le home (\<lambda>(status, title). home_check status title) of
       Inl e \<Rightarrow> catch_failure aborted ''arena_home'' (Inl e)
     | Inr _ \<Rightarrow> catch_failure aborted ''email_sign_in'' login))"

section \<open>Creating a session\<close>

definition preparationFailure :: "string \<Rightarrow> int option \<Rightarrow> login_error" where
  "preparationFailure message upstream = arena_error 502 ''arena_session_prepare_failed'' message upstream"

text \<open>
  The loop that waits for the composer: \<open>page n\<close> is what the page shows at the n-th attempt, or
  the error of waiting for it or of the reload before it. The result is the number of reloads.
\<close>

function wait_composer :: "(nat \<Rightarrow> login_error + string) \<Rightarrow> nat \<Rightarrow> login_error + nat" where
  "wait_composer page attempt =
     (if 3 \<le> attempt then Inr attempt
      else case page attempt of
        Inl e \<Rightarrow> Inl e
      | Inr state \<Rightarrow>
          if state = ''ready'' then Inr attempt
          else if state \<noteq> ''fallback'' \<or> attempt = 2 then Inl (preparationFailure ''Arena Agent composer is unavailable.'' None)
          else wait_composer page (attempt + 1))"
  by pat_completeness auto
termination by (relation "measure (\<lambda>(page, attempt). 3 - attempt)") auto

text \<open>
  The loop that waits for the token of the session: \<open>fetched n\<close> is the status of the n-th answer
  and the token found in it, empty when there is none.
\<close>

function fetch_token :: "(nat \<Rightarrow> login_error + int \<times> string) \<Rightarrow> nat \<Rightarrow> login_error + string" where
  "fetch_token fetched attempt =
     (if 8 \<le> attempt then Inl (preparationFailure ''Arena Agent session token is unavailable.'' None)
      else case fetched attempt of
        Inl e \<Rightarrow> Inl e
      | Inr (status, token) \<Rightarrow>
          if status \<noteq> 200 then Inl (preparationFailure ''Arena Agent session could not be opened.'' (Some status))
          else if token \<noteq> '''' then Inr token
          else fetch_token fetched (attempt + 1))"
  by pat_completeness auto
termination by (relation "measure (\<lambda>(fetched, attempt). 8 - attempt)") auto

declare wait_composer.simps [simp del] fetch_token.simps [simp del]

text \<open>The answer of the request that creates the session: its status, its text and the text parsed.\<close>

definition created_session :: "int \<Rightarrow> string \<Rightarrow> json option \<Rightarrow> login_error + string" where
  "created_session status text parsed =
     (if status \<noteq> 200 then
        Inl (if arenaRecaptchaRejected text
             then arena_error 503 ''arena_verification_required'' ''Arena rejected security verification during chat.'' None
             else preparationFailure ''Arena Agent session creation failed.'' (Some status))
      else (case parsed of
        None \<Rightarrow> Inl syntax_error
      | Some v \<Rightarrow> (case str_of (getp v ''id'') of
          Some i \<Rightarrow> if is_uuid i then Inr (lower i) else Inl (preparationFailure ''Arena returned an invalid Agent session id.'' None)
        | None \<Rightarrow> Inl (preparationFailure ''Arena returned an invalid Agent session id.'' None))))"

text \<open>\<open>visited\<close> is how opening the page ends, \<open>sent\<close> how filling in and sending the prompt ends.\<close>

definition createArenaSession :: "thrown option \<Rightarrow> login_error + unit \<Rightarrow> (nat \<Rightarrow> login_error + string)
    \<Rightarrow> login_error + int \<times> string \<times> json option \<Rightarrow> (nat \<Rightarrow> login_error + int \<times> string) \<Rightarrow> prepare_error + string \<times> string" where
  "createArenaSession aborted visited page sent fetched = catch_failure aborted ''agent_session''
     (bind_le visited (\<lambda>_.
      bind_le (wait_composer page 0) (\<lambda>_.
      bind_le sent (\<lambda>(status, text, parsed).
      bind_le (created_session status text parsed) (\<lambda>i.
      bind_le (fetch_token fetched 0) (\<lambda>token. Inr (i, token)))))))"

section \<open>Signing in and preparing\<close>

text \<open>What parsing the output of the probe gives.\<close>

record probe =
  pr_text :: string
  pr_lastNodeId :: string
  pr_requiresReview :: bool
  pr_nativeCalls :: nat

record signed_in =
  si_email :: string
  si_cookieHeader :: string
  si_password :: string

text \<open>What the browser, the bridge, the credential store and the file system answer during one sign-in.\<close>

record answers =
  an_launch :: "login_error + unit"
  an_home :: "login_error + int option \<times> string"
  an_login :: "login_error + signed_in"
  an_page :: "login_error + unit"
  an_opened :: "login_error + unit"
  an_composer :: "nat \<Rightarrow> login_error + string"
  an_sent :: "login_error + int \<times> string \<times> json option"
  an_fetched :: "nat \<Rightarrow> login_error + int \<times> string"
  an_output :: "login_error + string"
  an_models :: "login_error + json"
  an_upsert :: "login_error + unit"
  an_save :: "login_error + unit"

text \<open>What one sign-in leaves behind: the account in the credential store, the new model file.\<close>

record effects =
  ef_account :: "signed_in option"
  ef_models :: "json list option"

definition no_effects :: effects where
  "no_effects = \<lparr>ef_account = None, ef_models = None\<rparr>"

definition new_model :: "string \<Rightarrow> string \<Rightarrow> json" where
  "new_model i email = JObj [(''id'', JStr (''arena-session-'' @ i)), (''sessionId'', JStr (lower i)), (''accountEmail'', JStr email),
     (''name'', JStr ''Arena Agent session'')]"

text \<open>The check of the probe's output, in the stage \<open>session_probe\<close>.\<close>

definition check_probe :: "bool \<Rightarrow> probe \<Rightarrow> string \<Rightarrow> login_error + unit" where
  "check_probe rejected p i =
     bind_le (guard_le rejected (arena_error 503 ''arena_verification_required'' ''Arena rejected security verification during chat.'' None)) (\<lambda>_.
     bind_le (guard_le (trim (pr_text p) = [] \<or> pr_lastNodeId p = '''' \<or> pr_requiresReview p \<or> 0 < pr_nativeCalls p)
       (arena_error 502 ''session_not_ready'' ''Arena could not prepare a text session.'' None)) (\<lambda>_.
     guard_le (\<not> is_uuid i) (arena_error 502 ''invalid_session'' ''Arena returned an invalid session.'' None)))"

definition models_array :: "json \<Rightarrow> login_error + json list" where
  "models_array v = (case v of JArr ms \<Rightarrow> Inr ms
     | _ \<Rightarrow> Inl (arena_error 503 ''invalid_models'' ''models.json must be an array.'' None))"

text \<open>The stage \<open>save_session\<close>: the account is stored first, then the file is written.\<close>

definition save_session :: "answers \<Rightarrow> signed_in \<Rightarrow> string \<Rightarrow> (login_error + string \<times> string) \<times> effects" where
  "save_session a r i = (case bind_le (an_models a) models_array of
     Inl e \<Rightarrow> (Inl e, no_effects)
   | Inr ms \<Rightarrow> (case an_upsert a of
       Inl e \<Rightarrow> (Inl e, no_effects)
     | Inr _ \<Rightarrow> (case an_save a of
         Inl e \<Rightarrow> (Inl e, no_effects\<lparr>ef_account := Some r\<rparr>)
       | Inr _ \<Rightarrow> (Inr (si_email r, ''arena-session-'' @ i),
                     \<lparr>ef_account = Some r, ef_models = Some (ms @ [new_model i (si_email r)])\<rparr>))))"

text \<open>An error thrown on by one of the two functions above is caught again.\<close>

definition rethrown :: "prepare_error \<Rightarrow> login_error + 'a" where
  "rethrown e = Inl (case e of Aborted r \<Rightarrow> syntax_error | Failed f \<Rightarrow> failure_error f)"

definition prepared :: "(string \<Rightarrow> json option) \<Rightarrow> (rat \<Rightarrow> string) \<Rightarrow> (string \<Rightarrow> probe) \<Rightarrow> thrown option \<Rightarrow> answers \<Rightarrow> signed_in
    \<Rightarrow> (prepare_error + string \<times> string) \<times> effects" where
  "prepared parse num parseAgentOutput aborted a r =
     (case bind_le (an_page a) (\<lambda>_. case createArenaSession aborted (an_opened a) (an_composer a) (an_sent a) (an_fetched a) of
             Inl e \<Rightarrow> rethrown e | Inr s \<Rightarrow> Inr (fst s)) of
        Inl e \<Rightarrow> (catch_failure aborted ''agent_session'' (Inl e), no_effects)
      | Inr i \<Rightarrow> (case bind_le (an_output a) (\<lambda>raw. check_probe (arenaOutputRecaptchaRejected parse num raw) (parseAgentOutput raw) i) of
          Inl e \<Rightarrow> (catch_failure aborted ''session_probe'' (Inl e), no_effects)
        | Inr _ \<Rightarrow> if aborted = None
            then (catch_failure None ''save_session'' (fst (save_session a r i)), snd (save_session a r i))
            else (catch_failure aborted ''session_probe'' (Inl syntax_error), no_effects)))"

definition loginAndPrepare :: "(string \<Rightarrow> json option) \<Rightarrow> (rat \<Rightarrow> string) \<Rightarrow> (string \<Rightarrow> probe) \<Rightarrow> thrown option \<Rightarrow> answers
    \<Rightarrow> (prepare_error + string \<times> string) \<times> effects" where
  "loginAndPrepare parse num parseAgentOutput aborted a =
     (case loginArena aborted (an_launch a) (an_home a) (an_login a) of
        Inl e \<Rightarrow> (catch_failure aborted ''email_sign_in'' (rethrown e), no_effects)
      | Inr r \<Rightarrow> prepared parse num parseAgentOutput aborted a r)"

text \<open>\<open>login\<close> of the management command: the account only.\<close>

definition login_account :: "answers \<Rightarrow> (login_error + unit) \<times> effects" where
  "login_account a = (case loginArena None (an_launch a) (an_home a) (an_login a) of
     Inl e \<Rightarrow> (rethrown e, no_effects)
   | Inr r \<Rightarrow> (case an_upsert a of
       Inl e \<Rightarrow> (Inl e, no_effects)
     | Inr _ \<Rightarrow> (Inr (), no_effects\<lparr>ef_account := Some r\<rparr>)))"

section \<open>Results\<close>

lemma wait_composer_local: "wait_composer page attempt = wait_composer (\<lambda>n. if n < 3 then page n else p) attempt"
proof (induction page attempt rule: wait_composer.induct)
  case (1 page attempt)
  show ?case
  proof (cases "3 \<le> attempt \<or> page attempt \<noteq> Inr ''fallback'' \<or> attempt = 2")
    case True
    then show ?thesis by (auto simp: wait_composer.simps [of _ attempt] split: sum.splits)
  next
    case False
    then have "wait_composer page (attempt + 1) = wait_composer (\<lambda>n. if n < 3 then page n else p) (attempt + 1)"
      by (intro 1) auto
    then show ?thesis using False by (simp add: wait_composer.simps [of _ attempt])
  qed
qed

lemma fetch_token_local: "fetch_token fetched attempt = fetch_token (\<lambda>n. if n < 8 then fetched n else q) attempt"
proof (induction fetched attempt rule: fetch_token.induct)
  case (1 fetched attempt)
  show ?case
  proof (cases "8 \<le> attempt \<or> fetched attempt \<noteq> Inr (200, '''')")
    case True
    then show ?thesis by (auto simp: fetch_token.simps [of _ attempt] split: sum.splits)
  next
    case False
    then have "fetch_token fetched (attempt + 1) = fetch_token (\<lambda>n. if n < 8 then fetched n else q) (attempt + 1)"
      by (intro 1) auto
    then show ?thesis using False by (simp add: fetch_token.simps [of _ attempt])
  qed
qed

text \<open>
  The preparation of an Arena session always ends: it looks at the composer at most three
  times (two reloads) and asks for the token at most eight times, so its outcome depends on
  these answers of the page only.
\<close>

theorem session_preparation_is_bounded:
  "createArenaSession aborted visited page sent fetched
     = createArenaSession aborted visited (\<lambda>n. if n < 3 then page n else p) sent (\<lambda>n. if n < 8 then fetched n else q)"
  unfolding createArenaSession_def
  using wait_composer_local [of page 0 p] fetch_token_local [of fetched 0 q] by simp

lemma http_status_again:
  assumes "case up of None \<Rightarrow> True | Some s \<Rightarrow> 100 \<le> s \<and> s \<le> 599"
  shows "http_status (or_num (map_option of_int up) None) = up"
  using assms by (cases up) (auto simp: http_status_def or_num_def)

lemma classify_again:
  assumes "classify_failure stage m n up = ''login_failed''"
  shows "classify_failure stage ''Arena login failed. Retry or check the server login diagnostics.'' ''Error'' up = ''login_failed''"
proof -
  let ?msg = "''Arena login failed. Retry or check the server login diagnostics.''"
  have q: "\<not> arenaRecaptchaRejected ?msg"
    "\<not> list_ex (mentions ?msg) [''just a moment'', ''attention required'', ''cloudflare'', ''cf-chl-'', ''recaptcha validation failed'']"
    "\<not> mentions_then ''invalid'' [''email'', ''password'', ''credential''] (lower ?msg)"
    "\<not> mentions_then ''incorrect'' [''password''] (lower ?msg)" "\<not> mentions ?msg ''timeout''" "\<not> mentions ?msg ''timed out''"
    "\<not> list_ex (mentions ?msg) [''net::err_'', ''econnreset'', ''econnrefused'', ''econnaborted'', ''enotfound'',
                ''eai_again'', ''etimedout'', ''fetch failed'']"
    by code_simp+
  have "\<not> (stage = ''arena_home'' \<and> (up = Some 403 \<or> up = Some 429))" "\<not> (stage = ''email_sign_in'' \<and> up = Some 401)"
    "stage \<noteq> ''browser_launch''" "\<not> (stage = ''agent_session'' \<or> stage = ''session_probe'')"
    using assms unfolding classify_failure_def by (simp_all split: if_splits)
  with q show ?thesis unfolding classify_failure_def by simp
qed

lemma pick_stage_again: "stage \<in> set stages \<Longrightarrow> pick_stage (Some stage) fallback = stage"
  by (simp add: pick_stage_def)

lemma public_message_status: "map_of failures c = Some (s, m) \<Longrightarrow> login_status_of m = None"
proof -
  assume "map_of failures c = Some (s, m)"
  then have "m \<in> set (map (snd \<circ> snd) failures)" by (force dest: map_of_SomeD)
  moreover have "\<forall>m \<in> set (map (snd \<circ> snd) failures). \<not> starts_with m ''Arena login failed (''" by code_simp
  ultimately have "\<not> starts_with m ''Arena login failed (''" by blast
  then show ?thesis unfolding login_status_of_def Let_def by (simp only: simp_thms if_False)
qed

lemma loginFailure_classified:
  assumes "lf_code (loginFailure e s) = ''login_failed''"
  shows "\<exists>m n. classify_failure (lf_stage (loginFailure e s)) m n (lf_upstreamStatus (loginFailure e s)) = ''login_failed''"
proof -
  let ?st = "pick_stage (le_stage e) s"
  let ?m = "case le_message e of None \<Rightarrow> '''' | Some m \<Rightarrow> m"
  let ?up = "http_status (or_num (le_upstreamStatus e)
      (or_num (if le_arena e \<and> known_failure (le_code e) then None else le_status e) (login_status_of ?m)))"
  let ?c0 = "if known_failure (le_code e) then the (le_code e) else ''login_failed''"
  let ?c = "if ?c0 = ''login_failed'' then classify_failure ?st ?m (le_name e) ?up else ?c0"
  obtain st me where "loginFailure e s = \<lparr>lf_status = st, lf_code = ?c, lf_message = me, lf_stage = ?st, lf_upstreamStatus = ?up\<rparr>"
    unfolding loginFailure_def Let_def by (cases "map_of failures ?c") (simp_all only: option.case, auto)
  then have eqs: "lf_code (loginFailure e s) = ?c" "lf_stage (loginFailure e s) = ?st" "lf_upstreamStatus (loginFailure e s) = ?up"
    by (simp_all only: login_failure.simps)
  have "classify_failure ?st ?m (le_name e) ?up = ''login_failed''"
    using assms unfolding eqs by (metis (no_types, lifting))
  then show ?thesis unfolding eqs by blast
qed

text \<open>
  Failures are not classified twice: a failure thrown on by one stage and caught by the
  next comes out as it was, whatever stage the second one is in.
\<close>

lemma loginFailure_kept:
  assumes row: "map_of failures (lf_code f) = Some (lf_status f, lf_message f)" and stage: "lf_stage f \<in> set stages"
    and up: "case lf_upstreamStatus f of None \<Rightarrow> True | Some s \<Rightarrow> 100 \<le> s \<and> s \<le> 599"
    and code: "(if lf_code f = ''login_failed'' then classify_failure (lf_stage f) (lf_message f) ''Error'' (lf_upstreamStatus f)
      else lf_code f) = lf_code f"
  shows "loginFailure (failure_error f) s' = f"
proof -
  have known: "known_failure (Some (lf_code f))" using row by (simp add: known_failure_def)
  have status: "or_num (map_option rat_of_int (lf_upstreamStatus f)) (or_num None (login_status_of (lf_message f)))
      = or_num (map_option rat_of_int (lf_upstreamStatus f)) None"
    using public_message_status [OF row] by (simp add: or_num_def)
  show ?thesis
    unfolding loginFailure_def Let_def failure_error_def login_error.simps option.case
      pick_stage_again [OF stage] option.sel
    using known by (simp only: if_True simp_thms status http_status_again [OF up] code row option.case prod.case) simp
qed

lemma loginFailure_again: "loginFailure (failure_error (loginFailure e s)) s' = loginFailure e s"
proof (rule loginFailure_kept)
  let ?f = "loginFailure e s"
  show row: "map_of failures (lf_code ?f) = Some (lf_status ?f, lf_message ?f)" and "lf_stage ?f \<in> set stages"
    and "case lf_upstreamStatus ?f of None \<Rightarrow> True | Some s \<Rightarrow> 100 \<le> s \<and> s \<le> 599"
    using loginFailure_row [of e s] unfolding Let_def by blast+
  show "(if lf_code ?f = ''login_failed'' then classify_failure (lf_stage ?f) (lf_message ?f) ''Error'' (lf_upstreamStatus ?f)
      else lf_code ?f) = lf_code ?f"
  proof (cases "lf_code ?f = ''login_failed''")
    case True
    then have "lf_message ?f = ''Arena login failed. Retry or check the server login diagnostics.''"
      using row by (simp add: failures_def)
    with True loginFailure_classified [OF True] classify_again show ?thesis by auto
  qed simp
qed

text \<open>What the steps of a sign-in that succeeds were.\<close>

lemma catch_failure_eq_Inr: "catch_failure aborted stage r = Inr x \<longleftrightarrow> aborted = None \<and> r = Inr x"
  by (auto simp: catch_failure_def split: option.splits sum.splits)

lemma catch_failure_Aborted: "catch_failure aborted stage r = Inl (Aborted x) \<longleftrightarrow> aborted = Some x"
  by (auto simp: catch_failure_def split: option.splits sum.splits)

lemma catch_failure_Failed:
  "catch_failure aborted stage r = Inl (Failed f) \<longleftrightarrow> aborted = None \<and> (\<exists>e. r = Inl e \<and> f = loginFailure e stage)"
  by (auto simp: catch_failure_def split: option.splits sum.splits)

lemma home_check_ok: "home_check status t = Inr u \<Longrightarrow> \<exists>s. status = Some s \<and> s < 400"
  unfolding home_check_def bind_le_eq_Inr guard_le_eq_Inr by (auto split: option.splits)

lemma loginArena_InrD:
  assumes "loginArena aborted launch home login = Inr r"
  shows "aborted = None \<and> login = Inr r \<and> (\<exists>s t. home = Inr (Some s, t) \<and> s < 400)"
proof -
  from assms have l: "aborted = None" "login = Inr r" and "\<exists>u. bind_le home (\<lambda>(status, title). home_check status title) = Inr u"
    by (auto simp: loginArena_def catch_failure_eq_Inr split: sum.splits)
  then obtain u h where "home = Inr h" "home_check (fst h) (snd h) = Inr u" by (auto simp: split_beta)
  with l home_check_ok [of "fst h" "snd h" u] show ?thesis by (cases h) auto
qed

lemma models_array_eq_Inr: "models_array v = Inr ms \<longleftrightarrow> v = JArr ms"
  by (cases v) (auto simp: models_array_def)

lemma save_session_outcome:
  "case save_session a r i of
     (Inr (uid, m), ef) \<Rightarrow> (\<exists>ms. an_models a = Inr (JArr ms) \<and> uid = si_email r \<and> m = ''arena-session-'' @ i
       \<and> ef = \<lparr>ef_account = Some r, ef_models = Some (ms @ [new_model i uid])\<rparr>)
   | (Inl e, ef) \<Rightarrow> ef_models ef = None \<and> (ef_account ef = None \<or> an_save a = Inl e)"
proof (cases "bind_le (an_models a) models_array")
  case (Inr ms)
  then have "an_models a = Inr (JArr ms)" by (auto simp: models_array_eq_Inr)
  with Inr show ?thesis by (auto simp: save_session_def no_effects_def split: sum.splits)
qed (auto simp: save_session_def no_effects_def)

definition sign_in_outcome :: "thrown option \<Rightarrow> answers \<Rightarrow> (prepare_error + string \<times> string) \<times> effects \<Rightarrow> bool" where
  "sign_in_outcome aborted a out = (case out of
     (Inr (uid, m), ef) \<Rightarrow> aborted = None \<and> (\<exists>r i ms s t. an_login a = Inr r \<and> an_models a = Inr (JArr ms)
       \<and> an_home a = Inr (Some s, t) \<and> s < 400 \<and> is_uuid i \<and> uid = si_email r \<and> m = ''arena-session-'' @ i
       \<and> ef = \<lparr>ef_account = Some r, ef_models = Some (ms @ [new_model i uid])\<rparr>)
   | (Inl (Aborted x), ef) \<Rightarrow> aborted = Some x \<and> ef = no_effects
   | (Inl (Failed f), ef) \<Rightarrow> aborted = None \<and> ef_models ef = None
       \<and> (ef_account ef = None \<or> (\<exists>e. an_save a = Inl e \<and> f = loginFailure e ''save_session''))
       \<and> map_of failures (lf_code f) = Some (lf_status f, lf_message f))"

lemma sign_in_outcome_no_effects: "sign_in_outcome aborted a (catch_failure aborted stage (Inl e), no_effects)"
  using loginFailure_row [of e stage]
  by (simp add: sign_in_outcome_def catch_failure_def no_effects_def Let_def split: option.splits)

lemma check_probe_uuid: "check_probe rejected p i = Inr u \<Longrightarrow> is_uuid i"
  unfolding check_probe_def bind_le_eq_Inr guard_le_eq_Inr by blast

lemma prepared_outcome:
  assumes "an_login a = Inr r" "an_home a = Inr (Some s, t)" "s < 400"
  shows "sign_in_outcome aborted a (prepared parse num parseAgentOutput aborted a r)"
proof -
  let ?x = "bind_le (an_page a) (\<lambda>_. case createArenaSession aborted (an_opened a) (an_composer a) (an_sent a) (an_fetched a) of
             Inl e \<Rightarrow> rethrown e | Inr s \<Rightarrow> Inr (fst s))"
  show ?thesis
  proof (cases ?x)
    case (Inl e)
    then show ?thesis unfolding prepared_def by (simp only: sum.case sign_in_outcome_no_effects)
  next
    case (Inr i)
    let ?y = "bind_le (an_output a) (\<lambda>raw. check_probe (arenaOutputRecaptchaRejected parse num raw) (parseAgentOutput raw) i)"
    show ?thesis
    proof (cases ?y)
      case (Inl e)
      then show ?thesis unfolding prepared_def Inr by (simp only: sum.case sign_in_outcome_no_effects)
    next
      case y: (Inr u)
      then have i: "is_uuid i" using check_probe_uuid by auto
      obtain out ef where sv: "save_session a r i = (out, ef)" by fastforce
      have "sign_in_outcome None a (catch_failure None ''save_session'' out, ef)"
      proof (cases out)
        case (Inl e)
        then show ?thesis using save_session_outcome [of a r i] loginFailure_row [of e "''save_session''"]
          by (auto simp: sv sign_in_outcome_def catch_failure_def Let_def)
      next
        case out: (Inr p)
        then show ?thesis using save_session_outcome [of a r i] assms i
          by (auto simp: sv sign_in_outcome_def catch_failure_def split: prod.splits)
      qed
      then show ?thesis unfolding prepared_def Inr sum.case y
        by (cases aborted) (simp_all only: sum.case sv fst_conv snd_conv simp_thms if_True if_False option.simps sign_in_outcome_no_effects)
    qed
  qed
qed


end
