(* ===== verification/Tele_Accounts.thy ===== *)
theory Tele_Accounts
  imports Js_Json "HOL-Library.Multiset"
begin

text \<open>
  \<^verbatim>\<open>src/tools/teleagent2api/src/accounts.mjs\<close>: the account store, in memory and on disk. A file
  of the data directory is what \<^verbatim>\<open>JSON.parse\<close> makes of its text (\<open>None\<close> when it is no JSON);
  the store writes objects, which read back as themselves. Operations of one store run one
  after the other (its queue), so each is one step; a write may fail before or after the
  rename that makes it visible. Parameters: the rendering of numbers and SHA-256 as a
  hexadecimal text.
\<close>

section \<open>Accounts\<close>

record account =
  ac_uid :: string
  ac_nickname :: string
  ac_token :: string
  ac_device_id :: string
  ac_install_id :: string
  ac_expires_at :: json
  ac_owner :: string
  ac_api_key :: string

definition invalid_field :: "string \<Rightarrow> thrown" where
  "invalid_field field = type_error (''Invalid TeleAgent account '' @ field)"

definition identity :: "(rat \<Rightarrow> string) \<Rightarrow> json option \<Rightarrow> string \<Rightarrow> thrown + string" where
  "identity num v field = (case v of
     Some (JStr s) \<Rightarrow> if trim s = [] then Inl (invalid_field field) else Inr s
   | Some (JNum q) \<Rightarrow> if trim (num q) = [] then Inl (invalid_field field) else Inr (num q)
   | _ \<Rightarrow> Inl (invalid_field field))"

definition has_break :: "string \<Rightarrow> bool" where
  "has_break s = list_ex (\<lambda>c. of_char c = (10::nat) \<or> of_char c = (13::nat)) s"

definition header_text :: "json option \<Rightarrow> string \<Rightarrow> thrown + string" where
  "header_text v field = (case str_of v of
     None \<Rightarrow> Inl (invalid_field field)
   | Some s \<Rightarrow> if s = [] \<or> has_break s then Inl (invalid_field field) else Inr s)"

definition nickname_of :: "json option \<Rightarrow> thrown + string" where
  "nickname_of v = (if nullish v then Inr '''' else
     (case str_of v of None \<Rightarrow> Inl (invalid_field ''nickname'') | Some s \<Rightarrow> Inr s))"

definition expires_of :: "json option \<Rightarrow> thrown + json" where
  "expires_of v = (case v of
     None \<Rightarrow> Inr JNull | Some JNull \<Rightarrow> Inr JNull | Some (JStr s) \<Rightarrow> Inr (JStr s) | Some (JNum q) \<Rightarrow> Inr (JNum q)
   | _ \<Rightarrow> Inl (invalid_field ''expires_at''))"

text \<open>\<open>accountFields\<close>; the key is not part of the fields and left empty.\<close>

definition accountFields :: "(rat \<Rightarrow> string) \<Rightarrow> json option \<Rightarrow> thrown + account" where
  "accountFields num input =
     bind_js (identity num (ogetp input ''uid'') ''uid'') (\<lambda>uid.
     bind_js (identity num (ogetp input ''owner'') ''owner'') (\<lambda>ow.
     bind_js (header_text (ogetp input ''token'') ''token'') (\<lambda>token.
     bind_js (header_text (ogetp input ''device_id'') ''device_id'') (\<lambda>device.
     bind_js (header_text (ogetp input ''install_id'') ''install_id'') (\<lambda>install.
     bind_js (nickname_of (ogetp input ''nickname'')) (\<lambda>nickname.
     bind_js (expires_of (ogetp input ''expires_at'')) (\<lambda>ex.
       Inr \<lparr>ac_uid = uid, ac_nickname = nickname, ac_token = token, ac_device_id = device, ac_install_id = install,
            ac_expires_at = ex, ac_owner = ow, ac_api_key = ''''\<rparr>)))))))"

definition accountId :: "(bytes \<Rightarrow> string) \<Rightarrow> (rat \<Rightarrow> string) \<Rightarrow> account \<Rightarrow> string" where
  "accountId sha num a = sha (utf8 (stringify num (JArr [JStr (ac_owner a), JStr (ac_uid a)])))"

definition account_json :: "account \<Rightarrow> json" where
  "account_json a = JObj [(''uid'', JStr (ac_uid a)), (''nickname'', JStr (ac_nickname a)), (''token'', JStr (ac_token a)),
     (''device_id'', JStr (ac_device_id a)), (''install_id'', JStr (ac_install_id a)), (''expires_at'', ac_expires_at a),
     (''owner'', JStr (ac_owner a)), (''api_key'', JStr (ac_api_key a))]"

section \<open>The store\<close>

datatype dir_entry = File "json option" | NotAFile

record store =
  st_accounts :: "(string \<times> account) list"
  st_keys :: "(string \<times> account) list"
  st_loaded :: bool
  st_disk :: "(string \<times> dir_entry) list"

definition file_name :: "string \<Rightarrow> string" where
  "file_name i = ''account-'' @ i @ ''.json''"

definition hex64 :: "string \<Rightarrow> bool" where
  "hex64 s = (length s = 64 \<and> list_all is_hex_lower s)"

definition is_account_file :: "string \<Rightarrow> bool" where
  "is_account_file n = (starts_with n ''account-'' \<and> hex64 (take 64 (drop 8 n)) \<and> drop 72 n = ''.json'')"

definition is_api_key :: "string \<Rightarrow> bool" where
  "is_api_key k = (starts_with k ''ta-'' \<and> hex64 (drop 3 k))"

definition key_text :: "json option \<Rightarrow> string" where
  "key_text v = (case str_of v of None \<Rightarrow> ''undefined'' | Some s \<Rightarrow> s)"

text \<open>One file of the loop in \<open>load\<close>.\<close>

definition load_file :: "(bytes \<Rightarrow> string) \<Rightarrow> (rat \<Rightarrow> string) \<Rightarrow> string \<times> dir_entry
    \<Rightarrow> (string \<times> account) list \<times> (string \<times> account) list
    \<Rightarrow> thrown + (string \<times> account) list \<times> (string \<times> account) list" where
  "load_file sha num f acc =
     (if \<not> is_account_file (fst f) then Inr acc
      else (case snd f of
        NotAFile \<Rightarrow> Inl (plain_error ''Invalid TeleAgent account file'')
      | File None \<Rightarrow> Inl (plain_error ''Invalid TeleAgent account file JSON'')
      | File (Some parsed) \<Rightarrow>
          bind_js (accountFields num (Some parsed)) (\<lambda>a.
            let i = accountId sha num a; k = key_text (getp parsed ''api_key'') in
            if fst f \<noteq> file_name i \<or> \<not> is_api_key k \<or> map_of (snd acc) k \<noteq> None then
              Inl (plain_error ''Invalid TeleAgent account file identity or API key'')
            else Inr (AList.update i (a\<lparr>ac_api_key := k\<rparr>) (fst acc), AList.update k (a\<lparr>ac_api_key := k\<rparr>) (snd acc)))))"

fun load_files :: "(bytes \<Rightarrow> string) \<Rightarrow> (rat \<Rightarrow> string) \<Rightarrow> (string \<times> dir_entry) list
    \<Rightarrow> (string \<times> account) list \<times> (string \<times> account) list
    \<Rightarrow> thrown + (string \<times> account) list \<times> (string \<times> account) list" where
  "load_files sha num [] acc = Inr acc"
| "load_files sha num (f # fs) acc = bind_js (load_file sha num f acc) (load_files sha num fs)"

text \<open>\<open>load\<close>; \<open>files\<close> is the directory in the order \<^verbatim>\<open>readdir\<close> returns it.\<close>

definition load :: "(bytes \<Rightarrow> string) \<Rightarrow> (rat \<Rightarrow> string) \<Rightarrow> (string \<times> dir_entry) list \<Rightarrow> store \<Rightarrow> (thrown + unit) \<times> store" where
  "load sha num files s = (case load_files sha num files ([], []) of
     Inl e \<Rightarrow> (Inl e, s)
   | Inr (as, ks) \<Rightarrow> (Inr (), s\<lparr>st_accounts := as, st_keys := ks, st_loaded := True\<rparr>))"

datatype write_outcome = Written | FailedBeforeRename | FailedAfterRename

definition io_error :: thrown where "io_error = plain_error ''EIO''"

definition writeAccount :: "write_outcome \<Rightarrow> string \<Rightarrow> account \<Rightarrow> store \<Rightarrow> (thrown + unit) \<times> store" where
  "writeAccount outcome name a s =
     (let s' = s\<lparr>st_disk := AList.update name (File (Some (account_json a))) (st_disk s)\<rparr>
      in case outcome of Written \<Rightarrow> (Inr (), s') | FailedBeforeRename \<Rightarrow> (Inl io_error, s) | FailedAfterRename \<Rightarrow> (Inl io_error, s'))"

text \<open>\<open>save\<close>; \<open>fresh\<close> is the hexadecimal text of 32 random bytes.\<close>

definition save :: "(bytes \<Rightarrow> string) \<Rightarrow> (rat \<Rightarrow> string) \<Rightarrow> string \<Rightarrow> write_outcome \<Rightarrow> json option \<Rightarrow> store
    \<Rightarrow> (thrown + account) \<times> store" where
  "save sha num fresh outcome input s =
     (if \<not> st_loaded s then (Inl (plain_error ''Load TeleAgent account store before saving''), s)
      else (case accountFields num input of
        Inl e \<Rightarrow> (Inl e, s)
      | Inr given \<Rightarrow>
          (let i = accountId sha num given;
               a = given\<lparr>ac_api_key := (case map_of (st_accounts s) i of Some old \<Rightarrow> ac_api_key old | None \<Rightarrow> ''ta-'' @ fresh)\<rparr>
           in case writeAccount outcome (file_name i) a s of
                (Inl e, s') \<Rightarrow> (Inl e, s')
              | (Inr _, s') \<Rightarrow> (Inr a, s'\<lparr>st_accounts := AList.update i a (st_accounts s'),
                                          st_keys := AList.update (ac_api_key a) a (st_keys s')\<rparr>))))"

definition getByKey :: "string \<Rightarrow> store \<Rightarrow> account option" where
  "getByKey k s = map_of (st_keys s) k"

definition all_accounts :: "store \<Rightarrow> account list" where
  "all_accounts s = map snd (st_accounts s)"

definition empty_store :: "(string \<times> dir_entry) list \<Rightarrow> store" where
  "empty_store disk = \<lparr>st_accounts = [], st_keys = [], st_loaded = False, st_disk = disk\<rparr>"

section \<open>What a file keeps\<close>

lemma bind_js_cong_Inr: "bind_js r f = Inr y \<Longrightarrow> (\<And>x. r = Inr x \<Longrightarrow> f x = Inr y \<Longrightarrow> P) \<Longrightarrow> P"
  by auto

lemma identity_stable: "identity num v field = Inr s \<Longrightarrow> identity num (Some (JStr s)) field = Inr s"
  by (auto simp: identity_def split: option.splits json.splits if_splits)

lemma header_text_stable: "header_text v field = Inr s \<Longrightarrow> header_text (Some (JStr s)) field = Inr s"
  by (auto simp: header_text_def split: option.splits if_splits)

lemma expires_of_stable: "expires_of v = Inr x \<Longrightarrow> expires_of (Some x) = Inr x"
  by (auto simp: expires_of_def split: option.splits json.splits)

text \<open>The fields of an account read back from its own JSON, whatever key it carries.\<close>

lemma accountFields_stable:
  assumes "accountFields num input = Inr a"
  shows "accountFields num (Some (account_json (a\<lparr>ac_api_key := k\<rparr>))) = Inr a"
proof -
  from assms have a: "identity num (Some (JStr (ac_uid a))) ''uid'' = Inr (ac_uid a)"
    "identity num (Some (JStr (ac_owner a))) ''owner'' = Inr (ac_owner a)"
    "header_text (Some (JStr (ac_token a))) ''token'' = Inr (ac_token a)"
    "header_text (Some (JStr (ac_device_id a))) ''device_id'' = Inr (ac_device_id a)"
    "header_text (Some (JStr (ac_install_id a))) ''install_id'' = Inr (ac_install_id a)"
    "expires_of (Some (ac_expires_at a)) = Inr (ac_expires_at a)" "ac_api_key a = ''''"
    unfolding accountFields_def bind_js_eq_Inr sum.inject
    by (auto intro: identity_stable header_text_stable expires_of_stable)
  then show ?thesis
    by (simp add: accountFields_def account_json_def ogetp_def nickname_of_def)
qed

lemma accountId_key [simp]: "accountId sha num (a\<lparr>ac_api_key := k\<rparr>) = accountId sha num a"
  by (simp add: accountId_def)

section \<open>Reachable stores\<close>

text \<open>
  A directory without account files is loaded; then accounts are saved, and a write may fail
  before it becomes visible. The random keys do not repeat.
\<close>

inductive store_reachable :: "(bytes \<Rightarrow> string) \<Rightarrow> (rat \<Rightarrow> string) \<Rightarrow> store \<Rightarrow> bool" for sha num where
  sr_load: "list_all (\<lambda>f. \<not> is_account_file (fst f)) disk \<Longrightarrow> distinct (map fst disk)
    \<Longrightarrow> store_reachable sha num (snd (load sha num disk (empty_store disk)))"
| sr_save: "store_reachable sha num s \<Longrightarrow> outcome \<noteq> FailedAfterRename \<Longrightarrow> hex64 fresh
    \<Longrightarrow> map_of (st_keys s) (''ta-'' @ fresh) = None
    \<Longrightarrow> store_reachable sha num (snd (save sha num fresh outcome input s))"

definition to_file :: "string \<times> account \<Rightarrow> string \<times> dir_entry" where
  "to_file p = (file_name (fst p), File (Some (account_json (snd p))))"

definition good_account :: "(bytes \<Rightarrow> string) \<Rightarrow> (rat \<Rightarrow> string) \<Rightarrow> string \<times> account \<Rightarrow> bool" where
  "good_account sha num p \<longleftrightarrow> fst p = accountId sha num (snd p) \<and> is_api_key (ac_api_key (snd p))
     \<and> accountFields num (Some (account_json (snd p))) = Inr ((snd p)\<lparr>ac_api_key := ''''\<rparr>)"

definition store_inv :: "(bytes \<Rightarrow> string) \<Rightarrow> (rat \<Rightarrow> string) \<Rightarrow> store \<Rightarrow> bool" where
  "store_inv sha num s \<longleftrightarrow> st_loaded s \<and> distinct (map fst (st_accounts s)) \<and> list_all (good_account sha num) (st_accounts s)
     \<and> distinct (map (ac_api_key \<circ> snd) (st_accounts s))
     \<and> st_keys s = map (\<lambda>p. (ac_api_key (snd p), snd p)) (st_accounts s)
     \<and> filter (is_account_file \<circ> fst) (st_disk s) = map to_file (st_accounts s)"

lemma file_name_is_account: "hex64 i \<Longrightarrow> is_account_file (file_name i)"
  by (simp add: is_account_file_def file_name_def starts_with_def hex64_def)

lemma file_name_inj: "file_name i = file_name j \<longleftrightarrow> i = j"
  by (simp add: file_name_def)

lemma load_other_files: "list_all (\<lambda>f. \<not> is_account_file (fst f)) fs \<Longrightarrow> load_files sha num fs acc = Inr acc"
  by (induction fs arbitrary: acc) (simp_all add: load_file_def)

lemma load_files_filter: "load_files sha num (filter (is_account_file \<circ> fst) fs) = load_files sha num fs"
proof (induction fs)
  case (Cons f fs)
  show ?case
  proof (cases "is_account_file (fst f)")
    case True
    then show ?thesis using Cons by (intro ext) simp
  next
    case False
    then have "load_file sha num f acc = Inr acc" for acc by (simp add: load_file_def)
    then show ?thesis using Cons False by (intro ext) simp
  qed
qed simp

lemma filter_update:
  "P k \<Longrightarrow> filter (P \<circ> fst) (AList.update k v m) = AList.update k v (filter (P \<circ> fst) m)"
  by (induction m) auto

lemma update_map_fst:
  assumes "inj f"
  shows "AList.update (f k) (g v) (map (\<lambda>p. (f (fst p), g (snd p))) m) = map (\<lambda>p. (f (fst p), g (snd p))) (AList.update k v m)"
  by (induction m) (auto simp: inj_eq [OF assms])

lemma to_file_update:
  "AList.update (file_name i) (File (Some (account_json a))) (map to_file m) = map to_file (AList.update i a m)"
proof -
  have "inj file_name" by (rule injI) (simp add: file_name_inj)
  from update_map_fst [OF this, of i "\<lambda>a. File (Some (account_json a))" a m] show ?thesis
    by (simp add: to_file_def [abs_def])
qed

text \<open>The index by key follows the index by id when an account is saved under its key.\<close>

lemma keys_update_same:
  assumes "distinct (map fst m)" "distinct (map (ac_api_key \<circ> snd) m)"
    and "map_of m i = Some old" "ac_api_key a = ac_api_key old"
  shows "AList.update (ac_api_key a) a (map (\<lambda>p. (ac_api_key (snd p), snd p)) m)
       = map (\<lambda>p. (ac_api_key (snd p), snd p)) (AList.update i a m)"
  using assms
proof (induction m)
  case (Cons p m)
  obtain j b where p: "p = (j, b)" by fastforce
  show ?case
  proof (cases "j = i")
    case True
    then show ?thesis using Cons.prems p by simp
  next
    case False
    then have old: "map_of m i = Some old" using Cons.prems p by simp
    then have "(i, old) \<in> set m" by (rule map_of_SomeD)
    then have "ac_api_key old \<in> set (map (ac_api_key \<circ> snd) m)" by force
    moreover have "ac_api_key b \<notin> set (map (ac_api_key \<circ> snd) m)" using Cons.prems(2) p by simp
    ultimately have "ac_api_key b \<noteq> ac_api_key old" by metis
    then show ?thesis using Cons.IH Cons.prems False old p by simp
  qed
qed simp

lemma update_new_key: "k \<notin> fst ` set m \<Longrightarrow> AList.update k v m = m @ [(k, v)]"
  by (induction m) auto

lemma map_key_update:
  assumes "distinct (map fst m)" "map_of m i = Some old" "g a = g old"
  shows "map (g \<circ> snd) (AList.update i a m) = map (g \<circ> snd) m"
  using assms by (induction m) auto

lemma is_api_key_fresh: "hex64 fresh \<Longrightarrow> is_api_key (''ta-'' @ fresh)"
  by (simp add: is_api_key_def starts_with_def)

lemma good_account_saved:
  assumes "accountFields num input = Inr given" "is_api_key k"
  shows "good_account sha num (accountId sha num given, given\<lparr>ac_api_key := k\<rparr>)"
proof -
  have "ac_api_key given = ''''" using assms(1) unfolding accountFields_def bind_js_eq_Inr by auto
  then have "given\<lparr>ac_api_key := ''''\<rparr> = given" by (cases given) simp
  then show ?thesis using assms accountFields_stable [OF assms(1)] by (simp add: good_account_def)
qed

text \<open>A save that succeeds keeps the invariant, for an account that is new or known.\<close>

lemma store_inv_saved:
  assumes inv: "store_inv sha num s" and hex: "\<And>b. hex64 (sha b)"
    and a: "good_account sha num (i, a)"
    and k: "case map_of (st_accounts s) i of Some old \<Rightarrow> ac_api_key a = ac_api_key old | None \<Rightarrow> map_of (st_keys s) (ac_api_key a) = None"
  shows "store_inv sha num (s\<lparr>st_disk := AList.update (file_name i) (File (Some (account_json a))) (st_disk s),
     st_accounts := AList.update i a (st_accounts s), st_keys := AList.update (ac_api_key a) a (st_keys s)\<rparr>)"
proof -
  let ?m = "st_accounts s"
  have d: "distinct (map fst ?m)" "distinct (map (ac_api_key \<circ> snd) ?m)"
    "st_keys s = map (\<lambda>p. (ac_api_key (snd p), snd p)) ?m" using inv by (simp_all add: store_inv_def)
  have "is_account_file (file_name i)"
    using a hex by (auto simp: good_account_def accountId_def intro!: file_name_is_account)
  then have disk: "filter (is_account_file \<circ> fst) (AList.update (file_name i) (File (Some (account_json a))) (st_disk s))
      = map to_file (AList.update i a ?m)"
    using inv by (simp add: store_inv_def filter_update to_file_update)
  have good: "list_all (good_account sha num) (AList.update i a ?m)"
    using inv a by (auto simp: store_inv_def list_all_iff dest!: set_update_cases)
  have "distinct (map (ac_api_key \<circ> snd) (AList.update i a ?m))
      \<and> AList.update (ac_api_key a) a (st_keys s) = map (\<lambda>p. (ac_api_key (snd p), snd p)) (AList.update i a ?m)"
  proof (cases "map_of ?m i")
    case None
    then have new: "AList.update i a ?m = ?m @ [(i, a)]" by (intro update_new_key) (simp add: map_of_eq_None_iff)
    have nk: "ac_api_key a \<notin> fst ` set (st_keys s)" using k None by (simp add: map_of_eq_None_iff)
    then have "AList.update (ac_api_key a) a (st_keys s) = st_keys s @ [(ac_api_key a, a)]" by (rule update_new_key)
    moreover have "ac_api_key a \<notin> set (map (ac_api_key \<circ> snd) ?m)" using nk d(3) by force
    ultimately show ?thesis using new d by simp
  next
    case (Some old)
    with k have "ac_api_key a = ac_api_key old" by simp
    then show ?thesis using keys_update_same [OF d(1,2) Some] map_key_update [OF d(1) Some, of ac_api_key] d by simp
  qed
  then show ?thesis
    using inv disk good d(1) by (simp add: store_inv_def distinct_keys_update)
qed

lemma store_inv_save:
  assumes "store_inv sha num s" "\<And>b. hex64 (sha b)" "outcome \<noteq> FailedAfterRename" "hex64 fresh"
    and "map_of (st_keys s) (''ta-'' @ fresh) = None"
  shows "store_inv sha num (snd (save sha num fresh outcome input s))"
proof (cases "accountFields num input")
  case (Inl e)
  then show ?thesis using assms(1) by (simp add: save_def store_inv_def)
next
  case (Inr given)
  let ?i = "accountId sha num given"
  let ?k = "case map_of (st_accounts s) ?i of Some old \<Rightarrow> ac_api_key old | None \<Rightarrow> ''ta-'' @ fresh"
  have "is_api_key ?k"
    using assms(1,4) is_api_key_fresh
    by (auto simp: store_inv_def list_all_iff good_account_def split: option.splits dest!: map_of_SomeD)
  then have g: "good_account sha num (?i, given\<lparr>ac_api_key := ?k\<rparr>)" using Inr good_account_saved by blast
  have "store_inv sha num (s\<lparr>st_disk := AList.update (file_name ?i) (File (Some (account_json (given\<lparr>ac_api_key := ?k\<rparr>)))) (st_disk s),
     st_accounts := AList.update ?i (given\<lparr>ac_api_key := ?k\<rparr>) (st_accounts s),
     st_keys := AList.update (ac_api_key (given\<lparr>ac_api_key := ?k\<rparr>)) (given\<lparr>ac_api_key := ?k\<rparr>) (st_keys s)\<rparr>)"
    by (rule store_inv_saved [OF assms(1,2) g]) (use assms(5) in \<open>simp split: option.splits\<close>)
  then show ?thesis
    using assms(1,3) Inr by (cases outcome) (simp_all add: save_def writeAccount_def Let_def store_inv_def)
qed

lemma store_inv_reachable:
  assumes "store_reachable sha num s" "\<And>b. hex64 (sha b)"
  shows "store_inv sha num s"
  using assms(1)
proof (induction rule: store_reachable.induct)
  case (sr_load disk)
  then have "filter (is_account_file \<circ> fst) disk = []" by (simp add: list_all_iff filter_empty_conv)
  then show ?case
    using sr_load by (simp add: load_def load_other_files empty_store_def store_inv_def)
next
  case (sr_save s outcome fresh input)
  then show ?case using store_inv_save assms(2) by blast
qed

section \<open>Reloading\<close>

lemma load_good_file:
  assumes "good_account sha num p" "hex64 (fst p)" "map_of ks (ac_api_key (snd p)) = None"
  shows "load_file sha num (to_file p) (as, ks)
       = Inr (AList.update (fst p) (snd p) as, AList.update (ac_api_key (snd p)) (snd p) ks)"
proof -
  have "((snd p)\<lparr>ac_api_key := ''''\<rparr>)\<lparr>ac_api_key := ac_api_key (snd p)\<rparr> = snd p" by simp
  moreover have "key_text (getp (account_json (snd p)) ''api_key'') = ac_api_key (snd p)"
    by (simp add: account_json_def key_text_def)
  ultimately show ?thesis
    using assms file_name_is_account [OF assms(2)]
    by (simp add: load_file_def to_file_def good_account_def Let_def)
qed

lemma load_good_files:
  assumes "list_all (good_account sha num) ps" "list_all (\<lambda>p. hex64 (fst p)) ps"
    and "distinct (map fst (as @ ps))" "distinct (map fst ks @ map (ac_api_key \<circ> snd) ps)"
  shows "load_files sha num (map to_file ps) (as, ks) = Inr (as @ ps, ks @ map (\<lambda>p. (ac_api_key (snd p), snd p)) ps)"
  using assms
proof (induction ps arbitrary: as ks)
  case (Cons p ps)
  have k: "ac_api_key (snd p) \<notin> fst ` set ks" "fst p \<notin> fst ` set as" using Cons.prems by auto
  then have "load_file sha num (to_file p) (as, ks) = Inr (as @ [p], ks @ [(ac_api_key (snd p), snd p)])"
    using Cons.prems load_good_file [of sha num p ks as] by (simp add: map_of_eq_None_iff update_new_key)
  moreover have "load_files sha num (map to_file ps) (as @ [p], ks @ [(ac_api_key (snd p), snd p)])
      = Inr ((as @ [p]) @ ps, (ks @ [(ac_api_key (snd p), snd p)]) @ map (\<lambda>p. (ac_api_key (snd p), snd p)) ps)"
    by (rule Cons.IH) (use Cons.prems in auto)
  ultimately show ?case by simp
qed simp

lemma mset_map_ex: "mset ys = image_mset f (mset xs) \<Longrightarrow> \<exists>ps. mset ps = mset xs \<and> map f ps = ys"
proof (induction ys arbitrary: xs)
  case (Cons y ys)
  then have "y \<in># image_mset f (mset xs)" by (metis union_single_eq_member mset.simps(2) add_mset_add_single)
  then obtain x where x: "x \<in> set xs" "y = f x" by auto
  then have "mset ys = image_mset f (mset (remove1 x xs))" using Cons.prems
    by (simp add: image_mset_Diff) (metis add_mset_remove_trivial)
  from Cons.IH [OF this] obtain ps where "mset ps = mset (remove1 x xs)" "map f ps = ys" by blast
  with x show ?case by (intro exI [of _ "x # ps"]) simp
qed simp


definition witness_sha :: "bytes \<Rightarrow> string" where
  "witness_sha b = replicate 64 CHR ''0''"

definition witness_input :: "json option" where
  "witness_input = Some (JObj [(''uid'', JStr ''u''), (''token'', JStr ''t''), (''device_id'', JStr ''d''),
     (''install_id'', JStr ''i''), (''owner'', JStr ''o'')])"

definition witness_store :: store where
  "witness_store = snd (save witness_sha (\<lambda>_. '''') (replicate 64 CHR ''a'') Written witness_input
     (snd (load witness_sha (\<lambda>_. '''') [(''welfare.json'', File None)] (empty_store [(''welfare.json'', File None)]))))"

lemma witness_sha_hex: "hex64 (witness_sha b)"
  by (simp add: witness_sha_def hex64_def list_all_iff is_hex_lower_def is_digit_def)

lemma witness_reachable: "store_reachable witness_sha (\<lambda>_. '''') witness_store"
  unfolding witness_store_def
proof (rule sr_save [OF sr_load])
  show "hex64 (replicate 64 CHR ''a'')" by (simp add: hex64_def list_all_iff is_hex_lower_def is_digit_def)
qed (code_simp, simp_all add: load_def load_file_def is_account_file_def starts_with_def empty_store_def)


text \<open>
  Saving an account and looking it up: in every reachable state, an account that is saved
  is found by the key it was given, and every key that found an account before still finds
  the account of the same id (owner and user), so no client of the adapter loses its key when
  an administrator signs in again; a write that fails changes nothing.
\<close>

theorem save_then_lookup:
  assumes "store_reachable sha num s" "\<And>b. hex64 (sha b)" "hex64 fresh" "map_of (st_keys s) (''ta-'' @ fresh) = None"
    and "outcome \<noteq> FailedAfterRename"
  shows "case save sha num fresh outcome input s of
     (Inr a, s') \<Rightarrow> getByKey (ac_api_key a) s' = Some a
        \<and> (\<forall>k b. getByKey k s = Some b \<longrightarrow> (\<exists>b'. getByKey k s' = Some b' \<and> accountId sha num b' = accountId sha num b))
   | (Inl e, s') \<Rightarrow> s' = s"
proof -
  have inv: "store_inv sha num s" using store_inv_reachable assms(1,2) by blast

  have key_of: "map_of (st_accounts s) i = Some old \<Longrightarrow> accountId sha num old = i
      \<and> map_of (st_keys s) (ac_api_key old) = Some old" for i old
  proof -
    assume "map_of (st_accounts s) i = Some old"
    then have p: "(i, old) \<in> set (st_accounts s)" by (rule map_of_SomeD)
    moreover have "distinct (map fst (st_keys s))" using inv by (simp add: store_inv_def comp_def)
    moreover have "(ac_api_key old, old) \<in> set (st_keys s)" using p inv by (force simp: store_inv_def)
    ultimately show ?thesis using inv by (auto simp: store_inv_def list_all_iff good_account_def)
  qed
  show ?thesis
  proof (cases "accountFields num input")
    case (Inl e)
    then show ?thesis by (simp add: save_def)
  next
    case (Inr given)
    have *: "accountId sha num given = accountId sha num b"
      if "map_of (st_accounts s) (accountId sha num given) = Some old" "map_of (st_keys s) (ac_api_key old) = Some b" for b old
      using key_of [OF that(1)] that(2) by simp
    show ?thesis
      using Inr assms(4,5) *
      by (cases outcome)
        (auto simp: save_def writeAccount_def Let_def getByKey_def split: option.splits)
  qed
qed

theorem save_then_lookup_witness:
  "\<exists>a. fst (save witness_sha (\<lambda>_. '''') (replicate 64 CHR ''b'') Written witness_input witness_store) = Inr a
     \<and> getByKey (ac_api_key a) (snd (save witness_sha (\<lambda>_. '''') (replicate 64 CHR ''b'') Written witness_input witness_store)) = Some a"
proof -
  have h: "hex64 (replicate 64 CHR ''b'')" by (simp add: hex64_def list_all_iff is_hex_lower_def is_digit_def)
  have n: "map_of (st_keys witness_store) (''ta-'' @ replicate 64 CHR ''b'') = None" by code_simp
  have "\<not> isl (fst (save witness_sha (\<lambda>_. '''') (replicate 64 CHR ''b'') Written witness_input witness_store))" by code_simp
  then show ?thesis
    using save_then_lookup [OF witness_reachable witness_sha_hex h n, of Written witness_input]
    by (auto split: prod.splits sum.splits)
qed

end
