(* ===== verification/Tele_Welfare.thy ===== *)
theory Tele_Welfare
  imports Tele_Accounts
begin

text \<open>
  \<^verbatim>\<open>src/tools/teleagent2api/src/welfare.mjs\<close>: the daily claim of an account and its scheduler,
  with retries, a record of the attempts that is written before each attempt, crashes and
  writes that fail. Parameters: the responses of the service, the clock and the local date
  the time zone gives for it.
\<close>

section \<open>One request\<close>

text \<open>
  How a fetch ends: it rejects with an error of some name, or it gives a status and the
  parsed body (\<open>None\<close> when it is no JSON), together with the name of the reason if the
  signal was aborted by then.
\<close>

datatype task_response = Rejects string | Responds int "json option" "string option"

definition welfare_text :: "json option \<Rightarrow> string \<Rightarrow> thrown + unit" where
  "welfare_text v field = (case str_of v of
     None \<Rightarrow> Inl (type_error (''Invalid TeleAgent welfare '' @ field))
   | Some s \<Rightarrow> if s = [] \<or> has_break s then Inl (type_error (''Invalid TeleAgent welfare '' @ field)) else Inr ())"

definition named_error :: "string \<Rightarrow> string \<Rightarrow> thrown" where
  "named_error nm msg = js_error_of (if nm = ''AbortError'' \<or> nm = ''TimeoutError'' then nm else ''Error'') msg"

definition task_headers :: "account \<Rightarrow> nat \<Rightarrow> string \<Rightarrow> (string \<times> string) list" where
  "task_headers a seconds nonce = [(''accept'', ''application/json''), (''x-token'', ac_token a), (''x-app-version'', ''2.7.0''),
     (''x-superagent-device-id'', ac_device_id a), (''x-superagent-install-id'', ac_install_id a), (''x-device-os'', ''linux''),
     (''x-device-os-version'', ''linux''), (''x-timestamp'', show_nat seconds), (''x-nonce'', nonce)]"

definition requestTask :: "(string \<Rightarrow> rat option) \<Rightarrow> (rat \<Rightarrow> string) \<Rightarrow> account \<Rightarrow> task_response \<Rightarrow> string \<Rightarrow> thrown + json" where
  "requestTask to_number num a resp operation =
     bind_js (welfare_text (Some (JStr (ac_token a))) ''token'') (\<lambda>_.
     bind_js (welfare_text (Some (JStr (ac_device_id a))) ''device_id'') (\<lambda>_.
     bind_js (welfare_text (Some (JStr (ac_install_id a))) ''install_id'') (\<lambda>_.
     case resp of
       Rejects nm \<Rightarrow> Inl (named_error nm (''TeleAgent '' @ operation @ '' network request failed''))
     | Responds status body aborted \<Rightarrow>
         if status < 200 \<or> 299 < status then
           Inl (plain_error (''TeleAgent '' @ operation @ '' failed (HTTP '' @ show_nat (nat status) @ '')''))
         else (case body of
           None \<Rightarrow> (case aborted of
               Some nm \<Rightarrow> Inl (js_error_of (if nm = ''TimeoutError'' then nm else ''AbortError'')
                             (''TeleAgent '' @ operation @ '' response was aborted''))
             | None \<Rightarrow> Inl (plain_error (''TeleAgent '' @ operation @ '' returned invalid JSON'')))
         | Some payload \<Rightarrow>
             if js_number to_number num (getp payload ''code'') \<noteq> Some 200 then
               Inl (plain_error (''TeleAgent '' @ operation @ '' returned an unsuccessful task code''))
             else Inr payload))))"

record claim_report =
  cl_uid :: string
  cl_claim :: json
  cl_daily :: json

definition or_null :: "json option \<Rightarrow> json" where
  "or_null v = (case v of None \<Rightarrow> JNull | Some w \<Rightarrow> w)"

text \<open>\<open>claimDaily\<close>: the claim, and only when it succeeded the status.\<close>

definition claimDaily :: "(string \<Rightarrow> rat option) \<Rightarrow> (rat \<Rightarrow> string) \<Rightarrow> account \<Rightarrow> task_response \<Rightarrow> task_response
    \<Rightarrow> thrown + claim_report" where
  "claimDaily to_number num a r1 r2 =
     bind_js (requestTask to_number num a r1 ''daily claim'') (\<lambda>claim.
     bind_js (requestTask to_number num a r2 ''daily status'') (\<lambda>daily.
       Inr \<lparr>cl_uid = ac_uid a, cl_claim = or_null (getp claim ''data''), cl_daily = or_null (getp daily ''data'')\<rparr>))"

section \<open>The record of attempts\<close>

definition RETRY_DELAYS :: "rat list" where "RETRY_DELAYS = [60000, 300000, 1800000]"

definition MAX_ATTEMPTS :: nat where "MAX_ATTEMPTS = length RETRY_DELAYS + 1"

datatype wstatus = Pending | Success | Failed

record wentry =
  we_date :: string
  we_status :: wstatus
  we_attempts :: nat
  we_nextRetryAt :: "rat option"

type_synonym wrecord = "(string \<times> wentry) list"

text \<open>\<open>readState\<close> on the parsed file.\<close>

definition is_date :: "string \<Rightarrow> bool" where
  "is_date s = (length s = 10 \<and> list_all is_digit (take 4 s) \<and> s ! 4 = CHR ''-'' \<and> list_all is_digit (take 2 (drop 5 s))
     \<and> s ! 7 = CHR ''-'' \<and> list_all is_digit (drop 8 s))"

fun status_of_text :: "string option \<Rightarrow> wstatus option" where
  "status_of_text None = None"
| "status_of_text (Some s) = (if s = ''pending'' then Some Pending else if s = ''success'' then Some Success
     else if s = ''failed'' then Some Failed else None)"

definition attempts_of :: "json option \<Rightarrow> nat option" where
  "attempts_of v = (case num_of v of None \<Rightarrow> None
     | Some q \<Rightarrow> if q = of_int \<lfloor>q\<rfloor> \<and> 1 \<le> q \<and> q \<le> of_nat MAX_ATTEMPTS then Some (nat \<lfloor>q\<rfloor>) else None)"

definition retry_of :: "json option \<Rightarrow> rat option option" where
  "retry_of v = (case v of Some JNull \<Rightarrow> Some None | Some (JNum q) \<Rightarrow> Some (Some q) | _ \<Rightarrow> None)"

definition make_entry :: "string option \<Rightarrow> wstatus option \<Rightarrow> nat option \<Rightarrow> rat option option \<Rightarrow> wentry option" where
  "make_entry d st n r = (case (d, st, n, r) of
     (Some d, Some st, Some n, Some r) \<Rightarrow>
       if is_date d then Some \<lparr>we_date = d, we_status = st, we_attempts = n, we_nextRetryAt = r\<rparr> else None
   | _ \<Rightarrow> None)"

definition read_entry :: "string \<times> json \<Rightarrow> thrown + string \<times> wentry" where
  "read_entry e = (case make_entry (str_of (getp (snd e) ''date'')) (status_of_text (str_of (getp (snd e) ''status'')))
       (attempts_of (getp (snd e) ''attempts'')) (retry_of (getp (snd e) ''nextRetryAt'')) of
     Some w \<Rightarrow> if hex64 (fst e) then Inr (fst e, w) else Inl (plain_error ''Invalid TeleAgent welfare account state'')
   | None \<Rightarrow> Inl (plain_error ''Invalid TeleAgent welfare account state''))"

definition readState :: "json option option \<Rightarrow> thrown + wrecord" where
  "readState content = (case content of
     None \<Rightarrow> Inr []
   | Some None \<Rightarrow> Inl (plain_error ''Invalid TeleAgent welfare state JSON'')
   | Some (Some state) \<Rightarrow>
       (case (getp state ''version'' = Some (JNum 1), obj_of (getp state ''accounts'')) of
          (True, Some kvs) \<Rightarrow> map_js read_entry kvs
        | _ \<Rightarrow> Inl (plain_error ''Invalid TeleAgent welfare state'')))"

lemma make_entry_attempts: "make_entry d st n r = Some w \<Longrightarrow> n = Some (we_attempts w)"
  by (auto simp: make_entry_def split: option.splits if_splits)

lemma attempts_of_bounds: "attempts_of v = Some n \<Longrightarrow> 1 \<le> n \<and> n \<le> MAX_ATTEMPTS"
  by (auto simp: attempts_of_def le_nat_iff nat_le_iff floor_le_iff le_floor_iff split: if_splits option.splits)

lemma readState_attempts:
  assumes "readState content = Inr rec" "(i, e) \<in> set rec"
  shows "1 \<le> we_attempts e \<and> we_attempts e \<le> MAX_ATTEMPTS"
proof -
  from assms obtain kvs where "map_js read_entry kvs = Inr rec"
    by (auto simp: readState_def split: option.splits prod.splits bool.splits)
  then have "list_all2 (\<lambda>x y. read_entry x = Inr y) kvs rec" by (simp add: map_js_Inr_iff)
  moreover obtain n where "n < length rec" "rec ! n = (i, e)" using assms(2) by (auto simp: in_set_conv_nth)
  ultimately have "read_entry (kvs ! n) = Inr (i, e)" by (simp add: list_all2_conv_all_nth)
  then have "attempts_of (getp (snd (kvs ! n)) ''attempts'') = Some (we_attempts e)"
    unfolding read_entry_def by (auto split: option.splits if_splits dest: make_entry_attempts)
  then show ?thesis by (rule attempts_of_bounds)
qed

section \<open>The scheduler\<close>

text \<open>
  The variables of \<open>startWelfareSchedule\<close>: \<open>state.accounts\<close>, \<open>inFlight\<close>, \<open>stopped\<close> and the
  queue of snapshots still to be written, each with the job that waits for it and whether it
  is the job's first or second write; \<open>claiming\<close> lists the jobs inside \<open>claimDaily\<close> with their
  date and attempt. The file is \<open>disk\<close>. \<open>days\<close> are the local dates seen so far, latest first, and
  \<open>claims\<close> is the history of the claims sent, across restarts.
\<close>

datatype write_phase = First | Second

record job_write =
  jw_id :: string
  jw_phase :: write_phase
  jw_snapshot :: wrecord

record sched =
  mem :: wrecord
  inFlight :: "string list"
  claiming :: "string list"
  writes :: "job_write list"
  stopped :: bool
  disk :: wrecord
  days :: "string list"
  claims :: "(string \<times> string) list"

definition attempts_on :: "string \<Rightarrow> wrecord \<Rightarrow> string \<Rightarrow> nat" where
  "attempts_on date r i = (case map_of r i of Some e \<Rightarrow> if we_date e = date then we_attempts e else 0 | None \<Rightarrow> 0)"

definition retry_at :: "nat \<Rightarrow> rat \<Rightarrow> rat option" where
  "retry_at attempts now = (if attempts < MAX_ATTEMPTS then Some (now + RETRY_DELAYS ! (attempts - 1)) else None)"

definition persist :: "string \<Rightarrow> write_phase \<Rightarrow> sched \<Rightarrow> sched" where
  "persist i ph s = s\<lparr>writes := writes s @ [\<lparr>jw_id = i, jw_phase = ph, jw_snapshot = mem s\<rparr>]\<rparr>"

text \<open>\<open>runAccount\<close> up to its first await.\<close>

definition runAccount :: "rat \<Rightarrow> string \<Rightarrow> string \<Rightarrow> sched \<Rightarrow> sched" where
  "runAccount now date i s =
     (let n = attempts_on date (mem s) i + 1;
          e = \<lparr>we_date = date, we_status = Pending, we_attempts = n, we_nextRetryAt = retry_at n now\<rparr>
      in persist i First (s\<lparr>inFlight := i # inFlight s, mem := AList.update i e (mem s)\<rparr>))"

text \<open>Whether \<open>launchDueAccounts\<close> starts an account.\<close>

definition due :: "rat \<Rightarrow> string \<Rightarrow> string \<Rightarrow> sched \<Rightarrow> bool" where
  "due now date i s = (i \<notin> set (inFlight s) \<and> (case map_of (mem s) i of
     None \<Rightarrow> True
   | Some e \<Rightarrow> \<not> (we_date e = date \<and> (we_status e = Success \<or> MAX_ATTEMPTS \<le> we_attempts e))
        \<and> \<not> (we_date e = date \<and> (case we_nextRetryAt e of None \<Rightarrow> False | Some t \<Rightarrow> now < t))))"

definition launch :: "rat \<Rightarrow> string \<Rightarrow> string \<Rightarrow> sched \<Rightarrow> sched" where
  "launch now date i s = (if due now date i s then runAccount now date i s else s)"

definition launchDueAccounts :: "rat \<Rightarrow> string \<Rightarrow> string list \<Rightarrow> sched \<Rightarrow> sched" where
  "launchDueAccounts now date ids s = fold (launch now date) ids s"

text \<open>
  \<open>tick\<close>: \<open>minute\<close> is the local minute of the day, \<open>at_minute\<close> the configured one; \<open>ids\<close> are the
  ids of the accounts in the store.
\<close>

definition tick :: "int \<Rightarrow> rat \<Rightarrow> string \<Rightarrow> int \<Rightarrow> string list \<Rightarrow> sched \<Rightarrow> sched" where
  "tick at_minute now date minute ids s =
     (if stopped s \<or> minute < at_minute then s else launchDueAccounts now date ids s)"

definition end_job :: "string \<Rightarrow> sched \<Rightarrow> sched" where
  "end_job i s = s\<lparr>inFlight := removeAll i (inFlight s)\<rparr>"

text \<open>
  The write at the head of the queue ends. After the first write of a job the claim is sent,
  unless the write failed or the scheduler was stopped; after the second one the job ends.
\<close>

definition write_done :: "bool \<Rightarrow> sched \<Rightarrow> sched" where
  "write_done ok s = (case writes s of
     [] \<Rightarrow> s
   | w # ws \<Rightarrow>
       (let s' = s\<lparr>writes := ws, disk := (if ok then jw_snapshot w else disk s)\<rparr>
        in if jw_phase w = Second \<or> \<not> ok \<or> stopped s then end_job (jw_id w) s'
           else s'\<lparr>claiming := jw_id w # claiming s',
                   claims := (jw_id w, case map_of (mem s) (jw_id w) of Some e \<Rightarrow> we_date e | None \<Rightarrow> '''') # claims s'\<rparr>))"

text \<open>\<open>claimDaily\<close> settles: the entry is updated and written again.\<close>

definition claim_done :: "bool \<Rightarrow> rat \<Rightarrow> string \<Rightarrow> sched \<Rightarrow> sched" where
  "claim_done ok now i s = (case map_of (mem s) i of
     None \<Rightarrow> s
   | Some e \<Rightarrow> persist i Second (s\<lparr>claiming := remove1 i (claiming s),
       mem := AList.update i (if ok then e\<lparr>we_status := Success, we_nextRetryAt := None\<rparr>
                else e\<lparr>we_status := Failed, we_nextRetryAt := retry_at (we_attempts e) now\<rparr>) (mem s)\<rparr>))"

definition stop_schedule :: "sched \<Rightarrow> sched" where
  "stop_schedule s = s\<lparr>stopped := True\<rparr>"

text \<open>The process ends at any moment and starts again from the file.\<close>

definition restart :: "sched \<Rightarrow> sched" where
  "restart s = s\<lparr>mem := disk s, inFlight := [], claiming := [], writes := [], stopped := False\<rparr>"

definition init_sched :: "string \<Rightarrow> sched" where
  "init_sched date = \<lparr>mem = [], inFlight = [], claiming = [], writes = [], stopped = False, disk = [], days = [date], claims = []\<rparr>"

text \<open>The local date never returns to an earlier one.\<close>

inductive sched_step :: "int \<Rightarrow> sched \<Rightarrow> sched \<Rightarrow> bool" for at_minute where
  ss_tick: "sched_step at_minute s (tick at_minute now (hd (days s)) minute ids s)"
| ss_day: "date \<notin> set (days s) \<Longrightarrow> sched_step at_minute s (s\<lparr>days := date # days s\<rparr>)"
| ss_write: "sched_step at_minute s (write_done ok s)"
| ss_claim: "i \<in> set (claiming s) \<Longrightarrow> sched_step at_minute s (claim_done ok now i s)"
| ss_stop: "sched_step at_minute s (stop_schedule s)"
| ss_restart: "sched_step at_minute s (restart s)"

subsection \<open>The invariant\<close>

text \<open>
  The records from the file over the queued snapshots to the memory: along them the attempts
  of the current day only grow, and the claims sent never exceed the attempts on file. A job
  whose first write is queued has an attempt more than claims.
\<close>

definition chain :: "sched \<Rightarrow> wrecord list" where
  "chain s = disk s # map jw_snapshot (writes s) @ [mem s]"

definition sent :: "sched \<Rightarrow> string \<Rightarrow> string \<Rightarrow> nat" where
  "sent s i d = count_list (claims s) (i, d)"

definition counts_ok :: "sched \<Rightarrow> bool" where
  "counts_ok s \<longleftrightarrow> (\<forall>i d. sent s i d \<le> MAX_ATTEMPTS \<and> (d \<notin> set (days s) \<longrightarrow> sent s i d = 0))"

definition chain_ok :: "sched \<Rightarrow> bool" where
  "chain_ok s \<longleftrightarrow> (\<forall>i. sorted (map (\<lambda>r. attempts_on (hd (days s)) r i) (chain s))
     \<and> sent s i (hd (days s)) \<le> attempts_on (hd (days s)) (disk s) i)"

definition first_ok :: "sched \<Rightarrow> job_write \<Rightarrow> bool" where
  "first_ok s w \<longleftrightarrow> (\<exists>e. map_of (mem s) (jw_id w) = Some e \<and> attempts_on (we_date e) (jw_snapshot w) (jw_id w) = we_attempts e
     \<and> sent s (jw_id w) (we_date e) < we_attempts e \<and> we_attempts e \<le> MAX_ATTEMPTS)"

definition dates_ok :: "sched \<Rightarrow> bool" where
  "dates_ok s \<longleftrightarrow> days s \<noteq> [] \<and> (\<forall>r \<in> set (chain s). \<forall>i e. map_of r i = Some e \<longrightarrow> we_date e \<in> set (days s))"

definition jobs_ok :: "sched \<Rightarrow> bool" where
  "jobs_ok s \<longleftrightarrow> distinct (map jw_id (writes s) @ claiming s) \<and> set (map jw_id (writes s) @ claiming s) \<subseteq> set (inFlight s)"

definition sched_inv :: "sched \<Rightarrow> bool" where
  "sched_inv s \<longleftrightarrow> counts_ok s \<and> chain_ok s \<and> dates_ok s \<and> jobs_ok s
     \<and> (\<forall>w \<in> set (writes s). jw_phase w = First \<longrightarrow> first_ok s w)"

lemma attempts_on_update:
  "attempts_on d (AList.update i e r) j = (if j = i then (if we_date e = d then we_attempts e else 0) else attempts_on d r j)"
  by (simp add: attempts_on_def)

text \<open>A new record of a job at the end of the chain, one that has at least the attempts of the old.\<close>

lemma chain_persist:
  assumes "chain_ok s" "\<And>j. attempts_on (hd (days s)) (mem s) j \<le> attempts_on (hd (days s)) m j"
  shows "chain_ok (persist i ph (s\<lparr>mem := m, inFlight := fl, claiming := cl\<rparr>))"
proof -
  have "sorted (map (\<lambda>r. attempts_on (hd (days s)) r j) (chain (persist i ph (s\<lparr>mem := m, inFlight := fl, claiming := cl\<rparr>))))" for j
    using assms(1) assms(2) [of j]
    by (fastforce simp: chain_ok_def chain_def persist_def sorted_append intro: order_trans)
  then show ?thesis using assms(1) by (simp add: chain_ok_def persist_def sent_def)
qed

lemma dates_persist:
  assumes "dates_ok s" "we_date e \<in> set (days s)"
  shows "dates_ok (persist i ph (s\<lparr>mem := AList.update i e (mem s), inFlight := fl, claiming := cl\<rparr>))"
  using assms by (auto simp: dates_ok_def chain_def persist_def split: if_splits)

lemma first_ok_other:
  assumes "first_ok s w" "jw_id w \<noteq> i"
  shows "first_ok (persist i ph (s\<lparr>mem := AList.update i e (mem s), inFlight := fl, claiming := cl\<rparr>)) w"
  using assms by (auto simp: first_ok_def persist_def sent_def)

lemma sched_inv_run:
  assumes inv: "sched_inv s" and d: "due now (hd (days s)) i s"
  shows "sched_inv (runAccount now (hd (days s)) i s)"
proof -
  let ?d = "hd (days s)"
  let ?n = "attempts_on ?d (mem s) i + 1"
  let ?e = "\<lparr>we_date = ?d, we_status = Pending, we_attempts = ?n, we_nextRetryAt = retry_at ?n now\<rparr>"
  let ?s = "persist i First (s\<lparr>mem := AList.update i ?e (mem s), inFlight := i # inFlight s, claiming := claiming s\<rparr>)"
  have eq: "runAccount now ?d i s = ?s" by (cases s) (simp add: runAccount_def Let_def)
  have n: "?n \<le> MAX_ATTEMPTS" using d by (auto simp: due_def attempts_on_def MAX_ATTEMPTS_def split: option.splits)
  have day: "?d \<in> set (days s)" using inv by (simp add: sched_inv_def dates_ok_def)
  have new: "i \<notin> set (map jw_id (writes s) @ claiming s)" using inv d by (auto simp: sched_inv_def jobs_ok_def due_def)
  have "sent s i ?d \<le> attempts_on ?d (disk s) i" "attempts_on ?d (disk s) i \<le> attempts_on ?d (mem s) i"
    using inv by (simp_all add: sched_inv_def chain_ok_def chain_def)
  then have "first_ok ?s \<lparr>jw_id = i, jw_phase = First, jw_snapshot = AList.update i ?e (mem s)\<rparr>"
    using n by (simp add: first_ok_def persist_def sent_def attempts_on_update)
  moreover have "first_ok ?s w" if "w \<in> set (writes s)" "jw_phase w = First" for w
    using that inv new by (intro first_ok_other) (auto simp: sched_inv_def)
  ultimately have "\<forall>w \<in> set (writes ?s). jw_phase w = First \<longrightarrow> first_ok ?s w" by (auto simp: persist_def)
  moreover have "counts_ok ?s" using inv by (simp add: sched_inv_def counts_ok_def persist_def sent_def)
  moreover have "chain_ok ?s" using inv by (intro chain_persist) (auto simp: sched_inv_def attempts_on_update)
  moreover have "dates_ok ?s" using inv day by (intro dates_persist) (auto simp: sched_inv_def)
  moreover have "jobs_ok ?s" using inv new by (auto simp: sched_inv_def jobs_ok_def persist_def)
  ultimately show ?thesis unfolding eq by (simp add: sched_inv_def)
qed

lemma run_days: "days (runAccount now d i s) = days s"
  by (simp add: runAccount_def persist_def Let_def)

lemma sched_inv_launch: "sched_inv s \<Longrightarrow> hd (days s) = d \<Longrightarrow> sched_inv (launch now d i s) \<and> days (launch now d i s) = days s"
  using sched_inv_run by (auto simp: launch_def run_days)

lemma sched_inv_tick:
  assumes "sched_inv s"
  shows "sched_inv (tick at_minute now (hd (days s)) minute ids s)"
proof -
  have "sched_inv t \<and> days t = days s \<Longrightarrow> sched_inv (fold (launch now (hd (days s))) ids t)" for t
    by (induction ids arbitrary: t) (auto simp: sched_inv_launch)
  then show ?thesis using assms by (simp add: tick_def launchDueAccounts_def)
qed

lemma sched_inv_day:
  assumes "sched_inv s" "date \<notin> set (days s)"
  shows "sched_inv (s\<lparr>days := date # days s\<rparr>)"
proof -
  have z: "attempts_on date r i = 0" if "r \<in> set (chain s)" for r i
    using assms that by (force simp: sched_inv_def dates_ok_def attempts_on_def split: option.splits)
  have "map (\<lambda>r. attempts_on date r i) (chain s) = map (\<lambda>r. 0) (chain s)" for i using z by simp
  then have "chain_ok (s\<lparr>days := date # days s\<rparr>)"
    using assms z [of "disk s"] by (simp add: chain_ok_def chain_def sent_def sched_inv_def counts_ok_def map_replicate_const)
  then show ?thesis
    using assms by (auto simp: sched_inv_def counts_ok_def dates_ok_def chain_def jobs_ok_def first_ok_def sent_def)
qed

text \<open>The head of the queue is written, or not; no claim is sent.\<close>

lemma sched_inv_pop:
  assumes inv: "sched_inv s" and w: "writes s = w # ws"
  shows "sched_inv (s\<lparr>writes := ws, disk := (if ok then jw_snapshot w else disk s)\<rparr>)"
proof -
  let ?s = "s\<lparr>writes := ws, disk := (if ok then jw_snapshot w else disk s)\<rparr>"
  have c: "sorted (map (\<lambda>r. attempts_on (hd (days s)) r i) (chain s))"
    "sent s i (hd (days s)) \<le> attempts_on (hd (days s)) (disk s) i" for i
    using inv by (simp_all add: sched_inv_def chain_ok_def)
  have "chain_ok ?s"
    unfolding chain_ok_def
  proof (intro allI conjI)
    fix i
    show "sorted (map (\<lambda>r. attempts_on (hd (days ?s)) r i) (chain ?s))"
      using c(1) [of i] w by (simp add: chain_def)
    show "sent ?s i (hd (days ?s)) \<le> attempts_on (hd (days ?s)) (disk ?s) i"
      using c [of i] w by (auto simp: chain_def sent_def intro: order_trans)
  qed
  moreover have "dates_ok ?s" using inv w by (auto simp: sched_inv_def dates_ok_def chain_def)
  ultimately show ?thesis
    using inv w by (auto simp: sched_inv_def counts_ok_def jobs_ok_def first_ok_def sent_def)
qed

lemma sched_inv_end_job:
  assumes "sched_inv s" "i \<notin> set (map jw_id (writes s) @ claiming s)"
  shows "sched_inv (end_job i s)"
  using assms
  by (auto simp: sched_inv_def end_job_def counts_ok_def chain_ok_def chain_def dates_ok_def jobs_ok_def first_ok_def sent_def)

text \<open>The first write of a job has succeeded and its claim is sent.\<close>

lemma sched_inv_claim_sent:
  assumes inv: "sched_inv s" and w: "writes s = w # ws" "jw_phase w = First" and e: "map_of (mem s) (jw_id w) = Some e"
  shows "sched_inv (s\<lparr>writes := ws, disk := jw_snapshot w, claiming := jw_id w # claiming s,
     claims := (jw_id w, we_date e) # claims s\<rparr>)"
proof -
  let ?t = "s\<lparr>writes := ws, disk := jw_snapshot w\<rparr>"
  let ?s = "s\<lparr>writes := ws, disk := jw_snapshot w, claiming := jw_id w # claiming s, claims := (jw_id w, we_date e) # claims s\<rparr>"
  have t: "sched_inv ?t" using sched_inv_pop [OF inv w(1), of True] by simp
  have "first_ok s w" using inv w by (simp add: sched_inv_def)
  then have f: "attempts_on (we_date e) (jw_snapshot w) (jw_id w) = we_attempts e"
    "sent s (jw_id w) (we_date e) < we_attempts e" "we_attempts e \<le> MAX_ATTEMPTS" using e by (auto simp: first_ok_def)
  have day: "we_date e \<in> set (days s)" using inv e by (auto simp: sched_inv_def dates_ok_def chain_def)
  have count: "sent ?s i d = (if i = jw_id w \<and> d = we_date e then Suc (sent s i d) else sent s i d)" for i d
    by (simp add: sent_def)
  have "counts_ok ?s" using t f day unfolding sched_inv_def counts_ok_def count by (auto simp: sent_def)
  moreover have "chain_ok ?s"
    using t f unfolding sched_inv_def chain_ok_def count by (auto simp: chain_def sent_def)
  moreover have "dates_ok ?s" using t by (auto simp: sched_inv_def dates_ok_def chain_def)
  moreover have "jobs_ok ?s" using inv w by (auto simp: sched_inv_def jobs_ok_def)
  moreover have "first_ok ?s v" if "v \<in> set ws" "jw_phase v = First" for v
  proof -
    have "jw_id w \<notin> jw_id ` set ws" using inv w by (simp add: sched_inv_def jobs_ok_def)
    then have "jw_id v \<noteq> jw_id w" using that by (metis image_eqI)
    then show ?thesis using t that by (auto simp: sched_inv_def first_ok_def sent_def)
  qed
  ultimately show ?thesis by (simp add: sched_inv_def)
qed

lemma sched_inv_write:
  assumes "sched_inv s"
  shows "sched_inv (write_done ok s)"
proof (cases "writes s")
  case (Cons w ws)
  have out: "jw_id w \<notin> set (map jw_id ws @ claiming s)" using assms Cons by (auto simp: sched_inv_def jobs_ok_def)
  show ?thesis
  proof (cases "jw_phase w = Second \<or> \<not> ok \<or> stopped s")
    case True
    then show ?thesis
      using sched_inv_end_job [OF sched_inv_pop [OF assms Cons, of ok], of "jw_id w"] out Cons
      by (simp add: write_done_def Let_def)
  next
    case False
    then have first: "jw_phase w = First" by (cases "jw_phase w") auto
    then have "first_ok s w" using assms Cons by (simp add: sched_inv_def)
    then obtain e where e: "map_of (mem s) (jw_id w) = Some e" by (auto simp: first_ok_def)
    show ?thesis
      using sched_inv_claim_sent [OF assms Cons first e] False Cons e by (simp add: write_done_def Let_def)
  qed
qed (simp add: write_done_def assms)

lemma sched_inv_claim:
  assumes inv: "sched_inv s" and i: "i \<in> set (claiming s)"
  shows "sched_inv (claim_done ok now i s)"
proof (cases "map_of (mem s) i")
  case None
  then show ?thesis using inv by (simp add: claim_done_def)
next
  case (Some e)
  let ?e = "if ok then e\<lparr>we_status := Success, we_nextRetryAt := None\<rparr>
    else e\<lparr>we_status := Failed, we_nextRetryAt := retry_at (we_attempts e) now\<rparr>"
  let ?s = "persist i Second (s\<lparr>mem := AList.update i ?e (mem s), inFlight := inFlight s, claiming := remove1 i (claiming s)\<rparr>)"
  have same: "we_date ?e = we_date e" "we_attempts ?e = we_attempts e" by simp_all
  have eq: "claim_done ok now i s = ?s" using Some by (cases s) (simp add: claim_done_def)
  have other: "jw_id w \<noteq> i" if "w \<in> set (writes s)" for w using inv i that by (auto simp: sched_inv_def jobs_ok_def)
  have "chain_ok ?s"
    using inv Some same by (intro chain_persist) (auto simp: sched_inv_def attempts_on_update attempts_on_def)
  moreover have "dates_ok ?s"
    using inv Some same by (intro dates_persist) (auto simp: sched_inv_def dates_ok_def chain_def)
  moreover have "first_ok ?s w" if "w \<in> set (writes s)" "jw_phase w = First" for w
    using that inv other by (intro first_ok_other) (auto simp: sched_inv_def)
  then have "\<forall>w \<in> set (writes ?s). jw_phase w = First \<longrightarrow> first_ok ?s w" by (auto simp: persist_def)
  moreover have "counts_ok ?s" using inv by (simp add: sched_inv_def counts_ok_def persist_def sent_def)
  moreover have "jobs_ok ?s"
    using inv i other set_remove1_subset [of i "claiming s"] by (auto simp: sched_inv_def jobs_ok_def persist_def)
  ultimately show ?thesis unfolding eq by (simp add: sched_inv_def)
qed

lemma sched_inv_restart:
  assumes "sched_inv s"
  shows "sched_inv (restart s)"
  using assms
  by (auto simp: sched_inv_def restart_def counts_ok_def chain_ok_def chain_def dates_ok_def jobs_ok_def sent_def)

lemma sched_inv_stop: "sched_inv s \<Longrightarrow> sched_inv (stop_schedule s)"
  by (auto simp: sched_inv_def stop_schedule_def counts_ok_def chain_ok_def chain_def dates_ok_def jobs_ok_def first_ok_def sent_def)

lemma sched_inv_step: "sched_step at_minute s s' \<Longrightarrow> sched_inv s \<Longrightarrow> sched_inv s'"
  by (induction rule: sched_step.induct)
    (blast intro: sched_inv_tick sched_inv_day sched_inv_write sched_inv_claim sched_inv_stop sched_inv_restart)+

lemma sched_inv_init: "sched_inv (init_sched date)"
  by (simp add: sched_inv_def init_sched_def counts_ok_def chain_ok_def chain_def dates_ok_def jobs_ok_def sent_def)

lemma sched_inv_reachable: "(sched_step at_minute)\<^sup>*\<^sup>* (init_sched date) s \<Longrightarrow> sched_inv s"
  by (induction rule: rtranclp_induct) (blast intro: sched_inv_init sched_inv_step)+

text \<open>
  C2: the service sees at most four claims per account and local day, in every run of the
  scheduler, whatever the order of ticks, writes and answers, and even when the process is
  killed and started again at any moment or a write of the record fails: an attempt is on
  file before its claim is sent. With it, a job never has two writes or a write and a claim
  open at once.
\<close>

theorem at_most_four_claims_a_day:
  assumes "(sched_step at_minute)\<^sup>*\<^sup>* (init_sched date) s"
  shows "count_list (claims s) (i, d) \<le> 4 \<and> distinct (map jw_id (writes s) @ claiming s)
     \<and> count_list (claims s) (i, hd (days s)) \<le> attempts_on (hd (days s)) (disk s) i"
proof -
  have "MAX_ATTEMPTS = 4" by (simp add: MAX_ATTEMPTS_def RETRY_DELAYS_def)
  then show ?thesis
    using sched_inv_reachable [OF assms] by (auto simp: sched_inv_def counts_ok_def chain_ok_def jobs_ok_def sent_def)
qed

definition witness_sched :: sched where
  "witness_sched = restart (write_done True (tick 10 0 ''2026-01-01'' 20 [''a''] (init_sched ''2026-01-01'')))"

theorem at_most_four_claims_a_day_witness:
  "(sched_step 10)\<^sup>*\<^sup>* (init_sched ''2026-01-01'') witness_sched
   \<and> claims witness_sched = [(''a'', ''2026-01-01'')] \<and> count_list (claims witness_sched) (''a'', ''2026-01-01'') \<le> 4
   \<and> attempts_on ''2026-01-01'' (disk witness_sched) ''a'' = 1"
proof -
  let ?s0 = "init_sched ''2026-01-01''"
  let ?s1 = "tick 10 0 ''2026-01-01'' 20 [''a''] ?s0"
  have "sched_step 10 ?s0 (tick 10 0 (hd (days ?s0)) 20 [''a''] ?s0)" by (rule ss_tick)
  then have "sched_step 10 ?s0 ?s1" by (simp add: init_sched_def)
  moreover have "sched_step 10 ?s1 (write_done True ?s1)" by (rule ss_write)
  moreover have "sched_step 10 (write_done True ?s1) witness_sched" unfolding witness_sched_def by (rule ss_restart)
  ultimately have r: "(sched_step 10)\<^sup>*\<^sup>* ?s0 witness_sched" by (blast intro: rtranclp.intros)
  have "claims witness_sched = [(''a'', ''2026-01-01'')]" "attempts_on ''2026-01-01'' (disk witness_sched) ''a'' = 1"
    by (simp_all add: witness_sched_def restart_def write_done_def tick_def launchDueAccounts_def launch_def due_def
        runAccount_def persist_def init_sched_def attempts_on_def Let_def)
  then show ?thesis using r at_most_four_claims_a_day [OF r, of "''a''" "''2026-01-01''"] by blast
qed

end
