(* ===== verification/Tele_Login.thy ===== *)
theory Tele_Login
  imports Tele_Accounts Login_Base
begin

text \<open>
  \<^verbatim>\<open>src/tools/teleagent2api/src/login.mjs\<close>: the verification of a token, the callback that
  carries it, the login sessions with their remote browser page and the interactions that are
  passed on to it. The browser is the environment: a session records whether it has a page.
  \<open>start\<close> is split at its awaits into the part after \<open>cleanup\<close>, which checks and files the
  session in one go, and the arrival of the page or of a failure. Parameters: the service's
  answer, the URL parser, base64url with \<^verbatim>\<open>JSON.parse\<close>, \<^verbatim>\<open>Number\<close> and the clock.
\<close>

section \<open>Tokens\<close>

definition invalid_token :: thrown where
  "invalid_token = Adapter 400 ''invalid_token'' ''TeleAgent login did not return a valid token.''"

definition unverified :: thrown where
  "unverified = Adapter 502 ''teleagent_login_rejected'' ''TeleAgent could not verify the account.''"

definition or_nullish :: "json option \<Rightarrow> json option \<Rightarrow> json option" where
  "or_nullish a b = (if nullish a then b else a)"

definition or_truthy :: "json option \<Rightarrow> json option \<Rightarrow> json option" where
  "or_truthy a b = (if truthy a then a else b)"

definition uid_char :: "char \<Rightarrow> bool" where
  "uid_char c = (is_digit c \<or> c = CHR ''_'' \<or> c = CHR ''-''
     \<or> (65 \<le> (of_char c :: nat) \<and> (of_char c :: nat) \<le> 90) \<or> (97 \<le> (of_char c :: nat) \<and> (of_char c :: nat) \<le> 122))"

definition good_uid :: "string \<Rightarrow> bool" where
  "good_uid u = (1 \<le> length u \<and> length u \<le> 128 \<and> list_all uid_char u)"

record verified =
  vf_uid :: string
  vf_nickname :: string
  vf_expires_at :: rat

text \<open>The expiry a JSON web token claims; anything that is none gives 0.\<close>

definition token_expiry :: "(string \<Rightarrow> json option) \<Rightarrow> (json option \<Rightarrow> rat option) \<Rightarrow> string \<Rightarrow> rat" where
  "token_expiry decode number token =
     (let parts = split_on CHR ''.'' token in
      if length parts < 2 then 0
      else (case decode (parts ! (length parts - 2)) of
              None \<Rightarrow> 0
            | Some payload \<Rightarrow> (case number (getp payload ''exp'') of None \<Rightarrow> 0 | Some q \<Rightarrow> q)))"

text \<open>\<open>resp\<close> is the status of the response and its parsed body.\<close>

definition verifyToken :: "(string \<Rightarrow> json option) \<Rightarrow> (json option \<Rightarrow> rat option) \<Rightarrow> (rat \<Rightarrow> string)
    \<Rightarrow> json option \<Rightarrow> int \<times> json \<Rightarrow> thrown + verified" where
  "verifyToken decode number num token resp = (case str_of token of
     None \<Rightarrow> Inl invalid_token
   | Some t \<Rightarrow>
       if t = [] \<or> 16384 < length t then Inl invalid_token
       else if fst resp < 200 \<or> 299 < fst resp then
         Inl (Adapter 502 ''teleagent_login_rejected'' ''TeleAgent rejected the login token.'')
       else if snd resp = JNull then Inl (type_error ''Cannot read properties of null (reading 'data')'')
       else (let user = getp (snd resp) ''data'';
                 uid = (case or_nullish (ogetp user ''userId'') (ogetp user ''accountId'') of
                          None \<Rightarrow> '''' | Some JNull \<Rightarrow> '''' | Some v \<Rightarrow> js_string num v)
             in if getp (snd resp) ''code'' \<noteq> Some (JNum 200) \<or> \<not> good_uid uid then Inl unverified
                else Inr \<lparr>vf_uid = uid,
                          vf_nickname = js_string num (the (or_truthy (ogetp user ''userName'')
                            (or_truthy (ogetp user ''accountName'') (Some (JStr uid))))),
                          vf_expires_at = token_expiry decode number t\<rparr>))"

record parsed_url =
  u_origin :: string
  u_pathname :: string
  u_params :: "(string \<times> string) list"

definition ORIGIN :: string where "ORIGIN = ''https://agent.teleai.com.cn''"

definition tokenFromCallback :: "(string \<Rightarrow> parsed_url option) \<Rightarrow> string \<Rightarrow> string option" where
  "tokenFromCallback parse_url value = (case parse_url value of
     None \<Rightarrow> None
   | Some u \<Rightarrow>
       if u_origin u \<noteq> ORIGIN \<or> u_pathname u \<noteq> ''/superCowork/sapi/cowork/auth''
          \<or> (case map_of (u_params u) ''code'' of None \<Rightarrow> True | Some c \<Rightarrow> c = '''') then None
       else map_of (u_params u) ''token'')"

section \<open>Sessions\<close>

record session =
  ss_id :: string
  ss_owner :: string
  ss_status :: login_status
  ss_expiresAt :: int
  ss_page :: bool
  ss_completing :: bool
  ss_failure :: "thrown option"
  ss_account :: "(string \<times> string) option"
  ss_apiKey :: "string option"

record logins =
  sessions :: "(string \<times> nat) list"
  heap :: "session list"

definition init_logins :: logins where
  "init_logins = \<lparr>sessions = [], heap = []\<rparr>"

definition upd_session :: "nat \<Rightarrow> (session \<Rightarrow> session) \<Rightarrow> logins \<Rightarrow> logins" where
  "upd_session r f l = l\<lparr>heap := (heap l)[r := f (heap l ! r)]\<rparr>"

definition remove :: "string \<Rightarrow> logins \<Rightarrow> logins" where
  "remove i l = l\<lparr>sessions := AList.delete i (sessions l)\<rparr>"

text \<open>\<open>cleanup\<close>; the clock may advance between two sessions.\<close>

definition cleanup :: "(nat \<Rightarrow> int) \<Rightarrow> logins \<Rightarrow> logins" where
  "cleanup clock l = l\<lparr>sessions := map snd (filter (\<lambda>(n, e). clock n < ss_expiresAt (heap l ! snd e)) (enumerate 0 (sessions l)))\<rparr>"

record login_result =
  session_id :: string
  lr_mode :: string
  lr_status :: string
  expires_at :: int
  lr_account :: "(string \<times> string) option"
  api_key :: "string option"

definition result :: "session \<Rightarrow> login_result" where
  "result s = \<lparr>session_id = ss_id s, lr_mode = ''poll'', lr_status = status_text (ss_status s), expires_at = ss_expiresAt s,
     lr_account = (if ss_status s = Completed then ss_account s else None),
     api_key = (if ss_status s = Completed then ss_apiKey s else None)\<rparr>"

definition pending_of :: "string \<Rightarrow> logins \<Rightarrow> nat option" where
  "pending_of ow l = map_option snd (find (\<lambda>e. ss_owner (heap l ! snd e) = ow \<and> ss_status (heap l ! snd e) = Pending) (sessions l))"

definition login_busy :: thrown where
  "login_busy = Adapter 429 ''login_busy'' ''A TeleAgent login is already pending; finish or cancel it first.''"

definition new_session :: "string \<Rightarrow> string \<Rightarrow> int \<Rightarrow> int \<Rightarrow> session" where
  "new_session i ow ttlMs now = \<lparr>ss_id = i, ss_owner = ow, ss_status = Pending, ss_expiresAt = now + ttlMs, ss_page = False,
     ss_completing = False, ss_failure = None, ss_account = None, ss_apiKey = None\<rparr>"

text \<open>What \<open>start\<close> does after \<open>cleanup\<close>: resume a session, refuse, or file a new one.\<close>

datatype started = Resumed login_result | Busy | Opened nat

definition start :: "nat \<Rightarrow> int \<Rightarrow> string \<Rightarrow> string \<Rightarrow> int \<Rightarrow> logins \<Rightarrow> started \<times> logins" where
  "start maxSessions ttlMs i ow now l =
     (let opened = (length (heap l), l\<lparr>sessions := AList.update i (length (heap l)) (sessions l), heap := heap l @ [new_session i ow ttlMs now]\<rparr>)
      in case pending_of ow l of
           Some r \<Rightarrow> if ss_page (heap l ! r) \<and> ss_failure (heap l ! r) = None then (Resumed (result (heap l ! r)), l) else (Busy, l)
         | None \<Rightarrow> if maxSessions \<le> length (sessions l) then (Busy, l) else (Opened (fst opened), snd opened))"

text \<open>The page arrives; or the browser fails, and the session is removed again.\<close>

definition page_ready :: "nat \<Rightarrow> logins \<Rightarrow> logins" where
  "page_ready r = upd_session r (\<lambda>s. s\<lparr>ss_page := True\<rparr>)"

definition start_failed :: "nat \<Rightarrow> thrown \<Rightarrow> logins \<Rightarrow> thrown \<times> logins" where
  "start_failed r e l =
     ((case e of Adapter _ _ _ \<Rightarrow> e
       | Foreign _ \<Rightarrow> Adapter 502 ''login_browser_unavailable'' ''Unable to open the TeleAgent login page.''),
      remove (ss_id (heap l ! r)) l)"

text \<open>The request listener of the browser context: the first token starts the completion.\<close>

definition on_request :: "(string \<Rightarrow> parsed_url option) \<Rightarrow> string \<Rightarrow> nat \<Rightarrow> logins \<Rightarrow> string option \<times> logins" where
  "on_request parse_url url r l = (case tokenFromCallback parse_url url of
     Some t \<Rightarrow> if t \<noteq> '''' \<and> \<not> ss_completing (heap l ! r) \<and> ss_status (heap l ! r) = Pending
               then (Some t, upd_session r (\<lambda>s. s\<lparr>ss_completing := True\<rparr>) l) else (None, l)
   | None \<Rightarrow> (None, l))"

text \<open>
  \<open>complete\<close> after the token was verified: the account to save, unless the session is gone or
  expired; and after the account was saved. A failure is recorded in the session.
\<close>

definition complete_save :: "nat \<Rightarrow> int \<Rightarrow> logins \<Rightarrow> bool" where
  "complete_save r now l = (map_of (sessions l) (ss_id (heap l ! r)) \<noteq> None \<and> now < ss_expiresAt (heap l ! r))"

definition completion_input :: "verified \<Rightarrow> string \<Rightarrow> string \<Rightarrow> string \<Rightarrow> string \<Rightarrow> json" where
  "completion_input v token ow device install = JObj [(''uid'', JStr (vf_uid v)), (''nickname'', JStr (vf_nickname v)),
     (''expires_at'', JNum (vf_expires_at v)), (''token'', JStr token), (''owner'', JStr ow), (''device_id'', JStr device),
     (''install_id'', JStr install)]"

definition complete_saved :: "nat \<Rightarrow> account \<Rightarrow> logins \<Rightarrow> logins" where
  "complete_saved r a = upd_session r (\<lambda>s. s\<lparr>ss_account := Some (ac_uid a, ac_nickname a), ss_apiKey := Some (ac_api_key a),
     ss_status := Completed, ss_page := False\<rparr>)"

definition complete_failed :: "nat \<Rightarrow> logins \<Rightarrow> logins" where
  "complete_failed r = upd_session r (\<lambda>s. s\<lparr>ss_failure := Some (Adapter 502 ''login_failed''
     ''TeleAgent login could not be saved; restart authorization.'')\<rparr>)"

definition login_not_found :: thrown where
  "login_not_found = Adapter 404 ''login_not_found'' ''Login session not found.''"

definition get :: "string \<Rightarrow> string \<Rightarrow> int \<Rightarrow> logins \<Rightarrow> (thrown + nat) \<times> logins" where
  "get ow i now l = (case map_of (sessions l) i of
     None \<Rightarrow> (Inl login_not_found, l)
   | Some r \<Rightarrow>
       if ss_owner (heap l ! r) \<noteq> ow then (Inl login_not_found, l)
       else if ss_expiresAt (heap l ! r) \<le> now then
         (Inl (Adapter 410 ''login_expired'' ''Login session expired; start a new login.''), remove i l)
       else (case ss_failure (heap l ! r) of Some e \<Rightarrow> (Inl e, l) | None \<Rightarrow> (Inr r, l)))"

definition poll :: "string \<Rightarrow> string \<Rightarrow> int \<Rightarrow> logins \<Rightarrow> (thrown + login_result) \<times> logins" where
  "poll ow i now l = (case get ow i now l of
     (Inl e, l') \<Rightarrow> (Inl e, l') | (Inr r, l') \<Rightarrow> (Inr (result (heap l' ! r)), l'))"

definition cancel :: "string \<Rightarrow> string \<Rightarrow> logins \<Rightarrow> (thrown + unit) \<times> logins" where
  "cancel ow i l = (case map_of (sessions l) i of
     None \<Rightarrow> (Inl login_not_found, l)
   | Some r \<Rightarrow> if ss_owner (heap l ! r) \<noteq> ow then (Inl login_not_found, l) else (Inr (), remove i l))"

definition close_all :: "logins \<Rightarrow> logins" where
  "close_all l = fold remove (map fst (sessions l)) l"

section \<open>Interactions\<close>

datatype interaction = Click rat rat | Wheel rat rat rat rat | InsertText string | Press string

definition invalid_input :: "string \<Rightarrow> thrown" where
  "invalid_input msg = Adapter 400 ''invalid_input'' msg"

definition point_of :: "json \<Rightarrow> (rat \<times> rat) option" where
  "point_of event = (case (num_of (getp event ''x''), num_of (getp event ''y'')) of
     (Some x, Some y) \<Rightarrow> if 0 \<le> x \<and> x \<le> 720 \<and> 0 \<le> y \<and> y \<le> 760 then Some (x, y) else None
   | _ \<Rightarrow> None)"

definition delta_of :: "json option \<Rightarrow> rat option" where
  "delta_of v = (if nullish v then Some 0 else num_of v)"

definition clamp :: "rat \<Rightarrow> rat" where
  "clamp d = max (- 2000) (min 2000 d)"

definition KEYS :: "string list" where
  "KEYS = [''Enter'', ''Tab'', ''Backspace'', ''Escape'', ''ArrowLeft'', ''ArrowRight'', ''ArrowUp'', ''ArrowDown'', ''Delete'', ''Space'']"

definition interaction_of :: "json \<Rightarrow> thrown + interaction" where
  "interaction_of event =
     (let t = getp event ''type'' in
      if t = Some (JStr ''click'') then
        (case point_of event of Some (x, y) \<Rightarrow> Inr (Click x y) | None \<Rightarrow> Inl (invalid_input ''Invalid click position.''))
      else if t = Some (JStr ''wheel'') then
        (case (point_of event, delta_of (getp event ''delta_x''), delta_of (getp event ''delta_y'')) of
           (Some (x, y), Some dx, Some dy) \<Rightarrow> Inr (Wheel x y (clamp dx) (clamp dy))
         | _ \<Rightarrow> Inl (invalid_input ''Invalid scroll event.''))
      else if t = Some (JStr ''text'') then
        (case str_of (getp event ''text'') of
           Some s \<Rightarrow> if 4096 < length s then Inl (invalid_input ''Invalid input text.'') else Inr (InsertText s)
         | None \<Rightarrow> Inl (invalid_input ''Invalid input text.''))
      else if t = Some (JStr ''key'') then
        (case str_of (getp event ''key'') of
           Some k \<Rightarrow> if k \<in> set KEYS then Inr (Press k) else Inl (invalid_input ''Unsupported key.'')
         | None \<Rightarrow> Inl (invalid_input ''Unsupported key.''))
      else Inl (invalid_input ''Unsupported login interaction.''))"

definition login_complete :: thrown where
  "login_complete = Adapter 409 ''login_complete'' ''Login no longer requires interaction.''"

definition needs_page :: "session \<Rightarrow> thrown + unit" where
  "needs_page s = guard_js (ss_status s \<noteq> Pending \<or> \<not> ss_page s) login_complete"

definition view :: "string \<Rightarrow> string \<Rightarrow> int \<Rightarrow> logins \<Rightarrow> (thrown + nat) \<times> logins" where
  "view ow i now l = (case get ow i now l of
     (Inl e, l') \<Rightarrow> (Inl e, l') | (Inr r, l') \<Rightarrow> (bind_js (needs_page (heap l' ! r)) (\<lambda>_. Inr r), l'))"

text \<open>\<open>input\<close>: the session whose page is used, and the interaction passed on to it.\<close>

definition input :: "string \<Rightarrow> string \<Rightarrow> json \<Rightarrow> int \<Rightarrow> logins \<Rightarrow> (thrown + nat \<times> interaction) \<times> logins" where
  "input ow i event now l = (case get ow i now l of
     (Inl e, l') \<Rightarrow> (Inl e, l')
   | (Inr r, l') \<Rightarrow> (bind_js (needs_page (heap l' ! r)) (\<lambda>_. bind_js (interaction_of event) (\<lambda>a. Inr (r, a))), l'))"

interpretation tele_login: owned_sessions sessions "\<lambda>l r. ss_owner (heap l ! r)"
  "\<lambda>l r. ss_expiresAt (heap l ! r)" get login_not_found
  by unfold_locales (auto simp: get_def login_not_found_def remove_def split: option.splits)

text \<open>
  What reaches the remote browser: an interaction is passed on only to the page of a
  session that is pending, has not expired, has not failed and belongs to the caller; a
  click or a scroll is inside the 720 by 760 viewport, a scroll moves at most 2000 units, a
  text has at most 4096 characters and a key is one of the ten allowed ones.
\<close>

theorem interactions_are_confined:
  assumes "fst (input ow i event now l) = Inr (r, a)"
  shows "map_of (sessions l) i = Some r \<and> ss_owner (heap l ! r) = ow \<and> now < ss_expiresAt (heap l ! r)
     \<and> ss_status (heap l ! r) = Pending \<and> ss_page (heap l ! r)
     \<and> (case a of
          Click x y \<Rightarrow> 0 \<le> x \<and> x \<le> 720 \<and> 0 \<le> y \<and> y \<le> 760
        | Wheel x y dx dy \<Rightarrow> 0 \<le> x \<and> x \<le> 720 \<and> 0 \<le> y \<and> y \<le> 760 \<and> \<bar>dx\<bar> \<le> 2000 \<and> \<bar>dy\<bar> \<le> 2000
        | InsertText s \<Rightarrow> length s \<le> 4096
        | Press k \<Rightarrow> k \<in> set KEYS)"
proof -
  from assms obtain q l' where g: "get ow i now l = (Inr q, l')" by (auto simp: input_def split: prod.splits sum.splits)
  note own = tele_login.get_owned [OF g]
  from assms g own have n: "needs_page (heap l ! q) = Inr ()" and a: "interaction_of event = Inr a" and q: "q = r"
    by (auto simp: input_def)
  have point: "point_of event = Some (x, y) \<Longrightarrow> 0 \<le> x \<and> x \<le> 720 \<and> 0 \<le> y \<and> y \<le> 760" for x y
    by (auto simp: point_of_def split: option.splits if_splits)
  have c: "\<bar>clamp d\<bar> \<le> 2000" for d by (auto simp: clamp_def max_def min_def)
  show ?thesis
    using own n a q point c unfolding interaction_of_def Let_def
    by (auto simp: needs_page_def split: if_splits option.splits prod.splits)
qed

definition witness_logins :: logins where
  "witness_logins = page_ready 0 (snd (start 4 1000 ''id'' ''admin'' 0 init_logins))"

definition witness_event :: json where
  "witness_event = JObj [(''type'', JStr ''text''), (''text'', JStr ''hello'')]"

theorem interactions_are_confined_witness:
  "fst (input ''admin'' ''id'' witness_event 5 witness_logins) = Inr (0, InsertText ''hello'')
   \<and> ss_page (heap witness_logins ! 0)"
proof -
  have i: "fst (input ''admin'' ''id'' witness_event 5 witness_logins) = Inr (0, InsertText ''hello'')"
    by (simp add: input_def get_def witness_logins_def page_ready_def upd_session_def start_def pending_of_def init_logins_def
        new_session_def needs_page_def interaction_of_def witness_event_def Let_def)
  from interactions_are_confined [OF i] i show ?thesis by blast
qed

section \<open>Runs\<close>

inductive login_step :: "nat \<Rightarrow> int \<Rightarrow> logins \<Rightarrow> logins \<Rightarrow> bool" for maxSessions ttlMs where
  tl_cleanup: "login_step maxSessions ttlMs l (cleanup clock l)"
| tl_start: "i \<notin> ss_id ` set (heap l) \<Longrightarrow> login_step maxSessions ttlMs l (snd (start maxSessions ttlMs i ow now l))"
| tl_page: "login_step maxSessions ttlMs l (page_ready r l)"
| tl_failed: "login_step maxSessions ttlMs l (snd (start_failed r e l))"
| tl_request: "login_step maxSessions ttlMs l (snd (on_request parse_url url r l))"
| tl_saved: "ss_completing (heap l ! r) \<Longrightarrow> login_step maxSessions ttlMs l (complete_saved r a l)"
| tl_complete_failed: "ss_completing (heap l ! r) \<Longrightarrow> login_step maxSessions ttlMs l (complete_failed r l)"
| tl_get: "login_step maxSessions ttlMs l (snd (get ow i now l))"
| tl_cancel: "login_step maxSessions ttlMs l (snd (cancel ow i l))"
| tl_remove: "login_step maxSessions ttlMs l (remove i l)"

definition pending_entry :: "logins \<Rightarrow> string \<Rightarrow> string \<times> nat \<Rightarrow> bool" where
  "pending_entry l ow e \<longleftrightarrow> e \<in> set (sessions l) \<and> ss_owner (heap l ! snd e) = ow \<and> ss_status (heap l ! snd e) = Pending"

definition login_inv :: "nat \<Rightarrow> logins \<Rightarrow> bool" where
  "login_inv m l \<longleftrightarrow> length (sessions l) \<le> m \<and> (\<forall>e \<in> set (sessions l). snd e < length (heap l))
     \<and> (\<forall>ow e e'. pending_entry l ow e \<longrightarrow> pending_entry l ow e' \<longrightarrow> e = e')"

lemma login_inv_fewer:
  assumes "login_inv m l" "set xs \<subseteq> set (sessions l)" "length xs \<le> length (sessions l)"
  shows "login_inv m (l\<lparr>sessions := xs\<rparr>)"
proof -
  have "pending_entry l ow e" if "pending_entry (l\<lparr>sessions := xs\<rparr>) ow e" for ow e
    using that assms(2) by (auto simp: pending_entry_def)
  moreover have "length xs \<le> m" "\<forall>e \<in> set xs. snd e < length (heap l)" using assms by (auto simp: login_inv_def)
  ultimately show ?thesis using assms(1) unfolding login_inv_def by simp metis
qed

lemma tele_login_inv_remove: "login_inv m l \<Longrightarrow> login_inv m (remove i l)"
  unfolding remove_def by (rule login_inv_fewer) (auto simp: set_delete_subset length_delete_le)

text \<open>A session that is updated keeps its owner and never becomes pending again.\<close>

lemma login_inv_upd:
  assumes "login_inv m l" "\<And>s. ss_owner (f s) = ss_owner s" "\<And>s. ss_status (f s) = Pending \<Longrightarrow> ss_status s = Pending"
  shows "login_inv m (upd_session r f l)"
proof -
  have p: "pending_entry l ow e" if "pending_entry (upd_session r f l) ow e" for ow e
    using that assms(2,3) by (auto simp: pending_entry_def upd_session_def nth_update_if split: if_splits)
  have "sessions (upd_session r f l) = sessions l" "length (heap (upd_session r f l)) = length (heap l)"
    by (simp_all add: upd_session_def)
  then show ?thesis using assms(1) p unfolding login_inv_def by metis
qed

lemma pending_of_None: "pending_of ow l = None \<longleftrightarrow> (\<forall>e. \<not> pending_entry l ow e)"
  by (auto simp: pending_of_def pending_entry_def find_None_iff)

lemma tele_login_inv_start:
  assumes inv: "login_inv m l"
  shows "login_inv m (snd (start m ttlMs i ow now l))"
proof (cases "pending_of ow l = None \<and> length (sessions l) < m")
  case True
  let ?l = "l\<lparr>sessions := AList.update i (length (heap l)) (sessions l), heap := heap l @ [new_session i ow ttlMs now]\<rparr>"
  have eq: "snd (start m ttlMs i ow now l) = ?l" using True by (simp add: start_def)
  have set: "e = (i, length (heap l)) \<or> e \<in> set (sessions l)" if "e \<in> set (sessions ?l)" for e
    using that by (auto dest: set_update_cases)
  have old: "pending_entry l ow' e" if "pending_entry ?l ow' e" "e \<noteq> (i, length (heap l))" for ow' e
    using that set [of e] inv by (auto simp: pending_entry_def login_inv_def nth_append)
  have new: "ow' = ow" if "pending_entry ?l ow' (i, length (heap l))" for ow'
    using that by (simp add: pending_entry_def new_session_def)
  have "\<not> pending_entry l ow e" for e using True pending_of_None by blast
  then have "e = e'" if "pending_entry ?l ow' e" "pending_entry ?l ow' e'" for ow' e e'
    using that old new inv unfolding login_inv_def by metis
  moreover have "length (sessions ?l) \<le> m" using True by (simp add: length_update)
  moreover have "\<forall>e \<in> set (sessions ?l). snd e < length (heap ?l)" using inv set by (fastforce simp: login_inv_def)
  ultimately show ?thesis unfolding eq login_inv_def by blast
next
  case False
  then show ?thesis using inv by (auto simp: start_def Let_def split: option.splits)
qed

lemma login_inv_cleanup: "login_inv m l \<Longrightarrow> login_inv m (cleanup clock l)"
  unfolding cleanup_def
proof (rule login_inv_fewer)
  let ?f = "filter (\<lambda>(n, e). clock n < ss_expiresAt (heap l ! snd e)) (enumerate 0 (sessions l))"
  have "set (map snd ?f) \<subseteq> set (map snd (enumerate 0 (sessions l)))" by (auto simp del: map_snd_enumerate)
  then show "set (map snd ?f) \<subseteq> set (sessions l)" by (simp only: map_snd_enumerate)
  show "length (map snd ?f) \<le> length (sessions l)"
    using length_filter_le [of _ "enumerate 0 (sessions l)"] by simp
qed

lemma tele_login_inv_get: "login_inv m l \<Longrightarrow> login_inv m (snd (get ow i now l))"
  by (auto simp: get_def tele_login_inv_remove split: option.splits)

lemma tele_login_inv_step: "login_step m ttlMs l l' \<Longrightarrow> login_inv m l \<Longrightarrow> login_inv m l'"
proof (induction rule: login_step.induct)
  case (tl_request l parse_url url r)
  then show ?case
    by (auto simp: on_request_def intro!: login_inv_upd split: option.splits)
next
  case (tl_cancel l ow i)
  then show ?case by (auto simp: cancel_def tele_login_inv_remove split: option.splits)
qed (auto simp: login_inv_cleanup tele_login_inv_start tele_login_inv_remove tele_login_inv_get start_failed_def page_ready_def
      complete_saved_def complete_failed_def intro!: login_inv_upd)

text \<open>
  In every reachable state there are at most as many TeleAgent sign-ins as configured (each
  holds a browser context), and every administrator has at most one that is pending, so a
  reload of the page resumes it instead of opening another browser.
\<close>

theorem one_pending_tele_login_per_owner:
  assumes "(login_step maxSessions ttlMs)\<^sup>*\<^sup>* init_logins l"
  shows "length (sessions l) \<le> maxSessions
     \<and> (\<forall>e \<in> set (sessions l). \<forall>e' \<in> set (sessions l). ss_owner (heap l ! snd e) = ss_owner (heap l ! snd e')
          \<and> ss_status (heap l ! snd e) = Pending \<and> ss_status (heap l ! snd e') = Pending \<longrightarrow> e = e')"
proof -
  from assms have "login_inv maxSessions l"
  proof (induction rule: rtranclp_induct)
    case base
    then show ?case by (simp add: login_inv_def init_logins_def pending_entry_def)
  next
    case (step l l')
    then show ?case using tele_login_inv_step by blast
  qed
  then show ?thesis unfolding login_inv_def pending_entry_def by blast
qed

theorem one_pending_tele_login_per_owner_witness:
  "length (sessions witness_logins) = 1 \<and> length (sessions witness_logins) \<le> 4"
proof -
  let ?l = "snd (start 4 1000 ''id'' ''admin'' 0 init_logins)"
  have "login_step 4 1000 init_logins ?l" by (rule tl_start) (simp add: init_logins_def)
  moreover have "login_step 4 1000 ?l witness_logins" unfolding witness_logins_def by (rule tl_page)
  ultimately have "(login_step 4 1000)\<^sup>*\<^sup>* init_logins witness_logins" by (blast intro: rtranclp.intros)
  from one_pending_tele_login_per_owner [OF this] show ?thesis
    by (simp add: witness_logins_def page_ready_def upd_session_def start_def pending_of_def init_logins_def)
qed

end
