(* ===== verification/Tele_Server.thy ===== *)
theory Tele_Server
  imports Tele_Welfare Tele_Login Js_Uri Http_Slots
begin

text \<open>
  \<^verbatim>\<open>src/tools/teleagent2api/src/upstream.mjs\<close>, \<^verbatim>\<open>server.mjs\<close> and \<^verbatim>\<open>index.mjs\<close>: the signature of a
  request to the service, the routing of the adapter, its two limits (in all and per account)
  and the error response. SHA-256 and HMAC are parameters that give hexadecimal text.
\<close>

section \<open>Signing\<close>

definition APP_VERSION :: string where "APP_VERSION = ''2.7.0''"
definition SIGN_VERSION :: string where "SIGN_VERSION = ''superagent-auth-v1''"

definition MODELS :: "string list" where
  "MODELS = [''chat-pro'', ''chat-flagship'', ''chat-flash'', ''chat-lite'', ''chat-nano'']"

definition requiredString :: "json option \<Rightarrow> string \<Rightarrow> thrown + string" where
  "requiredString v field = (case str_of v of
     None \<Rightarrow> Inl (type_error (''Invalid TeleAgent '' @ field))
   | Some s \<Rightarrow> if s = [] \<or> has_break s then Inl (type_error (''Invalid TeleAgent '' @ field)) else Inr s)"

text \<open>\<^verbatim>\<open>toUpperCase\<close>; methods are ASCII.\<close>

definition upper :: "string \<Rightarrow> string" where
  "upper s = map (\<lambda>c. if 97 \<le> (of_char c :: nat) \<and> (of_char c :: nat) \<le> 122 then char_of ((of_char c :: nat) - 32) else c) s"

record crypto =
  sha256_hex :: "bytes \<Rightarrow> string"
  hmac_hex :: "string \<Rightarrow> string \<Rightarrow> string"

definition inner_message :: "string \<Rightarrow> string \<Rightarrow> string \<Rightarrow> string \<Rightarrow> string" where
  "inner_message token installId ts nonce = join_with ''/'' [SIGN_VERSION, token, installId, ts, nonce]"

definition sign_message :: "string \<Rightarrow> string \<Rightarrow> string \<Rightarrow> string \<Rightarrow> string \<Rightarrow> string" where
  "sign_message verb path ts nonce digest =
     join_with ''\<newline>'' [SIGN_VERSION, verb, path, ts, nonce, APP_VERSION, digest]"

record signed =
  sg_message :: string
  sg_headers :: "(string \<times> string) list"

text \<open>
  \<open>signHeaders\<close>; \<open>uuids\<close> are the values of \<^verbatim>\<open>randomUUID\<close>. The signed text is kept beside the headers.
\<close>

definition signHeaders :: "crypto \<Rightarrow> account \<Rightarrow> string \<Rightarrow> string \<Rightarrow> bytes \<Rightarrow> string \<Rightarrow> string \<Rightarrow> (nat \<Rightarrow> string) \<Rightarrow> thrown + signed" where
  "signHeaders C a verb path body ts nonce uuids =
     bind_js (requiredString (Some (JStr (ac_token a))) ''token'') (\<lambda>token.
     bind_js (requiredString (Some (JStr (ac_install_id a))) ''install_id'') (\<lambda>installId.
     bind_js (requiredString (Some (JStr (ac_device_id a))) ''device_id'') (\<lambda>deviceId.
     bind_js (requiredString (Some (JStr path)) ''path'') (\<lambda>requestPath.
     bind_js (requiredString (Some (JStr verb)) ''method'') (\<lambda>v.
     bind_js (requiredString (Some (JStr nonce)) ''nonce'') (\<lambda>requestNonce.
     bind_js (guard_js (ts = [] \<or> \<not> list_all is_digit ts \<or> \<not> starts_with requestPath ''/'')
       (type_error ''Invalid TeleAgent timestamp or path'')) (\<lambda>_.
     let secret = last (split_on CHR ''.'' token) in
     bind_js (guard_js (secret = []) (type_error ''Invalid TeleAgent token'')) (\<lambda>_.
     let inner = hmac_hex C secret (inner_message token installId ts requestNonce);
         message = sign_message (upper v) requestPath ts requestNonce (sha256_hex C body) in
     Inr \<lparr>sg_message = message,
          sg_headers = [(''content-type'', ''application/json''), (''accept'', ''application/json, text/event-stream''),
            (''x-token'', token), (''x-superagent-device-id'', deviceId), (''x-superagent-install-id'', installId),
            (''x-superagent-nonce'', requestNonce), (''x-superagent-timestamp'', ts), (''x-superagent-sign-version'', ''v1''),
            (''x-superagent-signature'', hmac_hex C inner message), (''x-app-version'', APP_VERSION),
            (''x-device-os'', ''linux''), (''x-device-os-version'', ''linux''), (''x-route-target'', ''ops-gateway''),
            (''x-teleai-client-type'', ''desktop''), (''x-teleai-run-unit-type'', ''2''), (''x-request-id'', uuids 0),
            (''x-message-id'', uuids 1), (''x-session-id'', uuids 2), (''x-teleai-query-id'', uuids 3),
            (''x-teleai-upstream-request-id'', uuids 4), (''x-teleai-root-session-id'', uuids 5)]\<rparr>))))))))"

definition CHAT_PATH :: string where
  "CHAT_PATH = ''/superCowork/sapi/api/v1/chat/completions''"

text \<open>\<open>forwardChat\<close> up to the fetch, with the default base URL; and what a failing fetch is turned into.\<close>

definition forward_request :: "(bytes \<Rightarrow> string) \<Rightarrow> (string \<Rightarrow> json option) \<Rightarrow> crypto \<Rightarrow> account \<Rightarrow> bytes \<Rightarrow> string \<Rightarrow> string
    \<Rightarrow> (nat \<Rightarrow> string) \<Rightarrow> thrown + signed" where
  "forward_request decode parse C a body ts nonce uuids = (case parse (decode body) of
     None \<Rightarrow> Inl (type_error ''TeleAgent chat body must be valid JSON'')
   | Some request \<Rightarrow>
       if str_of (getp request ''model'') \<notin> Some ` set MODELS then Inl (type_error ''Unsupported TeleAgent chat model'')
       else signHeaders C a ''POST'' CHAT_PATH body ts nonce uuids)"

definition forward_failure :: "string \<Rightarrow> thrown" where
  "forward_failure nm = named_error nm ''TeleAgent chat upstream request failed''"

subsection \<open>The signed text determines the request\<close>

lemma no_break_newline: "\<not> has_break s \<Longrightarrow> CHR 0x0A \<notin> set s"
  by (force simp: has_break_def list_ex_iff)

lemma requiredString_Inr: "requiredString (Some (JStr s)) f = Inr t \<longleftrightarrow> t = s \<and> s \<noteq> [] \<and> \<not> has_break s"
  by (auto simp: requiredString_def)

lemma upper_newline: "CHR 0x0A \<in> set (upper s) \<Longrightarrow> CHR 0x0A \<in> set s"
proof -
  assume "CHR 0x0A \<in> set (upper s)"
  then obtain c where c: "c \<in> set s" "CHR 0x0A = (if 97 \<le> (of_char c :: nat) \<and> (of_char c :: nat) \<le> 122
      then char_of ((of_char c :: nat) - 32) else c)" unfolding upper_def by auto
  show ?thesis
  proof (cases "97 \<le> (of_char c :: nat) \<and> (of_char c :: nat) \<le> 122")
    case True
    with c(2) have "(of_char (CHR 0x0A) :: nat) = of_char (char_of ((of_char c :: nat) - 32) :: char)" by simp
    moreover have "((of_char c :: nat) - 32) mod 256 = of_char c - 32" using True by (intro mod_less) linarith
    ultimately have "(of_char c :: nat) - 32 = 10" by (simp add: of_char_of take_bit_nat_def)
    with True show ?thesis by linarith
  next
    case False
    with c show ?thesis by auto
  qed
qed

lemma upper_Nil [simp]: "upper s = [] \<longleftrightarrow> s = []"
  by (simp add: upper_def)

lemma sign_message_inj:
  assumes "sign_message v p ts n d = sign_message v' p' ts' n' d'"
    and "\<forall>x \<in> set [v, p, ts, n, d]. CHR 0x0A \<notin> set x \<and> x \<noteq> []" "\<forall>x \<in> set [v', p', ts', n', d']. CHR 0x0A \<notin> set x \<and> x \<noteq> []"
  shows "v = v' \<and> p = p' \<and> ts = ts' \<and> n = n' \<and> d = d'"
proof -
  have c: "CHR 0x0A \<notin> set SIGN_VERSION" "CHR 0x0A \<notin> set APP_VERSION" "SIGN_VERSION \<noteq> []" "APP_VERSION \<noteq> []"
    by (simp_all add: SIGN_VERSION_def APP_VERSION_def)
  have "[SIGN_VERSION, v, p, ts, n, APP_VERSION, d] = [SIGN_VERSION, v', p', ts', n', APP_VERSION, d']"
    by (rule join_with_inj [of "CHR 0x0A"]) (use assms c in \<open>simp_all add: sign_message_def\<close>)
  then show ?thesis by simp
qed

lemma digits_no_newline: "list_all is_digit ts \<Longrightarrow> CHR 0x0A \<notin> set ts"
  by (auto simp: list_all_iff is_digit_def)

lemma hex64_no_newline: "hex64 s \<Longrightarrow> CHR 0x0A \<notin> set s \<and> s \<noteq> []"
  by (auto simp: hex64_def list_all_iff is_hex_lower_def is_digit_def)

lemma signHeaders_Inr:
  assumes "signHeaders C a verb path body ts nonce uuids = Inr g"
  shows "sg_message g = sign_message (upper verb) path ts nonce (sha256_hex C body)"
    "\<not> has_break verb \<and> verb \<noteq> []" "\<not> has_break path \<and> path \<noteq> []" "\<not> has_break nonce \<and> nonce \<noteq> []"
    "list_all is_digit ts \<and> ts \<noteq> []" "map_of (sg_headers g) ''x-token'' = Some (ac_token a)"
proof -
  from assms have *: "requiredString (Some (JStr verb)) ''method'' = Inr verb" "requiredString (Some (JStr path)) ''path'' = Inr path"
    "requiredString (Some (JStr nonce)) ''nonce'' = Inr nonce" "list_all is_digit ts \<and> ts \<noteq> []"
    "sg_message g = sign_message (upper verb) path ts nonce (sha256_hex C body) \<and> map_of (sg_headers g) ''x-token'' = Some (ac_token a)"
    unfolding signHeaders_def bind_js_eq_Inr guard_js_eq_Inr Let_def requiredString_Inr by auto
  then show "sg_message g = sign_message (upper verb) path ts nonce (sha256_hex C body)"
    "\<not> has_break verb \<and> verb \<noteq> []" "\<not> has_break path \<and> path \<noteq> []" "\<not> has_break nonce \<and> nonce \<noteq> []"
    "list_all is_digit ts \<and> ts \<noteq> []" "map_of (sg_headers g) ''x-token'' = Some (ac_token a)"
    unfolding requiredString_Inr by auto
qed

lemma signed_parts:
  assumes "signHeaders C a verb path body ts nonce uuids = Inr g" "\<And>b. hex64 (sha256_hex C b)"
  shows "\<forall>x \<in> set [upper verb, path, ts, nonce, sha256_hex C body]. CHR 0x0A \<notin> set x \<and> x \<noteq> []"
proof -
  note s = signHeaders_Inr [OF assms(1)]
  have "CHR 0x0A \<notin> set (upper verb)" using s(2) upper_newline no_break_newline by blast
  moreover have "upper verb \<noteq> []" using s(2) by simp
  ultimately show ?thesis
    using s(3-5) no_break_newline digits_no_newline hex64_no_newline [OF assms(2)] by simp
qed

text \<open>
  The text that \<open>signHeaders\<close> signs binds the whole request: two requests that are signed
  with the same text have the same method, path, timestamp, nonce and body digest, because
  the parts are joined by newlines and no part may contain one.
\<close>

theorem signature_binds_the_request:
  assumes "signHeaders C a verb path body ts nonce uuids = Inr g" "signHeaders C a' verb' path' body' ts' nonce' uuids' = Inr g'"
    and "sg_message g = sg_message g'" "\<And>b. hex64 (sha256_hex C b)"
  shows "upper verb = upper verb' \<and> path = path' \<and> ts = ts' \<and> nonce = nonce' \<and> sha256_hex C body = sha256_hex C body'"
  using sign_message_inj [OF _ signed_parts [OF assms(1,4)] signed_parts [OF assms(2,4)]]
    signHeaders_Inr(1) [OF assms(1)] signHeaders_Inr(1) [OF assms(2)] assms(3) by simp

definition witness_crypto :: crypto where
  "witness_crypto = \<lparr>sha256_hex = witness_sha, hmac_hex = (\<lambda>k m. k @ m)\<rparr>"

definition witness_account :: account where
  "witness_account = \<lparr>ac_uid = ''u'', ac_nickname = '''', ac_token = ''a.b'', ac_device_id = ''d'', ac_install_id = ''i'',
     ac_expires_at = JNull, ac_owner = ''o'', ac_api_key = ''k''\<rparr>"

theorem signature_binds_the_request_witness:
  "\<exists>g. signHeaders witness_crypto witness_account ''post'' ''/p'' [] ''17'' ''n'' (\<lambda>_. ''x'') = Inr g
     \<and> signHeaders witness_crypto witness_account ''POST'' ''/p'' [1] ''17'' ''n'' (\<lambda>_. ''x'') = Inr g
     \<and> upper ''post'' = upper ''POST''"
proof -
  have h: "hex64 (sha256_hex witness_crypto b)" for b by (simp add: witness_crypto_def witness_sha_hex)
  have "\<not> isl (signHeaders witness_crypto witness_account ''post'' ''/p'' [] ''17'' ''n'' (\<lambda>_. ''x''))" by code_simp
  then obtain g where g: "signHeaders witness_crypto witness_account ''post'' ''/p'' [] ''17'' ''n'' (\<lambda>_. ''x'') = Inr g"
    using not_isl_ex by blast

  have "signHeaders witness_crypto witness_account ''POST'' ''/p'' [1] ''17'' ''n'' (\<lambda>_. ''x'')
      = signHeaders witness_crypto witness_account ''post'' ''/p'' [] ''17'' ''n'' (\<lambda>_. ''x'')"
    by code_simp
  then have g': "signHeaders witness_crypto witness_account ''POST'' ''/p'' [1] ''17'' ''n'' (\<lambda>_. ''x'') = Inr g" using g by simp
  from signature_binds_the_request [OF g g' refl h] g g' show ?thesis by blast
qed

section \<open>The server\<close>

text \<open>\<^verbatim>\<open>request.headers.authorization?.replace(/^Bearer /i, "")\<close>\<close>

definition bearer :: "http_request \<Rightarrow> string option" where
  "bearer q = map_option (\<lambda>s. if lower (take 7 s) = ''bearer '' then drop 7 s else s) (hdr q ''authorization'')"

definition sameKey :: "string option \<Rightarrow> string \<Rightarrow> bool" where
  "sameKey actual expected = (case actual of None \<Rightarrow> False | Some a \<Rightarrow> utf8 a = utf8 expected)"

definition body_too_large :: thrown where
  "body_too_large = Adapter 413 ''body_too_large'' ''Request body is too large.''"

definition readBody :: "(bytes \<Rightarrow> string) \<Rightarrow> (string \<Rightarrow> json option) \<Rightarrow> nat \<Rightarrow> bytes list \<Rightarrow> thrown + bytes \<times> json" where
  "readBody decode parse limit chunks =
     (if limit < sum_list (map length chunks) then Inl body_too_large
      else (let text = decode (concat chunks) in
        case parse (if text = '''' then ''{}'' else text) of
          None \<Rightarrow> Inl (Adapter 400 ''invalid_json'' ''Request body must be JSON.'')
        | Some (JObj kvs) \<Rightarrow> Inr (concat chunks, JObj kvs)
        | Some _ \<Rightarrow> Inl (Adapter 400 ''invalid_json'' ''Request body must be a JSON object.'')))"

record tconfig =
  tc_adapterKey :: string
  tc_maxConcurrent :: nat
  tc_maxBodyBytes :: nat

text \<open>What the head of \<open>handle\<close> decides; login requests carry the owner and the session id.\<close>

datatype tdecision =
    TReply int json
  | TRefuse thrown
  | TStart string
  | TCancel string string
  | TPoll string string
  | TView string string
  | TInput string string
  | TChat account

definition session_action :: "string \<Rightarrow> (string \<times> string) option" where
  "session_action path =
     (let rest = drop (length LOGIN_PATH + 1) path; i = take 64 rest; suffix = drop 64 rest
      in if starts_with path (LOGIN_PATH @ ''/'') \<and> length i = 64 \<and> list_all is_hex_lower i
            \<and> suffix \<in> {'''', ''/poll'', ''/view'', ''/input''}
         then Some (i, drop 1 suffix) else None)"

definition route_login :: "http_request \<Rightarrow> tdecision" where
  "route_login q = (let ow = hdr_text q ''x-login-owner'' in
     if ow = [] \<or> 128 < length ow then TRefuse (Adapter 403 ''invalid_owner'' ''Login owner is required.'')
     else if h_method q = ''POST'' \<and> h_path q = LOGIN_PATH then TStart ow
     else (case session_action (h_path q) of
       None \<Rightarrow> TRefuse (Adapter 404 ''not_found'' ''Login endpoint not found.'')
     | Some (i, action) \<Rightarrow>
         if h_method q = ''DELETE'' \<and> action = '''' then TCancel ow i
         else if h_method q = ''POST'' \<and> action = ''poll'' then TPoll ow i
         else if h_method q = ''GET'' \<and> action = ''view'' then TView ow i
         else if h_method q = ''POST'' \<and> action = ''input'' then TInput ow i
         else TRefuse (Adapter 405 ''method_not_allowed'' ''Unsupported login operation.'')))"

definition models_json :: json where
  "models_json = JObj [(''object'', JStr ''list''), (''data'', JArr (map (\<lambda>m. JObj [(''id'', JStr m), (''object'', JStr ''model''),
     (''created'', JNum 0), (''owned_by'', JStr ''teleagent'')]) MODELS))]"

definition invalid_adapter_key :: thrown where
  "invalid_adapter_key = Adapter 401 ''invalid_adapter_key'' ''Invalid adapter key.''"

definition route :: "tconfig \<Rightarrow> (string \<Rightarrow> account option) \<Rightarrow> http_request \<Rightarrow> tdecision" where
  "route cfg lookup q =
     (if h_method q = ''GET'' \<and> h_path q = ''/livez'' then TReply 200 (JObj [(''status'', JStr ''ok'')])
      else if starts_with (h_path q) ''/internal/login/'' then
        (if \<not> sameKey (bearer q) (tc_adapterKey cfg) then TRefuse invalid_adapter_key else route_login q)
      else if \<not> sameKey (hdr q ''x-sub2api-adapter-key'') (tc_adapterKey cfg) then TRefuse invalid_adapter_key
      else (case Option.bind (bearer q) lookup of
        None \<Rightarrow> TRefuse (Adapter 401 ''invalid_account_key'' ''Sign in to TeleAgent to add an account.'')
      | Some a \<Rightarrow>
          if h_method q = ''GET'' \<and> h_path q = ''/v1/models'' then TReply 200 models_json
          else if h_method q \<noteq> ''POST'' \<or> h_path q \<noteq> ''/v1/chat/completions'' then
            TRefuse (Adapter 404 ''not_found'' ''Endpoint not found.'')
          else TChat a))"

definition bad_chat :: "json \<Rightarrow> bool" where
  "bad_chat value = (str_of (getp value ''model'') \<notin> Some ` set MODELS
     \<or> (case arr_of (getp value ''messages'') of None \<Rightarrow> True | Some ms \<Rightarrow> ms = []))"

definition error_response :: "thrown \<Rightarrow> int \<times> json" where
  "error_response e = (case e of
     Adapter s c m \<Rightarrow> (s, JObj [(''error'', JObj [(''message'', JStr m), (''type'', JStr c), (''code'', JStr c)]), (''message'', JStr m)])
   | Foreign _ \<Rightarrow> (502, JObj [(''error'', JObj [(''message'', JStr ''TeleAgent request failed; retry or sign in again.''),
        (''type'', JStr ''teleagent_unavailable''), (''code'', JStr ''teleagent_unavailable'')]),
        (''message'', JStr ''TeleAgent request failed; retry or sign in again.'')]))"

section \<open>Capacity\<close>

text \<open>
  \<open>active\<close> and \<open>activeAccounts\<close>, with the requests being forwarded as a history variable: each
  has an identifier and the key of its account.
\<close>

record tserver =
  t_active :: int
  t_activeAccounts :: "(string \<times> int) list"
  t_forwarding :: "(nat \<times> string) list"

definition init_tserver :: tserver where
  "init_tserver = \<lparr>t_active = 0, t_activeAccounts = [], t_forwarding = []\<rparr>"

definition account_load :: "string \<Rightarrow> tserver \<Rightarrow> int" where
  "account_load k s = (case map_of (t_activeAccounts s) k of None \<Rightarrow> 0 | Some n \<Rightarrow> n)"

definition full :: "tconfig \<Rightarrow> string \<Rightarrow> tserver \<Rightarrow> bool" where
  "full cfg k s \<longleftrightarrow> int (tc_maxConcurrent cfg) \<le> t_active s \<or> 2 \<le> account_load k s"

definition adapter_busy :: thrown where
  "adapter_busy = Adapter 429 ''adapter_busy'' ''TeleAgent request capacity reached; retry shortly.''"

text \<open>
  A chat request: the first check, then, when the body has arrived, the check of the body, the
  second check and the start of the forwarding. \<open>h\<close> names the request.
\<close>

definition chat_first :: "tconfig \<Rightarrow> account \<Rightarrow> tserver \<Rightarrow> thrown + unit" where
  "chat_first cfg a s = guard_js (full cfg (ac_api_key a) s) adapter_busy"

definition chat_forward :: "(bytes \<Rightarrow> string) \<Rightarrow> (string \<Rightarrow> json option) \<Rightarrow> tconfig \<Rightarrow> nat \<Rightarrow> account \<Rightarrow> bytes list \<Rightarrow> tserver
    \<Rightarrow> (thrown + bytes) \<times> tserver" where
  "chat_forward decode parse cfg h a chunks s =
     (case bind_js (readBody decode parse (tc_maxBodyBytes cfg) chunks) (\<lambda>(body, value).
        bind_js (guard_js (bad_chat value) (Adapter 400 ''invalid_request'' ''Select a TeleAgent model and include messages.'')) (\<lambda>_.
        bind_js (guard_js (full cfg (ac_api_key a) s) adapter_busy) (\<lambda>_. Inr body))) of
      Inl e \<Rightarrow> (Inl e, s)
    | Inr body \<Rightarrow> (Inr body, s\<lparr>t_active := t_active s + 1,
        t_activeAccounts := AList.update (ac_api_key a) (account_load (ac_api_key a) s + 1) (t_activeAccounts s),
        t_forwarding := (h, ac_api_key a) # t_forwarding s\<rparr>))"

definition chat_end :: "nat \<Rightarrow> string \<Rightarrow> tserver \<Rightarrow> tserver" where
  "chat_end h k s = s\<lparr>t_active := t_active s - 1,
     t_activeAccounts := AList.update k (account_load k s - 1) (t_activeAccounts s),
     t_forwarding := remove1 (h, k) (t_forwarding s)\<rparr>"

inductive t_step :: "(bytes \<Rightarrow> string) \<Rightarrow> (string \<Rightarrow> json option) \<Rightarrow> tconfig \<Rightarrow> tserver \<Rightarrow> tserver \<Rightarrow> bool"
  for decode parse cfg where
  ts_forward: "h \<notin> fst ` set (t_forwarding s) \<Longrightarrow> t_step decode parse cfg s (snd (chat_forward decode parse cfg h a chunks s))"
| ts_end: "(h, k) \<in> set (t_forwarding s) \<Longrightarrow> t_step decode parse cfg s (chat_end h k s)"

definition capacity_inv :: "tconfig \<Rightarrow> tserver \<Rightarrow> bool" where
  "capacity_inv cfg s \<longleftrightarrow> t_active s = int (length (t_forwarding s)) \<and> t_active s \<le> int (tc_maxConcurrent cfg)
     \<and> distinct (map fst (t_forwarding s))
     \<and> (\<forall>k. account_load k s = int (count_list (map snd (t_forwarding s)) k) \<and> count_list (map snd (t_forwarding s)) k \<le> 2)"

lemma chat_forward_cases:
  "snd (chat_forward decode parse cfg h a chunks s) = s
   \<or> (\<not> full cfg (ac_api_key a) s
      \<and> snd (chat_forward decode parse cfg h a chunks s) = s\<lparr>t_active := t_active s + 1,
        t_activeAccounts := AList.update (ac_api_key a) (account_load (ac_api_key a) s + 1) (t_activeAccounts s),
        t_forwarding := (h, ac_api_key a) # t_forwarding s\<rparr>)"
  by (auto simp: chat_forward_def bind_js_def guard_js_def split: sum.splits prod.splits)

lemma capacity_start:
  assumes "capacity_inv cfg s" "\<not> full cfg k s" "h \<notin> fst ` set (t_forwarding s)"
  shows "capacity_inv cfg (s\<lparr>t_active := t_active s + 1, t_activeAccounts := AList.update k (account_load k s + 1) (t_activeAccounts s),
     t_forwarding := (h, k) # t_forwarding s\<rparr>)"
proof -
  have load: "account_load j (s\<lparr>t_active := t_active s + 1, t_activeAccounts := AList.update k (account_load k s + 1) (t_activeAccounts s),
     t_forwarding := (h, k) # t_forwarding s\<rparr>) = (if j = k then account_load k s + 1 else account_load j s)" for j
    by (simp add: account_load_def)
  show ?thesis using assms unfolding capacity_inv_def load by (auto simp: full_def)
qed

lemma count_list_map_remove1: "x \<in> set xs \<Longrightarrow> count_list (map f (remove1 x xs)) y = count_list (map f xs) y - (if f x = y then 1 else 0)"
proof (induction xs)
  case (Cons a xs)
  show ?case
  proof (cases "x = a")
    case False
    with Cons.prems have "f x \<in> set (map f xs)" by simp
    then have "0 < count_list (map f xs) (f x)" by (metis count_list_0_iff gr0I)
    then show ?thesis using Cons False by auto
  qed simp
qed simp

lemma capacity_end:
  assumes "capacity_inv cfg s" "(h, k) \<in> set (t_forwarding s)"
  shows "capacity_inv cfg (chat_end h k s)"
proof -
  have load: "account_load j (chat_end h k s) = (if j = k then account_load k s - 1 else account_load j s)" for j
    by (simp add: account_load_def chat_end_def)
  have "k \<in> set (map snd (t_forwarding s))" using assms(2) by force
  then have pos: "0 < count_list (map snd (t_forwarding s)) k" by (metis count_list_0_iff gr0I)
  have c: "account_load j s = int (count_list (map snd (t_forwarding s)) j)" "count_list (map snd (t_forwarding s)) j \<le> 2" for j
    using assms(1) by (simp_all add: capacity_inv_def)
  have counts: "count_list (map snd (t_forwarding (chat_end h k s))) j
      = count_list (map snd (t_forwarding s)) j - (if k = j then 1 else 0)" for j
    using count_list_map_remove1 [OF assms(2), of snd j] by (simp add: chat_end_def)
  have "account_load j (chat_end h k s) = int (count_list (map snd (t_forwarding (chat_end h k s))) j)" for j
    unfolding load counts using c(1) [of j] c(1) [of k] pos by (simp add: of_nat_diff)
  moreover have "count_list (map snd (t_forwarding (chat_end h k s))) j \<le> 2" for j
    unfolding counts using c(2) [of j] by (metis diff_le_self le_trans)
  moreover have "length (t_forwarding s) = Suc (length (remove1 (h, k) (t_forwarding s)))"
    using assms(2) by (simp add: length_remove1) (cases "t_forwarding s"; simp)
  then have "t_active (chat_end h k s) = int (length (t_forwarding (chat_end h k s)))"
    "t_active (chat_end h k s) \<le> int (tc_maxConcurrent cfg)"
    using assms(1) by (simp_all add: chat_end_def capacity_inv_def)
  moreover have "distinct (map fst (t_forwarding (chat_end h k s)))"
    using assms by (simp add: chat_end_def capacity_inv_def distinct_map distinct_remove1 inj_on_def)
  ultimately show ?thesis unfolding capacity_inv_def by blast
qed

lemma capacity_step: "t_step decode parse cfg s s' \<Longrightarrow> capacity_inv cfg s \<Longrightarrow> capacity_inv cfg s'"
proof (induction rule: t_step.induct)
  case (ts_forward h s a chunks)
  then show ?case using chat_forward_cases [of decode parse cfg h a chunks s] capacity_start by auto
next
  case (ts_end h k s)
  then show ?case using capacity_end by blast
qed

lemma capacity_reachable:
  assumes "(t_step decode parse cfg)\<^sup>*\<^sup>* init_tserver s"
  shows "capacity_inv cfg s"
  using assms
proof (induction rule: rtranclp_induct)
  case base
  then show ?case by (simp add: capacity_inv_def init_tserver_def account_load_def)
next
  case (step s s')
  then show ?case using capacity_step by blast
qed

text \<open>
  C3: however chat requests arrive, wait for their bodies, are refused and end, the adapter
  forwards at most the configured number of requests at a time and at most two per account,
  and its two counters are exact: they return to zero when nothing is forwarded.
\<close>

theorem capacity_is_respected:
  assumes "(t_step decode parse cfg)\<^sup>*\<^sup>* init_tserver s"
  shows "length (t_forwarding s) \<le> tc_maxConcurrent cfg \<and> count_list (map snd (t_forwarding s)) k \<le> 2
     \<and> t_active s = int (length (t_forwarding s)) \<and> account_load k s = int (count_list (map snd (t_forwarding s)) k)"
  using capacity_reachable [OF assms] by (auto simp: capacity_inv_def)

definition witness_tconfig :: tconfig where
  "witness_tconfig = \<lparr>tc_adapterKey = '''', tc_maxConcurrent = 4, tc_maxBodyBytes = 10\<rparr>"

definition witness_parse :: "string \<Rightarrow> json option" where
  "witness_parse t = Some (JObj [(''model'', JStr ''chat-pro''), (''messages'', JArr [JNull])])"

definition witness_tserver :: tserver where
  "witness_tserver = snd (chat_forward (\<lambda>_. '''') witness_parse witness_tconfig 7 witness_account [] init_tserver)"

theorem capacity_is_respected_witness:
  "(t_step (\<lambda>_. '''') witness_parse witness_tconfig)\<^sup>*\<^sup>* init_tserver witness_tserver
   \<and> t_forwarding witness_tserver = [(7, ''k'')] \<and> t_active witness_tserver = 1"
proof -
  have "(t_step (\<lambda>_. '''') witness_parse witness_tconfig) init_tserver witness_tserver"
    unfolding witness_tserver_def by (rule ts_forward) (simp add: init_tserver_def)
  then have r: "(t_step (\<lambda>_. '''') witness_parse witness_tconfig)\<^sup>*\<^sup>* init_tserver witness_tserver" by (rule r_into_rtranclp)
  moreover have f: "t_forwarding witness_tserver = [(7, ''k'')]" by code_simp
  ultimately show ?thesis using capacity_is_respected [OF r] by simp
qed

text \<open>
  Nothing but the liveness probe is served without the adapter key, and a chat is
  forwarded only for the account that the caller's own key finds.
\<close>

theorem teleagent_serves_only_the_key_holder:
  assumes "route cfg lookup q = d" "d \<noteq> TRefuse invalid_adapter_key" "\<not> (h_method q = ''GET'' \<and> h_path q = ''/livez'')"
  shows "(bearer q = Some (tc_adapterKey cfg) \<or> hdr q ''x-sub2api-adapter-key'' = Some (tc_adapterKey cfg))
     \<and> (\<forall>a. d = TChat a \<longrightarrow> (\<exists>k. bearer q = Some k \<and> lookup k = Some a))"
proof -
  have key: "sameKey v k \<Longrightarrow> v = Some k" for v k
    using utf8_inj by (auto simp: sameKey_def split: option.splits)
  have "\<exists>k. bearer q = Some k \<and> lookup k = Some a" if "d = TChat a" for a
  proof -
    have "\<forall>d'. route_login q \<noteq> TChat d'" by (auto simp: route_login_def Let_def split: option.splits)
    then have "Option.bind (bearer q) lookup = Some a"
      using assms(1) that unfolding route_def by (auto split: if_splits option.splits)
    then show ?thesis by (auto simp: bind_eq_Some_conv)
  qed
  then show ?thesis
    using assms key unfolding route_def by (auto split: if_splits)
qed

definition witness_tquery :: http_request where
  "witness_tquery = \<lparr>h_method = ''POST'', h_path = ''/v1/chat/completions'',
     h_headers = [(''x-sub2api-adapter-key'', ''''), (''authorization'', ''Bearer k'')], h_chunks = []\<rparr>"

theorem teleagent_serves_only_the_key_holder_witness:
  "route witness_tconfig (\<lambda>k. if k = ''k'' then Some witness_account else None) witness_tquery = TChat witness_account
   \<and> bearer witness_tquery = Some ''k''"
proof -
  let ?f = "\<lambda>k. if k = ''k'' then Some witness_account else None"
  have r: "route witness_tconfig ?f witness_tquery = TChat witness_account" by code_simp
  have "h_method witness_tquery \<noteq> ''GET''" by code_simp
  with teleagent_serves_only_the_key_holder [OF r] show ?thesis using r by (auto split: if_splits)
qed

section \<open>Start-up\<close>

text \<open>\<^verbatim>\<open>index.mjs\<close>: a numeric setting and the settings of the server, with \<open>createServer\<close>'s check of the key.\<close>

definition tele_integer :: "(string \<Rightarrow> rat option) \<Rightarrow> (string \<Rightarrow> string option) \<Rightarrow> string \<Rightarrow> int \<Rightarrow> int \<Rightarrow> int \<Rightarrow> thrown + int" where
  "tele_integer to_number environ name fallback minimum maximum =
     (let value = (case environ name of None \<Rightarrow> Some (of_int fallback) | Some s \<Rightarrow> to_number s)
      in case value of
           Some v \<Rightarrow> if is_safe_integer v \<and> of_int minimum \<le> v \<and> v \<le> of_int maximum then Inr \<lfloor>v\<rfloor>
                     else Inl (plain_error (''Invalid '' @ name @ ''.''))
         | None \<Rightarrow> Inl (plain_error (''Invalid '' @ name @ ''.'')))"

definition tele_settings :: "(string \<Rightarrow> rat option) \<Rightarrow> (string \<Rightarrow> string option) \<Rightarrow> thrown + tconfig" where
  "tele_settings to_number environ =
     bind_js (tele_integer to_number environ ''TELEAGENT_REQUEST_TIMEOUT_MS'' 300000 1000 900000) (\<lambda>_.
     bind_js (tele_integer to_number environ ''TELEAGENT_MAX_CONCURRENT'' 4 1 32) (\<lambda>maxConcurrent.
     bind_js (guard_js (length (env_text environ ''TELEAGENT_ADAPTER_KEY'') < 24)
       (plain_error ''TELEAGENT_ADAPTER_KEY must contain at least 24 characters.'')) (\<lambda>_.
     bind_js (tele_integer to_number environ ''TELEAGENT_PORT'' 7872 1 65535) (\<lambda>_.
       Inr \<lparr>tc_adapterKey = env_text environ ''TELEAGENT_ADAPTER_KEY'', tc_maxConcurrent = nat maxConcurrent,
            tc_maxBodyBytes = 4194304\<rparr>))))"

lemma tele_integer_bounds:
  assumes "tele_integer to_number environ name fallback minimum maximum = Inr v"
  shows "minimum \<le> v \<and> v \<le> maximum"
  using assms
  by (auto simp: tele_integer_def Let_def le_floor_iff floor_le_iff split: option.splits if_splits)

lemma tele_settings_bounds:
  assumes "tele_settings to_number environ = Inr cfg"
  shows "1 \<le> tc_maxConcurrent cfg \<and> tc_maxConcurrent cfg \<le> 32 \<and> 24 \<le> length (tc_adapterKey cfg)"
  using assms unfolding tele_settings_def bind_js_eq_Inr guard_js_eq_Inr
  by (auto dest!: tele_integer_bounds)

end
