(* ===== verification/Front_Storage.thy ===== *)
theory Front_Storage
  imports Js_Json
begin

text \<open>
  The browser storage of the web console (\<^verbatim>\<open>src/frontend/src\<close>): \<open>localStorage\<close> as a map, shared by all
  tabs of the browser, and the helpers of \<^verbatim>\<open>api/auth.ts\<close> and \<^verbatim>\<open>api/tokenRefresh.ts\<close> that read and write
  the session in it. What JavaScript itself
  supplies is the parameter \<open>js_env\<close>.
\<close>

type_synonym storage = "string \<Rightarrow> string option"

definition AUTH_TOKEN_KEY :: string where "AUTH_TOKEN_KEY = ''auth_token''"
definition AUTH_USER_KEY :: string where "AUTH_USER_KEY = ''auth_user''"
definition REFRESH_TOKEN_KEY :: string where "REFRESH_TOKEN_KEY = ''refresh_token''"
definition TOKEN_EXPIRES_AT_KEY :: string where "TOKEN_EXPIRES_AT_KEY = ''token_expires_at''"
definition PENDING_AUTH_SESSION_KEY :: string where "PENDING_AUTH_SESSION_KEY = ''pending_auth_session''"

lemma keys_distinct [simp]:
  "AUTH_TOKEN_KEY \<noteq> AUTH_USER_KEY" "AUTH_TOKEN_KEY \<noteq> REFRESH_TOKEN_KEY" "AUTH_TOKEN_KEY \<noteq> TOKEN_EXPIRES_AT_KEY"
  "AUTH_USER_KEY \<noteq> AUTH_TOKEN_KEY" "AUTH_USER_KEY \<noteq> REFRESH_TOKEN_KEY" "AUTH_USER_KEY \<noteq> TOKEN_EXPIRES_AT_KEY"
  "REFRESH_TOKEN_KEY \<noteq> AUTH_TOKEN_KEY" "REFRESH_TOKEN_KEY \<noteq> AUTH_USER_KEY" "REFRESH_TOKEN_KEY \<noteq> TOKEN_EXPIRES_AT_KEY"
  "TOKEN_EXPIRES_AT_KEY \<noteq> AUTH_TOKEN_KEY" "TOKEN_EXPIRES_AT_KEY \<noteq> AUTH_USER_KEY" "TOKEN_EXPIRES_AT_KEY \<noteq> REFRESH_TOKEN_KEY"
  "PENDING_AUTH_SESSION_KEY \<noteq> AUTH_TOKEN_KEY" "PENDING_AUTH_SESSION_KEY \<noteq> AUTH_USER_KEY"
  "PENDING_AUTH_SESSION_KEY \<noteq> REFRESH_TOKEN_KEY" "PENDING_AUTH_SESSION_KEY \<noteq> TOKEN_EXPIRES_AT_KEY"
  "AUTH_TOKEN_KEY \<noteq> PENDING_AUTH_SESSION_KEY" "AUTH_USER_KEY \<noteq> PENDING_AUTH_SESSION_KEY"
  "REFRESH_TOKEN_KEY \<noteq> PENDING_AUTH_SESSION_KEY" "TOKEN_EXPIRES_AT_KEY \<noteq> PENDING_AUTH_SESSION_KEY"
  by (simp_all add: AUTH_TOKEN_KEY_def AUTH_USER_KEY_def REFRESH_TOKEN_KEY_def TOKEN_EXPIRES_AT_KEY_def PENDING_AUTH_SESSION_KEY_def)

text \<open>\<^verbatim>\<open>Number(localStorage.getItem(key))\<close>: the number of a missing item is 0.\<close>

definition stored_number :: "js_env \<Rightarrow> storage \<Rightarrow> string \<Rightarrow> rat option" where
  "stored_number E ls key = (case ls key of None \<Rightarrow> Some 0 | Some s \<Rightarrow> je_number E s)"

text \<open>An item that is missing or empty: \<open>!item\<close>.\<close>

definition absent :: "string option \<Rightarrow> bool" where
  "absent v = (case v of None \<Rightarrow> True | Some s \<Rightarrow> s = '''')"

text \<open>\<open>getStoredUserID\<close>: the id of the stored user, if it is a positive number.\<close>

definition getStoredUserID :: "js_env \<Rightarrow> storage \<Rightarrow> rat option" where
  "getStoredUserID E ls = (if absent (ls AUTH_USER_KEY) then None
     else case je_parse E (the (ls AUTH_USER_KEY)) of
       None \<Rightarrow> None
     | Some JNull \<Rightarrow> None
     | Some v \<Rightarrow> (case js_Number E (getp v ''id'') of
         Some q \<Rightarrow> if 0 < q then Some q else None
       | None \<Rightarrow> None))"

text \<open>\<open>clearAuthToken\<close>\<close>

definition clearAuthToken :: "storage \<Rightarrow> storage" where
  "clearAuthToken ls = ls(AUTH_TOKEN_KEY := None, REFRESH_TOKEN_KEY := None, AUTH_USER_KEY := None, TOKEN_EXPIRES_AT_KEY := None)"

definition setAuthToken :: "string \<Rightarrow> storage \<Rightarrow> storage" where
  "setAuthToken t ls = ls(AUTH_TOKEN_KEY \<mapsto> t)"

definition setRefreshToken :: "string \<Rightarrow> storage \<Rightarrow> storage" where
  "setRefreshToken t ls = ls(REFRESH_TOKEN_KEY \<mapsto> t)"

definition setTokenExpiresAt :: "js_env \<Rightarrow> int \<Rightarrow> rat \<Rightarrow> storage \<Rightarrow> storage" where
  "setTokenExpiresAt E now expiresIn ls = ls(TOKEN_EXPIRES_AT_KEY \<mapsto> je_num E (of_int now + expiresIn * 1000))"

text \<open>
  An \<open>AuthResponse\<close>: the answer of the server to a sign-in or a registration. \<open>ar_user\<close> is the user
  object with its \<open>run_mode\<close>.
\<close>

record auth_response =
  ar_access_token :: string
  ar_refresh_token :: "string option"
  ar_expires_in :: "rat option"
  ar_user :: json

text \<open>What \<open>login\<close>, \<open>login2FA\<close> and \<open>register\<close> of \<^verbatim>\<open>api/auth.ts\<close> store of it.\<close>

definition store_response :: "js_env \<Rightarrow> int \<Rightarrow> auth_response \<Rightarrow> storage \<Rightarrow> storage" where
  "store_response E now r ls =
     (let ls1 = setAuthToken (ar_access_token r) ls;
          ls2 = (if absent (ar_refresh_token r) then ls1 else setRefreshToken (the (ar_refresh_token r)) ls1);
          ls3 = (case ar_expires_in r of None \<Rightarrow> ls2 | Some x \<Rightarrow> if x = 0 then ls2 else setTokenExpiresAt E now x ls2)
      in ls3(AUTH_USER_KEY \<mapsto> stringify (je_num E) (ar_user r)))"

text \<open>\<open>persistOAuthTokenContext\<close>\<close>

definition persistOAuthTokenContext :: "js_env \<Rightarrow> int \<Rightarrow> string option \<Rightarrow> rat option \<Rightarrow> storage \<Rightarrow> storage" where
  "persistOAuthTokenContext E now refresh_token expires_in ls =
     (let ls1 = (if absent refresh_token then ls else setRefreshToken (the refresh_token) ls)
      in case expires_in of None \<Rightarrow> ls1 | Some x \<Rightarrow> if x = 0 then ls1 else setTokenExpiresAt E now x ls1)"

lemma clearAuthToken_apply:
  "clearAuthToken ls k = (if k \<in> {AUTH_TOKEN_KEY, REFRESH_TOKEN_KEY, AUTH_USER_KEY, TOKEN_EXPIRES_AT_KEY} then None else ls k)"
  by (simp add: clearAuthToken_def)

lemma clearAuthToken_None [simp]:
  "clearAuthToken ls AUTH_TOKEN_KEY = None" "clearAuthToken ls REFRESH_TOKEN_KEY = None"
  "clearAuthToken ls AUTH_USER_KEY = None" "clearAuthToken ls TOKEN_EXPIRES_AT_KEY = None"
  "clearAuthToken ls PENDING_AUTH_SESSION_KEY = ls PENDING_AUTH_SESSION_KEY"
  by (simp_all add: clearAuthToken_apply)

lemma getStoredUserID_cong: "ls AUTH_USER_KEY = ls' AUTH_USER_KEY \<Longrightarrow> getStoredUserID E ls = getStoredUserID E ls'"
  by (simp add: getStoredUserID_def)

lemma absent_simps [simp]: "absent None" "absent (Some '''')" "absent (Some (c # s)) = False"
  by (simp_all add: absent_def)

lemma not_absentE: "\<not> absent v \<Longrightarrow> (\<And>s. v = Some s \<Longrightarrow> s \<noteq> '''' \<Longrightarrow> P) \<Longrightarrow> P"
  by (cases v) (auto simp: absent_def)

end
