(* ===== verification/Front_Refresh.thy ===== *)
theory Front_Refresh
  imports Front_Storage
begin

text \<open>
  \<^verbatim>\<open>src/frontend/src/api/tokenRefresh.ts\<close>: the refresh of the access token with a refresh token that
  the server accepts once. Calls in one document share one refresh; the tabs of a browser
  share \<open>localStorage\<close> and, where the browser has them, a Web Lock. A tab is a number; the server is
  the environment, and \<open>owner\<close> says whose session a token belongs to.
\<close>

definition TOKEN_REFRESH_TIMEOUT_MS :: int where "TOKEN_REFRESH_TIMEOUT_MS = 30000"
definition PEER_REFRESH_WAIT_MS :: int where "PEER_REFRESH_WAIT_MS = 1000"
definition PEER_REFRESH_GRACE_MS :: int where "PEER_REFRESH_GRACE_MS = 1000"
definition PEER_REFRESH_POLL_MS :: int where "PEER_REFRESH_POLL_MS = 25"

section \<open>One refresh\<close>

record token_pair =
  tp_access_token :: string
  tp_refresh_token :: string
  tp_expires_in :: rat
  tp_token_type :: string

record auth_snapshot =
  sn_accessToken :: "string option"
  sn_refreshToken :: string
  sn_expiresAt :: "rat option"
  sn_userID :: "rat option"

definition readAuthSnapshot :: "js_env \<Rightarrow> storage \<Rightarrow> thrown + auth_snapshot" where
  "readAuthSnapshot E ls = (if absent (ls REFRESH_TOKEN_KEY) then Inl (plain_error ''No refresh token available'')
     else Inr \<lparr>sn_accessToken = ls AUTH_TOKEN_KEY, sn_refreshToken = the (ls REFRESH_TOKEN_KEY),
               sn_expiresAt = stored_number E ls TOKEN_EXPIRES_AT_KEY, sn_userID = getStoredUserID E ls\<rparr>)"

text \<open>\<open>now\<close> and \<open>now'\<close> are the two readings of the clock.\<close>

definition readStoredTokenPair :: "js_env \<Rightarrow> int \<Rightarrow> int \<Rightarrow> auth_snapshot \<Rightarrow> storage \<Rightarrow> token_pair option" where
  "readStoredTokenPair E now now' snap ls =
     (if absent (ls AUTH_TOKEN_KEY) \<or> absent (ls REFRESH_TOKEN_KEY) then None
      else case stored_number E ls TOKEN_EXPIRES_AT_KEY of
        None \<Rightarrow> None
      | Some expiresAt \<Rightarrow>
          if expiresAt \<le> of_int now \<or> getStoredUserID E ls \<noteq> sn_userID snap then None
          else Some \<lparr>tp_access_token = the (ls AUTH_TOKEN_KEY), tp_refresh_token = the (ls REFRESH_TOKEN_KEY),
                     tp_expires_in = of_int (max 1 \<lceil>(expiresAt - of_int now') / 1000\<rceil>), tp_token_type = ''Bearer''\<rparr>)"

definition readPeerRefreshResult :: "js_env \<Rightarrow> int \<Rightarrow> int \<Rightarrow> auth_snapshot \<Rightarrow> string option \<Rightarrow> storage \<Rightarrow> token_pair option" where
  "readPeerRefreshResult E now now' snap failed ls = (case readStoredTokenPair E now now' snap ls of
     None \<Rightarrow> None
   | Some p \<Rightarrow>
       if tp_refresh_token p \<noteq> sn_refreshToken snap then Some p
       else if \<not> absent failed \<and> sn_accessToken snap \<noteq> failed \<and> Some (tp_access_token p) = sn_accessToken snap then Some p
       else None)"

definition persistTokenPair :: "js_env \<Rightarrow> int \<Rightarrow> token_pair \<Rightarrow> storage \<Rightarrow> storage" where
  "persistTokenPair E now p ls = ls(AUTH_TOKEN_KEY \<mapsto> tp_access_token p,
     TOKEN_EXPIRES_AT_KEY \<mapsto> je_num E (of_int now + tp_expires_in p * 1000), REFRESH_TOKEN_KEY \<mapsto> tp_refresh_token p)"

text \<open>
  \<open>waitForPeerRefresh\<close>: \<open>stores n\<close> is the storage at the n-th look, and \<open>extra n\<close> by how much the timer
  before the next look, and what else the tab does, exceed the polling interval.
\<close>

function waitForPeerRefresh :: "js_env \<Rightarrow> auth_snapshot \<Rightarrow> string option \<Rightarrow> int \<Rightarrow> (nat \<Rightarrow> storage) \<Rightarrow> (nat \<Rightarrow> nat) \<Rightarrow> int \<Rightarrow> nat
    \<Rightarrow> token_pair option" where
  "waitForPeerRefresh E snap failed deadline stores extra now n =
     (case readPeerRefreshResult E now now snap failed (stores n) of
        Some p \<Rightarrow> Some p
      | None \<Rightarrow> if now < deadline
          then waitForPeerRefresh E snap failed deadline stores extra (now + PEER_REFRESH_POLL_MS + int (extra n)) (n + 1)
          else None)"
  by pat_completeness auto
termination
  by (relation "measure (\<lambda>(E, snap, failed, deadline, stores, extra, now, n). nat (deadline - now))")
    (auto simp: PEER_REFRESH_POLL_MS_def)

declare waitForPeerRefresh.simps [simp del]

text \<open>The body of a successful answer.\<close>

record refresh_payload =
  rp_code :: int
  rp_message :: string
  rp_data :: "token_pair option"

text \<open>How the request ends: with a body, or with an error that has a status or none.\<close>

datatype refresh_reply = Answered refresh_payload | Rejected "int option"

definition session_is :: "js_env \<Rightarrow> auth_snapshot \<Rightarrow> storage \<Rightarrow> bool" where
  "session_is E snap ls \<longleftrightarrow> ls REFRESH_TOKEN_KEY = Some (sn_refreshToken snap) \<and> getStoredUserID E ls = sn_userID snap"

text \<open>
  The \<open>try\<close> of \<open>requestTokenPair\<close> once the request has ended. \<open>None\<close> stands for a throw, which the
  handler below catches.
\<close>

definition request_body :: "js_env \<Rightarrow> int \<Rightarrow> auth_snapshot \<Rightarrow> string option \<Rightarrow> refresh_reply \<Rightarrow> storage \<Rightarrow> token_pair option \<times> storage" where
  "request_body E now snap failed reply ls = (case reply of
     Rejected _ \<Rightarrow> (None, ls)
   | Answered b \<Rightarrow> (case (if rp_code b \<noteq> 0 then None else rp_data b) of
       None \<Rightarrow> (None, ls)
     | Some p \<Rightarrow> if session_is E snap ls then (Some p, persistTokenPair E now p ls)
                 else (readPeerRefreshResult E now now snap failed ls, ls)))"

text \<open>The deadline of the \<open>catch\<close>; \<open>started\<close> is when the request was made.\<close>

definition wait_deadline :: "bool \<Rightarrow> int \<Rightarrow> int \<Rightarrow> refresh_reply \<Rightarrow> int" where
  "wait_deadline may_have_peer started now reply =
     (if may_have_peer \<and> (case reply of Rejected (Some s) \<Rightarrow> 400 \<le> s \<and> s < 500 | _ \<Rightarrow> False)
      then started + TOKEN_REFRESH_TIMEOUT_MS + PEER_REFRESH_GRACE_MS else now + PEER_REFRESH_WAIT_MS)"

definition requestTokenPair :: "js_env \<Rightarrow> auth_snapshot \<Rightarrow> string option \<Rightarrow> bool \<Rightarrow> int \<Rightarrow> int \<Rightarrow> refresh_reply \<Rightarrow> storage
    \<Rightarrow> (nat \<Rightarrow> storage) \<Rightarrow> (nat \<Rightarrow> nat) \<Rightarrow> token_pair option \<times> storage" where
  "requestTokenPair E snap failed may_have_peer started now reply ls stores extra =
     (case request_body E now snap failed reply ls of
        (Some p, ls') \<Rightarrow> (Some p, ls')
      | (None, ls') \<Rightarrow>
          (waitForPeerRefresh E snap failed (wait_deadline may_have_peer started now reply) stores extra now 0, ls'))"

lemma waitForPeerRefresh_local:
  assumes "now + 25 * int k \<ge> deadline" "\<forall>i \<le> n + k. stores i = stores' i"
  shows "waitForPeerRefresh E snap failed deadline stores extra now n = waitForPeerRefresh E snap failed deadline stores' extra now n"
  using assms
proof (induction k arbitrary: now n)
  case 0
  then show ?case by (simp add: waitForPeerRefresh.simps [of E snap failed deadline _ extra now n] split: option.split)
next
  case (Suc k)
  have "waitForPeerRefresh E snap failed deadline stores extra (now + PEER_REFRESH_POLL_MS + int (extra n)) (n + 1)
      = waitForPeerRefresh E snap failed deadline stores' extra (now + PEER_REFRESH_POLL_MS + int (extra n)) (n + 1)"
    by (rule Suc.IH) (use Suc.prems in \<open>auto simp: PEER_REFRESH_POLL_MS_def\<close>)
  then show ?case using Suc.prems(2) by (simp add: waitForPeerRefresh.simps [of E snap failed deadline _ extra now n] split: option.split)
qed

lemma waitForPeerRefresh_Some:
  "waitForPeerRefresh E snap failed deadline stores extra now n = Some p \<Longrightarrow>
     \<exists>i t. readPeerRefreshResult E t t snap failed (stores i) = Some p"
proof (induction E snap failed deadline stores extra now n rule: waitForPeerRefresh.induct)
  case (1 E snap failed deadline stores extra now n)
  then show ?case by (auto simp: waitForPeerRefresh.simps [of E snap failed deadline stores extra now n] split: option.splits if_splits)
qed

section \<open>Tabs\<close>

text \<open>
  A refresh in flight in a tab. With Web Locks (\<open>locks\<close>) it first queues for the lock; once it
  has it, and at once without Web Locks, it looks for the result of another tab and otherwise posts the token.
  After a failure it polls until its deadline.
\<close>

datatype phase = Queued | Posted int | Polling int

record flight =
  fl_snapshot :: auth_snapshot
  fl_failed :: "string option"
  fl_phase :: phase

text \<open>
  \<open>bw_results\<close> is a ghost: what the refreshes ended with, with the snapshots they started from.
\<close>

record browser =
  bw_storage :: storage
  bw_tabs :: "nat \<Rightarrow> flight option"
  bw_lock :: "nat option"
  bw_results :: "(auth_snapshot \<times> token_pair) list"

definition init_browser :: browser where
  "init_browser = \<lparr>bw_storage = (\<lambda>_. None), bw_tabs = (\<lambda>_. None), bw_lock = None, bw_results = []\<rparr>"

text \<open>The end of a refresh: \<open>inFlightRefresh\<close> is cleared and the lock released.\<close>

definition end_flight :: "nat \<Rightarrow> (auth_snapshot \<times> token_pair) list \<Rightarrow> browser \<Rightarrow> browser" where
  "end_flight t res b = b\<lparr>bw_tabs := (bw_tabs b)(t := None), bw_lock := (if bw_lock b = Some t then None else bw_lock b),
     bw_results := bw_results b @ res\<rparr>"

text \<open>The function \<open>refresh\<close> inside \<open>runRefresh\<close>, called when the lock is held or not needed.\<close>

definition run_refresh :: "js_env \<Rightarrow> int \<Rightarrow> nat \<Rightarrow> flight \<Rightarrow> browser \<Rightarrow> browser" where
  "run_refresh E now t f b = (case readPeerRefreshResult E now now (fl_snapshot f) (fl_failed f) (bw_storage b) of
     Some p \<Rightarrow> end_flight t [(fl_snapshot f, p)] b
   | None \<Rightarrow> b\<lparr>bw_tabs := (bw_tabs b)(t \<mapsto> f\<lparr>fl_phase := Posted now\<rparr>)\<rparr>)"

text \<open>\<open>refreshAuthTokens\<close> with \<open>runRefresh\<close> up to its first wait. A refresh in flight is shared.\<close>

definition refreshAuthTokens :: "js_env \<Rightarrow> bool \<Rightarrow> int \<Rightarrow> nat \<Rightarrow> string option \<Rightarrow> browser \<Rightarrow> browser" where
  "refreshAuthTokens E locks now t failed b = (case bw_tabs b t of
     Some _ \<Rightarrow> b
   | None \<Rightarrow> (case readAuthSnapshot E (bw_storage b) of
       Inl _ \<Rightarrow> b
     | Inr snap \<Rightarrow>
         (let f = \<lparr>fl_snapshot = snap, fl_failed = failed, fl_phase = Queued\<rparr>
          in if locks then b\<lparr>bw_tabs := (bw_tabs b)(t \<mapsto> f)\<rparr> else run_refresh E now t f b)))"

definition acquire_lock :: "js_env \<Rightarrow> int \<Rightarrow> nat \<Rightarrow> browser \<Rightarrow> browser" where
  "acquire_lock E now t b = (case (bw_tabs b t, bw_lock b) of
     (Some f, None) \<Rightarrow> if fl_phase f = Queued then run_refresh E now t f (b\<lparr>bw_lock := Some t\<rparr>) else b
   | _ \<Rightarrow> b)"

text \<open>The request of a tab ends.\<close>

definition refresh_replied :: "js_env \<Rightarrow> bool \<Rightarrow> int \<Rightarrow> nat \<Rightarrow> refresh_reply \<Rightarrow> browser \<Rightarrow> browser" where
  "refresh_replied E locks now t reply b = (case bw_tabs b t of
     None \<Rightarrow> b
   | Some f \<Rightarrow> (case fl_phase f of
       Posted started \<Rightarrow>
         (case request_body E now (fl_snapshot f) (fl_failed f) reply (bw_storage b) of
            (Some p, ls) \<Rightarrow> end_flight t [(fl_snapshot f, p)] (b\<lparr>bw_storage := ls\<rparr>)
          | (None, ls) \<Rightarrow> b\<lparr>bw_storage := ls,
              bw_tabs := (bw_tabs b)(t \<mapsto> f\<lparr>fl_phase := Polling (wait_deadline (\<not> locks) started now reply)\<rparr>)\<rparr>)
     | _ \<Rightarrow> b))"

text \<open>One look of \<open>waitForPeerRefresh\<close>.\<close>

definition poll_peer :: "js_env \<Rightarrow> int \<Rightarrow> nat \<Rightarrow> browser \<Rightarrow> browser" where
  "poll_peer E now t b = (case bw_tabs b t of
     None \<Rightarrow> b
   | Some f \<Rightarrow> (case fl_phase f of
       Polling deadline \<Rightarrow>
         (case readPeerRefreshResult E now now (fl_snapshot f) (fl_failed f) (bw_storage b) of
            Some p \<Rightarrow> end_flight t [(fl_snapshot f, p)] b
          | None \<Rightarrow> if now < deadline then b else end_flight t [] b)
     | _ \<Rightarrow> b))"

text \<open>
  The runs of a browser. The answers of the server are about one user: a sign-in answers with
  tokens of the user it names, a refresh with tokens of the user whose token was posted, and
  \<open>/auth/me\<close> with the user of the token it was asked with, which the last rule requires to be the stored one.
\<close>

inductive tab_step :: "js_env \<Rightarrow> bool \<Rightarrow> (string \<Rightarrow> rat) \<Rightarrow> browser \<Rightarrow> browser \<Rightarrow> bool" for E locks owner where
  ts_call: "tab_step E locks owner b (refreshAuthTokens E locks now t failed b)"
| ts_lock: "locks \<Longrightarrow> tab_step E locks owner b (acquire_lock E now t b)"
| ts_reply: "bw_tabs b t = Some f
    \<Longrightarrow> \<forall>body p. reply = Answered body \<longrightarrow> rp_data body = Some p
          \<longrightarrow> owner (tp_access_token p) = owner (sn_refreshToken (fl_snapshot f)) \<and> owner (tp_refresh_token p) = owner (sn_refreshToken (fl_snapshot f))
    \<Longrightarrow> tab_step E locks owner b (refresh_replied E locks now t reply b)"
| ts_poll: "tab_step E locks owner b (poll_peer E now t b)"
| ts_close: "tab_step E locks owner b (end_flight t [] b)"
| ts_sign_in: "ar_refresh_token r = Some rt \<Longrightarrow> rt \<noteq> '''' \<Longrightarrow> owner (ar_access_token r) = u \<Longrightarrow> owner rt = u
    \<Longrightarrow> getStoredUserID E (store_response E now r (bw_storage b)) = Some u
    \<Longrightarrow> tab_step E locks owner b (b\<lparr>bw_storage := store_response E now r (bw_storage b)\<rparr>)"
| ts_sign_out: "tab_step E locks owner b (b\<lparr>bw_storage := clearAuthToken (bw_storage b)\<rparr>)"
| ts_profile: "getStoredUserID E ((bw_storage b)(AUTH_USER_KEY \<mapsto> v)) = getStoredUserID E (bw_storage b)
    \<Longrightarrow> tab_step E locks owner b (b\<lparr>bw_storage := (bw_storage b)(AUTH_USER_KEY \<mapsto> v)\<rparr>)"

section \<open>Sessions are not mixed\<close>

definition storage_ok :: "js_env \<Rightarrow> (string \<Rightarrow> rat) \<Rightarrow> storage \<Rightarrow> bool" where
  "storage_ok E owner ls \<longleftrightarrow> (\<forall>k \<in> {AUTH_TOKEN_KEY, REFRESH_TOKEN_KEY}. \<forall>t. ls k = Some t \<and> t \<noteq> '''' \<longrightarrow> getStoredUserID E ls = Some (owner t))"

definition snapshot_ok :: "(string \<Rightarrow> rat) \<Rightarrow> auth_snapshot \<Rightarrow> bool" where
  "snapshot_ok owner s \<longleftrightarrow> sn_refreshToken s \<noteq> '''' \<and> sn_userID s = Some (owner (sn_refreshToken s))"

definition pair_ok :: "(string \<Rightarrow> rat) \<Rightarrow> auth_snapshot \<Rightarrow> token_pair \<Rightarrow> bool" where
  "pair_ok owner s p \<longleftrightarrow> owner (tp_access_token p) = owner (sn_refreshToken s) \<and> owner (tp_refresh_token p) = owner (sn_refreshToken s)"

definition browser_ok :: "js_env \<Rightarrow> (string \<Rightarrow> rat) \<Rightarrow> browser \<Rightarrow> bool" where
  "browser_ok E owner b \<longleftrightarrow> storage_ok E owner (bw_storage b)
     \<and> (\<forall>t f. bw_tabs b t = Some f \<longrightarrow> snapshot_ok owner (fl_snapshot f))
     \<and> (\<forall>(s, p) \<in> set (bw_results b). snapshot_ok owner s \<and> pair_ok owner s p)"

lemma storage_okD: "storage_ok E owner ls \<Longrightarrow> ls AUTH_TOKEN_KEY = Some t \<Longrightarrow> t \<noteq> '''' \<Longrightarrow> getStoredUserID E ls = Some (owner t)"
  "storage_ok E owner ls \<Longrightarrow> ls REFRESH_TOKEN_KEY = Some t \<Longrightarrow> t \<noteq> '''' \<Longrightarrow> getStoredUserID E ls = Some (owner t)"
  by (auto simp: storage_ok_def)

lemma snapshot_ok_read: "storage_ok E owner ls \<Longrightarrow> readAuthSnapshot E ls = Inr s \<Longrightarrow> snapshot_ok owner s"
  by (auto simp: readAuthSnapshot_def snapshot_ok_def storage_okD elim!: not_absentE split: if_splits)

lemma readStoredTokenPair_Some:
  assumes "readStoredTokenPair E now now' s ls = Some p"
  shows "ls AUTH_TOKEN_KEY = Some (tp_access_token p) \<and> tp_access_token p \<noteq> '''' \<and> ls REFRESH_TOKEN_KEY = Some (tp_refresh_token p)
    \<and> tp_refresh_token p \<noteq> '''' \<and> getStoredUserID E ls = sn_userID s"
  using assms by (auto simp: readStoredTokenPair_def elim!: not_absentE split: if_splits option.splits)

lemma readPeer_stored: "readPeerRefreshResult E now now' s failed ls = Some p \<Longrightarrow> readStoredTokenPair E now now' s ls = Some p"
  by (auto simp: readPeerRefreshResult_def split: option.splits if_splits)

lemma pair_ok_peer:
  assumes "storage_ok E owner ls" "snapshot_ok owner s" "readPeerRefreshResult E now now' s failed ls = Some p"
  shows "pair_ok owner s p"
  using readStoredTokenPair_Some [OF readPeer_stored [OF assms(3)]] assms(1,2)
  by (auto simp: pair_ok_def snapshot_ok_def dest: storage_okD)

lemma storage_ok_persist:
  assumes "storage_ok E owner ls" "snapshot_ok owner s" "session_is E s ls" "pair_ok owner s p"
  shows "storage_ok E owner (persistTokenPair E now p ls)"
proof -
  have "getStoredUserID E (persistTokenPair E now p ls) = getStoredUserID E ls"
    by (rule getStoredUserID_cong) (simp add: persistTokenPair_def)
  moreover have "getStoredUserID E ls = Some (owner (sn_refreshToken s))" using assms(2,3) by (simp add: snapshot_ok_def session_is_def)
  ultimately show ?thesis using assms(4) by (auto simp: storage_ok_def pair_ok_def persistTokenPair_def)
qed

lemma request_body_ok:
  assumes "storage_ok E owner ls" "snapshot_ok owner s" "request_body E now s failed reply ls = (r, ls')"
    and law: "\<And>body p. reply = Answered body \<Longrightarrow> rp_data body = Some p \<Longrightarrow> pair_ok owner s p"
  shows "storage_ok E owner ls' \<and> (\<forall>p. r = Some p \<longrightarrow> pair_ok owner s p)"
proof (cases reply)
  case (Rejected x)
  then show ?thesis using assms by (simp add: request_body_def)
next
  case (Answered body)
  show ?thesis
  proof (cases "if rp_code body \<noteq> 0 then None else rp_data body")
    case None
    then show ?thesis using assms Answered by (simp add: request_body_def)
  next
    case (Some p)
    then have p: "pair_ok owner s p" using law Answered by (simp split: if_splits)
    show ?thesis
    proof (cases "session_is E s ls")
      case True
      have "request_body E now s failed reply ls = (Some p, persistTokenPair E now p ls)"
        unfolding request_body_def Answered refresh_reply.case Some option.case using True by (rule if_P)
      then have "r = Some p" "ls' = persistTokenPair E now p ls" using assms(3) by simp_all
      then show ?thesis using p storage_ok_persist [OF assms(1,2) True p] by blast
    next
      case False
      have "request_body E now s failed reply ls = (readPeerRefreshResult E now now s failed ls, ls)"
        unfolding request_body_def Answered refresh_reply.case Some option.case using False by (rule if_not_P)
      then have "r = readPeerRefreshResult E now now s failed ls" "ls' = ls" using assms(3) by simp_all
      then show ?thesis using assms(1) pair_ok_peer [OF assms(1,2)] by metis
    qed
  qed
qed

lemma browser_ok_end:
  assumes "browser_ok E owner b" "\<forall>(s, p) \<in> set res. snapshot_ok owner s \<and> pair_ok owner s p"
  shows "browser_ok E owner (end_flight t res b)"
  using assms by (auto simp: browser_ok_def end_flight_def)

lemma browser_ok_run:
  assumes "browser_ok E owner b" "snapshot_ok owner (fl_snapshot f)"
  shows "browser_ok E owner (run_refresh E now t f b)"
proof (cases "readPeerRefreshResult E now now (fl_snapshot f) (fl_failed f) (bw_storage b)")
  case None
  then show ?thesis using assms by (auto simp: run_refresh_def browser_ok_def)
next
  case (Some p)
  have "pair_ok owner (fl_snapshot f) p" using assms Some pair_ok_peer by (auto simp: browser_ok_def)
  then show ?thesis using assms Some by (simp add: run_refresh_def browser_ok_end)
qed

lemma browser_ok_reply:
  assumes "browser_ok E owner b" "bw_tabs b t = Some f"
    and law: "\<forall>body p. reply = Answered body \<longrightarrow> rp_data body = Some p
          \<longrightarrow> owner (tp_access_token p) = owner (sn_refreshToken (fl_snapshot f)) \<and> owner (tp_refresh_token p) = owner (sn_refreshToken (fl_snapshot f))"
  shows "browser_ok E owner (refresh_replied E locks now t reply b)"
proof (cases "\<exists>st. fl_phase f = Posted st")
  case False
  then show ?thesis using assms(1,2) by (auto simp: refresh_replied_def split: phase.splits)
next
  case True
  then obtain st where st: "fl_phase f = Posted st" by blast
  obtain r ls' where rb: "request_body E now (fl_snapshot f) (fl_failed f) reply (bw_storage b) = (r, ls')" by fastforce
  have sn: "snapshot_ok owner (fl_snapshot f)" "storage_ok E owner (bw_storage b)" using assms by (auto simp: browser_ok_def)
  have ok: "storage_ok E owner ls' \<and> (\<forall>p. r = Some p \<longrightarrow> pair_ok owner (fl_snapshot f) p)"
    by (rule request_body_ok [OF sn(2,1) rb]) (use law in \<open>auto simp: pair_ok_def\<close>)
  then have b': "browser_ok E owner (b\<lparr>bw_storage := ls'\<rparr>)" using assms(1) by (auto simp: browser_ok_def)
  show ?thesis
  proof (cases r)
    case None
    then show ?thesis using b' sn st rb assms(2) by (auto simp: refresh_replied_def browser_ok_def)
  next
    case (Some p)
    then show ?thesis using b' ok sn st rb assms(2) browser_ok_end by (auto simp: refresh_replied_def)
  qed
qed

lemma storage_ok_sign_in:
  assumes "ar_refresh_token r = Some rt" "rt \<noteq> ''''" "owner (ar_access_token r) = u" "owner rt = u"
    and "getStoredUserID E (store_response E now r ls) = Some u"
  shows "storage_ok E owner (store_response E now r ls)"
proof -
  have "store_response E now r ls AUTH_TOKEN_KEY = Some (ar_access_token r)" "store_response E now r ls REFRESH_TOKEN_KEY = Some rt"
    using assms(1,2) by (auto simp: store_response_def Let_def absent_def setAuthToken_def setRefreshToken_def setTokenExpiresAt_def split: option.split)
  then show ?thesis using assms by (auto simp: storage_ok_def)
qed

lemma browser_ok_call:
  assumes "browser_ok E owner b"
  shows "browser_ok E owner (refreshAuthTokens E locks now t failed b)"
proof (cases "bw_tabs b t = None")
  case False
  then show ?thesis using assms by (auto simp: refreshAuthTokens_def)
next
  case True
  show ?thesis
  proof (cases "readAuthSnapshot E (bw_storage b)")
    case (Inl e)
    then show ?thesis using assms True by (simp add: refreshAuthTokens_def)
  next
    case (Inr snap)
    let ?f = "\<lparr>fl_snapshot = snap, fl_failed = failed, fl_phase = Queued\<rparr>"
    have sn: "snapshot_ok owner snap" using assms Inr snapshot_ok_read by (auto simp: browser_ok_def)
    then have "browser_ok E owner (b\<lparr>bw_tabs := (bw_tabs b)(t \<mapsto> ?f)\<rparr>)" using assms by (auto simp: browser_ok_def)
    moreover have "browser_ok E owner (run_refresh E now t ?f b)" using sn assms by (intro browser_ok_run) simp_all
    ultimately show ?thesis using True Inr by (simp add: refreshAuthTokens_def Let_def)
  qed
qed

lemma browser_ok_lock:
  assumes "browser_ok E owner b"
  shows "browser_ok E owner (acquire_lock E now t b)"
proof (cases "bw_tabs b t")
  case (Some f)
  have "browser_ok E owner (b\<lparr>bw_lock := Some t\<rparr>)" "snapshot_ok owner (fl_snapshot f)"
    using assms Some by (auto simp: browser_ok_def)
  then show ?thesis using assms Some browser_ok_run by (cases "bw_lock b") (simp_all add: acquire_lock_def)
qed (use assms in \<open>simp add: acquire_lock_def\<close>)

lemma browser_ok_poll:
  assumes "browser_ok E owner b"
  shows "browser_ok E owner (poll_peer E now t b)"
proof (cases "bw_tabs b t")
  case (Some f)
  have sn: "snapshot_ok owner (fl_snapshot f)" "storage_ok E owner (bw_storage b)" using assms Some by (auto simp: browser_ok_def)
  have ends: "browser_ok E owner (end_flight t [] b)" by (rule browser_ok_end [OF assms]) simp
  have hit: "browser_ok E owner (end_flight t [(fl_snapshot f, p)] b)"
    if "readPeerRefreshResult E now now (fl_snapshot f) (fl_failed f) (bw_storage b) = Some p" for p
    using pair_ok_peer [OF sn(2,1) that] sn(1) by (intro browser_ok_end [OF assms]) simp
  show ?thesis
  proof (cases "fl_phase f")
    case (Polling d)
    then show ?thesis using Some ends hit assms
      by (cases "readPeerRefreshResult E now now (fl_snapshot f) (fl_failed f) (bw_storage b)") (simp_all add: poll_peer_def)
  qed (use assms Some in \<open>simp_all add: poll_peer_def\<close>)
qed (use assms in \<open>simp add: poll_peer_def\<close>)

lemma browser_ok_step: "tab_step E locks owner b b' \<Longrightarrow> browser_ok E owner b \<Longrightarrow> browser_ok E owner b'"
proof (induction rule: tab_step.induct)
  case (ts_call b now t failed)
  then show ?case by (rule browser_ok_call)
next
  case (ts_lock b now t)
  then show ?case by (simp add: browser_ok_lock)
next
  case (ts_reply b t f reply now)
  then show ?case using browser_ok_reply by blast
next
  case (ts_poll b now t)
  then show ?case by (rule browser_ok_poll)
next
  case (ts_close b t)
  then show ?case by (simp add: browser_ok_end)
next
  case (ts_sign_in r rt u now b)
  then show ?case using storage_ok_sign_in by (auto simp: browser_ok_def)
next
  case (ts_sign_out b)
  then show ?case by (auto simp: browser_ok_def storage_ok_def)
next
  case (ts_profile b v)
  then show ?case by (auto simp: browser_ok_def storage_ok_def)
qed

lemma browser_ok_reachable: "(tab_step E locks owner)\<^sup>*\<^sup>* init_browser b \<Longrightarrow> browser_ok E owner b"
proof (induction rule: rtranclp_induct)
  case base
  then show ?case by (simp add: browser_ok_def init_browser_def storage_ok_def)
next
  case (step b b')
  then show ?case using browser_ok_step by blast
qed


definition witness_js :: js_env where
  "witness_js = \<lparr>je_parse = (\<lambda>_. Some (JObj [(''id'', JNum 7)])), je_num = (\<lambda>_. ''9999''), je_number = (\<lambda>_. Some 9999),
     je_object_number = (\<lambda>_. None)\<rparr>"

definition witness_sign_in :: auth_response where
  "witness_sign_in = \<lparr>ar_access_token = ''a1'', ar_refresh_token = Some ''r1'', ar_expires_in = Some 9, ar_user = JObj [(''id'', JNum 7)]\<rparr>"

definition witness_payload :: refresh_reply where
  "witness_payload = Answered \<lparr>rp_code = 0, rp_message = '''', rp_data = Some \<lparr>tp_access_token = ''a2'', tp_refresh_token = ''r2'',
     tp_expires_in = 9, tp_token_type = ''Bearer''\<rparr>\<rparr>"

definition witness_posted :: browser where
  "witness_posted = acquire_lock witness_js 0 3 (refreshAuthTokens witness_js True 0 3 None
     (init_browser\<lparr>bw_storage := store_response witness_js 0 witness_sign_in (\<lambda>_. None)\<rparr>))"

lemma witness_posted_reachable: "(tab_step witness_js True (\<lambda>_. 7))\<^sup>*\<^sup>* init_browser witness_posted"
proof -
  let ?step = "tab_step witness_js True (\<lambda>_. 7)"
  let ?b1 = "init_browser\<lparr>bw_storage := store_response witness_js 0 witness_sign_in (bw_storage init_browser)\<rparr>"
  have "?step init_browser ?b1"
    by (rule ts_sign_in [where rt = "''r1''" and u = 7]) code_simp+
  moreover have "?step ?b1 (refreshAuthTokens witness_js True 0 3 None ?b1)" by (rule ts_call)
  moreover have "?step (refreshAuthTokens witness_js True 0 3 None ?b1) (acquire_lock witness_js 0 3 (refreshAuthTokens witness_js True 0 3 None ?b1))"
    by (rule ts_lock) simp
  ultimately have "?step\<^sup>*\<^sup>* init_browser (acquire_lock witness_js 0 3 (refreshAuthTokens witness_js True 0 3 None ?b1))"
    by (meson rtranclp.rtrancl_into_rtrancl rtranclp.rtrancl_refl)
  then show ?thesis by (simp add: witness_posted_def init_browser_def)
qed

lemma witness_posted_tab: "map_option fl_phase (bw_tabs witness_posted 3) = Some (Posted 0)" "bw_lock witness_posted = Some 3"
  by code_simp+


section \<open>One refresh at a time\<close>

definition lock_ok :: "browser \<Rightarrow> bool" where
  "lock_ok b \<longleftrightarrow> (\<forall>t f. bw_tabs b t = Some f \<longrightarrow> fl_phase f = Queued \<or> bw_lock b = Some t)"

lemma lock_okD: "lock_ok b \<Longrightarrow> bw_tabs b t = Some f \<Longrightarrow> fl_phase f \<noteq> Queued \<Longrightarrow> bw_lock b = Some t"
  unfolding lock_ok_def by blast

lemma lock_okI: "(\<And>t f. bw_tabs b t = Some f \<Longrightarrow> fl_phase f \<noteq> Queued \<Longrightarrow> bw_lock b = Some t) \<Longrightarrow> lock_ok b"
  unfolding lock_ok_def by blast

lemma lock_ok_end: "lock_ok b \<Longrightarrow> lock_ok (end_flight t res b)"
proof (rule lock_okI)
  fix u f
  assume ok: "lock_ok b" and "bw_tabs (end_flight t res b) u = Some f" "fl_phase f \<noteq> Queued"
  then have "u \<noteq> t" "bw_lock b = Some u" using lock_okD [OF ok, of u f] by (auto simp: end_flight_def split: if_splits)
  then show "bw_lock (end_flight t res b) = Some u" by (simp add: end_flight_def)
qed

lemma lock_ok_run:
  assumes "lock_ok b" "bw_lock b = Some t"
  shows "lock_ok (run_refresh E now t f b)"
proof -
  have "lock_ok (b\<lparr>bw_tabs := (bw_tabs b)(t \<mapsto> g)\<rparr>)" for g
    using assms by (intro lock_okI) (auto dest: lock_okD split: if_splits)
  then show ?thesis using lock_ok_end [OF assms(1)] by (simp add: run_refresh_def split: option.split)
qed

lemma lock_ok_step: "tab_step E True owner b b' \<Longrightarrow> lock_ok b \<Longrightarrow> lock_ok b'"
proof (induction rule: tab_step.induct)
  case (ts_call b now t failed)
  then show ?case by (auto simp: refreshAuthTokens_def lock_ok_def Let_def split: option.split sum.split)
next
  case (ts_lock b now t)
  then show ?case
  proof (cases "bw_lock b")
    case None
    then have "lock_ok (b\<lparr>bw_lock := Some t\<rparr>)" using ts_lock by (auto simp: lock_ok_def)
    then have "lock_ok (run_refresh E now t f (b\<lparr>bw_lock := Some t\<rparr>))" for f by (rule lock_ok_run) simp
    then show ?thesis using ts_lock None by (simp add: acquire_lock_def split: option.split)
  qed (simp add: acquire_lock_def split: option.split)
next
  case (ts_reply b t f reply now)
  have st: "lock_ok (b\<lparr>bw_storage := ls\<rparr>)" for ls using ts_reply by (simp add: lock_ok_def)
  show ?case
  proof (cases "fl_phase f")
    case (Posted started)
    then have "bw_lock b = Some t" using ts_reply lock_okD by fastforce
    then have "lock_ok (b\<lparr>bw_storage := ls, bw_tabs := (bw_tabs b)(t \<mapsto> g)\<rparr>)" for ls g
      using ts_reply by (intro lock_okI) (auto dest: lock_okD split: if_splits)
    then show ?thesis using ts_reply Posted lock_ok_end [OF st] by (auto simp: refresh_replied_def split: prod.split option.split)
  qed (use ts_reply in \<open>simp_all add: refresh_replied_def\<close>)
next
  case (ts_poll b now t)
  then show ?case by (auto simp: poll_peer_def lock_ok_end split: option.split phase.split)
next
  case (ts_close b t)
  then show ?case by (simp add: lock_ok_end)
qed (simp_all add: lock_ok_def)

lemma lock_ok_reachable: "(tab_step E True owner)\<^sup>*\<^sup>* init_browser b \<Longrightarrow> lock_ok b"
proof (induction rule: rtranclp_induct)
  case base
  then show ?case by (simp add: lock_ok_def init_browser_def)
next
  case (step b b')
  then show ?case using lock_ok_step by blast
qed

text \<open>
  C20: in a browser with Web Locks at most one tab is past its queue: one refresh token is
  presented to the server at a time, whatever number of tabs and requests ask for a refresh.
\<close>

theorem one_refresh_at_a_time:
  assumes "(tab_step E True owner)\<^sup>*\<^sup>* init_browser b"
    and "bw_tabs b t = Some f" "fl_phase f \<noteq> Queued" "bw_tabs b t' = Some f'" "fl_phase f' \<noteq> Queued"
  shows "t = t'"
  using lock_okD [OF lock_ok_reachable [OF assms(1)] assms(2,3)] lock_okD [OF lock_ok_reachable [OF assms(1)] assms(4,5)] by simp

theorem one_refresh_at_a_time_witness:
  "\<exists>f. bw_tabs witness_posted 3 = Some f \<and> fl_phase f = Posted 0 \<and> (3::nat) = 3"
proof -
  obtain f where f: "bw_tabs witness_posted 3 = Some f" "fl_phase f = Posted 0" using witness_posted_tab(1) by fastforce
  then have "(3::nat) = 3" by (intro one_refresh_at_a_time [OF witness_posted_reachable f(1) _ f(1)]) simp_all
  with f show ?thesis by blast
qed

end
