(* ===== verification/Front_Auth.thy ===== *)
theory Front_Auth
  imports Front_Refresh
begin

text \<open>
  \<^verbatim>\<open>src/frontend/src/stores/auth.ts\<close>: the sign-in state of one page of the web console, with its timers,
  and what it keeps in \<open>localStorage\<close>. The functions that wait are split at their waits; \<open>c_refreshes\<close>
  and \<open>c_loads\<close> count the calls of \<open>performTokenRefresh\<close> and \<open>refreshUser\<close> whose answer is outstanding. A
  user object is a JSON object.
\<close>

definition AUTO_REFRESH_INTERVAL :: rat where "AUTO_REFRESH_INTERVAL = 60000"
definition TOKEN_REFRESH_BUFFER :: rat where "TOKEN_REFRESH_BUFFER = 120000"

text \<open>\<^verbatim>\<open>parseInt(s, 10)\<close>: the leading decimal digits after blanks and a sign, \<open>None\<close> for NaN.\<close>

definition digits_of :: "string \<Rightarrow> int option" where
  "digits_of s = (let d = takeWhile is_digit s
     in if d = [] then None else Some (foldl (\<lambda>n c. 10 * n + (of_char c - 48)) 0 d))"

definition parse_int :: "string \<Rightarrow> rat option" where
  "parse_int s = (case dropWhile is_ws s of
     [] \<Rightarrow> None
   | c # r \<Rightarrow> map_option of_int (if c = CHR ''-'' then map_option uminus (digits_of r)
              else if c = CHR ''+'' then digits_of r else digits_of (c # r)))"

section \<open>The session of a sign-in that is not complete\<close>

record pending_auth =
  pa_token :: string
  pa_token_field :: string
  pa_provider :: string
  pa_redirect :: "string option"
  pa_adoption_required :: "bool option"
  pa_display_name :: "string option"
  pa_avatar_url :: "string option"

definition normalizePendingAuthTokenField :: "json option \<Rightarrow> string" where
  "normalizePendingAuthTokenField v = (if v = Some (JStr ''pending_oauth_token'') then ''pending_oauth_token'' else ''pending_auth_token'')"

definition bool_of :: "json option \<Rightarrow> bool option" where
  "bool_of v = (case v of Some (JBool b) \<Rightarrow> Some b | _ \<Rightarrow> None)"

definition text_or_empty :: "json option \<Rightarrow> string" where
  "text_or_empty v = (case str_of v of Some s \<Rightarrow> s | None \<Rightarrow> '''')"

definition pending_of :: "json \<Rightarrow> pending_auth option" where
  "pending_of v = (let provider = trim (text_or_empty (getp v ''provider''))
     in if provider = '''' then None
        else Some \<lparr>pa_token = text_or_empty (getp v ''token''), pa_token_field = normalizePendingAuthTokenField (getp v ''token_field''),
          pa_provider = provider, pa_redirect = str_of (getp v ''redirect''), pa_adoption_required = bool_of (getp v ''adoption_required''),
          pa_display_name = str_of (getp v ''suggested_display_name''), pa_avatar_url = str_of (getp v ''suggested_avatar_url'')\<rparr>)"

definition getPersistedPendingAuthSession :: "js_env \<Rightarrow> storage \<Rightarrow> pending_auth option \<times> storage" where
  "getPersistedPendingAuthSession E ls = (if absent (ls PENDING_AUTH_SESSION_KEY) then (None, ls)
     else case je_parse E (the (ls PENDING_AUTH_SESSION_KEY)) of
       None \<Rightarrow> (None, ls(PENDING_AUTH_SESSION_KEY := None))
     | Some v \<Rightarrow> (case pending_of v of
         None \<Rightarrow> (None, ls(PENDING_AUTH_SESSION_KEY := None))
       | Some p \<Rightarrow> (Some p, ls)))"

text \<open>\<^verbatim>\<open>JSON.stringify\<close> leaves out the fields that are undefined.\<close>

definition opt_field :: "string \<Rightarrow> ('a \<Rightarrow> json) \<Rightarrow> 'a option \<Rightarrow> (string \<times> json) list" where
  "opt_field k f v = (case v of None \<Rightarrow> [] | Some x \<Rightarrow> [(k, f x)])"

definition pending_json :: "pending_auth \<Rightarrow> json" where
  "pending_json p = JObj ([(''token'', JStr (pa_token p)), (''token_field'', JStr (pa_token_field p)), (''provider'', JStr (pa_provider p))]
     @ opt_field ''redirect'' JStr (pa_redirect p) @ opt_field ''adoption_required'' JBool (pa_adoption_required p)
     @ opt_field ''suggested_display_name'' JStr (pa_display_name p) @ opt_field ''suggested_avatar_url'' JStr (pa_avatar_url p))"

definition persistPendingAuthSession :: "js_env \<Rightarrow> pending_auth \<Rightarrow> storage \<Rightarrow> storage" where
  "persistPendingAuthSession E p ls = ls(PENDING_AUTH_SESSION_KEY \<mapsto> stringify (je_num E) (pending_json p))"

section \<open>The store\<close>

text \<open>A number that may be NaN is \<open>rat option\<close>; \<open>c_expiresAt\<close> is that or null.\<close>

record console =
  c_ls :: storage
  c_user :: "json option"
  c_token :: "string option"
  c_refreshToken :: "string option"
  c_expiresAt :: "rat option option"
  c_runMode :: string
  c_pending :: "pending_auth option"
  c_interval :: "nat option"
  c_timeout :: "nat option"
  c_live_intervals :: "nat list"
  c_live_timeouts :: "(nat \<times> rat) list"
  c_next_timer :: nat
  c_refreshes :: nat
  c_loads :: nat

text \<open>A page that has just been opened, on the storage of the browser.\<close>

definition open_page :: "storage \<Rightarrow> console" where
  "open_page ls = \<lparr>c_ls = ls, c_user = None, c_token = None, c_refreshToken = None, c_expiresAt = None, c_runMode = ''standard'',
     c_pending = None, c_interval = None, c_timeout = None, c_live_intervals = [], c_live_timeouts = [], c_next_timer = 1,
     c_refreshes = 0, c_loads = 0\<rparr>"

definition isAuthenticated :: "console \<Rightarrow> bool" where
  "isAuthenticated c \<longleftrightarrow> \<not> absent (c_token c) \<and> (case c_user c of None \<Rightarrow> False | Some u \<Rightarrow> truthy (Some u))"

definition isAdmin :: "console \<Rightarrow> bool" where
  "isAdmin c \<longleftrightarrow> (case c_user c of None \<Rightarrow> False | Some u \<Rightarrow> getp u ''role'' = Some (JStr ''admin''))"

definition stopAutoRefresh :: "console \<Rightarrow> console" where
  "stopAutoRefresh c = (case c_interval c of None \<Rightarrow> c
     | Some i \<Rightarrow> c\<lparr>c_live_intervals := removeAll i (c_live_intervals c), c_interval := None\<rparr>)"

definition startAutoRefresh :: "console \<Rightarrow> console" where
  "startAutoRefresh c = (let c1 = stopAutoRefresh c; i = c_next_timer c1
     in c1\<lparr>c_interval := Some i, c_live_intervals := c_live_intervals c1 @ [i], c_next_timer := i + 1\<rparr>)"

definition stopTokenRefresh :: "console \<Rightarrow> console" where
  "stopTokenRefresh c = (case c_timeout c of None \<Rightarrow> c
     | Some i \<Rightarrow> c\<lparr>c_live_timeouts := filter (\<lambda>(j, _). j \<noteq> i) (c_live_timeouts c), c_timeout := None\<rparr>)"

text \<open>\<open>performTokenRefresh\<close> up to its wait\<close>

definition performTokenRefresh :: "console \<Rightarrow> console" where
  "performTokenRefresh c = (if absent (c_refreshToken c) then c else c\<lparr>c_refreshes := c_refreshes c + 1\<rparr>)"

text \<open>A delay that is NaN is 0 for \<open>setTimeout\<close>, and not \<open>\<le> 0\<close> for the comparison.\<close>

definition scheduleTokenRefreshAt :: "rat \<Rightarrow> rat option \<Rightarrow> console \<Rightarrow> console" where
  "scheduleTokenRefreshAt now expiresAt c =
     (let c1 = stopTokenRefresh c;
          delay = map_option (\<lambda>t. max 0 (t - now - TOKEN_REFRESH_BUFFER)) expiresAt;
          i = c_next_timer c1
      in if (case delay of None \<Rightarrow> False | Some d \<Rightarrow> d \<le> 0) then performTokenRefresh c1
         else c1\<lparr>c_timeout := Some i, c_live_timeouts := c_live_timeouts c1 @ [(i, case delay of None \<Rightarrow> 0 | Some d \<Rightarrow> d)], c_next_timer := i + 1\<rparr>)"

definition scheduleTokenRefresh :: "js_env \<Rightarrow> rat \<Rightarrow> rat \<Rightarrow> console \<Rightarrow> console" where
  "scheduleTokenRefresh E now expiresIn c =
     (let expiresAt = now + expiresIn * 1000
      in scheduleTokenRefreshAt now (Some expiresAt)
           (c\<lparr>c_expiresAt := Some (Some expiresAt), c_ls := (c_ls c)(TOKEN_EXPIRES_AT_KEY \<mapsto> je_num E expiresAt)\<rparr>))"

text \<open>\<open>performTokenRefresh\<close> after its wait: the tokens, or an error.\<close>

definition tokenRefreshed :: "js_env \<Rightarrow> rat \<Rightarrow> token_pair option \<Rightarrow> console \<Rightarrow> console" where
  "tokenRefreshed E now r c =
     (let c1 = c\<lparr>c_refreshes := c_refreshes c - 1\<rparr>
      in case r of
           None \<Rightarrow> c1
         | Some p \<Rightarrow> scheduleTokenRefresh E now (tp_expires_in p)
                       (c1\<lparr>c_token := Some (tp_access_token p), c_refreshToken := Some (tp_refresh_token p)\<rparr>))"

definition setPendingAuthSession :: "js_env \<Rightarrow> pending_auth option \<Rightarrow> console \<Rightarrow> console" where
  "setPendingAuthSession E session c = c\<lparr>c_pending := session,
     c_ls := (case session of Some p \<Rightarrow> persistPendingAuthSession E p (c_ls c) | None \<Rightarrow> (c_ls c)(PENDING_AUTH_SESSION_KEY := None))\<rparr>"

definition clearAuth :: "js_env \<Rightarrow> bool \<Rightarrow> console \<Rightarrow> console" where
  "clearAuth E preserve c =
     (let c1 = (stopTokenRefresh (stopAutoRefresh c))\<lparr>c_token := None, c_refreshToken := None, c_expiresAt := None, c_user := None\<rparr>;
          c2 = c1\<lparr>c_ls := clearAuthToken (c_ls c1)\<rparr>
      in if preserve then (case getPersistedPendingAuthSession E (c_ls c2) of (p, ls) \<Rightarrow> c2\<lparr>c_pending := p, c_ls := ls\<rparr>)
         else c2\<lparr>c_pending := None, c_ls := (c_ls c2)(PENDING_AUTH_SESSION_KEY := None)\<rparr>)"

text \<open>\<^verbatim>\<open>const { run_mode, ...userData } = user\<close>\<close>

definition without_run_mode :: "json \<Rightarrow> json" where
  "without_run_mode u = (case u of JObj kvs \<Rightarrow> JObj (filter (\<lambda>(k, _). k \<noteq> ''run_mode'') kvs) | _ \<Rightarrow> JObj [])"

definition run_mode_or :: "string \<Rightarrow> json \<Rightarrow> string" where
  "run_mode_or m u = (case str_of (getp u ''run_mode'') of Some s \<Rightarrow> if s = '''' then m else s | None \<Rightarrow> m)"

definition setAuthFromResponse :: "js_env \<Rightarrow> rat \<Rightarrow> auth_response \<Rightarrow> console \<Rightarrow> console" where
  "setAuthFromResponse E now r c =
     (let c1 = c\<lparr>c_token := Some (ar_access_token r)\<rparr>;
          c2 = (if absent (ar_refresh_token r) then c1
                else c1\<lparr>c_refreshToken := ar_refresh_token r, c_ls := (c_ls c1)(REFRESH_TOKEN_KEY := ar_refresh_token r)\<rparr>);
          userData = without_run_mode (ar_user r);
          c3 = c2\<lparr>c_runMode := run_mode_or (c_runMode c2) (ar_user r), c_user := Some userData,
                 c_ls := (c_ls c2)(AUTH_TOKEN_KEY \<mapsto> ar_access_token r, AUTH_USER_KEY \<mapsto> stringify (je_num E) userData)\<rparr>;
          c4 = startAutoRefresh (setPendingAuthSession E None c3)
      in case ar_expires_in r of
           None \<Rightarrow> c4
         | Some x \<Rightarrow> if absent (ar_refresh_token r) \<or> x = 0 then c4 else scheduleTokenRefresh E now x c4)"

text \<open>
  How a call of the sign-in interface ends. \<open>login\<close>, \<open>login2FA\<close> and \<open>register\<close> differ in the request they
  make; each stores the answer (\<open>store_response\<close>) and then sets the state.
\<close>

datatype sign_in_reply = Signed_in auth_response | Needs_2fa | Refused_sign_in

definition login :: "js_env \<Rightarrow> int \<Rightarrow> sign_in_reply \<Rightarrow> console \<Rightarrow> console" where
  "login E now reply c = (case reply of
     Signed_in r \<Rightarrow> setAuthFromResponse E (of_int now) r (c\<lparr>c_ls := store_response E now r (c_ls c)\<rparr>)
   | Needs_2fa \<Rightarrow> c
   | Refused_sign_in \<Rightarrow> clearAuth E (c_pending c \<noteq> None) c)"

text \<open>\<open>refreshUser\<close> up to its wait, and after it: the user object, or the status of the error.\<close>

definition refreshUser :: "console \<Rightarrow> (thrown option) \<times> console" where
  "refreshUser c = (if absent (c_token c) then (Some (plain_error ''Not authenticated''), c)
     else (None, c\<lparr>c_loads := c_loads c + 1\<rparr>))"

definition userLoaded :: "js_env \<Rightarrow> int option + json \<Rightarrow> console \<Rightarrow> console" where
  "userLoaded E r c =
     (let c1 = c\<lparr>c_loads := c_loads c - 1\<rparr>
      in case r of
           Inl status \<Rightarrow> if status = Some 401 then clearAuth E (c_pending c1 \<noteq> None) c1 else c1
         | Inr u \<Rightarrow> c1\<lparr>c_runMode := run_mode_or (c_runMode c1) u, c_user := Some (without_run_mode u),
                      c_ls := (c_ls c1)(AUTH_USER_KEY \<mapsto> stringify (je_num E) (without_run_mode u))\<rparr>)"

text \<open>\<open>setToken\<close> up to its wait, and after the user was loaded or not.\<close>

definition setToken :: "string \<Rightarrow> console \<Rightarrow> console" where
  "setToken newToken c =
     (let c1 = (stopTokenRefresh (stopAutoRefresh c))\<lparr>c_user := None, c_token := Some newToken\<rparr>;
          c2 = c1\<lparr>c_ls := (c_ls c1)(AUTH_TOKEN_KEY \<mapsto> newToken)\<rparr>;
          c3 = (if absent (c_ls c2 REFRESH_TOKEN_KEY) then c2 else c2\<lparr>c_refreshToken := c_ls c2 REFRESH_TOKEN_KEY\<rparr>);
          c4 = (if absent (c_ls c3 TOKEN_EXPIRES_AT_KEY) then c3
                else c3\<lparr>c_expiresAt := Some (parse_int (the (c_ls c3 TOKEN_EXPIRES_AT_KEY)))\<rparr>)
      in snd (refreshUser c4))"

definition setTokenLoaded :: "js_env \<Rightarrow> rat \<Rightarrow> string option \<Rightarrow> int option + json \<Rightarrow> console \<Rightarrow> console" where
  "setTokenLoaded E now savedRefreshToken r c =
     (case r of
        Inl status \<Rightarrow> (let c1 = userLoaded E r c in clearAuth E (c_pending c1 \<noteq> None) c1)
      | Inr u \<Rightarrow>
          (let c1 = startAutoRefresh (userLoaded E r c);
               c2 = (case c_expiresAt c1 of
                       Some t \<Rightarrow> if absent savedRefreshToken then c1 else scheduleTokenRefreshAt now t c1
                     | None \<Rightarrow> c1)
           in setPendingAuthSession E None c2))"

text \<open>\<open>logout\<close> once the request has ended, well or not: the storage and the state are cleared.\<close>

definition logout :: "js_env \<Rightarrow> console \<Rightarrow> console" where
  "logout E c = clearAuth E False (c\<lparr>c_ls := clearAuthToken (c_ls c)\<rparr>)"

definition checkAuth :: "js_env \<Rightarrow> rat \<Rightarrow> console \<Rightarrow> console" where
  "checkAuth E now c =
     (let savedToken = c_ls c AUTH_TOKEN_KEY; savedUser = c_ls c AUTH_USER_KEY;
          savedRefreshToken = c_ls c REFRESH_TOKEN_KEY; savedExpiresAt = c_ls c TOKEN_EXPIRES_AT_KEY;
          c1 = (case getPersistedPendingAuthSession E (c_ls c) of (p, ls) \<Rightarrow> c\<lparr>c_pending := p, c_ls := ls\<rparr>)
      in if absent savedToken \<or> absent savedUser then c1
         else (case je_parse E (the savedUser) of
           None \<Rightarrow> clearAuth E True (c1\<lparr>c_token := savedToken\<rparr>)
         | Some u \<Rightarrow>
             (let expiresAt = (if absent savedExpiresAt then None else Some (parse_int (the savedExpiresAt)));
                  c2 = c1\<lparr>c_token := savedToken, c_user := (if u = JNull then None else Some u), c_refreshToken := savedRefreshToken, c_expiresAt := expiresAt\<rparr>;
                  c3 = startAutoRefresh (snd (refreshUser c2))
              in case expiresAt of
                   Some t \<Rightarrow> if absent savedRefreshToken then c3 else scheduleTokenRefreshAt now t c3
                 | None \<Rightarrow> c3)))"

text \<open>A timer fires.\<close>

definition interval_fires :: "console \<Rightarrow> console" where
  "interval_fires c = (if absent (c_token c) then c else snd (refreshUser c))"

definition timeout_fires :: "nat \<Rightarrow> console \<Rightarrow> console" where
  "timeout_fires i c = performTokenRefresh (c\<lparr>c_live_timeouts := filter (\<lambda>(j, _). j \<noteq> i) (c_live_timeouts c)\<rparr>)"

section \<open>Runs of a page\<close>

text \<open>\<open>tab_writes\<close> is what the other tabs and the refresh of the tokens do to the storage.\<close>

inductive page_step :: "js_env \<Rightarrow> console \<Rightarrow> console \<Rightarrow> bool" for E where
  pg_check: "page_step E c (checkAuth E now c)"
| pg_login: "page_step E c (login E n reply c)"
| pg_passkey: "page_step E c (setAuthFromResponse E now r c)"
| pg_set_token: "page_step E c (setToken newToken c)"
| pg_token_loaded: "0 < c_loads c \<Longrightarrow> page_step E c (setTokenLoaded E now savedRefreshToken a c)"
| pg_loaded: "0 < c_loads c \<Longrightarrow> page_step E c (userLoaded E a c)"
| pg_refreshed: "0 < c_refreshes c \<Longrightarrow> page_step E c (tokenRefreshed E now tokens c)"
| pg_logout: "page_step E c (logout E c)"
| pg_pending: "page_step E c (setPendingAuthSession E session c)"
| pg_interval: "i \<in> set (c_live_intervals c) \<Longrightarrow> page_step E c (interval_fires c)"
| pg_timeout: "i \<in> fst ` set (c_live_timeouts c) \<Longrightarrow> page_step E c (timeout_fires i c)"
| pg_other_tab: "page_step E c (c\<lparr>c_ls := tab_writes\<rparr>)"

section \<open>Timers\<close>

text \<open>Only the timers the store knows of are running, so it can stop them.\<close>

definition timers_ok :: "console \<Rightarrow> bool" where
  "timers_ok c \<longleftrightarrow> c_live_intervals c = (case c_interval c of None \<Rightarrow> [] | Some i \<Rightarrow> [i])
     \<and> (c_live_timeouts c = [] \<or> (\<exists>i d. c_timeout c = Some i \<and> c_live_timeouts c = [(i, d)]))"

named_theorems timers \<comment> \<open>the operations keep \<open>timers_ok\<close>\<close>

lemma timers_ok_cong:
  "c_live_intervals c' = c_live_intervals c \<Longrightarrow> c_interval c' = c_interval c \<Longrightarrow> c_live_timeouts c' = c_live_timeouts c
    \<Longrightarrow> c_timeout c' = c_timeout c \<Longrightarrow> timers_ok c' = timers_ok c"
  by (simp add: timers_ok_def)

lemma timers_ok_fields [simp]:
  "timers_ok (c\<lparr>c_ls := a\<rparr>) = timers_ok c" "timers_ok (c\<lparr>c_user := b\<rparr>) = timers_ok c" "timers_ok (c\<lparr>c_token := d\<rparr>) = timers_ok c"
  "timers_ok (c\<lparr>c_refreshToken := e\<rparr>) = timers_ok c" "timers_ok (c\<lparr>c_expiresAt := f\<rparr>) = timers_ok c"
  "timers_ok (c\<lparr>c_runMode := g\<rparr>) = timers_ok c" "timers_ok (c\<lparr>c_pending := h\<rparr>) = timers_ok c"
  "timers_ok (c\<lparr>c_refreshes := k\<rparr>) = timers_ok c" "timers_ok (c\<lparr>c_loads := l\<rparr>) = timers_ok c"
  by (rule timers_ok_cong; simp)+

lemma stopAutoRefresh_ok [timers]: "timers_ok c \<Longrightarrow> timers_ok (stopAutoRefresh c)"
  by (auto simp: stopAutoRefresh_def timers_ok_def split: option.splits)

lemma stopAutoRefresh_none: "timers_ok c \<Longrightarrow> c_interval (stopAutoRefresh c) = None \<and> c_live_intervals (stopAutoRefresh c) = []"
  by (auto simp: stopAutoRefresh_def timers_ok_def split: option.splits)

lemma startAutoRefresh_ok [timers]: "timers_ok c \<Longrightarrow> timers_ok (startAutoRefresh c)"
  using stopAutoRefresh_none [of c] stopAutoRefresh_ok [of c] by (simp add: startAutoRefresh_def timers_ok_def Let_def)

lemma stopTokenRefresh_none: "timers_ok c \<Longrightarrow> c_timeout (stopTokenRefresh c) = None \<and> c_live_timeouts (stopTokenRefresh c) = []"
  by (auto simp: stopTokenRefresh_def timers_ok_def split: option.splits)

lemma stopTokenRefresh_ok [timers]: "timers_ok c \<Longrightarrow> timers_ok (stopTokenRefresh c)"
  by (auto simp: stopTokenRefresh_def timers_ok_def split: option.splits)

lemma performTokenRefresh_ok [timers]: "timers_ok c \<Longrightarrow> timers_ok (performTokenRefresh c)"
  by (simp add: performTokenRefresh_def)

lemma scheduleTokenRefreshAt_ok [timers]: "timers_ok c \<Longrightarrow> timers_ok (scheduleTokenRefreshAt now t c)"
proof -
  assume c: "timers_ok c"
  have "timers_ok ((stopTokenRefresh c)\<lparr>c_timeout := Some i, c_live_timeouts := c_live_timeouts (stopTokenRefresh c) @ [(i, d)], c_next_timer := k\<rparr>)" for i d k
    using stopTokenRefresh_none [OF c] stopTokenRefresh_ok [OF c] by (simp add: timers_ok_def)
  then show ?thesis using c by (simp add: scheduleTokenRefreshAt_def Let_def timers split: option.split)
qed

lemma scheduleTokenRefresh_ok [timers]: "timers_ok c \<Longrightarrow> timers_ok (scheduleTokenRefresh E now x c)"
  by (simp add: scheduleTokenRefresh_def Let_def timers)

lemma setPendingAuthSession_ok [timers]: "timers_ok c \<Longrightarrow> timers_ok (setPendingAuthSession E p c)"
  by (simp add: setPendingAuthSession_def)

lemma clearAuth_ok [timers]: "timers_ok c \<Longrightarrow> timers_ok (clearAuth E preserve c)"
  by (simp add: clearAuth_def Let_def timers split: prod.split)

lemma setAuthFromResponse_ok [timers]: "timers_ok c \<Longrightarrow> timers_ok (setAuthFromResponse E now r c)"
  by (simp add: setAuthFromResponse_def Let_def timers split: option.split)

lemma refreshUser_ok [timers]: "timers_ok c \<Longrightarrow> timers_ok (snd (refreshUser c))"
  by (simp add: refreshUser_def)

lemma userLoaded_ok [timers]: "timers_ok c \<Longrightarrow> timers_ok (userLoaded E a c)"
  by (simp add: userLoaded_def Let_def timers split: sum.split)

lemma page_step_timers: "page_step E c c' \<Longrightarrow> timers_ok c \<Longrightarrow> timers_ok c'"
proof (induction rule: page_step.induct)
  case (pg_check c now)
  then show ?case by (simp add: checkAuth_def Let_def timers split: prod.split option.split)
next
  case (pg_login c n reply)
  then show ?case by (simp add: login_def timers split: sign_in_reply.split)
next
  case (pg_set_token c newToken)
  then show ?case by (simp add: setToken_def Let_def timers)
next
  case (pg_token_loaded c now savedRefreshToken a)
  then show ?case by (simp add: setTokenLoaded_def Let_def timers split: sum.split option.split)
next
  case (pg_refreshed c now tokens)
  then show ?case by (simp add: tokenRefreshed_def Let_def timers split: option.split)
next
  case (pg_logout c)
  then show ?case by (simp add: logout_def timers)
next
  case (pg_interval i c)
  then show ?case by (simp add: interval_fires_def timers)
next
  case (pg_timeout i c)
  then have "timers_ok (c\<lparr>c_live_timeouts := filter (\<lambda>(j, _). j \<noteq> i) (c_live_timeouts c)\<rparr>)"
    by (auto simp: timers_ok_def)
  then show ?case by (simp add: timeout_fires_def timers)
qed (simp_all add: timers)

lemma page_reachable_timers: "(page_step E)\<^sup>*\<^sup>* (open_page ls) c \<Longrightarrow> timers_ok c"
proof (induction rule: rtranclp_induct)
  case base
  then show ?case by (simp add: timers_ok_def open_page_def)
next
  case (step c c')
  then show ?case using page_step_timers by blast
qed

text \<open>
  C21: a page of the console never leaks a timer: whatever sign-ins, refreshes, answers and writes of
  other tabs happen, at most one interval and at most one timeout run, and they are the ones
  the store knows; signing out leaves none, no tokens and no user, neither in the state nor in the storage.
\<close>

theorem sign_out_leaves_nothing_behind:
  assumes "(page_step E)\<^sup>*\<^sup>* (open_page ls) c"
  shows "length (c_live_intervals c) \<le> 1 \<and> length (c_live_timeouts c) \<le> 1
     \<and> set (c_live_intervals c) \<subseteq> set_option (c_interval c) \<and> fst ` set (c_live_timeouts c) \<subseteq> set_option (c_timeout c)
     \<and> (let d = logout E c in c_live_intervals d = [] \<and> c_live_timeouts d = [] \<and> c_token d = None \<and> c_refreshToken d = None
          \<and> c_user d = None \<and> c_pending d = None \<and> \<not> isAuthenticated d
          \<and> list_all (\<lambda>k. c_ls d k = None) [AUTH_TOKEN_KEY, AUTH_USER_KEY, REFRESH_TOKEN_KEY, TOKEN_EXPIRES_AT_KEY, PENDING_AUTH_SESSION_KEY])"
proof -
  have c: "timers_ok c" by (rule page_reachable_timers [OF assms])
  let ?c = "c\<lparr>c_ls := clearAuthToken (c_ls c)\<rparr>"
  have "timers_ok (stopAutoRefresh ?c)" using c by (simp add: timers)
  from stopTokenRefresh_none [OF this] stopAutoRefresh_none [of ?c] c
  have "c_live_timeouts (stopTokenRefresh (stopAutoRefresh ?c)) = []" "c_live_intervals (stopTokenRefresh (stopAutoRefresh ?c)) = []"
    by (auto simp: stopTokenRefresh_def split: option.split)
  then have "let d = logout E c in c_live_intervals d = [] \<and> c_live_timeouts d = [] \<and> c_token d = None \<and> c_refreshToken d = None
          \<and> c_user d = None \<and> c_pending d = None \<and> \<not> isAuthenticated d
          \<and> list_all (\<lambda>k. c_ls d k = None) [AUTH_TOKEN_KEY, AUTH_USER_KEY, REFRESH_TOKEN_KEY, TOKEN_EXPIRES_AT_KEY, PENDING_AUTH_SESSION_KEY]"
    by (simp add: logout_def clearAuth_def Let_def isAuthenticated_def)
  moreover have "length (c_live_intervals c) \<le> 1" "length (c_live_timeouts c) \<le> 1"
     "set (c_live_intervals c) \<subseteq> set_option (c_interval c)" "fst ` set (c_live_timeouts c) \<subseteq> set_option (c_timeout c)"
    using c by (auto simp: timers_ok_def split: option.splits)
  ultimately show ?thesis by blast
qed

definition witness_console :: console where
  "witness_console = login witness_js 0 (Signed_in (witness_sign_in\<lparr>ar_expires_in := Some 3600\<rparr>)) (open_page (\<lambda>_. None))"

theorem sign_out_leaves_nothing_behind_witness:
  "(page_step witness_js)\<^sup>*\<^sup>* (open_page (\<lambda>_. None)) witness_console \<and> isAuthenticated witness_console
     \<and> c_live_intervals witness_console = [1] \<and> c_live_timeouts witness_console = [(2, 3480000)]
     \<and> \<not> isAuthenticated (logout witness_js witness_console)"
proof -
  have r: "(page_step witness_js)\<^sup>*\<^sup>* (open_page (\<lambda>_. None)) witness_console"
    unfolding witness_console_def by (rule r_into_rtranclp, rule pg_login)
  have "isAuthenticated witness_console" "c_live_intervals witness_console = [1]" "c_live_timeouts witness_console = [(2, 3480000)]"
    by code_simp+
  with r sign_out_leaves_nothing_behind [OF r] show ?thesis unfolding Let_def by blast
qed

section \<open>What a reload finds\<close>

lemma scheduleTokenRefresh_fields:
  "c_token (scheduleTokenRefresh E now x c) = c_token c" "c_user (scheduleTokenRefresh E now x c) = c_user c"
  "c_refreshToken (scheduleTokenRefresh E now x c) = c_refreshToken c"
  "c_expiresAt (scheduleTokenRefresh E now x c) = Some (Some (now + x * 1000))"
  "c_ls (scheduleTokenRefresh E now x c) = (c_ls c)(TOKEN_EXPIRES_AT_KEY \<mapsto> je_num E (now + x * 1000))"
  "c_pending (scheduleTokenRefresh E now x c) = c_pending c"
  by (simp_all add: scheduleTokenRefresh_def scheduleTokenRefreshAt_def Let_def performTokenRefresh_def stopTokenRefresh_def split: option.split)

lemma scheduleTokenRefreshAt_fields:
  "c_token (scheduleTokenRefreshAt now t c) = c_token c" "c_user (scheduleTokenRefreshAt now t c) = c_user c"
  "c_refreshToken (scheduleTokenRefreshAt now t c) = c_refreshToken c" "c_expiresAt (scheduleTokenRefreshAt now t c) = c_expiresAt c"
  "c_ls (scheduleTokenRefreshAt now t c) = c_ls c" "c_pending (scheduleTokenRefreshAt now t c) = c_pending c"
  by (simp_all add: scheduleTokenRefreshAt_def Let_def performTokenRefresh_def stopTokenRefresh_def split: option.split)

lemma startAutoRefresh_fields:
  "c_token (startAutoRefresh c) = c_token c" "c_user (startAutoRefresh c) = c_user c" "c_refreshToken (startAutoRefresh c) = c_refreshToken c"
  "c_expiresAt (startAutoRefresh c) = c_expiresAt c" "c_ls (startAutoRefresh c) = c_ls c" "c_pending (startAutoRefresh c) = c_pending c"
  by (simp_all add: startAutoRefresh_def stopAutoRefresh_def Let_def split: option.split)

lemma refreshUser_fields:
  "c_token (snd (refreshUser c)) = c_token c" "c_user (snd (refreshUser c)) = c_user c" "c_refreshToken (snd (refreshUser c)) = c_refreshToken c"
  "c_expiresAt (snd (refreshUser c)) = c_expiresAt c" "c_ls (snd (refreshUser c)) = c_ls c" "c_pending (snd (refreshUser c)) = c_pending c"
  by (simp_all add: refreshUser_def)

lemmas console_fields = scheduleTokenRefresh_fields scheduleTokenRefreshAt_fields startAutoRefresh_fields refreshUser_fields

lemma signed_in_fields:
  fixes E :: js_env and now :: rat and r :: auth_response and c :: console
  assumes "ar_refresh_token r = Some rt" "rt \<noteq> ''''" "ar_expires_in r = Some x" "x \<noteq> 0"
  defines "d \<equiv> setAuthFromResponse E now r c" and "u \<equiv> without_run_mode (ar_user r)"
  shows "c_token d = Some (ar_access_token r)" "c_user d = Some u" "c_refreshToken d = Some rt" "c_expiresAt d = Some (Some (now + x * 1000))"
    "c_pending d = None" "c_ls d AUTH_TOKEN_KEY = Some (ar_access_token r)" "c_ls d AUTH_USER_KEY = Some (stringify (je_num E) u)"
    "c_ls d REFRESH_TOKEN_KEY = Some rt" "c_ls d TOKEN_EXPIRES_AT_KEY = Some (je_num E (now + x * 1000))" "c_ls d PENDING_AUTH_SESSION_KEY = None"
  using assms(1-4) unfolding d_def u_def
  by (simp_all add: setAuthFromResponse_def Let_def console_fields setPendingAuthSession_def absent_def)

text \<open>
  A reload keeps a sign-in: a page opened on the storage after a sign-in with a refresh token
  restores the same user, tokens and expiry, so it is signed in, and an administrator exactly if
  the first page was. \<open>parse\<close> must read back the texts of the user object and of the expiry.
\<close>

theorem reload_keeps_the_sign_in:
  assumes "je_parse E (stringify (je_num E) (without_run_mode (ar_user r))) = Some (without_run_mode (ar_user r))"
    and "parse_int (je_num E (now + x * 1000)) = Some (now + x * 1000)"
    and "ar_access_token r \<noteq> ''''" "ar_refresh_token r = Some rt" "rt \<noteq> ''''" "ar_expires_in r = Some x" "x \<noteq> 0"
  shows "let d = setAuthFromResponse E now r c; p = checkAuth E now' (open_page (c_ls d))
     in c_token p = c_token d \<and> c_user p = c_user d \<and> c_refreshToken p = c_refreshToken d \<and> c_expiresAt p = c_expiresAt d
        \<and> c_pending p = c_pending d \<and> isAuthenticated p \<and> isAdmin p = isAdmin d"
proof -
  let ?d = "setAuthFromResponse E now r c"
  note d = signed_in_fields [OF assms(4-7), of E now c]
  have texts: "stringify (je_num E) (without_run_mode (ar_user r)) \<noteq> ''''" "je_num E (now + x * 1000) \<noteq> ''''"
    using assms(2) by (auto simp: without_run_mode_def parse_int_def split: json.split)
  have obj: "without_run_mode (ar_user r) \<noteq> JNull" "truthy (Some (without_run_mode (ar_user r)))"
    by (auto simp: without_run_mode_def split: json.split)
  have "getPersistedPendingAuthSession E (c_ls ?d) = (None, c_ls ?d)" using d(10) by (simp add: getPersistedPendingAuthSession_def)
  then have p: "c_token (checkAuth E now' (open_page (c_ls ?d))) = Some (ar_access_token r)
      \<and> c_user (checkAuth E now' (open_page (c_ls ?d))) = Some (without_run_mode (ar_user r))
      \<and> c_refreshToken (checkAuth E now' (open_page (c_ls ?d))) = Some rt
      \<and> c_expiresAt (checkAuth E now' (open_page (c_ls ?d))) = Some (Some (now + x * 1000))
      \<and> c_pending (checkAuth E now' (open_page (c_ls ?d))) = None"
    using assms(1-3,5) d texts obj by (simp add: checkAuth_def Let_def open_page_def absent_def console_fields)
  then show ?thesis using d(1-5) obj assms(3) by (simp add: Let_def isAuthenticated_def isAdmin_def absent_def)
qed

definition witness_reload :: js_env where
  "witness_reload = \<lparr>je_parse = (\<lambda>_. Some (JObj [(''id'', JNum 7), (''role'', JStr ''admin'')])), je_num = (\<lambda>_. ''9000''),
     je_number = (\<lambda>_. Some 9000), je_object_number = (\<lambda>_. None)\<rparr>"

definition witness_admin :: auth_response where
  "witness_admin = \<lparr>ar_access_token = ''a1'', ar_refresh_token = Some ''r1'', ar_expires_in = Some 9,
     ar_user = JObj [(''id'', JNum 7), (''run_mode'', JStr ''simple''), (''role'', JStr ''admin'')]\<rparr>"

theorem reload_keeps_the_sign_in_witness:
  "isAdmin (checkAuth witness_reload 5 (open_page (c_ls (setAuthFromResponse witness_reload 0 witness_admin (open_page (\<lambda>_. None))))))"
proof -
  have a: "je_parse witness_reload (stringify (je_num witness_reload) (without_run_mode (ar_user witness_admin))) = Some (without_run_mode (ar_user witness_admin))"
    by (simp add: witness_reload_def witness_admin_def without_run_mode_def)
  have b: "parse_int (je_num witness_reload (0 + 9 * 1000)) = Some (0 + 9 * 1000)"
    by (simp add: witness_reload_def parse_int_def digits_of_def is_ws_def is_digit_def)
  have "isAdmin (setAuthFromResponse witness_reload 0 witness_admin (open_page (\<lambda>_. None)))" by code_simp
  with reload_keeps_the_sign_in [OF a b, of "''r1''" "open_page (\<lambda>_. None)" 5] show ?thesis
    by (simp add: Let_def witness_admin_def)
qed

text \<open>A pending sign-in is read back as it was stored.\<close>

lemma getp_append: "getp (JObj (a @ b)) k = (case map_of a k of None \<Rightarrow> getp (JObj b) k | Some v \<Rightarrow> Some v)"
  by (simp add: map_add_def split: option.split)

lemma map_of_opt_field: "map_of (opt_field k f v) i = (if i = k then map_option f v else None)"
  by (auto simp: opt_field_def split: option.split)

lemma pending_of_json:
  assumes "trim (pa_provider p) = pa_provider p" "pa_provider p \<noteq> ''''" "pa_token_field p \<in> {''pending_auth_token'', ''pending_oauth_token''}"
  shows "pending_of (pending_json p) = Some p"
proof -
  note fields = pending_json_def getp_append map_of_opt_field map_of_append map_add_def
  have "getp (pending_json p) ''token'' = Some (JStr (pa_token p))" "getp (pending_json p) ''provider'' = Some (JStr (pa_provider p))"
    "getp (pending_json p) ''token_field'' = Some (JStr (pa_token_field p))"
    "getp (pending_json p) ''redirect'' = map_option JStr (pa_redirect p)"
    "getp (pending_json p) ''adoption_required'' = map_option JBool (pa_adoption_required p)"
    "getp (pending_json p) ''suggested_display_name'' = map_option JStr (pa_display_name p)"
    "getp (pending_json p) ''suggested_avatar_url'' = map_option JStr (pa_avatar_url p)"
    by (simp_all add: fields split: option.split)
  moreover have "str_of (map_option JStr v) = v" "bool_of (map_option JBool b) = b" for v b
    by (cases v; simp add: bool_of_def) (cases b; simp add: bool_of_def)
  ultimately show ?thesis using assms
    by (auto simp: pending_of_def Let_def text_or_empty_def normalizePendingAuthTokenField_def)
qed

theorem pending_sign_in_is_kept:
  assumes "je_parse E (stringify (je_num E) (pending_json p)) = Some (pending_json p)"
    and "trim (pa_provider p) = pa_provider p" "pa_provider p \<noteq> ''''" "pa_token_field p \<in> {''pending_auth_token'', ''pending_oauth_token''}"
  shows "getPersistedPendingAuthSession E (persistPendingAuthSession E p ls) = (Some p, persistPendingAuthSession E p ls)"
proof -
  have "stringify (je_num E) (pending_json p) \<noteq> ''''" by (simp add: pending_json_def)
  then show ?thesis using assms pending_of_json [of p]
    by (simp add: getPersistedPendingAuthSession_def persistPendingAuthSession_def absent_def)
qed

section \<open>Late answers\<close>

text \<open>
  \<open>refreshUser\<close> does not look whether the session it asked for is still there when the answer arrives. An answer
  that was on its way at a sign-out puts the user back, in the state and in the storage, and
  after the sign-in of another user it puts the first user's data beside the second user's token.
\<close>

lemma late_user_after_sign_out:
  "let d = userLoaded E (Inr u) (logout E c)
   in c_user d = Some (without_run_mode u) \<and> c_ls d AUTH_USER_KEY = Some (stringify (je_num E) (without_run_mode u))"
  by (simp add: userLoaded_def Let_def)

lemma late_user_beside_other_token:
  assumes "ar_refresh_token r = Some rt" "rt \<noteq> ''''" "ar_expires_in r = Some x" "x \<noteq> 0"
  shows "let d = userLoaded E (Inr u) (login E now (Signed_in r) (logout E c))
     in c_token d = Some (ar_access_token r) \<and> c_user d = Some (without_run_mode u)
        \<and> c_ls d AUTH_TOKEN_KEY = Some (ar_access_token r) \<and> c_ls d AUTH_USER_KEY = Some (stringify (je_num E) (without_run_mode u))"
  using signed_in_fields [OF assms] by (simp add: userLoaded_def login_def Let_def)

end
