(* ===== verification/Front_Client.thy ===== *)
theory Front_Client
  imports Front_Auth
begin

text \<open>
  \<^verbatim>\<open>src/frontend/src/api/client.ts\<close> with \<^verbatim>\<open>adminUIRequest.ts\<close>: what the interceptors add to a request, and how
  they settle an answer or an error, above all a 401. Axios, the parsing of a URL, the locale and the
  time zone are the environment; an answer's body is JSON.
\<close>

section \<open>Marks of a request\<close>

definition isAdminPath :: "string \<Rightarrow> bool" where
  "isAdminPath path \<longleftrightarrow> path = ''/admin'' \<or> starts_with path ''/admin/'' \<or> path = ''/api/v1/admin'' \<or> starts_with path ''/api/v1/admin/''"

text \<open>\<open>pathname\<close> is \<^verbatim>\<open>new URL(value, origin).pathname\<close>, \<open>None\<close> when it throws.\<close>

definition requestPath :: "(string \<Rightarrow> string option) \<Rightarrow> string \<Rightarrow> string" where
  "requestPath pathname rawURL = (let value = trim rawURL
     in if value = '''' then ''''
        else case pathname value of Some p \<Rightarrow> p | None \<Rightarrow> takeWhile (\<lambda>c. c \<noteq> CHR ''?'' \<and> c \<noteq> CHR 0x23) value)"

definition normalizeAPIPath :: "(string \<Rightarrow> string option) \<Rightarrow> string \<Rightarrow> string" where
  "normalizeAPIPath pathname path = (let raw = requestPath pathname path
     in if raw = '''' then ''''
        else if raw = ''/api/v1'' \<or> starts_with raw ''/api/v1/''
          then (if drop 7 raw = '''' then ''/'' else drop 7 raw)
        else if starts_with raw ''/'' then raw else CHR ''/'' # raw)"

definition under :: "string \<Rightarrow> string \<Rightarrow> bool" where
  "under base path \<longleftrightarrow> path = base \<or> starts_with path (base @ ''/'')"

definition isUserTimingAPIPath :: "(string \<Rightarrow> string option) \<Rightarrow> string \<Rightarrow> bool" where
  "isUserTimingAPIPath pathname requestURL = (let path = normalizeAPIPath pathname requestURL
     in path \<noteq> '''' \<and>
        (path \<in> {''/auth/me'', ''/auth/revoke-all-sessions'', ''/auth/oauth/bind-token'', ''/groups/available'', ''/groups/rates'', ''/channels/available''}
         \<or> list_ex (\<lambda>base. under base path) [''/user'', ''/keys'', ''/usage'', ''/announcements'', ''/redeem'', ''/subscriptions'', ''/channel-monitors'']
         \<or> (starts_with path ''/payment/'' \<and> \<not> starts_with path ''/payment/public'' \<and> \<not> starts_with path ''/payment/webhook'')))"

definition shouldMarkAdminUIRequest :: "(string \<Rightarrow> string option) \<Rightarrow> string \<Rightarrow> string \<Rightarrow> bool" where
  "shouldMarkAdminUIRequest pathname pagePath requestURL \<longleftrightarrow> isAdminPath (requestPath pathname requestURL) \<or> isAdminPath pagePath"

section \<open>The request interceptor\<close>

record api_request =
  rq_method :: string
  rq_url :: string
  rq_headers :: "(string \<times> string) list"
  rq_params :: "(string \<times> json) list"
  rq_retry :: bool

record window =
  w_ls :: storage
  w_session :: storage
  w_path :: string
  w_href :: "string option"
  w_events :: "string list"

definition on_request :: "(string \<Rightarrow> string option) \<Rightarrow> string \<Rightarrow> string option \<Rightarrow> window \<Rightarrow> api_request \<Rightarrow> api_request" where
  "on_request pathname locale_name timezone w q =
     (let h0 = rq_headers q;
          h1 = (if absent (w_ls w AUTH_TOKEN_KEY) then h0 else AList.update ''Authorization'' (''Bearer '' @ the (w_ls w AUTH_TOKEN_KEY)) h0);
          h2 = AList.update ''Accept-Language'' locale_name h1;
          ps = (if rq_method q = ''get''
                then AList.update ''timezone'' (JStr (case timezone of Some z \<Rightarrow> z | None \<Rightarrow> ''UTC'')) (rq_params q) else rq_params q);
          h3 = (if shouldMarkAdminUIRequest pathname (w_path w) (rq_url q) then AList.update ''X-Admin-UI-Request'' ''1'' h2 else h2);
          h4 = (if isUserTimingAPIPath pathname (rq_url q) then AList.update ''X-User-UI-Request'' ''1'' h3 else h3)
      in q\<lparr>rq_headers := h4, rq_params := ps\<rparr>)"

section \<open>The response interceptor\<close>

record api_error =
  ae_status :: int
  ae_code :: "json option"
  ae_message :: "json option"

definition or_json :: "json option \<Rightarrow> json option \<Rightarrow> json option" where
  "or_json a b = (if truthy a then a else b)"

text \<open>An answer with a good status: the envelope \<open>{code, message, data}\<close> is taken off.\<close>

definition unwrap :: "int \<Rightarrow> json \<Rightarrow> api_error + json option" where
  "unwrap status body = (case getp body ''code'' of
     None \<Rightarrow> Inr (Some body)
   | Some code \<Rightarrow> if code = JNum 0 then Inr (getp body ''data'')
       else Inl \<lparr>ae_status = status, ae_code = Some code, ae_message = or_json (getp body ''message'') (Some (JStr ''Unknown error''))\<rparr>)"

text \<open>
  How an error is settled: rejected as it is (a cancellation), rejected with an error object, or
  left to a refresh of the tokens, with the request marked and what the storage held when it began.
\<close>

record refresh_wait =
  rw_request :: api_request
  rw_refreshToken :: string
  rw_user :: "string option"
  rw_failed :: "string option"

datatype settlement = Cancelled | Reject api_error | AwaitRefresh refresh_wait

definition is_auth_endpoint :: "string \<Rightarrow> bool" where
  "is_auth_endpoint url \<longleftrightarrow> contains url ''/auth/login'' \<or> contains url ''/auth/register'' \<or> contains url ''/auth/refresh''"

definition auth_header :: "api_request \<Rightarrow> string option" where
  "auth_header q = (case map_of (rq_headers q) ''Authorization'' of Some v \<Rightarrow> Some v | None \<Rightarrow> map_of (rq_headers q) ''authorization'')"

definition failed_access_token :: "api_request \<Rightarrow> string option" where
  "failed_access_token q = (case auth_header q of
     Some v \<Rightarrow> if starts_with v ''Bearer '' then Some (drop 7 v) else None | None \<Rightarrow> None)"

definition to_login :: "window \<Rightarrow> window" where
  "to_login w = (if contains (w_path w) ''/login'' then w else w\<lparr>w_href := Some ''/login''\<rparr>)"

definition structured_error :: "int \<Rightarrow> string \<Rightarrow> json \<Rightarrow> api_error" where
  "structured_error status message data = \<lparr>ae_status = status, ae_code = getp data ''code'',
     ae_message = or_json (getp data ''message'') (or_json (getp data ''detail'') (Some (JStr message)))\<rparr>"

text \<open>A 401 that no refresh can help: the session is cleared.\<close>

definition session_lost :: "api_request \<Rightarrow> window \<Rightarrow> window" where
  "session_lost q w =
     (let hasToken = \<not> absent (w_ls w AUTH_TOKEN_KEY);
          sentAuth = (case auth_header q of Some v \<Rightarrow> trim v \<noteq> '''' | None \<Rightarrow> False);
          w1 = w\<lparr>w_ls := clearAuthToken (w_ls w)\<rparr>;
          w2 = (if (hasToken \<or> sentAuth) \<and> \<not> is_auth_endpoint (rq_url q) then w1\<lparr>w_session := (w_session w1)(''auth_expired'' \<mapsto> ''1'')\<rparr> else w1)
      in to_login w2)"

text \<open>
  The error of a request with an answer; \<open>data\<close> is its body (\<^verbatim>\<open>{}\<close> if it is not an object) and
  \<open>message\<close> the message of Axios.
\<close>

definition on_answer_error :: "api_request \<Rightarrow> int \<Rightarrow> json \<Rightarrow> string \<Rightarrow> window \<Rightarrow> settlement \<times> window" where
  "on_answer_error q status data message w =
     (if status = 404 \<and> getp data ''message'' = Some (JStr ''Ops monitoring is disabled'') then
        (Reject \<lparr>ae_status = status, ae_code = Some (JStr ''OPS_DISABLED''), ae_message = getp data ''message''\<rparr>,
         (let w1 = w\<lparr>w_ls := (w_ls w)(''ops_monitoring_enabled_cached'' \<mapsto> ''false''), w_events := w_events w @ [''ops-monitoring-disabled'']\<rparr>
          in if starts_with (w_path w1) ''/admin/ops'' then w1\<lparr>w_href := Some ''/admin/settings''\<rparr> else w1))
      else if status = 423 \<and> getp data ''code'' = Some (JStr ''ADMIN_COMPLIANCE_ACK_REQUIRED'') then
        (Reject \<lparr>ae_status = status, ae_code = getp data ''code'', ae_message = or_json (getp data ''message'') (Some (JStr message))\<rparr>,
         w\<lparr>w_events := w_events w @ [''admin-compliance-required'']\<rparr>)
      else if status = 401 \<and> \<not> rq_retry q then
        (if \<not> absent (w_ls w REFRESH_TOKEN_KEY) \<and> \<not> is_auth_endpoint (rq_url q) then
           (AwaitRefresh \<lparr>rw_request = q\<lparr>rq_retry := True\<rparr>, rw_refreshToken = the (w_ls w REFRESH_TOKEN_KEY),
              rw_user = w_ls w AUTH_USER_KEY, rw_failed = failed_access_token q\<rparr>, w)
         else (Reject (structured_error status message data), session_lost q w))
      else (Reject (structured_error status message data), w))"

definition on_error :: "bool \<Rightarrow> string option \<Rightarrow> (int \<times> json) option \<Rightarrow> string \<Rightarrow> api_request \<Rightarrow> window \<Rightarrow> settlement \<times> window" where
  "on_error cancelled code answer message q w =
     (if cancelled then (Cancelled, w)
      else case answer of
        Some (status, data) \<Rightarrow> on_answer_error q status data message w
      | None \<Rightarrow> (Reject \<lparr>ae_status = 0, ae_code = Some (JStr (if absent code then ''ERR_NETWORK'' else the code)),
                   ae_message = Some (JStr ''Network error. Please check your connection.'')\<rparr>, w))"

text \<open>The end of the refresh: its tokens, or its error; \<open>axios\<close> is the status of an Axios error, 0 without an answer.\<close>

datatype refresh_end = Refreshed token_pair | RefreshFailed "int option" "json option"

datatype retried = Resend api_request | GiveUp api_error

definition session_changed :: "refresh_wait \<Rightarrow> storage \<Rightarrow> bool" where
  "session_changed rw ls \<longleftrightarrow> ls REFRESH_TOKEN_KEY \<noteq> Some (rw_refreshToken rw) \<or> ls AUTH_USER_KEY \<noteq> rw_user rw"

definition transient :: "int option \<Rightarrow> bool" where
  "transient axios = (case axios of None \<Rightarrow> False | Some s \<Rightarrow> s = 0 \<or> s = 429 \<or> 500 \<le> s)"

definition on_refresh_end :: "refresh_wait \<Rightarrow> refresh_end \<Rightarrow> window \<Rightarrow> retried \<times> window" where
  "on_refresh_end rw r w = (case r of
     Refreshed p \<Rightarrow> (Resend ((rw_request rw)\<lparr>rq_headers := AList.update ''Authorization'' (''Bearer '' @ tp_access_token p) (rq_headers (rw_request rw))\<rparr>), w)
   | RefreshFailed axios message \<Rightarrow>
       if session_changed rw (w_ls w) then
         (GiveUp \<lparr>ae_status = 401, ae_code = Some (JStr ''AUTH_SESSION_CHANGED''),
            ae_message = Some (JStr ''Authentication session changed while refreshing.'')\<rparr>, w)
       else if transient axios then
         (GiveUp \<lparr>ae_status = the axios, ae_code = Some (JStr ''TOKEN_REFRESH_UNAVAILABLE''), ae_message = message\<rparr>, w)
       else
         (GiveUp \<lparr>ae_status = 401, ae_code = Some (JStr ''TOKEN_REFRESH_FAILED''),
            ae_message = Some (JStr ''Session expired. Please log in again.'')\<rparr>,
          to_login (w\<lparr>w_ls := clearAuthToken (w_ls w), w_session := (w_session w)(''auth_expired'' \<mapsto> ''1'')\<rparr>)))"

section \<open>Results\<close>

lemma to_login_ls [simp]: "w_ls (to_login w) = w_ls w"
  by (simp add: to_login_def)


lemma AwaitRefresh_retry:
  assumes "on_error cancelled code answer message q w = (AwaitRefresh rw, w')"
  shows "\<not> rq_retry q \<and> rq_retry (rw_request rw)"
  using assms by (auto simp: on_error_def on_answer_error_def split: if_splits option.splits prod.splits)

text \<open>
  A request is sent again at most once: after its refresh it carries the new token, and
  whatever comes back then, it does not wait for another refresh.
\<close>

theorem request_sent_again_at_most_once:
  assumes "on_error cancelled code answer message q w = (AwaitRefresh rw, w1)" "on_refresh_end rw (Refreshed p) w2 = (Resend q', w3)"
  shows "map_of (rq_headers q') ''Authorization'' = Some (''Bearer '' @ tp_access_token p)
    \<and> (\<nexists>rw' w5. on_error cancelled' code' answer' message' q' w4 = (AwaitRefresh rw', w5))"
proof -
  from assms(2) have q': "rq_retry q' = rq_retry (rw_request rw)" "map_of (rq_headers q') ''Authorization'' = Some (''Bearer '' @ tp_access_token p)"
    by (auto simp: on_refresh_end_def update_conv)
  with AwaitRefresh_retry [OF assms(1)] AwaitRefresh_retry [of cancelled' code' answer' message' q' w4] show ?thesis by blast
qed

definition witness_window :: window where
  "witness_window = \<lparr>w_ls = [REFRESH_TOKEN_KEY \<mapsto> ''r1'', AUTH_TOKEN_KEY \<mapsto> ''a1'', AUTH_USER_KEY \<mapsto> ''u''], w_session = (\<lambda>_. None),
     w_path = ''/keys'', w_href = None, w_events = []\<rparr>"

definition witness_api_request :: api_request where
  "witness_api_request = \<lparr>rq_method = ''get'', rq_url = ''/user/profile'', rq_headers = [(''Authorization'', ''Bearer a1'')], rq_params = [], rq_retry = False\<rparr>"

definition witness_refresh_wait :: refresh_wait where
  "witness_refresh_wait = \<lparr>rw_request = witness_api_request\<lparr>rq_retry := True\<rparr>, rw_refreshToken = ''r1'', rw_user = Some ''u'', rw_failed = Some ''a1''\<rparr>"

theorem request_sent_again_at_most_once_witness:
  "\<exists>q'. fst (on_refresh_end witness_refresh_wait (Refreshed \<lparr>tp_access_token = ''a2'', tp_refresh_token = ''r2'', tp_expires_in = 9, tp_token_type = ''Bearer''\<rparr>) witness_window) = Resend q'
     \<and> map_of (rq_headers q') ''Authorization'' = Some ''Bearer a2''"
proof -
  let ?p = "\<lparr>tp_access_token = ''a2'', tp_refresh_token = ''r2'', tp_expires_in = 9, tp_token_type = ''Bearer''\<rparr>"
  have a: "on_error False None (Some (401, JNull)) '''' witness_api_request witness_window = (AwaitRefresh witness_refresh_wait, witness_window)"
    by (simp add: on_error_def on_answer_error_def witness_api_request_def witness_window_def witness_refresh_wait_def absent_def
        is_auth_endpoint_def starts_with_def failed_access_token_def auth_header_def)
  obtain q' w3 where b: "on_refresh_end witness_refresh_wait (Refreshed ?p) witness_window = (Resend q', w3)"
    by (simp add: on_refresh_end_def)
  have "map_of (rq_headers q') ''Authorization'' = Some ''Bearer a2''"
    using request_sent_again_at_most_once [OF a b] by simp
  with b show ?thesis by (metis fst_conv)
qed

text \<open>
  The store undoes this care. A load of the user that was on its way when another user signed in
  is rejected with status 401 because the session has changed, and \<open>refreshUser\<close> takes every 401 for
  the loss of the present session: the new sign-in is cleared.
\<close>

lemma changed_session_is_cleared:
  assumes "session_changed rw (c_ls c)" "on_refresh_end rw (RefreshFailed axios message) (w\<lparr>w_ls := c_ls c\<rparr>) = (GiveUp err, w')"
  shows "w_ls w' = c_ls c \<and> (let d = userLoaded E (Inl (Some (ae_status err))) c
     in c_token d = None \<and> c_user d = None \<and> c_ls d AUTH_TOKEN_KEY = None \<and> c_ls d REFRESH_TOKEN_KEY = None)"
proof -
  from assms have e: "ae_status err = 401" "w' = w\<lparr>w_ls := c_ls c\<rparr>" by (auto simp: on_refresh_end_def)
  have keys: "ls' AUTH_TOKEN_KEY = ls AUTH_TOKEN_KEY \<and> ls' REFRESH_TOKEN_KEY = ls REFRESH_TOKEN_KEY"
    if "getPersistedPendingAuthSession E ls = (x, ls')" for x ls ls'
    using that by (auto simp: getPersistedPendingAuthSession_def split: if_splits option.splits)
  have cleared: "c_token (clearAuth E b c1) = None \<and> c_user (clearAuth E b c1) = None
      \<and> c_ls (clearAuth E b c1) AUTH_TOKEN_KEY = None \<and> c_ls (clearAuth E b c1) REFRESH_TOKEN_KEY = None" for b c1
    using keys [of "clearAuthToken (c_ls (stopTokenRefresh (stopAutoRefresh c1)))"]
    by (auto simp: clearAuth_def Let_def split: prod.split)
  show ?thesis using e cleared by (simp add: userLoaded_def Let_def)
qed

end
