(* ===== verification/Front_Stores.thy ===== *)
theory Front_Stores
  imports Front_Storage
begin

text \<open>
  The stores of the web console that answer with what they fetched: \<^verbatim>\<open>stores/subscriptions.ts\<close>,
  \<^verbatim>\<open>stores/adminCompliance.ts\<close> and \<^verbatim>\<open>stores/announcements.ts\<close>. Each counts its generations, so that an answer
  to a request of an earlier generation is told from an answer to the latest one. A fetch is split at its wait; the
  requests that are outstanding are known by their generations.
\<close>

section \<open>Generations\<close>

text \<open>What the stores promise, and what follows for a session that begins with a reset.\<close>

locale generations =
  fixes init :: 's
    and step :: "'s \<Rightarrow> 's \<Rightarrow> bool"
    and generation :: "'s \<Rightarrow> nat"
    and outstanding :: "'s \<Rightarrow> nat list"
    and reset :: "'s \<Rightarrow> 's"
    and arrive :: "nat \<Rightarrow> 'a \<Rightarrow> 's \<Rightarrow> 's"
    and shown :: "'s \<Rightarrow> 'v"
  assumes init_quiet: "outstanding init = []"
    and step_generation: "step s s' \<Longrightarrow> generation s \<le> generation s'"
    and step_outstanding: "step s s' \<Longrightarrow> set (outstanding s') \<subseteq> set (outstanding s) \<union> {generation s'}"
    and reset_generation: "generation s < generation (reset s)"
    and stale_dropped: "g \<noteq> generation s \<Longrightarrow> shown (arrive g a s) = shown s"
begin

lemma outstanding_bound:
  assumes "step\<^sup>*\<^sup>* init s"
  shows "g \<in> set (outstanding s) \<Longrightarrow> g \<le> generation s"
  using assms
proof (induction arbitrary: g rule: rtranclp_induct)
  case base
  then show ?case by (simp add: init_quiet)
next
  case (step s s')
  then show ?case using step_outstanding [OF step.hyps(2)] step_generation [OF step.hyps(2)] by (auto intro: order_trans)
qed

lemma generation_mono: "step\<^sup>*\<^sup>* s s' \<Longrightarrow> generation s \<le> generation s'"
  by (induction rule: rtranclp_induct) (auto dest: step_generation)

lemma earlier_answer_dropped:
  assumes "step\<^sup>*\<^sup>* init s" "g \<in> set (outstanding s)" "step\<^sup>*\<^sup>* (reset s) s'"
  shows "shown (arrive g a s') = shown s'"
proof (rule stale_dropped)
  have "g \<le> generation s" by (rule outstanding_bound [OF assms(1,2)])
  also have "\<dots> < generation (reset s)" by (rule reset_generation)
  also have "\<dots> \<le> generation s'" by (rule generation_mono [OF assms(3)])
  finally show "g \<noteq> generation s'" by simp
qed

end

section \<open>Subscriptions\<close>

definition CACHE_TTL_MS :: rat where "CACHE_TTL_MS = 60000"

text \<open>The counter \<open>requestGeneration\<close> is a part of the state; the promise that is active is known by its generation.\<close>

record subscriptions =
  sb_active :: "json list"
  sb_loading :: bool
  sb_loaded :: bool
  sb_fetchedAt :: "rat option"
  sb_generation :: nat
  sb_promise :: "nat option"
  sb_requests :: "nat list"
  sb_polling :: bool

definition no_subscriptions :: subscriptions where
  "no_subscriptions = \<lparr>sb_active = [], sb_loading = False, sb_loaded = False, sb_fetchedAt = None, sb_generation = 0,
     sb_promise = None, sb_requests = [], sb_polling = False\<rparr>"

definition hasActiveSubscriptions :: "subscriptions \<Rightarrow> bool" where
  "hasActiveSubscriptions s \<longleftrightarrow> sb_active s \<noteq> []"

datatype fetched = From_cache "json list" | Of_request nat

definition fetchActiveSubscriptions :: "bool \<Rightarrow> rat \<Rightarrow> subscriptions \<Rightarrow> fetched \<times> subscriptions" where
  "fetchActiveSubscriptions force now s =
     (if \<not> force \<and> sb_loaded s \<and> (case sb_fetchedAt s of None \<Rightarrow> False | Some t \<Rightarrow> t \<noteq> 0 \<and> now - t < CACHE_TTL_MS)
      then (From_cache (sb_active s), s)
      else if sb_promise s \<noteq> None \<and> \<not> force then (Of_request (the (sb_promise s)), s)
      else (let g = sb_generation s + 1
            in (Of_request g, s\<lparr>sb_generation := g, sb_loading := True, sb_promise := Some g, sb_requests := sb_requests s @ [g]\<rparr>)))"

text \<open>The end of a request, with the answer or, as \<open>None\<close>, with an error.\<close>

definition subscriptionsAnswered :: "nat \<Rightarrow> rat \<times> json list option \<Rightarrow> subscriptions \<Rightarrow> subscriptions" where
  "subscriptionsAnswered g answer s =
     (let s1 = (case answer of
            (now, Some data) \<Rightarrow> if g = sb_generation s then s\<lparr>sb_active := data, sb_loaded := True, sb_fetchedAt := Some now\<rparr> else s
          | (now, None) \<Rightarrow> s);
          s2 = (if sb_promise s1 = Some g then s1\<lparr>sb_loading := False, sb_promise := None\<rparr> else s1)
      in s2\<lparr>sb_requests := removeAll g (sb_requests s2)\<rparr>)"

definition startPolling :: "subscriptions \<Rightarrow> subscriptions" where
  "startPolling s = (if sb_polling s then s else s\<lparr>sb_polling := True\<rparr>)"

definition stopPolling :: "subscriptions \<Rightarrow> subscriptions" where
  "stopPolling s = (if sb_polling s then s\<lparr>sb_polling := False\<rparr> else s)"

definition clear_subscriptions :: "subscriptions \<Rightarrow> subscriptions" where
  "clear_subscriptions s = stopPolling (s\<lparr>sb_generation := sb_generation s + 1, sb_promise := None, sb_loading := False,
     sb_active := [], sb_loaded := False, sb_fetchedAt := None\<rparr>)"

definition invalidateCache :: "subscriptions \<Rightarrow> subscriptions" where
  "invalidateCache s = s\<lparr>sb_fetchedAt := None\<rparr>"

inductive subscriptions_step :: "subscriptions \<Rightarrow> subscriptions \<Rightarrow> bool" where
  sb_fetch: "subscriptions_step s (snd (fetchActiveSubscriptions force now s))"
| sb_poll: "sb_polling s \<Longrightarrow> subscriptions_step s (snd (fetchActiveSubscriptions True now s))"
| sb_answer: "g \<in> set (sb_requests s) \<Longrightarrow> subscriptions_step s (subscriptionsAnswered g answer s)"
| sb_start: "subscriptions_step s (startPolling s)"
| sb_stop: "subscriptions_step s (stopPolling s)"
| sb_clear: "subscriptions_step s (clear_subscriptions s)"
| sb_invalidate: "subscriptions_step s (invalidateCache s)"


lemma fetch_state:
  "snd (fetchActiveSubscriptions force now s) = s
   \<or> snd (fetchActiveSubscriptions force now s) = s\<lparr>sb_generation := sb_generation s + 1, sb_loading := True,
       sb_promise := Some (sb_generation s + 1), sb_requests := sb_requests s @ [sb_generation s + 1]\<rparr>"
  by (simp add: fetchActiveSubscriptions_def Let_def)

lemma answered_fields:
  "sb_generation (subscriptionsAnswered g answer s) = sb_generation s"
  "sb_requests (subscriptionsAnswered g answer s) = removeAll g (sb_requests s)"
  "sb_promise (subscriptionsAnswered g answer s) = (if sb_promise s = Some g then None else sb_promise s)"
  "sb_loading (subscriptionsAnswered g answer s) = (if sb_promise s = Some g then False else sb_loading s)"
  "sb_polling (subscriptionsAnswered g answer s) = sb_polling s"
  by (cases answer; cases "snd answer"; simp add: subscriptionsAnswered_def Let_def)+

lemmas subscription_operations = startPolling_def stopPolling_def clear_subscriptions_def invalidateCache_def

lemma subscriptions_step_fields:
  assumes "subscriptions_step s s'"
  shows "sb_generation s \<le> sb_generation s'" "set (sb_requests s') \<subseteq> set (sb_requests s) \<union> {sb_generation s'}"
  using assms
proof (induction rule: subscriptions_step.induct)
  case (sb_fetch s force now)
  { case 1 then show ?case using fetch_state [of force now s] by auto }
  { case 2 then show ?case using fetch_state [of force now s] by auto }
next
  case (sb_poll s now)
  { case 1 then show ?case using fetch_state [of True now s] by auto }
  { case 2 then show ?case using fetch_state [of True now s] by auto }
qed (auto simp: subscription_operations answered_fields)

definition subscriptions_shown :: "subscriptions \<Rightarrow> json list \<times> bool \<times> rat option" where
  "subscriptions_shown s = (sb_active s, sb_loaded s, sb_fetchedAt s)"

interpretation sub: generations no_subscriptions subscriptions_step sb_generation sb_requests clear_subscriptions
  subscriptionsAnswered subscriptions_shown
proof unfold_locales
  show "sb_requests no_subscriptions = []" by (simp add: no_subscriptions_def)
  show "sb_generation s \<le> sb_generation s'" if "subscriptions_step s s'" for s s'
    using that by (rule subscriptions_step_fields)
  show "set (sb_requests s') \<subseteq> set (sb_requests s) \<union> {sb_generation s'}" if "subscriptions_step s s'" for s s'
    using that by (rule subscriptions_step_fields)
  show "sb_generation s < sb_generation (clear_subscriptions s)" for s by (simp add: subscription_operations)
  show "subscriptions_shown (subscriptionsAnswered g a s) = subscriptions_shown s" if "g \<noteq> sb_generation s" for g a s
    using that by (cases a; cases "snd a") (auto simp: subscriptionsAnswered_def subscriptions_shown_def Let_def)
qed

text \<open>The store is loading exactly while the promise that callers join is outstanding, and that is always the latest request.\<close>

definition loading_ok :: "subscriptions \<Rightarrow> bool" where
  "loading_ok s \<longleftrightarrow> (sb_loading s \<longleftrightarrow> sb_promise s \<noteq> None) \<and> (\<forall>g. sb_promise s = Some g \<longrightarrow> g = sb_generation s \<and> g \<in> set (sb_requests s))"

lemma loading_ok_reachable: "subscriptions_step\<^sup>*\<^sup>* no_subscriptions s \<Longrightarrow> loading_ok s"
proof (induction rule: rtranclp_induct)
  case base
  then show ?case by (simp add: loading_ok_def no_subscriptions_def)
next
  case (step s s')
  from step.hyps(2) step.IH show ?case
  proof (induction rule: subscriptions_step.induct)
    case (sb_fetch s force now)
    then show ?case using fetch_state [of force now s] by (auto simp: loading_ok_def)
  next
    case (sb_poll s now)
    then show ?case using fetch_state [of True now s] by (auto simp: loading_ok_def)
  qed (auto simp: loading_ok_def subscription_operations answered_fields)
qed

section \<open>The acknowledgement of an administrator\<close>

record compliance_status =
  cs_required :: bool
  cs_version :: string
  cs_document_path_zh :: string
  cs_document_path_en :: string
  cs_document_url_zh :: string
  cs_document_url_en :: string
  cs_ack_phrase_zh :: string
  cs_ack_phrase_en :: string
  cs_acknowledgement :: "json option"

text \<open>The outstanding requests are known by the version at which they began.\<close>

record compliance =
  cp_status :: "compliance_status option"
  cp_loading :: bool
  cp_submitting :: bool
  cp_initialized :: bool
  cp_forceVisible :: bool
  cp_version :: nat
  cp_requests :: "nat list"

definition no_compliance :: compliance where
  "no_compliance = \<lparr>cp_status = None, cp_loading = False, cp_submitting = False, cp_initialized = False, cp_forceVisible = False,
     cp_version = 0, cp_requests = []\<rparr>"

definition compliance_required :: "compliance \<Rightarrow> bool" where
  "compliance_required c \<longleftrightarrow> (case cp_status c of None \<Rightarrow> False | Some s \<Rightarrow> cs_required s)"

definition shouldShow :: "compliance \<Rightarrow> bool" where
  "shouldShow c \<longleftrightarrow> compliance_required c \<or> cp_forceVisible c"

text \<open>The phrases to repeat; the Chinese fallback is a parameter, as it is no text of the model.\<close>

definition FALLBACK_EN_PHRASE :: string where
  "FALLBACK_EN_PHRASE = ''I have read, understood, and agree to the Sub2API Deployment and Operation Compliance Commitment''"

definition or_text :: "string \<Rightarrow> string \<Rightarrow> string" where
  "or_text a b = (if a = '''' then b else a)"

definition expectedPhrase :: "string \<Rightarrow> string \<Rightarrow> compliance \<Rightarrow> string" where
  "expectedPhrase fallback_zh locale c =
     (if locale = ''zh'' then (case cp_status c of None \<Rightarrow> fallback_zh | Some s \<Rightarrow> or_text (cs_ack_phrase_zh s) fallback_zh)
      else (case cp_status c of None \<Rightarrow> FALLBACK_EN_PHRASE | Some s \<Rightarrow> or_text (cs_ack_phrase_en s) FALLBACK_EN_PHRASE))"

definition fetchStatus :: "compliance \<Rightarrow> compliance" where
  "fetchStatus c = c\<lparr>cp_loading := True, cp_requests := cp_requests c @ [cp_version c]\<rparr>"

definition accept_compliance :: "compliance \<Rightarrow> compliance" where
  "accept_compliance c = c\<lparr>cp_submitting := True, cp_requests := cp_requests c @ [cp_version c]\<rparr>"

text \<open>The answers of the two requests; \<open>None\<close> is an error.\<close>

datatype compliance_answer = Status_answer "compliance_status option" | Accept_answer "compliance_status option"

definition complianceAnswered :: "nat \<Rightarrow> compliance_answer \<Rightarrow> compliance \<Rightarrow> compliance" where
  "complianceAnswered v answer c =
     (let c1 = c\<lparr>cp_requests := remove1 v (cp_requests c)\<rparr>
      in if v \<noteq> cp_version c then c1
         else (case answer of
           Status_answer (Some s) \<Rightarrow> c1\<lparr>cp_status := Some s, cp_initialized := True, cp_forceVisible := cs_required s, cp_loading := False\<rparr>
         | Status_answer None \<Rightarrow> c1\<lparr>cp_loading := False\<rparr>
         | Accept_answer (Some s) \<Rightarrow> c1\<lparr>cp_status := Some s, cp_forceVisible := cs_required s, cp_submitting := False\<rparr>
         | Accept_answer None \<Rightarrow> c1\<lparr>cp_submitting := False\<rparr>))"

text \<open>\<^verbatim>\<open>partial?.x || status?.x || fallback\<close>; the metadata of the error is a list of named texts.\<close>

definition first_text :: "(string \<times> string) list \<Rightarrow> string \<Rightarrow> string option \<Rightarrow> string \<Rightarrow> string" where
  "first_text m k old fallback = (case map_of m k of
     Some t \<Rightarrow> if t = '''' then (case old of None \<Rightarrow> fallback | Some u \<Rightarrow> or_text u fallback) else t
   | None \<Rightarrow> (case old of None \<Rightarrow> fallback | Some u \<Rightarrow> or_text u fallback))"

definition requireAcknowledgement :: "string \<Rightarrow> (string \<times> string) list \<Rightarrow> compliance \<Rightarrow> compliance" where
  "requireAcknowledgement fallback_zh m c =
     (let old = cp_status c;
          blob = ''https://github.com/Wei-Shaw/sub2api/blob/main/docs/legal/admin-compliance.''
      in c\<lparr>cp_status := Some \<lparr>cs_required = True,
             cs_version = first_text m ''version'' (map_option cs_version old) ''v2026.06.10'',
             cs_document_path_zh = first_text m ''document_path_zh'' (map_option cs_document_path_zh old) ''docs/legal/admin-compliance.zh.md'',
             cs_document_path_en = first_text m ''document_path_en'' (map_option cs_document_path_en old) ''docs/legal/admin-compliance.en.md'',
             cs_document_url_zh = first_text m ''document_url_zh'' (map_option cs_document_url_zh old) (blob @ ''zh.md''),
             cs_document_url_en = first_text m ''document_url_en'' (map_option cs_document_url_en old) (blob @ ''en.md''),
             cs_ack_phrase_zh = first_text m ''ack_phrase_zh'' (map_option cs_ack_phrase_zh old) fallback_zh,
             cs_ack_phrase_en = first_text m ''ack_phrase_en'' (map_option cs_ack_phrase_en old) FALLBACK_EN_PHRASE,
             cs_acknowledgement = Option.bind old cs_acknowledgement\<rparr>,
           cp_initialized := True, cp_forceVisible := True\<rparr>)"

definition reset_compliance :: "compliance \<Rightarrow> compliance" where
  "reset_compliance c = c\<lparr>cp_version := cp_version c + 1, cp_status := None, cp_loading := False, cp_submitting := False,
     cp_initialized := False, cp_forceVisible := False\<rparr>"

inductive compliance_step :: "string \<Rightarrow> compliance \<Rightarrow> compliance \<Rightarrow> bool" for fallback_zh where
  cp_fetch: "compliance_step fallback_zh c (fetchStatus c)"
| cp_accept: "compliance_step fallback_zh c (accept_compliance c)"
| cp_answer: "v \<in> set (cp_requests c) \<Longrightarrow> compliance_step fallback_zh c (complianceAnswered v answer c)"
| cp_require: "compliance_step fallback_zh c (requireAcknowledgement fallback_zh m c)"
| cp_reset: "compliance_step fallback_zh c (reset_compliance c)"

definition compliance_shown :: "compliance \<Rightarrow> compliance_status option \<times> bool \<times> bool \<times> bool \<times> bool" where
  "compliance_shown c = (cp_status c, cp_initialized c, cp_forceVisible c, cp_loading c, cp_submitting c)"

lemma complianceAnswered_fields:
  "cp_version (complianceAnswered v a c) = cp_version c" "cp_requests (complianceAnswered v a c) = remove1 v (cp_requests c)"
  by (cases a; simp add: complianceAnswered_def Let_def split: option.split)+

lemma compliance_step_fields:
  assumes "compliance_step fallback_zh c c'"
  shows "cp_version c \<le> cp_version c'" "set (cp_requests c') \<subseteq> set (cp_requests c) \<union> {cp_version c'}"
  using assms by (induction rule: compliance_step.induct)
    (auto simp: fetchStatus_def accept_compliance_def requireAcknowledgement_def reset_compliance_def Let_def complianceAnswered_fields
      dest: notin_set_remove1)

interpretation compl: generations no_compliance "compliance_step fallback_zh" cp_version cp_requests reset_compliance
  complianceAnswered compliance_shown
proof unfold_locales
  show "cp_requests no_compliance = []" by (simp add: no_compliance_def)
  show "cp_version c < cp_version (reset_compliance c)" for c by (simp add: reset_compliance_def)
  show "compliance_shown (complianceAnswered v a c) = compliance_shown c" if "v \<noteq> cp_version c" for v a c
    using that by (simp add: complianceAnswered_def compliance_shown_def Let_def)
qed (rule compliance_step_fields; assumption)+

section \<open>Announcements\<close>

definition THROTTLE_MS :: rat where "THROTTLE_MS = 1200000"

record announcement =
  an_id :: int
  an_popup :: bool
  an_read :: bool

text \<open>
  The set \<open>shownPopupIds\<close> is the list of its elements. \<open>an_batch\<close> is the generation whose answer the list is, so that
  a later change to an object of an older list is told apart; \<open>an_timers\<close> counts the timeouts of \<open>dismissPopup\<close>.
\<close>

record announcements =
  an_list :: "announcement list"
  an_batch :: nat
  an_loading :: bool
  an_lastFetch :: rat
  an_queue :: "announcement list"
  an_current :: "announcement option"
  an_shownIds :: "int list"
  an_generation :: nat
  an_requests :: "nat list"
  an_timers :: nat

definition no_announcements :: announcements where
  "no_announcements = \<lparr>an_list = [], an_batch = 0, an_loading = False, an_lastFetch = 0, an_queue = [], an_current = None,
     an_shownIds = [], an_generation = 0, an_requests = [], an_timers = 0\<rparr>"

definition unreadCount :: "announcements \<Rightarrow> nat" where
  "unreadCount s = length (filter (\<lambda>a. \<not> an_read a) (an_list s))"

definition fetchAnnouncements :: "bool \<Rightarrow> rat \<Rightarrow> announcements \<Rightarrow> announcements" where
  "fetchAnnouncements force now s =
     (if \<not> force \<and> 0 < an_lastFetch s \<and> now - an_lastFetch s < THROTTLE_MS then s
      else (let g = an_generation s + 1
            in s\<lparr>an_lastFetch := now, an_generation := g, an_loading := True, an_requests := an_requests s @ [g]\<rparr>))"

definition showNextPopup :: "announcements \<Rightarrow> announcements" where
  "showNextPopup s = (case an_queue s of
     [] \<Rightarrow> s\<lparr>an_current := None\<rparr>
   | p # ps \<Rightarrow> s\<lparr>an_current := Some p, an_queue := ps, an_shownIds := List.insert (an_id p) (an_shownIds s)\<rparr>)"

definition push_popup :: "announcement \<Rightarrow> announcement list \<Rightarrow> announcement list" where
  "push_popup p q = (if list_ex (\<lambda>a. an_id a = an_id p) q then q else q @ [p])"

definition enqueueNewPopups :: "announcements \<Rightarrow> announcements" where
  "enqueueNewPopups s =
     (let new = filter (\<lambda>a. an_popup a \<and> \<not> an_read a \<and> an_id a \<notin> set (an_shownIds s)) (an_list s);
          s1 = s\<lparr>an_queue := fold push_popup new (an_queue s)\<rparr>
      in if new = [] then s else if an_current s1 = None then showNextPopup s1 else s1)"

text \<open>The answer of the list; \<open>None\<close> is an error.\<close>

definition announcementsAnswered :: "nat \<Rightarrow> announcement list option \<Rightarrow> announcements \<Rightarrow> announcements" where
  "announcementsAnswered g answer s =
     (let s1 = s\<lparr>an_requests := removeAll g (an_requests s)\<rparr>
      in if g \<noteq> an_generation s then s1
         else (case answer of
           Some all \<Rightarrow> (enqueueNewPopups (s1\<lparr>an_list := take 20 all, an_batch := g\<rparr>))\<lparr>an_loading := False\<rparr>
         | None \<Rightarrow> s1\<lparr>an_lastFetch := 0, an_loading := False\<rparr>))"

text \<open>\<open>dismissPopup\<close> also asks to mark the popup as read; the answer is \<open>markedAsRead\<close>.\<close>

definition dismissPopup :: "announcements \<Rightarrow> int option \<times> announcements" where
  "dismissPopup s = (case an_current s of
     None \<Rightarrow> (None, s)
   | Some p \<Rightarrow> (Some (an_id p), s\<lparr>an_current := None, an_timers := (if an_queue s = [] then an_timers s else an_timers s + 1)\<rparr>))"

definition popupTimerFires :: "announcements \<Rightarrow> announcements" where
  "popupTimerFires s = showNextPopup (s\<lparr>an_timers := an_timers s - 1\<rparr>)"

fun mark_first :: "int \<Rightarrow> announcement list \<Rightarrow> announcement list" where
  "mark_first i [] = []"
| "mark_first i (a # as) = (if an_id a = i then a\<lparr>an_read := True\<rparr> # as else a # mark_first i as)"

definition markedAsRead :: "int \<Rightarrow> announcements \<Rightarrow> announcements" where
  "markedAsRead i s = s\<lparr>an_list := mark_first i (an_list s)\<rparr>"

text \<open>
  \<open>markAllAsRead\<close>: the unread positions of the present list, for each of which a request is sent; the object at a
  position is changed when its request is answered, and shows if it is still in the list; then the end.
\<close>

definition markAllAsRead :: "announcements \<Rightarrow> nat list \<times> announcements" where
  "markAllAsRead s = (let unread = filter (\<lambda>i. \<not> an_read (an_list s ! i)) [0..<length (an_list s)]
     in if unread = [] then ([], s) else (unread, s\<lparr>an_loading := True\<rparr>))"

definition markedPosition :: "nat \<Rightarrow> nat \<Rightarrow> announcements \<Rightarrow> announcements" where
  "markedPosition batch i s = (if batch = an_batch s \<and> i < length (an_list s)
     then s\<lparr>an_list := (an_list s)[i := (an_list s ! i)\<lparr>an_read := True\<rparr>]\<rparr> else s)"

definition markAllEnds :: "announcements \<Rightarrow> announcements" where
  "markAllEnds s = s\<lparr>an_loading := False\<rparr>"

definition reset_announcements :: "announcements \<Rightarrow> announcements" where
  "reset_announcements s = s\<lparr>an_generation := an_generation s + 1, an_list := [], an_lastFetch := 0, an_shownIds := [],
     an_queue := [], an_current := None, an_loading := False\<rparr>"

inductive announcements_step :: "announcements \<Rightarrow> announcements \<Rightarrow> bool" where
  an_fetch: "announcements_step s (fetchAnnouncements force now s)"
| an_answer: "g \<in> set (an_requests s) \<Longrightarrow> announcements_step s (announcementsAnswered g answer s)"
| an_dismiss: "announcements_step s (snd (dismissPopup s))"
| an_timer: "0 < an_timers s \<Longrightarrow> announcements_step s (popupTimerFires s)"
| an_marked: "announcements_step s (markedAsRead i s)"
| an_mark_all: "announcements_step s (snd (markAllAsRead s))"
| an_position: "announcements_step s (markedPosition batch i s)"
| an_mark_end: "announcements_step s (markAllEnds s)"
| an_reset: "announcements_step s (reset_announcements s)"

lemmas announcement_operations = dismissPopup_def popupTimerFires_def markedAsRead_def markAllAsRead_def markedPosition_def
  markAllEnds_def reset_announcements_def

lemma showNextPopup_fields [simp]:
  "an_generation (showNextPopup s) = an_generation s" "an_requests (showNextPopup s) = an_requests s"
  "an_list (showNextPopup s) = an_list s" "an_timers (showNextPopup s) = an_timers s"
  by (simp_all add: showNextPopup_def split: list.split)

lemma enqueue_fields [simp]:
  "an_generation (enqueueNewPopups s) = an_generation s" "an_requests (enqueueNewPopups s) = an_requests s"
  by (simp_all add: enqueueNewPopups_def Let_def)

lemma announcementsAnswered_fields:
  "an_generation (announcementsAnswered g a s) = an_generation s" "an_requests (announcementsAnswered g a s) = removeAll g (an_requests s)"
  by (cases a; simp add: announcementsAnswered_def Let_def)+

lemma announcements_step_fields:
  assumes "announcements_step s s'"
  shows "an_generation s \<le> an_generation s'" "set (an_requests s') \<subseteq> set (an_requests s) \<union> {an_generation s'}"
  using assms by (induction rule: announcements_step.induct)
    (auto simp: fetchAnnouncements_def announcementsAnswered_fields announcement_operations Let_def split: option.split)

text \<open>All that the user sees, and the time of the throttle.\<close>

definition announcements_shown :: "announcements \<Rightarrow> announcement list \<times> announcement list \<times> announcement option \<times> int list \<times> bool \<times> rat" where
  "announcements_shown s = (an_list s, an_queue s, an_current s, an_shownIds s, an_loading s, an_lastFetch s)"

interpretation ann: generations no_announcements announcements_step an_generation an_requests reset_announcements
  announcementsAnswered announcements_shown
proof unfold_locales
  show "an_requests no_announcements = []" by (simp add: no_announcements_def)
  show "an_generation s < an_generation (reset_announcements s)" for s by (simp add: reset_announcements_def)
  show "announcements_shown (announcementsAnswered g a s) = announcements_shown s" if "g \<noteq> an_generation s" for g a s
    using that by (simp add: announcementsAnswered_def announcements_shown_def Let_def)
qed (rule announcements_step_fields; assumption)+

section \<open>Results\<close>

text \<open>
  An answer to a request that began before a reset, the sign-out of the user it was sent for, changes nothing that
  the stores show, whatever happens between the reset and the answer: neither the subscriptions,
  nor the acknowledgement, nor the announcements of another session come back.
\<close>

theorem answers_of_earlier_sessions_are_dropped:
  assumes "subscriptions_step\<^sup>*\<^sup>* no_subscriptions s" "g \<in> set (sb_requests s)" "subscriptions_step\<^sup>*\<^sup>* (clear_subscriptions s) s'"
    and "(compliance_step zh)\<^sup>*\<^sup>* no_compliance c" "v \<in> set (cp_requests c)" "(compliance_step zh)\<^sup>*\<^sup>* (reset_compliance c) c'"
    and "announcements_step\<^sup>*\<^sup>* no_announcements a" "h \<in> set (an_requests a)" "announcements_step\<^sup>*\<^sup>* (reset_announcements a) a'"
  shows "subscriptions_shown (subscriptionsAnswered g x s') = subscriptions_shown s'
    \<and> compliance_shown (complianceAnswered v y c') = compliance_shown c'
    \<and> announcements_shown (announcementsAnswered h z a') = announcements_shown a'"
  using sub.earlier_answer_dropped [OF assms(1-3)] compl.earlier_answer_dropped [OF assms(4-6)] ann.earlier_answer_dropped [OF assms(7-9)]
  by blast

theorem answers_of_earlier_sessions_are_dropped_witness:
  "subscriptions_shown (subscriptionsAnswered 1 (5, Some [JNull]) (clear_subscriptions (snd (fetchActiveSubscriptions False 0 no_subscriptions))))
     = ([], False, None)
   \<and> cp_status (complianceAnswered 0 (Status_answer None) (reset_compliance (fetchStatus no_compliance))) = None
   \<and> an_list (announcementsAnswered 1 (Some [\<lparr>an_id = 1, an_popup = True, an_read = False\<rparr>])
       (reset_announcements (fetchAnnouncements False 9 no_announcements))) = []"
proof -
  let ?s = "snd (fetchActiveSubscriptions False 0 no_subscriptions)" and ?c = "fetchStatus no_compliance"
    and ?a = "fetchAnnouncements False 9 no_announcements"
  have s: "subscriptions_step\<^sup>*\<^sup>* no_subscriptions ?s" "1 \<in> set (sb_requests ?s)"
    using sb_fetch by (blast, simp add: fetchActiveSubscriptions_def no_subscriptions_def Let_def)
  have c: "(compliance_step [])\<^sup>*\<^sup>* no_compliance ?c" "0 \<in> set (cp_requests ?c)"
    using cp_fetch by (blast, simp add: fetchStatus_def no_compliance_def)
  have a: "announcements_step\<^sup>*\<^sup>* no_announcements ?a" "1 \<in> set (an_requests ?a)"
    using an_fetch by (blast, simp add: fetchAnnouncements_def no_announcements_def Let_def)
  have "subscriptions_shown (subscriptionsAnswered 1 (5, Some [JNull]) (clear_subscriptions ?s)) = subscriptions_shown (clear_subscriptions ?s)
    \<and> compliance_shown (complianceAnswered 0 (Status_answer None) (reset_compliance ?c)) = compliance_shown (reset_compliance ?c)
    \<and> announcements_shown (announcementsAnswered 1 (Some [\<lparr>an_id = 1, an_popup = True, an_read = False\<rparr>]) (reset_announcements ?a))
      = announcements_shown (reset_announcements ?a)"
    by (rule answers_of_earlier_sessions_are_dropped [OF s rtranclp.rtrancl_refl c rtranclp.rtrancl_refl a rtranclp.rtrancl_refl])
  then show ?thesis
    by (simp add: subscriptions_shown_def compliance_shown_def announcements_shown_def subscription_operations reset_compliance_def reset_announcements_def)
qed

text \<open>Each popup shows once.\<close>

definition popups_ok :: "announcements \<Rightarrow> bool" where
  "popups_ok s \<longleftrightarrow> distinct (map an_id (an_queue s)) \<and> (\<forall>p \<in> set (an_queue s). an_id p \<notin> set (an_shownIds s))"

lemma popups_ok_push:
  assumes "distinct (map an_id q)"
  shows "distinct (map an_id (fold push_popup new q)) \<and> set (fold push_popup new q) \<subseteq> set q \<union> set new"
  using assms
proof (induction new arbitrary: q)
  case (Cons p new)
  have "distinct (map an_id (push_popup p q))" using Cons.prems by (auto simp: push_popup_def list_ex_iff)
  from Cons.IH [OF this] show ?case by (auto simp: push_popup_def split: if_splits)
qed simp

lemma popups_ok_fold:
  assumes "popups_ok s" "\<And>p. p \<in> set new \<Longrightarrow> an_id p \<notin> set (an_shownIds s)"
  shows "popups_ok (s\<lparr>an_queue := fold push_popup new (an_queue s)\<rparr>)"
proof -
  have "distinct (map an_id (an_queue s))" using assms(1) by (simp add: popups_ok_def)
  from popups_ok_push [OF this, of new] assms show ?thesis unfolding popups_ok_def by (simp, blast)
qed

lemma popups_ok_next: "popups_ok s \<Longrightarrow> popups_ok (showNextPopup s)"
  by (cases "an_queue s") (auto simp: popups_ok_def showNextPopup_def, metis imageI)

lemma next_popup_is_new: "popups_ok s \<Longrightarrow> an_current (showNextPopup s) = Some p \<Longrightarrow> an_id p \<notin> set (an_shownIds s)"
  by (auto simp: popups_ok_def showNextPopup_def split: list.splits)

lemma popups_ok_enqueue:
  assumes "popups_ok s"
  shows "popups_ok (enqueueNewPopups s)"
    and "an_current (enqueueNewPopups s) = an_current s
      \<or> (\<forall>p. an_current (enqueueNewPopups s) = Some p \<longrightarrow> an_id p \<notin> set (an_shownIds s))"
proof -
  define new where "new = filter (\<lambda>a. an_popup a \<and> \<not> an_read a \<and> an_id a \<notin> set (an_shownIds s)) (an_list s)"
  define t where "t = s\<lparr>an_queue := fold push_popup new (an_queue s)\<rparr>"
  have "popups_ok t" unfolding t_def by (rule popups_ok_fold [OF assms]) (simp add: new_def)
  moreover have "an_current t = an_current s" "an_shownIds t = an_shownIds s" by (simp_all add: t_def)
  moreover have "enqueueNewPopups s = (if new = [] then s else if an_current t = None then showNextPopup t else t)"
    unfolding enqueueNewPopups_def Let_def t_def new_def by (rule refl)
  then have "enqueueNewPopups s = s \<or> enqueueNewPopups s = t \<or> enqueueNewPopups s = showNextPopup t" by presburger
  ultimately consider "enqueueNewPopups s = s"
    | t where "popups_ok t" "an_current t = an_current s" "an_shownIds t = an_shownIds s" "enqueueNewPopups s = t \<or> enqueueNewPopups s = showNextPopup t"
    by blast
  then have "popups_ok (enqueueNewPopups s) \<and> (an_current (enqueueNewPopups s) = an_current s
      \<or> (\<forall>p. an_current (enqueueNewPopups s) = Some p \<longrightarrow> an_id p \<notin> set (an_shownIds s)))"
  proof cases
    case 1
    then show ?thesis using assms by simp
  next
    case (2 t)
    then show ?thesis using popups_ok_next [of t] next_popup_is_new [of t] by metis
  qed
  then show "popups_ok (enqueueNewPopups s)" "an_current (enqueueNewPopups s) = an_current s
      \<or> (\<forall>p. an_current (enqueueNewPopups s) = Some p \<longrightarrow> an_id p \<notin> set (an_shownIds s))" by blast+
qed

lemma popups_ok_cong: "an_queue s' = an_queue s \<Longrightarrow> an_shownIds s' = an_shownIds s \<Longrightarrow> popups_ok s' = popups_ok s"
  by (simp add: popups_ok_def)

definition new_popup :: "announcements \<Rightarrow> announcements \<Rightarrow> bool" where
  "new_popup s s' \<longleftrightarrow> an_current s' \<noteq> an_current s \<and> an_current s' \<noteq> None"

lemma announcements_step_popups:
  assumes "announcements_step s s'" "popups_ok s"
  shows "popups_ok s' \<and> (new_popup s s' \<longrightarrow> an_id (the (an_current s')) \<notin> set (an_shownIds s))"
  using assms
proof (induction rule: announcements_step.induct)
  case (an_answer g s answer)
  show ?case
  proof (cases "g = an_generation s \<and> answer \<noteq> None")
    case True
    then obtain all where all: "answer = Some all" by blast
    let ?s = "s\<lparr>an_requests := removeAll g (an_requests s), an_list := take 20 all, an_batch := g\<rparr>"
    have ok: "popups_ok ?s" using an_answer.prems by (simp add: popups_ok_def)
    have "announcementsAnswered g answer s = (enqueueNewPopups ?s)\<lparr>an_loading := False\<rparr>"
      using True all by (simp add: announcementsAnswered_def Let_def)
    then show ?thesis using popups_ok_enqueue [OF ok] by (auto simp: new_popup_def popups_ok_def)
  next
    case False
    then show ?thesis using an_answer.prems
      by (cases answer) (auto simp: announcementsAnswered_def Let_def new_popup_def popups_ok_def)
  qed
next
  case (an_timer s)
  have ok: "popups_ok (s\<lparr>an_timers := an_timers s - 1\<rparr>)" using an_timer.prems by (simp add: popups_ok_def)
  show ?case using popups_ok_next [OF ok] next_popup_is_new [OF ok] by (auto simp: popupTimerFires_def new_popup_def)
qed (auto simp: fetchAnnouncements_def announcement_operations Let_def new_popup_def popups_ok_def split: option.splits)


definition three_popups :: "announcement list" where
  "three_popups = map (\<lambda>i. \<lparr>an_id = i, an_popup = True, an_read = False\<rparr>) [1, 2, 3]"

definition first_popup :: announcements where
  "first_popup = announcementsAnswered 1 (Some three_popups) (fetchAnnouncements False 9 no_announcements)"


text \<open>
  A popup that nobody dismissed is replaced: the first one is dismissed, an answer arrives before the timeout
  and opens the second one, and then the timeout opens the third one. The second one does not come back.
\<close>

definition hurried_popup :: announcements where
  "hurried_popup = announcementsAnswered 2 (Some three_popups) (fetchAnnouncements True 10 (snd (dismissPopup first_popup)))"

lemma open_popup_is_replaced:
  "map_option an_id (an_current hurried_popup) = Some 2 \<and> 0 < an_timers hurried_popup
   \<and> map_option an_id (an_current (popupTimerFires hurried_popup)) = Some 3
   \<and> an_queue (popupTimerFires hurried_popup) = [] \<and> 2 \<in> set (an_shownIds (popupTimerFires hurried_popup))"
  by code_simp

end
