(* ===== verification/Front_Router.thy ===== *)
theory Front_Router
  imports Front_Auth Front_Stores
begin

text \<open>
  \<^verbatim>\<open>router/index.ts\<close> with \<^verbatim>\<open>router/title.ts\<close> and \<^verbatim>\<open>router/setupRedirect.ts\<close>: the pages of the web console and the
  guard in front of them. Vue Router, which finds the route of a path, is a parameter: a location comes with
  its route; of the router only the lookup of a literal path in the table is used. A call of the API is an
  argument that holds its answer, and the session does not change while the guard waits.
\<close>

section \<open>The table\<close>

record route =
  rt_path :: string
  rt_name :: string
  rt_alias :: "string option"
  rt_redirect :: "string option"
  rt_auth :: "bool option"
  rt_admin :: "bool option"
  rt_payment :: "bool option"
  rt_risk :: "bool option"
  rt_subscription :: "bool option"
  rt_title :: string
  rt_titleKey :: string
  rt_descriptionKey :: string

text \<open>A title or a key that a route does not have is the empty text, which the code treats alike.\<close>

definition page :: "string \<Rightarrow> string \<Rightarrow> bool option \<Rightarrow> bool option \<Rightarrow> string \<Rightarrow> string \<Rightarrow> string \<Rightarrow> route" where
  "page p n auth admin t k d = \<lparr>rt_path = p, rt_name = n, rt_alias = None, rt_redirect = None, rt_auth = auth, rt_admin = admin,
     rt_payment = None, rt_risk = None, rt_subscription = None, rt_title = t, rt_titleKey = k, rt_descriptionKey = d\<rparr>"

definition alias_route :: "string \<Rightarrow> string \<Rightarrow> route" where
  "alias_route p target = (page p [] None None [] [] [])\<lparr>rt_redirect := Some target\<rparr>"

definition public_routes :: "route list" where
  "public_routes = [
     page ''/setup'' ''Setup'' (Some False) None ''Setup'' '''' '''',
     page ''/home'' ''Home'' (Some False) None ''Home'' '''' '''',
     page ''/login'' ''Login'' (Some False) None ''Login'' ''home.login'' '''',
     page ''/register'' ''Register'' (Some False) None ''Register'' ''auth.createAccount'' '''',
     page ''/email-verify'' ''EmailVerify'' (Some False) None ''Verify Email'' '''' '''',
     (page ''/auth/callback'' ''OAuthCallback'' (Some False) None ''OAuth Callback'' ''auth.oauthCallbackPageTitle'' '''')\<lparr>rt_alias := Some ''/auth/oauth/callback''\<rparr>,
     page ''/auth/linuxdo/callback'' ''LinuxDoOAuthCallback'' (Some False) None ''LinuxDo OAuth Callback'' ''auth.linuxdoCallbackPageTitle'' '''',
     page ''/auth/wechat/callback'' ''WeChatOAuthCallback'' (Some False) None ''WeChat OAuth Callback'' ''auth.wechatCallbackPageTitle'' '''',
     page ''/auth/wechat/payment/callback'' ''WeChatPaymentOAuthCallback'' (Some False) None ''WeChat Payment Callback'' ''auth.wechatPaymentCallbackPageTitle'' '''',
     page ''/auth/dingtalk/callback'' ''DingTalkOAuthCallback'' (Some False) None ''DingTalk OAuth Callback'' ''auth.dingtalkCallbackPageTitle'' '''',
     page ''/auth/dingtalk/email-completion'' ''dingtalk-email-completion'' (Some False) None ''DingTalk Email Completion'' '''' '''',
     page ''/auth/oidc/callback'' ''OIDCOAuthCallback'' (Some False) None ''OIDC OAuth Callback'' ''auth.oidcCallbackPageTitle'' '''',
     page ''/forgot-password'' ''ForgotPassword'' (Some False) None ''Forgot Password'' ''auth.forgotPasswordTitle'' '''',
     page ''/reset-password'' ''ResetPassword'' (Some False) None ''Reset Password'' '''' '''',
     page ''/key-usage'' ''KeyUsage'' (Some False) None ''Key Usage'' '''' '''']"

definition information_routes :: "route list" where
  "information_routes = [
     page ''/docs'' ''Docs'' (Some False) None ''Docs'' ''nav.docs'' '''',
     page ''/legal/:documentId'' ''LegalDocument'' (Some False) None ''Legal Document'' '''' '''',
     page ''/model-plaza'' ''ModelPlaza'' (Some False) None ''Model Plaza'' ''modelPlaza.title'' '''']"

definition user_routes :: "route list" where
  "user_routes = [
     alias_route ''/'' ''/home'',
     page ''/dashboard'' ''Dashboard'' (Some True) (Some False) ''Dashboard'' ''dashboard.title'' ''dashboard.welcomeMessage'',
     page ''/my-accounts'' ''MyAccounts'' (Some True) None ''My Accounts'' ''myAccounts.title'' ''myAccounts.description'',
     page ''/keys'' ''Keys'' (Some True) (Some False) ''API Keys'' ''keys.title'' ''keys.description'',
     page ''/chat'' ''ChatPlayground'' (Some True) (Some False) ''Chat Playground'' ''chatPlayground.title'' ''chatPlayground.description'',
     (page ''/batch-image'' ''BatchImageGuide'' (Some True) (Some False) ''Batch Image Guide'' ''batchImageGuide.title'' ''batchImageGuide.description'')\<lparr>rt_alias := Some ''/docs/batch-image''\<rparr>,
     page ''/usage'' ''Usage'' (Some True) (Some False) ''Usage Records'' ''usage.title'' ''usage.description'',
     page ''/redeem'' ''Redeem'' (Some True) (Some False) ''Redeem Code'' ''redeem.title'' ''redeem.description'',
     page ''/affiliate'' ''Affiliate'' (Some True) (Some False) ''Affiliate'' ''affiliate.title'' ''affiliate.description'',
     page ''/available-channels'' ''UserAvailableChannels'' (Some True) (Some False) ''Available Channels'' ''availableChannels.title'' ''availableChannels.description'',
     page ''/profile'' ''Profile'' (Some True) (Some False) ''Profile'' ''profile.title'' ''profile.description'',
     (page ''/subscriptions'' ''Subscriptions'' (Some True) (Some False) ''My Subscriptions'' ''userSubscriptions.title'' ''userSubscriptions.description'')\<lparr>rt_subscription := Some True\<rparr>,
     (page ''/purchase'' ''PurchaseSubscription'' (Some True) (Some False) ''Purchase Subscription'' ''nav.buySubscription'' ''purchase.description'')\<lparr>rt_payment := Some True\<rparr>]"

definition order_routes :: "route list" where
  "order_routes = [
     (page ''/orders'' ''OrderList'' (Some True) (Some False) ''My Orders'' ''nav.myOrders'' '''')\<lparr>rt_payment := Some True\<rparr>,
     (page ''/payment/qrcode'' ''PaymentQRCode'' (Some True) (Some False) ''Payment'' ''payment.qr.scanToPay'' '''')\<lparr>rt_payment := Some True\<rparr>,
     (page ''/payment/result'' ''PaymentResult'' (Some False) (Some False) ''Payment Result'' ''payment.result.success'' '''')\<lparr>rt_payment := Some False\<rparr>,
     (page ''/payment/stripe'' ''StripePayment'' (Some False) (Some False) ''Stripe Payment'' ''payment.stripePay'' '''')\<lparr>rt_payment := Some False\<rparr>,
     (page ''/payment/airwallex'' ''AirwallexPayment'' (Some False) (Some False) ''Airwallex Payment'' ''payment.airwallexPay'' '''')\<lparr>rt_payment := Some False\<rparr>,
     (page ''/payment/stripe-popup'' ''StripePopup'' (Some False) (Some False) ''Payment'' '''' '''')\<lparr>rt_payment := Some False\<rparr>,
     page ''/custom/:id'' ''CustomPage'' (Some True) (Some False) ''Custom Page'' ''customPage.title'' '''']"

definition admin_routes :: "route list" where
  "admin_routes = [
     alias_route ''/admin'' ''/admin/dashboard'',
     page ''/admin/dashboard'' ''AdminDashboard'' (Some True) (Some True) ''Admin Dashboard'' ''admin.dashboard.title'' ''admin.dashboard.description'',
     page ''/admin/ops'' ''AdminOps'' (Some True) (Some True) ''Ops Monitoring'' ''admin.ops.title'' ''admin.ops.description'',
     page ''/admin/audit-logs'' ''AdminAuditLogs'' (Some True) (Some True) ''Audit Logs'' ''admin.audit.title'' ''admin.audit.description'',
     page ''/admin/users'' ''AdminUsers'' (Some True) (Some True) ''User Management'' ''admin.users.title'' ''admin.users.description'',
     page ''/admin/groups'' ''AdminGroups'' (Some True) (Some True) ''Group Management'' ''admin.groups.title'' ''admin.groups.description'',
     alias_route ''/admin/channels'' ''/admin/channels/pricing'',
     page ''/admin/channels/pricing'' ''AdminChannels'' (Some True) (Some True) ''Channel Management'' ''admin.channels.title'' ''admin.channels.description'',
     page ''/admin/channels/monitor'' ''AdminChannelMonitor'' (Some True) (Some True) ''Channel Monitor'' ''admin.channelMonitor.title'' ''admin.channelMonitor.description'',
     page ''/monitor'' ''ChannelStatus'' (Some True) (Some False) ''Channel Status'' ''nav.channelStatus'' '''',
     page ''/admin/subscriptions'' ''AdminSubscriptions'' (Some True) (Some True) ''Subscription Management'' ''admin.subscriptions.title'' ''admin.subscriptions.description'',
     page ''/admin/accounts'' ''AdminAccounts'' (Some True) (Some True) ''Account Management'' ''admin.accounts.title'' ''admin.accounts.description'',
     page ''/admin/plugins'' ''AdminPlugins'' (Some True) (Some True) ''Plugin Management'' ''admin.plugins.title'' ''admin.plugins.description'']"

definition admin_record_routes :: "route list" where
  "admin_record_routes = [
     page ''/admin/announcements'' ''AdminAnnouncements'' (Some True) (Some True) ''Announcements'' ''admin.announcements.title'' ''admin.announcements.description'',
     page ''/admin/proxies'' ''AdminProxies'' (Some True) (Some True) ''Proxy Management'' ''admin.proxies.title'' ''admin.proxies.description'',
     page ''/admin/redeem'' ''AdminRedeem'' (Some True) (Some True) ''Redeem Code Management'' ''admin.redeem.title'' ''admin.redeem.description'',
     page ''/admin/promo-codes'' ''AdminPromoCodes'' (Some True) (Some True) ''Promo Code Management'' ''admin.promo.title'' ''admin.promo.description'',
     page ''/admin/settings'' ''AdminSettings'' (Some True) (Some True) ''System Settings'' ''admin.settings.title'' ''admin.settings.description'',
     (page ''/admin/risk-control'' ''AdminRiskControl'' (Some True) (Some True) ''Risk Control'' ''admin.riskControl.title'' ''admin.riskControl.description'')\<lparr>rt_risk := Some True\<rparr>,
     (page ''/admin/prompt-audit'' ''AdminPromptAudit'' (Some True) (Some True) ''Prompt Audit'' ''admin.promptAudit.title'' ''admin.promptAudit.description'')\<lparr>rt_risk := Some True\<rparr>,
     page ''/admin/vision'' ''AdminVision'' (Some True) (Some True) ''Edge Vision'' ''nav.edgeVision'' ''admin.vision.description'',
     page ''/admin/usage'' ''AdminUsage'' (Some True) (Some True) ''Usage Records'' ''admin.usage.title'' ''admin.usage.description'',
     alias_route ''/admin/affiliates'' ''/admin/affiliates/invites'',
     page ''/admin/affiliates/invites'' ''AdminAffiliateInvites'' (Some True) (Some True) ''Affiliate Invite Records'' ''nav.affiliateInviteRecords'' ''admin.affiliates.invitesDescription'',
     page ''/admin/affiliates/rebates'' ''AdminAffiliateRebates'' (Some True) (Some True) ''Affiliate Rebate Records'' ''nav.affiliateRebateRecords'' ''admin.affiliates.rebatesDescription'',
     page ''/admin/affiliates/transfers'' ''AdminAffiliateTransfers'' (Some True) (Some True) ''Affiliate Transfer Records'' ''nav.affiliateTransferRecords'' ''admin.affiliates.transfersDescription'']"

definition admin_order_routes :: "route list" where
  "admin_order_routes = [
     (page ''/admin/orders/dashboard'' ''AdminPaymentDashboard'' (Some True) (Some True) ''Payment Dashboard'' ''nav.paymentDashboard'' '''')\<lparr>rt_payment := Some True\<rparr>,
     (page ''/admin/orders'' ''AdminOrders'' (Some True) (Some True) ''Order Management'' ''nav.orderManagement'' '''')\<lparr>rt_payment := Some True\<rparr>,
     (page ''/admin/orders/plans'' ''AdminPaymentPlans'' (Some True) (Some True) ''Subscription Plans'' ''nav.paymentPlans'' '''')\<lparr>rt_payment := Some True\<rparr>]"

definition other_routes :: "route list" where
  "other_routes = [
     page ''/:pathMatch(.*)*'' ''NotFound'' None None ''404 Not Found'' '''' '''']"

definition routes :: "route list" where
  "routes = public_routes @ information_routes @ user_routes @ order_routes @ admin_routes @ admin_record_routes
     @ admin_order_routes @ other_routes"

section \<open>Titles\<close>

text \<open>\<open>t\<close> is the translation, and \<open>site\<close> the default name of the site, which is no text of the model.\<close>

definition resolveDocumentTitle :: "(string \<Rightarrow> string) \<Rightarrow> string \<Rightarrow> string \<Rightarrow> string \<Rightarrow> string \<Rightarrow> string" where
  "resolveDocumentTitle t site routeTitle siteName titleKey =
     (let name = (if trim siteName = '''' then site else trim siteName);
          fallback = (if trim routeTitle = '''' then name else trim routeTitle @ '' - '' @ name)
      in if trim titleKey = '''' then fallback
         else (let translated = t titleKey
               in if translated \<noteq> '''' \<and> translated \<noteq> titleKey then translated @ '' - '' @ name else fallback))"

definition resolveRouteMetaKeys :: "string option \<Rightarrow> route \<Rightarrow> string \<times> string" where
  "resolveRouteMetaKeys billingMode r =
     (if rt_name r = ''PurchaseSubscription'' \<and> billingMode = Some ''recharge_only'' then (''nav.recharge'', ''purchase.rechargeDescription'')
      else if rt_name r = ''PurchaseSubscription'' \<and> billingMode = Some ''subscription_only'' then (''nav.subscribe'', ''purchase.subscriptionDescription'')
      else (rt_titleKey r, rt_descriptionKey r))"

record location =
  lc_path :: string
  lc_fullPath :: string
  lc_route :: route
  lc_id :: string

text \<open>The items of the menu are pairs of an id and a label.\<close>

definition resolveRouteDocumentTitle :: "(string \<Rightarrow> string) \<Rightarrow> string \<Rightarrow> location \<Rightarrow> string \<Rightarrow> (string \<times> string) list \<Rightarrow> string option \<Rightarrow> string" where
  "resolveRouteDocumentTitle t site to siteName items billingMode =
     (let label = (if rt_name (lc_route to) = ''CustomPage'' \<and> lc_id to \<noteq> '''' then map_option trim (map_of items (lc_id to)) else None);
          key = fst (resolveRouteMetaKeys billingMode (lc_route to))
      in case label of
           Some l \<Rightarrow> if l = '''' then resolveDocumentTitle t site (rt_title (lc_route to)) siteName key else resolveDocumentTitle t site l siteName ''''
         | None \<Rightarrow> resolveDocumentTitle t site (rt_title (lc_route to)) siteName key)"

section \<open>The guard\<close>

record nav =
  nv_console :: console
  nv_initialized :: bool
  nv_loaded :: bool
  nv_settings :: "json option"
  nv_siteName :: string
  nv_admin_menu :: "(string \<times> string) list"
  nv_compliance :: compliance
  nv_title :: string

text \<open>What the calls of the API answer, if the guard makes them: \<open>None\<close> and \<open>Inl\<close> are failures.\<close>

record answers =
  aw_now :: rat
  aw_setup :: "bool option"
  aw_settings :: "json option"
  aw_compliance :: "(int option \<times> string \<times> (string \<times> string) list) + compliance_status"

datatype decision = Proceed | Redirect string | Redirect_to_login string

definition setting_is :: "nav \<Rightarrow> string \<Rightarrow> bool \<Rightarrow> bool" where
  "setting_is n k b \<longleftrightarrow> (case nv_settings n of None \<Rightarrow> False | Some s \<Rightarrow> getp s k = Some (JBool b))"

definition backendModeEnabled :: "nav \<Rightarrow> bool" where
  "backendModeEnabled n \<longleftrightarrow> (case nv_settings n of None \<Rightarrow> False | Some s \<Rightarrow> truthy (getp s ''backend_mode_enabled''))"

definition menu_item :: "json \<Rightarrow> string \<times> string" where
  "menu_item j = ((case getp j ''id'' of Some (JStr i) \<Rightarrow> i | _ \<Rightarrow> ''''), (case getp j ''label'' of Some (JStr l) \<Rightarrow> l | _ \<Rightarrow> ''''))"

definition custom_menu :: "nav \<Rightarrow> (string \<times> string) list" where
  "custom_menu n = (case nv_settings n of None \<Rightarrow> [] | Some s \<Rightarrow> (case getp s ''custom_menu_items'' of Some (JArr xs) \<Rightarrow> map menu_item xs | _ \<Rightarrow> []))"

text \<open>\<open>fetchPublicSettings\<close> of the application store, which does nothing when it fails.\<close>

definition fetchPublicSettings :: "string \<Rightarrow> json option \<Rightarrow> nav \<Rightarrow> nav" where
  "fetchPublicSettings site answer n = (if nv_loaded n then n else case answer of
     None \<Rightarrow> n
   | Some s \<Rightarrow> n\<lparr>nv_settings := Some s, nv_loaded := True, nv_siteName := (case getp s ''site_name'' of Some (JStr x) \<Rightarrow> or_text x site | _ \<Rightarrow> site)\<rparr>)"

definition resolveCompletedSetupRedirectPath :: "bool \<Rightarrow> bool \<Rightarrow> string" where
  "resolveCompletedSetupRedirectPath authenticated admin =
     (if \<not> authenticated then ''/login'' else if admin then ''/admin/dashboard'' else ''/dashboard'')"

definition BACKEND_MODE_ALLOWED_PATHS :: "string list" where
  "BACKEND_MODE_ALLOWED_PATHS = [''/login'', ''/key-usage'', ''/docs'', ''/setup'', ''/payment/result'', ''/payment/airwallex'', ''/legal'']"

definition BACKEND_MODE_CALLBACK_PATHS :: "string list" where
  "BACKEND_MODE_CALLBACK_PATHS = [''/auth/callback'', ''/auth/linuxdo/callback'', ''/auth/dingtalk/callback'',
     ''/auth/dingtalk/email-completion'', ''/auth/oidc/callback'', ''/auth/wechat/callback'', ''/auth/wechat/payment/callback'']"

definition BACKEND_MODE_PENDING_AUTH_PATHS :: "string list" where
  "BACKEND_MODE_PENDING_AUTH_PATHS = [''/register'', ''/email-verify'']"

definition isBackendModePublicRouteAllowed :: "string \<Rightarrow> bool \<Rightarrow> bool" where
  "isBackendModePublicRouteAllowed p pending \<longleftrightarrow>
     list_ex (\<lambda>a. p = a \<or> starts_with p a) BACKEND_MODE_ALLOWED_PATHS
     \<or> list_ex (\<lambda>c. p = c) BACKEND_MODE_CALLBACK_PATHS
     \<or> (pending \<and> list_ex (\<lambda>a. p = a) BACKEND_MODE_PENDING_AUTH_PATHS)"

definition signed_in :: "nav \<Rightarrow> bool" where "signed_in n \<longleftrightarrow> isAuthenticated (nv_console n)"
definition is_admin :: "nav \<Rightarrow> bool" where "is_admin n \<longleftrightarrow> isAdmin (nv_console n)"
definition pending_sign_in :: "nav \<Rightarrow> bool" where "pending_sign_in n \<longleftrightarrow> c_pending (nv_console n) \<noteq> None"
definition simple_mode :: "nav \<Rightarrow> bool" where "simple_mode n \<longleftrightarrow> c_runMode (nv_console n) = ''simple''"

definition home_page :: "nav \<Rightarrow> string" where
  "home_page n = (if is_admin n then ''/admin/dashboard'' else ''/dashboard'')"

text \<open>The head of the guard: the session is restored once, and the title is set.\<close>

definition restore_session :: "js_env \<Rightarrow> rat \<Rightarrow> nav \<Rightarrow> nav" where
  "restore_session E now n = (if nv_initialized n then n else n\<lparr>nv_console := checkAuth E now (nv_console n), nv_initialized := True\<rparr>)"

definition set_title :: "(string \<Rightarrow> string) \<Rightarrow> string \<Rightarrow> location \<Rightarrow> nav \<Rightarrow> nav" where
  "set_title t site to n = n\<lparr>nv_title := resolveRouteDocumentTitle t site to (nv_siteName n)
     (custom_menu n @ (if is_admin n then nv_admin_menu n else [])) None\<rparr>"

text \<open>A page that does not require a session.\<close>

definition plaza_guard :: "location \<Rightarrow> nav \<Rightarrow> decision option" where
  "plaza_guard to n =
     (if nv_loaded n \<and> setting_is n ''model_plaza_enabled'' False then Some (Redirect (if signed_in n then home_page n else ''/home''))
      else if setting_is n ''model_plaza_require_auth'' True \<and> \<not> signed_in n then Some (Redirect_to_login (lc_fullPath to))
      else if backendModeEnabled n \<and> signed_in n \<and> \<not> is_admin n then Some (Redirect ''/login'')
      else None)"

definition public_guard :: "string \<Rightarrow> answers \<Rightarrow> location \<Rightarrow> nav \<Rightarrow> decision \<times> nav" where
  "public_guard site a to n =
     (if signed_in n \<and> (lc_path to = ''/login'' \<or> lc_path to = ''/register'')
      then (if backendModeEnabled n \<and> \<not> is_admin n then (Proceed, n) else (Redirect (home_page n), n))
      else (let n1 = (if lc_path to = ''/model-plaza'' then fetchPublicSettings site (aw_settings a) n else n)
            in case (if lc_path to = ''/model-plaza'' then plaza_guard to n1 else None) of
                 Some d \<Rightarrow> (d, n1)
               | None \<Rightarrow> if backendModeEnabled n1 \<and> \<not> signed_in n1 \<and> \<not> isBackendModePublicRouteAllowed (lc_path to) (pending_sign_in n1)
                          then (Redirect ''/login'', n1) else (Proceed, n1)))"

text \<open>A page that does.\<close>

definition fetch_compliance :: "string \<Rightarrow> answers \<Rightarrow> compliance \<Rightarrow> compliance" where
  "fetch_compliance zh a c = (if cp_initialized c then c else case aw_compliance a of
     Inr s \<Rightarrow> complianceAnswered (cp_version c) (Status_answer (Some s)) (fetchStatus c)
   | Inl (status, code, m) \<Rightarrow>
       (let c1 = complianceAnswered (cp_version c) (Status_answer None) (fetchStatus c)
        in if status = Some 423 \<and> code = ''ADMIN_COMPLIANCE_ACK_REQUIRED'' then requireAcknowledgement zh m c1 else c1))"

definition feature_guard :: "location \<Rightarrow> nav \<Rightarrow> decision option" where
  "feature_guard to n =
     (if rt_payment (lc_route to) = Some True \<and> nv_loaded n \<and> setting_is n ''payment_enabled'' False then Some (Redirect (home_page n))
      else if rt_risk (lc_route to) = Some True \<and> nv_loaded n \<and> setting_is n ''risk_control_enabled'' False
      then Some (Redirect (if is_admin n then ''/admin/settings'' else ''/dashboard''))
      else if rt_subscription (lc_route to) = Some True \<and> nv_loaded n \<and> setting_is n ''subscription_enabled'' False then Some (Redirect (home_page n))
      else None)"

definition RESTRICTED_PATHS :: "string list" where
  "RESTRICTED_PATHS = [''/admin/subscriptions'', ''/admin/redeem'', ''/subscriptions'', ''/redeem'']"

definition mode_guard :: "location \<Rightarrow> nav \<Rightarrow> decision" where
  "mode_guard to n =
     (if simple_mode n \<and> list_ex (starts_with (lc_path to)) RESTRICTED_PATHS then Redirect (home_page n)
      else if backendModeEnabled n \<and> \<not> (signed_in n \<and> is_admin n)
              \<and> \<not> isBackendModePublicRouteAllowed (lc_path to) (pending_sign_in n) then Redirect ''/login''
      else Proceed)"

definition needs_settings :: "route \<Rightarrow> bool" where
  "needs_settings r \<longleftrightarrow> rt_payment r = Some True \<or> rt_risk r = Some True \<or> rt_subscription r = Some True"

definition protected_guard :: "string \<Rightarrow> string \<Rightarrow> answers \<Rightarrow> location \<Rightarrow> nav \<Rightarrow> decision \<times> nav" where
  "protected_guard site zh a to n =
     (let admin_page = (rt_admin (lc_route to) = Some True)
      in if \<not> signed_in n then (Redirect_to_login (lc_fullPath to), n)
         else if admin_page \<and> \<not> is_admin n then (Redirect ''/dashboard'', n)
         else (let n1 = (if admin_page then n\<lparr>nv_compliance := fetch_compliance zh a (nv_compliance n)\<rparr> else n);
                   n2 = (if needs_settings (lc_route to) then fetchPublicSettings site (aw_settings a) n1 else n1)
               in (case feature_guard to n2 of Some d \<Rightarrow> d | None \<Rightarrow> mode_guard to n2, n2)))"

definition beforeEach :: "js_env \<Rightarrow> (string \<Rightarrow> string) \<Rightarrow> string \<Rightarrow> string \<Rightarrow> answers \<Rightarrow> location \<Rightarrow> nav \<Rightarrow> decision \<times> nav" where
  "beforeEach E t site zh a to n =
     (let n1 = set_title t site to (restore_session E (aw_now a) n)
      in if lc_path to = ''/setup'' \<and> aw_setup a = Some False
         then (Redirect (resolveCompletedSetupRedirectPath (signed_in n1) (is_admin n1)), n1)
         else if rt_auth (lc_route to) = Some False then public_guard site a to n1
         else protected_guard site zh a to n1)"

section \<open>Who enters which page\<close>

lemma admin_routes_require_admin:
  "list_all (\<lambda>r. starts_with (rt_path r) ''/admin'' \<and> rt_redirect r = None \<longrightarrow> rt_auth r = Some True \<and> rt_admin r = Some True) routes"
  by code_simp

lemma session_simps [simp]:
  "signed_in (n\<lparr>nv_compliance := c\<rparr>) = signed_in n" "is_admin (n\<lparr>nv_compliance := c\<rparr>) = is_admin n"
  "backendModeEnabled (n\<lparr>nv_compliance := c\<rparr>) = backendModeEnabled n" "simple_mode (n\<lparr>nv_compliance := c\<rparr>) = simple_mode n"
  "signed_in (set_title t site to n) = signed_in n" "is_admin (set_title t site to n) = is_admin n"
  "backendModeEnabled (set_title t site to n) = backendModeEnabled n" "simple_mode (set_title t site to n) = simple_mode n"
  "signed_in (fetchPublicSettings site x n) = signed_in n" "is_admin (fetchPublicSettings site x n) = is_admin n"
  "simple_mode (fetchPublicSettings site x n) = simple_mode n"
  by (auto simp: signed_in_def is_admin_def backendModeEnabled_def simple_mode_def set_title_def fetchPublicSettings_def split: option.split)

lemma initialized_simps [simp]:
  "nv_initialized (restore_session E now n)" "nv_initialized (set_title t site to n) = nv_initialized n"
  "nv_initialized (fetchPublicSettings site x n) = nv_initialized n"
  by (auto simp: restore_session_def set_title_def fetchPublicSettings_def split: option.split)

lemma restore_session_done [simp]: "nv_initialized n \<Longrightarrow> restore_session E now n = n"
  by (simp add: restore_session_def)

lemma home_page_simps [simp]:
  "home_page (n\<lparr>nv_compliance := c\<rparr>) = home_page n" "home_page (set_title t site to n) = home_page n"
  "home_page (fetchPublicSettings site x n) = home_page n"
  by (simp_all add: home_page_def)

lemma mode_guard_Proceed: "mode_guard to n = Proceed \<Longrightarrow> \<not> (simple_mode n \<and> list_ex (starts_with (lc_path to)) RESTRICTED_PATHS)"
  by (simp add: mode_guard_def split: if_splits)

lemma feature_guard_redirects: "feature_guard to n \<noteq> Some Proceed"
  by (simp add: feature_guard_def)

lemma protected_guard_Proceed:
  assumes "protected_guard site zh a to n = (Proceed, n')"
  shows "signed_in n'" "rt_admin (lc_route to) = Some True \<Longrightarrow> is_admin n'"
    "\<not> (simple_mode n' \<and> list_ex (starts_with (lc_path to)) RESTRICTED_PATHS)"
proof -
  let ?ok = "\<lambda>n'. signed_in n' \<and> (rt_admin (lc_route to) = Some True \<longrightarrow> is_admin n')
    \<and> \<not> (simple_mode n' \<and> list_ex (starts_with (lc_path to)) RESTRICTED_PATHS)"
  have "?ok n'"
    using assms mode_guard_Proceed feature_guard_redirects
    unfolding protected_guard_def Let_def by (auto split: if_splits option.splits)
  then show "signed_in n'" "rt_admin (lc_route to) = Some True \<Longrightarrow> is_admin n'"
    "\<not> (simple_mode n' \<and> list_ex (starts_with (lc_path to)) RESTRICTED_PATHS)" by blast+
qed

lemma beforeEach_protected:
  assumes "beforeEach E t site zh a to n = (Proceed, n')" "rt_auth (lc_route to) \<noteq> Some False"
  shows "protected_guard site zh a to (set_title t site to (restore_session E (aw_now a) n)) = (Proceed, n')"
  using assms unfolding beforeEach_def Let_def by (simp split: if_splits)


section \<open>Redirections\<close>

definition location_of :: "string \<Rightarrow> location" where
  "location_of p = \<lparr>lc_path = p, lc_fullPath = p, lc_route = the (find (\<lambda>r. rt_path r = p) routes), lc_id = ''''\<rparr>"

text \<open>The query of a redirection to the sign-in is not looked at by the guard and left out.\<close>

definition target :: "decision \<Rightarrow> location" where
  "target d = location_of (case d of Redirect p \<Rightarrow> p | _ \<Rightarrow> ''/login'')"

text \<open>Following redirections; every call of the guard has answers of its own, and \<open>None\<close> is the end of the fuel.\<close>

fun navigate :: "nat \<Rightarrow> js_env \<Rightarrow> (string \<Rightarrow> string) \<Rightarrow> string \<Rightarrow> string \<Rightarrow> (nat \<Rightarrow> answers) \<Rightarrow> location \<Rightarrow> nav \<Rightarrow> (location \<times> nav) option" where
  "navigate 0 E t site zh as to n = None"
| "navigate (Suc k) E t site zh as to n = (case beforeEach E t site zh (as k) to n of
     (Proceed, n') \<Rightarrow> Some (to, n')
   | (d, n') \<Rightarrow> navigate k E t site zh as (target d) n')"

lemma targets:
  "rt_auth (lc_route (location_of ''/login'')) = Some False" "rt_auth (lc_route (location_of ''/home'')) = Some False"
  "rt_auth (lc_route (location_of ''/dashboard'')) = Some True" "rt_auth (lc_route (location_of ''/admin/dashboard'')) = Some True"
  "rt_auth (lc_route (location_of ''/admin/settings'')) = Some True" "rt_admin (lc_route (location_of ''/dashboard'')) = Some False"
  "\<not> needs_settings (lc_route (location_of ''/dashboard''))" "\<not> needs_settings (lc_route (location_of ''/admin/dashboard''))"
  "\<not> needs_settings (lc_route (location_of ''/admin/settings''))"
  by code_simp+

lemma lc_path_location_of [simp]: "lc_path (location_of p) = p"
  by (simp add: location_of_def)

lemma free_paths:
  "isBackendModePublicRouteAllowed ''/login'' b" "\<not> list_ex (starts_with ''/dashboard'') RESTRICTED_PATHS"
  "\<not> list_ex (starts_with ''/admin/dashboard'') RESTRICTED_PATHS" "\<not> list_ex (starts_with ''/admin/settings'') RESTRICTED_PATHS"
  by code_simp+

lemma feature_guard_free: "\<not> needs_settings (lc_route to) \<Longrightarrow> feature_guard to n = None"
  by (simp add: feature_guard_def needs_settings_def)

text \<open>The guard at the pages to which it redirects\<close>

lemma at_login:
  assumes "nv_initialized n" "\<not> signed_in n \<or> backendModeEnabled n \<and> \<not> is_admin n"
  shows "\<exists>n'. beforeEach E t site zh a (location_of ''/login'') n = (Proceed, n')"
  using assms by (auto simp: beforeEach_def public_guard_def targets free_paths Let_def)

lemma at_home:
  assumes "nv_initialized n" "\<not> signed_in n"
  shows "\<exists>n'. nv_initialized n' \<and> \<not> signed_in n' \<and> (beforeEach E t site zh a (location_of ''/home'') n = (Proceed, n')
    \<or> beforeEach E t site zh a (location_of ''/home'') n = (Redirect ''/login'', n'))"
  using assms by (auto simp: beforeEach_def public_guard_def targets Let_def)

lemma at_dashboard:
  assumes "nv_initialized n" "signed_in n" "\<not> is_admin n"
  shows "\<exists>n'. nv_initialized n' \<and> (beforeEach E t site zh a (location_of ''/dashboard'') n = (Proceed, n')
    \<or> beforeEach E t site zh a (location_of ''/dashboard'') n = (Redirect ''/login'', n') \<and> backendModeEnabled n' \<and> \<not> is_admin n')"
  using assms by (auto simp: beforeEach_def protected_guard_def mode_guard_def targets feature_guard_free free_paths Let_def)

lemma administrator_enters:
  assumes "nv_initialized n" "signed_in n" "is_admin n"
    and "rt_auth (lc_route to) = Some True" "\<not> needs_settings (lc_route to)" "lc_path to \<noteq> ''/setup''"
    and "\<not> list_ex (starts_with (lc_path to)) RESTRICTED_PATHS"
  shows "\<exists>n'. beforeEach E t site zh a to n = (Proceed, n')"
proof -
  have "beforeEach E t site zh a to n = protected_guard site zh a to (set_title t site to n)"
    using assms(1,4,6) by (simp add: beforeEach_def Let_def)
  moreover have "mode_guard to m = Proceed" if "signed_in m" "is_admin m" for m
    using that assms(7) by (simp add: mode_guard_def)
  ultimately show ?thesis using assms(2,3,5) by (simp add: protected_guard_def Let_def feature_guard_free)
qed

lemma at_admin_page:
  assumes "nv_initialized n" "signed_in n" "is_admin n" "p \<in> {''/admin/dashboard'', ''/admin/settings''}"
  shows "\<exists>n'. beforeEach E t site zh a (location_of p) n = (Proceed, n')"
proof -
  have "rt_auth (lc_route (location_of p)) = Some True \<and> \<not> needs_settings (lc_route (location_of p))
    \<and> \<not> list_ex (starts_with p) RESTRICTED_PATHS \<and> p \<noteq> ''/setup''"
    using assms(4) targets free_paths by (elim insertE emptyE; simp)
  then show ?thesis by (intro administrator_enters [OF assms(1-3)]) simp_all
qed

text \<open>Where a redirection leads, in the session in which it was decided.\<close>

definition sound_redirection :: "decision \<Rightarrow> nav \<Rightarrow> bool" where
  "sound_redirection d n \<longleftrightarrow> (case d of
     Proceed \<Rightarrow> True
   | Redirect_to_login _ \<Rightarrow> \<not> signed_in n
   | Redirect p \<Rightarrow> p = ''/login'' \<and> (\<not> signed_in n \<or> backendModeEnabled n \<and> \<not> is_admin n)
       \<or> p = ''/home'' \<and> \<not> signed_in n
       \<or> p = ''/dashboard'' \<and> signed_in n \<and> \<not> is_admin n
       \<or> p \<in> {''/admin/dashboard'', ''/admin/settings''} \<and> signed_in n \<and> is_admin n)"

lemma sound_home: "signed_in n \<Longrightarrow> sound_redirection (Redirect (home_page n)) n"
  by (simp add: sound_redirection_def home_page_def)

lemma sound_public: "sound_redirection (fst (public_guard site a to n)) (snd (public_guard site a to n))"
proof (cases "signed_in n \<and> (lc_path to = ''/login'' \<or> lc_path to = ''/register'')")
  case True
  then show ?thesis using sound_home [of n] by (simp add: public_guard_def sound_redirection_def)
next
  case False
  define n1 where "n1 = (if lc_path to = ''/model-plaza'' then fetchPublicSettings site (aw_settings a) n else n)"
  have plaza: "sound_redirection d n1" if "plaza_guard to n1 = Some d" for d
    using that sound_home [of n1] by (auto simp: plaza_guard_def sound_redirection_def split: if_splits)
  have "public_guard site a to n = (case (if lc_path to = ''/model-plaza'' then plaza_guard to n1 else None) of
                 Some d \<Rightarrow> (d, n1)
               | None \<Rightarrow> if backendModeEnabled n1 \<and> \<not> signed_in n1 \<and> \<not> isBackendModePublicRouteAllowed (lc_path to) (pending_sign_in n1)
                          then (Redirect ''/login'', n1) else (Proceed, n1))"
    unfolding public_guard_def using False by (simp only: n1_def Let_def if_False)
  then show ?thesis using plaza
    by (cases "if lc_path to = ''/model-plaza'' then plaza_guard to n1 else None") (auto simp: sound_redirection_def split: if_splits)
qed

lemma sound_mode: "signed_in n \<Longrightarrow> sound_redirection (mode_guard to n) n"
  using sound_home [of n] by (auto simp: mode_guard_def sound_redirection_def)

lemma sound_feature: "signed_in n \<Longrightarrow> feature_guard to n = Some d \<Longrightarrow> sound_redirection d n"
  using sound_home [of n] by (auto simp: feature_guard_def sound_redirection_def split: if_splits)

lemma sound_protected: "sound_redirection (fst (protected_guard site zh a to n)) (snd (protected_guard site zh a to n))"
proof (cases "signed_in n \<and> (rt_admin (lc_route to) = Some True \<longrightarrow> is_admin n)")
  case False
  then show ?thesis by (auto simp: protected_guard_def sound_redirection_def)
next
  case True
  define n2 where "n2 = (let n1 = (if rt_admin (lc_route to) = Some True then n\<lparr>nv_compliance := fetch_compliance zh a (nv_compliance n)\<rparr> else n)
    in if needs_settings (lc_route to) then fetchPublicSettings site (aw_settings a) n1 else n1)"
  have "protected_guard site zh a to n = (case feature_guard to n2 of Some d \<Rightarrow> d | None \<Rightarrow> mode_guard to n2, n2)"
    using True unfolding protected_guard_def n2_def Let_def by simp
  moreover have "signed_in n2" using True by (simp add: n2_def Let_def)
  ultimately show ?thesis using sound_mode sound_feature by (cases "feature_guard to n2") auto
qed

lemma guard_initialized:
  "nv_initialized (snd (public_guard site a to n)) = nv_initialized n"
  "nv_initialized (snd (protected_guard site zh a to n)) = nv_initialized n"
  by (simp_all add: public_guard_def protected_guard_def Let_def split: option.split)

lemma beforeEach_sound:
  assumes "beforeEach E t site zh a to n = (d, n')"
  shows "nv_initialized n'" "sound_redirection d n'"
proof -
  define m where "m = set_title t site to (restore_session E (aw_now a) n)"
  define good where "good x \<longleftrightarrow> nv_initialized (snd x) \<and> sound_redirection (fst x) (snd x)" for x
  have m: "nv_initialized m" by (simp add: m_def)
  then have "good (Redirect (resolveCompletedSetupRedirectPath (signed_in m) (is_admin m)), m)"
    by (simp add: good_def sound_redirection_def resolveCompletedSetupRedirectPath_def)
  moreover have "good (public_guard site a to m)" using sound_public guard_initialized(1) m by (simp add: good_def)
  moreover have "good (protected_guard site zh a to m)" using sound_protected guard_initialized(2) m by (simp add: good_def)
  ultimately have "good (beforeEach E t site zh a to n)"
    unfolding beforeEach_def Let_def m_def [symmetric] by (simp only: split: if_split) simp
  then show "nv_initialized n'" "sound_redirection d n'" using assms by (simp_all add: good_def)
qed

lemma navigate_Suc:
  "beforeEach E t site zh (as k) to n = (d, n')
   \<Longrightarrow> navigate (Suc k) E t site zh as to n = (if d = Proceed then Some (to, n') else navigate k E t site zh as (target d) n')"
  by (cases d) simp_all

lemma settles_at_login:
  assumes "nv_initialized n" "\<not> signed_in n \<or> backendModeEnabled n \<and> \<not> is_admin n"
  shows "\<exists>r. navigate (Suc k) E t site zh as (location_of ''/login'') n = Some r"
  using at_login [OF assms, of E t site zh "as k"] by auto

lemma settles_at_home:
  assumes "nv_initialized n" "\<not> signed_in n"
  shows "\<exists>r. navigate (Suc (Suc k)) E t site zh as (location_of ''/home'') n = Some r"
proof -
  obtain n' where n': "nv_initialized n'" "\<not> signed_in n'"
    "beforeEach E t site zh (as (Suc k)) (location_of ''/home'') n = (Proceed, n')
     \<or> beforeEach E t site zh (as (Suc k)) (location_of ''/home'') n = (Redirect ''/login'', n')"
    using at_home [OF assms] by blast
  then show ?thesis using settles_at_login [of n' k E t site zh as] by (auto simp: target_def simp del: navigate.simps(2) simp: navigate.simps(2) [of "Suc k"])
qed

lemma settles_at_dashboard:
  assumes "nv_initialized n" "signed_in n" "\<not> is_admin n"
  shows "\<exists>r. navigate (Suc (Suc k)) E t site zh as (location_of ''/dashboard'') n = Some r"
proof -
  obtain n' where n': "nv_initialized n'"
    "beforeEach E t site zh (as (Suc k)) (location_of ''/dashboard'') n = (Proceed, n')
     \<or> beforeEach E t site zh (as (Suc k)) (location_of ''/dashboard'') n = (Redirect ''/login'', n') \<and> backendModeEnabled n' \<and> \<not> is_admin n'"
    using at_dashboard [OF assms] by blast
  then show ?thesis using settles_at_login [of n' k E t site zh as] by (auto simp: target_def simp del: navigate.simps(2) simp: navigate.simps(2) [of "Suc k"])
qed

lemma settles_at_admin_page:
  assumes "nv_initialized n" "signed_in n" "is_admin n" "p \<in> {''/admin/dashboard'', ''/admin/settings''}"
  shows "\<exists>r. navigate (Suc k) E t site zh as (location_of p) n = Some r"
  using at_admin_page [OF assms, of E t site zh "as k"] by auto

text \<open>
  C24: redirections end: from every location and every state, with whatever answers of the API, failures included, and settings
  that are loaded on the way, the third page at the latest is let through, so the guard never
  sends a browser around in a circle.
\<close>

theorem redirections_end: "navigate 3 E t site zh as to n \<noteq> None"
proof -
  obtain d n' where g: "beforeEach E t site zh (as 2) to n = (d, n')" by (cases "beforeEach E t site zh (as 2) to n")
  have i: "nv_initialized n'" and s: "sound_redirection d n'" by (rule beforeEach_sound [OF g])+
  have n: "navigate (Suc 2) E t site zh as to n = (if d = Proceed then Some (to, n') else navigate 2 E t site zh as (target d) n')"
    by (rule navigate_Suc) (rule g)
  have three: "(3 :: nat) = Suc 2" by simp
  have two: "(2 :: nat) = Suc (Suc 0)" by simp
  have "\<exists>r. navigate 2 E t site zh as (target d) n' = Some r" if "d \<noteq> Proceed"
  proof (cases d)
    case (Redirect p)
    have "p = ''/login'' \<and> (\<not> signed_in n' \<or> backendModeEnabled n' \<and> \<not> is_admin n') \<or> p = ''/home'' \<and> \<not> signed_in n'
      \<or> p = ''/dashboard'' \<and> signed_in n' \<and> \<not> is_admin n'
      \<or> p \<in> {''/admin/dashboard'', ''/admin/settings''} \<and> signed_in n' \<and> is_admin n'"
      using s unfolding sound_redirection_def Redirect decision.case .
    then have "\<exists>r. navigate 2 E t site zh as (location_of p) n' = Some r"
    proof (elim disjE)
      assume c: "p = ''/login'' \<and> (\<not> signed_in n' \<or> backendModeEnabled n' \<and> \<not> is_admin n')"
      show ?thesis unfolding two conjunct1 [OF c] by (rule settles_at_login [OF i conjunct2 [OF c]])
    next
      assume c: "p = ''/home'' \<and> \<not> signed_in n'"
      show ?thesis unfolding two conjunct1 [OF c] by (rule settles_at_home [OF i conjunct2 [OF c]])
    next
      assume c: "p = ''/dashboard'' \<and> signed_in n' \<and> \<not> is_admin n'"
      show ?thesis unfolding two conjunct1 [OF c]
        by (rule settles_at_dashboard [OF i conjunct1 [OF conjunct2 [OF c]] conjunct2 [OF conjunct2 [OF c]]])
    next
      assume c: "p \<in> {''/admin/dashboard'', ''/admin/settings''} \<and> signed_in n' \<and> is_admin n'"
      show ?thesis unfolding two
        by (rule settles_at_admin_page [OF i conjunct1 [OF conjunct2 [OF c]] conjunct2 [OF conjunct2 [OF c]] conjunct1 [OF c]])
    qed
    then show ?thesis by (simp only: Redirect target_def decision.case)
  next
    case (Redirect_to_login full)
    then have "\<not> signed_in n'" using s by (simp add: sound_redirection_def)
    then show ?thesis unfolding two unfolding Redirect_to_login target_def decision.case
      by (intro settles_at_login [OF i] disjI1)
  qed (use that in simp)
  then show ?thesis unfolding three n by (cases "d = Proceed") auto
qed

definition witness_nav :: "bool \<Rightarrow> nav" where
  "witness_nav admin = \<lparr>nv_console = (open_page (\<lambda>_. None))\<lparr>c_token := Some ''t'',
       c_user := Some (JObj [(''role'', JStr (if admin then ''admin'' else ''user''))])\<rparr>,
     nv_initialized = True, nv_loaded = False, nv_settings = None, nv_siteName = '''', nv_admin_menu = [], nv_compliance = no_compliance, nv_title = ''''\<rparr>"

definition witness_answers :: answers where
  "witness_answers = \<lparr>aw_now = 0, aw_setup = None, aw_settings = None, aw_compliance = Inl (Some 500, [], [])\<rparr>"


end
