(* ===== verification/Front_Tasks.thy ===== *)
theory Front_Tasks
  imports Front_Storage
begin

text \<open>
  The tasks of a page of the web console that overlap: searches while the user types
  (\<^verbatim>\<open>composables/useKeyedDebouncedSearch.ts\<close>), actions that need a second factor (\<^verbatim>\<open>composables/useStepUp.ts\<close>) and the
  periodic refresh (\<^verbatim>\<open>composables/useAutoRefresh.ts\<close>). Each is split at its waits.
\<close>

section \<open>Searches\<close>

text \<open>The timeouts that run, with the key and the keyword of their closure, and the searches that were sent.\<close>

record flight =
  fl_controller :: nat
  fl_key :: string
  fl_keyword :: string
  fl_version :: "nat option"

record searches =
  ks_timers :: "string \<Rightarrow> nat option"
  ks_controllers :: "string \<Rightarrow> nat option"
  ks_versions :: "string \<Rightarrow> nat option"
  ks_running :: "(nat \<times> string \<times> string) list"
  ks_flights :: "flight list"
  ks_aborted :: "nat list"
  ks_next :: nat

definition no_searches :: searches where
  "no_searches = \<lparr>ks_timers = (\<lambda>_. None), ks_controllers = (\<lambda>_. None), ks_versions = (\<lambda>_. None), ks_running = [], ks_flights = [],
     ks_aborted = [], ks_next = 1\<rparr>"

definition stop_timer :: "string \<Rightarrow> searches \<Rightarrow> searches" where
  "stop_timer k s = (case ks_timers s k of None \<Rightarrow> s
     | Some i \<Rightarrow> s\<lparr>ks_running := filter (\<lambda>(j, _). j \<noteq> i) (ks_running s), ks_timers := (ks_timers s)(k := None)\<rparr>)"

definition abort_flight :: "string \<Rightarrow> searches \<Rightarrow> searches" where
  "abort_flight k s = (case ks_controllers s k of None \<Rightarrow> s
     | Some c \<Rightarrow> s\<lparr>ks_aborted := c # ks_aborted s, ks_controllers := (ks_controllers s)(k := None)\<rparr>)"

definition clearKey :: "string \<Rightarrow> searches \<Rightarrow> searches" where
  "clearKey k s = (let s1 = abort_flight k (stop_timer k s) in s1\<lparr>ks_versions := (ks_versions s1)(k := None)\<rparr>)"

text \<open>\<open>trigger\<close>; the new timeout has the number \<open>ks_next\<close>.\<close>

definition trigger :: "string \<Rightarrow> string \<Rightarrow> searches \<Rightarrow> searches" where
  "trigger k keyword s =
     (let s1 = s\<lparr>ks_versions := (ks_versions s)(k \<mapsto> (case ks_versions s k of None \<Rightarrow> 0 | Some v \<Rightarrow> v) + 1)\<rparr>;
          s2 = abort_flight k (stop_timer k s1)
      in s2\<lparr>ks_running := ks_running s2 @ [(ks_next s2, k, keyword)], ks_timers := (ks_timers s2)(k \<mapsto> ks_next s2), ks_next := ks_next s2 + 1\<rparr>)"

text \<open>A timeout fires, which begins a search, and a search is answered. The second says whether the callback is called.\<close>

definition search_begins :: "nat \<times> string \<times> string \<Rightarrow> searches \<Rightarrow> searches" where
  "search_begins timer s = (case timer of (i, k, keyword) \<Rightarrow>
     s\<lparr>ks_running := filter (\<lambda>(j, _). j \<noteq> i) (ks_running s), ks_timers := (ks_timers s)(k := None),
       ks_controllers := (ks_controllers s)(k \<mapsto> ks_next s),
       ks_flights := ks_flights s @ [\<lparr>fl_controller = ks_next s, fl_key = k, fl_keyword = keyword, fl_version = ks_versions s k\<rparr>],
       ks_next := ks_next s + 1\<rparr>)"

definition delivers :: "flight \<Rightarrow> searches \<Rightarrow> bool" where
  "delivers f s \<longleftrightarrow> fl_controller f \<notin> set (ks_aborted s) \<and> ks_versions s (fl_key f) = fl_version f"

definition search_ends :: "flight \<Rightarrow> searches \<Rightarrow> searches" where
  "search_ends f s = s\<lparr>ks_flights := removeAll f (ks_flights s),
     ks_controllers := (if ks_controllers s (fl_key f) = Some (fl_controller f) then (ks_controllers s)(fl_key f := None) else ks_controllers s)\<rparr>"

text \<open>The steps, together with the keyword that was entered last for every key since it was cleared.\<close>

inductive search_step :: "searches \<times> (string \<Rightarrow> string option) \<Rightarrow> searches \<times> (string \<Rightarrow> string option) \<Rightarrow> bool" where
  ks_trigger: "search_step (s, l) (trigger k keyword s, l(k \<mapsto> keyword))"
| ks_clear: "search_step (s, l) (clearKey k s, l(k := None))"
| ks_fires: "timer \<in> set (ks_running s) \<Longrightarrow> search_step (s, l) (search_begins timer s, l)"
| ks_answer: "f \<in> set (ks_flights s) \<Longrightarrow> search_step (s, l) (search_ends f s, l)"

text \<open>Of a key at most one timeout runs or one search is awaited, and it is for the last keyword.\<close>

definition live :: "flight \<Rightarrow> searches \<Rightarrow> bool" where
  "live f s \<longleftrightarrow> f \<in> set (ks_flights s) \<and> fl_controller f \<notin> set (ks_aborted s)"

definition searches_ok :: "searches \<Rightarrow> (string \<Rightarrow> string option) \<Rightarrow> bool" where
  "searches_ok s l \<longleftrightarrow>
     (\<forall>i k w. (i, k, w) \<in> set (ks_running s) \<longrightarrow> ks_timers s k = Some i \<and> l k = Some w)
     \<and> (\<forall>f. live f s \<longrightarrow> ks_controllers s (fl_key f) = Some (fl_controller f) \<and> l (fl_key f) = Some (fl_keyword f))
     \<and> (\<forall>k. ks_timers s k \<noteq> None \<longrightarrow> ks_controllers s k = None)
     \<and> (\<forall>k i. ks_timers s k = Some i \<longrightarrow> i < ks_next s)
     \<and> (\<forall>f \<in> set (ks_flights s). fl_controller f < ks_next s) \<and> (\<forall>c \<in> set (ks_aborted s). c < ks_next s)
     \<and> (\<forall>k c. ks_controllers s k = Some c \<longrightarrow> c < ks_next s)
     \<and> (\<forall>k k' i. ks_timers s k = Some i \<longrightarrow> ks_timers s k' = Some i \<longrightarrow> k = k')
     \<and> (\<forall>k k' c. ks_controllers s k = Some c \<longrightarrow> ks_controllers s k' = Some c \<longrightarrow> k = k')
     \<and> (\<forall>f \<in> set (ks_flights s). \<forall>g \<in> set (ks_flights s). fl_controller f = fl_controller g \<longrightarrow> f = g)"

lemma searches_okI:
  assumes "\<And>i k w. (i, k, w) \<in> set (ks_running s) \<Longrightarrow> ks_timers s k = Some i \<and> l k = Some w"
    and "\<And>f. live f s \<Longrightarrow> ks_controllers s (fl_key f) = Some (fl_controller f) \<and> l (fl_key f) = Some (fl_keyword f)"
    and "\<And>k. ks_timers s k \<noteq> None \<Longrightarrow> ks_controllers s k = None"
    and "\<And>k i. ks_timers s k = Some i \<Longrightarrow> i < ks_next s"
    and "\<And>f. f \<in> set (ks_flights s) \<Longrightarrow> fl_controller f < ks_next s" "\<And>c. c \<in> set (ks_aborted s) \<Longrightarrow> c < ks_next s"
    and "\<And>k c. ks_controllers s k = Some c \<Longrightarrow> c < ks_next s"
    and "\<And>k k' i. ks_timers s k = Some i \<Longrightarrow> ks_timers s k' = Some i \<Longrightarrow> k = k'"
    and "\<And>k k' c. ks_controllers s k = Some c \<Longrightarrow> ks_controllers s k' = Some c \<Longrightarrow> k = k'"
    and "\<And>f g. f \<in> set (ks_flights s) \<Longrightarrow> g \<in> set (ks_flights s) \<Longrightarrow> fl_controller f = fl_controller g \<Longrightarrow> f = g"
  shows "searches_ok s l"
  unfolding searches_ok_def using assms by blast

lemma searches_okD:
  assumes "searches_ok s l"
  shows "(i, k, w) \<in> set (ks_running s) \<Longrightarrow> ks_timers s k = Some i \<and> l k = Some w"
    and "live f s \<Longrightarrow> ks_controllers s (fl_key f) = Some (fl_controller f) \<and> l (fl_key f) = Some (fl_keyword f)"
    and "ks_timers s k \<noteq> None \<Longrightarrow> ks_controllers s k = None"
    and "ks_timers s k = Some i \<Longrightarrow> i < ks_next s"
    and "f \<in> set (ks_flights s) \<Longrightarrow> fl_controller f < ks_next s" and "c \<in> set (ks_aborted s) \<Longrightarrow> c < ks_next s"
    and "ks_controllers s k = Some c \<Longrightarrow> c < ks_next s"
    and "ks_timers s k = Some i \<Longrightarrow> ks_timers s k' = Some i \<Longrightarrow> k = k'"
    and "ks_controllers s k = Some c \<Longrightarrow> ks_controllers s k' = Some c \<Longrightarrow> k = k'"
    and "f \<in> set (ks_flights s) \<Longrightarrow> g \<in> set (ks_flights s) \<Longrightarrow> fl_controller f = fl_controller g \<Longrightarrow> f = g"
  using assms unfolding searches_ok_def by meson+

text \<open>What is left of a key when its timeout is stopped and its search aborted.\<close>

definition quieted :: "string \<Rightarrow> searches \<Rightarrow> searches" where
  "quieted k s = abort_flight k (stop_timer k s)"

lemma quieted_fields:
  "ks_versions (quieted k s) = ks_versions s" "ks_next (quieted k s) = ks_next s" "ks_flights (quieted k s) = ks_flights s"
  "ks_timers (quieted k s) = (ks_timers s)(k := None)" "ks_controllers (quieted k s) = (ks_controllers s)(k := None)"
  "set (ks_running (quieted k s)) = {t \<in> set (ks_running s). ks_timers s k \<noteq> Some (fst t)}"
  "set (ks_aborted (quieted k s)) = set (ks_aborted s) \<union> {c. ks_controllers s k = Some c}"
  by (auto simp: quieted_def abort_flight_def stop_timer_def split: option.splits)

lemma live_quieted: "live f (quieted k s) \<longleftrightarrow> live f s \<and> ks_controllers s k \<noteq> Some (fl_controller f)"
  by (auto simp: live_def quieted_fields)

lemma searches_ok_quieted:
  assumes ok: "searches_ok s l"
  shows "searches_ok (quieted k s) (l(k := w))"
    and "live f (quieted k s) \<Longrightarrow> fl_key f \<noteq> k" "(i, k', v) \<in> set (ks_running (quieted k s)) \<Longrightarrow> k' \<noteq> k"
proof -
  note D = searches_okD [OF ok]
  show key: "fl_key f \<noteq> k" if "live f (quieted k s)" for f
    using that D(2) [of f] by (auto simp: live_quieted)
  show run: "k' \<noteq> k" if "(i, k', v) \<in> set (ks_running (quieted k s))" for i k' v
    using that D(1) [of i k' v] by (auto simp: quieted_fields)
  show "searches_ok (quieted k s) (l(k := w))"
  proof (rule searches_okI)
    fix i k' v
    assume "(i, k', v) \<in> set (ks_running (quieted k s))"
    then show "ks_timers (quieted k s) k' = Some i \<and> (l(k := w)) k' = Some v"
      using run [of i k' v] D(1) [of i k' v] by (auto simp: quieted_fields)
  next
    fix f
    assume f: "live f (quieted k s)"
    then show "ks_controllers (quieted k s) (fl_key f) = Some (fl_controller f) \<and> (l(k := w)) (fl_key f) = Some (fl_keyword f)"
      using key [OF f] D(2) [of f] by (auto simp: quieted_fields live_quieted)
  next
    fix c
    assume "c \<in> set (ks_aborted (quieted k s))"
    then show "c < ks_next (quieted k s)" using D(6,7) by (auto simp: quieted_fields)
  qed (use D in \<open>auto simp: quieted_fields split: if_splits\<close>)
qed

lemma searches_ok_versions: "searches_ok s l \<Longrightarrow> searches_ok (s\<lparr>ks_versions := vs\<rparr>) l"
  by (simp add: searches_ok_def live_def)

lemma trigger_quieted:
  "trigger k keyword s =
     (let q = quieted k (s\<lparr>ks_versions := (ks_versions s)(k \<mapsto> (case ks_versions s k of None \<Rightarrow> 0 | Some v \<Rightarrow> v) + 1)\<rparr>)
      in q\<lparr>ks_running := ks_running q @ [(ks_next q, k, keyword)], ks_timers := (ks_timers q)(k \<mapsto> ks_next q), ks_next := ks_next q + 1\<rparr>)"
  by (simp add: trigger_def quieted_def Let_def)

lemma searches_ok_trigger:
  assumes "searches_ok s l"
  shows "searches_ok (trigger k keyword s) (l(k \<mapsto> keyword))"
proof -
  define s1 where "s1 = s\<lparr>ks_versions := (ks_versions s)(k \<mapsto> (case ks_versions s k of None \<Rightarrow> 0 | Some v \<Rightarrow> v) + 1)\<rparr>"
  define q where "q = quieted k s1"
  have ok1: "searches_ok s1 l" unfolding s1_def by (rule searches_ok_versions [OF assms])
  have ok: "searches_ok q (l(k \<mapsto> keyword))" unfolding q_def by (rule searches_ok_quieted(1) [OF ok1])
  have k: "ks_controllers q k = None" "ks_timers q k = None" by (simp_all add: q_def quieted_fields)
  note D = searches_okD [OF ok]
  let ?t = "q\<lparr>ks_running := ks_running q @ [(ks_next q, k, keyword)], ks_timers := (ks_timers q)(k \<mapsto> ks_next q), ks_next := ks_next q + 1\<rparr>"
  have "searches_ok ?t (l(k \<mapsto> keyword))"
  proof (rule searches_okI)
    fix i k' w
    assume "(i, k', w) \<in> set (ks_running ?t)"
    then consider "(i, k', w) \<in> set (ks_running q)" | "i = ks_next q" "k' = k" "w = keyword" by auto
    then show "ks_timers ?t k' = Some i \<and> (l(k \<mapsto> keyword)) k' = Some w"
      using D(1) [of i k' w] k by cases auto
  next
    fix k1 k2 i
    assume "ks_timers ?t k1 = Some i" "ks_timers ?t k2 = Some i"
    then show "k1 = k2" using D(8) [of k1 i k2] D(4) [of k1 i] D(4) [of k2 i] by (auto split: if_splits)
  next
    fix f
    assume "f \<in> set (ks_flights ?t)"
    then show "fl_controller f < ks_next ?t" using D(5) [of f] by simp
  next
    fix c
    assume "c \<in> set (ks_aborted ?t)"
    then show "c < ks_next ?t" using D(6) [of c] by simp
  next
    fix k' c
    assume "ks_controllers ?t k' = Some c"
    then show "c < ks_next ?t" using D(7) [of k' c] by simp
  next
    fix k' i
    assume "ks_timers ?t k' = Some i"
    then show "i < ks_next ?t" using D(4) [of k' i] by (auto split: if_splits)
  next
    fix k'
    assume "ks_timers ?t k' \<noteq> None"
    then show "ks_controllers ?t k' = None" using D(3) [of k'] k by (auto split: if_splits)
  next
    fix f
    assume "live f ?t"
    then show "ks_controllers ?t (fl_key f) = Some (fl_controller f) \<and> (l(k \<mapsto> keyword)) (fl_key f) = Some (fl_keyword f)"
      using D(2) [of f] by (simp add: live_def)
  next
    fix k1 k2 c
    assume "ks_controllers ?t k1 = Some c" "ks_controllers ?t k2 = Some c"
    then show "k1 = k2" using D(9) [of k1 c k2] by simp
  next
    fix f g
    assume "f \<in> set (ks_flights ?t)" "g \<in> set (ks_flights ?t)" "fl_controller f = fl_controller g"
    then show "f = g" using D(10) [of f g] by simp
  qed
  then show ?thesis by (simp only: trigger_quieted Let_def q_def s1_def)
qed

lemma searches_ok_clear: "searches_ok s l \<Longrightarrow> searches_ok (clearKey k s) (l(k := None))"
  using searches_ok_versions [OF searches_ok_quieted(1) [of s l k None]] by (simp add: clearKey_def quieted_def Let_def)

lemma searches_ok_begins:
  assumes ok: "searches_ok s l" and t: "(i, k, keyword) \<in> set (ks_running s)"
  shows "searches_ok (search_begins (i, k, keyword) s) l"
proof -
  note D = searches_okD [OF ok]
  have k: "ks_timers s k = Some i" "l k = Some keyword" using D(1) [OF t] by blast+
  then have c: "ks_controllers s k = None" using D(3) [of k] by simp
  let ?f = "\<lparr>fl_controller = ks_next s, fl_key = k, fl_keyword = keyword, fl_version = ks_versions s k\<rparr>"
  let ?t = "search_begins (i, k, keyword) s"
  have F: "ks_timers ?t = (ks_timers s)(k := None)" "ks_controllers ?t = (ks_controllers s)(k \<mapsto> ks_next s)" "ks_next ?t = ks_next s + 1"
    "ks_flights ?t = ks_flights s @ [?f]" "ks_aborted ?t = ks_aborted s" "set (ks_running ?t) = {t \<in> set (ks_running s). fst t \<noteq> i}"
    by (auto simp: search_begins_def)
  show ?thesis
  proof (rule searches_okI)
    fix j k' w
    assume "(j, k', w) \<in> set (ks_running ?t)"
    then show "ks_timers ?t k' = Some j \<and> l k' = Some w" using D(1) [of j k' w] k(1) unfolding F by auto
  next
    fix f
    assume "live f ?t"
    then consider "live f s" | "f = ?f" unfolding live_def F by auto
    then show "ks_controllers ?t (fl_key f) = Some (fl_controller f) \<and> l (fl_key f) = Some (fl_keyword f)"
      using D(2) [of f] c k(2) unfolding F by cases auto
  next
    fix k'
    assume "ks_timers ?t k' \<noteq> None"
    then show "ks_controllers ?t k' = None" using D(3) [of k'] unfolding F by (auto split: if_splits)
  next
    fix k' j
    assume "ks_timers ?t k' = Some j"
    then show "j < ks_next ?t" using D(4) [of k' j] unfolding F by (auto split: if_splits)
  next
    fix f
    assume "f \<in> set (ks_flights ?t)"
    then show "fl_controller f < ks_next ?t" using D(5) [of f] unfolding F by auto
  next
    fix c
    assume "c \<in> set (ks_aborted ?t)"
    then show "c < ks_next ?t" using D(6) [of c] unfolding F by simp
  next
    fix k' c
    assume "ks_controllers ?t k' = Some c"
    then show "c < ks_next ?t" using D(7) [of k' c] unfolding F by (auto split: if_splits)
  next
    fix k1 k2 j
    assume "ks_timers ?t k1 = Some j" "ks_timers ?t k2 = Some j"
    then show "k1 = k2" using D(8) [of k1 j k2] unfolding F by (auto split: if_splits)
  next
    fix k1 k2 c
    assume "ks_controllers ?t k1 = Some c" "ks_controllers ?t k2 = Some c"
    then show "k1 = k2" using D(9) [of k1 c k2] D(7) [of k1 c] D(7) [of k2 c] unfolding F by (auto split: if_splits)
  next
    fix f g
    assume "f \<in> set (ks_flights ?t)" "g \<in> set (ks_flights ?t)" "fl_controller f = fl_controller g"
    then show "f = g" using D(10) [of f g] D(5) [of f] D(5) [of g] unfolding F by auto
  qed
qed

lemma searches_ok_ends:
  assumes ok: "searches_ok s l" and f: "f \<in> set (ks_flights s)"
  shows "searches_ok (search_ends f s) l"
proof -
  note D = searches_okD [OF ok]
  have F: "ks_timers (search_ends f s) = ks_timers s" "ks_next (search_ends f s) = ks_next s" "ks_aborted (search_ends f s) = ks_aborted s"
    "ks_running (search_ends f s) = ks_running s" "set (ks_flights (search_ends f s)) = set (ks_flights s) - {f}"
    by (simp_all add: search_ends_def)
  have C: "ks_controllers (search_ends f s) k = Some c \<Longrightarrow> ks_controllers s k = Some c" for k c
    by (auto simp: search_ends_def split: if_splits)
  show ?thesis
  proof (rule searches_okI)
    fix g
    assume g: "live g (search_ends f s)"
    then have g': "live g s" "g \<noteq> f" unfolding live_def F by auto
    then have "fl_controller g \<noteq> fl_controller f" using D(10) [of g f] f by (auto simp: live_def)
    then have "ks_controllers (search_ends f s) (fl_key g) = ks_controllers s (fl_key g)"
      using D(2) [OF g'(1)] by (auto simp: search_ends_def)
    then show "ks_controllers (search_ends f s) (fl_key g) = Some (fl_controller g) \<and> l (fl_key g) = Some (fl_keyword g)"
      using D(2) [OF g'(1)] by simp
  next
    fix k
    assume "ks_timers (search_ends f s) k \<noteq> None"
    then show "ks_controllers (search_ends f s) k = None" using D(3) [of k] C [of k] unfolding F by (cases "ks_controllers (search_ends f s) k") auto
  next
    fix k1 k2 c
    assume "ks_controllers (search_ends f s) k1 = Some c" "ks_controllers (search_ends f s) k2 = Some c"
    then show "k1 = k2" using C D(9) by blast
  next
    fix k c
    assume "ks_controllers (search_ends f s) k = Some c"
    then show "c < ks_next (search_ends f s)" using C D(7) unfolding F by blast
  next
    fix k1 k2 i
    assume "ks_timers (search_ends f s) k1 = Some i" "ks_timers (search_ends f s) k2 = Some i"
    then show "k1 = k2" using D(8) unfolding F by blast
  next
    fix g h
    assume "g \<in> set (ks_flights (search_ends f s))" "h \<in> set (ks_flights (search_ends f s))" "fl_controller g = fl_controller h"
    then show "g = h" using D(10) unfolding F by blast
  qed (use D in \<open>auto simp: F\<close>)
qed

lemma searches_ok_reachable: "search_step\<^sup>*\<^sup>* (no_searches, \<lambda>_. None) sl \<Longrightarrow> searches_ok (fst sl) (snd sl)"
proof (induction rule: rtranclp_induct)
  case base
  show ?case unfolding no_searches_def by (rule searches_okI) (simp_all add: live_def)
next
  case (step sl sl')
  from step.hyps(2) step.IH show ?case
  proof (induction rule: search_step.induct)
    case (ks_fires timer s l)
    then show ?case using searches_ok_begins [of s l "fst timer" "fst (snd timer)" "snd (snd timer)"] by simp
  qed (simp_all add: searches_ok_trigger searches_ok_clear searches_ok_ends)
qed

text \<open>
  C26: a result that reaches the page is the result for the keyword that was entered last for its key, and no newer search of the key
  is being waited for: neither a slow answer nor one from before the key was cleared is shown, for any number of keys
  and in any order of timeouts and answers.
\<close>

theorem delivered_result_is_for_the_last_keyword:
  assumes "search_step\<^sup>*\<^sup>* (no_searches, \<lambda>_. None) (s, l)" "f \<in> set (ks_flights s)" "delivers f s"
  shows "l (fl_key f) = Some (fl_keyword f) \<and> ks_timers s (fl_key f) = None"
proof -
  have ok: "searches_ok s l" using searches_ok_reachable [OF assms(1)] by simp
  have "live f s" using assms(2,3) by (simp add: live_def delivers_def)
  then show ?thesis using searches_okD(2) [OF ok] searches_okD(3) [OF ok, of "fl_key f"]
    by (cases "ks_timers s (fl_key f)") auto
qed

definition second_search :: searches where
  "second_search = search_begins (3, ''k'', ''ab'') (trigger ''k'' ''ab'' (search_begins (1, ''k'', ''a'') (trigger ''k'' ''a'' no_searches)))"

theorem delivered_result_is_for_the_last_keyword_witness:
  "map (\<lambda>f. (fl_keyword f, delivers f second_search)) (ks_flights second_search) = [(''a'', False), (''ab'', True)]
   \<and> ks_timers second_search ''k'' = None"
proof -
  let ?a = "trigger ''k'' ''a'' no_searches"
  let ?l = "(\<lambda>_. None)(''k'' \<mapsto> ''a'')"
  have "search_step (no_searches, \<lambda>_. None) (?a, ?l)" by (rule ks_trigger)
  moreover have "search_step (?a, ?l) (search_begins (1, ''k'', ''a'') ?a, ?l)" by (rule ks_fires) code_simp
  moreover have "search_step (search_begins (1, ''k'', ''a'') ?a, ?l) (trigger ''k'' ''ab'' (search_begins (1, ''k'', ''a'') ?a), ?l(''k'' \<mapsto> ''ab''))"
    by (rule ks_trigger)
  moreover have "search_step (trigger ''k'' ''ab'' (search_begins (1, ''k'', ''a'') ?a), ?l(''k'' \<mapsto> ''ab'')) (second_search, ?l(''k'' \<mapsto> ''ab''))"
    unfolding second_search_def by (rule ks_fires) code_simp
  ultimately have r: "search_step\<^sup>*\<^sup>* (no_searches, \<lambda>_. None) (second_search, ?l(''k'' \<mapsto> ''ab''))"
    by (meson rtranclp.rtrancl_into_rtrancl rtranclp.rtrancl_refl)
  let ?f = "\<lparr>fl_controller = 4, fl_key = ''k'', fl_keyword = ''ab'', fl_version = Some 2\<rparr>"
  have "?f \<in> set (ks_flights second_search)" "delivers ?f second_search" by code_simp+
  from delivered_result_is_for_the_last_keyword [OF r this] have "ks_timers second_search ''k'' = None" by simp
  moreover have "map (\<lambda>f. (fl_keyword f, delivers f second_search)) (ks_flights second_search) = [(''a'', False), (''ab'', True)]"
    by code_simp
  ultimately show ?thesis by blast
qed

section \<open>The second factor\<close>

text \<open>An error by the two fields that are looked at.\<close>

record action_error =
  ae_code :: "json option"
  ae_reason :: "json option"

definition markerOf :: "action_error \<Rightarrow> string" where
  "markerOf e = (case find (\<lambda>v. starts_with v ''STEP_UP'') (map (\<lambda>v. case v of Some (JStr s) \<Rightarrow> s | _ \<Rightarrow> '''') [ae_code e, ae_reason e]) of
     Some v \<Rightarrow> v | None \<Rightarrow> '''')"

definition isStepUpRequired :: "action_error \<Rightarrow> bool" where
  "isStepUpRequired e \<longleftrightarrow> markerOf e = ''STEP_UP_REQUIRED''"

definition isStepUpBlocked :: "action_error \<Rightarrow> bool" where
  "isStepUpBlocked e \<longleftrightarrow> markerOf e = ''STEP_UP_TOTP_NOT_ENABLED'' \<or> markerOf e = ''STEP_UP_ADMIN_API_KEY_FORBIDDEN''"

text \<open>How far a call of \<open>run\<close> is, and how it ended; the calls of one controller share the dialogue.\<close>

datatype run_pc = Not_called | First_try | Prompted | Second_try | Succeeded | Failed action_error | Cancelled

record step_up =
  su_visible :: bool
  su_blockedReason :: string
  su_prompt :: bool
  su_runs :: "nat \<Rightarrow> run_pc"
  su_tries :: "nat \<Rightarrow> nat"
  su_verified :: nat

definition useStepUp :: step_up where
  "useStepUp = \<lparr>su_visible = False, su_blockedReason = '''', su_prompt = False, su_runs = (\<lambda>_. Not_called), su_tries = (\<lambda>_. 0), su_verified = 0\<rparr>"

definition run_at :: "nat \<Rightarrow> run_pc \<Rightarrow> step_up \<Rightarrow> step_up" where
  "run_at r c s = s\<lparr>su_runs := (su_runs s)(r := c)\<rparr>"

definition call_action :: "nat \<Rightarrow> run_pc \<Rightarrow> step_up \<Rightarrow> step_up" where
  "call_action r c s = (run_at r c s)\<lparr>su_tries := (su_tries s)(r := su_tries s r + 1)\<rparr>"

definition prompt :: "step_up \<Rightarrow> step_up" where
  "prompt s = (if su_prompt s then s else s\<lparr>su_visible := True, su_prompt := True\<rparr>)"

text \<open>The end of the first try: \<open>None\<close> is success.\<close>

definition first_try_ends :: "nat \<Rightarrow> action_error option \<Rightarrow> step_up \<Rightarrow> step_up" where
  "first_try_ends r result s = (case result of
     None \<Rightarrow> run_at r Succeeded s
   | Some e \<Rightarrow> if isStepUpBlocked e then run_at r (Failed e) (s\<lparr>su_blockedReason := markerOf e\<rparr>)
               else if \<not> isStepUpRequired e then run_at r (Failed e) s
               else run_at r Prompted (prompt s))"

definition second_try_ends :: "nat \<Rightarrow> action_error option \<Rightarrow> step_up \<Rightarrow> step_up" where
  "second_try_ends r result s = run_at r (case result of None \<Rightarrow> Succeeded | Some e \<Rightarrow> Failed e) s"

text \<open>\<open>onVerified\<close> and \<open>onCancel\<close> resume every call that waits for the dialogue; \<open>su_verified\<close> counts the verifications.\<close>

definition onVerified :: "step_up \<Rightarrow> step_up" where
  "onVerified s = s\<lparr>su_visible := False, su_prompt := False, su_verified := su_verified s + 1,
     su_runs := (\<lambda>r. if su_runs s r = Prompted then Second_try else su_runs s r),
     su_tries := (\<lambda>r. if su_runs s r = Prompted then su_tries s r + 1 else su_tries s r)\<rparr>"

definition onCancel :: "step_up \<Rightarrow> step_up" where
  "onCancel s = s\<lparr>su_visible := False, su_prompt := False, su_runs := (\<lambda>r. if su_runs s r = Prompted then Cancelled else su_runs s r)\<rparr>"

inductive step_up_step :: "step_up \<Rightarrow> step_up \<Rightarrow> bool" where
  su_call: "su_runs s r = Not_called \<Longrightarrow> step_up_step s (call_action r First_try s)"
| su_first: "su_runs s r = First_try \<Longrightarrow> step_up_step s (first_try_ends r result s)"
| su_second: "su_runs s r = Second_try \<Longrightarrow> step_up_step s (second_try_ends r result s)"
| su_verify: "su_prompt s \<Longrightarrow> step_up_step s (onVerified s)"
| su_cancel: "su_prompt s \<Longrightarrow> step_up_step s (onCancel s)"

definition tries_ok :: "step_up \<Rightarrow> nat \<Rightarrow> bool" where
  "tries_ok s r \<longleftrightarrow> (case su_runs s r of Not_called \<Rightarrow> su_tries s r = 0 | First_try \<Rightarrow> su_tries s r = 1 | Prompted \<Rightarrow> su_tries s r = 1 \<and> su_prompt s
     | Cancelled \<Rightarrow> su_tries s r = 1 | Second_try \<Rightarrow> su_tries s r = 2 \<and> 0 < su_verified s
     | _ \<Rightarrow> su_tries s r = 1 \<or> su_tries s r = 2 \<and> 0 < su_verified s)"

definition step_up_ok :: "step_up \<Rightarrow> bool" where
  "step_up_ok s \<longleftrightarrow> (su_visible s \<longleftrightarrow> su_prompt s) \<and> (su_prompt s \<longrightarrow> (\<exists>r. su_runs s r = Prompted)) \<and> (\<forall>r. tries_ok s r)"

lemma first_try_cases:
  assumes "su_visible s = su_prompt s"
  shows "\<exists>c s'. first_try_ends r result s = run_at r c s' \<and> su_runs s' = su_runs s \<and> su_tries s' = su_tries s \<and> su_verified s' = su_verified s
    \<and> (c = Prompted \<and> su_prompt s' \<and> su_visible s' \<or> c \<noteq> Prompted \<and> c \<in> insert Succeeded (range Failed) \<and> su_prompt s' = su_prompt s \<and> su_visible s' = su_visible s)"
proof (cases result)
  case None
  then show ?thesis by (intro exI [of _ Succeeded] exI [of _ s]) (simp add: first_try_ends_def)
next
  case (Some e)
  consider "isStepUpBlocked e" | "\<not> isStepUpBlocked e" "\<not> isStepUpRequired e" | "\<not> isStepUpBlocked e" "isStepUpRequired e" by blast
  then show ?thesis
  proof cases
    case 1
    then show ?thesis using Some by (intro exI [of _ "Failed e"] exI [of _ "s\<lparr>su_blockedReason := markerOf e\<rparr>"]) (simp add: first_try_ends_def)
  next
    case 2
    then show ?thesis using Some by (intro exI [of _ "Failed e"] exI [of _ s]) (simp add: first_try_ends_def)
  next
    case 3
    then show ?thesis using Some assms by (intro exI [of _ Prompted] exI [of _ "prompt s"]) (simp add: first_try_ends_def prompt_def)
  qed
qed

lemma step_up_ok_step: "step_up_step s s' \<Longrightarrow> step_up_ok s \<Longrightarrow> step_up_ok s'"
proof (induction rule: step_up_step.induct)
  case (su_call s r)
  have "tries_ok (call_action r First_try s) q" for q
  proof -
    have "tries_ok s q" "tries_ok s r" using su_call.prems by (simp_all add: step_up_ok_def)
    then show ?thesis using su_call.hyps by (cases "q = r") (auto simp: tries_ok_def call_action_def run_at_def split: run_pc.splits)
  qed
  moreover have "\<exists>q. su_runs (call_action r First_try s) q = Prompted" if p: "su_prompt s"
  proof -
    obtain q where "su_runs s q = Prompted" using p su_call.prems by (auto simp: step_up_ok_def)
    then show ?thesis using su_call.hyps by (intro exI [of _ q]) (auto simp: call_action_def run_at_def)
  qed
  ultimately show ?case using su_call.prems by (simp add: step_up_ok_def call_action_def run_at_def)
next
  case (su_first s r result)
  obtain c s' where f: "first_try_ends r result s = run_at r c s'" "su_runs s' = su_runs s" "su_tries s' = su_tries s" "su_verified s' = su_verified s"
    "c = Prompted \<and> su_prompt s' \<and> su_visible s' \<or> c \<noteq> Prompted \<and> c \<in> insert Succeeded (range Failed) \<and> su_prompt s' = su_prompt s \<and> su_visible s' = su_visible s"
    using first_try_cases su_first.prems unfolding step_up_ok_def by blast
  have "tries_ok (run_at r c s') q" for q
  proof (cases "q = r")
    case True
    have "tries_ok s r" using su_first.prems by (simp add: step_up_ok_def)
    then have "su_tries s r = 1" using su_first.hyps by (simp add: tries_ok_def)
    then show ?thesis using True f(2-5) by (auto simp: tries_ok_def run_at_def)
  next
    case False
    have "tries_ok s q" using su_first.prems by (simp add: step_up_ok_def)
    moreover have "su_prompt s' \<or> \<not> su_prompt s" using f(5) by blast
    ultimately show ?thesis using False f(2-4) by (simp add: tries_ok_def run_at_def split: run_pc.splits)
  qed
  moreover have "\<exists>q. su_runs (run_at r c s') q = Prompted" if p: "su_prompt s'"
  proof (cases "c = Prompted")
    case True
    then show ?thesis by (auto simp: run_at_def)
  next
    case False
    then obtain q where "su_runs s q = Prompted" using p f(5) su_first.prems by (auto simp: step_up_ok_def)
    then show ?thesis using su_first.hyps f(2) by (intro exI [of _ q]) (auto simp: run_at_def)
  qed
  moreover have "su_visible s' = su_prompt s'" using f(5) su_first.prems by (auto simp: step_up_ok_def)
  ultimately show ?case unfolding f(1) by (simp add: step_up_ok_def) (simp add: run_at_def)
next
  case (su_second s r result)
  have "tries_ok (second_try_ends r result s) q" for q
  proof -
    have "tries_ok s q" "tries_ok s r" using su_second.prems by (simp_all add: step_up_ok_def)
    then show ?thesis using su_second.hyps
      by (cases "q = r") (auto simp: tries_ok_def second_try_ends_def run_at_def split: option.splits run_pc.splits)
  qed
  moreover have "\<exists>q. su_runs (second_try_ends r result s) q = Prompted" if p: "su_prompt s"
  proof -
    obtain q where "su_runs s q = Prompted" using p su_second.prems by (auto simp: step_up_ok_def)
    then show ?thesis using su_second.hyps by (intro exI [of _ q]) (auto simp: second_try_ends_def run_at_def)
  qed
  ultimately show ?case using su_second.prems by (simp add: step_up_ok_def second_try_ends_def run_at_def)
next
  case (su_verify s)
  have "tries_ok (onVerified s) q" for q
  proof -
    have "tries_ok s q" using su_verify.prems by (simp add: step_up_ok_def)
    then show ?thesis by (auto simp: tries_ok_def onVerified_def split: run_pc.splits)
  qed
  then show ?case by (simp add: step_up_ok_def) (simp add: onVerified_def)
next
  case (su_cancel s)
  have "tries_ok (onCancel s) q" for q
  proof -
    have "tries_ok s q" using su_cancel.prems by (simp add: step_up_ok_def)
    then show ?thesis by (auto simp: tries_ok_def onCancel_def split: run_pc.splits)
  qed
  then show ?case by (simp add: step_up_ok_def) (simp add: onCancel_def)
qed

text \<open>
  The dialogue for the second factor is open exactly while a call waits for it; an action is called at most twice, a second time
  only when a code was verified, and exactly once when the user cancels.
\<close>

theorem step_up_retries_once_after_verification:
  assumes "step_up_step\<^sup>*\<^sup>* useStepUp s"
  shows "su_visible s = (\<exists>q. su_runs s q = Prompted) \<and> su_tries s r \<le> 2
    \<and> (su_tries s r = 2 \<longrightarrow> 0 < su_verified s) \<and> (su_runs s r = Cancelled \<longrightarrow> su_tries s r = 1)"
proof -
  from assms have ok: "step_up_ok s"
  proof (induction rule: rtranclp_induct)
    case base
    then show ?case by (simp add: step_up_ok_def tries_ok_def useStepUp_def)
  next
    case (step s s')
    then show ?case using step_up_ok_step by blast
  qed
  then have t: "tries_ok s q" for q by (simp add: step_up_ok_def)
  have "su_prompt s" if "su_runs s q = Prompted" for q using t [of q] that by (simp add: tries_ok_def)
  then have "su_visible s = (\<exists>q. su_runs s q = Prompted)" using ok unfolding step_up_ok_def by blast
  then show ?thesis using t [of r] by (auto simp: tries_ok_def split: run_pc.splits)
qed

definition required_error :: action_error where
  "required_error = \<lparr>ae_code = Some (JNum 403), ae_reason = Some (JStr ''STEP_UP_REQUIRED'')\<rparr>"

theorem step_up_retries_once_after_verification_witness:
  "su_tries (onVerified (first_try_ends 1 (Some required_error) (call_action 1 First_try useStepUp))) 1 = 2
   \<and> 0 < su_verified (onVerified (first_try_ends 1 (Some required_error) (call_action 1 First_try useStepUp)))"
proof -
  let ?s1 = "call_action 1 First_try useStepUp" and ?s2 = "first_try_ends 1 (Some required_error) (call_action 1 First_try useStepUp)"
  have "step_up_step useStepUp ?s1" by (rule su_call) (simp add: useStepUp_def)
  moreover have "step_up_step ?s1 ?s2" by (rule su_first) (simp add: call_action_def run_at_def)
  moreover have "su_prompt ?s2" by code_simp
  then have "step_up_step ?s2 (onVerified ?s2)" by (rule su_verify)
  ultimately have r: "step_up_step\<^sup>*\<^sup>* useStepUp (onVerified ?s2)"
    by (meson rtranclp.rtrancl_into_rtrancl rtranclp.rtrancl_refl)
  have "su_tries (onVerified ?s2) 1 = 2" by code_simp
  then show ?thesis using step_up_retries_once_after_verification [OF r, of 1] by blast
qed

section \<open>The periodic refresh\<close>

record auto_refresh =
  ar_enabled :: bool
  ar_interval :: rat
  ar_countdown :: rat
  ar_fetching :: bool
  ar_timer :: bool

text \<open>The set-up, with the settings kept in the browser; \<open>intervals\<close> are the choices, of which the last one is the default.\<close>

definition loadFromStorage :: "js_env \<Rightarrow> string \<Rightarrow> rat list \<Rightarrow> storage \<Rightarrow> auto_refresh \<Rightarrow> auto_refresh" where
  "loadFromStorage E key intervals ls a = (if absent (ls key) then a else case je_parse E (the (ls key)) of
     None \<Rightarrow> a
   | Some JNull \<Rightarrow> a
   | Some v \<Rightarrow> (let a1 = a\<lparr>ar_enabled := (getp v ''enabled'' = Some (JBool True))\<rparr>
       in case js_Number E (getp v ''interval_seconds'') of
            Some q \<Rightarrow> if q \<in> set intervals then a1\<lparr>ar_interval := q\<rparr> else a1
          | None \<Rightarrow> a1))"

definition useAutoRefresh :: "js_env \<Rightarrow> string \<Rightarrow> rat list \<Rightarrow> rat option \<Rightarrow> bool \<Rightarrow> storage \<Rightarrow> auto_refresh" where
  "useAutoRefresh E key intervals defaultInterval defaultEnabled ls = loadFromStorage E key intervals ls
     \<lparr>ar_enabled = defaultEnabled, ar_interval = (case defaultInterval of Some i \<Rightarrow> i | None \<Rightarrow> last intervals),
       ar_countdown = 0, ar_fetching = False, ar_timer = False\<rparr>"

definition saveToStorage :: "js_env \<Rightarrow> string \<Rightarrow> auto_refresh \<Rightarrow> storage \<Rightarrow> storage" where
  "saveToStorage E key a ls = ls(key \<mapsto> stringify (je_num E) (JObj [(''enabled'', JBool (ar_enabled a)), (''interval_seconds'', JNum (ar_interval a))]))"

text \<open>\<open>tick\<close>, with whether it calls \<open>onRefresh\<close>; and the end of that call.\<close>

definition tick :: "bool \<Rightarrow> auto_refresh \<Rightarrow> bool \<times> auto_refresh" where
  "tick paused a =
     (if \<not> ar_enabled a \<or> paused \<or> ar_fetching a then (False, a)
      else if ar_countdown a \<le> 1 then (True, a\<lparr>ar_countdown := ar_interval a, ar_fetching := True\<rparr>)
      else (False, a\<lparr>ar_countdown := ar_countdown a - 1\<rparr>))"

definition refresh_ends :: "auto_refresh \<Rightarrow> auto_refresh" where
  "refresh_ends a = a\<lparr>ar_fetching := False\<rparr>"

definition start_refreshing :: "auto_refresh \<Rightarrow> auto_refresh" where
  "start_refreshing a = (if ar_timer a then a else a\<lparr>ar_timer := True\<rparr>)"

definition stop_refreshing :: "auto_refresh \<Rightarrow> auto_refresh" where
  "stop_refreshing a = (if ar_timer a then a\<lparr>ar_timer := False\<rparr> else a)"

definition setEnabled :: "js_env \<Rightarrow> string \<Rightarrow> bool \<Rightarrow> auto_refresh \<times> storage \<Rightarrow> auto_refresh \<times> storage" where
  "setEnabled E key b as = (case as of (a, ls) \<Rightarrow>
     (let a1 = a\<lparr>ar_enabled := b\<rparr>
      in (if b then start_refreshing (a1\<lparr>ar_countdown := ar_interval a1\<rparr>) else (stop_refreshing a1)\<lparr>ar_countdown := 0\<rparr>,
          saveToStorage E key a1 ls)))"

definition setInterval :: "js_env \<Rightarrow> string \<Rightarrow> rat \<Rightarrow> auto_refresh \<times> storage \<Rightarrow> auto_refresh \<times> storage" where
  "setInterval E key q as = (case as of (a, ls) \<Rightarrow>
     (let a1 = a\<lparr>ar_interval := q\<rparr> in (if ar_enabled a1 then a1\<lparr>ar_countdown := q\<rparr> else a1, saveToStorage E key a1 ls)))"

definition resetCountdown :: "auto_refresh \<Rightarrow> auto_refresh" where
  "resetCountdown a = a\<lparr>ar_countdown := ar_interval a\<rparr>"

text \<open>A refresh is never called while one runs, and after one begins \<open>n\<close> whole seconds pass until the next, \<open>n\<close> being the interval.\<close>

lemma no_refresh_during_refresh: "fst (tick paused a) \<Longrightarrow> \<not> ar_fetching a \<and> ar_fetching (snd (tick paused a))"
  by (simp add: tick_def split: if_splits)

lemma ticks_until_refresh:
  assumes "ar_enabled a" "\<not> ar_fetching a" "ar_countdown a = of_nat (Suc n)"
  shows "((snd \<circ> tick False) ^^ n) a = a\<lparr>ar_countdown := 1\<rparr> \<and> fst (tick False (((snd \<circ> tick False) ^^ n) a))"
  using assms
proof (induction n arbitrary: a)
  case (Suc n)
  let ?a = "a\<lparr>ar_countdown := of_nat (Suc n)\<rparr>"
  have "snd (tick False a) = ?a" using Suc.prems by (simp add: tick_def)
  moreover have "fst (tick False (a\<lparr>ar_countdown := 1\<rparr>))" using Suc.prems by (simp add: tick_def)
  ultimately show ?case using Suc.IH [of ?a] Suc.prems by (simp add: funpow_Suc_right del: funpow.simps)
qed (simp_all add: tick_def)

end
