(* ===== verification/Front_Tables.thy ===== *)
theory Front_Tables
  imports Front_Storage
begin

text \<open>
  The tables of the web console: the page sizes (\<^verbatim>\<open>utils/tablePreferences.ts\<close>, \<^verbatim>\<open>composables/usePersistedPageSize.ts\<close>), the
  loader (\<^verbatim>\<open>composables/useTableLoader.ts\<close>), the selection of rows (\<^verbatim>\<open>composables/useTableSelection.ts\<close>) and the
  collection of all accounts (\<^verbatim>\<open>utils/accountSelection.ts\<close>).
\<close>

text \<open>\<^verbatim>\<open>Array.from(new Set(xs))\<close>: the elements in the order of their first occurrence.\<close>

definition add_new :: "'a \<Rightarrow> 'a list \<Rightarrow> 'a list" where
  "add_new x xs = (if x \<in> set xs then xs else xs @ [x])"

definition js_set :: "'a list \<Rightarrow> 'a list" where
  "js_set xs = fold add_new xs []"

lemma set_add_new [simp]: "set (add_new x xs) = insert x (set xs)"
  by (auto simp: add_new_def)

lemma distinct_add_new [simp]: "distinct (add_new x xs) = distinct xs"
  by (auto simp: add_new_def)

lemma fold_add_new: "set (fold add_new xs acc) = set acc \<union> set xs \<and> (distinct acc \<longrightarrow> distinct (fold add_new xs acc))"
  by (induction xs arbitrary: acc) auto

lemma fold_add_new_distinct: "distinct (acc @ xs) \<Longrightarrow> fold add_new xs acc = acc @ xs"
  by (induction xs arbitrary: acc) (auto simp: add_new_def)

lemma js_set_simps [simp]: "set (js_set xs) = set xs" "distinct (js_set xs)"
  using fold_add_new [of xs "[]"] by (simp_all add: js_set_def)

lemma js_set_distinct: "distinct xs \<Longrightarrow> js_set xs = xs"
  using fold_add_new_distinct [of "[]" xs] by (simp add: js_set_def)

section \<open>Page sizes\<close>

definition MIN_TABLE_PAGE_SIZE :: int where "MIN_TABLE_PAGE_SIZE = 5"
definition MAX_TABLE_PAGE_SIZE :: int where "MAX_TABLE_PAGE_SIZE = 1000"
definition DEFAULT_TABLE_PAGE_SIZE :: int where "DEFAULT_TABLE_PAGE_SIZE = 20"
definition DEFAULT_TABLE_PAGE_SIZE_OPTIONS :: "int list" where "DEFAULT_TABLE_PAGE_SIZE_OPTIONS = [10, 20, 50, 100]"

text \<open>\<^verbatim>\<open>Number(value)\<close> when it is an integer\<close>

definition integer_of :: "js_env \<Rightarrow> json option \<Rightarrow> int option" where
  "integer_of E v = (case js_Number E v of None \<Rightarrow> None | Some q \<Rightarrow> if q = of_int \<lfloor>q\<rfloor> then Some \<lfloor>q\<rfloor> else None)"

definition sanitizePageSize :: "js_env \<Rightarrow> json option \<Rightarrow> int option" where
  "sanitizePageSize E v = (case integer_of E v of None \<Rightarrow> None
     | Some sz \<Rightarrow> if sz < MIN_TABLE_PAGE_SIZE \<or> MAX_TABLE_PAGE_SIZE < sz then None else Some sz)"

definition parsePageSizeForSelection :: "js_env \<Rightarrow> json option \<Rightarrow> int option" where
  "parsePageSizeForSelection E v = (case integer_of E v of None \<Rightarrow> None | Some sz \<Rightarrow> if sz < MIN_TABLE_PAGE_SIZE then None else Some sz)"

text \<open>\<open>cfg\<close> is \<^verbatim>\<open>window.__APP_CONFIG__\<close>, if the page has one.\<close>

definition config_field :: "json option \<Rightarrow> string \<Rightarrow> json option" where
  "config_field cfg k = Option.bind cfg (\<lambda>c. getp c k)"

definition getSanitizedConfiguredOptions :: "js_env \<Rightarrow> json option \<Rightarrow> int list" where
  "getSanitizedConfiguredOptions E cfg = (case config_field cfg ''table_page_size_options'' of
     Some (JArr vs) \<Rightarrow> sort (js_set (List.map_filter (\<lambda>v. sanitizePageSize E (Some v)) vs))
   | _ \<Rightarrow> [])"

definition normalizePageSizeToOptions :: "int \<Rightarrow> int list \<Rightarrow> int" where
  "normalizePageSizeToOptions sz opts = (case find (\<lambda>x. sz \<le> x) opts of Some x \<Rightarrow> x | None \<Rightarrow> last opts)"

definition getConfiguredTableDefaultPageSize :: "js_env \<Rightarrow> json option \<Rightarrow> int" where
  "getConfiguredTableDefaultPageSize E cfg = (case sanitizePageSize E (config_field cfg ''table_default_page_size'') of
     None \<Rightarrow> DEFAULT_TABLE_PAGE_SIZE | Some sz \<Rightarrow> sz)"

definition getConfiguredTablePageSizeOptions :: "js_env \<Rightarrow> json option \<Rightarrow> int list" where
  "getConfiguredTablePageSizeOptions E cfg = (let opts = getSanitizedConfiguredOptions E cfg
     in if opts = [] then DEFAULT_TABLE_PAGE_SIZE_OPTIONS else opts)"

definition normalizeTablePageSize :: "js_env \<Rightarrow> json option \<Rightarrow> json option \<Rightarrow> int" where
  "normalizeTablePageSize E cfg v =
     (let opts = getConfiguredTablePageSizeOptions E cfg
      in case parsePageSizeForSelection E v of
           Some sz \<Rightarrow> normalizePageSizeToOptions sz opts
         | None \<Rightarrow> normalizePageSizeToOptions (getConfiguredTableDefaultPageSize E cfg) opts)"

definition PAGE_SIZE_KEY :: string where "PAGE_SIZE_KEY = ''table-page-size''"

text \<open>The parameter \<open>fallback\<close> is left out: it stands behind the configured size, which is never 0.\<close>

definition getPersistedPageSize :: "js_env \<Rightarrow> json option \<Rightarrow> storage \<Rightarrow> int" where
  "getPersistedPageSize E cfg ls =
     (let standard = normalizeTablePageSize E cfg (Some (JNum (of_int (getConfiguredTableDefaultPageSize E cfg))))
      in if config_field cfg ''table_default_page_size'' \<noteq> None then standard
         else case ls PAGE_SIZE_KEY of
           None \<Rightarrow> standard
         | Some stored \<Rightarrow> (case je_number E stored of None \<Rightarrow> standard | Some q \<Rightarrow> normalizeTablePageSize E cfg (Some (JNum q))))"

definition setPersistedPageSize :: "js_env \<Rightarrow> rat \<Rightarrow> storage \<Rightarrow> storage" where
  "setPersistedPageSize E sz ls = ls(PAGE_SIZE_KEY \<mapsto> je_num E sz)"

lemma normalizePageSize_mem: "opts \<noteq> [] \<Longrightarrow> normalizePageSizeToOptions sz opts \<in> set opts"
  by (auto simp: normalizePageSizeToOptions_def find_Some_iff split: option.split)

lemma options_nonempty: "getConfiguredTablePageSizeOptions E cfg \<noteq> []"
  by (simp add: getConfiguredTablePageSizeOptions_def DEFAULT_TABLE_PAGE_SIZE_OPTIONS_def Let_def)

lemma sanitized_bounds: "sanitizePageSize E v = Some s \<Longrightarrow> 5 \<le> s \<and> s \<le> 1000"
  by (auto simp: sanitizePageSize_def MIN_TABLE_PAGE_SIZE_def MAX_TABLE_PAGE_SIZE_def split: option.splits if_splits)

lemma options_sorted: "sorted (getConfiguredTablePageSizeOptions E cfg)"
proof -
  have "sorted (getSanitizedConfiguredOptions E cfg)"
    by (simp add: getSanitizedConfiguredOptions_def split: option.split json.split)
  then show ?thesis by (simp add: getConfiguredTablePageSizeOptions_def DEFAULT_TABLE_PAGE_SIZE_OPTIONS_def Let_def)
qed

lemma options_bounds:
  assumes "s \<in> set (getConfiguredTablePageSizeOptions E cfg)"
  shows "5 \<le> s \<and> s \<le> 1000"
proof -
  have "5 \<le> s \<and> s \<le> 1000" if "s \<in> set (getSanitizedConfiguredOptions E cfg)"
    using that sanitized_bounds
    by (fastforce simp: getSanitizedConfiguredOptions_def map_filter_def split: option.splits json.splits)
  then show ?thesis using assms
    by (auto simp: getConfiguredTablePageSizeOptions_def DEFAULT_TABLE_PAGE_SIZE_OPTIONS_def Let_def split: if_splits)
qed

lemma normalizeTablePageSize_mem: "normalizeTablePageSize E cfg v \<in> set (getConfiguredTablePageSizeOptions E cfg)"
  using normalizePageSize_mem [OF options_nonempty] by (simp add: normalizeTablePageSize_def Let_def split: option.split)

text \<open>A size that is offered is kept: the first option that is not smaller is the size itself.\<close>

lemma normalizePageSize_offered:
  assumes "sorted opts" "s \<in> set opts"
  shows "normalizePageSizeToOptions s opts = s"
proof -
  from assms have "find (\<lambda>x. s \<le> x) opts = Some s" by (induction opts) auto
  then show ?thesis by (simp add: normalizePageSizeToOptions_def)
qed

text \<open>
  The size of a page is always one that is offered, an integer between 5 and 1000, whatever the configuration of the
  site holds, whatever was stored in the browser, and the size that a user
  picked among the offered ones is the size of the next page, unless the site prescribes one.
\<close>

theorem page_size_is_offered:
  assumes "s \<in> set (getConfiguredTablePageSizeOptions E cfg)" "config_field cfg ''table_default_page_size'' = None"
    and "je_number E (je_num E (of_int s)) = Some (of_int s)"
  shows "getPersistedPageSize E cfg' ls \<in> set (getConfiguredTablePageSizeOptions E cfg') \<inter> {5..1000}
    \<and> getPersistedPageSize E cfg (setPersistedPageSize E (of_int s) ls) = s"
proof -
  have mem: "getPersistedPageSize E cfg' ls \<in> set (getConfiguredTablePageSizeOptions E cfg')"
    using normalizeTablePageSize_mem by (simp add: getPersistedPageSize_def Let_def split: option.split)
  have "parsePageSizeForSelection E (Some (JNum (of_int s))) = Some s"
    using options_bounds [OF assms(1)] by (simp add: parsePageSizeForSelection_def integer_of_def js_Number_def MIN_TABLE_PAGE_SIZE_def)
  then have "normalizeTablePageSize E cfg (Some (JNum (of_int s))) = s"
    using normalizePageSize_offered [OF options_sorted assms(1)] by (simp add: normalizeTablePageSize_def)
  then have "getPersistedPageSize E cfg (setPersistedPageSize E (of_int s) ls) = s"
    using assms(2,3) by (simp add: getPersistedPageSize_def setPersistedPageSize_def)
  then show ?thesis using mem options_bounds [OF mem] by simp
qed

definition witness_decimal :: js_env where
  "witness_decimal = \<lparr>je_parse = (\<lambda>_. None), je_num = (\<lambda>q. if q = 50 then ''50'' else []), je_number = (\<lambda>s. if s = ''50'' then Some 50 else None),
     je_object_number = (\<lambda>_. None)\<rparr>"

theorem page_size_is_offered_witness:
  "getPersistedPageSize witness_decimal None (\<lambda>_. None) = 20
   \<and> getPersistedPageSize witness_decimal None (setPersistedPageSize witness_decimal 50 (\<lambda>_. None)) = 50"
proof -
  have "50 \<in> set (getConfiguredTablePageSizeOptions witness_decimal None)" "config_field None ''table_default_page_size'' = None"
    "je_number witness_decimal (je_num witness_decimal (of_int 50)) = Some (of_int 50)" by code_simp+
  from page_size_is_offered [OF this, of None "\<lambda>_. None"]
  have "getPersistedPageSize witness_decimal None (setPersistedPageSize witness_decimal (of_int 50) (\<lambda>_. None)) = 50" by blast
  moreover have "getPersistedPageSize witness_decimal None (\<lambda>_. None) = 20" by code_simp
  ultimately show ?thesis by simp
qed

section \<open>All accounts\<close>

text \<open>\<open>fetch k\<close> is the answer for page \<open>k\<close>, each page being asked for once.\<close>

record id_page =
  ip_ids :: "int list"
  ip_total :: nat
  ip_pages :: "nat option"

definition SELECT_ALL_PAGE_SIZE :: nat where "SELECT_ALL_PAGE_SIZE = 1000"

text \<open>\<^verbatim>\<open>Math.ceil(total / SELECT_ALL_PAGE_SIZE)\<close>\<close>

definition page_count :: "id_page \<Rightarrow> nat" where
  "page_count p = max (case ip_pages p of None \<Rightarrow> 0 | Some k \<Rightarrow> k) ((ip_total p + SELECT_ALL_PAGE_SIZE - 1) div SELECT_ALL_PAGE_SIZE)"

text \<open>The error, whose Chinese text is given in English.\<close>

definition incomplete_list :: thrown where
  "incomplete_list = js_error_of ''Error'' ''the list of accounts is incomplete''"

definition fetchAllAccountIds :: "(nat \<Rightarrow> thrown + id_page) \<Rightarrow> thrown + int list" where
  "fetchAllAccountIds fetch = bind_js (fetch 1) (\<lambda>first. bind_js (map_js fetch [2..<page_count first + 1]) (\<lambda>rest.
     let ids = js_set (ip_ids first @ concat (map ip_ids rest))
     in if length ids \<noteq> ip_total first then Inl incomplete_list else Inr ids))"

text \<open>Whatever the pages hold, also while the accounts change between them, the result is as long as announced, without repetition.\<close>

lemma fetched_ids_complete:
  assumes "fetchAllAccountIds fetch = Inr ids" "fetch 1 = Inr first"
  shows "distinct ids \<and> length ids = ip_total first"
  using assms by (auto simp: fetchAllAccountIds_def Let_def bind_js_eq_Inr split: if_splits)

lemma concat_slices: "concat (map (\<lambda>k. take m (drop (m * (k - 1)) xs)) [1..<Suc n]) = take (m * n) xs"
proof (induction n)
  case (Suc n)
  have "[1..<Suc (Suc n)] = [1..<Suc n] @ [Suc n]" by simp
  then show ?case using Suc by (simp add: take_add add.commute [of m])
qed simp

text \<open>
  From a server that cuts a list of accounts into pages, all ids are collected, in the order of the list and each once, however
  many pages there are, an empty list and a last page that is full included, whether or not the server counts its pages.
\<close>

theorem all_account_ids_collected:
  assumes "distinct xs" "list_all (\<lambda>p. case p of None \<Rightarrow> True | Some k \<Rightarrow> k \<le> (length xs + 999) div 1000) [pages]"
    and "fetch = (\<lambda>k. Inr \<lparr>ip_ids = take 1000 (drop (1000 * (k - 1)) xs), ip_total = length xs, ip_pages = pages\<rparr>)"
  shows "fetchAllAccountIds fetch = Inr xs"
proof -
  let ?first = "\<lparr>ip_ids = take 1000 (drop (1000 * (1 - 1)) xs), ip_total = length xs, ip_pages = pages\<rparr>"
  let ?n = "(length xs + 999) div 1000"
  let ?slice = "\<lambda>k. take 1000 (drop (1000 * (k - 1)) xs)"
  have n: "page_count ?first = ?n" using assms(2) by (auto simp: page_count_def SELECT_ALL_PAGE_SIZE_def split: option.splits)
  have rest: "map_js fetch ks = Inr (map (\<lambda>k. \<lparr>ip_ids = ?slice k, ip_total = length xs, ip_pages = pages\<rparr>) ks)" for ks
    by (induction ks) (simp_all add: assms(3))
  have "take 1000 xs @ concat (map ?slice [2..<?n + 1]) = xs"
  proof (cases "?n")
    case 0
    then have "length xs = 0" by (simp add: div_eq_0_iff)
    then show ?thesis by simp
  next
    case (Suc k)
    have "[1..<Suc ?n] = 1 # [2..<?n + 1]" using Suc by (simp add: upt_rec numeral_2_eq_2)
    then have "take 1000 xs @ concat (map ?slice [2..<?n + 1]) = concat (map ?slice [1..<Suc ?n])" by simp
    also have "\<dots> = take (1000 * ?n) xs" by (rule concat_slices)
    also have "\<dots> = xs"
    proof -
      have "length xs \<le> 1000 * ?n"
        using div_mult_mod_eq [of "length xs + 999" 1000] mod_less_divisor [of 1000 "length xs + 999"] by linarith
      then show ?thesis by simp
    qed
    finally show ?thesis .
  qed
  moreover define ks where "ks = [2..<?n + 1]"
  ultimately have all: "take 1000 xs @ concat (map ?slice ks) = xs" by simp
  have f: "fetch 1 = Inr ?first" using assms(3) by simp
  have "concat (map ip_ids (map (\<lambda>k. \<lparr>ip_ids = ?slice k, ip_total = length xs, ip_pages = pages\<rparr>) ks)) = concat (map ?slice ks)"
    by (simp add: comp_def)
  then show ?thesis unfolding fetchAllAccountIds_def f bind_js_Inr n ks_def [symmetric] rest Let_def
    using all js_set_distinct [OF assms(1)] by simp
qed

theorem all_account_ids_collected_witness:
  "fetchAllAccountIds (\<lambda>k. Inr \<lparr>ip_ids = take 1000 (drop (1000 * (k - 1)) [7, 3, 5]), ip_total = length [7, 3, 5 :: int], ip_pages = Some 1\<rparr>) = Inr [7, 3, 5]"
  by (rule all_account_ids_collected [of _ "Some 1"]) simp_all

section \<open>The selection of rows\<close>

text \<open>The selected ids in the order of the set; \<open>rows\<close> are the ids of the rows of the present page.\<close>

definition setSelectedIds :: "int list \<Rightarrow> int list" where "setSelectedIds ids = js_set ids"

definition select_row :: "int \<Rightarrow> int list \<Rightarrow> int list" where "select_row i sel = add_new i sel"

definition deselect_row :: "int \<Rightarrow> int list \<Rightarrow> int list" where
  "deselect_row i sel = (if i \<in> set sel then removeAll i sel else sel)"

definition toggle_row :: "int \<Rightarrow> int list \<Rightarrow> int list" where
  "toggle_row i sel = (if i \<in> set sel then deselect_row i sel else select_row i sel)"

definition clear_selection :: "int list \<Rightarrow> int list" where "clear_selection sel = []"

definition removeMany :: "int list \<Rightarrow> int list \<Rightarrow> int list" where
  "removeMany ids sel = fold removeAll ids sel"

definition allVisibleSelected :: "int list \<Rightarrow> int list \<Rightarrow> bool" where
  "allVisibleSelected rows sel \<longleftrightarrow> rows \<noteq> [] \<and> list_all (\<lambda>i. i \<in> set sel) rows"

definition toggleVisible :: "bool \<Rightarrow> int list \<Rightarrow> int list \<Rightarrow> int list" where
  "toggleVisible checked rows sel = fold (if checked then add_new else removeAll) rows sel"

lemma set_removeMany: "set (fold removeAll ids sel) = set sel - set ids \<and> (distinct sel \<longrightarrow> distinct (fold removeAll ids sel))"
  by (induction ids arbitrary: sel) (auto simp: distinct_removeAll)

text \<open>
  The operations on the list of selected ids are the operations on a set of ids: every operation keeps the list free of
  repetitions and has the effect of its set operation, and the box above the table is ticked exactly when there are rows
  and the rows of the page are a subset of the selection.
\<close>

theorem selection_refines_sets:
  assumes "distinct sel"
  shows "distinct (setSelectedIds ids) \<and> set (setSelectedIds ids) = set ids
    \<and> distinct (toggle_row i sel) \<and> set (toggle_row i sel) = (if i \<in> set sel then set sel - {i} else insert i (set sel))
    \<and> distinct (removeMany ids sel) \<and> set (removeMany ids sel) = set sel - set ids
    \<and> distinct (toggleVisible b rows sel) \<and> set (toggleVisible b rows sel) = (if b then set sel \<union> set rows else set sel - set rows)
    \<and> allVisibleSelected rows sel = (rows \<noteq> [] \<and> set rows \<subseteq> set sel)"
proof -
  have "distinct (toggle_row i sel) \<and> set (toggle_row i sel) = (if i \<in> set sel then set sel - {i} else insert i (set sel))"
    using assms by (simp add: toggle_row_def select_row_def deselect_row_def distinct_removeAll)
  moreover have "distinct (toggleVisible b rows sel) \<and> set (toggleVisible b rows sel) = (if b then set sel \<union> set rows else set sel - set rows)"
    using assms fold_add_new [of rows sel] set_removeMany [of rows sel] by (simp add: toggleVisible_def)
  moreover have "allVisibleSelected rows sel = (rows \<noteq> [] \<and> set rows \<subseteq> set sel)"
    by (auto simp: allVisibleSelected_def list_all_iff)
  ultimately show ?thesis using assms set_removeMany [of ids sel] by (simp add: setSelectedIds_def removeMany_def)
qed

theorem selection_refines_sets_witness:
  "toggleVisible True [1, 2] [2, 5] = [2, 5, 1] \<and> set (toggleVisible False [1, 2] [2, 5]) = {5} \<and> allVisibleSelected [2] [2, 5]"
proof -
  have "distinct [2, 5 :: int]" by simp
  note r = selection_refines_sets [OF this]
  have "set (toggleVisible False [1, 2] [2, 5]) = {5}" using r [of _ _ False "[1, 2]"] by simp
  moreover have "allVisibleSelected [2] [2, 5]" using r [of _ _ _ "[2]"] by simp
  moreover have "toggleVisible True [1, 2] [2, 5] = [2, 5, 1]" by code_simp
  ultimately show ?thesis by blast
qed

section \<open>The loader\<close>

text \<open>A request is known by its controller. The parameters of the filter are left to the requests.\<close>

record table =
  tl_items :: "json list"
  tl_loading :: bool
  tl_page :: int
  tl_page_size :: int
  tl_total :: int
  tl_pages :: int
  tl_controller :: "nat option"
  tl_aborted :: "nat list"
  tl_requests :: "nat list"
  tl_next :: nat

definition useTableLoader :: "int \<Rightarrow> table" where
  "useTableLoader pageSize = \<lparr>tl_items = [], tl_loading = False, tl_page = 1, tl_page_size = pageSize, tl_total = 0, tl_pages = 0,
     tl_controller = None, tl_aborted = [], tl_requests = [], tl_next = 0\<rparr>"

definition abort_controller :: "table \<Rightarrow> table" where
  "abort_controller t = (case tl_controller t of None \<Rightarrow> t | Some c \<Rightarrow> t\<lparr>tl_aborted := c # tl_aborted t\<rparr>)"

definition load_table :: "table \<Rightarrow> table" where
  "load_table t = (let t1 = abort_controller t; c = tl_next t1
     in t1\<lparr>tl_controller := Some c, tl_requests := tl_requests t1 @ [c], tl_next := c + 1, tl_loading := True\<rparr>)"

text \<open>The end of the request \<open>c\<close>: an answer, with items, the total and the number of pages, or an error, which is thrown on unless it is the abort.\<close>

definition table_loaded :: "nat \<Rightarrow> (json list \<times> int \<times> int) option \<Rightarrow> table \<Rightarrow> table" where
  "table_loaded c answer t =
     (let t1 = (case answer of Some (rows, n, k) \<Rightarrow> t\<lparr>tl_items := rows, tl_total := n, tl_pages := k\<rparr> | None \<Rightarrow> t)
      in t1\<lparr>tl_requests := removeAll c (tl_requests t1), tl_loading := (if tl_controller t1 = Some c then False else tl_loading t1)\<rparr>)"

definition reload_table :: "table \<Rightarrow> table" where
  "reload_table t = load_table (t\<lparr>tl_page := 1\<rparr>)"

definition handlePageChange :: "int \<Rightarrow> table \<Rightarrow> table" where
  "handlePageChange page t = load_table (t\<lparr>tl_page := max 1 (min page (if tl_pages t = 0 then 1 else tl_pages t))\<rparr>)"

definition handlePageSizeChange :: "js_env \<Rightarrow> int \<Rightarrow> table \<times> storage \<Rightarrow> table \<times> storage" where
  "handlePageSizeChange E n ts = (case ts of (t, ls) \<Rightarrow> (load_table (t\<lparr>tl_page_size := n, tl_page := 1\<rparr>), setPersistedPageSize E (of_int n) ls))"

text \<open>The steps; a request that was aborted ends with an error, as the HTTP client documents.\<close>

inductive table_step :: "table \<Rightarrow> table \<Rightarrow> bool" where
  tl_load: "table_step t (load_table t)"
| tl_reload: "table_step t (reload_table t)"
| tl_page_change: "table_step t (handlePageChange page t)"
| tl_size_change: "table_step t (fst (handlePageSizeChange E n (t, ls)))"
| tl_answer: "c \<in> set (tl_requests t) \<Longrightarrow> c \<notin> set (tl_aborted t) \<Longrightarrow> table_step t (table_loaded c (Some answer) t)"
| tl_error: "c \<in> set (tl_requests t) \<Longrightarrow> table_step t (table_loaded c None t)"
| tl_unmount: "table_step t (abort_controller t)"

definition table_ok :: "table \<Rightarrow> bool" where
  "table_ok t \<longleftrightarrow> 1 \<le> tl_page t
     \<and> (\<forall>c \<in> set (tl_requests t). c < tl_next t \<and> (c \<in> set (tl_aborted t) \<or> tl_controller t = Some c))
     \<and> (\<forall>c. tl_controller t = Some c \<longrightarrow> c < tl_next t)
     \<and> (tl_loading t \<longleftrightarrow> (case tl_controller t of None \<Rightarrow> False | Some c \<Rightarrow> c \<in> set (tl_requests t)))"

lemma table_ok_load:
  assumes "table_ok (t\<lparr>tl_page := p\<rparr>)" "1 \<le> q"
  shows "table_ok (load_table (t\<lparr>tl_page_size := n, tl_page := q\<rparr>))"
  using assms by (cases "tl_controller t") (auto simp: table_ok_def load_table_def abort_controller_def Let_def)

lemma table_ok_page: "table_ok t \<Longrightarrow> 1 \<le> p \<Longrightarrow> table_ok (t\<lparr>tl_page := p\<rparr>)"
  by (cases "tl_controller t") (simp_all add: table_ok_def)

lemma table_ok_loaded: "table_ok t \<Longrightarrow> table_ok (table_loaded c a t)"
  by (cases a) (auto simp: table_ok_def table_loaded_def Let_def split: option.splits)

lemma table_ok_step: "table_step t t' \<Longrightarrow> table_ok t \<Longrightarrow> table_ok t'"
proof (induction rule: table_step.induct)
  case (tl_load t)
  then show ?case using table_ok_load [of 1 t "tl_page t" "tl_page_size t"] table_ok_page [of t 1] by (simp add: table_ok_def)
next
  case (tl_reload t)
  then show ?case using table_ok_load [of 1 t 1 "tl_page_size t"] table_ok_page [of t 1] by (simp add: reload_table_def)
next
  case (tl_page_change t page)
  then show ?case using table_ok_load [of 1 t "max 1 (min page (if tl_pages t = 0 then 1 else tl_pages t))" "tl_page_size t"] table_ok_page [of t 1]
    by (simp add: handlePageChange_def)
next
  case (tl_size_change t E n ls)
  then show ?case using table_ok_load [of 1 t 1 n] table_ok_page [of t 1] by (simp add: handlePageSizeChange_def)
next
  case (tl_unmount t)
  then show ?case by (cases "tl_controller t") (auto simp: table_ok_def abort_controller_def)
qed (simp_all add: table_ok_loaded)

text \<open>An answer that is shown is the answer to the last request, after which nothing is loading.\<close>

lemma shown_answer_is_latest:
  assumes "table_step\<^sup>*\<^sup>* (useTableLoader pageSize) t" "c \<in> set (tl_requests t)" "c \<notin> set (tl_aborted t)"
  shows "tl_controller t = Some c \<and> \<not> tl_loading (table_loaded c a t) \<and> 1 \<le> tl_page t"
proof -
  from assms(1) have "table_ok t"
  proof (induction rule: rtranclp_induct)
    case base
    then show ?case by (simp add: table_ok_def useTableLoader_def)
  next
    case (step t t')
    then show ?case using table_ok_step by blast
  qed
  then have "tl_controller t = Some c" "1 \<le> tl_page t" using assms(2,3) by (auto simp: table_ok_def)
  then show ?thesis by (simp add: table_loaded_def Let_def split: option.split prod.split)
qed

end
