(* ===== verification/Front_Email.thy ===== *)
theory Front_Email
  imports Front_Tables
begin

text \<open>
  \<^verbatim>\<open>utils/registrationEmailPolicy.ts\<close>: the domains from which users may register, and \<^verbatim>\<open>utils/oauthAffiliate.ts\<close>: the
  referral code that is kept for a registration. The full-width comma, which also separates domains, is no character of the model.
\<close>

section \<open>Domains\<close>

definition domain_alnum :: "char \<Rightarrow> bool" where
  "domain_alnum c \<longleftrightarrow> is_digit c \<or> (97 \<le> (of_char c :: nat) \<and> (of_char c :: nat) \<le> 122)"

definition domain_char :: "char \<Rightarrow> bool" where
  "domain_char c \<longleftrightarrow> domain_alnum c \<or> c = CHR ''.'' \<or> c = CHR ''-''"

definition email_separator :: "char \<Rightarrow> bool" where
  "email_separator c \<longleftrightarrow> is_ws c \<or> c = CHR '',''"

text \<open>\<open>EMAIL_SUFFIX_DOMAIN_PATTERN\<close>: labels of at most 63 characters with no hyphen at an end, at least two of them.\<close>

definition domain_label :: "string \<Rightarrow> bool" where
  "domain_label l \<longleftrightarrow> l \<noteq> [] \<and> length l \<le> 63 \<and> domain_alnum (hd l) \<and> domain_alnum (last l) \<and> list_all (\<lambda>c. domain_alnum c \<or> c = CHR ''-'') l"

definition domain_pattern :: "string \<Rightarrow> bool" where
  "domain_pattern d \<longleftrightarrow> 2 \<le> length (split_on CHR ''.'' d) \<and> list_all domain_label (split_on CHR ''.'' d)"

definition normalizeRegistrationEmailSuffixToken :: "string \<Rightarrow> bool \<Rightarrow> string" where
  "normalizeRegistrationEmailSuffixToken v strict =
     (if starts_with v ''*.''
      then (let d = drop 2 v
            in if strict \<and> (d = '''' \<or> list_ex (\<lambda>c. \<not> domain_char c) d) then '''' else ''*.'' @ filter domain_char d)
      else if v = ''*'' then (if strict then '''' else v)
      else if strict \<and> list_ex (\<lambda>c. \<not> domain_char c) v then ''''
      else filter domain_char (filter (\<lambda>c. c \<noteq> CHR ''*'') v))"

definition normalize_suffix :: "bool \<Rightarrow> string \<Rightarrow> string" where
  "normalize_suffix strict raw = (let v = lower (trim raw)
     in if v = '''' then '''' else normalizeRegistrationEmailSuffixToken (dropWhile (\<lambda>c. c = CHR ''@'') v) strict)"

definition normalizeRegistrationEmailSuffixDomain :: "string \<Rightarrow> string" where
  "normalizeRegistrationEmailSuffixDomain raw = normalize_suffix False raw"

definition normalizeRegistrationEmailSuffixDomainStrict :: "string \<Rightarrow> string" where
  "normalizeRegistrationEmailSuffixDomainStrict raw = normalize_suffix True raw"

definition isRegistrationEmailSuffixDomainValid :: "string \<Rightarrow> bool" where
  "isRegistrationEmailSuffixDomainValid d \<longleftrightarrow>
     d \<noteq> '''' \<and> (if starts_with d ''*.'' then domain_pattern (drop 2 d) else CHR ''*'' \<notin> set d \<and> domain_pattern d)"

definition collect_domain :: "(string \<Rightarrow> string) \<Rightarrow> string \<Rightarrow> string list \<Rightarrow> string list" where
  "collect_domain f item acc = (let d = f item in if \<not> isRegistrationEmailSuffixDomainValid d \<or> d \<in> set acc then acc else acc @ [d])"

definition normalizeRegistrationEmailSuffixDomains :: "string list \<Rightarrow> string list" where
  "normalizeRegistrationEmailSuffixDomains items = fold (collect_domain normalizeRegistrationEmailSuffixDomain) items []"

text \<open>\<^verbatim>\<open>input.split(/[\s,]+/)\<close>\<close>

function split_runs :: "string \<Rightarrow> string list" where
  "split_runs [] = [[]]"
| "split_runs (c # s) = (if email_separator c then [] # split_runs (dropWhile email_separator s)
     else (case split_runs s of [] \<Rightarrow> [[c]] | w # ws \<Rightarrow> (c # w) # ws))"
  by pat_completeness auto
termination by (relation "measure length") (auto simp: length_dropWhile_le le_imp_less_Suc)

definition parseRegistrationEmailSuffixWhitelistInput :: "string \<Rightarrow> string list" where
  "parseRegistrationEmailSuffixWhitelistInput input =
     (if trim input = '''' then [] else fold (collect_domain normalizeRegistrationEmailSuffixDomainStrict) (split_runs input) [])"

definition toCanonicalRegistrationEmailSuffix :: "string \<Rightarrow> string" where
  "toCanonicalRegistrationEmailSuffix d = (if starts_with d ''*.'' then d else ''@'' @ d)"

definition normalizeRegistrationEmailSuffixWhitelist :: "string list \<Rightarrow> string list" where
  "normalizeRegistrationEmailSuffixWhitelist items = map toCanonicalRegistrationEmailSuffix (normalizeRegistrationEmailSuffixDomains items)"

definition extractRegistrationEmailDomain :: "string \<Rightarrow> string" where
  "extractRegistrationEmailDomain email =
     (let raw = lower (trim email); user = takeWhile (\<lambda>c. c \<noteq> CHR ''@'') raw; rest = drop (length user + 1) raw
      in if user = '''' \<or> rest = '''' \<or> CHR ''@'' \<in> set rest then '''' else rest)"

definition ends_in :: "string \<Rightarrow> string \<Rightarrow> bool" where
  "ends_in s t \<longleftrightarrow> length t \<le> length s \<and> drop (length s - length t) s = t"

definition isRegistrationEmailSuffixAllowed :: "string \<Rightarrow> string list \<Rightarrow> bool" where
  "isRegistrationEmailSuffixAllowed email whitelist =
     (let wl = normalizeRegistrationEmailSuffixWhitelist whitelist; d = extractRegistrationEmailDomain email
      in if wl = [] then True else if d = '''' then False
         else list_ex (\<lambda>a. if starts_with a ''@'' then a = ''@'' @ d
                           else if starts_with a ''*.'' then d = drop 2 a \<or> ends_in d (''.'' @ drop 2 a) else False) wl)"

definition formatRegistrationEmailSuffixWhitelistForMessage :: "string list \<Rightarrow> string \<Rightarrow> (nat \<Rightarrow> string) \<Rightarrow> string" where
  "formatRegistrationEmailSuffixWhitelistForMessage whitelist separator moreText =
     (let wl = normalizeRegistrationEmailSuffixWhitelist whitelist; visible = take 5 wl; hidden = length wl - length visible
      in join_with separator (if 0 < hidden then visible @ [moreText hidden] else visible))"

section \<open>Normal forms\<close>

lemma domain_char_plain: "domain_char c \<Longrightarrow> lower_char c = c \<and> \<not> is_ws c \<and> c \<noteq> CHR ''@'' \<and> c \<noteq> CHR ''*'' \<and> c \<noteq> CHR '',''"
  by (auto simp: domain_char_def domain_alnum_def is_digit_def lower_char_def is_ws_def Let_def)

definition plain_char :: "char \<Rightarrow> bool" where
  "plain_char c \<longleftrightarrow> lower_char c = c \<and> \<not> email_separator c"

lemma plain_domain_char: "domain_char c \<Longrightarrow> plain_char c"
  using domain_char_plain by (auto simp: plain_char_def email_separator_def)

lemma plain_marks: "plain_char CHR ''@''" "plain_char CHR ''*''" "plain_char CHR ''.''"
  by code_simp+

lemma trim_plain: "list_all plain_char s \<Longrightarrow> trim s = s"
proof -
  assume s: "list_all plain_char s"
  have "dropWhile is_ws t = t" if "list_all plain_char t" for t
    using that by (cases t) (auto simp: plain_char_def email_separator_def)
  then show ?thesis using s by (simp add: trim_def list_all_iff)
qed

lemma lower_plain: "list_all plain_char s \<Longrightarrow> lower s = s"
  by (induction s) (simp_all add: lower_def plain_char_def)

lemma split_on_chars: "set s \<subseteq> insert d (\<Union>w \<in> set (split_on d s). set w)"
  by (induction d s rule: split_on.induct) (auto split: list.splits if_splits, blast+)

lemma split_on_hd: "s \<noteq> [] \<Longrightarrow> hd s \<noteq> d \<Longrightarrow> hd (hd (split_on d s)) = hd s"
  by (cases s) (auto split: list.split)

lemma domain_pattern_chars:
  assumes "domain_pattern d"
  shows "list_all domain_char d" "d \<noteq> []"
proof -
  have "domain_char c" if "c \<in> set d" for c
    using split_on_chars [of d "CHR ''.''"] assms that
    by (fastforce simp: domain_pattern_def domain_label_def list_all_iff domain_char_def)
  then show "list_all domain_char d" by (simp add: list_all_iff)
  show "d \<noteq> []" using assms by (auto simp: domain_pattern_def)
qed

lemma valid_canonical:
  assumes "isRegistrationEmailSuffixDomainValid d"
  shows "normalize_suffix strict d = d" "normalize_suffix strict (toCanonicalRegistrationEmailSuffix d) = d"
    "list_all plain_char (toCanonicalRegistrationEmailSuffix d)" "toCanonicalRegistrationEmailSuffix d \<noteq> []"
proof -
  have "normalize_suffix strict d = d \<and> normalize_suffix strict (toCanonicalRegistrationEmailSuffix d) = d
    \<and> list_all plain_char (toCanonicalRegistrationEmailSuffix d)"
  proof (cases "starts_with d ''*.''")
    case True
    then obtain b where b: "d = ''*.'' @ b" by (metis append_take_drop_id starts_with_def)
    then have "domain_pattern b" using assms True by (simp add: isRegistrationEmailSuffixDomainValid_def)
    note c = domain_pattern_chars [OF this]
    have p: "list_all plain_char d" using c(1) plain_domain_char plain_marks by (simp add: b list_all_iff)
    have "normalize_suffix strict d = d"
      using c True unfolding normalize_suffix_def Let_def trim_plain [OF p] lower_plain [OF p] normalizeRegistrationEmailSuffixToken_def
      by (simp add: b starts_with_def list_all_iff list_ex_iff)
    then show ?thesis using True p by (simp add: toCanonicalRegistrationEmailSuffix_def)
  next
    case False
    then have "domain_pattern d" using assms by (simp add: isRegistrationEmailSuffixDomainValid_def)
    note c = domain_pattern_chars [OF this]
    have p: "list_all plain_char d" using c(1) plain_domain_char by (simp add: list_all_iff)
    then have q: "list_all plain_char (''@'' @ d)" using plain_marks by simp
    have marks: "CHR ''@'' \<notin> set d" "CHR ''*'' \<notin> set d" using c(1) domain_char_plain unfolding list_all_iff by blast+
    then have at: "dropWhile (\<lambda>c. c = CHR ''@'') d = d" by (cases d) auto
    have t: "normalizeRegistrationEmailSuffixToken d strict = d"
    proof -
      have "d \<noteq> ''*''" using marks(2) by auto
      moreover have "filter (\<lambda>c. c \<noteq> CHR ''*'') d = d" using marks(2) by (simp add: filter_id_conv, blast)
      then have "filter domain_char (filter (\<lambda>c. c \<noteq> CHR ''*'') d) = d" using c(1) by (simp add: list_all_iff filter_id_conv)
      moreover have "\<not> list_ex (\<lambda>c. \<not> domain_char c) d" using c(1) by (simp add: list_all_iff list_ex_iff)
      ultimately show ?thesis using False unfolding normalizeRegistrationEmailSuffixToken_def by (simp only: if_False simp_thms)
    qed
    have "normalize_suffix strict d = d"
      unfolding normalize_suffix_def Let_def trim_plain [OF p] lower_plain [OF p] at t using c(2) by simp
    moreover have "normalize_suffix strict (''@'' @ d) = d"
      unfolding normalize_suffix_def Let_def trim_plain [OF q] lower_plain [OF q] using at t by simp
    ultimately show ?thesis using False q by (simp add: toCanonicalRegistrationEmailSuffix_def)
  qed
  then show "normalize_suffix strict d = d" "normalize_suffix strict (toCanonicalRegistrationEmailSuffix d) = d"
    "list_all plain_char (toCanonicalRegistrationEmailSuffix d)" by blast+
  show "toCanonicalRegistrationEmailSuffix d \<noteq> []"
    using assms by (simp add: toCanonicalRegistrationEmailSuffix_def isRegistrationEmailSuffixDomainValid_def)
qed

definition domains_ok :: "string list \<Rightarrow> bool" where
  "domains_ok ds \<longleftrightarrow> distinct ds \<and> list_all isRegistrationEmailSuffixDomainValid ds"

lemma collected_ok: "domains_ok acc \<Longrightarrow> domains_ok (fold (collect_domain f) items acc)"
  by (induction items arbitrary: acc) (simp_all add: domains_ok_def collect_domain_def Let_def)

lemma collect_again:
  assumes "domains_ok (acc @ ds)" "list_all2 (\<lambda>d i. f i = d) ds items"
  shows "fold (collect_domain f) items acc = acc @ ds"
  using assms(2,1)
proof (induction ds items arbitrary: acc rule: list_all2_induct)
  case (Cons d ds i items)
  have "collect_domain f i acc = acc @ [d]" using Cons by (simp add: collect_domain_def domains_ok_def)
  then show ?case using Cons by simp
qed simp

lemma whitelist_again:
  assumes "domains_ok ds" "\<And>d. isRegistrationEmailSuffixDomainValid d \<Longrightarrow> f (g d) = d"
  shows "fold (collect_domain f) (map g ds) [] = ds"
proof -
  have "list_all2 (\<lambda>d i. f i = d) ds (map g ds)"
    using assms by (simp add: list_all2_conv_all_nth domains_ok_def list_all_length)
  then show ?thesis using collect_again [of "[]" ds f "map g ds"] assms(1) by simp
qed

lemma domains_of_ok: "domains_ok (normalizeRegistrationEmailSuffixDomains items)"
  unfolding normalizeRegistrationEmailSuffixDomains_def by (rule collected_ok) (simp add: domains_ok_def)

text \<open>Words without separators, joined with blanks, are split into the words.\<close>

lemma split_runs_word: "list_all plain_char w \<Longrightarrow> split_runs w = [w]"
  by (induction w) (simp_all add: plain_char_def)

lemma split_runs_join:
  assumes "list_all plain_char w" "s \<noteq> []" "\<not> email_separator (hd s)"
  shows "split_runs (w @ '' '' @ s) = w # split_runs s"
  using assms
proof (induction w)
  case Nil
  then have "dropWhile email_separator s = s" by (cases s) auto
  moreover have "email_separator CHR '' ''" by code_simp
  ultimately show ?case by simp
qed (simp add: plain_char_def)

lemma split_runs_words:
  assumes "list_all (\<lambda>w. list_all plain_char w \<and> w \<noteq> []) ws" "ws \<noteq> []"
  shows "split_runs (join_with '' '' ws) = ws"
  using assms
proof (induction ws rule: induct_list012)
  case (3 w v ws)
  have "join_with '' '' (v # ws) \<noteq> [] \<and> \<not> email_separator (hd (join_with '' '' (v # ws)))"
    using 3(3) by (cases v; cases ws) (auto simp: plain_char_def)
  then show ?case using 3 split_runs_join [of w "join_with '' '' (v # ws)"] by simp
qed (simp_all add: split_runs_word)

text \<open>
  The normal form of a whitelist is stable and readable: normalising it again changes nothing, and the normal form that an
  administrator copies, separated by blanks, is read back as the same domains by the strict reader, so a
  whitelist survives being shown, copied and stored.
\<close>

theorem whitelist_normal_form:
  "normalizeRegistrationEmailSuffixWhitelist (normalizeRegistrationEmailSuffixWhitelist items) = normalizeRegistrationEmailSuffixWhitelist items
   \<and> parseRegistrationEmailSuffixWhitelistInput (join_with '' '' (normalizeRegistrationEmailSuffixWhitelist items))
     = normalizeRegistrationEmailSuffixDomains items"
proof -
  let ?ds = "normalizeRegistrationEmailSuffixDomains items"
  let ?wl = "map toCanonicalRegistrationEmailSuffix ?ds"
  have ok: "domains_ok ?ds" by (rule domains_of_ok)
  have "normalizeRegistrationEmailSuffixDomains ?wl = ?ds"
    unfolding normalizeRegistrationEmailSuffixDomains_def [of ?wl]
    by (rule whitelist_again [OF ok]) (simp add: normalizeRegistrationEmailSuffixDomain_def valid_canonical)
  moreover have "parseRegistrationEmailSuffixWhitelistInput (join_with '' '' ?wl) = ?ds"
  proof (cases "?ds = []")
    case True
    then show ?thesis by (simp add: parseRegistrationEmailSuffixWhitelistInput_def)
  next
    case False
    have w: "list_all (\<lambda>w. list_all plain_char w \<and> w \<noteq> []) ?wl"
      using ok valid_canonical(3,4) by (auto simp: domains_ok_def list_all_iff)
    have s: "split_runs (join_with '' '' ?wl) = ?wl" by (rule split_runs_words [OF w]) (simp add: False)
    have "trim (join_with '' '' ?wl) \<noteq> ''''"
    proof -
      obtain v vs where v: "?wl = v # vs" using False by (cases ?wl) auto
      then have "v \<noteq> []" "\<not> is_ws (hd v)" using w by (auto simp: plain_char_def email_separator_def list_all_iff hd_in_set)
      then have "hd (join_with '' '' ?wl) = hd v \<and> join_with '' '' ?wl \<noteq> []" unfolding v by (cases v; cases vs) auto
      then show ?thesis using \<open>\<not> is_ws (hd v)\<close> trim_eq_Nil_iff by (metis hd_in_set list_all_iff)
    qed
    moreover have "fold (collect_domain normalizeRegistrationEmailSuffixDomainStrict) ?wl [] = ?ds"
      by (rule whitelist_again [OF ok]) (simp add: normalizeRegistrationEmailSuffixDomainStrict_def valid_canonical)
    ultimately show ?thesis by (simp add: parseRegistrationEmailSuffixWhitelistInput_def s)
  qed
  ultimately show ?thesis by (simp add: normalizeRegistrationEmailSuffixWhitelist_def)
qed

section \<open>Referral codes\<close>

definition OAUTH_AFFILIATE_CODE_KEY :: string where "OAUTH_AFFILIATE_CODE_KEY = ''oauth_aff_code''"
definition AFFILIATE_REFERRAL_CODE_KEY :: string where "AFFILIATE_REFERRAL_CODE_KEY = ''affiliate_referral_code''"
definition AFFILIATE_REFERRAL_TTL_MS :: rat where "AFFILIATE_REFERRAL_TTL_MS = 2592000000"

definition normalizeOAuthAffiliateCode :: "json option \<Rightarrow> string" where
  "normalizeOAuthAffiliateCode v =
     (let raw = (case v of Some (JArr []) \<Rightarrow> None | Some (JArr (x # xs)) \<Rightarrow> Some x | w \<Rightarrow> w)
      in case raw of Some (JStr s) \<Rightarrow> trim s | _ \<Rightarrow> '''')"

fun pickOAuthAffiliateCode :: "json option list \<Rightarrow> string" where
  "pickOAuthAffiliateCode [] = ''''"
| "pickOAuthAffiliateCode (v # vs) = (let code = normalizeOAuthAffiliateCode v in if code \<noteq> '''' then code else pickOAuthAffiliateCode vs)"

definition storeAffiliateReferralCode :: "js_env \<Rightarrow> rat \<Rightarrow> json option \<Rightarrow> storage \<Rightarrow> storage" where
  "storeAffiliateReferralCode E now v ls = (let code = normalizeOAuthAffiliateCode v
     in if code = '''' then ls
        else ls(AFFILIATE_REFERRAL_CODE_KEY \<mapsto> stringify (je_num E) (JObj [(''code'', JStr code), (''expiresAt'', JNum (now + AFFILIATE_REFERRAL_TTL_MS))])))"

definition clearAffiliateReferralCode :: "storage \<Rightarrow> storage" where
  "clearAffiliateReferralCode ls = ls(AFFILIATE_REFERRAL_CODE_KEY := None)"

definition loadAffiliateReferralCode :: "js_env \<Rightarrow> rat \<Rightarrow> storage \<Rightarrow> string \<times> storage" where
  "loadAffiliateReferralCode E now ls =
     (if absent (ls AFFILIATE_REFERRAL_CODE_KEY) then ('''', ls)
      else case je_parse E (the (ls AFFILIATE_REFERRAL_CODE_KEY)) of
        None \<Rightarrow> ('''', clearAffiliateReferralCode ls)
      | Some JNull \<Rightarrow> ('''', clearAffiliateReferralCode ls)
      | Some parsed \<Rightarrow>
          (let code = normalizeOAuthAffiliateCode (getp parsed ''code'');
               expiresAt = (case js_Number E (getp parsed ''expiresAt'') of None \<Rightarrow> 0 | Some q \<Rightarrow> q)
           in if code = '''' \<or> expiresAt \<le> now then ('''', clearAffiliateReferralCode ls) else (code, ls)))"

definition resolveAffiliateReferralCode :: "js_env \<Rightarrow> rat \<Rightarrow> json option list \<Rightarrow> storage \<Rightarrow> string \<times> storage" where
  "resolveAffiliateReferralCode E now vs ls = (let code = pickOAuthAffiliateCode vs
     in if code \<noteq> '''' then (code, storeAffiliateReferralCode E now (Some (JStr code)) ls) else loadAffiliateReferralCode E now ls)"

text \<open>The code of a sign-in with a third party is kept in \<open>sessionStorage\<close>.\<close>

definition storeOAuthAffiliateCode :: "json option \<Rightarrow> storage \<Rightarrow> storage" where
  "storeOAuthAffiliateCode v ss = (let code = normalizeOAuthAffiliateCode v
     in ss(OAUTH_AFFILIATE_CODE_KEY := (if code = '''' then None else Some code)))"

definition loadOAuthAffiliateCode :: "storage \<Rightarrow> string" where
  "loadOAuthAffiliateCode ss = normalizeOAuthAffiliateCode (map_option JStr (ss OAUTH_AFFILIATE_CODE_KEY))"

definition clearOAuthAffiliateCode :: "storage \<Rightarrow> storage" where
  "clearOAuthAffiliateCode ss = ss(OAUTH_AFFILIATE_CODE_KEY := None)"

definition clearAllAffiliateReferralCodes :: "storage \<times> storage \<Rightarrow> storage \<times> storage" where
  "clearAllAffiliateReferralCodes s = (case s of (ss, ls) \<Rightarrow> (clearOAuthAffiliateCode ss, clearAffiliateReferralCode ls))"

definition oauthAffiliatePayload :: "json option \<Rightarrow> json" where
  "oauthAffiliatePayload v = (let code = normalizeOAuthAffiliateCode v in JObj (if code = '''' then [] else [(''aff_code'', JStr code)]))"

lemma normalize_code_again: "normalizeOAuthAffiliateCode (Some (JStr (normalizeOAuthAffiliateCode v))) = normalizeOAuthAffiliateCode v"
  by (simp add: normalizeOAuthAffiliateCode_def Let_def trim_idem split: option.split json.split list.split)

text \<open>A referral code is found for thirty days after it was stored, and then it is removed.\<close>

lemma referral_code_kept:
  assumes "normalizeOAuthAffiliateCode v \<noteq> ''''"
    and "\<And>j. je_parse E (stringify (je_num E) j) = Some j" "\<And>j. stringify (je_num E) j \<noteq> ''''"
  shows "loadAffiliateReferralCode E now' (storeAffiliateReferralCode E now v ls) =
    (if now' < now + AFFILIATE_REFERRAL_TTL_MS then (normalizeOAuthAffiliateCode v, storeAffiliateReferralCode E now v ls)
     else ('''', clearAffiliateReferralCode ls))"
  using assms normalize_code_again [of v]
  by (simp add: loadAffiliateReferralCode_def storeAffiliateReferralCode_def clearAffiliateReferralCode_def absent_def js_Number_def Let_def del: stringify.simps)

lemma oauth_code_kept: "loadOAuthAffiliateCode (storeOAuthAffiliateCode v ss) = normalizeOAuthAffiliateCode v"
  using normalize_code_again [of v]
  by (cases "normalizeOAuthAffiliateCode v = ''''") (simp_all add: loadOAuthAffiliateCode_def storeOAuthAffiliateCode_def Let_def, simp add: normalizeOAuthAffiliateCode_def)

end
