(* ===== verification/Ops_Config.thy ===== *)
theory Ops_Config
  imports Js_Json
begin

text \<open>
  The options of \<^verbatim>\<open>tools/ops-auto-delegate/ops-auto-delegate.mjs\<close>: \<open>DEFAULTS\<close>, \<open>parseArgs\<close> and \<open>loadConfig\<close>. The
  configuration is an object, a list of named JSON values; the paths of the host, and
  \<^verbatim>\<open>path.resolve\<close>, are parameters.
\<close>

type_synonym config = "(string \<times> json) list"

record host_paths =
  hp_repo :: string
  hp_here :: string
  hp_tmp :: string
  hp_state :: string
  hp_resolve :: "string \<Rightarrow> string"

text \<open>\<open>hp_state\<close> is \<^verbatim>\<open>$XDG_STATE_HOME\<close> or \<^verbatim>\<open>~/.local/state\<close>.\<close>

definition DEFAULTS :: "host_paths \<Rightarrow> config" where
  "DEFAULTS H = [
     (''source'', JStr ''sql''), (''dbContainer'', JStr ''sub2api-postgres''), (''dbUser'', JStr ''sub2api''), (''dbName'', JStr ''sub2api''),
     (''apiBase'', JStr ''http://127.0.0.1:18080''), (''apiKeyEnv'', JStr ''SUB2API_ADMIN_API_KEY''),
     (''lookbackMinutes'', JNum 180), (''minEvents'', JNum 5), (''minSignatures'', JNum 3), (''maxWaitMinutes'', JNum 30),
     (''maxBatch'', JNum 20), (''cooldownMinutes'', JNum 20), (''backend'', JStr ''auto''), (''harness'', JStr ''codex''),
     (''parentThread'', JStr ''''), (''model'', JStr ''auto''), (''fallbackModel'', JStr ''deepseek-v4.1-flash''),
     (''selfNoise'', JBool True), (''hostIps'', JArr []), (''worktree'', JBool False), (''codexBin'', JStr ''''),
     (''worktreesDir'', JStr (hp_tmp H @ ''/sub2api-ops-fix'')), (''gitBin'', JStr ''''), (''baseRef'', JStr ''''),
     (''keepWorktrees'', JNum 5), (''statePath'', JStr (hp_state H @ ''/sub2api-ops-auto-delegate/state.json'')),
     (''reportsDir'', JStr (hp_here H @ ''/reports'')), (''workdir'', JStr (hp_repo H)), (''ignorePatterns'', JArr []),
     (''autoResolve'', JBool False), (''dryRun'', JBool False), (''json'', JBool False), (''printPrompt'', JBool False), (''once'', JBool True)]"

section \<open>The command line\<close>

datatype args_error = Missing_value string | Not_a_number string string | Unknown_option string

text \<open>What an option sets: a number, a text, a path, one more element of a list, or a constant.\<close>

datatype option_kind = Number_option | Text_option | Path_option | Push_option | Constant bool

definition OPTIONS :: "(string \<times> string \<times> option_kind) list" where
  "OPTIONS = [
     (''--source'', ''source'', Text_option), (''--config'', ''configPath'', Text_option), (''--since-id'', ''sinceId'', Number_option),
     (''--lookback-minutes'', ''lookbackMinutes'', Number_option), (''--min-events'', ''minEvents'', Number_option),
     (''--min-signatures'', ''minSignatures'', Number_option), (''--max-wait-minutes'', ''maxWaitMinutes'', Number_option),
     (''--max-batch'', ''maxBatch'', Number_option), (''--cooldown-minutes'', ''cooldownMinutes'', Number_option),
     (''--backend'', ''backend'', Text_option), (''--harness'', ''harness'', Text_option), (''--parent-thread'', ''parentThread'', Text_option),
     (''--model'', ''model'', Text_option), (''--codex-bin'', ''codexBin'', Text_option), (''--worktrees-dir'', ''worktreesDir'', Path_option),
     (''--git-bin'', ''gitBin'', Text_option), (''--fallback-model'', ''fallbackModel'', Text_option),
     (''--no-self-noise-filter'', ''selfNoise'', Constant False), (''--host-ip'', ''hostIps'', Push_option), (''--base-ref'', ''baseRef'', Text_option),
     (''--keep-worktrees'', ''keepWorktrees'', Number_option), (''--no-worktree'', ''worktree'', Constant False), (''--worktree'', ''worktree'', Constant True),
     (''--state'', ''statePath'', Path_option), (''--reports-dir'', ''reportsDir'', Path_option), (''--workdir'', ''workdir'', Path_option),
     (''--db-container'', ''dbContainer'', Text_option), (''--api-base'', ''apiBase'', Text_option), (''--ignore'', ''ignorePatterns'', Push_option),
     (''--auto-resolve'', ''autoResolve'', Constant True), (''--dry-run'', ''dryRun'', Constant True), (''--print-prompt'', ''printPrompt'', Constant True),
     (''--json'', ''json'', Constant True), (''-h'', ''help'', Constant True), (''--help'', ''help'', Constant True)]"

text \<open>The function \<open>num\<close>\<close>

definition num_arg :: "js_env \<Rightarrow> string \<Rightarrow> string \<Rightarrow> args_error + rat" where
  "num_arg E v name = (case je_number E v of
     Some n \<Rightarrow> if n < 0 then Inl (Not_a_number name v) else Inr n | None \<Rightarrow> Inl (Not_a_number name v))"

definition elements :: "config \<Rightarrow> string \<Rightarrow> json list" where
  "elements cfg k = (case map_of cfg k of Some (JArr xs) \<Rightarrow> xs | _ \<Rightarrow> [])"

text \<open>An option with the value that follows it.\<close>

definition set_option_value :: "js_env \<Rightarrow> host_paths \<Rightarrow> string \<Rightarrow> string \<Rightarrow> option_kind \<Rightarrow> string \<Rightarrow> config \<Rightarrow> args_error + config" where
  "set_option_value E H a k kind v cfg = (case kind of
     Number_option \<Rightarrow> (case num_arg E v a of Inl e \<Rightarrow> Inl e | Inr n \<Rightarrow> Inr (AList.update k (JNum n) cfg))
   | Text_option \<Rightarrow> Inr (AList.update k (JStr v) cfg)
   | Path_option \<Rightarrow> Inr (AList.update k (JStr (hp_resolve H v)) cfg)
   | Push_option \<Rightarrow> Inr (AList.update k (JArr (elements cfg k @ [JStr v])) cfg)
   | Constant b \<Rightarrow> Inr (AList.update k (JBool b) cfg))"

fun parse_args :: "js_env \<Rightarrow> host_paths \<Rightarrow> config \<Rightarrow> string list \<Rightarrow> args_error + config" where
  "parse_args E H cfg [] = Inr cfg"
| "parse_args E H cfg (a # rest) = (case map_of OPTIONS a of
     None \<Rightarrow> Inl (Unknown_option a)
   | Some (k, Constant b) \<Rightarrow> parse_args E H (AList.update k (JBool b) cfg) rest
   | Some (k, kind) \<Rightarrow> (case rest of
       [] \<Rightarrow> Inl (Missing_value a)
     | v # rest' \<Rightarrow> (case set_option_value E H a k kind v cfg of
         Inl e \<Rightarrow> Inl e
       | Inr cfg' \<Rightarrow> parse_args E H cfg' rest')))"

definition parseArgs :: "js_env \<Rightarrow> host_paths \<Rightarrow> string list \<Rightarrow> args_error + config" where
  "parseArgs E H argv = parse_args E H (DEFAULTS H) argv"

section \<open>The configuration file\<close>

text \<open>
  \<^verbatim>\<open>cfg[k] === DEFAULTS[k] || cfg[k] === undefined\<close>. The two lists are the objects of \<open>DEFAULTS\<close> themselves, to which
  \<open>parseArgs\<close> pushes, so they are always the same.
\<close>

definition still_default :: "host_paths \<Rightarrow> config \<Rightarrow> string \<Rightarrow> bool" where
  "still_default H cfg k \<longleftrightarrow> k = ''hostIps'' \<or> map_of cfg k = map_of (DEFAULTS H) k \<or> map_of cfg k = None"

text \<open>\<^verbatim>\<open>[...list, ...v]\<close>: \<open>v\<close> is an array or a text, anything else is no iterable.\<close>

definition spread :: "json \<Rightarrow> thrown + json list" where
  "spread v = (case v of JArr xs \<Rightarrow> Inr xs | JStr s \<Rightarrow> Inr (map (\<lambda>c. JStr [c]) s)
     | _ \<Rightarrow> Inl (type_error ''object is not iterable''))"

definition merge_entry :: "host_paths \<Rightarrow> config \<Rightarrow> string \<times> json \<Rightarrow> thrown + config \<Rightarrow> thrown + config" where
  "merge_entry H cfg kv merged = bind_js merged (\<lambda>m. case kv of (k, v) \<Rightarrow>
     if v = JNull then Inr m
     else if k = ''ignorePatterns'' then bind_js (spread v) (\<lambda>xs. Inr (AList.update k (JArr (elements m k @ xs)) m))
     else if map_of (DEFAULTS H) k = None then Inr m
     else (case v of JArr _ \<Rightarrow> Inr m | _ \<Rightarrow> if still_default H cfg k then Inr (AList.update k v m) else Inr m))"

text \<open>The file is \<open>None\<close> when it does not exist; its contents are an object.\<close>

definition loadConfig :: "host_paths \<Rightarrow> (string \<times> json) list option \<Rightarrow> config \<Rightarrow> thrown + config" where
  "loadConfig H file cfg = (case file of None \<Rightarrow> Inr cfg | Some raw \<Rightarrow> fold (merge_entry H cfg) raw (Inr cfg))"

section \<open>Results\<close>

definition NUMBERS :: "string list" where
  "NUMBERS = [''lookbackMinutes'', ''minEvents'', ''minSignatures'', ''maxWaitMinutes'', ''maxBatch'', ''cooldownMinutes'', ''keepWorktrees'']"

definition numbers_ok :: "config \<Rightarrow> bool" where
  "numbers_ok cfg \<longleftrightarrow> (\<forall>k \<in> set NUMBERS. \<exists>q. map_of cfg k = Some (JNum q) \<and> 0 \<le> q)"

lemma OPTIONS_numbers:
  assumes "map_of OPTIONS a = Some (k, kind)" "k \<in> set NUMBERS"
  shows "kind = Number_option"
proof -
  have "list_all (\<lambda>(a, k, kind). k \<in> set NUMBERS \<longrightarrow> kind = Number_option) OPTIONS" by code_simp
  then show ?thesis using map_of_SomeD [OF assms(1)] assms(2) by (auto simp: list_all_iff)
qed

lemma numbers_ok_update: "numbers_ok cfg \<Longrightarrow> (k \<in> set NUMBERS \<Longrightarrow> \<exists>q. v = JNum q \<and> 0 \<le> q) \<Longrightarrow> numbers_ok (AList.update k v cfg)"
  by (auto simp: numbers_ok_def update_conv)

lemma numbers_ok_set:
  assumes "numbers_ok cfg" "map_of OPTIONS a = Some (k, kind)" "set_option_value E H a k kind v cfg = Inr cfg'"
  shows "numbers_ok cfg'"
proof (cases "k \<in> set NUMBERS")
  case True
  then have "kind = Number_option" by (rule OPTIONS_numbers [OF assms(2)])
  then show ?thesis using assms numbers_ok_update
    by (auto simp: set_option_value_def num_arg_def split: option.splits if_splits)
next
  case False
  then show ?thesis using assms numbers_ok_update
    by (auto simp: set_option_value_def split: option_kind.splits sum.splits)
qed

lemma numbers_ok_parse: "parse_args E H cfg argv = Inr cfg' \<Longrightarrow> numbers_ok cfg \<Longrightarrow> numbers_ok cfg'"
proof (induction "length argv" arbitrary: argv cfg rule: less_induct)
  case less
  show ?case
  proof (cases argv)
    case (Cons a rest)
    obtain k kind where o: "map_of OPTIONS a = Some (k, kind)" using less.prems(1) Cons by (cases "map_of OPTIONS a") auto
    show ?thesis
    proof (cases "\<exists>b. kind = Constant b")
      case True
      then obtain b where b: "kind = Constant b" by blast
      then have "k \<notin> set NUMBERS" using OPTIONS_numbers [OF o] by auto
      then have "numbers_ok (AList.update k (JBool b) cfg)" using less.prems(2) numbers_ok_update by blast
      then show ?thesis using less.hyps [of rest "AList.update k (JBool b) cfg"] less.prems(1) Cons o b by simp
    next
      case False
      then obtain v rest' cfg'' where r: "rest = v # rest'" "set_option_value E H a k kind v cfg = Inr cfg''"
        "parse_args E H cfg'' rest' = Inr cfg'"
        using less.prems(1) Cons o by (cases kind; cases rest) (auto split: sum.splits)
      show ?thesis by (rule less.hyps [OF _ r(3) numbers_ok_set [OF less.prems(2) o r(2)]]) (simp add: Cons r(1))
    qed
  qed (use less.prems in simp)
qed

text \<open>
  An accepted command line leaves every threshold of the tool, the thresholds of a delegation,
  the batch size, the cool-down and the number of worktrees kept, a number that is not
  negative, whatever options were given how often.
\<close>

theorem accepted_options_are_not_negative:
  assumes "parseArgs E H argv = Inr cfg" "k \<in> set NUMBERS"
  shows "\<exists>q. map_of cfg k = Some (JNum q) \<and> 0 \<le> q"
proof -
  have "numbers_ok (DEFAULTS H)" by (simp add: numbers_ok_def NUMBERS_def DEFAULTS_def)
  from numbers_ok_parse [OF assms(1) [unfolded parseArgs_def] this] assms(2) show ?thesis by (simp add: numbers_ok_def)
qed

definition witness_host :: host_paths where
  "witness_host = \<lparr>hp_repo = ''/r'', hp_here = ''/r/t'', hp_tmp = ''/tmp'', hp_state = ''/s'', hp_resolve = id\<rparr>"

definition witness_numbers :: js_env where
  "witness_numbers = \<lparr>je_parse = (\<lambda>_. None), je_num = (\<lambda>_. []), je_number = (\<lambda>s. if s = ''7'' then Some 7 else None), je_object_number = (\<lambda>_. None)\<rparr>"

theorem accepted_options_are_not_negative_witness:
  "\<exists>cfg. parseArgs witness_numbers witness_host [''--dry-run'', ''--min-events'', ''7''] = Inr cfg \<and> map_of cfg ''minEvents'' = Some (JNum 7)
     \<and> (\<exists>q. map_of cfg ''maxBatch'' = Some (JNum q) \<and> 0 \<le> q)"
proof -
  let ?c = "AList.update ''minEvents'' (JNum 7) (AList.update ''dryRun'' (JBool True) (DEFAULTS witness_host))"
  have o: "map_of OPTIONS ''--dry-run'' = Some (''dryRun'', Constant True)" "map_of OPTIONS ''--min-events'' = Some (''minEvents'', Number_option)"
    by (simp_all add: OPTIONS_def)
  have p: "parseArgs witness_numbers witness_host [''--dry-run'', ''--min-events'', ''7''] = Inr ?c"
    by (simp add: parseArgs_def o set_option_value_def num_arg_def witness_numbers_def)
  have "''maxBatch'' \<in> set NUMBERS" by (simp add: NUMBERS_def)
  from accepted_options_are_not_negative [OF p this] p show ?thesis by (auto simp: update_conv)
qed

end
