(* ===== verification/Ops_Cluster.thy ===== *)
theory Ops_Cluster
  imports Ops_Config
begin

text \<open>
  The request errors \<^verbatim>\<open>ops-auto-delegate.mjs\<close> collects: their signatures, the clusters of errors with one
  signature, the reasons for a delegation, and the filter for the noise of a delegation itself.
\<close>

section \<open>Errors\<close>

record ops_error =
  oe_id :: rat
  oe_at :: string
  oe_phase :: string
  oe_type :: string
  oe_severity :: string
  oe_status_code :: "rat option"
  oe_platform :: string
  oe_model :: string
  oe_upstream_model :: string
  oe_account_id :: "rat option"
  oe_group_id :: "rat option"
  oe_owner :: string
  oe_source :: string
  oe_message :: string
  oe_body :: string
  oe_upstream_status_code :: "rat option"
  oe_upstream_message :: string
  oe_upstream_detail :: string
  oe_attempt_chain :: string
  oe_inbound_endpoint :: string
  oe_upstream_endpoint :: string
  oe_request_id :: string
  oe_client_ip :: string
  oe_user_agent :: string
  oe_duration_ms :: "rat option"

text \<open>\<^verbatim>\<open>e.a || e.b || ''\<close>, for fields that hold texts.\<close>

fun text_field :: "json \<Rightarrow> string list \<Rightarrow> string" where
  "text_field e [] = ''''"
| "text_field e (k # ks) = (case getp e k of Some (JStr s) \<Rightarrow> if s = '''' then text_field e ks else s | _ \<Rightarrow> text_field e ks)"

definition number_field :: "js_env \<Rightarrow> json \<Rightarrow> string \<Rightarrow> rat option" where
  "number_field E e k = (if truthy (getp e k) then js_Number E (getp e k) else Some 0)"

text \<open>The rows of the administration API, as \<open>fetchFromApi\<close> takes them over.\<close>

definition api_row :: "js_env \<Rightarrow> rat \<Rightarrow> json \<Rightarrow> ops_error" where
  "api_row E i e = \<lparr>oe_id = i, oe_at = text_field e [''created_at''], oe_phase = text_field e [''phase'', ''error_phase''],
     oe_type = text_field e [''type'', ''error_type''], oe_severity = text_field e [''severity''],
     oe_status_code = number_field E e ''status_code'',
     oe_platform = text_field e [''platform''], oe_model = text_field e [''model''], oe_upstream_model = text_field e [''upstream_model''],
     oe_account_id = number_field E e ''account_id'', oe_group_id = number_field E e ''group_id'',
     oe_owner = text_field e [''error_owner''], oe_source = text_field e [''error_source''],
     oe_message = text_field e [''message'', ''error_message''], oe_body = text_field e [''error_body''],
     oe_upstream_status_code = number_field E e ''upstream_status_code'',
     oe_upstream_message = text_field e [''upstream_error_message''], oe_upstream_detail = text_field e [''upstream_error_detail''],
     oe_attempt_chain = text_field e [''upstream_errors''], oe_inbound_endpoint = text_field e [''inbound_endpoint''],
     oe_upstream_endpoint = text_field e [''upstream_endpoint''], oe_request_id = text_field e [''request_id''],
     oe_client_ip = text_field e [''client_ip''], oe_user_agent = text_field e [''user_agent''],
     oe_duration_ms = number_field E e ''duration_ms''\<rparr>"

definition api_rows :: "js_env \<Rightarrow> rat \<Rightarrow> json list \<Rightarrow> ops_error list" where
  "api_rows E sinceId items = sort_key oe_id (concat (map (\<lambda>e. case js_Number E (getp e ''id'') of
     Some i \<Rightarrow> if sinceId < i then [api_row E i e] else [] | None \<Rightarrow> []) items))"

section \<open>Signatures\<close>

text \<open>\<^verbatim>\<open>replace(/\s+/g, ' ')\<close>, \<^verbatim>\<open>replace(/\d+/g, '#')\<close> and the replacement of UUIDs, from left to right.\<close>

function collapse_blanks :: "string \<Rightarrow> string" where
  "collapse_blanks [] = []"
| "collapse_blanks (c # s) = (if is_ws c then CHR '' '' # collapse_blanks (dropWhile is_ws s) else c # collapse_blanks s)"
  by pat_completeness auto
termination by (relation "measure length") (auto simp: length_dropWhile_le le_imp_less_Suc)

function mask_digits :: "string \<Rightarrow> string" where
  "mask_digits [] = []"
| "mask_digits (c # s) = (if is_digit c then CHR 0x23 # mask_digits (dropWhile is_digit s) else c # mask_digits s)"
  by pat_completeness auto
termination by (relation "measure length") (auto simp: length_dropWhile_le le_imp_less_Suc)

function mask_uuids :: "string \<Rightarrow> string" where
  "mask_uuids [] = []"
| "mask_uuids (c # s) = (if is_uuid (take 36 (c # s)) then ''<uuid>'' @ mask_uuids (drop 35 s) else c # mask_uuids s)"
  by pat_completeness auto
termination by (relation "measure length") auto

definition normalizeMessage :: "string \<Rightarrow> string" where
  "normalizeMessage msg = take 120 (trim (mask_digits (mask_uuids (collapse_blanks msg))))"

definition family_separator :: "char \<Rightarrow> bool" where
  "family_separator c \<longleftrightarrow> c = CHR ''.'' \<or> c = CHR ''-'' \<or> c = CHR ''_''"

text \<open>\<^verbatim>\<open>replace(/#[#.\-_]*/g, '#')\<close>\<close>

function merge_hashes :: "string \<Rightarrow> string" where
  "merge_hashes [] = []"
| "merge_hashes (c # s) = (if c = CHR 0x23 then c # merge_hashes (dropWhile (\<lambda>d. d = CHR 0x23 \<or> family_separator d) s) else c # merge_hashes s)"
  by pat_completeness auto
termination by (relation "measure length") (auto simp: length_dropWhile_le le_imp_less_Suc)

definition modelFamily :: "string \<Rightarrow> string" where
  "modelFamily model = take 60 (rev (dropWhile family_separator (rev (merge_hashes (mask_digits (lower model))))))"

definition signatureOf :: "ops_error \<Rightarrow> string" where
  "signatureOf e = join_with ''|'' [oe_platform e, oe_phase e, oe_type e, modelFamily (oe_model e), normalizeMessage (oe_message e)]"

text \<open>A signature keeps no number, so errors that differ in their numbers and identifiers fall together.\<close>

lemma mask_digits_none: "\<not> list_ex is_digit (mask_digits s)"
  by (induction s rule: mask_digits.induct) (auto simp: is_digit_def)

lemma list_ex_take: "list_ex P (take n s) \<Longrightarrow> list_ex P s"
  by (auto simp: list_ex_iff dest: in_set_takeD)

lemma list_ex_dropWhile: "list_ex P (dropWhile Q s) \<Longrightarrow> list_ex P s"
  by (auto simp: list_ex_iff dest: set_dropWhileD)

lemma list_ex_rev [simp]: "list_ex P (rev s) = list_ex P s"
  by (simp add: list_ex_iff)

lemma list_ex_trim: "list_ex P (trim s) \<Longrightarrow> list_ex P s"
  unfolding trim_def by (metis list_ex_dropWhile list_ex_rev)

lemma merge_hashes_none: "\<not> list_ex is_digit s \<Longrightarrow> \<not> list_ex is_digit (merge_hashes s)"
proof (induction s rule: merge_hashes.induct)
  case (2 c s)
  then show ?case using list_ex_dropWhile by (auto split: if_splits)
qed simp

lemma normalizeMessage_short: "length (normalizeMessage m) \<le> 120 \<and> \<not> list_ex is_digit (normalizeMessage m)"
  unfolding normalizeMessage_def using mask_digits_none list_ex_take list_ex_trim by (metis length_take min.cobounded2)

lemma modelFamily_short: "length (modelFamily m) \<le> 60 \<and> \<not> list_ex is_digit (modelFamily m)"
  unfolding modelFamily_def using merge_hashes_none [OF mask_digits_none] list_ex_take list_ex_dropWhile list_ex_rev
  by (metis length_take min.cobounded2)

section \<open>Clusters\<close>

record cluster =
  cl_signature :: string
  cl_items :: "ops_error list"

definition add_to_group :: "ops_error \<Rightarrow> (string \<times> ops_error list) list \<Rightarrow> (string \<times> ops_error list) list" where
  "add_to_group e groups = (let sig = signatureOf e
     in AList.update sig ((case map_of groups sig of None \<Rightarrow> [] | Some items \<Rightarrow> items) @ [e]) groups)"

definition clusterErrors :: "ops_error list \<Rightarrow> cluster list" where
  "clusterErrors errors = sort_key (\<lambda>c. - int (length (cl_items c)))
     (map (\<lambda>(sig, items). \<lparr>cl_signature = sig, cl_items = items\<rparr>) (fold add_to_group errors []))"

definition groups_ok :: "ops_error list \<Rightarrow> (string \<times> ops_error list) list \<Rightarrow> bool" where
  "groups_ok es g \<longleftrightarrow> distinct (map fst g) \<and> (\<forall>s. map_of g s = (let f = filter (\<lambda>e. signatureOf e = s) es in if f = [] then None else Some f))"

lemma groups_ok_add: "groups_ok es g \<Longrightarrow> groups_ok (es @ [e]) (add_to_group e g)"
  by (auto simp: groups_ok_def add_to_group_def Let_def update_conv distinct_update split: if_splits)

lemma groups_ok_fold: "groups_ok es g \<Longrightarrow> groups_ok (es @ es') (fold add_to_group es' g)"
proof (induction es' arbitrary: es g)
  case (Cons e es')
  from Cons.IH [OF groups_ok_add [OF Cons.prems], of e] show ?case by simp
qed simp

lemma groups_ok_errors: "groups_ok es (fold add_to_group es [])"
  using groups_ok_fold [of "[]" "[]" es] by (simp add: groups_ok_def)

text \<open>
  C28: the clusters partition the errors by signature: no two clusters have one signature, every error
  is in a cluster, and the errors of a cluster are exactly the errors with its signature, in
  the order they were collected; larger clusters come first.
\<close>

theorem clusters_partition_the_errors:
  "distinct (map cl_signature (clusterErrors es))
   \<and> set (map cl_signature (clusterErrors es)) = signatureOf ` set es
   \<and> list_all (\<lambda>c. cl_items c = filter (\<lambda>e. signatureOf e = cl_signature c) es) (clusterErrors es)
   \<and> sorted_wrt (\<lambda>c d. length (cl_items d) \<le> length (cl_items c)) (clusterErrors es)"
proof -
  let ?g = "fold add_to_group es []" and ?mk = "\<lambda>(sig, items). \<lparr>cl_signature = sig, cl_items = items\<rparr>"
  have g: "distinct (map fst ?g)" "map_of ?g s = (let f = filter (\<lambda>e. signatureOf e = s) es in if f = [] then None else Some f)" for s
    using groups_ok_errors [of es] by (simp_all add: groups_ok_def)
  have sigs: "map (cl_signature \<circ> ?mk) ?g = map fst ?g" by auto
  have "distinct (map cl_signature (clusterErrors es))"
    unfolding clusterErrors_def distinct_map using g(1) sigs
    by (auto simp: distinct_map inj_on_def comp_def split_beta)
  moreover have "set (map cl_signature (clusterErrors es)) = signatureOf ` set es"
  proof -
    have "set (map cl_signature (clusterErrors es)) = dom (map_of ?g)"
      by (simp add: clusterErrors_def dom_map_of_conv_image_fst image_image split_beta)
    also have "\<dots> = signatureOf ` set es" using g(2) by (auto simp: Let_def filter_empty_conv split: if_splits)
    finally show ?thesis .
  qed
  moreover have "cl_items c = filter (\<lambda>e. signatureOf e = cl_signature c) es" if "c \<in> set (clusterErrors es)" for c
  proof -
    from that obtain sig items where c: "(sig, items) \<in> set ?g" "c = \<lparr>cl_signature = sig, cl_items = items\<rparr>"
      by (auto simp: clusterErrors_def)
    then have "map_of ?g sig = Some items" using g(1) by simp
    then show ?thesis using g(2) [of sig] c(2) by (auto simp: Let_def split: if_splits)
  qed
  moreover have "sorted_wrt (\<lambda>c d. length (cl_items d) \<le> length (cl_items c)) (clusterErrors es)"
  proof -
    have "sorted (map (\<lambda>c. - int (length (cl_items c))) (clusterErrors es))" unfolding clusterErrors_def by (rule sorted_sort_key)
    then show ?thesis by (simp add: sorted_wrt_map)
  qed
  ultimately show ?thesis unfolding list_all_iff by blast
qed

section \<open>Reasons\<close>

text \<open>The reasons carry their numbers; their Chinese wording is left out.\<close>

datatype reason = Enough_events nat rat | Enough_signatures nat rat | Waited rat rat

definition setting :: "js_env \<Rightarrow> config \<Rightarrow> string \<Rightarrow> rat option" where
  "setting E cfg k = js_Number E (map_of cfg k)"

text \<open>\<open>a \<le> b\<close> where either may be NaN\<close>

definition js_le :: "rat option \<Rightarrow> rat option \<Rightarrow> bool" where
  "js_le a b = (case (a, b) of (Some x, Some y) \<Rightarrow> x \<le> y | _ \<Rightarrow> False)"

definition js_min :: "rat option \<Rightarrow> rat option \<Rightarrow> rat option" where
  "js_min a b = (case (a, b) of (Some x, Some y) \<Rightarrow> Some (min x y) | _ \<Rightarrow> None)"

definition js_max :: "rat option \<Rightarrow> rat option \<Rightarrow> rat option" where
  "js_max a b = (case (a, b) of (Some x, Some y) \<Rightarrow> Some (max x y) | _ \<Rightarrow> None)"

text \<open>The time of an error: its text with the first blank replaced, in the zone +08:00; \<open>date_parse\<close> gives milliseconds.\<close>

fun blank_to_T :: "string \<Rightarrow> string" where
  "blank_to_T [] = []"
| "blank_to_T (c # s) = (if c = CHR '' '' then CHR ''T'' # s else c # blank_to_T s)"

definition error_time :: "(string \<Rightarrow> rat option) \<Rightarrow> ops_error \<Rightarrow> rat option" where
  "error_time date_parse e = date_parse (blank_to_T (oe_at e) @ ''+08:00'')"

definition shouldTrigger :: "js_env \<Rightarrow> (string \<Rightarrow> rat option) \<Rightarrow> rat \<Rightarrow> config \<Rightarrow> cluster list \<Rightarrow> ops_error list \<Rightarrow> reason list" where
  "shouldTrigger E date_parse now cfg clusters errors =
     (let total = Some (of_nat (length errors));
          minEvents = setting E cfg ''minEvents''; minSignatures = setting E cfg ''minSignatures'';
          a = (if js_le minEvents total then [Enough_events (length errors) (the minEvents)] else []);
          b = (if js_le minSignatures (Some (of_nat (length clusters))) \<and> js_le (js_max (Some 3) (js_min minSignatures minEvents)) total
               then [Enough_signatures (length clusters) (the minSignatures)] else []);
          c = (case errors of
                 [] \<Rightarrow> []
               | oldest # _ \<Rightarrow> (case error_time date_parse oldest of
                   None \<Rightarrow> []
                 | Some t \<Rightarrow> (let age = (now - t) / 60000 in
                     if js_le (setting E cfg ''maxWaitMinutes'') (Some age) then [Waited age (the (setting E cfg ''maxWaitMinutes''))] else [])))
      in a @ b @ c)"

section \<open>The noise of a delegation\<close>

definition CODEX_UA :: "string list" where
  "CODEX_UA = ''curl/'' # concat (map (\<lambda>sep. map (\<lambda>w. ''codex'' @ sep @ w) [''exec'', ''cli'', ''vscode'', ''app'']) ['''', ''_'', ''-''])"

record delegation_window =
  dw_start :: rat
  dw_end :: rat

text \<open>\<open>windows\<close> is \<open>None\<close> when the argument is left out.\<close>

definition isSelfNoise :: "(string \<Rightarrow> rat option) \<Rightarrow> config \<Rightarrow> string list \<Rightarrow> delegation_window list option \<Rightarrow> ops_error \<Rightarrow> bool" where
  "isSelfNoise date_parse cfg hostIps windows e \<longleftrightarrow>
     truthy (map_of cfg ''selfNoise'')
     \<and> (oe_client_ip e \<in> set hostIps \<or> list_ex (\<lambda>h. h \<noteq> '''' \<and> starts_with (oe_client_ip e) h) hostIps)
     \<and> list_ex (contains (lower (oe_user_agent e))) CODEX_UA
     \<and> (case windows of None \<Rightarrow> False | Some ws \<Rightarrow> (case error_time date_parse e of
          None \<Rightarrow> False
        | Some t \<Rightarrow> list_ex (\<lambda>w. dw_start w - 60000 \<le> t \<and> t \<le> dw_end w + 300000) ws))"

text \<open>Without the windows nothing is noise.\<close>

lemma noise_needs_windows: "\<not> isSelfNoise date_parse cfg hostIps None e"
  by (simp add: isSelfNoise_def)

end
