(* ===== verification/Ops_Lock.thy ===== *)
theory Ops_Lock
  imports Js_Base
begin

text \<open>
  The lock file of \<^verbatim>\<open>ops-auto-delegate.mjs\<close> (\<open>withLock\<close>): a process that owns the state creates \<^verbatim>\<open>state.json.lock\<close> with its
  process id in it, and a process that finds the file there looks whether its owner still runs. Every call to the
  file system is a step, and the steps of any number of processes interleave; a process may also die at any point.
  A file is named by the process that created it, since a process creates one at most.
\<close>

datatype lock_pc = Start | Found | Read_pid nat | Takeover | Retry | Created | Inside | Ended | Exited

record lock_state =
  lk_link :: "nat option"
  lk_written :: "nat \<Rightarrow> bool"
  lk_pc :: "nat \<Rightarrow> lock_pc"

definition no_lock :: lock_state where
  "no_lock = \<lparr>lk_link = None, lk_written = (\<lambda>_. False), lk_pc = (\<lambda>_. Start)\<rparr>"

text \<open>\<^verbatim>\<open>Number(fs.readFileSync(lockPath, 'utf8').trim())\<close>, which is 0 until the owner has written its id.\<close>

definition pid_read :: "lock_state \<Rightarrow> nat \<Rightarrow> nat" where
  "pid_read l q = (if lk_written l q then q else 0)"

text \<open>\<^verbatim>\<open>process.kill(pid, 0)\<close>; with 0 it asks for the caller's own process group and succeeds.\<close>

definition pid_alive :: "lock_state \<Rightarrow> nat \<Rightarrow> bool" where
  "pid_alive l c \<longleftrightarrow> c = 0 \<or> lk_pc l c \<noteq> Exited"

definition at_pc :: "nat \<Rightarrow> lock_pc \<Rightarrow> lock_state \<Rightarrow> lock_state" where
  "at_pc p c l = l\<lparr>lk_pc := (lk_pc l)(p := c)\<rparr>"

text \<open>\<^verbatim>\<open>fs.openSync(lockPath, 'wx')\<close>: creates the file, or takes the way of the error.\<close>

definition create_lock :: "nat \<Rightarrow> lock_pc \<Rightarrow> lock_state \<Rightarrow> lock_state" where
  "create_lock p otherwise l = (case lk_link l of
     None \<Rightarrow> at_pc p Created (l\<lparr>lk_link := Some p\<rparr>)
   | Some _ \<Rightarrow> at_pc p otherwise l)"

text \<open>One step of \<open>withLock\<close> in process \<open>p\<close>; at \<open>Inside\<close> the function \<open>fn\<close> runs, and the step is its end.\<close>

definition withLock :: "nat \<Rightarrow> lock_state \<Rightarrow> lock_state" where
  "withLock p l = (case lk_pc l p of
     Start \<Rightarrow> create_lock p Found l
   | Found \<Rightarrow> (case lk_link l of None \<Rightarrow> at_pc p Ended l | Some q \<Rightarrow> at_pc p (Read_pid (pid_read l q)) l)
   | Read_pid c \<Rightarrow> at_pc p (if pid_alive l c then Ended else Takeover) l
   | Takeover \<Rightarrow> (case lk_link l of None \<Rightarrow> at_pc p Ended l | Some _ \<Rightarrow> at_pc p Retry (l\<lparr>lk_link := None\<rparr>))
   | Retry \<Rightarrow> create_lock p Ended l
   | Created \<Rightarrow> at_pc p Inside (l\<lparr>lk_written := (lk_written l)(p := True)\<rparr>)
   | Inside \<Rightarrow> at_pc p Ended (l\<lparr>lk_link := None\<rparr>)
   | Ended \<Rightarrow> l
   | Exited \<Rightarrow> l)"

datatype lock_move = Moves nat | Exits nat

definition lock_event :: "lock_move \<Rightarrow> lock_state \<Rightarrow> lock_state" where
  "lock_event v l = (case v of Moves p \<Rightarrow> withLock p l | Exits p \<Rightarrow> at_pc p Exited l)"

definition run_lock :: "lock_move list \<Rightarrow> lock_state \<Rightarrow> lock_state" where
  "run_lock vs l = fold lock_event vs l"

text \<open>The states reached while nobody removes the file of another process.\<close>

inductive undisturbed :: "lock_state \<Rightarrow> bool" where
  un_start: "undisturbed no_lock"
| un_moves: "undisturbed l \<Longrightarrow> lk_pc l p \<noteq> Takeover \<Longrightarrow> undisturbed (withLock p l)"
| un_exits: "undisturbed l \<Longrightarrow> undisturbed (at_pc p Exited l)"

definition holds_lock :: "lock_state \<Rightarrow> nat \<Rightarrow> bool" where
  "holds_lock l p \<longleftrightarrow> lk_pc l p = Created \<or> lk_pc l p = Inside"

text \<open>Who holds the lock owns the file, and nobody is on the way to a second attempt.\<close>

definition owner_ok :: "lock_state \<Rightarrow> bool" where
  "owner_ok l \<longleftrightarrow> (\<forall>p. lk_pc l p \<noteq> Retry \<and> (holds_lock l p \<longrightarrow> lk_link l = Some p))"

lemma owner_okD: "owner_ok l \<Longrightarrow> lk_pc l p \<noteq> Retry \<and> (lk_pc l p = Created \<longrightarrow> lk_link l = Some p) \<and> (lk_pc l p = Inside \<longrightarrow> lk_link l = Some p)"
  by (simp add: owner_ok_def holds_lock_def)

lemma owner_okI: "(\<And>p. lk_pc l p \<noteq> Retry \<and> (holds_lock l p \<longrightarrow> lk_link l = Some p)) \<Longrightarrow> owner_ok l"
  by (simp add: owner_ok_def)

lemma owner_ok_withLock:
  assumes ok: "owner_ok l" and t: "lk_pc l p \<noteq> Takeover"
  shows "owner_ok (withLock p l)"
proof (rule owner_okI)
  fix q
  show "lk_pc (withLock p l) q \<noteq> Retry \<and> (holds_lock (withLock p l) q \<longrightarrow> lk_link (withLock p l) = Some q)"
  proof (cases "q = p")
    case True
    then show ?thesis using owner_okD [OF ok, of p] t
      by (simp add: withLock_def create_lock_def at_pc_def holds_lock_def split: lock_pc.split option.split)
  next
    case False
    note d = owner_okD [OF ok, of p] owner_okD [OF ok, of q]
    show ?thesis
    proof (cases "lk_pc l q = Created \<or> lk_pc l q = Inside")
      case True
      then have "lk_link l = Some q" "lk_pc l p \<noteq> Created" "lk_pc l p \<noteq> Inside" using d False by auto
      with False d(2) t show ?thesis
        by (simp add: withLock_def create_lock_def at_pc_def split: lock_pc.split)
    next
      case other: False
      with False d(2) show ?thesis
        by (simp add: withLock_def create_lock_def at_pc_def holds_lock_def split: lock_pc.split option.split)
    qed
  qed
qed

lemma undisturbed_ok: "undisturbed l \<Longrightarrow> owner_ok l"
proof (induction rule: undisturbed.induct)
  case un_start
  then show ?case by (simp add: owner_ok_def holds_lock_def no_lock_def)
next
  case (un_moves l p)
  then show ?case by (simp add: owner_ok_withLock)
next
  case (un_exits l p)
  then show ?case by (auto simp: owner_ok_def holds_lock_def at_pc_def)
qed

text \<open>
  As long as nobody takes over the file of a process that has ended, at most one process runs under the lock, whatever
  the order of the steps of all processes and whichever of them die.
\<close>

theorem one_run_under_the_lock:
  "undisturbed l \<Longrightarrow> lk_pc l p = Inside \<Longrightarrow> lk_pc l q = Inside \<Longrightarrow> p = q"
  using owner_okD [OF undisturbed_ok] by (metis option.inject)

theorem one_run_under_the_lock_witness:
  "{q. lk_pc (withLock 5 (withLock 5 no_lock)) q = Inside} = {5}"
proof -
  let ?l = "withLock 5 (withLock 5 no_lock)"
  have "undisturbed ?l" by (intro un_moves un_start) (simp_all add: withLock_def create_lock_def at_pc_def no_lock_def)
  moreover have "lk_pc ?l 5 = Inside" by (simp add: withLock_def create_lock_def at_pc_def no_lock_def)
  ultimately show ?thesis using one_run_under_the_lock [of ?l] by blast
qed

definition takeover_race :: "lock_move list" where
  "takeover_race = [Moves 1, Moves 1, Exits 1] @ [Moves 2, Moves 2, Moves 2, Moves 3, Moves 3, Moves 3]
     @ [Moves 2, Moves 2, Moves 2, Moves 3, Moves 3, Moves 3]"

text \<open>
  The take-over is not exclusive. When process 1 dies under the lock, two processes that both find it dead
  both end up under the lock: the second one removes the file that the first one has just created.
\<close>

theorem stale_lock_is_taken_over_twice:
  "lk_pc (run_lock takeover_race no_lock) 2 = Inside \<and> lk_pc (run_lock takeover_race no_lock) 3 = Inside"
  by (simp add: run_lock_def takeover_race_def lock_event_def withLock_def create_lock_def at_pc_def no_lock_def pid_read_def pid_alive_def)

end
