(* ===== verification/Ops_Delegate.thy ===== *)
theory Ops_Delegate
  imports Ops_Cluster Ops_Lock
begin

text \<open>
  The state file of \<^verbatim>\<open>ops-auto-delegate.mjs\<close>, its lock, the clean-up of worktrees, and the decision and the
  recording of a delegation (\<open>main\<close>). The database, git, the delegated process, the clock and \<^verbatim>\<open>Date.parse\<close>
  are the environment. What reaches a terminal or a prompt is left out.
\<close>

section \<open>The state file\<close>

record ops_state =
  os_lastId :: rat
  os_delegated :: "json list"
  os_worktrees :: "json list"
  os_baseRef :: string

definition array_or_empty :: "json option \<Rightarrow> json list" where
  "array_or_empty v = (case v of Some (JArr xs) \<Rightarrow> xs | _ \<Rightarrow> [])"

text \<open>\<open>file\<close> is the parsed file, \<open>None\<close> when there is none. The program writes only numbers as \<open>lastId\<close>.\<close>

definition loadState :: "json option \<Rightarrow> ops_state" where
  "loadState file = (case file of
     None \<Rightarrow> \<lparr>os_lastId = 0, os_delegated = [], os_worktrees = [], os_baseRef = ''''\<rparr>
   | Some s \<Rightarrow> \<lparr>os_lastId = (case getp s ''lastId'' of Some (JNum q) \<Rightarrow> q | _ \<Rightarrow> 0), os_delegated = array_or_empty (getp s ''delegated''),
       os_worktrees = array_or_empty (getp s ''worktrees''), os_baseRef = (case getp s ''baseRef'' of Some (JStr b) \<Rightarrow> b | _ \<Rightarrow> '''')\<rparr>)"

definition last_n :: "nat \<Rightarrow> 'a list \<Rightarrow> 'a list" where
  "last_n n xs = drop (length xs - n) xs"

definition saveState :: "ops_state \<Rightarrow> json" where
  "saveState s = JObj [(''lastId'', JNum (os_lastId s)), (''delegated'', JArr (last_n 200 (os_delegated s))),
     (''worktrees'', JArr (os_worktrees s)), (''baseRef'', JStr (os_baseRef s))]"

lemma loadState_saveState: "loadState (Some (saveState s)) = s\<lparr>os_delegated := last_n 200 (os_delegated s)\<rparr>"
  by (simp add: loadState_def saveState_def array_or_empty_def)

text \<open>The windows of the recorded delegations.\<close>

definition field_text :: "json \<Rightarrow> string \<Rightarrow> string option" where
  "field_text d k = str_of (getp d k)"

definition collectDelegationWindows :: "(string \<Rightarrow> rat option) \<Rightarrow> ops_state \<Rightarrow> delegation_window list" where
  "collectDelegationWindows date_parse s = concat (map (\<lambda>d.
     let ended = Option.bind (field_text d ''at'') date_parse;
         began = (case field_text d ''startedAt'' of
                    Some t \<Rightarrow> if t = '''' then ended else date_parse t
                  | None \<Rightarrow> ended)
     in case (began, ended) of (Some a, Some b) \<Rightarrow> [\<lparr>dw_start = a, dw_end = b\<rparr>] | _ \<Rightarrow> []) (os_delegated s))"

section \<open>Worktrees\<close>

definition wt_path :: "json \<Rightarrow> string" where
  "wt_path w = (case field_text w ''path'' of Some p \<Rightarrow> p | None \<Rightarrow> '''')"

text \<open>\<open>pruneWorktrees\<close>: the paths removed and the worktrees kept; \<open>exists\<close> says which paths exist.\<close>

definition pruneWorktrees :: "(string \<Rightarrow> bool) \<Rightarrow> rat option \<Rightarrow> json list \<Rightarrow> string list \<times> json list" where
  "pruneWorktrees exists keep mine =
     (let alive = filter (\<lambda>w. exists (wt_path w)) mine;
          gone = map wt_path (filter (\<lambda>w. \<not> exists (wt_path w)) mine);
          surplus = (case keep of None \<Rightarrow> 0 | Some k \<Rightarrow> if k < of_nat (length alive) then nat \<lfloor>of_nat (length alive) - k\<rfloor> else 0);
          removed = gone @ map wt_path (take surplus alive)
      in (removed, filter (\<lambda>w. wt_path w \<notin> set removed) alive))"

lemma filter_disjoint_take:
  assumes "distinct (map f xs)"
  shows "filter (\<lambda>x. f x \<notin> f ` set (take n xs)) xs = drop n xs"
proof -
  have d: "distinct (map f (take n xs) @ map f (drop n xs))" using assms by (simp flip: map_append)
  have "filter (\<lambda>x. f x \<notin> f ` set (take n xs)) (take n xs @ drop n xs) = drop n xs"
    unfolding filter_append using d by (auto simp: filter_empty_conv intro!: filter_True)
  then show ?thesis by simp
qed

text \<open>
  Of worktrees with different paths, the ones whose directory still exists and which are the most recent are kept,
  as many as configured.
\<close>

lemma prune_keeps_the_most_recent:
  assumes "distinct (map wt_path mine)"
  shows "snd (pruneWorktrees exists (Some (of_nat k)) mine) = last_n k (filter (\<lambda>w. exists (wt_path w)) mine)"
proof -
  let ?alive = "filter (\<lambda>w. exists (wt_path w)) mine"
  have s: "(if rat_of_nat k < of_nat (length ?alive) then nat \<lfloor>of_nat (length ?alive) - rat_of_nat k\<rfloor> else 0) = length ?alive - k"
  proof -
    have "\<lfloor>rat_of_nat (length ?alive) - of_nat k\<rfloor> = int (length ?alive) - int k"
      by (metis floor_of_int of_int_diff of_int_of_nat_eq)
    then show ?thesis by (simp add: nat_minus_as_int)
  qed
  have g: "wt_path w \<notin> wt_path ` set (filter (\<lambda>w. \<not> exists (wt_path w)) mine)" if "w \<in> set ?alive" for w
    using that by auto
  have "snd (pruneWorktrees exists (Some (of_nat k)) mine)
      = filter (\<lambda>w. wt_path w \<notin> wt_path ` set (take (length ?alive - k) ?alive)) ?alive"
    unfolding pruneWorktrees_def Let_def option.case s snd_conv using g by (intro filter_cong refl) auto
  also have "\<dots> = last_n k ?alive"
    unfolding last_n_def by (rule filter_disjoint_take) (use assms in \<open>simp add: distinct_map_filter\<close>)
  finally show ?thesis .
qed

section \<open>The decision\<close>

text \<open>The ids the recorded delegations hold.\<close>

definition error_ids :: "json \<Rightarrow> json list" where
  "error_ids d = array_or_empty (getp d ''errorIds'')"

definition delegated_ids :: "js_env \<Rightarrow> ops_state \<Rightarrow> rat option list" where
  "delegated_ids E s = map (\<lambda>i. js_Number E (Some i)) (concat (map error_ids (os_delegated s)))"

text \<open>Where to collect from; \<open>max_id\<close> is the largest id in the table, asked for on a first run only.\<close>

definition since_id :: "js_env \<Rightarrow> config \<Rightarrow> ops_state \<Rightarrow> rat \<Rightarrow> rat" where
  "since_id E cfg s max_id = (case map_of cfg ''sinceId'' of
     Some (JNum n) \<Rightarrow> n
   | _ \<Rightarrow> if map_of cfg ''source'' = Some (JStr ''sql'') then (if 0 < os_lastId s then os_lastId s else max_id) else os_lastId s)"

record ops_decision =
  od_self_noise :: nat
  od_pending :: "ops_error list"
  od_clusters :: "cluster list"
  od_cooldown :: bool
  od_reasons :: "reason list"
  od_batch :: "ops_error list"
  od_trigger :: bool

text \<open>\<^verbatim>\<open>xs.slice(0, n)\<close>\<close>

definition js_prefix :: "rat option \<Rightarrow> 'a list \<Rightarrow> 'a list" where
  "js_prefix n xs = (case n of None \<Rightarrow> []
     | Some q \<Rightarrow> if 0 \<le> q then take (nat \<lfloor>q\<rfloor>) xs else take (nat (int (length xs) + \<lceil>q\<rceil>)) xs)"

definition cooldown_active :: "js_env \<Rightarrow> (string \<Rightarrow> rat option) \<Rightarrow> rat \<Rightarrow> config \<Rightarrow> ops_state \<Rightarrow> bool" where
  "cooldown_active E date_parse now cfg s = (case os_delegated s of
     [] \<Rightarrow> False
   | ds \<Rightarrow> (case Option.bind (field_text (last ds) ''at'') date_parse of
       None \<Rightarrow> False
     | Some t \<Rightarrow> t \<noteq> 0 \<and> (case setting E cfg ''cooldownMinutes'' of None \<Rightarrow> False | Some m \<Rightarrow> (now - t) / 60000 < m)))"

text \<open>\<open>matches p s\<close> is \<^verbatim>\<open>new RegExp(p).test(s)\<close>.\<close>

definition decide :: "js_env \<Rightarrow> (string \<Rightarrow> rat option) \<Rightarrow> (json \<Rightarrow> string \<Rightarrow> bool) \<Rightarrow> rat \<Rightarrow> config \<Rightarrow> string list \<Rightarrow> ops_state
    \<Rightarrow> ops_error list \<Rightarrow> ops_decision" where
  "decide E date_parse matches now cfg hostIps s errors =
     (let noise = filter (isSelfNoise date_parse cfg hostIps (Some (collectDelegationWindows date_parse s))) errors;
          pending = filter (\<lambda>e. \<not> list_ex (\<lambda>p. matches p (signatureOf e)) (elements cfg ''ignorePatterns''))
                      (filter (\<lambda>e. \<not> isSelfNoise date_parse cfg hostIps None e)
                        (filter (\<lambda>e. Some (oe_id e) \<notin> set (delegated_ids E s)) errors));
          clusters = clusterErrors pending;
          reasons = shouldTrigger E date_parse now cfg clusters pending;
          cooldown = cooldown_active E date_parse now cfg s
      in \<lparr>od_self_noise = length noise, od_pending = pending, od_clusters = clusters, od_cooldown = cooldown, od_reasons = reasons,
          od_batch = js_prefix (setting E cfg ''maxBatch'') pending, od_trigger = (reasons \<noteq> [] \<and> \<not> cooldown)\<rparr>)"

section \<open>The delegation\<close>

text \<open>How the delegated process ends: with an error, or with a status that may be a failure of the gateway itself.\<close>

datatype run_end = Run_error | Ran bool

definition pickBackend :: "config \<Rightarrow> string option \<Rightarrow> json" where
  "pickBackend cfg thread_id = (case map_of cfg ''backend'' of
     Some (JStr b) \<Rightarrow> if b \<noteq> ''auto'' then JStr b
       else if truthy (map_of cfg ''parentThread'') \<or> (case thread_id of None \<Rightarrow> False | Some t \<Rightarrow> t \<noteq> '''') then JStr ''codexhost'' else JStr ''codex-exec''
   | Some v \<Rightarrow> v
   | None \<Rightarrow> JNull)"

text \<open>\<open>delegate\<close> with its one repetition on the fallback model; whether it was needed.\<close>

definition run_with_fallback :: "config \<Rightarrow> run_end \<Rightarrow> run_end \<Rightarrow> bool option" where
  "run_with_fallback cfg first second = (case first of
     Run_error \<Rightarrow> None
   | Ran failed \<Rightarrow> if failed \<and> map_of cfg ''model'' \<noteq> map_of cfg ''fallbackModel''
       then (case second of Run_error \<Rightarrow> None | Ran _ \<Rightarrow> Some True) else Some False)"

record run_facts =
  rf_at :: string
  rf_startedAt :: string
  rf_batchId :: string
  rf_branch :: string
  rf_base :: string
  rf_workdir :: string
  rf_thread :: json
  rf_backend :: json
  rf_resolved :: rat

definition delegation_record :: "run_facts \<Rightarrow> cluster list \<Rightarrow> ops_error list \<Rightarrow> json" where
  "delegation_record f clusters batch = JObj [(''at'', JStr (rf_at f)), (''startedAt'', JStr (rf_startedAt f)), (''batchId'', JStr (rf_batchId f)),
     (''errorIds'', JArr (map (\<lambda>e. JNum (oe_id e)) batch)), (''signatures'', JArr (map (\<lambda>c. JStr (cl_signature c)) clusters)),
     (''thread'', rf_thread f), (''backend'', rf_backend f), (''autoResolved'', JNum (rf_resolved f)), (''worktree'', JStr (rf_workdir f)),
     (''branch'', JStr (rf_branch f)), (''base'', JStr (rf_base f))]"

definition worktree_record :: "run_facts \<Rightarrow> json" where
  "worktree_record f = JObj [(''path'', JStr (rf_workdir f)), (''branch'', JStr (rf_branch f)), (''batchId'', JStr (rf_batchId f)), (''at'', JStr (rf_at f))]"

text \<open>\<open>Math.max(lastId, ...ids)\<close>\<close>

definition newest_id :: "rat \<Rightarrow> ops_error list \<Rightarrow> rat" where
  "newest_id i batch = fold (\<lambda>e m. max (oe_id e) m) batch i"

text \<open>
  What \<open>main\<close> does under the lock, on the state read there: it gives up, as \<open>None\<close>, when an error of the batch
  has been delegated meanwhile, when a run ends with an error or when marking the errors as resolved fails
  (\<open>resolve_ok\<close>); otherwise the result is the new contents of the file.
\<close>

definition record_delegation :: "js_env \<Rightarrow> config \<Rightarrow> (string \<Rightarrow> bool) \<Rightarrow> run_end \<Rightarrow> run_end \<Rightarrow> bool \<Rightarrow> run_facts \<Rightarrow> ops_decision \<Rightarrow> json option \<Rightarrow> json option" where
  "record_delegation E cfg exists first second resolve_ok f d file =
     (let fresh = loadState file; batch = od_batch d
      in if list_ex (\<lambda>e. list_ex (\<lambda>r. JNum (oe_id e) \<in> set (error_ids r)) (os_delegated fresh)) batch then None
         else (case run_with_fallback cfg first second of
           None \<Rightarrow> None
         | Some _ \<Rightarrow> if truthy (map_of cfg ''autoResolve'') \<and> \<not> resolve_ok then None
             else Some (saveState \<lparr>os_lastId = newest_id (os_lastId fresh) batch,
               os_delegated = os_delegated fresh @ [delegation_record f (od_clusters d) batch],
               os_worktrees = snd (pruneWorktrees exists (setting E cfg ''keepWorktrees'') (os_worktrees fresh @ [worktree_record f])),
               os_baseRef = (if os_baseRef fresh = '''' then rf_base f else os_baseRef fresh)\<rparr>)))"

section \<open>Runs\<close>

lemma js_prefix_take: "\<exists>n. js_prefix q xs = take n xs"
proof (cases q)
  case None
  then have "js_prefix q xs = take 0 xs" by (simp add: js_prefix_def)
  then show ?thesis by blast
next
  case (Some k)
  then show ?thesis unfolding js_prefix_def by (cases "0 \<le> k") auto
qed

lemma batch_distinct:
  assumes "distinct (map oe_id errors)"
  shows "distinct (map oe_id (od_batch (decide E date_parse matches now cfg hostIps s errors)))"
proof -
  obtain n P where "od_batch (decide E date_parse matches now cfg hostIps s errors) = take n (filter P errors)"
    using js_prefix_take by (fastforce simp: decide_def Let_def filter_filter)
  then show ?thesis using assms by (simp add: distinct_map_filter flip: take_map)
qed

definition recorded :: "json option \<Rightarrow> json list" where
  "recorded file = concat (map error_ids (os_delegated (loadState file)))"

lemma recorded_save: "recorded (Some (saveState s)) = concat (map error_ids (last_n 200 (os_delegated s)))"
  by (simp add: recorded_def loadState_saveState)

lemma error_ids_record: "error_ids (delegation_record f cs batch) = map (\<lambda>e. JNum (oe_id e)) batch"
  by (simp add: error_ids_def delegation_record_def array_or_empty_def)

lemma newest_id_ge: "i \<le> newest_id i batch \<and> (\<forall>e \<in> set batch. oe_id e \<le> newest_id i batch)"
  unfolding newest_id_def
proof (induction batch arbitrary: i)
  case (Cons e batch)
  from Cons.IH [of "max (oe_id e) i"] show ?case by (auto intro: order_trans [OF max.cobounded1] order_trans [OF max.cobounded2])
qed simp

lemma record_delegation_Some:
  assumes "record_delegation E cfg exists first second ok f d file = Some file'"
  shows "\<exists>wts b. file' = saveState \<lparr>os_lastId = newest_id (os_lastId (loadState file)) (od_batch d),
        os_delegated = os_delegated (loadState file) @ [delegation_record f (od_clusters d) (od_batch d)], os_worktrees = wts, os_baseRef = b\<rparr>"
    and "\<forall>e \<in> set (od_batch d). JNum (oe_id e) \<notin> set (recorded file)"
  using assms by (auto simp: record_delegation_def Let_def recorded_def list_ex_iff split: if_splits option.splits)

text \<open>
  The runs of any number of processes on one state file. A process decides on the errors it collected and
  on whatever contents the file had when it read it; it records its delegation, or ends without.
\<close>

inductive delegation_step :: "js_env \<Rightarrow> (string \<Rightarrow> rat option) \<Rightarrow> (json \<Rightarrow> string \<Rightarrow> bool) \<Rightarrow> config \<Rightarrow> json option \<Rightarrow> json option \<Rightarrow> bool"
  for E date_parse matches cfg where
  ds_recorded: "distinct (map oe_id errors) \<Longrightarrow> d = decide E date_parse matches now cfg hostIps s errors
    \<Longrightarrow> od_trigger d \<Longrightarrow> \<not> truthy (map_of cfg ''dryRun'') \<Longrightarrow> record_delegation E cfg exists first second ok f d file = Some file'
    \<Longrightarrow> delegation_step E date_parse matches cfg file (Some file')"
| ds_ended: "delegation_step E date_parse matches cfg file file"

definition file_ok :: "json option \<Rightarrow> bool" where
  "file_ok file \<longleftrightarrow> distinct (recorded file) \<and> (\<forall>i \<in> set (recorded file). \<exists>q. i = JNum q \<and> q \<le> os_lastId (loadState file))"

lemma distinct_concat_drop: "distinct (concat xs) \<Longrightarrow> distinct (concat (drop n xs))"
  using append_take_drop_id [of n xs] by (metis concat_append distinct_append)

lemma set_concat_drop: "x \<in> set (concat (drop n xs)) \<Longrightarrow> x \<in> set (concat xs)"
  by (auto dest: in_set_dropD)

lemma file_okD: "file_ok file \<Longrightarrow> i \<in> set (recorded file) \<Longrightarrow> \<exists>q. i = JNum q \<and> q \<le> os_lastId (loadState file)"
  by (auto simp: file_ok_def)

lemma file_ok_step: "delegation_step E date_parse matches cfg file file' \<Longrightarrow> file_ok file \<Longrightarrow> file_ok file'"
proof (induction rule: delegation_step.induct)
  case (ds_recorded errors d now hostIps s exists first second ok f c c')
  let ?ids = "map (\<lambda>e. JNum (oe_id e)) (od_batch d)"
  let ?n = "length (os_delegated (loadState c)) + 1 - 200"
  let ?all = "map error_ids (os_delegated (loadState c)) @ [?ids]"
  note r = record_delegation_Some [OF ds_recorded.hyps(5)]
  then obtain wts b where c': "c' = saveState \<lparr>os_lastId = newest_id (os_lastId (loadState c)) (od_batch d),
        os_delegated = os_delegated (loadState c) @ [delegation_record f (od_clusters d) (od_batch d)], os_worktrees = wts, os_baseRef = b\<rparr>"
    by blast
  have rec: "recorded (Some c') = concat (drop ?n ?all)"
    unfolding c' recorded_save last_n_def by (simp add: error_ids_record drop_map)
  have l: "os_lastId (loadState (Some c')) = newest_id (os_lastId (loadState c)) (od_batch d)"
    unfolding c' loadState_saveState by simp
  have "distinct ?ids" using batch_distinct [OF ds_recorded.hyps(1)] ds_recorded.hyps(2)
    by (simp add: distinct_map inj_on_def)
  moreover have "set ?ids \<inter> set (recorded c) = {}" using r(2) by auto
  ultimately have d: "distinct (concat ?all)" using ds_recorded.prems by (auto simp: file_ok_def recorded_def)
  have ub: "\<exists>q. i = JNum q \<and> q \<le> newest_id (os_lastId (loadState c)) (od_batch d)" if "i \<in> set (concat ?all)" for i
  proof -
    from that have "i \<in> set (recorded c) \<or> (\<exists>e \<in> set (od_batch d). i = JNum (oe_id e))"
      unfolding recorded_def by simp blast
    then consider "i \<in> set (recorded c)" | e where "e \<in> set (od_batch d)" "i = JNum (oe_id e)" by blast
    then show ?thesis
    proof cases
      case 1
      then obtain q where "i = JNum q" "q \<le> os_lastId (loadState c)" using ds_recorded.prems file_okD by blast
      then show ?thesis using newest_id_ge [of "os_lastId (loadState c)" "od_batch d"] by (blast intro: order_trans)
    next
      case 2
      then show ?thesis using newest_id_ge [of "os_lastId (loadState c)" "od_batch d"] by blast
    qed
  qed
  have "distinct (recorded (Some c'))" unfolding rec using d by (rule distinct_concat_drop)
  moreover have "\<exists>q. i = JNum q \<and> q \<le> os_lastId (loadState (Some c'))" if "i \<in> set (recorded (Some c'))" for i
    using that ub unfolding rec l by (meson set_concat_drop)
  ultimately show ?case unfolding file_ok_def by blast
qed

text \<open>
  C27: an error is delegated at most once as far as the state file tells: whatever number of
  processes run on the file, collect the same errors, and decide on outdated contents, no id
  is recorded in two delegations or twice in one, and \<open>lastId\<close>, from which the next collection
  starts, is never below a recorded id.
\<close>

theorem error_recorded_at_most_once:
  assumes "(delegation_step E date_parse matches cfg)\<^sup>*\<^sup>* None file"
  shows "distinct (recorded file) \<and> list_all (\<lambda>i. case i of JNum q \<Rightarrow> q \<le> os_lastId (loadState file) | _ \<Rightarrow> False) (recorded file)"
proof -
  from assms have "file_ok file"
  proof (induction rule: rtranclp_induct)
    case base
    then show ?case by (simp add: file_ok_def recorded_def loadState_def)
  next
    case (step c c')
    then show ?case using file_ok_step by blast
  qed
  then show ?thesis by (auto simp: file_ok_def list_all_iff split: json.split)
qed

text \<open>A run from the beginning: one error that waited for fifty minutes, collected from the administration API.\<close>

definition witness_config :: config where
  "witness_config = [(''source'', JStr ''api''), (''minEvents'', JNum 5), (''minSignatures'', JNum 3), (''maxWaitMinutes'', JNum 30),
     (''maxBatch'', JNum 20), (''cooldownMinutes'', JNum 20), (''keepWorktrees'', JNum 5), (''selfNoise'', JBool True)]"

definition witness_error :: ops_error where
  "witness_error = api_row witness_numbers 7 (JObj [(''created_at'', JStr ''x''), (''message'', JStr ''m 12'')])"

definition witness_clock :: "string \<Rightarrow> rat option" where
  "witness_clock s = (if s = ''x+08:00'' then Some 0 else if s = ''now'' then Some 3000000 else None)"

definition witness_facts :: run_facts where
  "witness_facts = \<lparr>rf_at = ''now'', rf_startedAt = ''now'', rf_batchId = ''b'', rf_branch = ''ops-fix/b'', rf_base = ''c0'', rf_workdir = ''/w'',
     rf_thread = JNull, rf_backend = JStr ''codex-exec'', rf_resolved = 0\<rparr>"

definition witness_decision :: ops_decision where
  "witness_decision = decide witness_numbers witness_clock (\<lambda>_ _. False) 3000000 witness_config [] (loadState None) [witness_error]"

definition witness_file :: json where
  "witness_file = the (record_delegation witness_numbers witness_config (\<lambda>_. True) (Ran False) (Ran False) True witness_facts witness_decision None)"

lemma witness_decision_triggers: "od_trigger witness_decision \<and> map oe_id (od_batch witness_decision) = [7]"
  by code_simp

lemma witness_recorded:
  "record_delegation witness_numbers witness_config (\<lambda>_. True) (Ran False) (Ran False) True witness_facts witness_decision None = Some witness_file
   \<and> recorded (Some witness_file) = [JNum 7] \<and> os_lastId (loadState (Some witness_file)) = 7"
  by code_simp

theorem error_recorded_at_most_once_witness:
  "delegation_step witness_numbers witness_clock (\<lambda>_ _. False) witness_config None (Some witness_file)
   \<and> recorded (Some witness_file) = [JNum 7] \<and> distinct (recorded (Some witness_file))"
proof -
  have "\<not> truthy (map_of witness_config ''dryRun'')" by code_simp
  then have s: "delegation_step witness_numbers witness_clock (\<lambda>_ _. False) witness_config None (Some witness_file)"
    using witness_decision_triggers witness_recorded by (intro ds_recorded [OF _ witness_decision_def]) auto
  then have "(delegation_step witness_numbers witness_clock (\<lambda>_ _. False) witness_config)\<^sup>*\<^sup>* None (Some witness_file)"
    by (rule r_into_rtranclp)
  from error_recorded_at_most_once [OF this] s witness_recorded show ?thesis by simp
qed

section \<open>The cool-down\<close>

lemma last_of_last_n: "0 < n \<Longrightarrow> xs \<noteq> [] \<Longrightarrow> last_n n xs \<noteq> [] \<and> last (last_n n xs) = last xs"
proof -
  assume "0 < n" "xs \<noteq> []"
  then have "length xs - n < length xs" by simp
  then show ?thesis by (simp add: last_n_def last_drop)
qed

lemma last_delegation:
  assumes "record_delegation E cfg exists first second ok f d file = Some file'"
  shows "os_delegated (loadState (Some file')) \<noteq> []
    \<and> last (os_delegated (loadState (Some file'))) = delegation_record f (od_clusters d) (od_batch d)"
  using record_delegation_Some(1) [OF assms]
    last_of_last_n [of 200 "os_delegated (loadState file) @ [delegation_record f (od_clusters d) (od_batch d)]"]
  by (auto simp: loadState_saveState)

lemma recorded_time: "field_text (delegation_record f cs batch) ''at'' = Some (rf_at f)"
  by (simp add: field_text_def delegation_record_def)

text \<open>
  After a delegation is recorded with the time \<open>t\<close>, no run that reads this state triggers another one before
  the configured number of minutes has passed, however many errors are pending and whatever they are.
\<close>

theorem delegations_respect_the_cooldown:
  assumes "record_delegation E cfg exists first second ok f d file = Some file'"
    and "date_parse (rf_at f) = Some t" "t \<noteq> 0"
    and "setting E cfg' ''cooldownMinutes'' = Some m"
    and "od_trigger (decide E date_parse matches now cfg' hostIps (loadState (Some file')) errors)"
  shows "m \<le> (now - t) / 60000"
proof -
  have "\<not> cooldown_active E date_parse now cfg' (loadState (Some file'))" using assms(5) by (simp add: decide_def Let_def)
  then show ?thesis using last_delegation [OF assms(1)] assms(2-4)
    by (auto simp: cooldown_active_def recorded_time split: list.splits)
qed

theorem delegations_respect_the_cooldown_witness:
  "od_trigger (decide witness_numbers witness_clock (\<lambda>_ _. False) 4200000 witness_config [] (loadState (Some witness_file))
     [witness_error\<lparr>oe_id := 8\<rparr>]) \<and> (20 :: rat) \<le> (4200000 - 3000000) / 60000"
proof -
  have "od_trigger (decide witness_numbers witness_clock (\<lambda>_ _. False) 4200000 witness_config [] (loadState (Some witness_file))
     [witness_error\<lparr>oe_id := 8\<rparr>])" by code_simp
  moreover have "witness_clock (rf_at witness_facts) = Some 3000000" "setting witness_numbers witness_config ''cooldownMinutes'' = Some 20"
    by code_simp+
  ultimately show ?thesis
    using delegations_respect_the_cooldown [OF conjunct1 [OF witness_recorded], of witness_clock 3000000 witness_config 20]
    by simp
qed

section \<open>Failures\<close>

text \<open>
  A batch is recorded as delegated even when no run of the delegated process worked: neither the fallback's failure
  nor a failure without a fallback is looked at.
\<close>

lemma failed_runs_are_recorded:
  assumes "\<not> list_ex (\<lambda>e. list_ex (\<lambda>r. JNum (oe_id e) \<in> set (error_ids r)) (os_delegated (loadState file))) (od_batch d)"
    and "\<not> truthy (map_of cfg ''autoResolve'')"
  shows "record_delegation E cfg exists (Ran True) (Ran True) ok f d file \<noteq> None"
  using assms by (simp add: record_delegation_def Let_def run_with_fallback_def)

text \<open>
  Until something is delegated there is no state file, and a first run on the database starts at the largest id, so an error
  that one such run does not see, the next one does not either.
\<close>

lemma first_runs_start_at_the_end:
  assumes "map_of cfg ''source'' = Some (JStr ''sql'')" "map_of cfg ''sinceId'' = None"
  shows "since_id E cfg (loadState None) max_id = max_id"
  using assms by (simp add: since_id_def loadState_def)

end
