(* ===== verification/Zcode_Page.thy ===== *)
theory Zcode_Page
  imports Js_Json
begin

text \<open>
  \<^verbatim>\<open>verifyInPage\<close> of \<^verbatim>\<open>zcode2api/verifier/browser.mjs\<close>: one verification in the page of the official SDK, from the
  call of \<^verbatim>\<open>initAliyunCaptcha\<close> to the result. The SDK is not part of the repository: what it does is the sequence of its
  callbacks, which may also come while the program is calling it.
\<close>

section \<open>State and callbacks\<close>

datatype settlement = Resolved string | Rejected string

record page =
  pg_result :: "settlement option"  \<comment> \<open>\<open>None\<close> until \<^verbatim>\<open>settled\<close>\<close>
  pg_deadline :: bool  \<comment> \<open>the timers that are armed\<close>
  pg_trigger :: bool
  pg_fallback :: bool
  pg_verification :: bool  \<comment> \<open>\<^verbatim>\<open>verificationStarted\<close>\<close>
  pg_interactive :: bool  \<comment> \<open>\<^verbatim>\<open>interactiveStarted\<close>\<close>
  pg_clicks :: nat  \<comment> \<open>calls of \<^verbatim>\<open>button.click()\<close>\<close>
  pg_traceless :: nat  \<comment> \<open>calls of \<^verbatim>\<open>startTracelessVerification()\<close>\<close>

text \<open>
  A callback of the SDK with its argument. One that may lead to the click on the button carries the callbacks that the
  click provokes before it returns.
\<close>

datatype callback = GetInstance | Success "json option" | Fail "json option" "callback list" | OnError

text \<open>What the SDK's instance offers when the trigger fires: its method, with the callbacks during the call and whether it throws.\<close>

datatype sdk_instance = Traceless "callback list" bool | No_traceless "callback list"

definition settled :: "page \<Rightarrow> bool" where
  "settled p \<longleftrightarrow> pg_result p \<noteq> None"

definition finish :: "settlement \<Rightarrow> page \<Rightarrow> page" where
  "finish v p = (if settled p then p
     else p\<lparr>pg_result := Some v, pg_deadline := False, pg_fallback := False, pg_trigger := False\<rparr>)"

abbreviation verification_failed :: settlement where
  "verification_failed \<equiv> Rejected ''verification_failed''"

definition getInstance :: "page \<Rightarrow> page" where
  "getInstance p = (if settled p \<or> pg_verification p \<or> pg_interactive p then p
     else p\<lparr>pg_verification := True, pg_trigger := True\<rparr>)"

text \<open>\<^verbatim>\<open>typeof param === "string" && param.trim()\<close>\<close>

definition usable_param :: "json option \<Rightarrow> string option" where
  "usable_param v = (case str_of v of None \<Rightarrow> None | Some s \<Rightarrow> if trim s \<noteq> '''' then Some s else None)"

definition success :: "json option \<Rightarrow> page \<Rightarrow> page" where
  "success v p = (case usable_param v of Some s \<Rightarrow> finish (Resolved s) p | None \<Rightarrow> finish verification_failed p)"

text \<open>\<^verbatim>\<open>a ?? b\<close> of two properties\<close>

definition either_prop :: "json option \<Rightarrow> string \<Rightarrow> string \<Rightarrow> json option" where
  "either_prop v a b = (if nullish (ogetp v a) then ogetp v b else ogetp v a)"

definition fail_code :: "json option \<Rightarrow> json option" where
  "fail_code v = either_prop v ''verifyCode'' ''VerifyCode''"

definition fail_passed :: "json option \<Rightarrow> bool" where
  "fail_passed v \<longleftrightarrow> ogetp v ''success'' = Some (JBool True) \<and> ogetp v ''verifyResult'' = Some (JBool True)
     \<or> fail_code v = Some (JStr ''T006'')"

definition fail_param :: "json option \<Rightarrow> string option" where
  "fail_param v = usable_param (either_prop v ''captchaVerifyParam'' ''CaptchaVerifyParam'')"

text \<open>\<open>interactive\<close> up to the click; the callbacks the click provokes follow in \<open>on_callback\<close>.\<close>

definition clicks_now :: "bool \<Rightarrow> page \<Rightarrow> bool" where
  "clicks_now headless p \<longleftrightarrow> \<not> settled p \<and> \<not> headless \<and> \<not> pg_interactive p"

definition interactive :: "bool \<Rightarrow> page \<Rightarrow> page" where
  "interactive headless p =
     (if settled p then p
      else if headless then finish (Rejected ''interactive_verification_required'') p
      else if \<not> pg_interactive p then p\<lparr>pg_interactive := True, pg_clicks := pg_clicks p + 1\<rparr> else p)"

fun on_callback :: "bool \<Rightarrow> callback \<Rightarrow> page \<Rightarrow> page"
  and on_callbacks :: "bool \<Rightarrow> callback list \<Rightarrow> page \<Rightarrow> page" where
  "on_callback h GetInstance p = getInstance p"
| "on_callback h (Success v) p = success v p"
| "on_callback h (Fail v cs) p =
     (if fail_passed v \<and> fail_param v \<noteq> None then finish (Resolved (the (fail_param v))) p
      else if fail_code v = Some (JStr ''F008'') then finish verification_failed p
      else if clicks_now h p then on_callbacks h cs (interactive h p) else interactive h p)"
| "on_callback h OnError p = finish verification_failed p"
| "on_callbacks h [] p = p"
| "on_callbacks h (c # cs) p = on_callbacks h cs (on_callback h c p)"

definition run_interactive :: "bool \<Rightarrow> callback list \<Rightarrow> page \<Rightarrow> page" where
  "run_interactive h cs p = (if clicks_now h p then on_callbacks h cs (interactive h p) else interactive h p)"

section \<open>Timers\<close>

definition trigger_fires :: "bool \<Rightarrow> sdk_instance \<Rightarrow> page \<Rightarrow> page" where
  "trigger_fires h i p0 = (let p = p0\<lparr>pg_trigger := False\<rparr> in
     if settled p then p
     else (case i of
        Traceless cs throws \<Rightarrow>
          (let p' = on_callbacks h cs (p\<lparr>pg_traceless := pg_traceless p + 1\<rparr>)
           in if throws then finish verification_failed p'
              else if \<not> settled p' then p'\<lparr>pg_fallback := True\<rparr> else p')
      | No_traceless cs \<Rightarrow> run_interactive h cs p))"

definition fallback_fires :: "bool \<Rightarrow> callback list \<Rightarrow> page \<Rightarrow> page" where
  "fallback_fires h cs p = run_interactive h cs (p\<lparr>pg_fallback := False\<rparr>)"

definition deadline_fires :: "page \<Rightarrow> page" where
  "deadline_fires p = finish (Rejected ''verification_timeout'') (p\<lparr>pg_deadline := False\<rparr>)"

definition fresh_page :: page where
  "fresh_page = \<lparr>pg_result = None, pg_deadline = True, pg_trigger = False, pg_fallback = False, pg_verification = False,
     pg_interactive = False, pg_clicks = 0, pg_traceless = 0\<rparr>"

text \<open>The call of \<^verbatim>\<open>initAliyunCaptcha\<close>, with the callbacks during it and whether it throws.\<close>

definition verifyInPage :: "bool \<Rightarrow> callback list \<Rightarrow> bool \<Rightarrow> page" where
  "verifyInPage h cs throws = (let p = on_callbacks h cs fresh_page in if throws then finish verification_failed p else p)"

inductive page_step :: "bool \<Rightarrow> page \<Rightarrow> page \<Rightarrow> bool" for h where
  sdk_calls: "page_step h p (on_callback h c p)"
| trigger_due: "pg_trigger p \<Longrightarrow> page_step h p (trigger_fires h i p)"
| fallback_due: "pg_fallback p \<Longrightarrow> page_step h p (fallback_fires h cs p)"
| deadline_due: "pg_deadline p \<Longrightarrow> page_step h p (deadline_fires p)"

inductive page_reach :: "bool \<Rightarrow> page \<Rightarrow> bool" for h where
  initialised: "page_reach h (verifyInPage h cs throws)"
| stepped: "page_reach h p \<Longrightarrow> page_step h p p' \<Longrightarrow> page_reach h p'"

section \<open>The invariant\<close>

definition page_ok :: "bool \<Rightarrow> page \<Rightarrow> bool" where
  "page_ok h p \<longleftrightarrow>
     (settled p \<longrightarrow> \<not> pg_deadline p \<and> \<not> pg_trigger p \<and> \<not> pg_fallback p) \<and> (\<not> settled p \<longrightarrow> pg_deadline p)
     \<and> pg_clicks p = of_bool (pg_interactive p) \<and> (h \<longrightarrow> \<not> pg_interactive p)
     \<and> pg_traceless p + of_bool (pg_trigger p) \<le> of_bool (pg_verification p)
     \<and> (\<forall>s. pg_result p = Some (Resolved s) \<longrightarrow> trim s \<noteq> '''')"

lemma usable_param_Some: "usable_param v = Some s \<Longrightarrow> trim s \<noteq> ''''"
  by (auto simp: usable_param_def split: option.splits if_splits)

lemma finish_ok: "page_ok h p \<Longrightarrow> (\<And>s. v = Resolved s \<Longrightarrow> trim s \<noteq> '''') \<Longrightarrow> page_ok h (finish v p)"
  by (auto simp: page_ok_def finish_def settled_def of_bool_def split: if_splits)

lemma finish_rejected_ok [simp]: "page_ok h p \<Longrightarrow> page_ok h (finish (Rejected c) p)"
  by (rule finish_ok) auto

lemma getInstance_ok: "page_ok h p \<Longrightarrow> page_ok h (getInstance p)"
  by (auto simp: page_ok_def getInstance_def settled_def of_bool_def split: if_splits)

lemma success_ok: "page_ok h p \<Longrightarrow> page_ok h (success v p)"
  by (auto simp: success_def split: option.splits intro!: finish_ok dest: usable_param_Some)

lemma interactive_ok: "page_ok h p \<Longrightarrow> page_ok h (interactive h p)"
  by (auto simp: page_ok_def interactive_def finish_def settled_def)

lemma callbacks_ok:
  "page_ok h p \<Longrightarrow> page_ok h (on_callback h c p)"
  "page_ok h p \<Longrightarrow> page_ok h (on_callbacks h cs p)"
  by (induction h c p and h cs p rule: on_callback_on_callbacks.induct)
    (auto simp: getInstance_ok success_ok interactive_ok fail_param_def dest: usable_param_Some intro!: finish_ok)

text \<open>A settled result stays, and the trigger is not armed a second time.\<close>

lemma finish_settled [simp]: "settled p \<Longrightarrow> finish v p = p"
  by (simp add: finish_def)

lemma callbacks_settled:
  "settled p \<Longrightarrow> on_callback h c p = p"
  "settled p \<Longrightarrow> on_callbacks h cs p = p"
  by (induction h c p and h cs p rule: on_callback_on_callbacks.induct)
    (auto simp: getInstance_def success_def interactive_def clicks_now_def split: option.splits)

definition keeps_start :: "page \<Rightarrow> page \<Rightarrow> bool" where
  "keeps_start p p' \<longleftrightarrow> pg_traceless p' = pg_traceless p \<and> (pg_verification p \<longrightarrow> pg_verification p' \<and> (pg_trigger p' \<longrightarrow> pg_trigger p))"

lemma keeps_start_refl: "keeps_start p p"
  by (simp add: keeps_start_def)

lemma keeps_start_trans: "keeps_start p p' \<Longrightarrow> keeps_start p' p'' \<Longrightarrow> keeps_start p p''"
  by (auto simp: keeps_start_def)

lemma keeps_start_finish: "keeps_start p (finish v p)"
  by (simp add: keeps_start_def finish_def)

lemma keeps_start_getInstance: "keeps_start p (getInstance p)"
  by (simp add: keeps_start_def getInstance_def)

lemma keeps_start_success: "keeps_start p (success v p)"
  by (simp add: success_def keeps_start_finish split: option.split)

lemma keeps_start_interactive: "keeps_start p (interactive h p)"
  by (simp add: interactive_def keeps_start_finish) (simp add: keeps_start_def)

lemmas keeps_start_rules = keeps_start_refl keeps_start_finish keeps_start_getInstance keeps_start_success keeps_start_interactive

lemma callbacks_keep_start:
  "keeps_start p (on_callback h c p)"
  "keeps_start p (on_callbacks h cs p)"
  by (induction h c p and h cs p rule: on_callback_on_callbacks.induct)
    (simp_all add: keeps_start_rules, (blast intro: keeps_start_trans keeps_start_interactive)+)

lemma page_ok_clear_trigger: "page_ok h p \<Longrightarrow> page_ok h (p\<lparr>pg_trigger := False\<rparr>)"
  by (simp add: page_ok_def settled_def)

lemma page_ok_clear_fallback: "page_ok h p \<Longrightarrow> page_ok h (p\<lparr>pg_fallback := False\<rparr>)"
  by (simp add: page_ok_def settled_def)

lemma page_ok_arm_fallback: "page_ok h p \<Longrightarrow> \<not> settled p \<Longrightarrow> page_ok h (p\<lparr>pg_fallback := True\<rparr>)"
  by (simp add: page_ok_def settled_def)

lemma page_ok_call: "page_ok h p \<Longrightarrow> pg_trigger p \<Longrightarrow> page_ok h (p\<lparr>pg_trigger := False, pg_traceless := pg_traceless p + 1\<rparr>)"
  by (auto simp: page_ok_def settled_def of_bool_def split: if_splits)

lemma run_interactive_ok: "page_ok h p \<Longrightarrow> page_ok h (run_interactive h cs p)"
  by (simp add: run_interactive_def interactive_ok callbacks_ok)

lemma trigger_fires_ok: "page_ok h p \<Longrightarrow> pg_trigger p \<Longrightarrow> page_ok h (trigger_fires h i p)"
  using page_ok_call [of h p] page_ok_clear_trigger [of h p]
  by (auto simp: trigger_fires_def Let_def run_interactive_ok callbacks_ok page_ok_arm_fallback split: sdk_instance.split)

lemma deadline_fires_ok: "page_ok h p \<Longrightarrow> page_ok h (deadline_fires p)"
  by (auto simp: deadline_fires_def finish_def page_ok_def settled_def)

lemma page_step_ok: "page_step h p p' \<Longrightarrow> page_ok h p \<Longrightarrow> page_ok h p'"
  by (induction rule: page_step.induct)
    (auto simp: callbacks_ok trigger_fires_ok fallback_fires_def run_interactive_ok page_ok_clear_fallback deadline_fires_ok)

lemma fresh_page_ok: "page_ok h fresh_page"
  by (simp add: page_ok_def fresh_page_def settled_def)

lemma page_reach_ok: "page_reach h p \<Longrightarrow> page_ok h p"
  by (induction rule: page_reach.induct) (auto simp: verifyInPage_def Let_def fresh_page_ok callbacks_ok page_step_ok)

lemma settled_page_rests: "page_step h p p' \<Longrightarrow> page_ok h p \<Longrightarrow> settled p \<Longrightarrow> p' = p"
  by (induction rule: page_step.induct) (auto simp: page_ok_def callbacks_settled)

lemma page_ok_bounds:
  assumes "page_ok h p"
  shows "pg_clicks p \<le> 1" "pg_traceless p \<le> 1" "h \<Longrightarrow> pg_clicks p = 0" "\<not> settled p \<Longrightarrow> pg_deadline p"
  using assms by (auto simp: page_ok_def of_bool_def split: if_splits)

lemma deadline_settles: "\<not> settled p \<Longrightarrow> pg_result (deadline_fires p) = Some (Rejected ''verification_timeout'')"
  by (simp add: deadline_fires_def finish_def settled_def)

text \<open>
  C29: whatever the SDK does, a verification asks it for a silent check at most once and presses the button at most once,
  never in a headless browser; its result is settled once and never changes, a text it resolves to is not blank, and
  until then the deadline is armed, which rejects it.
\<close>

theorem verification_settles_once:
  assumes "page_reach h p"
  shows "pg_traceless p \<le> 1 \<and> pg_clicks p \<le> of_bool (\<not> h) \<and> (\<forall>s. pg_result p = Some (Resolved s) \<longrightarrow> trim s \<noteq> '''')
    \<and> (if settled p then (\<forall>p'. page_step h p p' \<longrightarrow> p' = p)
       else pg_deadline p \<and> pg_result (deadline_fires p) = Some (Rejected ''verification_timeout''))"
proof -
  have ok: "page_ok h p" using assms by (rule page_reach_ok)
  have "pg_clicks p \<le> of_bool (\<not> h)" using page_ok_bounds [OF ok] by (cases h) auto
  moreover have "\<forall>s. pg_result p = Some (Resolved s) \<longrightarrow> trim s \<noteq> ''''" using ok by (simp add: page_ok_def)
  ultimately show ?thesis
    using page_ok_bounds [OF ok] settled_page_rests [OF _ ok] deadline_settles [of p] by auto
qed

lemma verification_settles_once_witness:
  "pg_clicks (trigger_fires False (Traceless [Fail None []] False) (verifyInPage False [GetInstance] False)) \<le> 1
   \<and> pg_traceless (trigger_fires False (Traceless [Fail None []] False) (verifyInPage False [GetInstance] False)) \<le> 1"
proof -
  have "page_reach False (trigger_fires False (Traceless [Fail None []] False) (verifyInPage False [GetInstance] False))"
    by (rule stepped [OF initialised trigger_due])
      (simp add: verifyInPage_def getInstance_def fresh_page_def settled_def)
  then show ?thesis using verification_settles_once by fastforce
qed

end
