(* ===== verification/Zcode_Server.thy ===== *)
theory Zcode_Server
  imports Zcode_Page "HOL-Library.AList"
begin

text \<open>
  \<^verbatim>\<open>createServer\<close> of \<^verbatim>\<open>zcode2api/verifier/server.mjs\<close>: at most eight requests at a time, whose verifications run one after
  the other. A request is a handler with its own abort signal; the chain of promises \<^verbatim>\<open>queue\<close> is the list of the tasks that
  have not settled. Decoding and parsing of the body are a parameter, the verifier is the environment.
\<close>

section \<open>Requests and answers\<close>

datatype handler_state = Reading bytes | Waiting "(string \<times> string) list" | Verifying "(string \<times> string) list" | Finished

record verify_handler =
  hv_state :: handler_state
  hv_aborted :: bool
  hv_destroyed :: bool

datatype answer = Alive | Refusal rat string | Proof json

record verify_server =
  vs_queued :: nat
  vs_queue :: "nat list"
  vs_handlers :: "nat \<Rightarrow> verify_handler option"
  vs_answers :: "(nat \<times> answer) list"

definition idle_server :: verify_server where
  "idle_server = \<lparr>vs_queued = 0, vs_queue = [], vs_handlers = Map.empty, vs_answers = []\<rparr>"

definition createServer :: "string \<Rightarrow> thrown + verify_server" where
  "createServer key = (if key = '''' then Inl (plain_error ''ZCODE_VERIFY_KEY is required'') else Inr idle_server)"

definition set_state :: "nat \<Rightarrow> handler_state \<Rightarrow> verify_server \<Rightarrow> verify_server" where
  "set_state i st s = s\<lparr>vs_handlers := (vs_handlers s)(i := map_option (\<lambda>h. h\<lparr>hv_state := st\<rparr>) (vs_handlers s i))\<rparr>"

text \<open>\<open>json\<close>: nothing is written to a connection that is gone.\<close>

definition send :: "nat \<Rightarrow> answer \<Rightarrow> verify_server \<Rightarrow> verify_server" where
  "send i a s = (case vs_handlers s i of None \<Rightarrow> s
     | Some h \<Rightarrow> if hv_destroyed h then s else s\<lparr>vs_answers := vs_answers s @ [(i, a)]\<rparr>)"

section \<open>The handler\<close>

definition ALLOWED_HEADERS :: "string list" where
  "ALLOWED_HEADERS = [''x-zcode-app-version'', ''x-platform'', ''x-client-language'']"

definition allowed_header :: "string \<times> json \<Rightarrow> (string \<times> string) list" where
  "allowed_header kv = (case snd kv of JStr v \<Rightarrow> if lower (fst kv) \<in> set ALLOWED_HEADERS \<and> length v \<le> 100 then [(lower (fst kv), v)] else []
     | _ \<Rightarrow> [])"

text \<open>\<^verbatim>\<open>Object.fromEntries\<close>: a later entry replaces an earlier one of the same name.\<close>

definition from_entries :: "(string \<times> string) list \<Rightarrow> (string \<times> string) list" where
  "from_entries kvs = fold (\<lambda>(k, v) m. AList.update k v m) kvs []"

definition invalid_request :: thrown where
  "invalid_request = Adapter 400 ''invalid_request'' ''invalid_request''"

definition source_headers :: "json option \<Rightarrow> thrown + (string \<times> string) list" where
  "source_headers body = (case ogetp body ''source_headers'' of
     Some (JObj kvs) \<Rightarrow> Inr (from_entries (concat (map allowed_header kvs)))
   | _ \<Rightarrow> Inl invalid_request)"

definition live :: "nat \<Rightarrow> verify_server \<Rightarrow> bool" where
  "live i s \<longleftrightarrow> (case vs_handlers s i of None \<Rightarrow> False | Some h \<Rightarrow> hv_state h \<noteq> Finished)"

text \<open>What is answered before the body is read: \<open>None\<close> when the request is taken.\<close>

definition admission :: "string \<Rightarrow> string \<Rightarrow> string \<Rightarrow> string \<Rightarrow> nat \<Rightarrow> answer option" where
  "admission key method url authorization queued =
     (if method = ''GET'' \<and> url = ''/livez'' then Some Alive
      else if utf8 authorization \<noteq> utf8 (''Bearer '' @ key) then Some (Refusal 401 ''unauthorized'')
      else if method \<noteq> ''POST'' \<or> url \<noteq> ''/verify'' then Some (Refusal 404 ''not_found'')
      else if 8 \<le> queued then Some (Refusal 429 ''verification_queue_full'')
      else None)"

definition arrive :: "string \<Rightarrow> nat \<Rightarrow> string \<Rightarrow> string \<Rightarrow> string \<Rightarrow> verify_server \<Rightarrow> verify_server" where
  "arrive key i method url authorization s =
     (case admission key method url authorization (vs_queued s) of
        Some a \<Rightarrow> send i a (s\<lparr>vs_handlers := (vs_handlers s)(i \<mapsto> \<lparr>hv_state = Finished, hv_aborted = False, hv_destroyed = False\<rparr>)\<rparr>)
      | None \<Rightarrow> s\<lparr>vs_queued := vs_queued s + 1,
          vs_handlers := (vs_handlers s)(i \<mapsto> \<lparr>hv_state = Reading [], hv_aborted = False, hv_destroyed = False\<rparr>)\<rparr>)"

text \<open>The end of the handler: its answer and the \<^verbatim>\<open>finally\<close> block.\<close>

definition leave :: "nat \<Rightarrow> answer \<Rightarrow> verify_server \<Rightarrow> verify_server" where
  "leave i a s = (let s' = set_state i Finished (send i a s) in s'\<lparr>vs_queued := vs_queued s' - 1\<rparr>)"

definition error_answer :: "bool \<Rightarrow> thrown \<Rightarrow> answer" where
  "error_answer aborted e =
     (if aborted then Refusal 504 ''verification_cancelled''
      else (case e of
          Adapter st c _ \<Rightarrow> Refusal (if st = 0 then 502 else of_int st) (if c = '''' then ''verification_failed'' else c)
        | Foreign f \<Rightarrow> Refusal (case err_status f of None \<Rightarrow> 502 | Some q \<Rightarrow> if q = 0 then 502 else q)
            (case err_code f of None \<Rightarrow> ''verification_failed'' | Some c \<Rightarrow> if c = '''' then ''verification_failed'' else c)))"

definition aborted :: "nat \<Rightarrow> verify_server \<Rightarrow> bool" where
  "aborted i s \<longleftrightarrow> (case vs_handlers s i of None \<Rightarrow> False | Some h \<Rightarrow> hv_aborted h)"

definition fail_handler :: "nat \<Rightarrow> thrown \<Rightarrow> verify_server \<Rightarrow> verify_server" where
  "fail_handler i e s = leave i (error_answer (aborted i s) e) s"

definition too_large :: thrown where
  "too_large = Adapter 413 ''request_too_large'' ''request_too_large''"

definition body_chunk :: "nat \<Rightarrow> bytes \<Rightarrow> bytes \<Rightarrow> verify_server \<Rightarrow> verify_server" where
  "body_chunk i got chunk s =
     (if 16384 < length got + length chunk then fail_handler i too_large s else set_state i (Reading (got @ chunk)) s)"

definition body_end :: "(bytes \<Rightarrow> json option) \<Rightarrow> nat \<Rightarrow> bytes \<Rightarrow> verify_server \<Rightarrow> verify_server" where
  "body_end parse i got s = (case parse got of
     None \<Rightarrow> fail_handler i invalid_request s
   | Some body \<Rightarrow> (case source_headers (Some body) of
        Inl e \<Rightarrow> fail_handler i e s
      | Inr hs \<Rightarrow> (set_state i (Waiting hs) s)\<lparr>vs_queue := vs_queue s @ [i]\<rparr>))"

section \<open>The queue\<close>

text \<open>The task of the handler settles: the next one may run, and the handler goes on behind \<^verbatim>\<open>await task\<close>.\<close>

definition task_settles :: "nat \<Rightarrow> thrown + json \<Rightarrow> verify_server \<Rightarrow> verify_server" where
  "task_settles i r s0 = (let s = s0\<lparr>vs_queue := tl (vs_queue s0)\<rparr> in
     case r of Inl e \<Rightarrow> fail_handler i e s
     | Inr v \<Rightarrow> if aborted i s then fail_handler i (plain_error ''aborted'') s else leave i (Proof v) s)"

definition task_starts :: "nat \<Rightarrow> (string \<times> string) list \<Rightarrow> verify_server \<Rightarrow> verify_server" where
  "task_starts i hs s = (if aborted i s then task_settles i (Inl (plain_error ''aborted'')) s else set_state i (Verifying hs) s)"

definition cancel_handler :: "nat \<Rightarrow> verify_server \<Rightarrow> verify_server" where
  "cancel_handler i s = s\<lparr>vs_handlers := (vs_handlers s)(i := map_option (\<lambda>h. h\<lparr>hv_aborted := True\<rparr>) (vs_handlers s i))\<rparr>"

definition connection_closes :: "nat \<Rightarrow> verify_server \<Rightarrow> verify_server" where
  "connection_closes i s = s\<lparr>vs_handlers := (vs_handlers s)(i := map_option (\<lambda>h. h\<lparr>hv_aborted := True, hv_destroyed := True\<rparr>) (vs_handlers s i))\<rparr>"

definition state_of :: "verify_server \<Rightarrow> nat \<Rightarrow> handler_state option" where
  "state_of s i = map_option hv_state (vs_handlers s i)"

inductive verify_step :: "string \<Rightarrow> (bytes \<Rightarrow> json option) \<Rightarrow> verify_server \<Rightarrow> verify_server \<Rightarrow> bool" for key parse where
  request_arrives: "vs_handlers s i = None \<Longrightarrow> verify_step key parse s (arrive key i method url authorization s)"
| chunk_arrives: "state_of s i = Some (Reading got) \<Longrightarrow> verify_step key parse s (body_chunk i got chunk s)"
| body_arrives: "state_of s i = Some (Reading got) \<Longrightarrow> verify_step key parse s (body_end parse i got s)"
| reading_fails: "state_of s i = Some (Reading got) \<Longrightarrow> verify_step key parse s (fail_handler i e s)"
| turn_comes: "state_of s i = Some (Waiting hs) \<Longrightarrow> vs_queue s = i # rest \<Longrightarrow> verify_step key parse s (task_starts i hs s)"
| verifier_answers: "state_of s i = Some (Verifying hs) \<Longrightarrow> vs_queue s = i # rest \<Longrightarrow> verify_step key parse s (task_settles i r s)"
| timer_fires: "live i s \<Longrightarrow> verify_step key parse s (cancel_handler i s)"
| closed: "verify_step key parse s (connection_closes i s)"

inductive verify_reach :: "string \<Rightarrow> (bytes \<Rightarrow> json option) \<Rightarrow> verify_server \<Rightarrow> bool" for key parse where
  nothing_yet: "verify_reach key parse idle_server"
| served: "verify_reach key parse s \<Longrightarrow> verify_step key parse s s' \<Longrightarrow> verify_reach key parse s'"

section \<open>The invariant\<close>

definition busy :: "verify_server \<Rightarrow> nat set" where
  "busy s = {i. live i s}"

definition in_queue :: "handler_state option \<Rightarrow> bool" where
  "in_queue st \<longleftrightarrow> (case st of Some (Waiting hs) \<Rightarrow> True | Some (Verifying hs) \<Rightarrow> True | _ \<Rightarrow> False)"

definition verifying :: "verify_server \<Rightarrow> nat \<Rightarrow> bool" where
  "verifying s i \<longleftrightarrow> (case state_of s i of Some (Verifying hs) \<Rightarrow> True | _ \<Rightarrow> False)"

definition verify_ok :: "verify_server \<Rightarrow> bool" where
  "verify_ok s \<longleftrightarrow>
     distinct (vs_queue s) \<and> (\<forall>i. i \<in> set (vs_queue s) \<longleftrightarrow> in_queue (state_of s i))
     \<and> (\<forall>i. verifying s i \<longrightarrow> vs_queue s \<noteq> [] \<and> hd (vs_queue s) = i)
     \<and> finite (busy s) \<and> vs_queued s = card (busy s) \<and> vs_queued s \<le> 8
     \<and> distinct (map fst (vs_answers s)) \<and> (\<forall>i \<in> fst ` set (vs_answers s). state_of s i = Some Finished)"

lemma live_state: "live i s \<longleftrightarrow> state_of s i \<noteq> None \<and> state_of s i \<noteq> Some Finished"
  by (auto simp: live_def state_of_def split: option.splits)

lemma state_of_set_state [simp]:
  "state_of (set_state i st s) j = (if j = i \<and> state_of s i \<noteq> None then Some st else state_of s j)"
  by (auto simp: state_of_def set_state_def)

lemma set_state_frame [simp]:
  "vs_queue (set_state i st s) = vs_queue s" "vs_queued (set_state i st s) = vs_queued s" "vs_answers (set_state i st s) = vs_answers s"
  by (simp_all add: set_state_def)

lemma send_frame [simp]:
  "state_of (send i a s) = state_of s" "vs_queue (send i a s) = vs_queue s" "vs_queued (send i a s) = vs_queued s"
  by (auto simp: send_def state_of_def fun_eq_iff split: option.splits)

lemma send_answers: "vs_answers (send i a s) = vs_answers s \<or> vs_answers (send i a s) = vs_answers s @ [(i, a)]"
  by (auto simp: send_def split: option.splits)

lemma state_of_queued [simp]: "state_of (s\<lparr>vs_queued := n\<rparr>) = state_of s"
  by (simp add: state_of_def fun_eq_iff)

lemma leave_frame [simp]:
  "state_of (leave i a s) j = (if j = i \<and> state_of s i \<noteq> None then Some Finished else state_of s j)"
  "vs_queue (leave i a s) = vs_queue s" "vs_queued (leave i a s) = vs_queued s - 1"
  by (simp_all add: leave_def Let_def)

lemma leave_answers: "vs_answers (leave i a s) = vs_answers s \<or> vs_answers (leave i a s) = vs_answers s @ [(i, a)]"
  using send_answers [of i a s] by (simp add: leave_def Let_def)

lemma same_states_ok:
  assumes "verify_ok s" "state_of s' = state_of s" "vs_queue s' = vs_queue s" "vs_queued s' = vs_queued s" "vs_answers s' = vs_answers s"
  shows "verify_ok s'"
proof -
  have "busy s' = busy s" "verifying s' = verifying s"
    using assms(2) by (simp_all add: busy_def verifying_def live_state fun_eq_iff)
  then show ?thesis using assms by (simp add: verify_ok_def)
qed

lemma state_of_queue [simp]: "state_of (s\<lparr>vs_queue := q\<rparr>) = state_of s"
  by (simp add: state_of_def fun_eq_iff)

lemma busy_queue [simp]: "busy (s\<lparr>vs_queue := q\<rparr>) = busy s"
  by (simp add: busy_def live_state)

text \<open>A live handler leaves, and its task, if it has one, leaves the queue.\<close>

lemma leave_ok:
  assumes ok: "verify_ok s" and i: "state_of s i = Some st" "st \<noteq> Finished"
    and q: "distinct q" "set q = set (vs_queue s) - {i}" "\<And>j. verifying s j \<Longrightarrow> j \<noteq> i \<Longrightarrow> q \<noteq> [] \<and> hd q = j"
  shows "verify_ok (leave i a (s\<lparr>vs_queue := q\<rparr>))" (is "verify_ok ?s")
proof -
  have busy: "busy ?s = busy s - {i}" "i \<in> busy s"
    using i by (auto simp: busy_def live_state split: if_splits)
  have "vs_queued s - 1 \<le> 8" using ok unfolding verify_ok_def by linarith
  then have count: "vs_queued ?s = card (busy ?s)" "vs_queued ?s \<le> 8" "finite (busy ?s)"
    using ok busy by (simp_all add: verify_ok_def)
  have queue: "\<forall>j. j \<in> set (vs_queue ?s) \<longleftrightarrow> in_queue (state_of ?s j)" "distinct (vs_queue ?s)"
    using ok i q(1,2) by (auto simp: verify_ok_def in_queue_def)
  have first: "\<forall>j. verifying ?s j \<longrightarrow> vs_queue ?s \<noteq> [] \<and> hd (vs_queue ?s) = j"
    using i q(3) by (auto simp: verifying_def split: if_splits)
  have "i \<notin> fst ` set (vs_answers s)" using ok i by (auto simp: verify_ok_def)
  then have "distinct (map fst (vs_answers ?s))" "\<forall>j \<in> fst ` set (vs_answers ?s). state_of ?s j = Some Finished"
    using leave_answers [of i a "s\<lparr>vs_queue := q\<rparr>"] ok i by (auto simp: verify_ok_def)
  then show ?thesis using count queue first unfolding verify_ok_def by blast
qed

lemma leave_unqueued_ok:
  assumes "verify_ok s" "state_of s i = Some (Reading got)"
  shows "verify_ok (leave i a s)"
proof -
  have out: "i \<notin> set (vs_queue s)" using assms by (simp add: verify_ok_def in_queue_def)
  have "verify_ok (leave i a (s\<lparr>vs_queue := vs_queue s\<rparr>))"
  proof (rule leave_ok [OF assms])
    show "distinct (vs_queue s)" using assms(1) by (simp add: verify_ok_def)
    show "set (vs_queue s) = set (vs_queue s) - {i}" using out by simp
    show "vs_queue s \<noteq> [] \<and> hd (vs_queue s) = j" if "verifying s j" for j
      using assms(1) that unfolding verify_ok_def by blast
  qed simp
  then show ?thesis by simp
qed

lemma fail_handler_is_leave: "\<exists>a. fail_handler i e s = leave i a s"
  by (auto simp: fail_handler_def)

lemma task_settles_is_leave: "\<exists>a. task_settles i r s = leave i a (s\<lparr>vs_queue := tl (vs_queue s)\<rparr>)"
  by (auto simp: task_settles_def fail_handler_def Let_def split: sum.splits)

lemma task_settles_ok:
  assumes "verify_ok s" "state_of s i = Some st" "st \<noteq> Finished" "vs_queue s = i # rest"
  shows "verify_ok (task_settles i r s)"
proof -
  obtain a where a: "task_settles i r s = leave i a (s\<lparr>vs_queue := rest\<rparr>)"
    using task_settles_is_leave [of i r s] assms(4) by auto
  have d: "distinct (i # rest)" and head: "\<And>j. verifying s j \<Longrightarrow> i = j" using assms(1,4) by (auto simp: verify_ok_def)
  show ?thesis unfolding a
  proof (rule leave_ok [OF assms(1-3)])
    show "distinct rest" "set rest = set (vs_queue s) - {i}" using d assms(4) by auto
    show "rest \<noteq> [] \<and> hd rest = j" if "verifying s j" "j \<noteq> i" for j using head [OF that(1)] that(2) by simp
  qed
qed

section \<open>Every step keeps it\<close>

lemma set_state_ok:
  assumes ok: "verify_ok s" and i: "state_of s i = Some st" "st \<noteq> Finished" "st' \<noteq> Finished" "in_queue (Some st') = in_queue (Some st)"
    and first: "\<And>hs. st' = Verifying hs \<Longrightarrow> vs_queue s \<noteq> [] \<and> hd (vs_queue s) = i"
  shows "verify_ok (set_state i st' s)" (is "verify_ok ?s")
proof -
  have busy: "busy ?s = busy s" using i by (auto simp: busy_def live_state)
  have "\<forall>j. j \<in> set (vs_queue s) \<longleftrightarrow> in_queue (state_of ?s j)"
    using ok i by (simp add: verify_ok_def)
  moreover have "\<forall>j. verifying ?s j \<longrightarrow> vs_queue s \<noteq> [] \<and> hd (vs_queue s) = j"
    using ok first by (auto simp: verify_ok_def verifying_def split: if_splits handler_state.splits)
  moreover have "\<forall>j \<in> fst ` set (vs_answers s). state_of ?s j = Some Finished"
    using ok i by (auto simp: verify_ok_def)
  ultimately show ?thesis using ok busy by (simp add: verify_ok_def)
qed

lemma body_end_ok:
  assumes ok: "verify_ok s" and i: "state_of s i = Some (Reading got)"
  shows "verify_ok (body_end parse i got s)"
proof -
  have out: "i \<notin> set (vs_queue s)" using ok i by (simp add: verify_ok_def in_queue_def)
  have "verify_ok ((set_state i (Waiting hs) s)\<lparr>vs_queue := vs_queue s @ [i]\<rparr>)" (is "verify_ok ?s") for hs
  proof -
    have busy: "busy ?s = busy s" using i by (auto simp: busy_def live_state)
    have "\<forall>j. j \<in> set (vs_queue ?s) \<longleftrightarrow> in_queue (state_of ?s j)"
      using ok i by (auto simp: verify_ok_def in_queue_def)
    moreover have "\<forall>j. verifying ?s j \<longrightarrow> vs_queue ?s \<noteq> [] \<and> hd (vs_queue ?s) = j"
      using ok by (auto simp: verify_ok_def verifying_def split: if_splits)
    moreover have "\<forall>j \<in> fst ` set (vs_answers ?s). state_of ?s j = Some Finished"
      using ok i by (auto simp: verify_ok_def)
    ultimately show ?thesis using ok busy out by (simp add: verify_ok_def)
  qed
  then show ?thesis
    using ok i by (auto simp: body_end_def fail_handler_def leave_unqueued_ok split: option.split sum.split)
qed

lemma state_of_new [simp]: "state_of (s\<lparr>vs_handlers := (vs_handlers s)(i \<mapsto> h)\<rparr>) = (state_of s)(i \<mapsto> hv_state h)"
  by (simp add: state_of_def fun_eq_iff)

lemma new_handler_ok:
  assumes ok: "verify_ok s" and i: "state_of s i = None" and states: "state_of s' = (state_of s)(i \<mapsto> st)" and queue: "vs_queue s' = vs_queue s"
    and st: "st = Reading [] \<and> vs_queued s < 8 \<and> vs_queued s' = vs_queued s + 1 \<and> vs_answers s' = vs_answers s
      \<or> st = Finished \<and> vs_queued s' = vs_queued s \<and> (vs_answers s' = vs_answers s \<or> (\<exists>a. vs_answers s' = vs_answers s @ [(i, a)]))"
  shows "verify_ok s'"
proof -
  have busy: "busy s' = (if st = Finished then busy s else insert i (busy s))" "i \<notin> busy s"
    using i states by (auto simp: busy_def live_state)
  have count: "vs_queued s' = card (busy s')" "vs_queued s' \<le> 8" "finite (busy s')"
    using ok st busy by (auto simp: verify_ok_def)
  have q: "\<forall>j. j \<in> set (vs_queue s') \<longleftrightarrow> in_queue (state_of s' j)" "distinct (vs_queue s')"
    using ok i st states queue by (auto simp: verify_ok_def in_queue_def)
  have first: "\<forall>j. verifying s' j \<longrightarrow> vs_queue s' \<noteq> [] \<and> hd (vs_queue s') = j"
    using ok st states queue by (auto simp: verify_ok_def verifying_def split: if_splits)
  have "i \<notin> fst ` set (vs_answers s)" using ok i by (auto simp: verify_ok_def)
  then have "distinct (map fst (vs_answers s'))" "\<forall>j \<in> fst ` set (vs_answers s'). state_of s' j = Some Finished"
    using ok st states by (auto simp: verify_ok_def)
  then show ?thesis using count q first unfolding verify_ok_def by blast
qed

lemma admission_None: "admission key method url authorization queued = None \<Longrightarrow> queued < 8"
  by (auto simp: admission_def split: if_splits)

lemma arrive_ok:
  assumes ok: "verify_ok s" and i: "vs_handlers s i = None"
  shows "verify_ok (arrive key i method url authorization s)"
proof (rule new_handler_ok [OF ok])
  show "state_of s i = None" using i by (simp add: state_of_def)
  show "state_of (arrive key i method url authorization s) =
    (state_of s)(i \<mapsto> if admission key method url authorization (vs_queued s) = None then Reading [] else Finished)"
    by (simp add: arrive_def state_of_def fun_eq_iff split: option.split) (simp add: send_def)
  show "vs_queue (arrive key i method url authorization s) = vs_queue s"
    by (simp add: arrive_def split: option.split)
next
  let ?A = "admission key method url authorization (vs_queued s)"
  show "(if ?A = None then Reading [] else Finished) = Reading [] \<and> vs_queued s < 8
      \<and> vs_queued (arrive key i method url authorization s) = vs_queued s + 1
      \<and> vs_answers (arrive key i method url authorization s) = vs_answers s
    \<or> (if ?A = None then Reading [] else Finished) = Finished
      \<and> vs_queued (arrive key i method url authorization s) = vs_queued s
      \<and> (vs_answers (arrive key i method url authorization s) = vs_answers s
         \<or> (\<exists>a. vs_answers (arrive key i method url authorization s) = vs_answers s @ [(i, a)]))"
    by (cases ?A) (simp_all add: arrive_def admission_None send_def)
qed

lemma state_of_abort [simp]: "state_of (cancel_handler i s) = state_of s"
proof (rule ext)
  show "state_of (cancel_handler i s) j = state_of s j" for j
    by (cases "vs_handlers s j") (auto simp: state_of_def cancel_handler_def)
qed

lemma state_of_close [simp]: "state_of (connection_closes i s) = state_of s"
proof (rule ext)
  show "state_of (connection_closes i s) j = state_of s j" for j
    by (cases "vs_handlers s j") (auto simp: state_of_def connection_closes_def)
qed

lemma abort_ok: "verify_ok s \<Longrightarrow> verify_ok (cancel_handler i s)"
  by (erule same_states_ok) (rule state_of_abort, simp_all add: cancel_handler_def)

lemma close_ok: "verify_ok s \<Longrightarrow> verify_ok (connection_closes i s)"
  by (erule same_states_ok) (rule state_of_close, simp_all add: connection_closes_def)

lemma body_chunk_ok: "verify_ok s \<Longrightarrow> state_of s i = Some (Reading got) \<Longrightarrow> verify_ok (body_chunk i got chunk s)"
  by (simp add: body_chunk_def fail_handler_def leave_unqueued_ok) (auto intro: set_state_ok simp: in_queue_def)

lemma task_starts_ok:
  "verify_ok s \<Longrightarrow> state_of s i = Some (Waiting hs) \<Longrightarrow> vs_queue s = i # rest \<Longrightarrow> verify_ok (task_starts i hs s)"
  by (simp add: task_starts_def task_settles_ok) (auto intro: set_state_ok simp: in_queue_def)

lemma verify_step_ok: "verify_step key parse s s' \<Longrightarrow> verify_ok s \<Longrightarrow> verify_ok s'"
  by (induction rule: verify_step.induct)
    (simp_all add: arrive_ok body_chunk_ok body_end_ok fail_handler_def leave_unqueued_ok task_starts_ok task_settles_ok abort_ok close_ok)

lemma idle_server_ok: "verify_ok idle_server"
  by (simp add: verify_ok_def idle_server_def busy_def live_def state_of_def in_queue_def verifying_def)

lemma verify_reach_ok: "verify_reach key parse s \<Longrightarrow> verify_ok s"
  by (induction rule: verify_reach.induct) (auto simp: idle_server_ok verify_step_ok)

section \<open>Cancelled requests\<close>

lemma aborted_set_state [simp]: "aborted j (set_state i st s) = aborted j s"
  by (auto simp: aborted_def set_state_def split: option.splits)

lemma aborted_send [simp]: "aborted j (send i a s) = aborted j s"
  by (auto simp: aborted_def send_def split: option.splits)

lemma aborted_queue [simp]: "aborted j (s\<lparr>vs_queue := q\<rparr>) = aborted j s" "aborted j (s\<lparr>vs_queued := n\<rparr>) = aborted j s"
  by (simp_all add: aborted_def)

lemma aborted_leave [simp]: "aborted j (leave i a s) = aborted j s"
  by (simp add: leave_def Let_def)

lemma aborted_abort: "aborted j s \<Longrightarrow> aborted j (cancel_handler i s)"
  by (auto simp: aborted_def cancel_handler_def split: option.splits if_splits)

lemma aborted_close: "aborted j s \<Longrightarrow> aborted j (connection_closes i s)"
  by (auto simp: aborted_def connection_closes_def split: option.splits if_splits)

lemma aborted_arrive: "aborted j s \<Longrightarrow> vs_handlers s i = None \<Longrightarrow> aborted j (arrive key i method url authorization s)"
  by (auto simp: aborted_def arrive_def send_def split: option.splits if_splits)

text \<open>What a cancelled request can still get from a step.\<close>

definition no_new_proof :: "nat \<Rightarrow> verify_server \<Rightarrow> verify_server \<Rightarrow> bool" where
  "no_new_proof i s s' \<longleftrightarrow> aborted i s' \<and> (verifying s' i \<longrightarrow> verifying s i)
     \<and> (\<forall>v. (i, Proof v) \<in> set (vs_answers s') \<longrightarrow> (i, Proof v) \<in> set (vs_answers s))"

lemma leave_no_new_proof:
  assumes "aborted j s" "i = j \<Longrightarrow> \<forall>v. a \<noteq> Proof v"
  shows "no_new_proof j s (leave i a (s\<lparr>vs_queue := q\<rparr>))"
  using assms leave_answers [of i a "s\<lparr>vs_queue := q\<rparr>"]
  by (auto simp: no_new_proof_def verifying_def split: if_splits)

lemma error_answer_no_proof [simp]: "error_answer b e \<noteq> Proof v"
  by (simp add: error_answer_def split: thrown.split)

lemma fail_no_new_proof: "aborted j s \<Longrightarrow> no_new_proof j s (fail_handler i e s)"
  using leave_no_new_proof [of j s i "error_answer (aborted i s) e" "vs_queue s"] by (simp add: fail_handler_def)

lemma settle_no_new_proof:
  assumes "aborted j s"
  shows "no_new_proof j s (task_settles i r s)"
  using leave_no_new_proof [OF assms, of i _ "tl (vs_queue s)"] assms
  by (cases r) (auto simp: task_settles_def fail_handler_def Let_def)

lemma set_state_no_new_proof:
  "aborted j s \<Longrightarrow> (\<And>hs. st = Verifying hs \<Longrightarrow> i \<noteq> j) \<Longrightarrow> no_new_proof j s (set_state i st s)"
  by (auto simp: no_new_proof_def verifying_def split: if_splits handler_state.splits)

lemma arrive_no_new_proof:
  assumes "aborted j s" "vs_handlers s i = None"
  shows "no_new_proof j s (arrive key i method url authorization s)"
proof -
  have "i \<noteq> j" using assms by (auto simp: aborted_def)
  moreover have "verifying (arrive key i method url authorization s) j = verifying s j"
    using calculation by (simp add: verifying_def state_of_def arrive_def send_def split: option.split)
  moreover have "(j, Proof v) \<in> set (vs_answers (arrive key i method url authorization s)) \<Longrightarrow> (j, Proof v) \<in> set (vs_answers s)" for v
    using calculation(1) by (auto simp: arrive_def send_def split: option.splits)
  ultimately show ?thesis using assms by (simp add: no_new_proof_def aborted_arrive)
qed

lemma queue_no_new_proof: "no_new_proof j s t \<Longrightarrow> no_new_proof j s (t\<lparr>vs_queue := q\<rparr>)"
  by (simp add: no_new_proof_def verifying_def)

lemma body_chunk_no_new_proof: "aborted j s \<Longrightarrow> no_new_proof j s (body_chunk i got chunk s)"
  by (auto simp: body_chunk_def fail_no_new_proof intro!: set_state_no_new_proof)

lemma body_end_no_new_proof: "aborted j s \<Longrightarrow> no_new_proof j s (body_end parse i got s)"
  by (auto simp: body_end_def fail_no_new_proof split: option.split sum.split intro!: set_state_no_new_proof queue_no_new_proof)

lemma task_starts_no_new_proof: "aborted j s \<Longrightarrow> no_new_proof j s (task_starts i hs s)"
  by (auto simp: task_starts_def settle_no_new_proof intro!: set_state_no_new_proof)

lemma abort_no_new_proof: "aborted j s \<Longrightarrow> no_new_proof j s (cancel_handler i s)"
  by (simp add: no_new_proof_def aborted_abort verifying_def) (simp add: cancel_handler_def)

lemma close_no_new_proof: "aborted j s \<Longrightarrow> no_new_proof j s (connection_closes i s)"
  by (simp add: no_new_proof_def aborted_close verifying_def) (simp add: connection_closes_def)

lemmas no_new_proof_rules = arrive_no_new_proof body_chunk_no_new_proof body_end_no_new_proof fail_no_new_proof
  task_starts_no_new_proof settle_no_new_proof abort_no_new_proof close_no_new_proof

section \<open>Properties\<close>

text \<open>
  C30: the verifier serves at most eight requests at a time and counts them exactly; however the requests arrive, end and are
  cancelled, only one verification runs, that of the first request whose turn has come, and no request is answered twice.
\<close>

theorem verifications_are_serialised:
  assumes "verify_reach key parse s"
  shows "vs_queued s = card {i. live i s} \<and> vs_queued s \<le> 8 \<and> distinct (map fst (vs_answers s))
    \<and> {i. verifying s i} \<subseteq> set (take 1 (vs_queue s))"
proof -
  have ok: "verify_ok s" using assms by (rule verify_reach_ok)
  have "{i. verifying s i} \<subseteq> set (take 1 (vs_queue s))"
    using ok by (cases "vs_queue s") (auto simp: verify_ok_def)
  then show ?thesis using ok by (simp add: verify_ok_def busy_def)
qed

text \<open>
  C31: a request whose connection is closed, or whose two minutes are over, stays cancelled: its verification is not started and
  it is never answered with a proof.
\<close>

theorem cancelled_request_gets_no_proof:
  assumes "verify_step key parse s s'" "aborted i s"
  shows "aborted i s' \<and> (verifying s' i \<longrightarrow> verifying s i)
    \<and> (\<forall>v. (i, Proof v) \<in> set (vs_answers s') \<longrightarrow> (i, Proof v) \<in> set (vs_answers s))"
proof -
  have "no_new_proof i s s'"
    using assms by (induction rule: verify_step.induct) (simp_all add: no_new_proof_rules)
  then show ?thesis by (simp add: no_new_proof_def)
qed

definition witness_waiting :: verify_server where
  "witness_waiting = (body_end (\<lambda>_. Some (JObj [(''source_headers'', JObj [])])) 1 []
     (arrive ''k'' 1 ''POST'' ''/verify'' ''Bearer k'' idle_server))"

lemma witness_waiting_reached: "verify_reach ''k'' (\<lambda>_. Some (JObj [(''source_headers'', JObj [])])) witness_waiting"
  unfolding witness_waiting_def
  by (rule served [OF served [OF nothing_yet request_arrives] body_arrives])
    (simp_all add: idle_server_def arrive_def admission_def state_of_def)

lemma verifications_are_serialised_witness:
  "vs_queued witness_waiting = card {i. live i witness_waiting} \<and> vs_queued witness_waiting \<le> 8"
  using verifications_are_serialised [OF witness_waiting_reached] by simp

lemma cancelled_request_gets_no_proof_witness:
  "\<not> verifying (task_starts 1 [] (cancel_handler 1 witness_waiting)) 1"
proof -
  have w: "state_of (cancel_handler 1 witness_waiting) 1 = Some (Waiting [])" "vs_queue (cancel_handler 1 witness_waiting) = [1]"
    "aborted 1 (cancel_handler 1 witness_waiting)" "\<not> verifying (cancel_handler 1 witness_waiting) 1"
    by code_simp+
  show ?thesis
    using cancelled_request_gets_no_proof [OF turn_comes [where key = "''k''" and parse = "\<lambda>_. None", OF w(1,2)] w(3)] w(4) by blast
qed

end
