(* ===== verification/Zcode_Verifier.thy ===== *)
theory Zcode_Verifier
  imports Zcode_Server
begin

text \<open>
  The two verifiers behind the server, \<^verbatim>\<open>browser.mjs\<close> and \<^verbatim>\<open>electron.mjs\<close>: the configuration of the check and the page that is
  kept loaded between requests. The server calls \<^verbatim>\<open>verify\<close> for one request at a time (\<open>verifications_are_serialised\<close>), so a run
  is one step here; what Playwright, Electron and the network answer during it is the script of the run.
\<close>

section \<open>The configuration of the check\<close>

definition ORIGIN :: string where "ORIGIN = ''https://zcode.z.ai''"

definition header_or :: "(string \<times> string) list \<Rightarrow> string \<Rightarrow> string \<Rightarrow> string" where
  "header_or hs k d = (case map_of hs k of None \<Rightarrow> d | Some v \<Rightarrow> if v = '''' then d else v)"

text \<open>The query and the user agent of the request.\<close>

definition config_request :: "string \<Rightarrow> (string \<times> string) list \<Rightarrow> (string \<times> string) list \<times> string" where
  "config_request host hs = (let v = header_or hs ''x-zcode-app-version'' ''3.14.3''
     in ([(''app_version'', v), (''platform'', header_or hs ''x-platform'' host)], ''ZCode/'' @ v))"

definition unavailable :: thrown where
  "unavailable = Adapter 502 ''configuration_unavailable'' ''configuration_unavailable''"

definition accepted_config :: "json option \<Rightarrow> (string \<times> json) list option" where
  "accepted_config c = (case obj_of c of None \<Rightarrow> None
     | Some kvs \<Rightarrow> if map_of kvs ''enabled'' \<noteq> Some (JBool False) \<and> truthy (map_of kvs ''sceneId'') \<and> truthy (map_of kvs ''prefix'')
         \<and> map_of kvs ''region'' \<in> {Some (JStr ''cn''), Some (JStr ''sgp'')} then Some kvs else None)"

definition check_language :: "(string \<times> string) list \<Rightarrow> string" where
  "check_language hs = (case map_of hs ''x-client-language'' of None \<Rightarrow> ''en'' | Some l \<Rightarrow> if starts_with l ''zh'' then ''cn'' else ''en'')"

text \<open>The answer of the origin: a failed request, or whether it is \<^verbatim>\<open>ok\<close> and its parsed body.\<close>

definition fetchCaptchaConfig :: "((string \<times> string) list \<times> string \<Rightarrow> thrown + bool \<times> json option) \<Rightarrow> string \<Rightarrow> (string \<times> string) list \<Rightarrow> thrown + json" where
  "fetchCaptchaConfig fetch host hs = (case fetch (config_request host hs) of
     Inl e \<Rightarrow> Inl e
   | Inr (fine, body) \<Rightarrow>
       if \<not> fine then Inl unavailable
       else (case body of
           None \<Rightarrow> Inl (js_error_of ''SyntaxError'' ''Unexpected token'')
         | Some JNull \<Rightarrow> Inl (type_error ''Cannot read properties of null'')
         | Some b \<Rightarrow>
             (case accepted_config (ogetp (ogetp (ogetp (Some b) ''data'') ''configs'') ''captcha'') of
                Some kvs \<Rightarrow> if getp b ''code'' = Some (JNum 0) then Inr (JObj (AList.update ''language'' (JStr (check_language hs)) kvs))
                  else Inl unavailable
              | None \<Rightarrow> Inl unavailable)))"

definition config_text :: "(rat \<Rightarrow> string) \<Rightarrow> json \<Rightarrow> string \<Rightarrow> string" where
  "config_text num c k = (case getp c k of None \<Rightarrow> ''undefined'' | Some v \<Rightarrow> js_string num v)"

definition configKey :: "(rat \<Rightarrow> string) \<Rightarrow> json \<Rightarrow> string" where
  "configKey num c = config_text num c ''region'' @ '':'' @ config_text num c ''prefix'' @ '':'' @ config_text num c ''sceneId''"

section \<open>The page that is kept\<close>

text \<open>A page (a window in Electron) is its number; an open page carries the key of the configuration it was loaded for.\<close>

record pages =
  po_kept :: "nat option"  \<comment> \<open>\<^verbatim>\<open>this.page\<close>, \<^verbatim>\<open>this.window\<close>\<close>
  po_key :: "string option"  \<comment> \<open>\<^verbatim>\<open>pageConfigKey\<close>, \<^verbatim>\<open>configKey\<close>\<close>
  po_open :: "(nat \<times> string option) list"
  po_next :: nat

record browser = pages +
  br_context :: bool

text \<open>What happens during a run.\<close>

record script =
  sc_aborted1 :: bool  \<comment> \<open>the signal at the start\<close>
  sc_config :: "thrown + json"
  sc_aborted2 :: bool  \<comment> \<open>the signal behind the configuration\<close>
  sc_launch :: "thrown option"
  sc_new :: "thrown option"
  sc_aborted3 :: bool  \<comment> \<open>the signal when the listener is added\<close>
  sc_load :: "thrown option"
  sc_param :: "thrown + string"
  sc_cancel :: bool  \<comment> \<open>the signal while the listener is there\<close>
  sc_clean :: "thrown option"

definition abort_error :: thrown where
  "abort_error = js_error_of ''AbortError'' ''This operation was aborted''"

fun message_of :: "thrown \<Rightarrow> string" where
  "message_of (Adapter _ _ m) = m"
| "message_of (Foreign f) = err_message f"

text \<open>The \<^verbatim>\<open>catch\<close> block.\<close>

definition run_error :: "bool \<Rightarrow> thrown \<Rightarrow> thrown" where
  "run_error cancelled e =
     (if cancelled then abort_error
      else if contains (message_of e) ''interactive_verification_required''
      then Adapter 409 ''interactive_verification_required'' ''interactive_verification_required''
      else Adapter 502 ''verification_failed'' ''verification_failed'')"

definition is_open :: "nat \<Rightarrow> 'a pages_scheme \<Rightarrow> bool" where
  "is_open p s \<longleftrightarrow> p \<in> fst ` set (po_open s)"

definition close_page :: "nat \<Rightarrow> 'a pages_scheme \<Rightarrow> 'a pages_scheme" where
  "close_page p s = s\<lparr>po_open := filter (\<lambda>x. fst x \<noteq> p) (po_open s)\<rparr>"

definition close_kept :: "'a pages_scheme \<Rightarrow> 'a pages_scheme" where
  "close_kept s = (case po_kept s of None \<Rightarrow> s | Some p \<Rightarrow> close_page p s)"

definition open_page :: "'a pages_scheme \<Rightarrow> 'a pages_scheme" where
  "open_page s = s\<lparr>po_open := (po_next s, None) # po_open s, po_next := po_next s + 1\<rparr>"

text \<open>The \<^verbatim>\<open>try\<close> block on the page \<open>p\<close>, which is loaded unless it is the kept one.\<close>

definition load_page :: "nat \<Rightarrow> string \<Rightarrow> 'a pages_scheme \<Rightarrow> 'a pages_scheme" where
  "load_page p k s = s\<lparr>po_kept := Some p, po_key := Some k, po_open := map (\<lambda>x. if fst x = p then (p, Some k) else x) (po_open s)\<rparr>"

definition try_page :: "script \<Rightarrow> nat \<Rightarrow> string \<Rightarrow> bool \<Rightarrow> 'a pages_scheme \<Rightarrow> (thrown + string) \<times> 'a pages_scheme" where
  "try_page sc p k loaded s =
     (if sc_aborted3 sc then (Inl abort_error, s)
      else if \<not> loaded \<and> sc_load sc \<noteq> None then (Inl (run_error (sc_cancel sc) (the (sc_load sc))), s)
      else (let s' = (if loaded then s else load_page p k s) in
        if sc_cancel sc then (Inl abort_error, s')
        else (case sc_param sc of Inl e \<Rightarrow> (Inl (run_error False e), s') | Inr v \<Rightarrow> (Inr v, s'))))"

text \<open>
  The \<^verbatim>\<open>finally\<close> block: a cancelled run has closed its page; a page that is open and kept is emptied, any other closed.
\<close>

definition finally_page :: "script \<Rightarrow> nat \<Rightarrow> (thrown + string) \<times> 'a pages_scheme \<Rightarrow> (thrown + string) \<times> 'a pages_scheme" where
  "finally_page sc p rs = (let s = (if sc_cancel sc \<and> \<not> sc_aborted3 sc then close_page p (snd rs) else snd rs) in
     if is_open p s \<and> po_kept s = Some p
     then ((case sc_clean sc of None \<Rightarrow> fst rs | Some e \<Rightarrow> Inl e), s)
     else (fst rs, close_page p s))"

definition run_page :: "script \<Rightarrow> nat \<Rightarrow> string \<Rightarrow> bool \<Rightarrow> 'a pages_scheme \<Rightarrow> (thrown + string) \<times> 'a pages_scheme" where
  "run_page sc p k loaded s = finally_page sc p (try_page sc p k loaded s)"

section \<open>The two verifiers\<close>

definition no_browser :: browser where
  "no_browser = \<lparr>po_kept = None, po_key = None, po_open = [], po_next = 0, br_context = False\<rparr>"

definition no_window :: pages where
  "no_window = \<lparr>po_kept = None, po_key = None, po_open = [], po_next = 0\<rparr>"

text \<open>\<^verbatim>\<open>BrowserVerifier.verify\<close>\<close>

definition drop_stale_page :: "string \<Rightarrow> browser \<Rightarrow> browser" where
  "drop_stale_page k s =
     (if po_key s \<noteq> Some k \<or> (\<exists>p \<in> set_option (po_kept s). \<not> is_open p s) then (close_kept s)\<lparr>po_kept := None\<rparr> else s)"

definition browser_verify :: "(rat \<Rightarrow> string) \<Rightarrow> script \<Rightarrow> browser \<Rightarrow> (thrown + string) \<times> browser" where
  "browser_verify num sc s =
     (if sc_aborted1 sc then (Inl abort_error, s)
      else (case sc_config sc of
          Inl e \<Rightarrow> (Inl e, s)
        | Inr c \<Rightarrow>
            if sc_aborted2 sc then (Inl abort_error, s)
            else if \<not> br_context s \<and> sc_launch sc \<noteq> None then (Inl (the (sc_launch sc)), s)
            else (let k = configKey num c; s1 = drop_stale_page k (s\<lparr>br_context := True\<rparr>) in
              case po_kept s1 of
                Some p \<Rightarrow> run_page sc p k True s1
              | None \<Rightarrow> (case sc_new sc of
                    Some e \<Rightarrow> (Inl e, s1)
                  | None \<Rightarrow> run_page sc (po_next s1) k False (open_page s1)))))"

text \<open>\<^verbatim>\<open>BrowserVerifier.close\<close>: closing the context closes its pages.\<close>

definition browser_close :: "browser \<Rightarrow> browser" where
  "browser_close s = (if br_context s then s\<lparr>po_open := []\<rparr> else s)\<lparr>br_context := False, po_kept := None, po_key := None\<rparr>"

text \<open>\<^verbatim>\<open>ElectronVerifier.close\<close> and \<^verbatim>\<open>verify\<close>\<close>

definition electron_close :: "pages \<Rightarrow> pages" where
  "electron_close s = (close_kept s)\<lparr>po_kept := None, po_key := None\<rparr>"

definition kept_window :: "pages \<Rightarrow> nat option" where
  "kept_window s = (case po_kept s of None \<Rightarrow> None | Some p \<Rightarrow> if is_open p s then Some p else None)"

definition electron_verify :: "(rat \<Rightarrow> string) \<Rightarrow> script \<Rightarrow> pages \<Rightarrow> (thrown + string) \<times> pages" where
  "electron_verify num sc s =
     (if sc_aborted1 sc then (Inl abort_error, s)
      else (case sc_config sc of
          Inl e \<Rightarrow> (Inl e, s)
        | Inr c \<Rightarrow> (let k = configKey num c; s1 = (if po_key s \<noteq> Some k then electron_close s else s) in
            if sc_aborted2 sc then (Inl abort_error, s1)
            else (case kept_window s1 of
                Some p \<Rightarrow> run_page sc p k True s1
              | None \<Rightarrow> (case sc_new sc of
                    Some e \<Rightarrow> (Inl e, s1)
                  | None \<Rightarrow> run_page sc (po_next s1) k False (open_page s1))))))"

section \<open>What a verifier promises\<close>

definition ready :: "nat \<Rightarrow> string \<Rightarrow> 'a pages_scheme \<Rightarrow> bool" where
  "ready p k s \<longleftrightarrow> po_open s = [(p, Some k)] \<and> po_kept s = Some p \<and> po_key s = Some k"

definition pages_ok :: "'a pages_scheme \<Rightarrow> bool" where
  "pages_ok s \<longleftrightarrow> (po_open s = [] \<or> (\<exists>p k. ready p k s)) \<and> (\<forall>p. po_kept s = Some p \<longrightarrow> p < po_next s)"

text \<open>A run that reaches its page.\<close>

definition goes_through :: "script \<Rightarrow> bool" where
  "goes_through sc \<longleftrightarrow> \<not> sc_aborted1 sc \<and> isl (sc_config sc) = False \<and> \<not> sc_aborted2 sc \<and> sc_launch sc = None \<and> sc_new sc = None
     \<and> \<not> sc_aborted3 sc"

text \<open>A page may also close between two runs.\<close>

datatype visit = Run script | Page_closes nat

fun after_visits :: "(script \<Rightarrow> 'a pages_scheme \<Rightarrow> (thrown + string) \<times> 'a pages_scheme) \<Rightarrow> visit list \<Rightarrow> 'a pages_scheme \<Rightarrow> 'a pages_scheme" where
  "after_visits verify [] s = s"
| "after_visits verify (Run sc # vs) s = after_visits verify vs (snd (verify sc s))"
| "after_visits verify (Page_closes p # vs) s = after_visits verify vs (close_page p s)"

lemma close_page_ok: "pages_ok s \<Longrightarrow> pages_ok (close_page p s)"
  by (fastforce simp: pages_ok_def ready_def close_page_def)

locale check_pages =
  fixes verify :: "script \<Rightarrow> 'a pages_scheme \<Rightarrow> (thrown + string) \<times> 'a pages_scheme"
    and num :: "rat \<Rightarrow> string"
  assumes run_ok: "pages_ok s \<Longrightarrow> pages_ok (snd (verify sc s))"
    and proof_page: "pages_ok s \<Longrightarrow> fst (verify sc s) = Inr v \<Longrightarrow> sc_config sc = Inr c
      \<Longrightarrow> \<exists>p. ready p (configKey num c) (snd (verify sc s))"
    and cancelled_page: "pages_ok s \<Longrightarrow> goes_through sc \<Longrightarrow> sc_cancel sc \<Longrightarrow> \<not> isl (sc_config sc) \<Longrightarrow>
      po_open (snd (verify sc s)) = []"
begin

lemma visits_ok: "pages_ok s \<Longrightarrow> pages_ok (after_visits verify vs s)"
  by (induction vs arbitrary: s rule: list.induct) (simp, rename_tac v vs s, case_tac v, simp_all add: run_ok close_page_ok)

lemma one_page: "pages_ok s \<Longrightarrow> length (po_open (after_visits verify vs s)) \<le> 1"
  using visits_ok [of s vs] by (auto simp: pages_ok_def ready_def)

lemma visit_result:
  assumes "pages_ok s" "sc_config sc = Inr c" "fst (verify sc (after_visits verify vs s)) = Inr v"
  shows "map snd (po_open (snd (verify sc (after_visits verify vs s)))) = [Some (configKey num c)]"
  using proof_page [OF visits_ok [OF assms(1)] assms(3,2)] by (auto simp: ready_def)

lemma visit_cancelled:
  assumes "pages_ok s" "goes_through sc" "sc_cancel sc"
  shows "po_open (snd (verify sc (after_visits verify vs s))) = []"
  using cancelled_page [OF visits_ok [OF assms(1)] assms(2,3)] assms(2) by (simp add: goes_through_def)

end

section \<open>The runs keep the promises\<close>

lemma run_kept_page:
  assumes "ready p k s" "p < po_next s"
  shows "pages_ok (snd (run_page sc p k True s))"
    and "fst (run_page sc p k True s) = Inr v \<Longrightarrow> ready p k (snd (run_page sc p k True s))"
    and "sc_cancel sc \<Longrightarrow> \<not> sc_aborted3 sc \<Longrightarrow> po_open (snd (run_page sc p k True s)) = []"
  using assms
  by (auto simp: run_page_def finally_page_def try_page_def Let_def is_open_def close_page_def pages_ok_def ready_def
      split: sum.split option.split sum.splits option.splits if_splits)

lemma run_new_page:
  assumes "po_open s = []" "\<And>q. po_kept s = Some q \<Longrightarrow> q < po_next s"
  shows "pages_ok (snd (run_page sc (po_next s) k False (open_page s)))"
    and "fst (run_page sc (po_next s) k False (open_page s)) = Inr v \<Longrightarrow>
      ready (po_next s) k (snd (run_page sc (po_next s) k False (open_page s)))"
    and "sc_cancel sc \<Longrightarrow> \<not> sc_aborted3 sc \<Longrightarrow> po_open (snd (run_page sc (po_next s) k False (open_page s))) = []"
  using assms
  by (auto simp: run_page_def finally_page_def try_page_def Let_def is_open_def close_page_def pages_ok_def ready_def
      open_page_def load_page_def less_Suc_eq split: sum.split option.split sum.splits option.splits if_splits)

lemma ready_unique: "ready p k s \<Longrightarrow> po_kept s = Some q \<Longrightarrow> q = p"
  by (simp add: ready_def)

lemma drop_stale_page_cases:
  assumes "pages_ok s"
  obtains p where "po_kept (drop_stale_page k s) = Some p" "ready p k (drop_stale_page k s)" "p < po_next (drop_stale_page k s)"
  | "po_kept (drop_stale_page k s) = None" "po_open (drop_stale_page k s) = []"
proof (cases "po_key s \<noteq> Some k \<or> (\<exists>p \<in> set_option (po_kept s). \<not> is_open p s)")
  case True
  then have "po_open (drop_stale_page k s) = []" "po_kept (drop_stale_page k s) = None"
    using assms by (auto simp: drop_stale_page_def close_kept_def close_page_def pages_ok_def ready_def split: option.split)
  then show ?thesis using that(2) by blast
next
  case False
  then have same: "drop_stale_page k s = s" by (simp add: drop_stale_page_def)
  show ?thesis
  proof (cases "po_kept s")
    case None
    then have "po_open s = []" using assms by (auto simp: pages_ok_def ready_def)
    then show ?thesis using that(2) None same by simp
  next
    case (Some p)
    then have "ready p k s" "p < po_next s"
      using False assms by (auto simp: pages_ok_def ready_def is_open_def)
    then show ?thesis using that(1) Some same by simp
  qed
qed

lemma pages_ok_context [simp]: "pages_ok (s\<lparr>br_context := b\<rparr>) = pages_ok s"
  by (simp add: pages_ok_def ready_def)

lemma drop_stale_page_ok: "pages_ok s \<Longrightarrow> pages_ok (drop_stale_page k s)"
  by (erule drop_stale_page_cases [where k = k]) (auto simp: pages_ok_def)

lemma kept_window_cases:
  assumes "pages_ok s" "po_key s = Some k \<or> po_open s = []"
  obtains p where "kept_window s = Some p" "ready p k s" "p < po_next s"
  | "kept_window s = None" "po_open s = []" "\<And>q. po_kept s = Some q \<Longrightarrow> q < po_next s"
  using assms by (cases "po_open s = []") (auto simp: pages_ok_def ready_def kept_window_def is_open_def split: option.splits)

lemma electron_close_ok: "pages_ok s \<Longrightarrow> pages_ok (electron_close s) \<and> po_open (electron_close s) = []"
  by (auto simp: electron_close_def close_kept_def close_page_def pages_ok_def ready_def split: option.split)

lemma pages_ok_kept: "pages_ok s \<Longrightarrow> po_kept s = Some q \<Longrightarrow> q < po_next s"
  by (simp add: pages_ok_def)

lemma browser_verify_cases:
  assumes "pages_ok s"
  shows "pages_ok (snd (browser_verify num sc s))
    \<and> (\<forall>v c. fst (browser_verify num sc s) = Inr v \<longrightarrow> sc_config sc = Inr c \<longrightarrow> (\<exists>p. ready p (configKey num c) (snd (browser_verify num sc s))))
    \<and> (goes_through sc \<longrightarrow> sc_cancel sc \<longrightarrow> po_open (snd (browser_verify num sc s)) = [])"
proof (cases "sc_aborted1 sc \<or> isl (sc_config sc) \<or> sc_aborted2 sc \<or> (\<not> br_context s \<and> sc_launch sc \<noteq> None)")
  case True
  then show ?thesis
    using assms by (auto simp: browser_verify_def goes_through_def isl_def split: sum.splits)
next
  case False
  then obtain c where c: "sc_config sc = Inr c" by (cases "sc_config sc") auto
  define k where "k = configKey num c"
  define s1 where "s1 = drop_stale_page k (s\<lparr>br_context := True\<rparr>)"
  have ok: "pages_ok (s\<lparr>br_context := True\<rparr>)" using assms by simp
  have run: "browser_verify num sc s = (case po_kept s1 of Some p \<Rightarrow> run_page sc p k True s1
      | None \<Rightarrow> (case sc_new sc of Some e \<Rightarrow> (Inl e, s1) | None \<Rightarrow> run_page sc (po_next s1) k False (open_page s1)))"
    using False c unfolding s1_def k_def by (auto simp: browser_verify_def Let_def)
  show ?thesis
  proof (rule drop_stale_page_cases [OF ok, of k])
    fix p assume p: "po_kept (drop_stale_page k (s\<lparr>br_context := True\<rparr>)) = Some p"
      "ready p k (drop_stale_page k (s\<lparr>br_context := True\<rparr>))" "p < po_next (drop_stale_page k (s\<lparr>br_context := True\<rparr>))"
    show ?thesis
      using run_kept_page [of p k s1 sc] p c run by (auto simp: s1_def k_def goes_through_def)
  next
    assume n: "po_kept (drop_stale_page k (s\<lparr>br_context := True\<rparr>)) = None" "po_open (drop_stale_page k (s\<lparr>br_context := True\<rparr>)) = []"
    show ?thesis
      using run_new_page [of s1 sc k] n c run drop_stale_page_ok [OF ok, of k]
      by (cases "sc_new sc") (auto simp: s1_def k_def goes_through_def)
  qed
qed

lemma electron_verify_cases:
  assumes "pages_ok s"
  shows "pages_ok (snd (electron_verify num sc s))
    \<and> (\<forall>v c. fst (electron_verify num sc s) = Inr v \<longrightarrow> sc_config sc = Inr c \<longrightarrow> (\<exists>p. ready p (configKey num c) (snd (electron_verify num sc s))))
    \<and> (goes_through sc \<longrightarrow> sc_cancel sc \<longrightarrow> po_open (snd (electron_verify num sc s)) = [])"
proof (cases "sc_aborted1 sc \<or> isl (sc_config sc)")
  case True
  then show ?thesis
    using assms by (auto simp: electron_verify_def goes_through_def isl_def split: sum.splits)
next
  case False
  then obtain c where c: "sc_config sc = Inr c" by (cases "sc_config sc") auto
  define k where "k = configKey num c"
  define s1 where "s1 = (if po_key s \<noteq> Some k then electron_close s else s)"
  have ok: "pages_ok s1" "po_key s1 = Some k \<or> po_open s1 = []"
    using assms electron_close_ok [OF assms] by (auto simp: s1_def)
  have run: "electron_verify num sc s = (if sc_aborted2 sc then (Inl abort_error, s1)
      else (case kept_window s1 of Some p \<Rightarrow> run_page sc p k True s1
      | None \<Rightarrow> (case sc_new sc of Some e \<Rightarrow> (Inl e, s1) | None \<Rightarrow> run_page sc (po_next s1) k False (open_page s1))))"
    using False c unfolding s1_def k_def by (simp add: electron_verify_def Let_def)
  show ?thesis
  proof (rule kept_window_cases [OF ok])
    fix p assume p: "kept_window s1 = Some p" "ready p k s1" "p < po_next s1"
    show ?thesis
      using run_kept_page [OF p(2,3), of sc] p(1) c run ok by (auto simp: k_def goes_through_def)
  next
    assume n: "kept_window s1 = None" "po_open s1 = []" "\<And>q. po_kept s1 = Some q \<Longrightarrow> q < po_next s1"
    show ?thesis
      using run_new_page [OF n(2,3), of sc k] n(1) c run ok
      by (cases "sc_new sc") (auto simp: k_def goes_through_def)
  qed
qed

interpretation bv: check_pages "browser_verify num" num for num
  by unfold_locales (use browser_verify_cases in blast)+

interpretation ev: check_pages "electron_verify num" num for num
  by unfold_locales (use electron_verify_cases in blast)+

lemma nothing_open: "pages_ok no_browser" "pages_ok no_window"
  by (simp_all add: pages_ok_def no_browser_def no_window_def)


definition witness_script :: script where
  "witness_script = \<lparr>sc_aborted1 = False, sc_config = Inr (JObj [(''region'', JStr ''cn''), (''prefix'', JStr ''p''), (''sceneId'', JStr ''s'')]),
     sc_aborted2 = False, sc_launch = None, sc_new = None, sc_aborted3 = False, sc_load = None, sc_param = Inr ''proof'', sc_cancel = False, sc_clean = None\<rparr>"


text \<open>
  A browser that is lost is not started again: once a context was launched, a run that needs a new page and cannot open it
  fails and keeps the context, and so does the next one.
\<close>

lemma lost_browser_is_kept:
  assumes "br_context s" "po_kept s = None" "sc_new sc = Some e" "\<not> sc_aborted1 sc" "sc_config sc = Inr c" "\<not> sc_aborted2 sc"
  shows "fst (browser_verify num sc s) = Inl e \<and> br_context (snd (browser_verify num sc s)) \<and> po_kept (snd (browser_verify num sc s)) = None"
  using assms by (auto simp: browser_verify_def drop_stale_page_def close_kept_def Let_def)

end
