(* ===== verification/Setup_Text.thy ===== *)
theory Setup_Text
  imports Js_Json
begin

text \<open>
  Quoting and paths of \<^verbatim>\<open>tools/sub2api-codex-setup\<close> (\<^verbatim>\<open>src/install.ts\<close>, \<^verbatim>\<open>src/config.ts\<close>): the literals that are put into
  shell scripts and into TOML, with the rules by which a POSIX shell, PowerShell and TOML read them, and the POSIX paths of
  Node.js. Windows paths are left to the platform.
\<close>

abbreviation SQ :: char where "SQ \<equiv> CHR 0x27"
abbreviation DQ :: char where "DQ \<equiv> CHR 0x22"
abbreviation BS :: char where "BS \<equiv> CHR 0x5C"
abbreviation nl :: string where "nl \<equiv> [CHR 0x0A]"

section \<open>Literals\<close>

definition shellLiteral :: "string \<Rightarrow> string" where
  "shellLiteral v = SQ # concat (map (\<lambda>c. if c = SQ then [SQ, BS, SQ, SQ] else [c]) v) @ [SQ]"

definition powerShellLiteral :: "string \<Rightarrow> string" where
  "powerShellLiteral v = SQ # concat (map (\<lambda>c. if c = SQ then [SQ, SQ] else [c]) v) @ [SQ]"

text \<open>Two replacements: the backslashes first, then the quotes.\<close>

definition escapeTomlBasicString :: "string \<Rightarrow> string" where
  "escapeTomlBasicString v = concat (map (\<lambda>c. if c = DQ then [BS, DQ] else [c]) (concat (map (\<lambda>c. if c = BS then [BS, BS] else [c]) v)))"

section \<open>How they are read\<close>

text \<open>
  A word of the POSIX shell up to white space: single quotes take everything up to the next one, a backslash outside of them
  the next character. \<open>None\<close> when a quote is not closed, or a character would be expanded.
\<close>

definition sh_expands :: "char \<Rightarrow> bool" where
  "sh_expands c \<longleftrightarrow> c \<in> {DQ, CHR ''$'', CHR 0x60, CHR '';'', CHR ''&'', CHR ''|'', CHR ''<'', CHR ''>'', CHR ''('', CHR '')'', CHR ''*'', CHR ''?'', CHR ''['', CHR ''~''}"

fun sh_word :: "bool \<Rightarrow> string \<Rightarrow> (string \<times> string) option" where
  "sh_word quoted [] = (if quoted then None else Some ([], []))"
| "sh_word True (c # s) = (if c = SQ then sh_word False s else map_option (apfst (Cons c)) (sh_word True s))"
| "sh_word False (c # s) =
     (if c = SQ then sh_word True s
      else if c = BS then (case s of [] \<Rightarrow> None | d # s' \<Rightarrow> map_option (apfst (Cons d)) (sh_word False s'))
      else if is_ws c then Some ([], c # s)
      else if sh_expands c then None
      else map_option (apfst (Cons c)) (sh_word False s))"

text \<open>A quoted string of PowerShell behind its first quote: two quotes stand for one.\<close>

fun ps_string :: "string \<Rightarrow> (string \<times> string) option" where
  "ps_string [] = None"
| "ps_string (c # s) =
     (if c \<noteq> SQ then map_option (apfst (Cons c)) (ps_string s)
      else (case s of [] \<Rightarrow> Some ([], [])
        | d # s' \<Rightarrow> if d = SQ then map_option (apfst (Cons SQ)) (ps_string s') else Some ([], d # s')))"

text \<open>A basic string of TOML behind its first quote; of its escapes only those of the quote and the backslash occur.\<close>

fun toml_string :: "string \<Rightarrow> (string \<times> string) option" where
  "toml_string [] = None"
| "toml_string (c # s) =
     (if c = DQ then Some ([], s)
      else if c = BS then (case s of [] \<Rightarrow> None
        | d # s' \<Rightarrow> if d = DQ \<or> d = BS then map_option (apfst (Cons d)) (toml_string s') else None)
      else if c = CHR 0x0A then None
      else map_option (apfst (Cons c)) (toml_string s))"

lemma sh_word_quoted:
  "sh_word True (concat (map (\<lambda>c. if c = SQ then [SQ, BS, SQ, SQ] else [c]) v) @ SQ # s) = map_option (apfst (append v)) (sh_word False s)"
proof (induction v)
  case Nil
  show ?case by (cases "sh_word False s") (auto simp: apfst_def)
next
  case (Cons c v)
  then show ?case by (cases "sh_word False s") auto
qed

text \<open>A literal is read as its value by the shell it is written for.\<close>

lemma shellLiteral_is_read: "s = [] \<or> is_ws (hd s) \<Longrightarrow> sh_word False (shellLiteral v @ s) = Some (v, s)"
  by (cases s) (auto simp: shellLiteral_def sh_word_quoted is_ws_def)

lemma powerShellLiteral_is_read: "s = [] \<or> hd s \<noteq> SQ \<Longrightarrow> ps_string (tl (powerShellLiteral v @ s)) = Some (v, s)"
proof -
  assume s: "s = [] \<or> hd s \<noteq> SQ"
  have "ps_string (concat (map (\<lambda>c. if c = SQ then [SQ, SQ] else [c]) v) @ SQ # s) = Some (v, s)"
    using s by (induction v) (auto split: list.split)
  then show ?thesis by (simp add: powerShellLiteral_def)
qed

lemma toml_is_read: "CHR 0x0A \<notin> set v \<Longrightarrow> toml_string (escapeTomlBasicString v @ DQ # s) = Some (v, s)"
  by (induction v) (auto simp: escapeTomlBasicString_def)

section \<open>POSIX paths\<close>

text \<open>\<open>normalizeString\<close> of Node.js, on the segments: a double dot removes the segment before it.\<close>

fun path_segments :: "bool \<Rightarrow> string list \<Rightarrow> string list \<Rightarrow> string list" where
  "path_segments up acc [] = acc"
| "path_segments up acc (w # ws) =
     (if w = '''' \<or> w = ''.'' then path_segments up acc ws
      else if w = ''..'' then
        (if acc \<noteq> [] \<and> last acc \<noteq> ''..'' then path_segments up (butlast acc) ws
         else path_segments up (if up then acc @ [''..''] else acc) ws)
      else path_segments up (acc @ [w]) ws)"

definition is_absolute :: "string \<Rightarrow> bool" where
  "is_absolute p \<longleftrightarrow> starts_with p ''/''"

definition posix_normalize :: "string \<Rightarrow> string" where
  "posix_normalize p =
     (if p = '''' then ''.''
      else (let abs = is_absolute p; trailing = (last p = CHR ''/'');
                q = join_with ''/'' (path_segments (\<not> abs) [] (split_on CHR ''/'' p))
        in if q = '''' then (if abs then ''/'' else if trailing then ''./'' else ''.'')
           else (if abs then ''/'' else '''') @ q @ (if trailing then ''/'' else '''')))"

definition posix_join :: "string \<Rightarrow> string \<Rightarrow> string" where
  "posix_join a b = posix_normalize (join_with ''/'' (filter (\<lambda>w. w \<noteq> '''') [a, b]))"

text \<open>\<^verbatim>\<open>posix.resolve\<close> of an absolute path\<close>

definition posix_resolve :: "string \<Rightarrow> string" where
  "posix_resolve p = ''/'' @ join_with ''/'' (path_segments False [] (split_on CHR ''/'' p))"

definition plain_segment :: "string \<Rightarrow> bool" where
  "plain_segment w \<longleftrightarrow> w \<noteq> '''' \<and> w \<noteq> ''.'' \<and> w \<noteq> ''..'' \<and> CHR ''/'' \<notin> set w"

lemma path_segments_plain:
  "list_all plain_segment acc \<Longrightarrow> \<forall>w \<in> set ws. CHR ''/'' \<notin> set w \<Longrightarrow> list_all plain_segment (path_segments False acc ws)"
proof (induction ws arbitrary: acc)
  case (Cons w ws)
  have "list_all plain_segment (butlast acc)" using Cons.prems(1) by (simp add: list_all_iff in_set_butlastD)
  moreover have "list_all plain_segment (acc @ [w])" if w: "\<not> (w = '''' \<or> w = ''.'')" "w \<noteq> ''..''"
  proof -
    have "plain_segment w" unfolding plain_segment_def using w Cons.prems(2) by (meson list.set_intros(1))
    then show ?thesis using Cons.prems(1) by simp
  qed
  ultimately show ?case
    using Cons.IH Cons.prems unfolding path_segments.simps
    by (simp only: list.set_intros if_False split: if_split) (meson list.set_intros(2))
qed simp

lemma path_segments_id:
  "list_all plain_segment ws \<Longrightarrow> path_segments up acc ws = acc @ ws"
  by (induction ws arbitrary: acc) (auto simp: plain_segment_def)

lemma resolved_segments:
  assumes "list_all plain_segment ws"
  shows "path_segments up [] (split_on CHR ''/'' (''/'' @ join_with ''/'' ws)) = ws"
proof (cases "ws = []")
  case False
  then have "split_on CHR ''/'' (join_with ''/'' ws) = ws"
    using assms by (intro split_on_join) (auto simp: list_all_iff plain_segment_def)
  then show ?thesis using path_segments_id [OF assms, of up "[]"] by simp
qed simp

lemma posix_resolve_segments: "list_all plain_segment (path_segments False [] (split_on CHR ''/'' p))"
  by (rule path_segments_plain) (auto dest: split_on_segments)

lemma posix_resolve_idem [simp]: "posix_resolve (posix_resolve p) = posix_resolve p"
  unfolding posix_resolve_def [of "posix_resolve p"]
  by (simp only: posix_resolve_def [of p] resolved_segments [OF posix_resolve_segments])

section \<open>A directory below the home directory\<close>

lemma path_segments_proper:
  "list_all (\<lambda>w. w \<noteq> '''' \<and> CHR ''/'' \<notin> set w) acc \<Longrightarrow> \<forall>w \<in> set ws. CHR ''/'' \<notin> set w
     \<Longrightarrow> list_all (\<lambda>w. w \<noteq> '''' \<and> CHR ''/'' \<notin> set w) (path_segments up acc ws)"
proof (induction ws arbitrary: acc)
  case (Cons w ws)
  have "list_all (\<lambda>w. w \<noteq> '''' \<and> CHR ''/'' \<notin> set w) (butlast acc)"
    using Cons.prems(1) by (auto simp: list_all_iff dest: in_set_butlastD)
  moreover have "list_all (\<lambda>w. w \<noteq> '''' \<and> CHR ''/'' \<notin> set w) (if up then acc @ [''..''] else acc)"
    using Cons.prems(1) by simp
  moreover have "w \<noteq> '''' \<Longrightarrow> list_all (\<lambda>w. w \<noteq> '''' \<and> CHR ''/'' \<notin> set w) (acc @ [w])"
    using Cons.prems by simp
  ultimately show ?case
    using Cons.IH Cons.prems unfolding path_segments.simps
    by (simp only: split: if_split) (meson list.set_intros(2))
qed simp

lemma join_proper_relative:
  assumes "list_all (\<lambda>w. w \<noteq> '''' \<and> CHR ''/'' \<notin> set w) ws"
  shows "\<not> is_absolute (join_with ''/'' ws)"
proof (cases ws)
  case (Cons w ws')
  then obtain c w' where "w = c # w'" "c \<noteq> CHR ''/''" using assms by (cases w) auto
  then show ?thesis using Cons by (cases ws') (simp_all add: is_absolute_def starts_with_def)
qed (simp add: is_absolute_def starts_with_def)

text \<open>An absolute path that \<open>posix_join\<close> made is resolved to itself, unless it ends in a slash.\<close>

lemma posix_normalize_resolve:
  assumes "is_absolute (posix_normalize y)" "y \<noteq> ''''" "last y \<noteq> CHR ''/''"
  shows "posix_resolve (posix_normalize y) = posix_normalize y"
proof (cases "is_absolute y")
  case True
  then have "posix_normalize y = posix_resolve y"
    using assms(2,3) by (simp add: posix_normalize_def posix_resolve_def Let_def)
  then show ?thesis by simp
next
  case False
  let ?q = "join_with ''/'' (path_segments True [] (split_on CHR ''/'' y))"
  have "\<not> is_absolute ?q"
    by (rule join_proper_relative [OF path_segments_proper]) (auto dest: split_on_segments)
  then have "\<not> is_absolute (posix_normalize y)"
    using False assms(2,3) by (auto simp: posix_normalize_def Let_def is_absolute_def starts_with_def)
  then show ?thesis using assms(1) by simp
qed

lemma posix_join_resolve:
  assumes "is_absolute (posix_join h b)" "b \<noteq> ''''" "last b \<noteq> CHR ''/''"
  shows "posix_resolve (posix_join h b) = posix_join h b"
proof -
  have "join_with ''/'' (filter (\<lambda>w. w \<noteq> '''') [h, b]) \<noteq> ''''"
    "last (join_with ''/'' (filter (\<lambda>w. w \<noteq> '''') [h, b])) \<noteq> CHR ''/''"
    using assms(2,3) by auto
  then show ?thesis using posix_normalize_resolve assms(1) unfolding posix_join_def by blast
qed

end
