(* ===== verification/Setup_Install.thy ===== *)
theory Setup_Install
  imports Setup_Text
begin

text \<open>
  \<^verbatim>\<open>src/install.ts\<close> of \<^verbatim>\<open>tools/sub2api-codex-setup\<close>: where Codex keeps its configuration, whether it is installed, and the
  commands that install it. The machine is a parameter: its platform, environment and files, the paths of Windows, and \<^verbatim>\<open>new URL\<close>.
\<close>

record machine =
  ma_platform :: string  \<comment> \<open>\<^verbatim>\<open>process.platform\<close>\<close>
  ma_env :: "string \<Rightarrow> string option"
  ma_home :: string
  ma_exists :: "string \<Rightarrow> bool"
  ma_appx :: bool  \<comment> \<open>the PowerShell query of installed packages succeeds\<close>
  ma_url :: "string \<Rightarrow> (string \<times> string) option"  \<comment> \<open>protocol and text of the parsed URL\<close>
  ma_win_normalize :: "string \<Rightarrow> string"
  ma_win_join :: "string \<Rightarrow> string \<Rightarrow> string"

datatype platform = Macos | Windows | Linux

datatype install_source = Official | Modified

datatype codex_client = Desktop | Cli

record command_plan =
  cp_command :: string
  cp_args :: "string list"

record install_plan =
  pl_platform :: platform
  pl_supported :: bool
  pl_installed :: bool
  pl_source :: install_source
  pl_install :: "command_plan list option"

definition env_or :: "machine \<Rightarrow> string \<Rightarrow> string \<Rightarrow> string" where
  "env_or M k d = (case ma_env M k of None \<Rightarrow> d | Some v \<Rightarrow> if v = '''' then d else v)"

definition join_path :: "machine \<Rightarrow> string \<Rightarrow> string \<Rightarrow> string" where
  "join_path M a b = (if ma_platform M = ''win32'' then ma_win_join M a b else posix_join a b)"

section \<open>Directories\<close>

definition detectPlatform :: "string \<Rightarrow> platform" where
  "detectPlatform p = (if p = ''darwin'' then Macos else if p = ''win32'' then Windows else Linux)"

definition is_control :: "char \<Rightarrow> bool" where
  "is_control c \<longleftrightarrow> (of_char c :: nat) < 32"

text \<open>\<^verbatim>\<open>/^(?:[a-z]:[\\/]|\\\\)/i\<close>; every such path is absolute for Windows.\<close>

definition windows_root :: "string \<Rightarrow> bool" where
  "windows_root v \<longleftrightarrow> starts_with v [BS, BS]
     \<or> (case v of c # d # e # _ \<Rightarrow> 97 \<le> (of_char (lower_char c) :: nat) \<and> (of_char (lower_char c) :: nat) \<le> 122 \<and> d = CHR '':'' \<and> (e = BS \<or> e = CHR ''/'')
        | _ \<Rightarrow> False)"

definition resolveDirectory :: "machine \<Rightarrow> string \<Rightarrow> string \<Rightarrow> thrown + string" where
  "resolveDirectory M v p =
     (if trim v = '''' \<or> list_ex is_control v then Inl (plain_error ''Directory must be a non-empty path without control characters'')
      else if p = ''win32'' then
        (if \<not> windows_root v then Inl (plain_error (''Windows directory must be an absolute path, for example D:'' @ [BS] @ ''Codex''))
         else Inr (ma_win_normalize M v))
      else if \<not> is_absolute v then Inl (plain_error ''Directory must be an absolute path'')
      else Inr (posix_resolve v))"

definition codexConfigDir :: "machine \<Rightarrow> string \<Rightarrow> string option \<Rightarrow> thrown + string" where
  "codexConfigDir M p explicit = (case explicit of
     Some d \<Rightarrow> resolveDirectory M d p
   | None \<Rightarrow>
       if env_or M ''CODEX_HOME'' '''' \<noteq> '''' then resolveDirectory M (env_or M ''CODEX_HOME'' '''') p
       else if detectPlatform p = Windows then Inr (join_path M (env_or M ''USERPROFILE'' (ma_home M)) ''.codex'')
       else Inr (join_path M (ma_home M) ''.codex''))"

definition CODEX_APP_CANDIDATES :: "machine \<Rightarrow> string list" where
  "CODEX_APP_CANDIDATES M = [''/Applications/Codex.app'', ''/Applications/ChatGPT.app'',
     join_path M (join_path M (ma_home M) ''Applications'') ''Codex.app'', join_path M (join_path M (ma_home M) ''Applications'') ''ChatGPT.app'']"

definition isCodexInstalled :: "machine \<Rightarrow> string \<Rightarrow> bool" where
  "isCodexInstalled M p = (case detectPlatform p of
     Macos \<Rightarrow> list_ex (ma_exists M) (CODEX_APP_CANDIDATES M) | Windows \<Rightarrow> ma_appx M | Linux \<Rightarrow> False)"

section \<open>Where an installer comes from\<close>

definition parseCodexInstallSource :: "string option \<Rightarrow> thrown + install_source" where
  "parseCodexInstallSource v = (let s = (case v of None \<Rightarrow> ''official'' | Some t \<Rightarrow> if t = '''' then ''official'' else t)
     in if s = ''official'' then Inr Official else if s = ''modified'' then Inr Modified
        else Inl (plain_error ''--install-source must be official or modified''))"

definition MODIFIED_INSTALL_URL_ENV :: string where "MODIFIED_INSTALL_URL_ENV = ''SUB2API_CODEX_MODIFIED_INSTALL_URL''"
definition DEFAULT_MODIFIED_INSTALL_REPO :: string where "DEFAULT_MODIFIED_INSTALL_REPO = ''zjarlin/sub2api''"
definition MODIFIED_INSTALL_REPO_ENV :: string where "MODIFIED_INSTALL_REPO_ENV = ''SUB2API_CODEX_MODIFIED_INSTALL_REPO''"

definition MODIFIED_INSTALL_ASSETS :: "platform \<Rightarrow> string" where
  "MODIFIED_INSTALL_ASSETS p = (case p of Windows \<Rightarrow> ''codex-install.ps1'' | _ \<Rightarrow> ''codex-install.sh'')"

definition modifiedInstallerUrl :: "machine \<Rightarrow> string option \<Rightarrow> string option" where
  "modifiedInstallerUrl M explicit =
     (let u = trim (case explicit of None \<Rightarrow> env_or M MODIFIED_INSTALL_URL_ENV ''''
        | Some v \<Rightarrow> if v = '''' then env_or M MODIFIED_INSTALL_URL_ENV '''' else v)
      in if u = '''' then None else Some u)"

definition defaultModifiedInstallerUrl :: "machine \<Rightarrow> platform \<Rightarrow> string" where
  "defaultModifiedInstallerUrl M p =
     ''https://github.com/'' @ env_or M MODIFIED_INSTALL_REPO_ENV DEFAULT_MODIFIED_INSTALL_REPO @ ''/releases/latest/download/'' @ MODIFIED_INSTALL_ASSETS p"

definition assertInstallerUrl :: "machine \<Rightarrow> string \<Rightarrow> thrown + string" where
  "assertInstallerUrl M v =
     (if v = '''' then Inl (plain_error (MODIFIED_INSTALL_URL_ENV @ '' is required''))
      else (case ma_url M v of
          Some (protocol, text) \<Rightarrow> if protocol \<noteq> ''https:'' \<and> protocol \<noteq> ''http:''
            then Inl (plain_error ''Modified Codex installer URL must be an http(s) URL'') else Inr text
        | None \<Rightarrow> Inl (plain_error ''Modified Codex installer URL must be an http(s) URL'')))"

section \<open>Scripts\<close>

definition WINDOWS_HEAD :: "string list" where
  "WINDOWS_HEAD = [
     ''$ErrorActionPreference = '' @ [SQ] @ ''Stop'' @ [SQ],
     ''[Net.ServicePointManager]::SecurityProtocol = [Net.ServicePointManager]::SecurityProtocol -bor [Net.SecurityProtocolType]::Tls12'']"

definition WINDOWS_SCRIPT :: "string list" where
  "WINDOWS_SCRIPT = [
     ''$tempDir = Join-Path ([IO.Path]::GetTempPath()) ('' @ [SQ] @ ''sub2api-codex-'' @ [SQ] @ '' + [Guid]::NewGuid().ToString('' @ [SQ] @ ''N'' @ [SQ] @ ''))'',
     ''New-Item -ItemType Directory -Path $tempDir | Out-Null'',
     ''try {'',
     ''  $installer = Join-Path $tempDir '' @ [SQ] @ ''ChatGPT-Setup.exe'' @ [SQ],
     ''  try {'',
     ''    if ($cachedInstallerUrl) { Invoke-WebRequest -UseBasicParsing -Uri $cachedInstallerUrl -OutFile $installer -TimeoutSec 120 }'',
     ''    else { throw '' @ [SQ] @ ''No gateway cache URL configured'' @ [SQ] @ '' }'',
     ''  } catch {'',
     ''    Write-Warning '' @ [SQ] @ ''Gateway cache unavailable; downloading from Microsoft.'' @ [SQ],
     ''    Invoke-WebRequest -UseBasicParsing -Uri '' @ [SQ] @ ''https://get.microsoft.com/installer/download/9PLM9XGG6VKS'' @ [SQ] @ '' -OutFile $installer -TimeoutSec 120'',
     ''  }'',
     ''  $process = Start-Process -FilePath $installer -PassThru'',
     ''  if (-not $process.WaitForExit(90000)) {'',
     ''    try { $process.Kill() } catch { }'',
     ''    throw '' @ [SQ] @ ''The Microsoft Store installer did not finish within 90 seconds.'' @ [SQ],
     ''  }'',
     ''  if ($process.ExitCode -ne 0) { throw '' @ [DQ] @ ''Windows installer exited with $($process.ExitCode)'' @ [DQ] @ '' }'',
     ''} catch {'',
     ''  Write-Warning $_.Exception.Message'',
     ''  Write-Warning '' @ [SQ] @ ''Falling back to the official Codex CLI from the npm mirror.'' @ [SQ],
     ''  $npm = Get-Command npm.cmd -ErrorAction SilentlyContinue'',
     ''  if (-not $npm) { $npm = Get-Command npm -ErrorAction SilentlyContinue }'',
     ''  if (-not $npm) { throw '' @ [SQ] @ ''Node.js 22.14 or newer with npm is required for the CLI fallback.'' @ [SQ] @ '' }'',
     ''  & $npm.Source install --global '' @ [SQ] @ ''@openai/codex'' @ [SQ] @ '' '' @ [SQ] @ ''--registry=https://registry.npmmirror.com'' @ [SQ],
     ''  if ($LASTEXITCODE -ne 0) { throw '' @ [DQ] @ ''npm install failed with exit code $LASTEXITCODE'' @ [DQ] @ '' }'',
     ''} finally {'',
     ''  Remove-Item -LiteralPath $tempDir -Recurse -Force -ErrorAction SilentlyContinue'',
     ''}'']"

definition MACOS_HEAD :: "string list" where
  "MACOS_HEAD = [
     ''set -euo pipefail'',
     ''tmpdir='' @ [DQ] @ ''$(mktemp -d)'' @ [DQ],
     ''cleanup() {'',
     ''  if [ -n '' @ [DQ] @ ''${mount_dir:-}'' @ [DQ] @ '' ] && [ -d '' @ [DQ] @ ''$mount_dir'' @ [DQ] @ '' ]; then hdiutil detach '' @ [DQ] @ ''$mount_dir'' @ [DQ] @ '' -quiet || true; fi'',
     ''  rm -rf '' @ [DQ] @ ''$tmpdir'' @ [DQ],
     ''}'',
     ''trap cleanup EXIT'',
     ''dmg='' @ [DQ] @ ''$tmpdir/Codex.dmg'' @ [DQ]]"

definition MACOS_SCRIPT :: "string list" where
  "MACOS_SCRIPT = [
     ''if [ -n '' @ [DQ] @ ''${cached_url:-}'' @ [DQ] @ '' ] && curl -fL '' @ [DQ] @ ''$cached_url'' @ [DQ] @ '' -o '' @ [DQ] @ ''$dmg'' @ [DQ] @ ''; then'',
     ''  :'',
     ''else'',
     ''  curl -fL '' @ [DQ] @ ''https://persistent.oaistatic.com/codex-app-prod/Codex.dmg'' @ [DQ] @ '' -o '' @ [DQ] @ ''$dmg'' @ [DQ],
     ''fi'',
     ''mount_dir='' @ [DQ] @ ''$tmpdir/mount'' @ [DQ],
     ''mkdir -p '' @ [DQ] @ ''$mount_dir'' @ [DQ],
     ''hdiutil attach '' @ [DQ] @ ''$dmg'' @ [DQ] @ '' -nobrowse -quiet -mountpoint '' @ [DQ] @ ''$mount_dir'' @ [DQ],
     ''app_path='' @ [DQ] @ ''$(find '' @ [DQ] @ ''$mount_dir'' @ [DQ] @ '' -maxdepth 1 -name '' @ [SQ] @ ''*.app'' @ [SQ] @ '' -print -quit)'' @ [DQ],
     ''if [ -z '' @ [DQ] @ ''$app_path'' @ [DQ] @ '' ]; then echo '' @ [DQ] @ ''No app found in Codex DMG'' @ [DQ] @ '' >&2; exit 1; fi'']"

definition MACOS_TAIL :: "string list" where
  "MACOS_TAIL = [
     ''ditto '' @ [DQ] @ ''$app_path'' @ [DQ] @ '' '' @ [DQ] @ ''$target_dir/$(basename '' @ [DQ] @ ''$app_path'' @ [DQ] @ '')'' @ [DQ],
     ''echo '' @ [DQ] @ ''Installed $(basename '' @ [DQ] @ ''$app_path'' @ [DQ] @ '') to $target_dir'' @ [DQ]]"

definition MODIFIED_HEAD :: "string list" where
  "MODIFIED_HEAD = [
     ''set -euo pipefail'']"

definition MODIFIED_SCRIPT :: "string list" where
  "MODIFIED_SCRIPT = [
     ''if [ -z '' @ [DQ] @ ''$installer_url'' @ [DQ] @ '' ]; then'',
     ''  echo '' @ [DQ] @ ''Modified Codex installer URL is required'' @ [DQ] @ '' >&2'',
     ''  exit 1'',
     ''fi'',
     ''case '' @ [DQ] @ ''$(uname -s)'' @ [DQ] @ '' in'',
     ''  Darwin|Linux) ;;'',
     ''  *) echo '' @ [DQ] @ ''Unsupported platform for modified Codex installer'' @ [DQ] @ '' >&2; exit 1 ;;'',
     ''esac'',
     ''tmp_installer='' @ [DQ] @ ''$(mktemp)'' @ [DQ],
     ''cleanup() { rm -f '' @ [DQ] @ ''$tmp_installer'' @ [DQ] @ ''; }'',
     ''trap cleanup EXIT'',
     ''curl -fL '' @ [DQ] @ ''$installer_url'' @ [DQ] @ '' -o '' @ [DQ] @ ''$tmp_installer'' @ [DQ],
     ''bash '' @ [DQ] @ ''$tmp_installer'' @ [DQ]]"

text \<open>A script is its lines; the one that carries a literal has it behind an assignment.\<close>

definition windowsInstallScript :: "string option \<Rightarrow> string" where
  "windowsInstallScript cached = join_with nl (WINDOWS_HEAD
     @ (case cached of None \<Rightarrow> [] | Some u \<Rightarrow> [''  $cachedInstallerUrl = '' @ powerShellLiteral u]) @ WINDOWS_SCRIPT)"

definition macosInstallScript :: "string option \<Rightarrow> string option \<Rightarrow> string" where
  "macosInstallScript dir cached = join_with nl (MACOS_HEAD
     @ (case cached of None \<Rightarrow> [] | Some u \<Rightarrow> [''cached_url='' @ shellLiteral u]) @ MACOS_SCRIPT
     @ (case dir of
          Some d \<Rightarrow> [''target_dir='' @ shellLiteral d, ''mkdir -p '' @ [DQ] @ ''$target_dir'' @ [DQ]]
        | None \<Rightarrow> [''target_dir='' @ [DQ] @ ''/Applications'' @ [DQ],
            ''if [ ! -w '' @ [DQ] @ ''$target_dir'' @ [DQ] @ '' ]; then target_dir='' @ [DQ] @ ''$HOME/Applications'' @ [DQ] @ ''; mkdir -p '' @ [DQ] @ ''$target_dir'' @ [DQ] @ ''; fi''])
     @ MACOS_TAIL)"

definition modifiedInstallCommand :: "string \<Rightarrow> platform \<Rightarrow> command_plan" where
  "modifiedInstallCommand u p =
     (if p = Windows then
        \<lparr>cp_command = ''powershell.exe'',
         cp_args = [''-NoProfile'', ''-ExecutionPolicy'', ''Bypass'', ''-Command'',
           ''$ErrorActionPreference = '' @ [SQ] @ ''Stop'' @ [SQ] @ ''; $u = $env:SUB2API_CODEX_MODIFIED_INSTALL_URL; if (-not $u) { $u = ''
             @ powerShellLiteral u @ '' }; irm $u | iex'']\<rparr>
      else \<lparr>cp_command = ''bash'',
         cp_args = [''-lc'', join_with nl (MODIFIED_HEAD @ [''installer_url='' @ shellLiteral u] @ MODIFIED_SCRIPT)]\<rparr>)"

section \<open>The plan\<close>

definition strip_slashes :: "string \<Rightarrow> string" where
  "strip_slashes s = rev (dropWhile (\<lambda>c. c = CHR ''/'') (rev s))"

definition ends_with :: "string \<Rightarrow> string \<Rightarrow> bool" where
  "ends_with s t \<longleftrightarrow> length t \<le> length s \<and> drop (length s - length t) s = t"

definition gateway_root :: "string \<Rightarrow> string" where
  "gateway_root baseUrl = (let s = strip_slashes baseUrl in if ends_with (lower s) ''/v1'' then take (length s - 3) s else s)"

record install_options =
  io_source :: install_source
  io_url :: "string option"
  io_base :: string
  io_client :: codex_client
  io_dir :: "string option"

definition cli_arguments :: "machine \<Rightarrow> string \<Rightarrow> string option \<Rightarrow> string list" where
  "cli_arguments M p dir = [''install'', ''--global'', ''@openai/codex'', ''--registry=https://registry.npmmirror.com'']
     @ (case dir of None \<Rightarrow> []
        | Some d \<Rightarrow> [''--prefix'', d, ''--cache'', if p = ''win32'' then ma_win_join M d ''npm-cache'' else posix_join d ''npm-cache''])"

definition cli_install :: "machine \<Rightarrow> string \<Rightarrow> string option \<Rightarrow> command_plan" where
  "cli_install M p dir =
     (if detectPlatform p = Windows then
        \<lparr>cp_command = ''powershell.exe'', cp_args = [''-NoProfile'', ''-Command'',
           ''& npm.cmd '' @ join_with '' '' (map powerShellLiteral (cli_arguments M p dir)) @ ''; if ($LASTEXITCODE -ne 0) { exit $LASTEXITCODE }'']\<rparr>
      else \<lparr>cp_command = ''npm'', cp_args = cli_arguments M p dir\<rparr>)"

definition cached_installer :: "string \<Rightarrow> string \<Rightarrow> string option" where
  "cached_installer gateway name = (if gateway = '''' then None else Some (gateway @ ''/downloads/'' @ name))"

definition official_install :: "machine \<Rightarrow> string \<Rightarrow> string \<Rightarrow> string option \<Rightarrow> install_plan" where
  "official_install M p gateway dir = (let d = detectPlatform p in
     if dir = None \<and> isCodexInstalled M p
     then \<lparr>pl_platform = d, pl_supported = True, pl_installed = True, pl_source = Official, pl_install = None\<rparr>
     else (case d of
       Macos \<Rightarrow> \<lparr>pl_platform = d, pl_supported = True, pl_installed = False, pl_source = Official,
         pl_install = Some [\<lparr>cp_command = ''bash'', cp_args = [''-lc'', macosInstallScript dir (cached_installer gateway ''Codex.dmg'')]\<rparr>]\<rparr>
     | Windows \<Rightarrow> \<lparr>pl_platform = d, pl_supported = True, pl_installed = False, pl_source = Official,
         pl_install = Some [\<lparr>cp_command = ''powershell.exe'',
           cp_args = [''-NoProfile'', ''-Command'', windowsInstallScript (cached_installer gateway ''ChatGPT-Installer.exe'')]\<rparr>]\<rparr>
     | Linux \<Rightarrow> \<lparr>pl_platform = d, pl_supported = False, pl_installed = False, pl_source = Official, pl_install = None\<rparr>))"

definition resolve_option :: "machine \<Rightarrow> string \<Rightarrow> string option \<Rightarrow> thrown + string option" where
  "resolve_option M p dir = (case dir of None \<Rightarrow> Inr None | Some d \<Rightarrow> bind_js (resolveDirectory M d p) (\<lambda>r. Inr (Some r)))"

definition planClientInstall :: "machine \<Rightarrow> string \<Rightarrow> install_options \<Rightarrow> thrown + install_plan" where
  "planClientInstall M p io =
     bind_js (resolve_option M p (io_dir io)) (\<lambda>dir.
     bind_js (guard_js (io_source io = Modified \<and> (io_client io = Cli \<or> dir \<noteq> None))
       (plain_error ''--client cli and --install-dir require --install-source official'')) (\<lambda>_.
     bind_js (guard_js (dir \<noteq> None \<and> io_client io = Desktop \<and> detectPlatform p \<noteq> Macos)
       (plain_error ''Custom --install-dir is supported by --client cli. Windows Store desktop apps use Settings > System > Storage > Where new content is saved; move an existing app in Installed apps.'')) (\<lambda>_.
     if io_client io = Cli then
       Inr \<lparr>pl_platform = detectPlatform p, pl_supported = True, pl_installed = False, pl_source = Official, pl_install = Some [cli_install M p dir]\<rparr>
     else if io_source io = Modified then
       bind_js (assertInstallerUrl M (case modifiedInstallerUrl M (io_url io) of Some u \<Rightarrow> u
           | None \<Rightarrow> defaultModifiedInstallerUrl M (detectPlatform p))) (\<lambda>u.
         Inr \<lparr>pl_platform = detectPlatform p, pl_supported = True, pl_installed = False, pl_source = Modified,
           pl_install = Some [modifiedInstallCommand u (detectPlatform p)]\<rparr>)
     else Inr (official_install M p (gateway_root (io_base io)) dir))))"

section \<open>A directory is kept\<close>

lemma join_with_both:
  "xs \<noteq> [] \<Longrightarrow> ys \<noteq> [] \<Longrightarrow> join_with sep (xs @ ys) = join_with sep xs @ sep @ join_with sep ys"
  by (induction sep xs rule: join_with.induct) (auto simp: join_with_Cons)

lemma no_control_join:
  "\<not> list_ex is_control sep \<Longrightarrow> \<forall>w \<in> set ws. \<not> list_ex is_control w \<Longrightarrow> \<not> list_ex is_control (join_with sep ws)"
  by (induction sep ws rule: join_with.induct) auto

lemma split_on_subset: "w \<in> set (split_on d s) \<Longrightarrow> set w \<subseteq> set s"
proof (induction s arbitrary: w)
  case (Cons c s)
  show ?case
  proof (cases "split_on d s")
    case (Cons v vs)
    then show ?thesis using Cons.IH [of v] Cons.IH [of w] Cons.prems by (cases "c = d") auto
  qed (use Cons.prems in \<open>auto split: if_splits\<close>)
qed simp

lemma path_segments_subset: "set (path_segments False acc ws) \<subseteq> set acc \<union> set ws"
proof (induction ws arbitrary: acc)
  case (Cons w ws)
  have "set (butlast acc) \<subseteq> set acc" by (meson in_set_butlastD subsetI)
  then show ?case
    using Cons.IH [of acc] Cons.IH [of "butlast acc"] Cons.IH [of "acc @ [w]"] unfolding path_segments.simps
    by (simp only: if_False split: if_split) auto
qed simp

lemma posix_resolve_plain: "\<not> list_ex is_control v \<Longrightarrow> \<not> list_ex is_control (posix_resolve v)"
proof -
  assume v: "\<not> list_ex is_control v"
  have "\<forall>w \<in> set (path_segments False [] (split_on CHR ''/'' v)). \<not> list_ex is_control w"
    using path_segments_subset [of "[]" "split_on CHR ''/'' v"] split_on_subset [of _ "CHR ''/''" v] v
    by (fastforce simp: list_ex_iff)
  then show ?thesis unfolding posix_resolve_def by (simp add: no_control_join) (simp add: is_control_def no_control_join)
qed

lemma trim_slash: "trim (CHR ''/'' # s) \<noteq> ''''"
  by (auto simp: trim_eq_Nil_iff is_ws_def)

lemma resolveDirectory_idem:
  assumes "p \<noteq> ''win32''" "resolveDirectory M v p = Inr d"
  shows "resolveDirectory M d p = Inr d" and "is_absolute d" and "\<not> list_ex is_control d"
proof -
  have d: "d = posix_resolve v" "\<not> list_ex is_control v"
    using assms by (auto simp: resolveDirectory_def split: if_splits)
  have "is_absolute d" "trim d \<noteq> ''''" "\<not> list_ex is_control d"
    using posix_resolve_plain [OF d(2)] trim_slash unfolding d(1) posix_resolve_def by (auto simp: is_absolute_def starts_with_def)
  then show "resolveDirectory M d p = Inr d" "is_absolute d" "\<not> list_ex is_control d"
    using assms(1) d(1) by (simp_all add: resolveDirectory_def)
qed

section \<open>What the commands get\<close>

lemma script_line:
  assumes "xs \<noteq> []" "ys \<noteq> []"
  shows "join_with nl (xs @ [y] @ ys) = (join_with nl xs @ nl) @ y @ nl @ join_with nl ys"
  using assms by (simp add: join_with_both join_with_Cons)

lemma macos_target_line:
  "\<exists>before after. macosInstallScript (Some d) cached = before @ ''target_dir='' @ shellLiteral d @ nl @ after"
proof -
  let ?xs = "MACOS_HEAD @ (case cached of None \<Rightarrow> [] | Some u \<Rightarrow> [''cached_url='' @ shellLiteral u]) @ MACOS_SCRIPT"
  let ?ys = "(''mkdir -p '' @ [DQ] @ ''$target_dir'' @ [DQ]) # MACOS_TAIL"
  have "?xs \<noteq> []" "?ys \<noteq> []" by (simp_all add: MACOS_HEAD_def)
  then have line: "join_with nl (?xs @ [''target_dir='' @ shellLiteral d] @ ?ys)
      = (join_with nl ?xs @ nl) @ (''target_dir='' @ shellLiteral d) @ nl @ join_with nl ?ys"
    by (rule script_line)
  have script: "macosInstallScript (Some d) cached = join_with nl (?xs @ [''target_dir='' @ shellLiteral d] @ ?ys)"
    by (simp only: macosInstallScript_def option.case append_assoc append_Cons append_Nil)
  show ?thesis
    unfolding script line by (rule exI [of _ "join_with nl ?xs @ nl"], rule exI [of _ "join_with nl ?ys"]) (simp only: append_assoc)
qed

lemma ps_arguments:
  assumes "ws \<noteq> []"
  shows "\<exists>after. join_with '' '' (map powerShellLiteral ws) = powerShellLiteral (hd ws) @ after \<and> (after = [] \<or> hd after = CHR '' '')"
  using assms by (cases ws; cases "tl ws") auto

lemma ps_argument_read:
  assumes "bs \<noteq> []"
  shows "\<exists>before rest after. pre @ join_with '' '' (map powerShellLiteral (as @ r # bs)) @ post = before @ [SQ] @ rest \<and> ps_string rest = Some (r, after)"
proof -
  define after where "after = '' '' @ join_with '' '' (map powerShellLiteral bs) @ post"
  have line: "join_with '' '' (map powerShellLiteral (as @ r # bs)) @ post
      = (if as = [] then [] else join_with '' '' (map powerShellLiteral as) @ '' '') @ powerShellLiteral r @ after"
    using assms by (cases "as = []") (simp_all add: join_with_both join_with_Cons after_def)
  have "powerShellLiteral r @ after = [SQ] @ tl (powerShellLiteral r @ after)"
    by (simp add: powerShellLiteral_def)
  moreover have "ps_string (tl (powerShellLiteral r @ after)) = Some (r, after)"
    by (rule powerShellLiteral_is_read) (simp add: after_def)
  ultimately show ?thesis unfolding line by (metis append_assoc)
qed

lemma cli_arguments_prefix:
  "\<exists>cache. cli_arguments M p (Some r) = [''install'', ''--global'', ''@openai/codex'', ''--registry=https://registry.npmmirror.com'', ''--prefix''] @ r # [''--cache'', cache]"
  by (simp add: cli_arguments_def)

lemma macos_directory_read:
  "\<exists>before rest after. macosInstallScript (Some r) cached = before @ ''target_dir='' @ rest \<and> sh_word False rest = Some (r, nl @ after)"
proof -
  obtain before after where "macosInstallScript (Some r) cached = before @ ''target_dir='' @ shellLiteral r @ nl @ after"
    using macos_target_line by blast
  moreover have "sh_word False (shellLiteral r @ nl @ after) = Some (r, nl @ after)"
    by (rule shellLiteral_is_read) (simp add: is_ws_def)
  ultimately show ?thesis by blast
qed

lemma detectPlatform_cases: "detectPlatform p = Windows \<longleftrightarrow> p = ''win32''" "detectPlatform p = Macos \<longleftrightarrow> p = ''darwin''"
  by (auto simp: detectPlatform_def)

lemma cli_install_windows:
  "p = ''win32'' \<Longrightarrow> last (cp_args (cli_install M p dir)) =
     ''& npm.cmd '' @ join_with '' '' (map powerShellLiteral (cli_arguments M p dir)) @ ''; if ($LASTEXITCODE -ne 0) { exit $LASTEXITCODE }''"
  by (simp add: cli_install_def detectPlatform_cases)

lemma detect_macos: "detectPlatform ''darwin'' = Macos"
  by (simp add: detectPlatform_def)

lemma plan_with_directory:
  assumes "planClientInstall M p io = Inr pl" "io_dir io = Some d" "resolveDirectory M d p = Inr r"
  shows "io_source io = Official \<and> pl_install pl =
    (if io_client io = Cli then Some [cli_install M p (Some r)]
     else Some [\<lparr>cp_command = ''bash'', cp_args = [''-lc'', macosInstallScript (Some r) (cached_installer (gateway_root (io_base io)) ''Codex.dmg'')]\<rparr>])
    \<and> (io_client io = Desktop \<longrightarrow> p = ''darwin'')"
proof -
  have "io_source io = Official" using assms by (cases "io_source io") (auto simp: planClientInstall_def resolve_option_def)
  then show ?thesis
    using assms by (cases "io_client io") (auto simp: planClientInstall_def resolve_option_def official_install_def detectPlatform_cases detect_macos Let_def)
qed


definition witness_machine :: machine where
  "witness_machine = \<lparr>ma_platform = ''linux'', ma_env = (\<lambda>_. None), ma_home = ''/home/u'', ma_exists = (\<lambda>_. False), ma_appx = False,
     ma_url = (\<lambda>u. Some (''https:'', u)), ma_win_normalize = (\<lambda>p. p), ma_win_join = (\<lambda>a b. a @ [BS] @ b)\<rparr>"

definition witness_options :: install_options where
  "witness_options = \<lparr>io_source = Official, io_url = None, io_base = '''', io_client = Cli, io_dir = Some (''/opt/it'' @ [SQ] @ ''s/./codex'')\<rparr>"


end
