(* ===== verification/Setup_Cli.thy ===== *)
theory Setup_Cli
  imports Setup_Install "HOL-Library.AList"
begin

text \<open>
  \<^verbatim>\<open>src/config.ts\<close> and \<^verbatim>\<open>src/cli.ts\<close> of \<^verbatim>\<open>tools/sub2api-codex-setup\<close>: the configuration that is written, and the whole run of the
  command as the list of its effects. The options come from \<^verbatim>\<open>parseArgs\<close> of Node.js; what commands, the network and the file
  system answer is a parameter.
\<close>

section \<open>The configuration\<close>

datatype auth_mode = Legacy | Api_key

record setup_config =
  sc_baseUrl :: string
  sc_apiKey :: string
  sc_model :: string
  sc_providerName :: string
  sc_authMode :: auth_mode

definition normalizeBaseUrl :: "string \<Rightarrow> thrown + string" where
  "normalizeBaseUrl v = (let t = strip_slashes (trim v)
     in if t = '''' then Inl (plain_error ''baseUrl is required'') else Inr (if ends_with t ''/v1'' then t else t @ ''/v1''))"

definition quoted :: "string \<Rightarrow> string \<Rightarrow> string" where
  "quoted k v = k @ '' = '' @ [DQ] @ v @ [DQ]"

definition provider_name :: "setup_config \<Rightarrow> string" where
  "provider_name c = (if sc_providerName c = '''' then ''Sub2API'' else sc_providerName c)"

definition auth_lines :: "setup_config \<Rightarrow> string list" where
  "auth_lines c = (case sc_authMode c of
     Api_key \<Rightarrow> [''requires_openai_auth = false'', quoted ''experimental_bearer_token'' (escapeTomlBasicString (sc_apiKey c))]
   | Legacy \<Rightarrow> [quoted ''env_key'' ''SUB2API_API_KEY'', ''requires_openai_auth = false''])"

definition toml_head :: "setup_config \<Rightarrow> string option \<Rightarrow> string \<Rightarrow> string list" where
  "toml_head c catalog base =
     [''# Codex CLI -> '' @ provider_name c, quoted ''model_provider'' ''sub2api'', quoted ''model'' (sc_model c), quoted ''review_model'' (sc_model c)]
     @ (case catalog of None \<Rightarrow> [] | Some p \<Rightarrow> if p = '''' then [] else [quoted ''model_catalog_json'' (escapeTomlBasicString p)])
     @ [''disable_response_storage = true'', '''', ''[model_providers.sub2api]'', quoted ''name'' (provider_name c), quoted ''base_url'' base]"

definition buildConfigToml :: "setup_config \<Rightarrow> string option \<Rightarrow> thrown + string" where
  "buildConfigToml c catalog = bind_js (normalizeBaseUrl (sc_baseUrl c)) (\<lambda>base.
     Inr (join_with nl (toml_head c catalog base @ auth_lines c @ [quoted ''wire_api'' ''responses'', ''supports_websockets = false''])))"

section \<open>Effects\<close>

datatype action = Say string | Warn string | Complain string | Perform command_plan | Fetch string string | Mkdir string | Write string string

text \<open>The answers of the outside; a failed response carries its status.\<close>

record outside =
  ot_run :: "command_plan \<Rightarrow> thrown option"
  ot_fetch :: "string \<Rightarrow> string \<Rightarrow> thrown + nat + json option"
  ot_mkdir :: "string \<Rightarrow> thrown option"
  ot_write :: "string \<Rightarrow> thrown option"
  ot_pretty :: "json \<Rightarrow> string"
  ot_version :: string

type_synonym 'a eff = "action list \<times> (thrown + 'a)"

definition eff_bind :: "'a eff \<Rightarrow> ('a \<Rightarrow> 'b eff) \<Rightarrow> 'b eff" where
  "eff_bind m f = (case snd m of Inl e \<Rightarrow> (fst m, Inl e) | Inr x \<Rightarrow> (fst m @ fst (f x), snd (f x)))"

definition eff_return :: "'a \<Rightarrow> 'a eff" where
  "eff_return x = ([], Inr x)"

definition eff_lift :: "thrown + 'a \<Rightarrow> 'a eff" where
  "eff_lift r = ([], r)"

definition say :: "string list \<Rightarrow> unit eff" where
  "say ls = (map Say ls, Inr ())"

definition outcome :: "action \<Rightarrow> thrown option \<Rightarrow> unit eff" where
  "outcome a r = ([a], case r of None \<Rightarrow> Inr () | Some e \<Rightarrow> Inl e)"

definition runCommand :: "outside \<Rightarrow> command_plan \<Rightarrow> unit eff" where
  "runCommand U c = outcome (Perform c) (ot_run U c)"

definition writeFile :: "outside \<Rightarrow> string \<Rightarrow> string \<Rightarrow> unit eff" where
  "writeFile U p t = outcome (Write p t) (ot_write U p)"

record written_config =
  wc_configPath :: string
  wc_authPath :: "string option"
  wc_catalogPath :: "string option"

definition write_catalog :: "outside \<Rightarrow> string option \<Rightarrow> string option \<Rightarrow> unit eff" where
  "write_catalog U path text = (case (path, text) of (Some p, Some t) \<Rightarrow> writeFile U p t | _ \<Rightarrow> eff_return ())"

definition writeCodexConfig :: "machine \<Rightarrow> outside \<Rightarrow> setup_config \<Rightarrow> string option \<Rightarrow> string option \<Rightarrow> written_config eff" where
  "writeCodexConfig M U c catalogJson home =
     eff_bind (eff_lift (codexConfigDir M (ma_platform M) home)) (\<lambda>dir.
     let configPath = join_path M dir ''config.toml'';
         catalog = (case catalogJson of None \<Rightarrow> None | Some t \<Rightarrow> if t = '''' then None else Some (join_path M dir ''codex-models.json'')) in
     eff_bind (outcome (Mkdir dir) (ot_mkdir U dir)) (\<lambda>_.
     eff_bind (eff_lift (buildConfigToml c catalog)) (\<lambda>toml.
     eff_bind (writeFile U configPath toml) (\<lambda>_.
     eff_bind (write_catalog U catalog catalogJson) (\<lambda>_.
     if sc_authMode c = Api_key then eff_return \<lparr>wc_configPath = configPath, wc_authPath = None, wc_catalogPath = catalog\<rparr>
     else (let authPath = join_path M dir ''auth.json'' in
       eff_bind (writeFile U authPath (ot_pretty U (JObj [(''OPENAI_API_KEY'', JStr (sc_apiKey c))]) @ nl)) (\<lambda>_.
       eff_return \<lparr>wc_configPath = configPath, wc_authPath = Some authPath, wc_catalogPath = catalog\<rparr>)))))))"

section \<open>The model catalogue\<close>

text \<open>An assignment to a property of a value that is no object throws in a module; an array takes it, and its text does not show it.\<close>

definition declare_image :: "json \<Rightarrow> thrown + json" where
  "declare_image m = (let modalities = (case getp m ''input_modalities'' of Some (JArr xs) \<Rightarrow> xs | _ \<Rightarrow> []);
      new = JArr (JStr ''text'' # JStr ''image'' # filter (\<lambda>v. v \<noteq> JStr ''text'' \<and> v \<noteq> JStr ''image'') modalities)
     in case m of JObj kvs \<Rightarrow> Inr (JObj (AList.update ''input_modalities'' new kvs)) | JArr xs \<Rightarrow> Inr (JArr xs)
        | JNull \<Rightarrow> Inl (type_error ''Cannot read properties of null'')
        | _ \<Rightarrow> Inl (type_error ''Cannot create property input_modalities''))"

definition declareImageInput :: "json list \<Rightarrow> thrown + json list" where
  "declareImageInput ms = map_js declare_image ms"

definition has_slug :: "string \<Rightarrow> json \<Rightarrow> bool" where
  "has_slug s m \<longleftrightarrow> getp m ''slug'' = Some (JStr s)"

definition usable_slug :: "json \<Rightarrow> bool" where
  "usable_slug m \<longleftrightarrow> (case getp m ''slug'' of Some (JStr s) \<Rightarrow> s \<noteq> '''' | _ \<Rightarrow> False)"

definition catalog_note :: "string \<Rightarrow> json list \<Rightarrow> string list" where
  "catalog_note preferred ms = (if \<not> list_ex (has_slug preferred) ms \<and> list_ex usable_slug ms
     then [''Preferred model '' @ preferred @ '' was not in the catalog; config still uses '' @ preferred @ ''.''] else [])"

text \<open>The models are changed in place, so the manifest that is written has the changed ones.\<close>

definition loadCodexModelCatalog :: "outside \<Rightarrow> string \<Rightarrow> string \<Rightarrow> string \<Rightarrow> string option eff" where
  "loadCodexModelCatalog U base key preferred =
     (let url = base @ ''/models?client_version=0.147.0''; head = ''Bearer '' @ key in
      case ot_fetch U url head of
        Inl e \<Rightarrow> ([Fetch url head], Inl e)
      | Inr (Inl st) \<Rightarrow> ([Fetch url head, Warn (''Model catalog fetch skipped: HTTP '' @ show_nat st)], Inr None)
      | Inr (Inr None) \<Rightarrow> ([Fetch url head], Inl (js_error_of ''SyntaxError'' ''Unexpected token''))
      | Inr (Inr (Some JNull)) \<Rightarrow> ([Fetch url head], Inl (type_error ''Cannot read properties of null''))
      | Inr (Inr (Some manifest)) \<Rightarrow>
          (case getp manifest ''models'' of
             Some (JArr (m # ms)) \<Rightarrow>
               (case declareImageInput (m # ms) of
                  Inl e \<Rightarrow> ([Fetch url head], Inl e)
                | Inr new \<Rightarrow> ([Fetch url head] @ map Say (catalog_note preferred new),
                    Inr (Some (ot_pretty U (JObj (AList.update ''models'' (JArr new) (the (obj_of (Some manifest)))))))))
           | _ \<Rightarrow> ([Fetch url head, Warn ''Model catalog fetch skipped: empty model list''], Inr None)))"

section \<open>The command line\<close>

definition HELP :: string where
  "HELP = join_with nl [
     ''sub2api-codex-setup'',
     '''',
     ''Install the Codex desktop app or CLI, then write Sub2API configuration.'',
     '''',
     ''Usage:'',
     ''  npx -y sub2api-codex-setup --base-url <url> --api-key <key> [options]'',
     '''',
     ''Options:'',
     ''  --base-url <url>       Sub2API base URL, with or without /v1'',
     ''  --api-key <key>        Sub2API API key'',
     ''  --model <model>        Codex model (default: gpt-5.5)'',
     ''  --provider-name <name> Provider name written to config.toml (default: Sub2API)'',
     ''  --auth-mode <mode>     api-key or legacy (default: api-key)'',
     ''  --install-source <src> Codex client source: official or modified (default: official)'',
     ''  --client <type>        desktop or cli (default: desktop)'',
     ''  --install-dir <dir>    Absolute npm prefix for CLI, or app folder for macOS desktop'',
     ''  --codex-home <dir>     Absolute config/data directory (default: CODEX_HOME or ~/.codex)'',
     ''  --persist-home        Save CODEX_HOME in Windows user environment; reopen terminals/apps'',
     ''  --modified-installer-url <url>'',
     ''                          Override the modified installer URL; default is the latest GitHub'',
     ''                          Release asset from '' @ DEFAULT_MODIFIED_INSTALL_REPO,
     ''                          (override repository with '' @ MODIFIED_INSTALL_REPO_ENV @ '')'',
     ''  --no-install           Only write configuration; do not install Codex'',
     ''  --dry-run              Print actions without installing or writing files'',
     ''  --help                 Show this help'',
     ''  --version              Print version'']"

record cli_values =
  cv_version :: bool
  cv_help :: bool
  cv_base_url :: "string option"
  cv_api_key :: "string option"
  cv_model :: string
  cv_provider_name :: string
  cv_auth_mode :: string
  cv_install_source :: string
  cv_client :: string
  cv_install_dir :: "string option"
  cv_codex_home :: "string option"
  cv_persist_home :: bool
  cv_modified_url :: "string option"
  cv_no_install :: bool
  cv_dry_run :: bool

text \<open>The defaults of \<^verbatim>\<open>parseCli\<close>\<close>

definition cli_defaults :: cli_values where
  "cli_defaults = \<lparr>cv_version = False, cv_help = False, cv_base_url = None, cv_api_key = None, cv_model = ''gpt-5.5'', cv_provider_name = ''Sub2API'',
     cv_auth_mode = ''api-key'', cv_install_source = ''official'', cv_client = ''desktop'', cv_install_dir = None, cv_codex_home = None,
     cv_persist_home = False, cv_modified_url = None, cv_no_install = False, cv_dry_run = False\<rparr>"

fun unescape_literal :: "string \<Rightarrow> string" where
  "unescape_literal [] = []"
| "unescape_literal (c # s) =
     (case s of a # b # d # s' \<Rightarrow> if c = SQ \<and> a = BS \<and> b = SQ \<and> d = SQ then SQ # unescape_literal s' else c # unescape_literal s
      | _ \<Rightarrow> c # unescape_literal s)"

text \<open>\<^verbatim>\<open>((?:[^']|'\\'')*)'\<close>: the longest body that a quote follows.\<close>

fun literal_body :: "string \<Rightarrow> string option" where
  "literal_body [] = None"
| "literal_body (c # s) =
     (if c \<noteq> SQ then map_option (Cons c) (literal_body s)
      else (case s of
          a # b # d # s' \<Rightarrow> if a = BS \<and> b = SQ \<and> d = SQ
            then (case literal_body s' of Some w \<Rightarrow> Some (SQ # BS # SQ # SQ # w) | None \<Rightarrow> Some []) else Some []
        | _ \<Rightarrow> Some []))"

definition url_mark :: string where
  "url_mark = ''installer_url='' @ [SQ]"

fun find_literal :: "string \<Rightarrow> string option" where
  "find_literal [] = None"
| "find_literal (c # s) =
     (if starts_with (c # s) url_mark then
        (case literal_body (drop (length url_mark) (c # s)) of Some w \<Rightarrow> Some w | None \<Rightarrow> find_literal s)
      else find_literal s)"

definition plain_command :: "command_plan \<Rightarrow> string" where
  "plain_command c = cp_command c @ '' '' @ join_with '' '' (cp_args c)"

definition formatInstallCommand :: "command_plan \<Rightarrow> string" where
  "formatInstallCommand c = (case cp_args c of
     a # text # _ \<Rightarrow>
       if cp_command c = ''bash'' \<and> a = ''-lc'' \<and> contains text ''installer_url=''
       then (case find_literal text of Some w \<Rightarrow> ''download and run '' @ unescape_literal w | None \<Rightarrow> plain_command c)
       else plain_command c
   | _ \<Rightarrow> plain_command c)"

definition platform_label :: "platform \<Rightarrow> string" where
  "platform_label p = (case p of Macos \<Rightarrow> ''macos'' | Windows \<Rightarrow> ''windows'' | Linux \<Rightarrow> ''linux'')"

definition source_label :: "install_source \<Rightarrow> string" where
  "source_label s = (case s of Official \<Rightarrow> ''official'' | Modified \<Rightarrow> ''modified'')"

definition client_label :: "codex_client \<Rightarrow> string" where
  "client_label c = (case c of Desktop \<Rightarrow> ''desktop'' | Cli \<Rightarrow> ''cli'')"

definition auth_label :: "auth_mode \<Rightarrow> string" where
  "auth_label a = (case a of Legacy \<Rightarrow> ''legacy'' | Api_key \<Rightarrow> ''api-key'')"

section \<open>Preparation\<close>

record prepared =
  pr_base :: string
  pr_auth :: auth_mode
  pr_source :: install_source
  pr_client :: codex_client
  pr_directory :: string
  pr_dir :: "string option"
  pr_plan :: "install_plan option"

definition auth_mode_of :: "string \<Rightarrow> thrown + auth_mode" where
  "auth_mode_of v = (if v \<noteq> '''' \<and> v \<noteq> ''legacy'' \<and> v \<noteq> ''api-key'' then Inl (plain_error ''--auth-mode must be legacy or api-key'')
     else Inr (if v = ''legacy'' then Legacy else Api_key))"

definition client_of :: "string \<Rightarrow> thrown + codex_client" where
  "client_of v = (if v = ''desktop'' then Inr Desktop else if v = ''cli'' then Inr Cli else Inl (plain_error ''--client must be desktop or cli''))"

definition given :: "string option \<Rightarrow> bool" where
  "given v \<longleftrightarrow> (case v of None \<Rightarrow> False | Some t \<Rightarrow> t \<noteq> '''')"

definition prepare_setup :: "machine \<Rightarrow> cli_values \<Rightarrow> thrown + prepared" where
  "prepare_setup M v =
     bind_js (auth_mode_of (cv_auth_mode v)) (\<lambda>auth.
     bind_js (normalizeBaseUrl (the (cv_base_url v))) (\<lambda>base.
     bind_js (parseCodexInstallSource (Some (cv_install_source v))) (\<lambda>source.
     bind_js (client_of (cv_client v)) (\<lambda>client.
     bind_js (codexConfigDir M (ma_platform M) (cv_codex_home v)) (\<lambda>directory.
     bind_js (resolve_option M (ma_platform M) (cv_install_dir v)) (\<lambda>dir.
     bind_js (guard_js (cv_persist_home v \<and> (ma_platform M \<noteq> ''win32'' \<or> \<not> given (cv_codex_home v)))
       (plain_error ''--persist-home requires Windows and an explicit --codex-home'')) (\<lambda>_.
     bind_js (guard_js (cv_no_install v \<and> given dir) (plain_error ''--install-dir cannot be used with --no-install'')) (\<lambda>_.
     bind_js (if cv_no_install v then Inr None
        else bind_js (planClientInstall M (ma_platform M)
            \<lparr>io_source = source, io_url = cv_modified_url v, io_base = base, io_client = client, io_dir = dir\<rparr>) (\<lambda>pl. Inr (Some pl))) (\<lambda>plan.
     Inr \<lparr>pr_base = base, pr_auth = auth, pr_source = source, pr_client = client, pr_directory = directory, pr_dir = dir, pr_plan = plan\<rparr>)))))))))"

section \<open>The run\<close>

definition dry_run_lines :: "machine \<Rightarrow> cli_values \<Rightarrow> prepared \<Rightarrow> string list" where
  "dry_run_lines M v p =
     [''Config directory: '' @ pr_directory p, ''Client: '' @ client_label (pr_client p)]
     @ (case pr_dir p of None \<Rightarrow> [] | Some d \<Rightarrow> [''Install directory: '' @ d]
          @ (if pr_client p = Cli \<and> detectPlatform (ma_platform M) = Windows then [''Windows user PATH: prepend '' @ d] else []))
     @ (if cv_persist_home v then [''Windows user CODEX_HOME: '' @ pr_directory p] else [])
     @ [''Base URL: '' @ pr_base p, ''Model: '' @ cv_model v, ''Auth mode: '' @ auth_label (pr_auth p)]
     @ (case pr_plan p of
          None \<Rightarrow> [''Codex client install: skipped by --no-install'']
        | Some pl \<Rightarrow> if pl_installed pl then [''Codex client: already installed; install step skipped'']
            else (case pl_install pl of
               Some cs \<Rightarrow> map (\<lambda>c. ''Codex client install: '' @ formatInstallCommand c) cs
             | None \<Rightarrow> [''Codex client install: unsupported on this platform; configuration will still be written'']))"

fun install_all :: "outside \<Rightarrow> command_plan list \<Rightarrow> unit eff" where
  "install_all U [] = eff_return ()"
| "install_all U (c # cs) = eff_bind (say [''Installing Codex client: '' @ formatInstallCommand c]) (\<lambda>_.
     eff_bind (runCommand U c) (\<lambda>_. install_all U cs))"

definition install_commands :: "prepared \<Rightarrow> command_plan list" where
  "install_commands p = (case pr_plan p of None \<Rightarrow> []
     | Some pl \<Rightarrow> if pl_installed pl then [] else (case pl_install pl of None \<Rightarrow> [] | Some cs \<Rightarrow> cs))"

definition install_client :: "outside \<Rightarrow> prepared \<Rightarrow> unit eff" where
  "install_client U p = (case pr_plan p of
     None \<Rightarrow> eff_return ()
   | Some pl \<Rightarrow> if pl_installed pl then say [''Codex client already installed; skipping install.'']
       else (case pl_install pl of
          Some cs \<Rightarrow> install_all U cs
        | None \<Rightarrow> say [''Codex client installer is not available for this platform; writing configuration only.'']))"

definition powershell :: "string \<Rightarrow> command_plan" where
  "powershell t = \<lparr>cp_command = ''powershell.exe'', cp_args = [''-NoProfile'', ''-Command'', t]\<rparr>"

definition stop_on_error :: string where
  "stop_on_error = ''$ErrorActionPreference = '' @ [SQ] @ ''Stop'' @ [SQ] @ ''; ''"

definition announce_home :: "machine \<Rightarrow> outside \<Rightarrow> cli_values \<Rightarrow> prepared \<Rightarrow> unit eff" where
  "announce_home M U v p =
     (if cv_persist_home v then
        eff_bind (runCommand U (powershell (stop_on_error @ ''[Environment]::SetEnvironmentVariable('' @ [SQ] @ ''CODEX_HOME'' @ [SQ] @ '', ''
          @ powerShellLiteral (pr_directory p) @ '', '' @ [SQ] @ ''User'' @ [SQ] @ '')''))) (\<lambda>_.
        say [''Saved Windows user CODEX_HOME. Reopen terminals and restart Codex; sign out of Windows if an existing launcher keeps the old environment.''])
      else if given (cv_codex_home v) then
        say [if ma_platform M = ''win32'' then ''Before starting Codex in PowerShell: $env:CODEX_HOME = '' @ powerShellLiteral (pr_directory p)
          else ''Before starting Codex (also add to your shell profile): export CODEX_HOME='' @ shellLiteral (pr_directory p)]
      else eff_return ())"

definition path_script :: "string \<Rightarrow> string" where
  "path_script bin = stop_on_error @ ''$binDir = '' @ powerShellLiteral bin @ ''; $userPath = [Environment]::GetEnvironmentVariable('' @ [SQ] @ ''Path'' @ [SQ] @ '', ''
     @ [SQ] @ ''User'' @ [SQ] @ ''); if (($userPath -split '' @ [SQ] @ '';'' @ [SQ] @ '') -notcontains $binDir) { [Environment]::SetEnvironmentVariable('' @ [SQ] @ ''Path'' @ [SQ]
     @ '', ($binDir + '' @ [SQ] @ '';'' @ [SQ] @ '' + $userPath), '' @ [SQ] @ ''User'' @ [SQ] @ '') }''"

definition announce_bin :: "machine \<Rightarrow> outside \<Rightarrow> prepared \<Rightarrow> unit eff" where
  "announce_bin M U p = (case pr_dir p of
     None \<Rightarrow> eff_return ()
   | Some d \<Rightarrow>
       if pr_client p \<noteq> Cli then eff_return ()
       else if ma_platform M = ''win32'' then
         eff_bind (runCommand U (powershell (path_script d))) (\<lambda>_.
         say [''Saved Windows user PATH. Reopen your terminal to run codex by name.'', ''Codex CLI executable: '' @ join_path M d ''codex.cmd''])
       else (let bin = join_path M d ''bin'' in
         say [''Codex CLI executable: '' @ join_path M bin ''codex'',
           ''Add to your shell profile: export PATH='' @ shellLiteral bin @ '':'' @ [DQ] @ ''$PATH'' @ [DQ]]))"

definition wrote_lines :: "written_config \<Rightarrow> string list" where
  "wrote_lines w = [''Wrote '' @ wc_configPath w] @ map (append ''Wrote '') (case wc_catalogPath w of None \<Rightarrow> [] | Some p \<Rightarrow> [p])
     @ map (append ''Wrote '') (case wc_authPath w of None \<Rightarrow> [] | Some p \<Rightarrow> [p])"

definition setup_config_of :: "cli_values \<Rightarrow> prepared \<Rightarrow> setup_config" where
  "setup_config_of v p = \<lparr>sc_baseUrl = pr_base p, sc_apiKey = the (cv_api_key v), sc_model = cv_model v, sc_providerName = cv_provider_name v, sc_authMode = pr_auth p\<rparr>"

definition real_run :: "machine \<Rightarrow> outside \<Rightarrow> cli_values \<Rightarrow> prepared \<Rightarrow> unit eff" where
  "real_run M U v p =
     eff_bind (install_client U p) (\<lambda>_.
     eff_bind (loadCodexModelCatalog U (pr_base p) (the (cv_api_key v)) (cv_model v)) (\<lambda>catalog.
     eff_bind (writeCodexConfig M U (setup_config_of v p) catalog (Some (pr_directory p))) (\<lambda>written.
     eff_bind (say (wrote_lines written)) (\<lambda>_.
     eff_bind (announce_home M U v p) (\<lambda>_.
     eff_bind (announce_bin M U p) (\<lambda>_.
     say [''Codex setup complete. Restart Codex if it was already running.'']))))))"

text \<open>\<open>main\<close> with its \<^verbatim>\<open>catch\<close>: the effects and the exit code.\<close>

definition setup_main :: "machine \<Rightarrow> outside \<Rightarrow> thrown + cli_values \<Rightarrow> int eff" where
  "setup_main M U values = eff_bind (eff_lift values) (\<lambda>v.
     if cv_version v then eff_bind (say [ot_version U]) (\<lambda>_. eff_return 0)
     else if cv_help v then eff_bind (say [HELP]) (\<lambda>_. eff_return 0)
     else if \<not> given (cv_base_url v) \<or> \<not> given (cv_api_key v)
     then ([Complain ''--base-url and --api-key are required. Run with --help for usage.''], Inr 1)
     else eff_bind (eff_lift (prepare_setup M v)) (\<lambda>p.
       eff_bind (say [''Detected platform: '' @ platform_label (detectPlatform (ma_platform M)), ''Codex install source: '' @ source_label (pr_source p)]) (\<lambda>_.
       if cv_dry_run v then eff_bind (say (dry_run_lines M v p)) (\<lambda>_. eff_return 0)
       else eff_bind (real_run M U v p) (\<lambda>_. eff_return 0))))"

definition thrown_text :: "thrown \<Rightarrow> string" where
  "thrown_text e = (case e of Adapter _ _ m \<Rightarrow> m | Foreign f \<Rightarrow> err_message f)"

definition setup_run :: "machine \<Rightarrow> outside \<Rightarrow> thrown + cli_values \<Rightarrow> action list \<times> int" where
  "setup_run M U values = (case setup_main M U values of (acts, Inr c) \<Rightarrow> (acts, c) | (acts, Inl e) \<Rightarrow> (acts @ [Complain (thrown_text e)], 1))"

section \<open>The key in the configuration\<close>

lemma key_line:
  assumes "sc_authMode c = Api_key" "buildConfigToml c catalog = Inr t"
  shows "\<exists>before after. t = before @ ''experimental_bearer_token = '' @ [DQ] @ escapeTomlBasicString (sc_apiKey c) @ DQ # after"
proof -
  obtain base where base: "normalizeBaseUrl (sc_baseUrl c) = Inr base"
    and t: "t = join_with nl (toml_head c catalog base @ auth_lines c @ [quoted ''wire_api'' ''responses'', ''supports_websockets = false''])"
    using assms(2) by (auto simp: buildConfigToml_def)
  let ?xs = "toml_head c catalog base @ [''requires_openai_auth = false'']"
  let ?ys = "[quoted ''wire_api'' ''responses'', ''supports_websockets = false'']"
  let ?y = "quoted ''experimental_bearer_token'' (escapeTomlBasicString (sc_apiKey c))"
  have lines: "toml_head c catalog base @ auth_lines c @ ?ys = ?xs @ [?y] @ ?ys"
    using assms(1) by (simp only: auth_lines_def auth_mode.case append_assoc append_Cons append_Nil)
  have "?xs \<noteq> []" "?ys \<noteq> []" by simp_all
  then have "t = (join_with nl ?xs @ nl) @ ?y @ nl @ join_with nl ?ys"
    unfolding t lines by (rule script_line)
  then have "t = (join_with nl ?xs @ nl) @ ''experimental_bearer_token = '' @ [DQ] @ escapeTomlBasicString (sc_apiKey c) @ DQ # (nl @ join_with nl ?ys)"
    by (simp add: quoted_def)
  then show ?thesis by blast
qed

section \<open>The announced installer\<close>

definition escaped :: "string \<Rightarrow> string" where
  "escaped u = concat (map (\<lambda>c. if c = SQ then [SQ, BS, SQ, SQ] else [c]) u)"

lemma literal_body_escaped: "s = [] \<or> hd s \<noteq> BS \<Longrightarrow> literal_body (escaped u @ SQ # s) = Some (escaped u)"
proof (induction u)
  case Nil
  then show ?case by (auto simp: escaped_def split: list.split)
next
  case (Cons c u)
  then show ?case by (cases "c = SQ") (simp_all add: escaped_def)
qed

lemma unescape_not_quote: "c \<noteq> SQ \<Longrightarrow> unescape_literal (c # s) = c # unescape_literal s"
  by (simp split: list.split)

lemma unescape_quote: "unescape_literal (SQ # BS # SQ # SQ # s) = SQ # unescape_literal s"
  by simp

lemma unescape_escaped: "unescape_literal (escaped u) = u"
proof (induction u)
  case (Cons c u)
  then show ?case
    by (cases "c = SQ") (simp_all add: escaped_def unescape_quote unescape_not_quote del: unescape_literal.simps)
qed (simp add: escaped_def)

lemma starts_with_append: "starts_with (t @ s) t"
  by (simp add: starts_with_def)

lemma contains_append: "contains (a @ t @ s) t"
proof (induction a)
  case Nil
  show ?case by (cases "t @ s") (auto simp: starts_with_def, metis append_eq_conv_conj)
qed simp

lemma find_literal_here: "literal_body s = Some w \<Longrightarrow> find_literal (url_mark @ s) = Some w"
  by (simp add: url_mark_def starts_with_def)

lemma find_literal_skip: "c \<noteq> CHR ''i'' \<Longrightarrow> find_literal (c # s) = find_literal s"
  by (simp add: url_mark_def starts_with_def)

lemma find_literal_after_options: "find_literal (''set -euo pipefail'' @ nl @ s) = find_literal s"
proof -
  have "find_literal (''ipefail'' @ nl @ s) = find_literal s"
    by (simp add: url_mark_def starts_with_def)
  moreover have "find_literal (''set -euo pipefail'' @ nl @ s) = find_literal (''ipefail'' @ nl @ s)"
    by (simp only: append_Cons append_Nil find_literal_skip char.inject simp_thms)
  ultimately show ?thesis by simp
qed

lemma modified_script:
  "join_with nl (MODIFIED_HEAD @ [''installer_url='' @ shellLiteral u] @ MODIFIED_SCRIPT)
     = ''set -euo pipefail'' @ nl @ url_mark @ escaped u @ SQ # (nl @ join_with nl MODIFIED_SCRIPT)"
proof -
  have "MODIFIED_SCRIPT \<noteq> []" by (simp add: MODIFIED_SCRIPT_def)
  then show ?thesis
    using script_line [of MODIFIED_HEAD MODIFIED_SCRIPT "''installer_url='' @ shellLiteral u"]
    by (simp add: MODIFIED_HEAD_def shellLiteral_def escaped_def url_mark_def)
qed

text \<open>
  What the command announces is what it does: for every URL the text shown for the modified installer on macOS and Linux names
  exactly the URL that the script has as its literal, which the shell reads back as the same URL.
\<close>

theorem announced_installer_is_the_one_that_runs:
  assumes "p \<noteq> Windows"
  shows "formatInstallCommand (modifiedInstallCommand u p) = ''download and run '' @ u
    \<and> (\<exists>before rest after. last (cp_args (modifiedInstallCommand u p)) = before @ ''installer_url='' @ rest \<and> sh_word False rest = Some (u, after))"
proof -
  let ?after = "nl @ join_with nl MODIFIED_SCRIPT"
  have cmd: "modifiedInstallCommand u p = \<lparr>cp_command = ''bash'', cp_args = [''-lc'', ''set -euo pipefail'' @ nl @ url_mark @ escaped u @ SQ # ?after]\<rparr>"
    using assms(1) by (simp only: modifiedInstallCommand_def if_False modified_script)
  have "find_literal (''set -euo pipefail'' @ nl @ url_mark @ escaped u @ SQ # ?after) = Some (escaped u)"
    unfolding find_literal_after_options by (rule find_literal_here) (rule literal_body_escaped, simp)
  moreover have "contains (''set -euo pipefail'' @ nl @ url_mark @ escaped u @ SQ # ?after) ''installer_url=''"
    using contains_append [of "''set -euo pipefail'' @ nl" "''installer_url=''" "SQ # escaped u @ SQ # ?after"]
    by (simp only: url_mark_def append_assoc append_Cons append_Nil)
  ultimately have "formatInstallCommand (modifiedInstallCommand u p) = ''download and run '' @ u"
    unfolding cmd formatInstallCommand_def by (simp only: command_plan.simps list.case simp_thms if_True option.case unescape_escaped)
  moreover have "last (cp_args (modifiedInstallCommand u p)) = (''set -euo pipefail'' @ nl) @ ''installer_url='' @ (shellLiteral u @ ?after)"
    unfolding cmd by (simp add: url_mark_def shellLiteral_def escaped_def)
  moreover have "sh_word False (shellLiteral u @ ?after) = Some (u, ?after)"
    by (rule shellLiteral_is_read) (simp add: is_ws_def)
  ultimately show ?thesis by blast
qed

lemma announced_installer_is_the_one_that_runs_witness:
  "formatInstallCommand (modifiedInstallCommand (''https://host/it'' @ [SQ] @ ''s.sh'') Linux) = ''download and run https://host/it'' @ [SQ] @ ''s.sh''"
  using announced_installer_is_the_one_that_runs [of Linux "''https://host/it'' @ [SQ] @ ''s.sh''"] by simp

text \<open>
  The key that the user gave is what a reader of the written TOML gets, as long as it has no line break.
\<close>

theorem written_key_is_read_back:
  assumes "sc_authMode c = Api_key" "buildConfigToml c catalog = Inr t" "CHR 0x0A \<notin> set (sc_apiKey c)"
  shows "\<exists>before rest after. t = before @ ''experimental_bearer_token = '' @ [DQ] @ rest \<and> toml_string rest = Some (sc_apiKey c, after)"
  using key_line [OF assms(1,2)] toml_is_read [OF assms(3)] by blast

definition witness_config :: setup_config where
  "witness_config = \<lparr>sc_baseUrl = ''https://host'', sc_apiKey = ''sk'' @ [DQ, BS], sc_model = ''m'', sc_providerName = '''', sc_authMode = Api_key\<rparr>"

lemma written_key_is_read_back_witness:
  "\<exists>before rest after. projr (buildConfigToml witness_config None) = before @ ''experimental_bearer_token = '' @ [DQ] @ rest
     \<and> toml_string rest = Some (''sk'' @ [DQ, BS], after)"
proof -
  have key: "sc_authMode witness_config = Api_key" "sc_apiKey witness_config = ''sk'' @ [DQ, BS]"
    by (simp_all add: witness_config_def)
  have toml: "buildConfigToml witness_config None = Inr (projr (buildConfigToml witness_config None))" by code_simp
  have "CHR 0x0A \<notin> set (sc_apiKey witness_config)" unfolding key by simp
  then show ?thesis using written_key_is_read_back [OF key(1) toml] unfolding key by blast
qed

text \<open>
  The name of the provider and the model are written without escapes: for this name the reader gets another one, and the rest of
  the line is no TOML.
\<close>

lemma provider_name_is_not_escaped:
  "quoted ''name'' (provider_name (witness_config\<lparr>sc_providerName := ''My '' @ [DQ] @ ''proxy'' @ [DQ]\<rparr>)) = ''name = '' @ [DQ] @ ''My '' @ [DQ] @ ''proxy'' @ [DQ, DQ]"
  "toml_string (''My '' @ [DQ] @ ''proxy'' @ [DQ, DQ]) = Some (''My '', ''proxy'' @ [DQ, DQ])"
  by (simp_all add: quoted_def provider_name_def)

section \<open>The effects of a run\<close>

lemma in_eff_bind [simp]:
  "a \<in> set (fst (eff_bind m f)) \<longleftrightarrow> a \<in> set (fst m) \<or> (\<exists>x. snd m = Inr x \<and> a \<in> set (fst (f x)))"
  by (auto simp: eff_bind_def split: sum.split)

lemma eff_bind_Inr [simp]: "snd (eff_bind m f) = Inr y \<longleftrightarrow> (\<exists>x. snd m = Inr x \<and> snd (f x) = Inr y)"
  by (auto simp: eff_bind_def split: sum.splits)

lemma eff_simps [simp]:
  "fst (eff_return x) = []" "snd (eff_return x) = Inr x" "fst (eff_lift r) = []" "snd (eff_lift r) = r"
  "fst (say ls) = map Say ls" "snd (say ls) = Inr ()"
  "fst (outcome a answer) = [a]" "snd (outcome a answer) = Inr u \<longleftrightarrow> answer = None"
  by (simp_all add: eff_return_def eff_lift_def say_def outcome_def split: option.split)

definition touches :: "action \<Rightarrow> bool" where
  "touches a \<longleftrightarrow> (case a of Fetch _ _ \<Rightarrow> True | Mkdir _ \<Rightarrow> True | Write _ _ \<Rightarrow> True | _ \<Rightarrow> False)"

definition only_talks :: "action \<Rightarrow> bool" where
  "only_talks a \<longleftrightarrow> (case a of Say _ \<Rightarrow> True | Complain _ \<Rightarrow> True | _ \<Rightarrow> False)"

lemma install_all_result:
  "snd (install_all U cs) = Inr () \<Longrightarrow> c \<in> set cs \<Longrightarrow> ot_run U c = None \<and> Perform c \<in> set (fst (install_all U cs))"
  by (induction cs) (auto simp: runCommand_def)

lemma install_all_quiet: "a \<in> set (fst (install_all U cs)) \<Longrightarrow> \<not> touches a"
  by (induction cs) (auto simp: runCommand_def touches_def)

lemma install_client_result:
  "snd (install_client U p) = Inr () \<Longrightarrow> c \<in> set (install_commands p) \<Longrightarrow> ot_run U c = None \<and> Perform c \<in> set (fst (install_client U p))"
  by (auto simp: install_client_def install_commands_def install_all_result split: option.splits if_splits)

lemma install_client_quiet: "a \<in> set (fst (install_client U p)) \<Longrightarrow> \<not> touches a"
  by (auto simp: install_client_def touches_def dest: install_all_quiet split: option.splits if_splits)

text \<open>The directory that was announced is the one that is written to.\<close>

lemma home_config_dir:
  assumes "ma_platform M \<noteq> ''win32''" "codexConfigDir M (ma_platform M) explicit = Inr d" "codexConfigDir M (ma_platform M) (Some d) = Inr d'"
  shows "d' = d"
proof (cases "explicit = None \<and> env_or M ''CODEX_HOME'' '''' = ''''")
  case True
  then have d: "d = posix_join (ma_home M) ''.codex''"
    using assms(1,2) by (simp add: codexConfigDir_def join_path_def detectPlatform_cases)
  have "is_absolute d" "d' = posix_resolve d"
    using assms(1,3) by (auto simp: codexConfigDir_def resolveDirectory_def split: if_splits)
  then show ?thesis unfolding d using posix_join_resolve [of "ma_home M" "''.codex''"] by simp
next
  case False
  then obtain v where "resolveDirectory M v (ma_platform M) = Inr d"
    using assms(2) by (auto simp: codexConfigDir_def split: option.splits if_splits)
  then show ?thesis
    using resolveDirectory_idem(1) [OF assms(1)] assms(3) by (simp add: codexConfigDir_def)
qed

lemma write_result:
  assumes "snd (writeCodexConfig M U c catalog home) = Inr w" "codexConfigDir M (ma_platform M) home = Inr dir"
  shows "\<exists>file toml. buildConfigToml c file = Inr toml \<and> Write (join_path M dir ''config.toml'') toml \<in> set (fst (writeCodexConfig M U c catalog home))"
  using assms by (auto simp: writeCodexConfig_def writeFile_def Let_def)

lemma prepared_directory: "prepare_setup M v = Inr p \<Longrightarrow> codexConfigDir M (ma_platform M) (cv_codex_home v) = Inr (pr_directory p)"
  by (auto simp: prepare_setup_def)

lemma real_run_result:
  assumes "snd (real_run M U v p) = Inr ()" "prepare_setup M v = Inr p" "ma_platform M \<noteq> ''win32''"
  shows "\<exists>file toml. buildConfigToml (setup_config_of v p) file = Inr toml
    \<and> Write (join_path M (pr_directory p) ''config.toml'') toml \<in> set (fst (real_run M U v p))"
proof -
  obtain catalog w where steps: "snd (install_client U p) = Inr ()"
      "snd (loadCodexModelCatalog U (pr_base p) (the (cv_api_key v)) (cv_model v)) = Inr catalog"
      "snd (writeCodexConfig M U (setup_config_of v p) catalog (Some (pr_directory p))) = Inr w"
    using assms(1) by (auto simp: real_run_def)
  then obtain dir where dir: "codexConfigDir M (ma_platform M) (Some (pr_directory p)) = Inr dir"
    by (auto simp: writeCodexConfig_def)
  then have "dir = pr_directory p"
    using home_config_dir [OF assms(3) prepared_directory [OF assms(2)]] by blast
  then show ?thesis
    using write_result [OF steps(3) dir] steps by (auto simp: real_run_def)
qed

lemma real_run_touches:
  assumes a: "a \<in> set (fst (real_run M U v p))" "touches a" and c: "c \<in> set (install_commands p)"
  shows "ot_run U c = None \<and> Perform c \<in> set (fst (real_run M U v p))"
proof -
  obtain rest where run: "real_run M U v p = eff_bind (install_client U p) rest"
    unfolding real_run_def by blast
  have "a \<notin> set (fst (install_client U p))" using a(2) install_client_quiet by blast
  then have "snd (install_client U p) = Inr ()" using a(1) unfolding run in_eff_bind by auto
  then show ?thesis using install_client_result c unfolding run in_eff_bind by blast
qed

text \<open>A run up to its exit code.\<close>

lemma setup_run_cases:
  assumes "setup_run M U (Inr v) = (acts, code)"
  obtains e where "snd (setup_main M U (Inr v)) = Inl e" "acts = fst (setup_main M U (Inr v)) @ [Complain (thrown_text e)]" "code = 1"
  | "snd (setup_main M U (Inr v)) = Inr code" "acts = fst (setup_main M U (Inr v))"
proof (cases "setup_main M U (Inr v)")
  case (Pair as r)
  show ?thesis
  proof (cases r)
    case (Inl e)
    then have "(as @ [Complain (thrown_text e)], 1) = (acts, code)"
      using assms unfolding setup_run_def Pair by (simp only: prod.case sum.case)
    then have eq: "as @ [Complain (thrown_text e)] = acts" "1 = code" by blast+
    show ?thesis by (rule that(1) [of e]) (simp_all only: Pair Inl fst_conv snd_conv eq [symmetric])
  next
    case (Inr c)
    then have "(as, c) = (acts, code)"
      using assms unfolding setup_run_def Pair by (simp only: prod.case sum.case)
    then have eq: "as = acts" "c = code" by blast+
    show ?thesis by (rule that(2)) (simp_all only: Pair Inr fst_conv snd_conv eq)
  qed
qed

lemma main_acts:
  assumes "a \<in> set (fst (setup_main M U (Inr v)))"
  shows "only_talks a \<or> (\<not> cv_dry_run v \<and> (\<exists>p. prepare_setup M v = Inr p \<and> a \<in> set (fst (real_run M U v p))))"
  using assms by (auto simp: setup_main_def only_talks_def split: if_splits)

lemma main_real_run:
  assumes "a \<in> set (fst (setup_main M U (Inr v)))" "touches a"
  shows "\<exists>p. prepare_setup M v = Inr p \<and> a \<in> set (fst (real_run M U v p)) \<and> set (fst (real_run M U v p)) \<subseteq> set (fst (setup_main M U (Inr v)))"
  using assms by (auto simp: setup_main_def touches_def split: if_splits)

lemma main_success:
  assumes "snd (setup_main M U (Inr v)) = Inr 0" "\<not> cv_version v" "\<not> cv_help v" "\<not> cv_dry_run v"
  shows "\<exists>p. prepare_setup M v = Inr p \<and> snd (real_run M U v p) = Inr () \<and> set (fst (real_run M U v p)) \<subseteq> set (fst (setup_main M U (Inr v)))"
  using assms by (auto simp: setup_main_def split: if_splits)


definition witness_outside :: outside where
  "witness_outside = \<lparr>ot_run = (\<lambda>_. None), ot_fetch = (\<lambda>_ _. Inr (Inl 404)), ot_mkdir = (\<lambda>_. None), ot_write = (\<lambda>_. None),
     ot_pretty = (\<lambda>_. ''''), ot_version = ''1''\<rparr>"

definition witness_values :: cli_values where
  "witness_values = cli_defaults\<lparr>cv_base_url := Some ''https://host'', cv_api_key := Some ''sk'', cv_no_install := True\<rparr>"

lemma witness_prepared:
  "prepare_setup witness_machine witness_values = Inr \<lparr>pr_base = ''https://host/v1'', pr_auth = Api_key, pr_source = Official, pr_client = Desktop,
     pr_directory = ''/home/u/.codex'', pr_dir = None, pr_plan = None\<rparr>"
  by code_simp

lemma witness_run: "snd (setup_run witness_machine witness_outside (Inr witness_values)) = 0"
proof -
  let ?p = "\<lparr>pr_base = ''https://host/v1'', pr_auth = Api_key, pr_source = Official, pr_client = Desktop,
     pr_directory = ''/home/u/.codex'', pr_dir = None, pr_plan = None\<rparr>"
  have dir: "codexConfigDir witness_machine (ma_platform witness_machine) (Some ''/home/u/.codex'') = Inr ''/home/u/.codex''" by code_simp
  have base: "normalizeBaseUrl ''https://host/v1'' = Inr ''https://host/v1''" by code_simp
  have "snd (real_run witness_machine witness_outside witness_values ?p) = Inr ()"
    by (simp add: real_run_def install_client_def loadCodexModelCatalog_def writeCodexConfig_def dir witness_outside_def setup_config_of_def
        buildConfigToml_def base writeFile_def write_catalog_def announce_home_def announce_bin_def witness_values_def cli_defaults_def given_def Let_def)
  then have "snd (setup_main witness_machine witness_outside (Inr witness_values)) = Inr 0"
    using witness_prepared by (simp add: setup_main_def witness_values_def cli_defaults_def given_def)
  then show ?thesis
    by (cases "setup_main witness_machine witness_outside (Inr witness_values)") (simp only: setup_run_def prod.case snd_conv sum.case)
qed


end
