(* ===== verification/Admin_Api.thy ===== *)
theory Admin_Api
  imports Js_Uri "HOL-Library.AList"
begin

text \<open>
  The first half of \<^verbatim>\<open>skills/sub2api-admin/scripts/sub2api-admin.js\<close>: the arguments, the query of a URL and the requests to the
  administration API. A command is a function of the events so far; what the API answers to a request may depend on all of them.
  The value of an option is \<^verbatim>\<open>true\<close>, a string, or an array of both. Options and subcommands named like a member of \<^verbatim>\<open>Object.prototype\<close> and
  infinite numbers are left out.
\<close>

section \<open>Arguments\<close>

type_synonym flags = "(string \<times> json) list"

record admin_args =
  aa_positional :: "string list"
  aa_flags :: flags

definition add_flag :: "string \<Rightarrow> string \<Rightarrow> flags \<Rightarrow> flags" where
  "add_flag k v fs = AList.update k (case map_of fs k of None \<Rightarrow> JStr v | Some (JArr xs) \<Rightarrow> JArr (xs @ [JStr v]) | Some w \<Rightarrow> JArr [w, JStr v]) fs"

fun parse_tokens :: "string list \<Rightarrow> admin_args \<Rightarrow> admin_args" where
  "parse_tokens [] a = a"
| "parse_tokens (t # ts) a =
     (if starts_with t ''--'' then
        (case ts of
           [] \<Rightarrow> a\<lparr>aa_flags := AList.update (drop 2 t) (JBool True) (aa_flags a)\<rparr>
         | n # rest \<Rightarrow>
             if n = '''' \<or> starts_with n ''--'' then parse_tokens ts (a\<lparr>aa_flags := AList.update (drop 2 t) (JBool True) (aa_flags a)\<rparr>)
             else parse_tokens rest (a\<lparr>aa_flags := add_flag (drop 2 t) n (aa_flags a)\<rparr>))
      else parse_tokens ts (a\<lparr>aa_positional := aa_positional a @ [t]\<rparr>))"

definition parse_admin_args :: "string list \<Rightarrow> admin_args" where
  "parse_admin_args argv = parse_tokens argv \<lparr>aa_positional = [], aa_flags = []\<rparr>"

definition flag :: "admin_args \<Rightarrow> string \<Rightarrow> json option" where
  "flag a k = map_of (aa_flags a) k"

definition arg :: "admin_args \<Rightarrow> nat \<Rightarrow> string option" where
  "arg a n = (if n < length (aa_positional a) then Some (aa_positional a ! n) else None)"

section \<open>The environment and its events\<close>

datatype admin_event =
    Request string string "(string \<times> string) list" "json option"
  | Print "json option"
  | Print_text string
  | Write_file string string

record admin_env =
  ae_base :: string  \<comment> \<open>\<^verbatim>\<open>SUB2API_BASE_URL\<close>\<close>
  ae_key :: string  \<comment> \<open>\<^verbatim>\<open>SUB2API_ADMIN_API_KEY\<close>\<close>
  ae_jwt :: string  \<comment> \<open>\<^verbatim>\<open>SUB2API_JWT\<close>\<close>
  ae_js :: js_env
  ae_pretty :: "json option \<Rightarrow> string"
  ae_answer :: "admin_event list \<Rightarrow> thrown + bool \<times> string \<times> string"  \<comment> \<open>\<^verbatim>\<open>res.ok\<close>, \<^verbatim>\<open>res.statusText\<close>, the text\<close>
  ae_read :: "string \<Rightarrow> thrown + string"
  ae_write :: "string \<Rightarrow> thrown option"
  ae_resolve :: "string \<Rightarrow> string"

type_synonym 'a cmd = "admin_event list \<Rightarrow> (thrown + 'a) \<times> admin_event list"

definition cmd_return :: "'a \<Rightarrow> 'a cmd" where
  "cmd_return x tr = (Inr x, tr)"

definition cmd_throw :: "thrown \<Rightarrow> 'a cmd" where
  "cmd_throw e tr = (Inl e, tr)"

definition cmd_lift :: "thrown + 'a \<Rightarrow> 'a cmd" where
  "cmd_lift r tr = (r, tr)"

definition cmd_bind :: "'a cmd \<Rightarrow> ('a \<Rightarrow> 'b cmd) \<Rightarrow> 'b cmd" where
  "cmd_bind m f tr = (case m tr of (Inl e, tr') \<Rightarrow> (Inl e, tr') | (Inr x, tr') \<Rightarrow> f x tr')"

definition emit :: "admin_event \<Rightarrow> unit cmd" where
  "emit e tr = (Inr (), tr @ [e])"

section \<open>Requests\<close>

definition base_url :: "admin_env \<Rightarrow> string" where
  "base_url E = (if ae_base E \<noteq> '''' \<and> last (ae_base E) = CHR ''/'' then butlast (ae_base E) else ae_base E)"

definition authHeaders :: "admin_env \<Rightarrow> thrown + (string \<times> string) list" where
  "authHeaders E =
     (if base_url E = '''' then Inl (plain_error ''Missing SUB2API_BASE_URL'')
      else if ae_key E \<noteq> '''' then Inr [(''x-api-key'', ae_key E)]
      else if ae_jwt E \<noteq> '''' then Inr [(''Authorization'', ''Bearer '' @ ae_jwt E)]
      else Inl (plain_error ''Missing SUB2API_ADMIN_API_KEY or SUB2API_JWT''))"

definition request_headers :: "(string \<times> string) list \<Rightarrow> string \<Rightarrow> (string \<times> string) list \<Rightarrow> json option \<Rightarrow> (string \<times> string) list" where
  "request_headers auth accept extra body =
     (let h = fold (\<lambda>(k, v) m. AList.update k v m) extra (AList.update ''Accept'' accept auth)
      in if body = None then h else AList.update ''Content-Type'' ''application/json'' h)"

definition send_request :: "admin_env \<Rightarrow> string \<Rightarrow> string \<Rightarrow> string \<Rightarrow> json option \<Rightarrow> (string \<times> string) list \<Rightarrow> (bool \<times> string \<times> string) cmd" where
  "send_request E accept method path body extra =
     cmd_bind (cmd_lift (authHeaders E)) (\<lambda>auth.
     cmd_bind (emit (Request method (base_url E @ path) (request_headers auth accept extra body) body)) (\<lambda>_.
     \<lambda>tr. (ae_answer E tr, tr)))"

definition text_of :: "admin_env \<Rightarrow> json option \<Rightarrow> string" where
  "text_of E v = (case v of None \<Rightarrow> ''undefined'' | Some w \<Rightarrow> js_string (je_num (ae_js E)) w)"

definition read_prop :: "json option \<Rightarrow> string \<Rightarrow> thrown + json option" where
  "read_prop v k = (if nullish v then Inl (type_error (''Cannot read properties of undefined or null (reading '' @ k @ '')'')) else Inr (ogetp v k))"

definition or_else :: "json option \<Rightarrow> json option \<Rightarrow> json option" where
  "or_else a b = (if truthy a then a else b)"

definition failed :: "string \<Rightarrow> string \<Rightarrow> string \<Rightarrow> thrown" where
  "failed method path detail = plain_error (method @ '' '' @ path @ '' failed: '' @ detail)"

definition refused :: "json \<Rightarrow> bool" where
  "refused d \<longleftrightarrow> truthy (Some d) \<and> getp d ''code'' \<noteq> None \<and> getp d ''code'' \<noteq> Some (JNum 0) \<and> getp d ''code'' \<noteq> Some (JStr ''0'')"

definition answer_data :: "admin_env \<Rightarrow> string \<Rightarrow> json" where
  "answer_data E text = (case je_parse (ae_js E) text of Some d \<Rightarrow> d | None \<Rightarrow> JObj [(''raw'', JStr text)])"

definition api_result :: "admin_env \<Rightarrow> string \<Rightarrow> string \<Rightarrow> bool \<times> string \<times> string \<Rightarrow> thrown + json option" where
  "api_result E method path r = (case r of (fine, status, text) \<Rightarrow>
     let d = answer_data E text in
     if \<not> fine \<or> refused d
     then bind_js (read_prop (Some d) ''message'') (\<lambda>m.
       Inl (failed method path (text_of E (or_else (or_else m (getp d ''code'')) (Some (JStr status))))))
     else read_prop (Some d) ''data'')"

definition apiRequest :: "admin_env \<Rightarrow> string \<Rightarrow> string \<Rightarrow> json option \<Rightarrow> (string \<times> string) list \<Rightarrow> json option cmd" where
  "apiRequest E method path body extra =
     cmd_bind (send_request E ''application/json'' method path body extra) (\<lambda>r. cmd_lift (api_result E method path r))"

definition raw_detail :: "admin_env \<Rightarrow> string \<Rightarrow> string \<Rightarrow> string" where
  "raw_detail E status text = (case je_parse (ae_js E) text of
     None \<Rightarrow> if text \<noteq> '''' then text else status
   | Some JNull \<Rightarrow> if text \<noteq> '''' then text else status
   | Some d \<Rightarrow> text_of E (or_else (or_else (getp d ''message'') (getp d ''code'')) (Some (JStr status))))"

definition apiRawRequest :: "admin_env \<Rightarrow> string \<Rightarrow> string \<Rightarrow> json option \<Rightarrow> (string \<times> string) list \<Rightarrow> string cmd" where
  "apiRawRequest E method path body extra =
     cmd_bind (send_request E ''*/*'' method path body extra) (\<lambda>r. case r of (fine, status, text) \<Rightarrow>
       if fine then cmd_return text else cmd_throw (failed method path (raw_detail E status text)))"

text \<open>Values that are left out of a query, and the query.\<close>

definition left_out :: "json option \<Rightarrow> bool" where
  "left_out v \<longleftrightarrow> v = None \<or> v = Some JNull \<or> v = Some (JBool False) \<or> v = Some (JStr '''')"

definition query_pairs :: "admin_env \<Rightarrow> (string \<times> json option) list \<Rightarrow> (string \<times> string) list" where
  "query_pairs E ps = map (\<lambda>(k, v). (k, text_of E v)) (filter (\<lambda>(k, v). \<not> left_out v) ps)"

definition encodeQuery :: "admin_env \<Rightarrow> (string \<times> json option) list \<Rightarrow> string" where
  "encodeQuery E ps =
     (let qs = map (\<lambda>(k, t). encodeURIComponent k @ ''='' @ encodeURIComponent t) (query_pairs E ps)
      in if qs = [] then '''' else ''?'' @ join_with ''&'' qs)"

definition normalizeAdminPath :: "string \<Rightarrow> string" where
  "normalizeAdminPath p0 = (let p = (if starts_with p0 ''/'' then p0 else ''/'' @ p0)
     in if starts_with p ''/api/v1/admin/'' then p else if starts_with p ''/admin/'' then ''/api/v1'' @ p else p)"

definition adminRequest :: "admin_env \<Rightarrow> string \<Rightarrow> string \<Rightarrow> json option \<Rightarrow> json option cmd" where
  "adminRequest E method path body = apiRequest E method (normalizeAdminPath path) body []"

definition adminRequestWithHeaders :: "admin_env \<Rightarrow> string \<Rightarrow> string \<Rightarrow> json option \<Rightarrow> (string \<times> string) list \<Rightarrow> json option cmd" where
  "adminRequestWithHeaders E method path body extra = apiRequest E method (normalizeAdminPath path) body extra"

definition adminRawRequest :: "admin_env \<Rightarrow> string \<Rightarrow> string \<Rightarrow> string cmd" where
  "adminRawRequest E method path = apiRawRequest E method (normalizeAdminPath path) None []"

section \<open>Values of options\<close>

definition asArray :: "json option \<Rightarrow> json list" where
  "asArray v = (case v of None \<Rightarrow> [] | Some (JArr xs) \<Rightarrow> xs | Some w \<Rightarrow> [w])"

definition parseBool :: "json option \<Rightarrow> string \<Rightarrow> thrown + bool" where
  "parseBool v nm =
     (if v \<in> {Some (JBool True), Some (JStr ''true''), Some (JStr ''1''), Some (JStr ''yes'')} then Inr True
      else if v \<in> {Some (JBool False), Some (JStr ''false''), Some (JStr ''0''), Some (JStr ''no'')} then Inr False
      else Inl (plain_error (nm @ '' must be true or false'')))"

definition parse_id :: "admin_env \<Rightarrow> string \<Rightarrow> thrown + rat" where
  "parse_id E t = (case je_number (ae_js E) t of None \<Rightarrow> Inl (plain_error (''invalid id: '' @ t)) | Some q \<Rightarrow> Inr q)"

definition parseIds :: "admin_env \<Rightarrow> json option \<Rightarrow> thrown + rat list" where
  "parseIds E v =
     (if \<not> truthy v then Inl (plain_error ''requires --ids'')
      else map_js (parse_id E) (filter (\<lambda>t. t \<noteq> '''') (map trim (split_on CHR '','' (text_of E v)))))"

definition ids_value :: "admin_env \<Rightarrow> json option \<Rightarrow> thrown + json" where
  "ids_value E v = bind_js (parseIds E v) (\<lambda>qs. Inr (JArr (map JNum qs)))"

definition parse_text :: "admin_env \<Rightarrow> string \<Rightarrow> thrown + json" where
  "parse_text E t = (case je_parse (ae_js E) t of None \<Rightarrow> Inl (js_error_of ''SyntaxError'' ''Unexpected token'') | Some d \<Rightarrow> Inr d)"

text \<open>\<^verbatim>\<open>path.resolve\<close> takes strings only.\<close>

definition file_path :: "admin_env \<Rightarrow> json option \<Rightarrow> thrown + string" where
  "file_path E v = (case str_of v of None \<Rightarrow> Inl (type_error ''The path argument must be of type string'') | Some t \<Rightarrow> Inr (ae_resolve E t))"

definition read_json_file :: "admin_env \<Rightarrow> json option \<Rightarrow> thrown + json" where
  "read_json_file E v = bind_js (file_path E v) (\<lambda>p. bind_js (ae_read E p) (parse_text E))"

definition readJsonPayload :: "admin_env \<Rightarrow> admin_args \<Rightarrow> bool \<Rightarrow> thrown + json option" where
  "readJsonPayload E a required =
     (if flag a ''json'' \<noteq> None then bind_js (parse_text E (text_of E (flag a ''json''))) (\<lambda>d. Inr (Some d))
      else if flag a ''file'' \<noteq> None then bind_js (read_json_file E (flag a ''file'')) (\<lambda>d. Inr (Some d))
      else if required then Inl (plain_error ''requires --json or --file'') else Inr None)"

text \<open>\<^verbatim>\<open>Number(flag || d)\<close>, and its value in a query.\<close>

definition number_flag :: "admin_env \<Rightarrow> admin_args \<Rightarrow> string \<Rightarrow> rat \<Rightarrow> rat option" where
  "number_flag E a k d = js_Number (ae_js E) (or_else (flag a k) (Some (JNum d)))"

definition number_param :: "rat option \<Rightarrow> json option" where
  "number_param v = (case v of None \<Rightarrow> Some (JStr ''NaN'') | Some q \<Rightarrow> Some (JNum q))"

definition number_or :: "rat option \<Rightarrow> rat \<Rightarrow> json option" where
  "number_or v d = (case v of None \<Rightarrow> Some (JNum d) | Some q \<Rightarrow> Some (JNum (if q = 0 then d else q)))"

section \<open>The query is read back\<close>

text \<open>How a server reads a query: the parts at the ampersands, each split at its first equals sign and decoded.\<close>

definition read_pair :: "string \<Rightarrow> bytes \<times> bytes" where
  "read_pair w = (uri_bytes (takeWhile (\<lambda>c. c \<noteq> CHR ''='') w), uri_bytes (tl (dropWhile (\<lambda>c. c \<noteq> CHR ''='') w)))"

definition read_query :: "string \<Rightarrow> (bytes \<times> bytes) list" where
  "read_query q = (if q = '''' then [] else map read_pair (split_on CHR ''&'' (tl q)))"

lemma read_pair_encoded: "read_pair (encodeURIComponent k @ ''='' @ encodeURIComponent t) = (utf8 k, utf8 t)"
proof -
  have k: "\<And>c. c \<in> set (encodeURIComponent k) \<Longrightarrow> c \<noteq> CHR ''=''" using encoded_no_separator(1) [of k] by auto
  have "takeWhile (\<lambda>c. c \<noteq> CHR ''='') (encodeURIComponent k @ CHR ''='' # encodeURIComponent t) = encodeURIComponent k"
    "dropWhile (\<lambda>c. c \<noteq> CHR ''='') (encodeURIComponent k @ CHR ''='' # encodeURIComponent t) = CHR ''='' # encodeURIComponent t"
    using k by (simp_all add: takeWhile_append2 dropWhile_append2)
  then show ?thesis by (simp add: read_pair_def uri_bytes_encode)
qed

text \<open>
  A server reads exactly the options that were not left out, whatever characters their values have: none of them can add a
  parameter or change another one.
\<close>

theorem query_is_read_back:
  "read_query (encodeQuery E ps) = map (\<lambda>(k, t). (utf8 k, utf8 t)) (query_pairs E ps)"
proof (cases "query_pairs E ps")
  case (Cons p qs)
  let ?f = "\<lambda>(k, t). encodeURIComponent k @ ''='' @ encodeURIComponent t"
  have "\<forall>w \<in> set (map ?f (query_pairs E ps)). CHR ''&'' \<notin> set w"
    using encoded_no_separator(5) by auto
  then have "split_on CHR ''&'' (join_with ''&'' (map ?f (query_pairs E ps))) = map ?f (query_pairs E ps)"
    using Cons by (intro split_on_join) auto
  then have "read_query (encodeQuery E ps) = map read_pair (map ?f (query_pairs E ps))"
    using Cons by (simp add: encodeQuery_def read_query_def Let_def)
  then show ?thesis by (auto simp: read_pair_encoded [simplified])
qed (simp add: encodeQuery_def read_query_def)

end
