(* ===== verification/Admin_Commands.thy ===== *)
theory Admin_Commands
  imports Admin_Api
begin

text \<open>
  The commands of \<^verbatim>\<open>sub2api-admin.js\<close>. A subcommand is found in a table, as the code goes through its comparisons; the commands
  that do more than one request follow the code step by step.
\<close>

section \<open>Objects\<close>

text \<open>An object literal: members that are undefined are not written.\<close>

definition object :: "(string \<times> json option) list \<Rightarrow> json" where
  "object kvs = JObj (concat (map (\<lambda>(k, v). case v of None \<Rightarrow> [] | Some w \<Rightarrow> [(k, w)]) kvs))"

definition put_prop :: "string \<Rightarrow> json option \<Rightarrow> (string \<times> json) list \<Rightarrow> (string \<times> json) list" where
  "put_prop k v kvs = (case v of None \<Rightarrow> AList.delete k kvs | Some w \<Rightarrow> AList.update k w kvs)"

text \<open>\<^verbatim>\<open>...value\<close> in an object literal: arrays and strings give their indices.\<close>

definition spread_object :: "json option \<Rightarrow> (string \<times> json) list" where
  "spread_object v = (case v of
     Some (JObj kvs) \<Rightarrow> kvs
   | Some (JArr xs) \<Rightarrow> zip (map show_nat [0..<length xs]) xs
   | Some (JStr s) \<Rightarrow> zip (map show_nat [0..<length s]) (map (\<lambda>c. JStr [c]) s)
   | _ \<Rightarrow> [])"

text \<open>\<^verbatim>\<open>===\<close>: objects and arrays of different origin are never the same.\<close>

definition same_value :: "json option \<Rightarrow> json option \<Rightarrow> bool" where
  "same_value v w \<longleftrightarrow> v = w \<and> obj_of v = None \<and> arr_of v = None"

definition print_result :: "json option cmd \<Rightarrow> unit cmd" where
  "print_result m = cmd_bind m (\<lambda>d. emit (Print d))"

section \<open>Accounts and codes\<close>

definition list_params :: "admin_env \<Rightarrow> rat option \<Rightarrow> rat option \<Rightarrow> json option \<Rightarrow> json option \<Rightarrow> bool \<Rightarrow> (string \<times> json option) list \<Rightarrow> (string \<times> json option) list" where
  "list_params E page psize by order lite filters =
     [(''page'', number_or page 1), (''page_size'', number_or psize 200), (''sort_by'', or_else by (Some (JStr ''name''))),
      (''sort_order'', or_else order (Some (JStr ''asc''))), (''lite'', if lite then Some (JNum 1) else None)] @ filters"

definition listAccounts :: "admin_env \<Rightarrow> rat option \<Rightarrow> rat option \<Rightarrow> json option \<Rightarrow> json option \<Rightarrow> bool \<Rightarrow> (string \<times> json option) list \<Rightarrow> json option cmd" where
  "listAccounts E page psize by order lite filters =
     apiRequest E ''GET'' (''/api/v1/admin/accounts'' @ encodeQuery E (list_params E page psize by order lite filters)) None []"

definition account_filters :: "admin_args \<Rightarrow> (string \<times> json option) list" where
  "account_filters a = [(''search'', flag a ''search''), (''platform'', flag a ''platform''), (''type'', flag a ''type''), (''status'', flag a ''status''),
     (''group'', flag a ''group''), (''privacy_mode'', flag a ''privacy-mode'')]"

definition list_accounts_command :: "admin_env \<Rightarrow> admin_args \<Rightarrow> unit cmd" where
  "list_accounts_command E a =
     cmd_bind (cmd_lift (if flag a ''lite'' = None then Inr True else parseBool (flag a ''lite'') ''--lite'')) (\<lambda>lite.
     print_result (listAccounts E (number_flag E a ''page'' 1) (number_flag E a ''page-size'' 200)
       (or_else (flag a ''sort-by'') (Some (JStr ''name''))) (or_else (flag a ''sort-order'') (Some (JStr ''asc''))) lite (account_filters a)))"

definition list_first :: "admin_env \<Rightarrow> rat option \<Rightarrow> json option cmd" where
  "list_first E psize = listAccounts E None psize None None True []"

definition redeemCodesQuery :: "admin_env \<Rightarrow> admin_args \<Rightarrow> string" where
  "redeemCodesQuery E a = encodeQuery E
     [(''page'', number_param (number_flag E a ''page'' 1)), (''page_size'', number_param (number_flag E a ''page-size'' 200)),
      (''type'', flag a ''type''), (''status'', flag a ''status''), (''search'', flag a ''search''),
      (''sort_by'', or_else (flag a ''sort-by'') (Some (JStr ''id''))), (''sort_order'', or_else (flag a ''sort-order'') (Some (JStr ''desc'')))]"

definition idempotencyHeaders :: "admin_env \<Rightarrow> admin_args \<Rightarrow> (string \<times> string) list" where
  "idempotencyHeaders E a = (if truthy (flag a ''idempotency-key'') then [(''Idempotency-Key'', text_of E (flag a ''idempotency-key''))] else [])"

definition join_ids :: "admin_env \<Rightarrow> rat list \<Rightarrow> string" where
  "join_ids E qs = join_with '','' (map (je_num (ae_js E)) qs)"

definition data_params :: "admin_env \<Rightarrow> admin_args \<Rightarrow> thrown + (string \<times> json option) list" where
  "data_params E a =
     (if truthy (flag a ''ids'') then bind_js (parseIds E (flag a ''ids'')) (\<lambda>qs. Inr [(''ids'', Some (JStr (join_ids E qs)))])
      else Inr (map (\<lambda>(f, p). (p, if truthy (flag a f) then flag a f else None))
        [(''platform'', ''platform''), (''type'', ''type''), (''status'', ''status''), (''group'', ''group''), (''search'', ''search''),
         (''privacy-mode'', ''privacy_mode''), (''sort-by'', ''sort_by''), (''sort-order'', ''sort_order'')]))"

definition accountData :: "admin_env \<Rightarrow> admin_args \<Rightarrow> json option cmd" where
  "accountData E a =
     cmd_bind (cmd_lift (data_params E a)) (\<lambda>ps.
     cmd_bind (cmd_lift (if flag a ''include-proxies'' = None then Inr None
       else bind_js (parseBool (flag a ''include-proxies'') ''--include-proxies'') (\<lambda>b. Inr (Some (JStr (if b then ''true'' else ''false'')))))) (\<lambda>inc.
     adminRequest E ''GET'' (''/admin/accounts/data'' @ encodeQuery E (ps @ [(''include_proxies'', inc)])) None))"

definition write_file :: "admin_env \<Rightarrow> string \<Rightarrow> string \<Rightarrow> unit cmd" where
  "write_file E p t = cmd_bind (emit (Write_file p t)) (\<lambda>_. cmd_lift (case ae_write E p of None \<Rightarrow> Inr () | Some e \<Rightarrow> Inl e))"

definition export_accounts :: "admin_env \<Rightarrow> admin_args \<Rightarrow> unit cmd" where
  "export_accounts E a =
     cmd_bind (accountData E a) (\<lambda>d.
     if truthy (flag a ''file'') then
       cmd_bind (cmd_lift (file_path E (flag a ''file''))) (\<lambda>p.
       cmd_bind (if d = None then cmd_throw (type_error ''The data argument must be of type string'') else write_file E p (ae_pretty E d)) (\<lambda>_.
       cmd_bind (cmd_lift (case arr_of d of Some xs \<Rightarrow> Inr (Some (JNum (of_nat (length xs)))) | None \<Rightarrow> read_prop d ''count'')) (\<lambda>n.
       emit (Print (Some (object [(''file'', Some (JStr p)), (''count'', n)]))))))
     else emit (Print d))"

definition import_data :: "admin_env \<Rightarrow> admin_args \<Rightarrow> unit cmd" where
  "import_data E a =
     (if \<not> truthy (flag a ''file'') then cmd_throw (plain_error ''accounts import-data requires --file'')
      else cmd_bind (cmd_lift (read_json_file E (flag a ''file''))) (\<lambda>d.
        print_result (adminRequest E ''POST'' ''/admin/accounts/data''
          (Some (JObj [(''data'', d), (''skip_default_group_bind'', JBool (truthy (flag a ''skip-default-group-bind'')))])))))"

section \<open>Commands of one request\<close>

text \<open>\<^verbatim>\<open>if (!id) throw\<close>; the identifier goes into the path as it is.\<close>

definition with_id :: "admin_args \<Rightarrow> string \<Rightarrow> (string \<Rightarrow> unit cmd) \<Rightarrow> unit cmd" where
  "with_id a what f = (case arg a 2 of None \<Rightarrow> cmd_throw (plain_error (what @ '' requires <id>''))
     | Some i \<Rightarrow> if i = '''' then cmd_throw (plain_error (what @ '' requires <id>'')) else f i)"

definition by_id :: "admin_env \<Rightarrow> string \<Rightarrow> string \<Rightarrow> string \<Rightarrow> string \<Rightarrow> string \<Rightarrow> admin_args \<Rightarrow> unit cmd" where
  "by_id E what nm method base suffix a = with_id a (what @ '' '' @ nm) (\<lambda>i. print_result (adminRequest E method (base @ ''/'' @ i @ suffix) None))"

definition with_payload :: "admin_env \<Rightarrow> string \<Rightarrow> string \<Rightarrow> admin_args \<Rightarrow> unit cmd" where
  "with_payload E method path a = cmd_bind (cmd_lift (readJsonPayload E a True)) (\<lambda>d. print_result (adminRequest E method path d))"

definition payload_by_id :: "admin_env \<Rightarrow> string \<Rightarrow> string \<Rightarrow> string \<Rightarrow> string \<Rightarrow> string \<Rightarrow> admin_args \<Rightarrow> unit cmd" where
  "payload_by_id E what nm method base suffix a = with_id a (what @ '' '' @ nm) (\<lambda>i. with_payload E method (base @ ''/'' @ i @ suffix) a)"

definition with_ids :: "admin_env \<Rightarrow> string \<Rightarrow> string \<Rightarrow> admin_args \<Rightarrow> unit cmd" where
  "with_ids E path key a = cmd_bind (cmd_lift (ids_value E (flag a ''ids''))) (\<lambda>ids. print_result (adminRequest E ''POST'' path (Some (JObj [(key, ids)]))))"

abbreviation ACCOUNTS :: string where "ACCOUNTS \<equiv> ''/admin/accounts''"

definition account_usage :: "admin_env \<Rightarrow> admin_args \<Rightarrow> unit cmd" where
  "account_usage E a = with_id a ''accounts usage'' (\<lambda>i. print_result (adminRequest E ''GET'' (ACCOUNTS @ ''/'' @ i @ ''/usage''
     @ encodeQuery E [(''source'', flag a ''source''), (''force'', if truthy (flag a ''force'') then Some (JStr ''true'') else None)]) None))"

definition account_stats :: "admin_env \<Rightarrow> admin_args \<Rightarrow> unit cmd" where
  "account_stats E a = with_id a ''accounts stats'' (\<lambda>i. print_result (adminRequest E ''GET'' (ACCOUNTS @ ''/'' @ i @ ''/stats''
     @ encodeQuery E [(''days'', or_else (flag a ''days'') (Some (JNum 30)))]) None))"

definition nonempty_arg :: "admin_args \<Rightarrow> nat \<Rightarrow> bool" where
  "nonempty_arg a n \<longleftrightarrow> (case arg a n of None \<Rightarrow> False | Some t \<Rightarrow> t \<noteq> '''')"

definition set_status :: "admin_env \<Rightarrow> admin_args \<Rightarrow> unit cmd" where
  "set_status E a =
     (if \<not> nonempty_arg a 2 \<or> \<not> nonempty_arg a 3 then cmd_throw (plain_error ''accounts set-status requires <id> <status>'')
      else print_result (adminRequest E ''PUT'' (ACCOUNTS @ ''/'' @ the (arg a 2)) (Some (JObj [(''status'', JStr (the (arg a 3)))]))))"

definition set_schedulable :: "admin_env \<Rightarrow> admin_args \<Rightarrow> unit cmd" where
  "set_schedulable E a =
     (if \<not> nonempty_arg a 2 \<or> arg a 3 = None then cmd_throw (plain_error ''accounts set-schedulable requires <id> <true|false>'')
      else cmd_bind (cmd_lift (parseBool (map_option JStr (arg a 3)) ''schedulable'')) (\<lambda>b.
        print_result (adminRequest E ''POST'' (ACCOUNTS @ ''/'' @ the (arg a 2) @ ''/schedulable'') (Some (JObj [(''schedulable'', JBool b)])))))"

definition NO_BODY_POSTS :: "(string \<times> string) list" where
  "NO_BODY_POSTS = [(''clear-error'', ''clear-error''), (''clear-rate-limit'', ''clear-rate-limit''), (''recover-state'', ''recover-state''),
     (''reset-quota'', ''reset-quota''), (''refresh'', ''refresh''), (''test'', ''test''), (''sync-models'', ''models/sync-upstream''), (''set-privacy'', ''set-privacy'')]"

definition batch_create :: "admin_env \<Rightarrow> admin_args \<Rightarrow> unit cmd" where
  "batch_create E a =
     cmd_bind (cmd_lift (readJsonPayload E a True)) (\<lambda>d.
     cmd_bind (cmd_lift (if arr_of d \<noteq> None then Inr d else read_prop d ''accounts'')) (\<lambda>accounts.
     if arr_of accounts = None then cmd_throw (plain_error ''batch-create payload must be an array or {accounts:[...]}'')
     else print_result (adminRequest E ''POST'' (ACCOUNTS @ ''/batch'') (Some (object [(''accounts'', accounts)])))))"

definition bulk_update :: "admin_env \<Rightarrow> admin_args \<Rightarrow> unit cmd" where
  "bulk_update E a =
     cmd_bind (cmd_lift (readJsonPayload E a False)) (\<lambda>d.
     let patch = or_else d (Some (JObj [])) in
     cmd_bind (cmd_lift (if truthy (flag a ''ids'')
         then bind_js (ids_value E (flag a ''ids'')) (\<lambda>ids. Inr (Some (JObj (fold (\<lambda>(k, v) m. AList.update k v m) (spread_object patch) [(''account_ids'', ids)]))))
         else Inr patch)) (\<lambda>payload.
     if arr_of (ogetp payload ''account_ids'') \<in> {None, Some []} then cmd_throw (plain_error ''accounts bulk-update requires --ids or payload.account_ids'')
     else print_result (adminRequest E ''POST'' (ACCOUNTS @ ''/bulk-update'') payload)))"

section \<open>keep-only\<close>

text \<open>The items of a list; a null among them cannot be asked for its name.\<close>

definition items_of :: "json option \<Rightarrow> thrown + json list" where
  "items_of d = bind_js (read_prop d ''items'') (\<lambda>v.
     case or_else v (Some (JArr [])) of
       Some (JArr xs) \<Rightarrow> if JNull \<in> set xs then Inl (type_error ''Cannot read properties of null (reading name)'') else Inr xs
     | _ \<Rightarrow> Inl (type_error ''items.find is not a function''))"

definition item_path :: "admin_env \<Rightarrow> json \<Rightarrow> string" where
  "item_path E x = ''/api/v1/admin/accounts/'' @ text_of E (getp x ''id'')"

fun delete_all :: "admin_env \<Rightarrow> json list \<Rightarrow> json list \<Rightarrow> json list cmd" where
  "delete_all E [] acc = cmd_return acc"
| "delete_all E (x # xs) acc =
     cmd_bind (apiRequest E ''DELETE'' (item_path E x) None []) (\<lambda>out.
     delete_all E xs (acc @ [object [(''id'', getp x ''id''), (''name'', getp x ''name''), (''result'', out)]]))"

definition named :: "json option \<Rightarrow> json \<Rightarrow> bool" where
  "named nm x \<longleftrightarrow> same_value (getp x ''name'') nm"

definition keep_only :: "admin_env \<Rightarrow> admin_args \<Rightarrow> unit cmd" where
  "keep_only E a = (let nm = flag a ''name'' in
     if \<not> truthy nm then cmd_throw (plain_error ''accounts keep-only requires --name'')
     else cmd_bind (list_first E (number_flag E a ''page-size'' 500)) (\<lambda>d.
       cmd_bind (cmd_lift (items_of d)) (\<lambda>items.
       case find (named nm) items of
         None \<Rightarrow> cmd_throw (plain_error (''account not found: '' @ text_of E nm))
       | Some keep \<Rightarrow>
           cmd_bind (delete_all E (filter (\<lambda>x. \<not> named nm x) items) []) (\<lambda>results.
           emit (Print (Some (object [(''kept'', Some (object [(''id'', getp keep ''id''), (''name'', getp keep ''name'')])), (''deleted'', Some (JArr results))])))))))"

section \<open>import-json\<close>

definition member :: "json option \<Rightarrow> json option list \<Rightarrow> bool" where
  "member v xs \<longleftrightarrow> list_ex (same_value v) xs"

record template =
  te_name :: "json option"
  te_groups :: "json option"
  te_concurrency :: "json option"
  te_priority :: "json option"
  te_mapping :: "json option"

definition template_of :: "json \<Rightarrow> template" where
  "template_of x = \<lparr>te_name = getp x ''name'', te_groups = or_else (getp x ''group_ids'') (Some (JArr [])), te_concurrency = getp x ''concurrency'',
     te_priority = getp x ''priority'',
     te_mapping = or_else (if truthy (getp x ''credentials'') then ogetp (getp x ''credentials'') ''model_mapping'' else None) (Some (JObj []))\<rparr>"

definition import_payload :: "template \<Rightarrow> json \<Rightarrow> json" where
  "import_payload t acc = JObj (put_prop ''credentials'' (Some (JObj (put_prop ''model_mapping'' (te_mapping t) (spread_object (getp acc ''credentials'')))))
     (put_prop ''priority'' (te_priority t) (put_prop ''concurrency'' (te_concurrency t) (put_prop ''group_ids'' (te_groups t) (spread_object (Some acc))))))"

text \<open>The accounts of the file; a null among them cannot be asked for its name.\<close>

definition file_accounts :: "json \<Rightarrow> thrown + json list" where
  "file_accounts raw = bind_js (read_prop (Some raw) ''accounts'') (\<lambda>v.
     case or_else v (Some (JArr [])) of Some (JArr xs) \<Rightarrow> Inr xs | _ \<Rightarrow> Inl (type_error ''accounts.filter is not a function''))"

definition planned_accounts :: "json option \<Rightarrow> json option list \<Rightarrow> json list \<Rightarrow> thrown + json list" where
  "planned_accounts templateName skip xs =
     (if JNull \<in> set xs then Inl (type_error ''Cannot read properties of null (reading name)'')
      else Inr (filter (\<lambda>x. \<not> same_value (getp x ''name'') templateName \<and> \<not> member (getp x ''name'') skip) xs))"

fun import_all :: "admin_env \<Rightarrow> template \<Rightarrow> json option list \<Rightarrow> json list \<Rightarrow> json list \<Rightarrow> json list cmd" where
  "import_all E t existing [] acc = cmd_return acc"
| "import_all E t existing (x # xs) acc =
     (if member (getp x ''name'') existing
      then import_all E t existing xs (acc @ [object [(''name'', getp x ''name''), (''skipped'', Some (JBool True)), (''reason'', Some (JStr ''already exists''))]])
      else cmd_bind (apiRequest E ''POST'' ''/api/v1/admin/accounts'' (Some (import_payload t x)) []) (\<lambda>created.
        cmd_bind (cmd_lift (read_prop created ''id'')) (\<lambda>i.
        import_all E t existing xs (acc @ [object [(''name'', getp x ''name''), (''id'', i), (''skipped'', Some (JBool False))]]))))"

definition import_report :: "template \<Rightarrow> json option list \<Rightarrow> json list \<Rightarrow> json" where
  "import_report t existing planned = object
     [(''template'', Some (object [(''name'', te_name t), (''concurrency'', te_concurrency t), (''priority'', te_priority t), (''group_ids'', te_groups t), (''model_mapping'', te_mapping t)])),
      (''to_import'', Some (JArr (map (\<lambda>x. object [(''name'', getp x ''name''), (''exists'', Some (JBool (member (getp x ''name'') existing)))]) planned)))]"

definition import_json :: "admin_env \<Rightarrow> admin_args \<Rightarrow> unit cmd" where
  "import_json E a = (let templateName = flag a ''template-name''; skip = map Some (asArray (flag a ''skip-name'')) in
     if \<not> truthy (flag a ''file'') then cmd_throw (plain_error ''accounts import-json requires --file'')
     else if \<not> truthy templateName then cmd_throw (plain_error ''accounts import-json requires --template-name'')
     else
       cmd_bind (cmd_lift (read_json_file E (flag a ''file''))) (\<lambda>raw.
       cmd_bind (cmd_lift (read_prop (Some raw) ''accounts'')) (\<lambda>_.
       cmd_bind (list_first E (Some 500)) (\<lambda>live.
       cmd_bind (cmd_lift (items_of live)) (\<lambda>items.
       case find (named templateName) items of
         None \<Rightarrow> cmd_throw (plain_error (''template account not found in backend: '' @ text_of E templateName))
       | Some x \<Rightarrow>
           let t = template_of x; existing = map (\<lambda>y. getp y ''name'') items in
           cmd_bind (cmd_lift (bind_js (file_accounts raw) (planned_accounts templateName skip))) (\<lambda>planned.
           if truthy (flag a ''dry-run'') then emit (Print (Some (import_report t existing planned)))
           else cmd_bind (import_all E t existing planned []) (\<lambda>results. emit (Print (Some (JObj [(''imported'', JArr results)]))))))))))"

section \<open>The tables of subcommands\<close>

definition unknown :: "string \<Rightarrow> admin_args \<Rightarrow> unit cmd" where
  "unknown what a = cmd_throw (plain_error (''unknown '' @ what @ '' subcommand: '' @ (if nonempty_arg a 1 then the (arg a 1) else ''(missing)'')))"

definition run_table :: "string \<Rightarrow> (string \<times> (admin_args \<Rightarrow> unit cmd)) list \<Rightarrow> admin_args \<Rightarrow> unit cmd" where
  "run_table what t a = (case arg a 1 of None \<Rightarrow> unknown what a | Some s \<Rightarrow> (case map_of t s of None \<Rightarrow> unknown what a | Some f \<Rightarrow> f a))"

definition account_commands :: "admin_env \<Rightarrow> (string \<times> (admin_args \<Rightarrow> unit cmd)) list" where
  "account_commands E =
     [(''list'', list_accounts_command E), (''export'', export_accounts E), (''import-data'', import_data E),
      (''create'', with_payload E ''POST'' ACCOUNTS), (''update'', payload_by_id E ''accounts'' ''update'' ''PUT'' ACCOUNTS ''''),
      (''get'', by_id E ''accounts'' ''get'' ''GET'' ACCOUNTS ''''), (''delete'', by_id E ''accounts'' ''delete'' ''DELETE'' ACCOUNTS ''''),
      (''keep-only'', keep_only E), (''usage'', account_usage E), (''stats'', account_stats E),
      (''today-stats'', by_id E ''accounts'' ''today-stats'' ''GET'' ACCOUNTS ''/today-stats''),
      (''batch-today-stats'', with_ids E (ACCOUNTS @ ''/today-stats/batch'') ''account_ids''),
      (''set-status'', set_status E), (''set-schedulable'', set_schedulable E)]
     @ map (\<lambda>(nm, path). (nm, by_id E ''accounts'' nm ''POST'' ACCOUNTS (''/'' @ path))) NO_BODY_POSTS
     @ [(''models'', by_id E ''accounts'' ''models'' ''GET'' ACCOUNTS ''/models''),
      (''apply-oauth'', payload_by_id E ''accounts'' ''apply-oauth'' ''POST'' ACCOUNTS ''/apply-oauth-credentials''),
      (''batch-create'', batch_create E), (''batch-update-credentials'', with_payload E ''POST'' (ACCOUNTS @ ''/batch-update-credentials'')),
      (''bulk-update'', bulk_update E), (''batch-refresh'', with_ids E (ACCOUNTS @ ''/batch-refresh'') ''account_ids''),
      (''batch-clear-error'', with_ids E (ACCOUNTS @ ''/batch-clear-error'') ''account_ids''),
      (''temp-unschedulable'', by_id E ''accounts'' ''temp-unschedulable'' ''GET'' ACCOUNTS ''/temp-unschedulable''),
      (''reset-temp-unschedulable'', by_id E ''accounts'' ''reset-temp-unschedulable'' ''DELETE'' ACCOUNTS ''/temp-unschedulable''),
      (''crs-preview'', with_payload E ''POST'' (ACCOUNTS @ ''/sync/crs/preview'')), (''crs-sync'', with_payload E ''POST'' (ACCOUNTS @ ''/sync/crs'')),
      (''import-codex-session'', with_payload E ''POST'' (ACCOUNTS @ ''/import/codex-session'')),
      (''antigravity-default-model-mapping'', \<lambda>a. print_result (adminRequest E ''GET'' (ACCOUNTS @ ''/antigravity/default-model-mapping'') None)),
      (''import-json'', import_json E)]"

definition commandAccounts :: "admin_env \<Rightarrow> admin_args \<Rightarrow> unit cmd" where
  "commandAccounts E a = run_table ''accounts'' (account_commands E) a"

definition all_command :: "admin_env \<Rightarrow> string \<Rightarrow> admin_args \<Rightarrow> unit cmd" where
  "all_command E nm a = run_table nm [(''all'', \<lambda>a. print_result (adminRequest E ''GET'' (''/admin/'' @ nm @ ''/all'') None))] a"

abbreviation CODES :: string where "CODES \<equiv> ''/admin/redeem-codes''"

definition export_codes :: "admin_env \<Rightarrow> admin_args \<Rightarrow> unit cmd" where
  "export_codes E a =
     cmd_bind (adminRawRequest E ''GET'' (CODES @ ''/export'' @ redeemCodesQuery E a)) (\<lambda>csv.
     if truthy (flag a ''file'') then
       cmd_bind (cmd_lift (file_path E (flag a ''file''))) (\<lambda>p.
       cmd_bind (write_file E p csv) (\<lambda>_. emit (Print (Some (JObj [(''file'', JStr p)])))))
     else emit (Print_text csv))"

definition with_key :: "admin_env \<Rightarrow> string \<Rightarrow> admin_args \<Rightarrow> unit cmd" where
  "with_key E path a = cmd_bind (cmd_lift (readJsonPayload E a True)) (\<lambda>d. print_result (adminRequestWithHeaders E ''POST'' path d (idempotencyHeaders E a)))"

definition is_object :: "json option \<Rightarrow> bool" where
  "is_object v \<longleftrightarrow> obj_of v \<noteq> None \<or> arr_of v \<noteq> None"

definition update_codes :: "admin_env \<Rightarrow> admin_args \<Rightarrow> unit cmd" where
  "update_codes E a =
     cmd_bind (cmd_lift (readJsonPayload E a False)) (\<lambda>d.
     let fields = or_else d (Some (JObj [])) in
     cmd_bind (cmd_lift (if truthy (flag a ''ids'') then bind_js (ids_value E (flag a ''ids'')) (\<lambda>ids. Inr (Some (object [(''ids'', Some ids), (''fields'', fields)])))
       else Inr fields)) (\<lambda>payload.
     if arr_of (ogetp payload ''ids'') \<in> {None, Some []} then cmd_throw (plain_error ''redeem-codes batch-update requires --ids or payload.ids'')
     else if \<not> is_object (ogetp payload ''fields'') then cmd_throw (plain_error ''redeem-codes batch-update requires fields'')
     else print_result (adminRequest E ''POST'' (CODES @ ''/batch-update'') payload)))"

definition code_commands :: "admin_env \<Rightarrow> (string \<times> (admin_args \<Rightarrow> unit cmd)) list" where
  "code_commands E =
     [(''list'', \<lambda>a. print_result (adminRequest E ''GET'' (CODES @ redeemCodesQuery E a) None)), (''export'', export_codes E),
      (''get'', by_id E ''redeem-codes'' ''get'' ''GET'' CODES ''''), (''generate'', with_key E (CODES @ ''/generate'')),
      (''create-and-redeem'', with_key E (CODES @ ''/create-and-redeem'')), (''batch-update'', update_codes E),
      (''delete'', by_id E ''redeem-codes'' ''delete'' ''DELETE'' CODES ''''), (''batch-delete'', with_ids E (CODES @ ''/batch-delete'') ''ids''),
      (''expire'', by_id E ''redeem-codes'' ''expire'' ''POST'' CODES ''/expire''),
      (''stats'', \<lambda>a. print_result (adminRequest E ''GET'' (CODES @ ''/stats'') None))]"

definition commandRedeemCodes :: "admin_env \<Rightarrow> admin_args \<Rightarrow> unit cmd" where
  "commandRedeemCodes E a = run_table ''redeem-codes'' (code_commands E) a"

definition toggle_resource :: "admin_env \<Rightarrow> string \<Rightarrow> string \<Rightarrow> admin_args \<Rightarrow> unit cmd" where
  "toggle_resource E nm base a =
     (if \<not> nonempty_arg a 2 \<or> arg a 3 = None then cmd_throw (plain_error (nm @ '' toggle requires <id> <true|false>''))
      else cmd_bind (cmd_lift (parseBool (map_option JStr (arg a 3)) ''enabled'')) (\<lambda>b.
        print_result (adminRequest E ''PUT'' (base @ ''/'' @ the (arg a 2)) (Some (JObj [(''enabled'', JBool b)])))))"

definition resource_commands :: "admin_env \<Rightarrow> string \<Rightarrow> string \<Rightarrow> bool \<Rightarrow> (string \<times> (admin_args \<Rightarrow> unit cmd)) list" where
  "resource_commands E nm base toggle =
     [(''list'', \<lambda>a. print_result (adminRequest E ''GET'' base None)), (''get'', by_id E nm ''get'' ''GET'' base ''''),
      (''create'', with_payload E ''POST'' base), (''update'', payload_by_id E nm ''update'' ''PUT'' base ''''),
      (''delete'', by_id E nm ''delete'' ''DELETE'' base '''')]
     @ (if toggle then [(''toggle'', toggle_resource E nm base)] else [])"

definition commandCrudResource :: "admin_env \<Rightarrow> string \<Rightarrow> string \<Rightarrow> bool \<Rightarrow> admin_args \<Rightarrow> unit cmd" where
  "commandCrudResource E nm base toggle a = run_table nm (resource_commands E nm base toggle) a"

definition upper_char :: "char \<Rightarrow> char" where
  "upper_char c = (let n = of_char c :: nat in if 97 \<le> n \<and> n \<le> 122 then char_of (n - 32) else c)"

definition commandApi :: "admin_env \<Rightarrow> admin_args \<Rightarrow> unit cmd" where
  "commandApi E a =
     (if \<not> nonempty_arg a 1 \<or> \<not> nonempty_arg a 2 then cmd_throw (plain_error ''api requires <GET|POST|PUT|DELETE> <admin-path>'')
      else cmd_bind (cmd_lift (readJsonPayload E a False)) (\<lambda>d.
        print_result (adminRequest E (map upper_char (the (arg a 1))) (the (arg a 2)) d)))"

text \<open>\<open>main\<close>; the usage text is left out.\<close>

definition admin_commands :: "admin_env \<Rightarrow> (string \<times> (admin_args \<Rightarrow> unit cmd)) list" where
  "admin_commands E =
     [(''accounts'', commandAccounts E), (''groups'', all_command E ''groups''), (''proxies'', all_command E ''proxies''),
      (''redeem-codes'', commandRedeemCodes E), (''error-rules'', commandCrudResource E ''error-rules'' ''/admin/error-passthrough-rules'' True),
      (''tls-profiles'', commandCrudResource E ''tls-profiles'' ''/admin/tls-fingerprint-profiles'' False), (''api'', commandApi E)]"

definition admin_main :: "admin_env \<Rightarrow> string list \<Rightarrow> (thrown + unit) \<times> admin_event list" where
  "admin_main E argv = (let a = parse_admin_args argv in
     if \<not> nonempty_arg a 0 then (Inl (plain_error ''usage''), [])
     else (case map_of (admin_commands E) (the (arg a 0)) of
         None \<Rightarrow> (Inl (plain_error (''unknown command: '' @ the (arg a 0))), [])
       | Some f \<Rightarrow> f a []))"

end
