(* ===== verification/Admin_Laws.thy ===== *)
theory Admin_Laws
  imports Admin_Commands
begin

text \<open>
  What the commands of \<^verbatim>\<open>sub2api-admin.js\<close> send. The calculus \<open>emits P m\<close> says that a command only appends events with the
  property \<open>P\<close>, whatever the API answers; its rules are collected in \<open>emits_rules\<close>.
\<close>

named_theorems emits_rules

definition emits :: "(admin_event \<Rightarrow> bool) \<Rightarrow> 'a cmd \<Rightarrow> bool" where
  "emits P m \<longleftrightarrow> (\<forall>tr. \<exists>evs. snd (m tr) = tr @ evs \<and> list_all P evs)"

lemma emitsI: "(\<And>tr. \<exists>evs. snd (m tr) = tr @ evs \<and> list_all P evs) \<Longrightarrow> emits P m"
  by (simp add: emits_def)

lemma emits_from_nothing: "emits P m \<Longrightarrow> list_all P (snd (m []))"
  unfolding emits_def by (metis append_Nil)

lemma emits_event: "emits P m \<Longrightarrow> e \<in> set (snd (m tr)) \<Longrightarrow> e \<in> set tr \<or> P e"
  unfolding emits_def by (metis UnE list_all_iff set_append)

lemma emits_return [emits_rules]: "emits P (cmd_return x)"
  by (simp add: emits_def cmd_return_def)

lemma emits_throw [emits_rules]: "emits P (cmd_throw e)"
  by (simp add: emits_def cmd_throw_def)

lemma emits_lift [emits_rules]: "emits P (cmd_lift r)"
  by (simp add: emits_def cmd_lift_def)

lemma emits_emit [emits_rules]: "P e \<Longrightarrow> emits P (emit e)"
  by (simp add: emits_def emit_def)

lemma emits_answer [emits_rules]: "emits P (\<lambda>tr. (f tr, tr))"
  by (simp add: emits_def)

lemma emits_bind [emits_rules]:
  assumes "emits P m" "\<And>x. emits P (f x)"
  shows "emits P (cmd_bind m f)"
proof (rule emitsI)
  fix tr
  obtain evs where evs: "snd (m tr) = tr @ evs" "list_all P evs" using assms(1) by (auto simp: emits_def)
  show "\<exists>evs. snd (cmd_bind m f tr) = tr @ evs \<and> list_all P evs"
  proof (cases "fst (m tr)")
    case (Inl e)
    then have "snd (cmd_bind m f tr) = tr @ evs" using evs(1) by (cases "m tr") (simp add: cmd_bind_def)
    then show ?thesis using evs(2) by blast
  next
    case (Inr x)
    then have "snd (cmd_bind m f tr) = snd (f x (tr @ evs))" using evs(1) by (cases "m tr") (simp add: cmd_bind_def)
    moreover obtain evs' where "snd (f x (tr @ evs)) = (tr @ evs) @ evs'" "list_all P evs'"
      using assms(2) [of x] unfolding emits_def by blast
    ultimately show ?thesis using evs(2) by (intro exI [of _ "evs @ evs'"]) simp
  qed
qed

lemma emits_lift_bind:
  assumes "\<And>x. r = Inr x \<Longrightarrow> emits P (f x)"
  shows "emits P (cmd_bind (cmd_lift r) f)"
proof (cases r)
  case (Inl e)
  then have "cmd_bind (cmd_lift r) f = (\<lambda>tr. (Inl e, tr))" by (simp add: cmd_bind_def cmd_lift_def fun_eq_iff)
  then show ?thesis by (simp add: emits_def)
next
  case (Inr x)
  then have "cmd_bind (cmd_lift r) f = f x" by (simp add: cmd_bind_def cmd_lift_def fun_eq_iff)
  then show ?thesis using assms Inr by simp
qed

lemma emits_if [emits_rules]: "(b \<Longrightarrow> emits P m) \<Longrightarrow> (\<not> b \<Longrightarrow> emits P m') \<Longrightarrow> emits P (if b then m else m')"
  by simp

lemma emits_option [emits_rules]: "(v = None \<Longrightarrow> emits P m) \<Longrightarrow> (\<And>x. v = Some x \<Longrightarrow> emits P (f x)) \<Longrightarrow> emits P (case v of None \<Rightarrow> m | Some x \<Rightarrow> f x)"
  by (cases v) auto

lemma emits_triple [emits_rules]: "(\<And>x y z. r = (x, y, z) \<Longrightarrow> emits P (f x y z)) \<Longrightarrow> emits P (case r of (x, y, z) \<Rightarrow> f x y z)"
  by (cases r) auto

section \<open>Requests that a client of the API may send\<close>

text \<open>
  A policy allows a request by its method, its path and its body; every other event is allowed. A request is sent with the headers that
  the credentials of the environment give.
\<close>

definition carries_credential :: "admin_env \<Rightarrow> (string \<times> string) list \<Rightarrow> bool" where
  "carries_credential E h \<longleftrightarrow> (if ae_key E \<noteq> '''' then map_of h ''x-api-key'' = Some (ae_key E)
     else ae_jwt E \<noteq> '''' \<and> map_of h ''Authorization'' = Some (''Bearer '' @ ae_jwt E))"

definition sent_by :: "admin_env \<Rightarrow> (string \<Rightarrow> string \<Rightarrow> json option \<Rightarrow> bool) \<Rightarrow> admin_event \<Rightarrow> bool" where
  "sent_by E A e \<longleftrightarrow> (case e of
     Request method url h body \<Rightarrow> base_url E \<noteq> '''' \<and> carries_credential E h \<and> (\<exists>path. url = base_url E @ path \<and> A method path body)
   | _ \<Rightarrow> True)"

lemma sent_by_other [simp]: "sent_by E A (Print d)" "sent_by E A (Print_text t)" "sent_by E A (Write_file p t)"
  by (simp_all add: sent_by_def)

definition harmless_extra :: "(string \<times> string) list \<Rightarrow> bool" where
  "harmless_extra h \<longleftrightarrow> (\<forall>k \<in> fst ` set h. k \<noteq> ''x-api-key'' \<and> k \<noteq> ''Authorization'')"

lemma map_of_updates_other:
  "k \<notin> fst ` set kvs \<Longrightarrow> map_of (fold (\<lambda>(k, v) m. AList.update k v m) kvs m) k = map_of m k"
  by (induction kvs arbitrary: m) (auto simp: update_conv' split: prod.split)

lemma headers_carry:
  assumes "authHeaders E = Inr auth" "harmless_extra extra"
  shows "carries_credential E (request_headers auth accept extra body)" and "base_url E \<noteq> ''''"
proof -
  have extra: "''x-api-key'' \<notin> fst ` set extra" "''Authorization'' \<notin> fst ` set extra"
    using assms(2) by (auto simp: harmless_extra_def)
  have "map_of (request_headers auth accept extra body) k = map_of auth k" if "k = ''x-api-key'' \<or> k = ''Authorization''" for k
  proof -
    have "k \<notin> fst ` set extra" using that extra by (elim disjE) (simp_all only: not_False_eq_True)
    moreover have "k \<noteq> ''Accept''" "k \<noteq> ''Content-Type''" using that by auto
    ultimately have "k \<notin> fst ` set extra" "k \<noteq> ''Accept''" "k \<noteq> ''Content-Type''" by blast+
    then show ?thesis by (simp add: request_headers_def Let_def map_of_updates_other update_conv')
  qed
  then show "carries_credential E (request_headers auth accept extra body)" "base_url E \<noteq> ''''"
    using assms(1) by (auto simp: carries_credential_def authHeaders_def split: if_splits)
qed

lemma emits_send:
  assumes "A method path body" "harmless_extra extra"
  shows "emits (sent_by E A) (send_request E accept method path body extra)"
  unfolding send_request_def
proof (rule emits_lift_bind)
  fix auth assume "authHeaders E = Inr auth"
  then have "sent_by E A (Request method (base_url E @ path) (request_headers auth accept extra body) body)"
    using headers_carry assms by (auto simp: sent_by_def)
  then show "emits (sent_by E A) (cmd_bind (emit (Request method (base_url E @ path) (request_headers auth accept extra body) body)) (\<lambda>_ tr. (ae_answer E tr, tr)))"
    by (intro emits_rules)
qed

lemma no_extra [simp]: "harmless_extra []"
  by (simp add: harmless_extra_def)

lemma emits_api [emits_rules]:
  "A method path body \<Longrightarrow> harmless_extra extra \<Longrightarrow> emits (sent_by E A) (apiRequest E method path body extra)"
  unfolding apiRequest_def by (intro emits_rules emits_send)

lemma emits_raw [emits_rules]:
  "A method path body \<Longrightarrow> harmless_extra extra \<Longrightarrow> emits (sent_by E A) (apiRawRequest E method path body extra)"
  unfolding apiRawRequest_def by (intro emits_rules emits_send)

lemma emits_admin [emits_rules]: "A method (normalizeAdminPath path) body \<Longrightarrow> emits (sent_by E A) (adminRequest E method path body)"
  unfolding adminRequest_def by (intro emits_rules) simp_all

lemma emits_admin_raw [emits_rules]: "A method (normalizeAdminPath path) None \<Longrightarrow> emits (sent_by E A) (adminRawRequest E method path)"
  unfolding adminRawRequest_def by (intro emits_rules) simp_all

lemma emits_print_result [emits_rules]: "emits (sent_by E A) m \<Longrightarrow> emits (sent_by E A) (print_result m)"
  unfolding print_result_def by (intro emits_rules) simp_all

lemma emits_write [emits_rules]: "emits (sent_by E A) (write_file E p t)"
  unfolding write_file_def by (intro emits_rules) simp_all

lemma emits_print [emits_rules]: "emits (sent_by E A) (emit (Print d))" "emits (sent_by E A) (emit (Print_text t))"
  by (intro emits_rules; simp)+

section \<open>Every command\<close>

lemma emits_table:
  assumes "list_all (\<lambda>(s, f). emits P (f a)) t" "\<And>what. emits P (unknown what a)"
  shows "emits P (run_table what t a)"
proof -
  have "emits P (f a)" if "map_of t s = Some f" for s f
    using map_of_SomeD [OF that] assms(1) by (auto simp: list_all_iff)
  then show ?thesis unfolding run_table_def using assms(2) by (intro emits_option) auto
qed

lemma emits_unknown [emits_rules]: "emits P (unknown what a)"
  unfolding unknown_def by (rule emits_throw)

lemma emits_with_id [emits_rules]: "(\<And>i. emits P (f i)) \<Longrightarrow> emits P (with_id a what f)"
  unfolding with_id_def by (intro emits_rules)

lemma emits_let: "emits P (f x) \<Longrightarrow> emits P (let y = x in f y)"
  by simp

lemma harmless_key: "harmless_extra (idempotencyHeaders E a)"
  by (simp add: harmless_extra_def idempotencyHeaders_def)

section \<open>Policies on the methods\<close>

text \<open>
  A policy that allows every request with an accepted method below \<^verbatim>\<open>/api/v1/admin/\<close>. The paths of the commands are literals in
  front of the identifier, so they stay below it.
\<close>

lemma admin_path: "starts_with p ''/admin/'' \<Longrightarrow> starts_with (normalizeAdminPath p) ''/api/v1/admin/''"
  by (cases p) (auto simp: normalizeAdminPath_def starts_with_def Let_def)

lemma starts_with_extend: "starts_with u p \<Longrightarrow> starts_with (u @ v) p"
  by (auto simp: starts_with_def) (metis append_Nil2 diff_is_0_eq length_take min.absorb_iff2 min.commute take_eq_Nil)

lemma below_base: "starts_with (base @ ''/'') p \<Longrightarrow> starts_with (base @ ''/'' @ i) p"
  using starts_with_extend [of "base @ ''/''" p i] by simp

locale request_policy =
  fixes A :: "string \<Rightarrow> string \<Rightarrow> json option \<Rightarrow> bool" and accepted :: "string \<Rightarrow> bool"
  assumes allowed: "accepted m \<Longrightarrow> starts_with p ''/api/v1/admin/'' \<Longrightarrow> A m p b"
begin

lemma emits_below: "accepted m \<Longrightarrow> starts_with p ''/admin/'' \<Longrightarrow> emits (sent_by E A) (adminRequest E m p b)"
  by (intro emits_admin allowed admin_path)

lemma emits_list: "accepted ''GET'' \<Longrightarrow> emits (sent_by E A) (listAccounts E page psize by order lite filters)"
  unfolding listAccounts_def by (intro emits_api allowed) (simp_all add: starts_with_def)

lemma emits_reads:
  assumes "accepted ''GET''"
  shows "emits (sent_by E A) (list_accounts_command E a)" and "emits (sent_by E A) (export_accounts E a)" and "emits (sent_by E A) (list_first E n)"
    and "emits (sent_by E A) (account_usage E a)" and "emits (sent_by E A) (account_stats E a)" and "emits (sent_by E A) (export_codes E a)"
  unfolding list_accounts_command_def export_accounts_def accountData_def list_first_def account_usage_def account_stats_def export_codes_def
  by (intro emits_rules emits_list emits_below emits_admin_raw allowed admin_path assms; simp add: starts_with_def)+

lemma emits_by_id:
  "accepted m \<Longrightarrow> starts_with (base @ ''/'') ''/admin/'' \<Longrightarrow> emits (sent_by E A) (by_id E what nm m base suffix a)"
  unfolding by_id_def by (intro emits_with_id emits_print_result emits_below below_base)

lemma emits_with_payload: "accepted m \<Longrightarrow> starts_with p ''/admin/'' \<Longrightarrow> emits (sent_by E A) (with_payload E m p a)"
  unfolding with_payload_def by (intro emits_bind emits_lift emits_print_result emits_below)

lemma emits_payload_by_id:
  "accepted m \<Longrightarrow> starts_with (base @ ''/'') ''/admin/'' \<Longrightarrow> emits (sent_by E A) (payload_by_id E what nm m base suffix a)"
  unfolding payload_by_id_def by (intro emits_with_id emits_with_payload below_base)

lemma emits_with_ids: "accepted ''POST'' \<Longrightarrow> starts_with p ''/admin/'' \<Longrightarrow> emits (sent_by E A) (with_ids E p key a)"
  unfolding with_ids_def by (intro emits_bind emits_lift emits_print_result emits_below)

lemma emits_writes:
  assumes "accepted ''POST''"
  shows "emits (sent_by E A) (import_data E a)" and "emits (sent_by E A) (set_schedulable E a)" and "emits (sent_by E A) (batch_create E a)"
    and "emits (sent_by E A) (bulk_update E a)" and "emits (sent_by E A) (update_codes E a)"
  unfolding import_data_def set_schedulable_def batch_create_def bulk_update_def update_codes_def
  by (intro emits_let emits_rules emits_below assms; simp add: starts_with_def)+

lemma emits_with_key: "accepted ''POST'' \<Longrightarrow> starts_with p ''/admin/'' \<Longrightarrow> emits (sent_by E A) (with_key E p a)"
  unfolding with_key_def adminRequestWithHeaders_def
  by (intro emits_bind emits_lift emits_print_result emits_api allowed admin_path harmless_key)

lemma emits_put:
  assumes "accepted ''PUT''"
  shows "emits (sent_by E A) (set_status E a)" and "starts_with (base @ ''/'') ''/admin/'' \<Longrightarrow> emits (sent_by E A) (toggle_resource E nm base a)"
  unfolding set_status_def toggle_resource_def
  by (intro emits_if emits_throw emits_bind emits_lift emits_print_result emits_below assms; simp add: starts_with_def below_base)
     (intro emits_if emits_throw emits_bind emits_lift emits_print_result emits_below below_base assms)

lemma emits_delete_all: "accepted ''DELETE'' \<Longrightarrow> emits (sent_by E A) (delete_all E xs acc)"
proof (induction xs arbitrary: acc)
  case (Cons x xs)
  have "emits (sent_by E A) (apiRequest E ''DELETE'' (item_path E x) None [])"
    using Cons.prems by (intro emits_api allowed) (simp_all add: item_path_def starts_with_def)
  then show ?case using Cons by (simp, intro emits_bind)
qed (simp add: emits_return)

lemma emits_import_all: "accepted ''POST'' \<Longrightarrow> emits (sent_by E A) (import_all E t ex xs acc)"
proof (induction xs arbitrary: acc)
  case (Cons x xs)
  have "emits (sent_by E A) (apiRequest E ''POST'' ''/api/v1/admin/accounts'' (Some (import_payload t x)) [])"
    using Cons.prems by (intro emits_api allowed) (simp_all add: starts_with_def)
  then show ?case using Cons by (simp, intro conjI impI emits_bind emits_lift)
qed (simp add: emits_return)

lemma emits_keep_only: "accepted ''GET'' \<Longrightarrow> accepted ''DELETE'' \<Longrightarrow> emits (sent_by E A) (keep_only E a)"
  unfolding keep_only_def by (intro emits_let emits_rules emits_reads emits_delete_all)

lemma emits_import_json:
  "accepted ''GET'' \<Longrightarrow> truthy (flag a ''dry-run'') \<or> accepted ''POST'' \<Longrightarrow> emits (sent_by E A) (import_json E a)"
  unfolding import_json_def by (intro emits_let emits_rules emits_reads emits_import_all) auto

end

interpretation administration: request_policy "\<lambda>_ p _. starts_with p ''/api/v1/admin/''" "\<lambda>_. True"
  by unfold_locales

interpretation reading: request_policy "\<lambda>m _ _. m = ''GET''" "\<lambda>m. m = ''GET''"
  by unfold_locales

section \<open>Every command\<close>

lemma account_commands_stay_below:
  "emits (sent_by E (\<lambda>_ p _. starts_with p ''/api/v1/admin/'')) (commandAccounts E a)"
  unfolding commandAccounts_def account_commands_def NO_BODY_POSTS_def list.map prod.case append.simps
  by (intro emits_table emits_unknown; simp only: list.pred_inject prod.case simp_thms)
     (intro conjI administration.emits_reads administration.emits_writes administration.emits_put administration.emits_by_id administration.emits_with_payload
       administration.emits_payload_by_id administration.emits_with_ids administration.emits_keep_only administration.emits_import_json
       emits_print_result administration.emits_below TrueI; simp add: starts_with_def)

lemma code_commands_stay_below:
  "emits (sent_by E (\<lambda>_ p _. starts_with p ''/api/v1/admin/'')) (commandRedeemCodes E a)"
  unfolding commandRedeemCodes_def code_commands_def
  by (intro emits_table emits_unknown; simp only: list.pred_inject prod.case simp_thms)
     (intro conjI administration.emits_reads administration.emits_writes administration.emits_by_id administration.emits_with_key
       administration.emits_with_ids emits_print_result administration.emits_below TrueI; simp add: starts_with_def)

lemma resource_commands_stay_below:
  assumes "starts_with (base @ ''/'') ''/admin/''" "starts_with base ''/admin/''"
  shows "emits (sent_by E (\<lambda>_ p _. starts_with p ''/api/v1/admin/'')) (commandCrudResource E nm base toggle a)"
  unfolding commandCrudResource_def resource_commands_def
  by (cases toggle; intro emits_table emits_unknown; simp only: list.pred_inject list_all_append if_True if_False append_Nil2 append.simps prod.case simp_thms)
     (intro conjI administration.emits_by_id administration.emits_with_payload administration.emits_payload_by_id administration.emits_put
       emits_print_result administration.emits_below TrueI assms)+

lemma all_command_stays_below:
  "emits (sent_by E (\<lambda>_ p _. starts_with p ''/api/v1/admin/'')) (all_command E nm a)"
  unfolding all_command_def
  by (intro emits_table emits_unknown; simp only: list.pred_inject prod.case simp_thms)
     (intro emits_print_result administration.emits_below TrueI; simp add: starts_with_def)

lemma api_command_emits: "emits (sent_by E (\<lambda>_ _ _. True)) (commandApi E a)"
  unfolding commandApi_def by (intro emits_rules TrueI)

section \<open>What is sent, and by whom\<close>

lemma emits_weaken: "emits P m \<Longrightarrow> (\<And>e. P e \<Longrightarrow> Q e) \<Longrightarrow> emits Q m"
  unfolding emits_def by (metis list.pred_mono_strong)

lemma sent_by_weaken: "sent_by E A e \<Longrightarrow> (\<And>m p b. A m p b \<Longrightarrow> B m p b) \<Longrightarrow> sent_by E B e"
  by (cases e) (auto simp: sent_by_def)

lemma main_emits:
  assumes "\<And>c f. arg (parse_admin_args argv) 0 = Some c \<Longrightarrow> (c, f) \<in> set (admin_commands E) \<Longrightarrow> emits P (f (parse_admin_args argv))"
  shows "list_all P (snd (admin_main E argv))"
proof (cases "nonempty_arg (parse_admin_args argv) 0")
  case True
  then obtain c where c: "arg (parse_admin_args argv) 0 = Some c" by (auto simp: nonempty_arg_def split: option.splits)
  show ?thesis
  proof (cases "map_of (admin_commands E) c")
    case (Some f)
    then have "snd (admin_main E argv) = snd (f (parse_admin_args argv) [])" using True c by (simp add: admin_main_def Let_def)
    then show ?thesis using emits_from_nothing [OF assms [OF c map_of_SomeD [OF Some]]] by simp
  qed (simp add: admin_main_def Let_def True c)
qed (simp add: admin_main_def Let_def)

definition below_administration :: "admin_args \<Rightarrow> string \<Rightarrow> bool" where
  "below_administration a p \<longleftrightarrow> arg a 0 = Some ''api'' \<or> starts_with p ''/api/v1/admin/''"


section \<open>Reading commands\<close>

text \<open>The subcommands that are documented as looking, and a dry run of the import.\<close>

definition READING :: "(string \<times> string list) list" where
  "READING = [(''accounts'', [''list'', ''export'', ''get'', ''usage'', ''stats'', ''today-stats'', ''models'', ''temp-unschedulable'', ''antigravity-default-model-mapping'']),
     (''groups'', [''all'']), (''proxies'', [''all'']), (''redeem-codes'', [''list'', ''export'', ''get'', ''stats'']),
     (''error-rules'', [''list'', ''get'']), (''tls-profiles'', [''list'', ''get''])]"

definition reading_command :: "admin_args \<Rightarrow> bool" where
  "reading_command a \<longleftrightarrow> (case (arg a 0, arg a 1) of
     (Some c, Some s) \<Rightarrow> (case map_of READING c of None \<Rightarrow> False | Some subs \<Rightarrow> s \<in> set subs) \<or> c = ''accounts'' \<and> s = ''import-json'' \<and> truthy (flag a ''dry-run'')
   | _ \<Rightarrow> False)"

lemma emits_table_at:
  assumes "list_all (\<lambda>(s, f). arg a 1 = Some s \<longrightarrow> emits P (f a)) t"
  shows "emits P (run_table what t a)"
proof -
  have "emits P (f a)" if "arg a 1 = Some s" "map_of t s = Some f" for s f
    using map_of_SomeD [OF that(2)] that(1) assms by (auto simp: list_all_iff)
  then show ?thesis unfolding run_table_def by (intro emits_option emits_unknown)
qed

abbreviation "reads E \<equiv> sent_by E (\<lambda>m _ _. m = ''GET'')"

lemma reading_accounts:
  assumes "reading_command a" "arg a 0 = Some ''accounts''"
  shows "emits (reads E) (commandAccounts E a)"
  unfolding commandAccounts_def account_commands_def NO_BODY_POSTS_def list.map prod.case append.simps
proof (rule emits_table_at, simp only: list.pred_inject prod.case simp_thms, intro conjI impI reading.emits_reads reading.emits_writes reading.emits_put
    reading.emits_by_id reading.emits_with_payload reading.emits_payload_by_id reading.emits_with_ids reading.emits_keep_only reading.emits_import_json
    emits_print_result reading.emits_below refl TrueI)
qed (use assms in \<open>simp_all add: reading_command_def READING_def starts_with_def\<close>)

lemma reading_codes:
  assumes "reading_command a" "arg a 0 = Some ''redeem-codes''"
  shows "emits (reads E) (commandRedeemCodes E a)"
  unfolding commandRedeemCodes_def code_commands_def
proof (rule emits_table_at, simp only: list.pred_inject prod.case simp_thms, intro conjI impI reading.emits_reads reading.emits_writes
    reading.emits_by_id reading.emits_with_key reading.emits_with_ids emits_print_result reading.emits_below refl TrueI)
qed (use assms in \<open>simp_all add: reading_command_def READING_def starts_with_def\<close>)

lemma reading_resource:
  assumes "reading_command a" "arg a 0 = Some nm" "nm = ''error-rules'' \<or> nm = ''tls-profiles''" "starts_with (base @ ''/'') ''/admin/''" "starts_with base ''/admin/''"
  shows "emits (reads E) (commandCrudResource E nm base toggle a)"
  unfolding commandCrudResource_def resource_commands_def
proof (cases toggle; rule emits_table_at, simp only: list.pred_inject list_all_append if_True if_False append_Nil2 append.simps prod.case simp_thms,
    intro conjI impI reading.emits_put reading.emits_by_id reading.emits_with_payload reading.emits_payload_by_id emits_print_result reading.emits_below refl TrueI assms)
qed (use assms in \<open>auto simp: reading_command_def READING_def\<close>)

lemma reading_all:
  shows "emits (reads E) (all_command E nm a)"
  unfolding all_command_def
  by (intro emits_table emits_unknown; simp only: list.pred_inject prod.case simp_thms)
     (intro emits_print_result reading.emits_below refl; simp add: starts_with_def)



end
