(* ===== verification/Admin_Effects.thy ===== *)
theory Admin_Effects
  imports Admin_Laws "HOL-Library.Sublist"
begin

text \<open>
  The two commands of \<^verbatim>\<open>sub2api-admin.js\<close> that change several accounts: exactly which requests they send, in which order, and how
  far they come when the API refuses one.
\<close>

section \<open>Sequences of requests\<close>

definition sent :: "string \<Rightarrow> admin_event list \<Rightarrow> (string \<times> json option) list" where
  "sent m evs = concat (map (\<lambda>e. case e of Request m' url _ b \<Rightarrow> if m' = m then [(url, b)] else [] | _ \<Rightarrow> []) evs)"

lemma sent_append [simp]: "sent m (xs @ ys) = sent m xs @ sent m ys"
  by (simp add: sent_def)

lemma sent_nil [simp]: "sent m [] = []"
  by (simp add: sent_def)

lemma sent_print [simp]: "sent m [Print d] = []"
  by (simp add: sent_def)

lemma sent_other_methods: "list_all (sent_by E (\<lambda>m _ _. m \<noteq> m')) evs \<Longrightarrow> sent m' evs = []"
  by (induction evs) (auto simp: sent_def sent_by_def split: admin_event.splits)

text \<open>A request is sent unless there is no credential; then nothing is sent and the command fails.\<close>

lemma api_sends:
  assumes "apiRequest E m p b ex tr = (r, tr')"
  shows "sent m' tr' = sent m' tr @ (if authHeaders E \<in> range Inr \<and> m = m' then [(base_url E @ p, b)] else [])" and "authHeaders E \<notin> range Inr \<Longrightarrow> r \<notin> range Inr"
  using assms by (cases "authHeaders E"; auto simp: apiRequest_def send_request_def cmd_bind_def cmd_lift_def emit_def sent_def split: sum.splits)+

text \<open>Sending one request per element, stopping at the first failure: a prefix is sent, and all of it when the loop comes to its end.\<close>

definition sends_each :: "string \<Rightarrow> ('a \<Rightarrow> string \<times> json option) \<Rightarrow> 'a list \<Rightarrow> 'b cmd \<Rightarrow> bool" where
  "sends_each m f xs c \<longleftrightarrow> (\<forall>tr. \<exists>n. n \<le> length xs \<and> sent m (snd (c tr)) = sent m tr @ map f (take n xs) \<and> (fst (c tr) \<in> range Inr \<longrightarrow> n = length xs))"

lemma sends_eachD:
  assumes "sends_each m f xs c" "c tr = (r, tr')"
  obtains n where "n \<le> length xs" "sent m tr' = sent m tr @ map f (take n xs)" "r \<in> range Inr \<longrightarrow> n = length xs"
  using assms unfolding sends_each_def by (metis fst_conv snd_conv)

lemma sends_none: "(\<And>tr. sent m (snd (c tr)) = sent m tr) \<Longrightarrow> sends_each m f [] c"
  by (simp add: sends_each_def)

lemma sends_cons:
  assumes "\<And>y. sends_each m f xs (k y)" "f x = (base_url E @ p, b)"
  shows "sends_each m f (x # xs) (cmd_bind (apiRequest E m p b ex) k)"
  unfolding sends_each_def
proof
  fix tr
  obtain r tr' where r: "apiRequest E m p b ex tr = (r, tr')" by fastforce
  show "\<exists>n \<le> length (x # xs). sent m (snd (cmd_bind (apiRequest E m p b ex) k tr)) = sent m tr @ map f (take n (x # xs))
    \<and> (fst (cmd_bind (apiRequest E m p b ex) k tr) \<in> range Inr \<longrightarrow> n = length (x # xs))"
  proof (cases r)
    case (Inl e)
    have "sent m tr' = sent m tr @ map f (take (if authHeaders E \<in> range Inr then 1 else 0) (x # xs))"
      using api_sends(1) [OF r] assms(2) by simp
    then show ?thesis using Inl r
      by (intro exI [of _ "if authHeaders E \<in> range Inr then 1 else 0"]) (auto simp: cmd_bind_def)
  next
    case (Inr y)
    then have sent: "sent m tr' = sent m tr @ [f x]" using api_sends(1) [OF r, of m] api_sends(2) [OF r] assms(2) by auto
    obtain n where "n \<le> length xs" "sent m (snd (k y tr')) = sent m tr' @ map f (take n xs)" "fst (k y tr') \<in> range Inr \<longrightarrow> n = length xs"
      using assms(1) [of y] unfolding sends_each_def by blast
    then show ?thesis using Inr r sent by (intro exI [of _ "Suc n"]) (simp add: cmd_bind_def)
  qed
qed

lemma sends_lift:
  assumes "\<And>y. sends_each m f xs (k y)"
  shows "sends_each m f xs (cmd_bind (cmd_lift r) k)"
proof (cases r)
  case (Inl e)
  then show ?thesis unfolding sends_each_def cmd_bind_def cmd_lift_def by (intro allI exI [of _ 0]) auto
next
  case (Inr y)
  then show ?thesis using assms [of y] by (simp add: sends_each_def cmd_bind_def cmd_lift_def)
qed

section \<open>keep-only\<close>

lemma delete_all_sends: "sends_each ''DELETE'' (\<lambda>x. (base_url E @ item_path E x, None)) xs (delete_all E xs acc)"
proof (induction xs arbitrary: acc)
  case (Cons x xs)
  then show ?case by (simp, intro sends_cons) simp_all
qed (simp add: sends_none cmd_return_def)

text \<open>The accounts that keep-only is to delete: none, when the account to keep is not listed.\<close>

definition unwanted :: "json option \<Rightarrow> json list \<Rightarrow> json list" where
  "unwanted nm items = (if list_ex (named nm) items then filter (\<lambda>x. \<not> named nm x) items else [])"

lemma find_none: "find P xs = None \<longleftrightarrow> \<not> list_ex P xs"
  by (auto simp: find_None_iff list_ex_iff)

lemma list_first_sends: "m \<noteq> ''GET'' \<Longrightarrow> list_first E n tr = (r, tr') \<Longrightarrow> sent m tr' = sent m tr"
  unfolding list_first_def listAccounts_def by (drule api_sends(1) [where m' = m]) simp

lemma keep_only_sends:
  assumes "truthy (flag a ''name'')" "list_first E (number_flag E a ''page-size'' 500) [] = (Inr d, tr)" "items_of d = Inr items"
  shows "\<exists>n. n \<le> length (unwanted (flag a ''name'') items)
    \<and> sent ''DELETE'' (snd (keep_only E a [])) = map (\<lambda>x. (base_url E @ item_path E x, None)) (take n (unwanted (flag a ''name'') items))
    \<and> (fst (keep_only E a []) = Inr () \<longrightarrow> n = length (unwanted (flag a ''name'') items) \<and> list_ex (named (flag a ''name'')) items)"
proof (cases "find (named (flag a ''name'')) items")
  case None
  then have "keep_only E a [] = (Inl (plain_error (''account not found: '' @ text_of E (flag a ''name''))), tr)"
    using assms by (simp add: keep_only_def Let_def cmd_bind_def cmd_lift_def cmd_throw_def)
  then show ?thesis using None list_first_sends [OF _ assms(2), of "''DELETE''"] by (simp add: unwanted_def find_none)
next
  case (Some x)
  let ?targets = "filter (\<lambda>x. \<not> named (flag a ''name'') x) items"
  have before: "sent ''DELETE'' tr = []" using list_first_sends [OF _ assms(2), of "''DELETE''"] by simp
  obtain r tr' where r: "delete_all E ?targets [] tr = (r, tr')" by fastforce
  obtain n where n: "n \<le> length ?targets" "sent ''DELETE'' tr' = map (\<lambda>x. (base_url E @ item_path E x, None)) (take n ?targets)" "r \<in> range Inr \<longrightarrow> n = length ?targets"
    by (rule sends_eachD [OF delete_all_sends r]) (simp add: before)
  have "sent ''DELETE'' (snd (keep_only E a [])) = sent ''DELETE'' tr'" "fst (keep_only E a []) = Inr () \<longrightarrow> r \<in> range Inr"
    using assms Some r by (cases r; simp add: keep_only_def Let_def cmd_bind_def cmd_lift_def emit_def)+
  moreover have "list_ex (named (flag a ''name'')) items" using Some find_none [of "named (flag a ''name'')" items] by simp
  ultimately show ?thesis using n by (intro exI [of _ n]) (simp add: unwanted_def)
qed

section \<open>import-json\<close>

lemma import_all_sends:
  "sends_each ''POST'' (\<lambda>x. (base_url E @ ''/api/v1/admin/accounts'', Some (import_payload t x))) (filter (\<lambda>x. \<not> member (getp x ''name'') ex) xs) (import_all E t ex xs acc)"
proof (induction xs arbitrary: acc)
  case (Cons x xs)
  show ?case
  proof (cases "member (getp x ''name'') ex")
    case False
    then show ?thesis using Cons by (simp, intro sends_cons sends_lift) simp_all
  qed (use Cons in simp)
qed (simp add: sends_none cmd_return_def)

lemma cmd_lift_Inr: "cmd_bind (cmd_lift (Inr x)) f = f x"
  by (simp add: cmd_bind_def cmd_lift_def fun_eq_iff)

lemma cmd_step: "m tr = (Inr x, tr') \<Longrightarrow> cmd_bind m f tr = f x tr'"
  by (simp add: cmd_bind_def)

lemma cmd_then_emit: "m tr = (r, tr') \<Longrightarrow> cmd_bind m (\<lambda>x. emit (f x)) tr = (case r of Inl e \<Rightarrow> (Inl e, tr') | Inr x \<Rightarrow> (Inr (), tr' @ [f x]))"
  by (simp add: cmd_bind_def emit_def split: sum.split)

lemma import_json_sends:
  assumes "truthy (flag a ''file'')" "truthy (flag a ''template-name'')" "read_json_file E (flag a ''file'') = Inr raw"
    "list_first E (Some 500) [] = (Inr d, tr)" "items_of d = Inr items" "find (named (flag a ''template-name'')) items = Some x"
    "bind_js (file_accounts raw) (planned_accounts (flag a ''template-name'') (map Some (asArray (flag a ''skip-name'')))) = Inr planned"
    "\<not> truthy (flag a ''dry-run'')"
  shows "\<exists>n. n \<le> length (filter (\<lambda>y. \<not> member (getp y ''name'') (map (\<lambda>y. getp y ''name'') items)) planned)
    \<and> sent ''POST'' (snd (import_json E a [])) = map (\<lambda>y. (base_url E @ ''/api/v1/admin/accounts'', Some (import_payload (template_of x) y)))
         (take n (filter (\<lambda>y. \<not> member (getp y ''name'') (map (\<lambda>y. getp y ''name'') items)) planned))
    \<and> (fst (import_json E a []) = Inr () \<longrightarrow> n = length (filter (\<lambda>y. \<not> member (getp y ''name'') (map (\<lambda>y. getp y ''name'') items)) planned))"
proof -
  let ?ex = "map (\<lambda>y. getp y ''name'') items"
  have before: "sent ''POST'' tr = []" using list_first_sends [OF _ assms(4), of "''POST''"] by simp
  obtain v where v: "read_prop (Some raw) ''accounts'' = Inr v"
    using assms(7) by (cases "read_prop (Some raw) ''accounts''") (simp_all add: file_accounts_def bind_js_def)
  obtain r tr' where r: "import_all E (template_of x) ?ex planned [] tr = (r, tr')" by fastforce
  obtain n where n: "n \<le> length (filter (\<lambda>y. \<not> member (getp y ''name'') ?ex) planned)"
    "sent ''POST'' tr' = map (\<lambda>y. (base_url E @ ''/api/v1/admin/accounts'', Some (import_payload (template_of x) y))) (take n (filter (\<lambda>y. \<not> member (getp y ''name'') ?ex) planned))"
    "r \<in> range Inr \<longrightarrow> n = length (filter (\<lambda>y. \<not> member (getp y ''name'') ?ex) planned)"
    by (rule sends_eachD [OF import_all_sends r]) (simp add: before)
  have sent_run: "import_json E a [] = (case r of Inl e \<Rightarrow> (Inl e, tr') | Inr rs \<Rightarrow> (Inr (), tr' @ [Print (Some (JObj [(''imported'', JArr rs)]))]))"
    unfolding import_json_def Let_def
    by (simp only: assms(1-3,5-8) v if_True if_False not_True_eq_False not_False_eq_True cmd_lift_Inr cmd_step [where m = "list_first E (Some 500)" and tr = "[]", OF assms(4)] option.case)
       (rule cmd_then_emit [where m = "import_all E (template_of x) ?ex planned []", OF r])
  have "sent ''POST'' (snd (import_json E a [])) = sent ''POST'' tr'" "fst (import_json E a []) = Inr () \<longrightarrow> r \<in> range Inr"
    unfolding sent_run by (cases r; simp)+
  then show ?thesis using n by (intro exI [of _ n]) simp
qed

section \<open>What the two commands change\<close>

interpretation deleting: request_policy "\<lambda>m _ _. m = ''GET'' \<or> m = ''DELETE''" "\<lambda>m. m = ''GET'' \<or> m = ''DELETE''"
  by unfold_locales

interpretation creating: request_policy "\<lambda>m _ _. m = ''GET'' \<or> m = ''POST''" "\<lambda>m. m = ''GET'' \<or> m = ''POST''"
  by unfold_locales

text \<open>An API that lists two accounts and accepts every other request, and a file with two new accounts of one name, for the examples.\<close>

definition sample_accounts :: "json list" where
  "sample_accounts = [JObj [(''id'', JNum 1), (''name'', JStr ''main'')], JObj [(''id'', JNum 2), (''name'', JStr ''old'')]]"

definition sample_js :: js_env where
  "sample_js = \<lparr>je_parse = (\<lambda>t. if t = ''list'' then Some (JObj [(''data'', JObj [(''items'', JArr sample_accounts)])])
       else if t = ''file'' then Some (JObj [(''accounts'', JArr [JObj [(''name'', JStr ''old'')], JObj [(''name'', JStr ''new'')], JObj [(''name'', JStr ''new'')]])])
       else Some (JObj [(''data'', JObj [(''id'', JNum 9)])])),
     je_num = (\<lambda>q. if q = 1 then ''1'' else ''2''), je_number = (\<lambda>_. None), je_object_number = (\<lambda>_. None)\<rparr>"

definition sample_admin :: admin_env where
  "sample_admin = \<lparr>ae_base = ''http://h/'', ae_key = ''k'', ae_jwt = '''', ae_js = sample_js, ae_pretty = (\<lambda>_. ''''),
     ae_answer = (\<lambda>tr. Inr (True, '''', if length tr = 1 then ''list'' else ''ok'')), ae_read = (\<lambda>_. Inr ''file''), ae_write = (\<lambda>_. None), ae_resolve = (\<lambda>p. p)\<rparr>"

definition sample_data :: "json option" where
  "sample_data = Some (JObj [(''items'', JArr sample_accounts)])"

definition keep_main :: admin_args where
  "keep_main = parse_admin_args [''accounts'', ''keep-only'', ''--name'', ''main'']"

definition import_new :: admin_args where
  "import_new = parse_admin_args [''accounts'', ''import-json'', ''--file'', ''f'', ''--template-name'', ''main'']"

lemma sample_lists:
  "list_first sample_admin (number_flag sample_admin keep_main ''page-size'' 500) [] = (Inr sample_data, snd (list_first sample_admin (number_flag sample_admin keep_main ''page-size'' 500) []))"
  "list_first sample_admin (Some 500) [] = (Inr sample_data, snd (list_first sample_admin (Some 500) []))"
proof -
  have "fst (list_first sample_admin (number_flag sample_admin keep_main ''page-size'' 500) []) = Inr sample_data" "fst (list_first sample_admin (Some 500) []) = Inr sample_data"
    by code_simp+
  then show "list_first sample_admin (number_flag sample_admin keep_main ''page-size'' 500) [] = (Inr sample_data, snd (list_first sample_admin (number_flag sample_admin keep_main ''page-size'' 500) []))"
    "list_first sample_admin (Some 500) [] = (Inr sample_data, snd (list_first sample_admin (Some 500) []))"
    by (simp_all add: prod_eq_iff)
qed

lemma sample_items: "items_of sample_data = Inr sample_accounts"
  by code_simp

text \<open>
  C37: \<^verbatim>\<open>accounts keep-only\<close> deletes, in the order of the list, accounts of the listed page whose name is another one, each once, and
  none at all when the account to keep is not listed; when it ends well it has deleted every one of them. Accounts that the page does not
  list stay.
\<close>

theorem keep_only_spares_the_named:
  assumes "truthy (flag a ''name'')" "list_first E (number_flag E a ''page-size'' 500) [] = (Inr d, tr)" "items_of d = Inr items"
  shows "list_all (sent_by E (\<lambda>m _ _. m = ''GET'' \<or> m = ''DELETE'')) (snd (keep_only E a []))
    \<and> prefix (sent ''DELETE'' (snd (keep_only E a []))) (map (\<lambda>x. (base_url E @ item_path E x, None)) (unwanted (flag a ''name'') items))
    \<and> (fst (keep_only E a []) = Inr () \<longrightarrow> list_ex (named (flag a ''name'')) items
         \<and> sent ''DELETE'' (snd (keep_only E a [])) = map (\<lambda>x. (base_url E @ item_path E x, None)) (unwanted (flag a ''name'') items))"
proof (intro conjI impI)
  show "list_all (sent_by E (\<lambda>m _ _. m = ''GET'' \<or> m = ''DELETE'')) (snd (keep_only E a []))"
    by (intro emits_from_nothing deleting.emits_keep_only) simp_all
  obtain n where n: "n \<le> length (unwanted (flag a ''name'') items)"
    "sent ''DELETE'' (snd (keep_only E a [])) = map (\<lambda>x. (base_url E @ item_path E x, None)) (take n (unwanted (flag a ''name'') items))"
    "fst (keep_only E a []) = Inr () \<longrightarrow> n = length (unwanted (flag a ''name'') items) \<and> list_ex (named (flag a ''name'')) items"
    using keep_only_sends [OF assms] by blast
  show "prefix (sent ''DELETE'' (snd (keep_only E a []))) (map (\<lambda>x. (base_url E @ item_path E x, None)) (unwanted (flag a ''name'') items))"
    unfolding n(2) by (intro map_mono_prefix take_is_prefix)
  assume "fst (keep_only E a []) = Inr ()"
  then show "list_ex (named (flag a ''name'')) items" "sent ''DELETE'' (snd (keep_only E a [])) = map (\<lambda>x. (base_url E @ item_path E x, None)) (unwanted (flag a ''name'') items)"
    using n by simp_all
qed

theorem keep_only_spares_the_named_witness:
  "sent ''DELETE'' (snd (keep_only sample_admin keep_main [])) = [(''http://h/api/v1/admin/accounts/2'', None)]
    \<and> list_all (sent_by sample_admin (\<lambda>m _ _. m = ''GET'' \<or> m = ''DELETE'')) (snd (keep_only sample_admin keep_main []))"
proof -
  have h: "truthy (flag keep_main ''name'')" "fst (keep_only sample_admin keep_main []) = Inr ()" by code_simp+
  have "map (\<lambda>x. (base_url sample_admin @ item_path sample_admin x, None)) (unwanted (flag keep_main ''name'') sample_accounts)
      = [(''http://h/api/v1/admin/accounts/2'', None :: json option)]" by code_simp
  then show ?thesis
    using keep_only_spares_the_named [OF h(1) sample_lists(1) sample_items] h(2) by simp
qed

lemma planned_accounts_filter:
  assumes "file_accounts raw = Inr xs" "JNull \<notin> set xs"
  shows "bind_js (file_accounts raw) (planned_accounts nm skip) = Inr (filter (\<lambda>y. \<not> same_value (getp y ''name'') nm \<and> \<not> member (getp y ''name'') skip) xs)"
  using assms by (simp add: planned_accounts_def)

text \<open>
  C38: without \<^verbatim>\<open>--dry-run\<close> the import creates, in the order of the file, the accounts that are neither the template nor skipped
  nor on the listed page, with the group, concurrency, priority and model mapping of the template, and nothing else; when it ends well it
  has created every one of them. Two new accounts of one name in the file are both created.
\<close>

theorem import_creates_the_missing_accounts:
  assumes "truthy (flag a ''file'')" "truthy (flag a ''template-name'')" "read_json_file E (flag a ''file'') = Inr raw"
    "list_first E (Some 500) [] = (Inr d, tr)" "items_of d = Inr items" "find (named (flag a ''template-name'')) items = Some x"
    "file_accounts raw = Inr xs" "JNull \<notin> set xs"
    "\<not> truthy (flag a ''dry-run'')"
    "missing = filter (\<lambda>y. \<not> same_value (getp y ''name'') (flag a ''template-name'') \<and> \<not> member (getp y ''name'') (map Some (asArray (flag a ''skip-name'')))
       \<and> \<not> member (getp y ''name'') (map (\<lambda>y. getp y ''name'') items)) xs"
  shows "list_all (sent_by E (\<lambda>m _ _. m = ''GET'' \<or> m = ''POST'')) (snd (import_json E a []))
    \<and> prefix (sent ''POST'' (snd (import_json E a []))) (map (\<lambda>y. (base_url E @ ''/api/v1/admin/accounts'', Some (import_payload (template_of x) y))) missing)
    \<and> (fst (import_json E a []) = Inr () \<longrightarrow> sent ''POST'' (snd (import_json E a [])) = map (\<lambda>y. (base_url E @ ''/api/v1/admin/accounts'', Some (import_payload (template_of x) y))) missing)"
proof (intro conjI impI)
  show "list_all (sent_by E (\<lambda>m _ _. m = ''GET'' \<or> m = ''POST'')) (snd (import_json E a []))"
    by (intro emits_from_nothing creating.emits_import_json) simp_all
  obtain n where n: "n \<le> length missing"
    "sent ''POST'' (snd (import_json E a [])) = map (\<lambda>y. (base_url E @ ''/api/v1/admin/accounts'', Some (import_payload (template_of x) y))) (take n missing)"
    "fst (import_json E a []) = Inr () \<longrightarrow> n = length missing"
    using import_json_sends [OF assms(1-6) planned_accounts_filter [OF assms(7,8)] assms(9)] unfolding assms(10) filter_filter conj_assoc by blast
  show "prefix (sent ''POST'' (snd (import_json E a []))) (map (\<lambda>y. (base_url E @ ''/api/v1/admin/accounts'', Some (import_payload (template_of x) y))) missing)"
    unfolding n(2) by (intro map_mono_prefix take_is_prefix)
  assume "fst (import_json E a []) = Inr ()"
  then show "sent ''POST'' (snd (import_json E a [])) = map (\<lambda>y. (base_url E @ ''/api/v1/admin/accounts'', Some (import_payload (template_of x) y))) missing"
    using n by simp
qed

theorem import_creates_the_missing_accounts_witness:
  "length (sent ''POST'' (snd (import_json sample_admin import_new []))) = 2
    \<and> list_all (sent_by sample_admin (\<lambda>m _ _. m = ''GET'' \<or> m = ''POST'')) (snd (import_json sample_admin import_new []))"
proof -
  let ?new = "JObj [(''name'', JStr ''new'')]"
  let ?raw = "JObj [(''accounts'', JArr [JObj [(''name'', JStr ''old'')], ?new, ?new])]"
  have h: "truthy (flag import_new ''file'')" "truthy (flag import_new ''template-name'')"
    "read_json_file sample_admin (flag import_new ''file'') = Inr ?raw"
    "find (named (flag import_new ''template-name'')) sample_accounts = Some (hd sample_accounts)"
    "file_accounts ?raw = Inr [JObj [(''name'', JStr ''old'')], ?new, ?new]" "JNull \<notin> set [JObj [(''name'', JStr ''old'')], ?new, ?new]"
    "\<not> truthy (flag import_new ''dry-run'')"
    "[?new, ?new] = filter (\<lambda>y. \<not> same_value (getp y ''name'') (flag import_new ''template-name'') \<and> \<not> member (getp y ''name'') (map Some (asArray (flag import_new ''skip-name'')))
       \<and> \<not> member (getp y ''name'') (map (\<lambda>y. getp y ''name'') sample_accounts)) [JObj [(''name'', JStr ''old'')], ?new, ?new]"
    "fst (import_json sample_admin import_new []) = Inr ()"
    by code_simp+
  show ?thesis
    using import_creates_the_missing_accounts [OF h(1-3) sample_lists(2) sample_items h(4-8)] h(9) by simp
qed

end
