(* ===== verification/Edge_Curl.thy ===== *)
theory Edge_Curl
  imports Setup_Text
begin

text \<open>
  Reading a curl command in the console's workbench for edge services: \<^verbatim>\<open>tokenizeCurl\<close> and \<^verbatim>\<open>parseEdgeCurl\<close> of
  \<^verbatim>\<open>features/edge/curl.ts\<close>. The class \<^verbatim>\<open>URL\<close> of the browser is a parameter; a URL is its text. In a regular
  expression the dot is every character except the line ends.
\<close>

section \<open>Requests\<close>

datatype edge_method = GET | POST | PUT | PATCH | DELETE

datatype body_mode = No_body | Json_body | Form_body

record key_value =
  kv_name :: string
  kv_value :: string

datatype field_kind = File | Text

record form_field =
  ff_name :: string
  ff_value :: string
  ff_kind :: field_kind

record edge_request =
  er_form :: "form_field list"
  er_method :: edge_method
  er_url :: string
  er_headers :: "key_value list"
  er_query :: "key_value list"
  er_body :: string
  er_mode :: body_mode
  er_model :: string
  er_warnings :: "string list"

record url_env =
  ue_parse :: "string \<Rightarrow> string option"  \<comment> \<open>\<^verbatim>\<open>new URL(text).href\<close>\<close>
  ue_resolve :: "string \<Rightarrow> string \<Rightarrow> string option"  \<comment> \<open>\<^verbatim>\<open>new URL(text, base).href\<close>\<close>
  ue_pathname :: "string \<Rightarrow> string"
  ue_search :: "string \<Rightarrow> string"
  ue_hash :: "string \<Rightarrow> string"
  ue_set_pathname :: "string \<Rightarrow> string \<Rightarrow> string"
  ue_set_search :: "string \<Rightarrow> string \<Rightarrow> string"
  ue_set_hash :: "string \<Rightarrow> string \<Rightarrow> string"
  ue_params :: "string \<Rightarrow> (string \<times> string) list"  \<comment> \<open>\<^verbatim>\<open>searchParams.forEach\<close>\<close>
  ue_append :: "string \<Rightarrow> string \<Rightarrow> string \<Rightarrow> string"
  ue_set_param :: "string \<Rightarrow> string \<Rightarrow> string \<Rightarrow> string"
  ue_json :: "string \<Rightarrow> json option"  \<comment> \<open>\<^verbatim>\<open>JSON.parse\<close>\<close>

section \<open>Words\<close>

abbreviation NL :: char where "NL \<equiv> CHR 0x0A"
abbreviation CR :: char where "CR \<equiv> CHR 0x0D"

text \<open>\<^verbatim>\<open>stripTrailingShellContinuations\<close>\<close>

fun strip_continuations :: "string \<Rightarrow> string" where
  "strip_continuations [] = []"
| "strip_continuations (c # s) =
     (if c \<noteq> BS then c # strip_continuations s
      else (case s of
          [] \<Rightarrow> [c]
        | d # r \<Rightarrow>
            if d = NL then CHR '' '' # strip_continuations r
            else if d = CR then CHR '' '' # (case r of e # r' \<Rightarrow> if e = NL then strip_continuations r' else strip_continuations r | [] \<Rightarrow> [])
            else c # strip_continuations s))"

record tokenizer =
  tk_tokens :: "string list"
  tk_token :: string
  tk_quote :: "char option"
  tk_escaping :: bool
  tk_started :: bool

definition push_token :: "tokenizer \<Rightarrow> tokenizer" where
  "push_token k = (if tk_started k then k\<lparr>tk_tokens := tk_tokens k @ [tk_token k], tk_token := [], tk_started := False\<rparr> else k)"

definition add_char :: "char \<Rightarrow> tokenizer \<Rightarrow> tokenizer" where
  "add_char c k = k\<lparr>tk_token := tk_token k @ [c], tk_started := True\<rparr>"

definition tokenize_char :: "char \<Rightarrow> tokenizer \<Rightarrow> tokenizer" where
  "tokenize_char c k =
     (if tk_escaping k then (add_char c k)\<lparr>tk_escaping := False\<rparr>
      else if c = BS \<and> tk_quote k \<noteq> Some SQ then k\<lparr>tk_escaping := True, tk_started := True\<rparr>
      else (case tk_quote k of
          Some q \<Rightarrow> if c = q then k\<lparr>tk_quote := None, tk_started := True\<rparr> else add_char c k
        | None \<Rightarrow>
            if c = DQ \<or> c = SQ then k\<lparr>tk_quote := Some c, tk_started := True\<rparr>
            else if is_ws c then push_token k
            else add_char c k))"

definition no_tokens :: tokenizer where
  "no_tokens = \<lparr>tk_tokens = [], tk_token = [], tk_quote = None, tk_escaping = False, tk_started = False\<rparr>"

definition end_tokens :: "tokenizer \<Rightarrow> string list" where
  "end_tokens k = tk_tokens (push_token (if tk_escaping k then k\<lparr>tk_token := tk_token k @ [BS]\<rparr> else k))"

definition tokenizeCurl :: "string \<Rightarrow> string list" where
  "tokenizeCurl input = end_tokens (fold tokenize_char (trim (strip_continuations input)) no_tokens)"

section \<open>Parts of options\<close>

definition line_end :: "char \<Rightarrow> bool" where
  "line_end c \<longleftrightarrow> c = NL \<or> c = CR"

definition word_char :: "char \<Rightarrow> bool" where
  "word_char c \<longleftrightarrow> (let n = of_char c :: nat in 65 \<le> n \<and> n \<le> 90 \<or> 97 \<le> n \<and> n \<le> 122 \<or> 48 \<le> n \<and> n \<le> 57 \<or> n = 95)"

text \<open>\<^verbatim>\<open>/^([^:]+):\s*(.*)$/\<close>\<close>

definition parseHeader :: "string \<Rightarrow> key_value option" where
  "parseHeader v = (let n = takeWhile (\<lambda>c. c \<noteq> CHR '':'') v; r = dropWhile (\<lambda>c. c \<noteq> CHR '':'') v in
     case r of [] \<Rightarrow> None
     | _ # rest \<Rightarrow>
         if n = [] \<or> list_ex line_end (dropWhile is_ws rest) \<or> trim n = [] then None
         else Some \<lparr>kv_name = trim n, kv_value = trim (dropWhile is_ws rest)\<rparr>)"

definition parseKeyValue :: "string \<Rightarrow> key_value" where
  "parseKeyValue v = (if CHR ''='' \<notin> set v then \<lparr>kv_name = trim v, kv_value = []\<rparr>
     else \<lparr>kv_name = trim (takeWhile (\<lambda>c. c \<noteq> CHR ''='') v), kv_value = tl (dropWhile (\<lambda>c. c \<noteq> CHR ''='') v)\<rparr>)"

definition upper_ascii :: "char \<Rightarrow> char" where
  "upper_ascii c = (let n = of_char c :: nat in if 97 \<le> n \<and> n \<le> 122 then char_of (n - 32) else c)"

definition REQUEST_METHODS :: "(string \<times> edge_method) list" where
  "REQUEST_METHODS = [(''GET'', GET), (''POST'', POST), (''PUT'', PUT), (''PATCH'', PATCH), (''DELETE'', DELETE)]"

definition inferMethod :: "string option \<Rightarrow> bool \<Rightarrow> bool \<Rightarrow> edge_method" where
  "inferMethod explicit has_body force_get =
     (if force_get then GET
      else (case Option.bind explicit (\<lambda>m. map_of REQUEST_METHODS (map upper_ascii (trim m))) of
          Some m \<Rightarrow> m | None \<Rightarrow> if has_body then POST else GET))"

text \<open>\<^verbatim>\<open>/(?:^|;)\s*application\/(?:[\w.+-]*\+)?json/i\<close>, on the text in lower case\<close>

fun plus_json :: "string \<Rightarrow> bool" where
  "plus_json [] = False"
| "plus_json (c # s) = ((word_char c \<or> c \<in> {CHR ''.'', CHR ''+'', CHR ''-''}) \<and> (c = CHR ''+'' \<and> starts_with s ''json'' \<or> plus_json s))"

definition json_here :: "string \<Rightarrow> bool" where
  "json_here s = (let t = dropWhile is_ws s in
     starts_with t ''application/'' \<and> (starts_with (drop 12 t) ''json'' \<or> plus_json (drop 12 t)))"

definition json_type :: "string \<Rightarrow> bool" where
  "json_type content_type = (let parts = split_on CHR '';'' (lower content_type) in
     list_ex (\<lambda>n. json_here (join_with '';'' (drop n parts))) [0..<length parts])"

definition inferBodyMode :: "string \<Rightarrow> bool \<Rightarrow> body_mode" where
  "inferBodyMode content_type multipart = (if multipart then Form_body else if json_type content_type then Json_body else No_body)"

definition extractModel :: "url_env \<Rightarrow> string \<Rightarrow> string \<Rightarrow> string" where
  "extractModel U body content_type =
     (if trim body = [] \<or> \<not> json_type content_type then []
      else (case ue_json U body of None \<Rightarrow> []
        | Some d \<Rightarrow> (case getp d ''model'' of Some (JStr m) \<Rightarrow> trim m | _ \<Rightarrow> [])))"

section \<open>The arguments\<close>

record curl_state =
  cs_method :: "string option"
  cs_url :: string
  cs_body :: string
  cs_get :: bool
  cs_multipart :: bool
  cs_headers :: "key_value list"
  cs_form :: "form_field list"
  cs_warnings :: "string list"

definition curl_start :: curl_state where
  "curl_start = \<lparr>cs_method = None, cs_url = [], cs_body = [], cs_get = False, cs_multipart = False, cs_headers = [], cs_form = [], cs_warnings = []\<rparr>"

definition METHOD_FLAGS :: "string list" where
  "METHOD_FLAGS = [''-X'', ''--request'']"

definition HEADER_FLAGS :: "string list" where
  "HEADER_FLAGS = [''-H'', ''--header'']"

definition DATA_FLAGS :: "string list" where
  "DATA_FLAGS = [''-d'', ''--data'', ''--data-raw'', ''--data-binary'', ''--data-urlencode'']"

definition FORM_FLAGS :: "string list" where
  "FORM_FLAGS = [''-F'', ''--form'', ''--form-string'']"

text \<open>Options whose value becomes a header, with its name and what is written in front.\<close>

definition HEADER_OPTIONS :: "(string \<times> string \<times> string) list" where
  "HEADER_OPTIONS =
     [(''-u'', ''Authorization'', ''Basic ''), (''--user'', ''Authorization'', ''Basic ''), (''-b'', ''Cookie'', ''''), (''--cookie'', ''Cookie'', ''''),
      (''-A'', ''User-Agent'', ''''), (''--user-agent'', ''User-Agent'', ''''), (''-e'', ''Referer'', ''''), (''--referer'', ''Referer'', '''')]"

definition OUTPUT_FLAGS :: "string list" where
  "OUTPUT_FLAGS = [''-o'', ''--output'']"

definition VALUE_FLAGS :: "string list" where
  "VALUE_FLAGS = [''-A'', ''--user-agent'', ''-b'', ''--cookie'', ''-c'', ''--cookie-jar'', ''-e'', ''--referer'', ''--connect-timeout'', ''--max-time'',
     ''--proxy'', ''--resolve'', ''--retry'', ''--retry-delay'', ''--retry-max-time'']"

definition IGNORED_FLAGS :: "string list" where
  "IGNORED_FLAGS = [''-4'', ''-6'', ''-f'', ''-g'', ''-i'', ''-k'', ''-L'', ''-N'', ''-s'', ''-S'', ''-v'', ''--compressed'',
     ''--fail'', ''--fail-with-body'', ''--insecure'', ''--location'', ''--no-buffer'', ''--silent'', ''--show-error'']"

definition takes_value :: "string \<Rightarrow> bool" where
  "takes_value f \<longleftrightarrow> f \<in> set METHOD_FLAGS \<or> f \<in> set HEADER_FLAGS \<or> f \<in> set DATA_FLAGS \<or> f \<in> set FORM_FLAGS \<or> f = ''--url''
     \<or> map_of HEADER_OPTIONS f \<noteq> None \<or> f \<in> set OUTPUT_FLAGS \<or> f \<in> set VALUE_FLAGS"

text \<open>\<^verbatim>\<open>token.match(/^(--[\w-]+)=(.*)$/)\<close>: the flag and its value, if it has one.\<close>

definition split_flag :: "string \<Rightarrow> string \<times> string option" where
  "split_flag t = (let k = takeWhile (\<lambda>c. word_char c \<or> c = CHR ''-'') (drop 2 t); r = dropWhile (\<lambda>c. word_char c \<or> c = CHR ''-'') (drop 2 t) in
     if starts_with t ''--'' \<and> k \<noteq> [] \<and> starts_with r ''='' \<and> \<not> list_ex line_end (tl r) then (''--'' @ k, Some (tl r)) else (t, None))"

definition add_data :: "string \<Rightarrow> curl_state \<Rightarrow> curl_state" where
  "add_data v s = s\<lparr>cs_body := (if cs_body s \<noteq> [] then cs_body s @ ''&'' @ v else v)\<rparr>"

definition add_header :: "string \<Rightarrow> curl_state \<Rightarrow> curl_state" where
  "add_header v s = (case parseHeader v of None \<Rightarrow> s | Some h \<Rightarrow> s\<lparr>cs_headers := cs_headers s @ [h]\<rparr>)"

text \<open>\<^verbatim>\<open>.slice(1).replace(/^"(.*)"$/, '$1')\<close>\<close>

definition file_value :: "string \<Rightarrow> string" where
  "file_value v = (let w = tl v in
     if 2 \<le> length w \<and> hd w = DQ \<and> last w = DQ \<and> \<not> list_ex line_end (butlast (tl w)) then butlast (tl w) else w)"

definition add_form :: "bool \<Rightarrow> string \<Rightarrow> curl_state \<Rightarrow> curl_state" where
  "add_form literal v s = (let kv = parseKeyValue v; is_file = \<not> literal \<and> starts_with (kv_value kv) ''@'' in
     s\<lparr>cs_multipart := True, cs_form := cs_form s @
       [\<lparr>ff_name = kv_name kv, ff_value = (if is_file then file_value (kv_value kv) else kv_value kv), ff_kind = (if is_file then File else Text)\<rparr>]\<rparr>)"

definition value_or_empty :: "string option \<Rightarrow> string" where
  "value_or_empty v = (case v of None \<Rightarrow> [] | Some t \<Rightarrow> t)"

definition apply_value :: "string \<Rightarrow> string option \<Rightarrow> curl_state \<Rightarrow> curl_state" where
  "apply_value f v s =
     (if f \<in> set METHOD_FLAGS then s\<lparr>cs_method := v\<rparr>
      else if f \<in> set HEADER_FLAGS then add_header (value_or_empty v) s
      else if f \<in> set DATA_FLAGS then add_data (value_or_empty v) s
      else if f \<in> set FORM_FLAGS then add_form (f = ''--form-string'') (value_or_empty v) s
      else if f = ''--url'' then (case v of None \<Rightarrow> s | Some u \<Rightarrow> s\<lparr>cs_url := u\<rparr>)
      else (case map_of HEADER_OPTIONS f of
          Some (n, p) \<Rightarrow> if value_or_empty v = [] then s else s\<lparr>cs_headers := cs_headers s @ [\<lparr>kv_name = n, kv_value = p @ value_or_empty v\<rparr>]\<rparr>
        | None \<Rightarrow> s\<lparr>cs_warnings := cs_warnings s @ [(if f \<in> set OUTPUT_FLAGS then ''ignored curl output option: '' else ''ignored curl option: '') @ f]\<rparr>))"

text \<open>\<^verbatim>\<open>/^[a-z][a-z\d+.-]*:\/\//i\<close>\<close>

definition has_scheme :: "string \<Rightarrow> bool" where
  "has_scheme t = (let letter = (\<lambda>c. word_char c \<and> \<not> is_digit c \<and> c \<noteq> CHR ''_'') in
     (case t of [] \<Rightarrow> False
      | c # r \<Rightarrow> letter c \<and> starts_with (dropWhile (\<lambda>c. letter c \<or> is_digit c \<or> c \<in> {CHR ''+'', CHR ''.'', CHR ''-''}) r) ''://''))"

definition apply_plain :: "string \<Rightarrow> string \<Rightarrow> curl_state \<Rightarrow> curl_state" where
  "apply_plain f t s =
     (if f = ''-G'' \<or> f = ''--get'' then s\<lparr>cs_get := True\<rparr>
      else if f \<in> set IGNORED_FLAGS \<or> starts_with f ''--'' then s
      else if starts_with f ''-X'' \<and> 2 < length f then s\<lparr>cs_method := Some (drop 2 f)\<rparr>
      else if starts_with f ''-H'' \<and> 2 < length f then add_header (drop 2 f) s
      else if starts_with f ''-d'' \<and> 2 < length f then add_data (drop 2 f) s
      else if cs_url s = [] \<and> (has_scheme t \<or> starts_with t ''/'') then s\<lparr>cs_url := t\<rparr>
      else s)"

fun parse_arguments :: "string list \<Rightarrow> curl_state \<Rightarrow> curl_state" where
  "parse_arguments [] s = s"
| "parse_arguments (t # ts) s =
     (if t = [] then parse_arguments ts s
      else if t = ''--'' then (case ts of u # _ \<Rightarrow> if cs_url s = [] then s\<lparr>cs_url := u\<rparr> else s | [] \<Rightarrow> s)
      else (case split_flag t of (f, inline) \<Rightarrow>
        if takes_value f then
          (case inline of
             Some v \<Rightarrow> parse_arguments ts (apply_value f (Some v) s)
           | None \<Rightarrow> (case ts of [] \<Rightarrow> apply_value f None s | v # rest \<Rightarrow> parse_arguments rest (apply_value f (Some v) s)))
        else parse_arguments ts (apply_plain f t s)))"

section \<open>The request\<close>

definition UNSTABLE_HEADERS :: "string list" where
  "UNSTABLE_HEADERS = [''content-length'', ''host'', ''connection'', ''transfer-encoding'']"

definition find_header :: "string \<Rightarrow> key_value list \<Rightarrow> string" where
  "find_header nm hs = (case find (\<lambda>h. lower (kv_name h) = nm) hs of None \<Rightarrow> [] | Some h \<Rightarrow> kv_value h)"

definition field_text :: "form_field \<Rightarrow> string" where
  "field_text f = ff_name f @ ''='' @ (if ff_kind f = File then ''@'' else []) @ ff_value f"

definition first_nonempty :: "string list \<Rightarrow> string" where
  "first_nonempty ts = (case find (\<lambda>t. t \<noteq> []) ts of None \<Rightarrow> [] | Some t \<Rightarrow> t)"

definition finish_request :: "url_env \<Rightarrow> curl_state \<Rightarrow> string \<Rightarrow> edge_request" where
  "finish_request U s url =
     (let method = inferMethod (cs_method s) (cs_body s \<noteq> [] \<or> cs_form s \<noteq> []) (cs_get s);
          params = map (\<lambda>(n, v). \<lparr>kv_name = n, kv_value = v\<rparr>) (ue_params U url);
          moved = cs_get s \<and> cs_body s \<noteq> [];
          query = (if moved then params @ map parseKeyValue (split_on CHR ''&'' (cs_body s)) else params);
          body = (if moved then [] else cs_body s);
          content_type = find_header ''content-type'' (cs_headers s);
          headers = (if content_type = [] \<and> trim body \<noteq> [] then cs_headers s @ [\<lparr>kv_name = ''Content-Type'', kv_value = ''application/json''\<rparr>] else cs_headers s);
          model = first_nonempty
            [extractModel U body (if content_type = [] then ''application/json'' else content_type), trim (find_header ''model'' query),
             trim (case find (\<lambda>f. lower (ff_name f) = ''model'') (cs_form s) of None \<Rightarrow> [] | Some f \<Rightarrow> ff_value f)]
      in \<lparr>er_form = cs_form s, er_method = method, er_url = ue_set_search U [] url,
          er_headers = filter (\<lambda>h. lower (kv_name h) \<notin> set UNSTABLE_HEADERS) headers, er_query = query,
          er_body = (if cs_multipart s then join_with ''&'' (map field_text (cs_form s)) else body),
          er_mode = inferBodyMode content_type (cs_multipart s), er_model = model, er_warnings = cs_warnings s\<rparr>)"

definition parseEdgeCurl :: "url_env \<Rightarrow> string \<Rightarrow> thrown + edge_request" where
  "parseEdgeCurl U input = (case tokenizeCurl input of
     [] \<Rightarrow> Inl (plain_error ''curl command is empty'')
   | t # ts \<Rightarrow>
       let s = parse_arguments (if lower t = ''curl'' then ts else t # ts) curl_start in
       if cs_url s = [] then Inl (plain_error ''curl URL is missing'')
       else (case ue_parse U (cs_url s) of
           None \<Rightarrow> Inl (plain_error ''curl URL is invalid'')
         | Some url \<Rightarrow> Inr (finish_request U s url)))"

end
