(* ===== verification/Edge_Build.thy ===== *)
theory Edge_Build
  imports Edge_Curl "HOL-Library.AList"
begin

text \<open>
  Writing the request of the workbench as a curl command: the other half of \<^verbatim>\<open>features/edge/curl.ts\<close>.
\<close>

section \<open>Secrets\<close>

definition SENSITIVE_HEADERS :: "string list" where
  "SENSITIVE_HEADERS = [''authorization'', ''proxy-authorization'', ''x-api-key'', ''api-key'', ''x-goog-api-key'']"

definition sensitive :: "string \<Rightarrow> bool" where
  "sensitive nm \<longleftrightarrow> lower nm \<in> set SENSITIVE_HEADERS"

definition sanitize_header :: "string \<Rightarrow> key_value \<Rightarrow> key_value" where
  "sanitize_header key h = (let n = trim (kv_name h) in
     \<lparr>kv_name = n,
      kv_value = (if sensitive n then (if lower n \<in> {''authorization'', ''proxy-authorization''} then ''Bearer '' @ key else key) else kv_value h)\<rparr>)"

definition sanitizeHeaders :: "key_value list \<Rightarrow> string \<Rightarrow> key_value list" where
  "sanitizeHeaders hs key = filter (\<lambda>h. kv_name h \<noteq> []) (map (sanitize_header key) hs)"

section \<open>The command\<close>

record edge_options =
  eo_form :: "form_field list option"
  eo_output :: string
  eo_origin :: string
  eo_method :: edge_method
  eo_url :: string
  eo_headers :: "key_value list"
  eo_query :: "key_value list"
  eo_body :: string
  eo_mode :: body_mode
  eo_placeholder :: "string option"
  eo_inject :: bool

definition placeholder :: "edge_options \<Rightarrow> string" where
  "placeholder o1 = (case eo_placeholder o1 of None \<Rightarrow> ''$SUB2API_KEY'' | Some k \<Rightarrow> k)"

definition quoteShell :: "string \<Rightarrow> string" where
  "quoteShell v = SQ # concat (map (\<lambda>c. if c = SQ then [SQ, BS, SQ, SQ] else [c]) v) @ [SQ]"

definition appendQuery :: "url_env \<Rightarrow> string \<Rightarrow> key_value list \<Rightarrow> string" where
  "appendQuery U text query = (case ue_parse U text of
     None \<Rightarrow> text
   | Some url \<Rightarrow> fold (\<lambda>q u. if trim (kv_name q) \<noteq> [] then ue_append U (trim (kv_name q)) (kv_value q) u else u) query (ue_set_search U [] url))"

definition gatewayUrl :: "url_env \<Rightarrow> string \<Rightarrow> string \<Rightarrow> string" where
  "gatewayUrl U gateway text = (case ue_parse U text of
     None \<Rightarrow> text
   | Some imported \<Rightarrow> (case ue_parse U gateway of
         None \<Rightarrow> text
       | Some origin \<Rightarrow> ue_set_hash U (ue_hash U imported) (ue_set_search U (ue_search U imported) (ue_set_pathname U (ue_pathname U imported) origin))))"

definition command_url :: "url_env \<Rightarrow> edge_options \<Rightarrow> string" where
  "command_url U o1 = appendQuery U (gatewayUrl U (eo_origin o1) (eo_url o1)) (eo_query o1)"

definition command_headers :: "edge_options \<Rightarrow> key_value list" where
  "command_headers o1 = (let hs = sanitizeHeaders (eo_headers o1) (placeholder o1) in
     if eo_inject o1 \<and> \<not> list_ex (\<lambda>h. sensitive (kv_name h)) hs then \<lparr>kv_name = ''Authorization'', kv_value = ''Bearer '' @ placeholder o1\<rparr> # hs else hs)"

text \<open>\<^verbatim>\<open>/^\$[A-Z_][A-Z_0-9]*$/i\<close>\<close>

definition is_variable :: "string \<Rightarrow> bool" where
  "is_variable k \<longleftrightarrow> (case k of d # c # r \<Rightarrow> d = CHR ''$'' \<and> word_char c \<and> \<not> is_digit c \<and> list_all word_char r | _ \<Rightarrow> False)"

definition header_text :: "key_value \<Rightarrow> string" where
  "header_text h = kv_name h @ '': '' @ kv_value h"

definition header_word :: "string \<Rightarrow> key_value \<Rightarrow> string" where
  "header_word key h = (if sensitive (kv_name h) \<and> is_variable key then DQ # header_text h @ [DQ] else quoteShell (header_text h))"

definition sent_headers :: "edge_options \<Rightarrow> key_value list" where
  "sent_headers o1 = filter (\<lambda>h. \<not> (eo_mode o1 = Form_body \<and> lower (kv_name h) = ''content-type'')) (command_headers o1)"

text \<open>\<^verbatim>\<open>edgeFormFields\<close>\<close>

definition field_of_part :: "string \<Rightarrow> form_field" where
  "field_of_part p = (let kv = parseKeyValue p; is_file = starts_with (kv_value kv) ''@'' in
     \<lparr>ff_name = kv_name kv, ff_value = (if is_file then tl (kv_value kv) else kv_value kv), ff_kind = (if is_file then File else Text)\<rparr>)"

definition edgeFormFields :: "form_field list option \<Rightarrow> string \<Rightarrow> form_field list" where
  "edgeFormFields form body = (case form of Some fs \<Rightarrow> fs | None \<Rightarrow> map field_of_part (filter (\<lambda>p. p \<noteq> []) (split_on CHR ''&'' body)))"

definition escape_file :: "string \<Rightarrow> string" where
  "escape_file v = concat (map (\<lambda>c. if c = DQ then [BS, DQ] else [c]) (concat (map (\<lambda>c. if c = BS then [BS, BS] else [c]) v)))"

definition field_flag :: "form_field \<Rightarrow> string" where
  "field_flag f = (if ff_kind f = File then ''-F'' else ''--form-string'')"

definition field_word :: "form_field \<Rightarrow> string" where
  "field_word f = ff_name f @ ''='' @ (if ff_kind f = File then CHR ''@'' # DQ # escape_file (ff_value f) @ [DQ] else ff_value f)"

definition method_text :: "edge_method \<Rightarrow> string" where
  "method_text m = (case m of GET \<Rightarrow> ''GET'' | POST \<Rightarrow> ''POST'' | PUT \<Rightarrow> ''PUT'' | PATCH \<Rightarrow> ''PATCH'' | DELETE \<Rightarrow> ''DELETE'')"

definition body_lines :: "edge_options \<Rightarrow> string list" where
  "body_lines o1 =
     (if eo_mode o1 = Form_body \<and> eo_method o1 \<noteq> GET
      then map (\<lambda>f. ''  '' @ field_flag f @ '' '' @ quoteShell (field_word f)) (edgeFormFields (eo_form o1) (eo_body o1))
      else if eo_mode o1 \<noteq> No_body \<and> trim (eo_body o1) \<noteq> [] \<and> eo_method o1 \<noteq> GET then [''  -d '' @ quoteShell (eo_body o1)]
      else [])"

definition command_lines :: "url_env \<Rightarrow> edge_options \<Rightarrow> string list" where
  "command_lines U o1 =
     [''curl -X '' @ method_text (eo_method o1) @ '' '' @ quoteShell (command_url U o1), ''  --fail-with-body'']
     @ map (\<lambda>h. ''  -H '' @ header_word (placeholder o1) h) (sent_headers o1)
     @ body_lines o1
     @ (if eo_output o1 \<noteq> [] then [''  -o '' @ quoteShell (eo_output o1)] else [])"

definition buildEdgeCurl :: "url_env \<Rightarrow> edge_options \<Rightarrow> string" where
  "buildEdgeCurl U o1 = join_with ('' '' @ [BS, NL]) (command_lines U o1)"

section \<open>Other helpers\<close>

text \<open>\<^verbatim>\<open>JSON.stringify\<close> with indentation is a parameter.\<close>

definition replaceBodyModel :: "url_env \<Rightarrow> (json \<Rightarrow> string) \<Rightarrow> string \<Rightarrow> string \<Rightarrow> string" where
  "replaceBodyModel U pretty body model =
     (if trim model = [] then body
      else (case ue_json U body of
          Some (JObj kvs) \<Rightarrow> pretty (JObj (AList.update ''model'' (JStr (trim model)) kvs))
        | _ \<Rightarrow> body))"

definition applyGatewayPath :: "url_env \<Rightarrow> string \<Rightarrow> string \<Rightarrow> string \<Rightarrow> string" where
  "applyGatewayPath U text gateway path = (case ue_parse U gateway of
     None \<Rightarrow> path
   | Some origin \<Rightarrow>
       let url = ue_set_hash U [] (ue_set_search U [] (ue_set_pathname U (if starts_with path ''/'' then path else ''/'' @ path) origin)) in
       if text = [] then url
       else (case ue_parse U text of None \<Rightarrow> url | Some imported \<Rightarrow> ue_set_search U (ue_search U imported) url))"

end
