(* ===== verification/Edge_Words.thy ===== *)
theory Edge_Words
  imports Edge_Build
begin

text \<open>
  How the command of the workbench is read: by the tokenizer of the workbench itself and by a POSIX shell. What the two have in
  common is the locale \<open>word_reader\<close>: characters are read one after the other, a blank ends a word, and between the lines stands a gap.
\<close>

section \<open>Reading words\<close>

definition plain_word :: "string \<Rightarrow> bool" where
  "plain_word w \<longleftrightarrow> w \<noteq> [] \<and> list_all (\<lambda>c. word_char c \<or> c = CHR ''-'') w"

text \<open>What the sanitized headers are like: the value of a sensitive one is the key, with or without the scheme.\<close>

definition redacted :: "string \<Rightarrow> key_value \<Rightarrow> bool" where
  "redacted key h \<longleftrightarrow> sensitive (kv_name h) \<longrightarrow> kv_value h = key \<or> kv_value h = ''Bearer '' @ key"

text \<open>The words of the command, with the word that a literal text and that a header give.\<close>

definition body_words :: "(string \<Rightarrow> 'w) \<Rightarrow> edge_options \<Rightarrow> 'w list list" where
  "body_words lit o1 =
     (if eo_mode o1 = Form_body \<and> eo_method o1 \<noteq> GET
      then map (\<lambda>f. [lit (field_flag f), lit (field_word f)]) (edgeFormFields (eo_form o1) (eo_body o1))
      else if eo_mode o1 \<noteq> No_body \<and> trim (eo_body o1) \<noteq> [] \<and> eo_method o1 \<noteq> GET then [[lit ''-d'', lit (eo_body o1)]]
      else [])"

definition command_words :: "(string \<Rightarrow> 'w) \<Rightarrow> (string \<Rightarrow> key_value \<Rightarrow> 'w) \<Rightarrow> url_env \<Rightarrow> edge_options \<Rightarrow> 'w list list" where
  "command_words lit head U o1 =
     [[lit ''curl'', lit ''-X'', lit (method_text (eo_method o1)), lit (command_url U o1)], [lit ''--fail-with-body'']]
     @ map (\<lambda>h. [lit ''-H'', head (placeholder o1) h]) (sent_headers o1)
     @ body_words lit o1
     @ (if eo_output o1 \<noteq> [] then [[lit ''-o'', lit (eo_output o1)]] else [])"

lemma sanitized_redacted: "redacted key (sanitize_header key h)"
  by (simp add: redacted_def sanitize_header_def Let_def)

lemma sent_redacted: "h \<in> set (sent_headers o1) \<Longrightarrow> redacted (placeholder o1) h"
proof -
  assume "h \<in> set (sent_headers o1)"
  then have "h = \<lparr>kv_name = ''Authorization'', kv_value = ''Bearer '' @ placeholder o1\<rparr> \<or> h \<in> set (map (sanitize_header (placeholder o1)) (eo_headers o1))"
    by (auto simp: sent_headers_def command_headers_def sanitizeHeaders_def Let_def split: if_splits)
  then show ?thesis using sanitized_redacted by (elim disjE) (auto simp: redacted_def)
qed

lemma plain_words:
  "plain_word ''curl''" "plain_word ''-X''" "plain_word (method_text m)" "plain_word ''--fail-with-body''" "plain_word ''-H''"
  "plain_word (field_flag f)" "plain_word ''-d''" "plain_word ''-o''"
  by (simp_all add: plain_word_def method_text_def field_flag_def word_char_def split: edge_method.split)

locale word_reader =
  fixes step :: "char \<Rightarrow> 's \<Rightarrow> 's" and clean :: "'w list \<Rightarrow> 's" and pending :: "'w list \<Rightarrow> 'w \<Rightarrow> 's" and gap :: string
  assumes blank: "step CHR '' '' (pending ts w) = clean (ts @ [w])"
    and blank_again: "step CHR '' '' (clean ts) = clean ts"
    and across: "fold step gap (pending ts w) = clean (ts @ [w])"
begin

definition spelled :: "string \<Rightarrow> 'w list \<Rightarrow> bool" where
  "spelled l ws \<longleftrightarrow> ws \<noteq> [] \<and> (\<forall>ts. fold step l (clean ts) = pending (ts @ butlast ws) (last ws))"

lemma spelled_indent: "spelled l ws \<Longrightarrow> spelled (CHR '' '' # l) ws"
  by (simp add: spelled_def blank_again)

lemma spelled_append:
  assumes "\<And>ts w. fold step sep (pending ts w) = clean (ts @ [w])" "spelled l ws" "spelled l' ws'"
  shows "spelled (l @ sep @ l') (ws @ ws')"
  unfolding spelled_def
proof (intro conjI allI)
  show "ws @ ws' \<noteq> []" using assms(2) by (simp add: spelled_def)
  fix ts
  have ws: "ws \<noteq> []" "ws' \<noteq> []" using assms(2,3) by (simp_all add: spelled_def)
  have "fold step (l @ sep @ l') (clean ts) = fold step l' (clean ((ts @ butlast ws) @ [last ws]))"
    using assms(1,2) by (simp add: spelled_def)
  also have "(ts @ butlast ws) @ [last ws] = ts @ ws" using ws(1) by simp
  also have "fold step l' (clean (ts @ ws)) = pending ((ts @ ws) @ butlast ws') (last ws')" using assms(3) by (simp add: spelled_def)
  finally show "fold step (l @ sep @ l') (clean ts) = pending (ts @ butlast (ws @ ws')) (last (ws @ ws'))"
    using ws by (simp add: butlast_append)
qed

lemma spelled_words: "spelled l ws \<Longrightarrow> spelled l' ws' \<Longrightarrow> spelled (l @ CHR '' '' # l') (ws @ ws')"
  using spelled_append [of "'' ''" l ws l' ws'] by (simp add: blank)

lemma spelled_lines:
  assumes "list_all2 spelled ls wss" "ls \<noteq> []"
  shows "spelled (join_with gap ls) (concat wss)"
  using assms
proof (induction rule: list_all2_induct)
  case (Cons l ls ws wss)
  show ?case
  proof (cases ls)
    case Nil
    then show ?thesis using Cons by simp
  next
    case (Cons l' ls')
    then show ?thesis using Cons.IH Cons.hyps spelled_append [OF across] by simp
  qed
qed simp

end

text \<open>A reader that knows quotes: quoted and plain words are literal, and a redacted header is read in a known way.\<close>

locale quote_reader = word_reader step clean pending gap
  for step :: "char \<Rightarrow> 's \<Rightarrow> 's" and clean :: "'w list \<Rightarrow> 's" and pending :: "'w list \<Rightarrow> 'w \<Rightarrow> 's" and gap :: string +
  fixes lit :: "string \<Rightarrow> 'w" and head :: "string \<Rightarrow> key_value \<Rightarrow> 'w"
  assumes quoted: "fold step (quoteShell v) (clean ts) = pending ts (lit v)"
    and plain: "plain_word v \<Longrightarrow> fold step v (clean ts) = pending ts (lit v)"
    and header: "redacted key h \<Longrightarrow> fold step (header_word key h) (clean ts) = pending ts (head key h)"
begin

lemma spelled_quoted: "spelled (quoteShell v) [lit v]"
  by (simp add: spelled_def quoted)

lemma spelled_plain: "plain_word v \<Longrightarrow> spelled v [lit v]"
  by (simp add: spelled_def plain)

lemma spelled_header: "redacted key h \<Longrightarrow> spelled (header_word key h) [head key h]"
  by (simp add: spelled_def header)

lemma spelled_option: "plain_word f \<Longrightarrow> spelled l [w] \<Longrightarrow> spelled (CHR '' '' # CHR '' '' # f @ CHR '' '' # l) [lit f, w]"
  using spelled_words [OF spelled_plain] by (intro spelled_indent) fastforce

lemma command_lines_spelled: "list_all2 spelled (command_lines U o1) (command_words lit head U o1)"
proof -
  have "spelled (''curl -X '' @ method_text (eo_method o1) @ '' '' @ quoteShell (command_url U o1)) [lit ''curl'', lit ''-X'', lit (method_text (eo_method o1)), lit (command_url U o1)]"
    using spelled_words [OF spelled_plain [OF plain_words(1)] spelled_words [OF spelled_plain [OF plain_words(2)] spelled_words [OF spelled_plain [OF plain_words(3)] spelled_quoted]]]
    by simp
  moreover have "spelled ''  --fail-with-body'' [lit ''--fail-with-body'']"
    using spelled_indent [OF spelled_indent [OF spelled_plain [OF plain_words(4)]]] by simp
  moreover have "list_all2 spelled (map (\<lambda>h. ''  -H '' @ header_word (placeholder o1) h) hs) (map (\<lambda>h. [lit ''-H'', head (placeholder o1) h]) hs)"
    if "\<forall>h \<in> set hs. redacted (placeholder o1) h" for hs
    using that spelled_option [OF plain_words(5) spelled_header] by (induction hs) auto
  moreover have "list_all2 spelled (body_lines o1) (body_words lit o1)"
    using spelled_option [OF plain_words(6) spelled_quoted] spelled_option [OF plain_words(7) spelled_quoted]
    by (auto simp: body_lines_def body_words_def list_all2_map1 list_all2_map2 list.rel_refl)
  moreover have "spelled (''  -o '' @ quoteShell (eo_output o1)) [lit ''-o'', lit (eo_output o1)]"
    using spelled_option [OF plain_words(8) spelled_quoted] by simp
  ultimately show ?thesis
    unfolding command_lines_def command_words_def by (intro list_all2_appendI) (auto simp: sent_redacted)
qed

lemma command_is_spelled: "spelled (join_with gap (command_lines U o1)) (concat (command_words lit head U o1))"
  by (rule spelled_lines [OF command_lines_spelled]) (simp add: command_lines_def)

end

section \<open>The tokenizer of the workbench\<close>

definition tk_clean :: "string list \<Rightarrow> tokenizer" where
  "tk_clean ts = \<lparr>tk_tokens = ts, tk_token = [], tk_quote = None, tk_escaping = False, tk_started = False\<rparr>"

definition tk_pending :: "string list \<Rightarrow> string \<Rightarrow> tokenizer" where
  "tk_pending ts w = \<lparr>tk_tokens = ts, tk_token = w, tk_quote = None, tk_escaping = False, tk_started = True\<rparr>"

definition tk_inside :: "char \<Rightarrow> string list \<Rightarrow> string \<Rightarrow> tokenizer" where
  "tk_inside q ts w = \<lparr>tk_tokens = ts, tk_token = w, tk_quote = Some q, tk_escaping = False, tk_started = True\<rparr>"

lemmas tk_defs = tokenize_char_def push_token_def add_char_def tk_clean_def tk_pending_def tk_inside_def

lemma tk_single: "fold tokenize_char (concat (map (\<lambda>c. if c = SQ then [SQ, BS, SQ, SQ] else [c]) v)) (tk_inside SQ ts w) = tk_inside SQ ts (w @ v)"
  by (induction v arbitrary: w) (simp_all add: tk_defs)

lemma tk_double: "DQ \<notin> set v \<Longrightarrow> BS \<notin> set v \<Longrightarrow> fold tokenize_char v (tk_inside DQ ts w) = tk_inside DQ ts (w @ v)"
  by (induction v arbitrary: w) (auto simp: tk_defs)

lemma plain_char: "word_char c \<or> c = CHR ''-'' \<Longrightarrow> c \<noteq> SQ \<and> c \<noteq> DQ \<and> c \<noteq> BS \<and> c \<noteq> CHR ''$'' \<and> c \<noteq> CHR 0x60 \<and> \<not> is_ws c"
  by (auto simp: word_char_def is_ws_def Let_def)

lemma tk_bare: "list_all (\<lambda>c. word_char c \<or> c = CHR ''-'') v \<Longrightarrow> fold tokenize_char v (tk_pending ts w) = tk_pending ts (w @ v)"
proof (induction v arbitrary: w)
  case (Cons c v)
  then have "tokenize_char c (tk_pending ts w) = tk_pending ts (w @ [c])" using plain_char [of c] by (auto simp: tk_defs)
  then show ?case using Cons by simp
qed simp

lemma sensitive_chars:
  assumes "sensitive n" "c \<in> set n"
  shows "c \<noteq> DQ" and "c \<noteq> BS" and "c \<noteq> CHR ''$'' \<and> c \<noteq> CHR 0x60"
proof -
  have "lower_char c \<in> \<Union> (set ` set SENSITIVE_HEADERS)" using assms by (force simp: sensitive_def lower_def)
  then have "lower_char c \<notin> {DQ, BS, CHR ''$'', CHR 0x60}" by (auto simp: SENSITIVE_HEADERS_def)
  moreover have "lower_char x = x" if "x \<in> {DQ, BS, CHR ''$'', CHR 0x60}" for x using that by (auto simp: lower_char_def)
  ultimately show "c \<noteq> DQ" "c \<noteq> BS" "c \<noteq> CHR ''$'' \<and> c \<noteq> CHR 0x60" by auto
qed

lemma variable_chars: "is_variable k \<Longrightarrow> \<exists>n. k = CHR ''$'' # n \<and> n \<noteq> [] \<and> list_all word_char n \<and> \<not> is_digit (hd n)"
  by (auto simp: is_variable_def split: list.splits)

lemma redacted_text:
  assumes "redacted key h" "sensitive (kv_name h)"
  obtains p where "header_text h = p @ key" "DQ \<notin> set p" "BS \<notin> set p" "CHR ''$'' \<notin> set p \<and> CHR 0x60 \<notin> set p"
proof -
  consider "kv_value h = key" | "kv_value h = ''Bearer '' @ key" using assms by (auto simp: redacted_def)
  then obtain p where "header_text h = (kv_name h @ p) @ key" "p = '': '' \<or> p = '': Bearer ''" by cases (auto simp: header_text_def)
  then show ?thesis using that [of "kv_name h @ p"] sensitive_chars [OF assms(2)] by (elim disjE) auto
qed

lemma tk_quoted: "fold tokenize_char (quoteShell v) (tk_clean ts) = tk_pending ts v"
proof -
  have "tokenize_char SQ (tk_clean ts) = tk_inside SQ ts []" "tokenize_char SQ (tk_inside SQ ts v) = tk_pending ts v"
    by (simp_all add: tk_defs)
  then show ?thesis using tk_single [of v ts "[]"] by (simp add: quoteShell_def)
qed

lemma tk_plain: "plain_word v \<Longrightarrow> fold tokenize_char v (tk_clean ts) = tk_pending ts v"
proof (cases v)
  case (Cons c r)
  assume v: "plain_word v"
  then have "tokenize_char c (tk_clean ts) = tk_pending ts [c]" using Cons plain_char [of c] by (auto simp: tk_defs plain_word_def)
  then show ?thesis using tk_bare [of r ts "[c]"] v Cons by (simp add: plain_word_def)
qed (simp add: plain_word_def)

lemma tk_header: "redacted key h \<Longrightarrow> fold tokenize_char (header_word key h) (tk_clean ts) = tk_pending ts (header_text h)"
proof (cases "sensitive (kv_name h) \<and> is_variable key")
  case True
  assume "redacted key h"
  then obtain p where p: "header_text h = p @ key" "DQ \<notin> set p" "BS \<notin> set p" by (rule redacted_text [OF _ conjunct1 [OF True]]) blast
  obtain n where n: "key = CHR ''$'' # n" "\<forall>c \<in> set n. word_char c" using variable_chars [OF conjunct2 [OF True]] by (auto simp: list_all_iff)
  then have "\<forall>c \<in> set n. c \<noteq> DQ \<and> c \<noteq> BS" using plain_char by blast
  then have "\<forall>c \<in> set key. c \<noteq> DQ \<and> c \<noteq> BS" unfolding n(1) by simp
  then have "fold tokenize_char (header_text h) (tk_inside DQ ts []) = tk_inside DQ ts (header_text h)" using p tk_double [of "header_text h" ts "[]"] by (metis Un_iff append_Nil set_append)
  moreover have "tokenize_char DQ (tk_clean ts) = tk_inside DQ ts []" "tokenize_char DQ (tk_inside DQ ts (header_text h)) = tk_pending ts (header_text h)"
    by (simp_all add: tk_defs)
  ultimately show ?thesis using True by (simp add: header_word_def)
qed (auto simp: header_word_def tk_quoted)

interpretation workbench: quote_reader tokenize_char tk_clean tk_pending "''  ''" "\<lambda>v. v" "\<lambda>_. header_text"
proof unfold_locales
  show "tokenize_char CHR '' '' (tk_pending ts w) = tk_clean (ts @ [w])" "tokenize_char CHR '' '' (tk_clean ts) = tk_clean ts" for ts w
    by (simp_all add: tk_defs is_ws_def)
  then show "fold tokenize_char ''  '' (tk_pending ts w) = tk_clean (ts @ [w])" for ts w by simp
qed (simp_all add: tk_quoted tk_plain tk_header)

text \<open>What the removal of line continuations leaves alone: a text without a backslash in front of a line end.\<close>

fun splices :: "string \<Rightarrow> bool" where
  "splices (c # d # s) = (c = BS \<and> line_end d \<or> splices (d # s))"
| "splices _ = False"

lemma strip_free: "\<not> splices s \<Longrightarrow> s = [] \<or> last s \<noteq> BS \<Longrightarrow> strip_continuations (s @ t) = s @ strip_continuations t"
proof (induction s rule: splices.induct)
  case (1 c d s)
  then have "strip_continuations (d # s @ t) = d # s @ strip_continuations t" by (auto simp del: strip_continuations.simps)
  then show ?case using 1 by (auto simp: line_end_def)
qed auto

lemma splices_append: "\<not> splices s \<Longrightarrow> \<not> splices t \<Longrightarrow> s = [] \<or> last s \<noteq> BS \<Longrightarrow> \<not> splices (s @ t)"
proof (induction s)
  case (Cons c s)
  then show ?case by (cases s; cases t) auto
qed simp

lemma strip_lines:
  "\<forall>l \<in> set ls. \<not> splices l \<and> l \<noteq> [] \<and> last l \<noteq> BS \<Longrightarrow> strip_continuations (join_with ('' '' @ [BS, NL]) ls) = join_with ''  '' ls"
proof (induction ls)
  case (Cons l ls)
  note IH = Cons.IH and prems = Cons.prems
  have l: "strip_continuations (l @ t) = l @ strip_continuations t" for t using strip_free [of l] prems by auto
  show ?case
  proof (cases ls)
    case Nil
    then show ?thesis using l [of "[]"] by simp
  next
    case (Cons l' ls')
    then show ?thesis using IH prems l by simp
  qed
qed simp

lemma splices_quoted: "\<not> splices v \<Longrightarrow> \<not> splices (quoteShell v)"
proof -
  have "\<not> splices (concat (map (\<lambda>c. if c = SQ then [SQ, BS, SQ, SQ] else [c]) v) @ [SQ])" if "\<not> splices v" for v
    using that
  proof (induction v rule: splices.induct)
    case (1 c d s)
    then show ?case by (auto simp: line_end_def split: if_splits)
  qed (auto simp: line_end_def)
  moreover assume "\<not> splices v"
  ultimately have "\<not> splices (concat (map (\<lambda>c. if c = SQ then [SQ, BS, SQ, SQ] else [c]) v) @ [SQ])" by blast
  then show ?thesis by (cases v) (auto simp: quoteShell_def line_end_def)
qed

definition quiet :: "string \<Rightarrow> bool" where
  "quiet l \<longleftrightarrow> \<not> splices l \<and> l \<noteq> [] \<and> last l \<noteq> BS"

lemma quiet_append: "quiet p \<Longrightarrow> quiet l \<Longrightarrow> quiet (p @ l)"
  using splices_append by (auto simp: quiet_def)

lemma quiet_quoted: "\<not> splices v \<Longrightarrow> quiet (quoteShell v)"
  using splices_quoted [of v] by (simp add: quiet_def) (simp add: quoteShell_def)

lemma quiet_header: "\<not> splices (header_text h) \<Longrightarrow> redacted key h \<Longrightarrow> quiet (header_word key h)"
proof (cases "sensitive (kv_name h) \<and> is_variable key")
  case True
  assume h: "\<not> splices (header_text h)" "redacted key h"
  from h(2) obtain p where p: "header_text h = p @ key" "BS \<notin> set p" by (rule redacted_text [OF _ conjunct1 [OF True]]) blast
  obtain n where n: "key = CHR ''$'' # n" "n \<noteq> []" "\<forall>c \<in> set n. word_char c" using variable_chars [OF conjunct2 [OF True]] by (auto simp: list_all_iff)
  have "last n \<noteq> BS" using n(2,3) plain_char by (meson last_in_set)
  then have last: "last (header_text h) \<noteq> BS" "header_text h \<noteq> []" using p n by auto
  then have "\<not> splices (DQ # header_text h)" using h(1) by (cases "header_text h") auto
  then have "\<not> splices ((DQ # header_text h) @ [DQ])" using last by (intro splices_append) auto
  then show ?thesis using True by (simp add: quiet_def header_word_def)
qed (auto simp: header_word_def quiet_quoted)

lemma quiet_plain: "plain_word w \<Longrightarrow> quiet w"
proof -
  assume w: "plain_word w"
  then have "\<forall>c \<in> set w. c \<noteq> BS" using plain_char by (auto simp: plain_word_def list_all_iff)
  moreover have "\<not> splices v" if "\<forall>c \<in> set v. c \<noteq> BS" for v using that by (induction v rule: splices.induct) auto
  ultimately show ?thesis using w by (auto simp: quiet_def plain_word_def)
qed

lemma quiet_blank: "quiet '' ''" "quiet ''  ''"
  by (simp_all add: quiet_def)

lemma quiet_option: "plain_word f \<Longrightarrow> quiet l \<Longrightarrow> quiet (CHR '' '' # CHR '' '' # f @ CHR '' '' # l)"
proof -
  assume "plain_word f" "quiet l"
  then have "quiet (''  '' @ f @ '' '' @ l)" using quiet_append [OF quiet_blank(2) quiet_append [OF quiet_plain quiet_append [OF quiet_blank(1)]]] by blast
  then show ?thesis by simp
qed

lemma quiet_lines:
  assumes "\<forall>w \<in> set (concat (command_words (\<lambda>v. v) (\<lambda>_. header_text) U o1)). \<not> splices w"
  shows "\<forall>l \<in> set (command_lines U o1). quiet l"
proof -
  have "quiet (''curl'' @ '' '' @ ''-X'' @ '' '' @ method_text (eo_method o1) @ '' '' @ quoteShell (command_url U o1))"
    using assms
    by (intro quiet_append [OF quiet_plain [OF plain_words(1)]] quiet_append [OF quiet_plain [OF plain_words(2)]] quiet_append [OF quiet_plain [OF plain_words(3)]]
        quiet_append [OF quiet_blank(1)] quiet_quoted) (simp add: command_words_def)
  moreover have "quiet (''  '' @ ''--fail-with-body'')"
    by (intro quiet_append [OF quiet_blank(2)] quiet_plain plain_words)
  moreover have "quiet (''  -H '' @ header_word (placeholder o1) h)" if "h \<in> set (sent_headers o1)" for h
  proof -
    have "header_text h \<in> set (concat (command_words (\<lambda>v. v) (\<lambda>_. header_text) U o1))" using that by (auto simp: command_words_def)
    then have "\<not> splices (header_text h)" using assms by blast
    then show ?thesis using quiet_option [OF plain_words(5) quiet_header [OF _ sent_redacted [OF that]]] by simp
  qed
  moreover have "quiet l" if l: "l \<in> set (body_lines o1)" for l
  proof -
    have body: "\<not> splices w" if "w \<in> set (concat (body_words (\<lambda>v. v) o1))" for w
      using assms that unfolding command_words_def by auto
    consider f where "eo_mode o1 = Form_body" "eo_method o1 \<noteq> GET" "f \<in> set (edgeFormFields (eo_form o1) (eo_body o1))" "l = ''  '' @ field_flag f @ '' '' @ quoteShell (field_word f)"
      | "l = ''  -d '' @ quoteShell (eo_body o1)" "body_words (\<lambda>v. v) o1 = [[''-d'', eo_body o1]]"
      using l by (auto simp: body_lines_def body_words_def split: if_splits)
    then show ?thesis
    proof cases
      case (1 f)
      then have "\<not> splices (field_word f)" by (intro body) (auto simp: body_words_def)
      then show ?thesis using quiet_option [OF plain_words(6) quiet_quoted, of "field_word f" f] 1(4) by simp
    next
      case 2
      then have "\<not> splices (eo_body o1)" by (intro body) simp
      then show ?thesis using quiet_option [OF plain_words(7) quiet_quoted, of "eo_body o1"] 2(1) by simp
    qed
  qed
  moreover have "quiet (''  -o '' @ quoteShell (eo_output o1))" if "eo_output o1 \<noteq> []"
    using assms that quiet_option [OF plain_words(8) quiet_quoted] by (auto simp: command_words_def)
  ultimately show ?thesis by (auto simp: command_lines_def)
qed

lemma trim_same: "s \<noteq> [] \<Longrightarrow> \<not> is_ws (hd s) \<Longrightarrow> \<not> is_ws (last s) \<Longrightarrow> trim s = s"
  by (cases s) (auto simp: trim_def hd_rev dropWhile_eq_self_iff simp flip: last_rev)

lemma ends_in_a_quote: "quoteShell v \<noteq> []" "last (quoteShell v) = SQ" "last (header_word key h) \<in> {SQ, DQ}" "header_word key h \<noteq> []"
  by (simp_all add: quoteShell_def header_word_def)

lemma command_lines_start: "join_with gap (command_lines U o1) \<noteq> []" "\<not> is_ws (hd (join_with gap (command_lines U o1)))"
  by (simp_all add: command_lines_def is_ws_def)

lemma command_lines_end: "\<not> is_ws (last (join_with gap (command_lines U o1)))"
proof -
  have quote: "\<not> is_ws SQ" "\<not> is_ws DQ" by (simp_all add: is_ws_def)
  have "\<not> is_ws (last (header_word key h))" for key h using ends_in_a_quote(3) [of key h] quote by auto
  then have ends: "\<forall>l \<in> set (command_lines U o1). l \<noteq> [] \<and> \<not> is_ws (last l)"
    by (auto simp: command_lines_def body_lines_def ends_in_a_quote quote split: if_splits) (simp_all add: is_ws_def)
  have "join_with gap ls \<noteq> [] \<and> last (join_with gap ls) = last (last ls)" if "ls \<noteq> []" "last ls \<noteq> []" for ls
    using that by (induction ls rule: induct_list012) auto
  moreover have "command_lines U o1 \<noteq> []" by (simp add: command_lines_def)
  ultimately show ?thesis using ends by (metis last_in_set)
qed

lemma command_is_read_back:
  assumes "\<forall>w \<in> set (concat (command_words (\<lambda>v. v) (\<lambda>_. header_text) U o1)). \<not> splices w"
  shows "tokenizeCurl (buildEdgeCurl U o1) = concat (command_words (\<lambda>v. v) (\<lambda>_. header_text) U o1)"
proof -
  let ?ws = "concat (command_words (\<lambda>v. v) (\<lambda>_. header_text) U o1)"
  have strip: "strip_continuations (buildEdgeCurl U o1) = join_with ''  '' (command_lines U o1)"
    unfolding buildEdgeCurl_def using quiet_lines [OF assms] by (intro strip_lines) (auto simp: quiet_def)
  have spelled: "workbench.spelled (join_with ''  '' (command_lines U o1)) ?ws" by (rule workbench.command_is_spelled)
  have "trim (join_with ''  '' (command_lines U o1)) = join_with ''  '' (command_lines U o1)"
    by (intro trim_same command_lines_start command_lines_end)
  then have "tokenizeCurl (buildEdgeCurl U o1) = end_tokens (tk_pending (butlast ?ws) (last ?ws))"
    using spelled by (simp add: tokenizeCurl_def strip workbench.spelled_def no_tokens_def flip: tk_clean_def)
  then show ?thesis using spelled by (simp add: end_tokens_def tk_defs workbench.spelled_def)
qed

text \<open>
  The workbench reads a command that it has written as exactly the words that were meant, whatever quotes, blanks and line ends the
  URL, the headers, the body, the fields and the name of the output file have, if none of them has a backslash in front of a line end.
\<close>

theorem built_command_is_read_back:
  assumes "\<forall>w \<in> set (concat (command_words (\<lambda>v. v) (\<lambda>_. header_text) U o1)). \<not> splices w"
  shows "tokenizeCurl (buildEdgeCurl U o1) = concat (command_words (\<lambda>v. v) (\<lambda>_. header_text) U o1)"
  using assms by (rule command_is_read_back)

text \<open>A browser whose URLs are taken as they are, and a request whose body has quotes, blanks and a line end.\<close>

definition sample_urls :: url_env where
  "sample_urls = \<lparr>ue_parse = Some, ue_resolve = (\<lambda>t b. Some t), ue_pathname = (\<lambda>u. u), ue_search = (\<lambda>_. []), ue_hash = (\<lambda>_. []), ue_set_pathname = (\<lambda>p u. p),
     ue_set_search = (\<lambda>s u. u), ue_set_hash = (\<lambda>h u. u), ue_params = (\<lambda>_. []), ue_append = (\<lambda>n v u. u), ue_set_param = (\<lambda>n v u. u), ue_json = (\<lambda>_. None)\<rparr>"

definition sample_options :: edge_options where
  "sample_options = \<lparr>eo_form = None, eo_output = [], eo_origin = ''http://g'', eo_method = POST, eo_url = ''http://g/v1'',
     eo_headers = [\<lparr>kv_name = ''X-Trace'', kv_value = [SQ, BS, DQ]\<rparr>], eo_query = [], eo_body = ''{ '' @ [SQ, NL, DQ] @ '' }'', eo_mode = Json_body,
     eo_placeholder = None, eo_inject = True\<rparr>"

theorem built_command_is_read_back_witness:
  "tokenizeCurl (buildEdgeCurl sample_urls sample_options) =
     [''curl'', ''-X'', ''POST'', ''http://g/v1'', ''--fail-with-body'', ''-H'', ''Authorization: Bearer $SUB2API_KEY'', ''-H'', ''X-Trace: '' @ [SQ, BS, DQ],
      ''-d'', ''{ '' @ [SQ, NL, DQ] @ '' }'']"
proof -
  have words: "concat (command_words (\<lambda>v. v) (\<lambda>_. header_text) sample_urls sample_options) =
      [''curl'', ''-X'', ''POST'', ''http://g/v1'', ''--fail-with-body'', ''-H'', ''Authorization: Bearer $SUB2API_KEY'', ''-H'', ''X-Trace: '' @ [SQ, BS, DQ],
       ''-d'', ''{ '' @ [SQ, NL, DQ] @ '' }'']"
    by code_simp
  have "list_all (\<lambda>w. \<not> splices w) (concat (command_words (\<lambda>v. v) (\<lambda>_. header_text) sample_urls sample_options))"
    by code_simp
  then show ?thesis using built_command_is_read_back [of sample_urls sample_options] by (simp only: list_all_iff words)
qed

section \<open>A POSIX shell\<close>

text \<open>
  What a shell makes of a command of one line: single quotes take everything up to the next one; between double quotes the shell expands
  variables and a backslash escapes four characters; a backslash in front of a line end joins the lines. Everything else that the shell would
  interpret is taken for bad.
\<close>

datatype piece = Lit char | Var string

datatype sh_mode = Bare | Single | Double | Bare_escape | Double_escape | Variable string

record shell =
  sh_words :: "piece list list"
  sh_word :: "piece list"
  sh_mode :: sh_mode
  sh_started :: bool
  sh_bad :: bool

definition sh_special :: "char \<Rightarrow> bool" where
  "sh_special c \<longleftrightarrow> sh_expands c \<or> c \<in> {NL, CHR ''#'', CHR ''{'', CHR ''}'', CHR ''!''}"

definition sh_take :: "piece list \<Rightarrow> sh_mode \<Rightarrow> shell \<Rightarrow> shell" where
  "sh_take ps m s = s\<lparr>sh_word := sh_word s @ ps, sh_mode := m, sh_started := True\<rparr>"

definition sh_end_word :: "shell \<Rightarrow> shell" where
  "sh_end_word s = (if sh_started s then s\<lparr>sh_words := sh_words s @ [sh_word s], sh_word := [], sh_started := False\<rparr> else s)"

definition sh_in_double :: "char \<Rightarrow> shell \<Rightarrow> shell" where
  "sh_in_double c s =
     (if c = DQ then sh_take [] Bare s
      else if c = BS then sh_take [] Double_escape s
      else if c = CHR ''$'' then sh_take [] (Variable []) s
      else if c = CHR 0x60 then s\<lparr>sh_bad := True\<rparr>
      else sh_take [Lit c] Double s)"

definition sh_step :: "char \<Rightarrow> shell \<Rightarrow> shell" where
  "sh_step c s = (case sh_mode s of
     Bare \<Rightarrow>
       if c = SQ then sh_take [] Single s
       else if c = DQ then sh_take [] Double s
       else if c = BS then s\<lparr>sh_mode := Bare_escape\<rparr>
       else if c = CHR '' '' \<or> c = CHR 0x09 then sh_end_word s
       else if sh_special c then s\<lparr>sh_bad := True\<rparr>
       else sh_take [Lit c] Bare s
   | Bare_escape \<Rightarrow> if c = NL then s\<lparr>sh_mode := Bare\<rparr> else sh_take [Lit c] Bare s
   | Single \<Rightarrow> if c = SQ then sh_take [] Bare s else sh_take [Lit c] Single s
   | Double \<Rightarrow> sh_in_double c s
   | Double_escape \<Rightarrow>
       if c = NL then sh_take [] Double s
       else if c \<in> {CHR ''$'', CHR 0x60, DQ, BS} then sh_take [Lit c] Double s
       else sh_take [Lit BS, Lit c] Double s
   | Variable n \<Rightarrow>
       if word_char c then s\<lparr>sh_mode := Variable (n @ [c])\<rparr>
       else if n = [] \<or> is_digit (hd n) then s\<lparr>sh_bad := True\<rparr>
       else sh_in_double c (sh_take [Var n] Double s))"

definition sh_clean :: "piece list list \<Rightarrow> shell" where
  "sh_clean ws = \<lparr>sh_words = ws, sh_word = [], sh_mode = Bare, sh_started = False, sh_bad = False\<rparr>"

definition sh_arguments :: "string \<Rightarrow> piece list list option" where
  "sh_arguments cmd = (let s = fold sh_step cmd (sh_clean []) in
     if sh_bad s \<or> sh_mode s \<noteq> Bare then None else Some (sh_words (sh_end_word s)))"

definition literally :: "string \<Rightarrow> piece list" where
  "literally v = map Lit v"

text \<open>A header is literal, but for the variable at the end of a sensitive one.\<close>

definition header_pieces :: "string \<Rightarrow> key_value \<Rightarrow> piece list" where
  "header_pieces key h = (if sensitive (kv_name h) \<and> is_variable key
     then literally (take (length (header_text h) - length key) (header_text h)) @ [Var (tl key)] else literally (header_text h))"

definition sh_pending :: "piece list list \<Rightarrow> piece list \<Rightarrow> shell" where
  "sh_pending ws w = \<lparr>sh_words = ws, sh_word = w, sh_mode = Bare, sh_started = True, sh_bad = False\<rparr>"

definition sh_inside :: "sh_mode \<Rightarrow> piece list list \<Rightarrow> piece list \<Rightarrow> shell" where
  "sh_inside m ws w = \<lparr>sh_words = ws, sh_word = w, sh_mode = m, sh_started = True, sh_bad = False\<rparr>"

lemmas sh_defs = sh_step_def sh_take_def sh_end_word_def sh_in_double_def sh_clean_def sh_pending_def sh_inside_def literally_def

lemma sh_single: "fold sh_step (concat (map (\<lambda>c. if c = SQ then [SQ, BS, SQ, SQ] else [c]) v)) (sh_inside Single ws w) = sh_inside Single ws (w @ literally v)"
  by (induction v arbitrary: w) (simp_all add: sh_defs)

lemma sh_quoted: "fold sh_step (quoteShell v) (sh_clean ws) = sh_pending ws (literally v)"
proof -
  have "sh_step SQ (sh_clean ws) = sh_inside Single ws []" "sh_step SQ (sh_inside Single ws (literally v)) = sh_pending ws (literally v)"
    by (simp_all add: sh_defs)
  then show ?thesis using sh_single [of v ws "[]"] by (simp add: quoteShell_def)
qed

lemma sh_plain_char: "word_char c \<or> c = CHR ''-'' \<Longrightarrow> \<not> sh_special c \<and> c \<noteq> CHR '' '' \<and> c \<noteq> CHR 0x09"
  by (auto simp: word_char_def sh_special_def sh_expands_def Let_def)

lemma sh_bare: "list_all (\<lambda>c. word_char c \<or> c = CHR ''-'') v \<Longrightarrow> fold sh_step v (sh_pending ws w) = sh_pending ws (w @ literally v)"
proof (induction v arbitrary: w)
  case (Cons c v)
  then have "sh_step c (sh_pending ws w) = sh_pending ws (w @ [Lit c])" using plain_char [of c] sh_plain_char [of c] by (auto simp: sh_defs)
  then show ?case using Cons by (simp add: literally_def)
qed (simp add: literally_def)

lemma sh_plain: "plain_word v \<Longrightarrow> fold sh_step v (sh_clean ws) = sh_pending ws (literally v)"
proof (cases v)
  case (Cons c r)
  assume v: "plain_word v"
  then have "sh_step c (sh_clean ws) = sh_pending ws [Lit c]" using Cons plain_char [of c] sh_plain_char [of c] by (auto simp: sh_defs plain_word_def)
  then show ?thesis using sh_bare [of r ws "[Lit c]"] v Cons by (simp add: plain_word_def literally_def)
qed (simp add: plain_word_def)

lemma sh_double: "\<forall>c \<in> set v. c \<noteq> DQ \<and> c \<noteq> BS \<and> c \<noteq> CHR ''$'' \<and> c \<noteq> CHR 0x60 \<Longrightarrow> fold sh_step v (sh_inside Double ws w) = sh_inside Double ws (w @ literally v)"
  by (induction v arbitrary: w) (auto simp: sh_defs)

lemma sh_name: "\<forall>c \<in> set v. word_char c \<Longrightarrow> fold sh_step v (sh_inside (Variable n) ws w) = sh_inside (Variable (n @ v)) ws w"
  by (induction v arbitrary: n) (auto simp: sh_defs)

lemma sh_header: "redacted key h \<Longrightarrow> fold sh_step (header_word key h) (sh_clean ws) = sh_pending ws (header_pieces key h)"
proof (cases "sensitive (kv_name h) \<and> is_variable key")
  case True
  assume "redacted key h"
  then obtain p where p: "header_text h = p @ key" "DQ \<notin> set p" "BS \<notin> set p" "CHR ''$'' \<notin> set p \<and> CHR 0x60 \<notin> set p"
    by (rule redacted_text [OF _ conjunct1 [OF True]]) blast
  obtain n where n: "key = CHR ''$'' # n" "n \<noteq> []" "\<forall>c \<in> set n. word_char c" "\<not> is_digit (hd n)" using variable_chars [OF conjunct2 [OF True]] by (auto simp: list_all_iff)
  have "\<forall>c \<in> set p. c \<noteq> DQ \<and> c \<noteq> BS \<and> c \<noteq> CHR ''$'' \<and> c \<noteq> CHR 0x60" using p(2-4) by blast
  then have "fold sh_step p (sh_inside Double ws []) = sh_inside Double ws (literally p)" using sh_double [of p ws "[]"] by simp
  moreover have "sh_step DQ (sh_clean ws) = sh_inside Double ws []" "sh_step CHR ''$'' (sh_inside Double ws (literally p)) = sh_inside (Variable []) ws (literally p)"
    by (simp_all add: sh_defs)
  moreover have "fold sh_step n (sh_inside (Variable []) ws (literally p)) = sh_inside (Variable n) ws (literally p)" using sh_name [OF n(3), of "[]"] by simp
  moreover have "\<not> word_char DQ" by (simp add: word_char_def)
  then have "sh_step DQ (sh_inside (Variable n) ws (literally p)) = sh_pending ws (literally p @ [Var n])" using n(2,4) by (simp add: sh_defs)
  ultimately have "fold sh_step (DQ # (p @ key) @ [DQ]) (sh_clean ws) = sh_pending ws (literally p @ [Var n])" by (simp add: n(1))
  then show ?thesis using True p(1) n(1) by (simp add: header_word_def header_pieces_def)
qed (auto simp: header_word_def header_pieces_def sh_quoted)

interpretation posix: quote_reader sh_step sh_clean sh_pending "'' '' @ [BS, NL]" literally header_pieces
proof unfold_locales
  show "sh_step CHR '' '' (sh_pending ts w) = sh_clean (ts @ [w])" "sh_step CHR '' '' (sh_clean ts) = sh_clean ts"
    "fold sh_step ('' '' @ [BS, NL]) (sh_pending ts w) = sh_clean (ts @ [w])" for ts w
    by (simp_all add: sh_defs)
qed (simp_all add: sh_quoted sh_plain sh_header)

text \<open>
  C39: a shell that runs the written command passes exactly the words that were meant: nothing of the URL, the headers, the body, the fields or the
  output file is interpreted, and the only thing expanded is the variable of the key, at the end of the sensitive headers.
\<close>

theorem shell_expands_the_key_only:
  "sh_arguments (buildEdgeCurl U o1) = Some (concat (command_words literally header_pieces U o1))"
proof -
  have "posix.spelled (buildEdgeCurl U o1) (concat (command_words literally header_pieces U o1))"
    unfolding buildEdgeCurl_def by (rule posix.command_is_spelled)
  then show ?thesis by (simp add: posix.spelled_def sh_arguments_def Let_def sh_pending_def sh_end_word_def)
qed

end
