(* ===== verification/Edge_Laws.thy ===== *)
theory Edge_Laws
  imports Edge_Words
begin

text \<open>
  The workbench as a whole: credentials of an imported command do not come back out of it, and a request that is written and read again
  is the same request.
\<close>

section \<open>Credentials\<close>

definition without_secret :: "key_value \<Rightarrow> string \<times> string" where
  "without_secret h = (kv_name h, if sensitive (trim (kv_name h)) then [] else kv_value h)"

lemma sanitize_without_secret: "without_secret h = without_secret h' \<Longrightarrow> sanitize_header key h = sanitize_header key h'"
  by (auto simp: without_secret_def sanitize_header_def Let_def split: if_splits)

text \<open>
  The written command does not depend on the values of authorization and key headers: two requests that differ in nothing else give the
  same command, whether or not the key of the gateway is put in.
\<close>

theorem secrets_do_not_reach_the_command:
  assumes "map without_secret hs = map without_secret hs'"
  shows "buildEdgeCurl U (o1\<lparr>eo_headers := hs\<rparr>) = buildEdgeCurl U (o1\<lparr>eo_headers := hs'\<rparr>)"
proof -
  have "map (sanitize_header key) hs = map (sanitize_header key) hs'" for key
    using map_eq_imp_length_eq [OF assms] assms by (induction hs hs' rule: list_induct2) (auto intro!: sanitize_without_secret)
  then have "command_headers (o1\<lparr>eo_headers := hs\<rparr>) = command_headers (o1\<lparr>eo_headers := hs'\<rparr>)"
    by (simp add: command_headers_def sanitizeHeaders_def placeholder_def Let_def)
  then show ?thesis
    by (simp add: buildEdgeCurl_def command_lines_def sent_headers_def command_url_def body_lines_def placeholder_def)
qed

theorem secrets_do_not_reach_the_command_witness:
  "buildEdgeCurl sample_urls (sample_options\<lparr>eo_headers := [\<lparr>kv_name = ''X-Api-Key'', kv_value = ''secret''\<rparr>]\<rparr>)
    = buildEdgeCurl sample_urls (sample_options\<lparr>eo_headers := [\<lparr>kv_name = ''X-Api-Key'', kv_value = ''other''\<rparr>]\<rparr>)"
  by (rule secrets_do_not_reach_the_command) code_simp

section \<open>Written and read again\<close>

lemma scheme_start: "has_scheme t \<Longrightarrow> \<exists>c r. t = c # r \<and> c \<noteq> CHR ''-'' \<and> c \<noteq> CHR ''/''"
  by (cases t) (auto simp: has_scheme_def word_char_def Let_def)

definition ALL_FLAGS :: "string list" where
  "ALL_FLAGS = METHOD_FLAGS @ HEADER_FLAGS @ DATA_FLAGS @ FORM_FLAGS @ [''--url''] @ map fst HEADER_OPTIONS @ OUTPUT_FLAGS @ VALUE_FLAGS @ IGNORED_FLAGS"

lemma flags_start:
  shows "takes_value f \<Longrightarrow> hd f = CHR ''-''" and "f \<in> set IGNORED_FLAGS \<Longrightarrow> hd f = CHR ''-''"
proof -
  have "list_all (\<lambda>f. hd f = CHR ''-'') ALL_FLAGS" by code_simp
  moreover have "f \<in> set ALL_FLAGS" if "takes_value f \<or> f \<in> set IGNORED_FLAGS"
    using that unfolding takes_value_def ALL_FLAGS_def map_of_eq_None_iff by auto
  ultimately show "takes_value f \<Longrightarrow> hd f = CHR ''-''" "f \<in> set IGNORED_FLAGS \<Longrightarrow> hd f = CHR ''-''"
    unfolding list_all_iff by blast+
qed

lemma no_flag:
  assumes "t = c # r" "c \<noteq> CHR ''-''"
  shows "split_flag t = (t, None)" and "\<not> takes_value t" and "t \<noteq> ''--''"
  using assms flags_start(1) [of t] by (auto simp: split_flag_def starts_with_def)

lemma parse_url:
  assumes "has_scheme t" "cs_url s = []"
  shows "parse_arguments (t # ts) s = parse_arguments ts (s\<lparr>cs_url := t\<rparr>)"
proof -
  obtain c r where t: "t = c # r" "c \<noteq> CHR ''-''" using scheme_start [OF assms(1)] by blast
  then have "t \<notin> set IGNORED_FLAGS" using flags_start(2) by force
  moreover have "t \<noteq> ''-G''" "t \<noteq> ''--get''" "\<not> starts_with t ''--''" "\<not> starts_with t ''-X''" "\<not> starts_with t ''-H''" "\<not> starts_with t ''-d''"
    using t by (auto simp: starts_with_def)
  ultimately have "apply_plain t t s = s\<lparr>cs_url := t\<rparr>" using assms by (simp add: apply_plain_def)
  then show ?thesis using no_flag [OF t] t by simp
qed

text \<open>The options of the written command.\<close>

lemma split_short:
  assumes "CHR ''='' \<notin> set f"
  shows "split_flag f = (f, None)"
proof -
  have "\<not> starts_with (dropWhile P (drop 2 f)) ''=''" for P
  proof (cases "dropWhile P (drop 2 f)")
    case (Cons c r)
    then have "c \<in> set (dropWhile P (drop 2 f))" by simp
    then have "c \<in> set f" by (rule in_set_dropD [OF set_dropWhileD])
    then have "c \<noteq> CHR ''=''" using assms by blast
    then show ?thesis using Cons by (simp add: starts_with_def)
  next
    case Nil
    show ?thesis unfolding Nil by (simp add: starts_with_def)
  qed
  then show ?thesis unfolding split_flag_def Let_def by presburger
qed

lemma parse_option:
  assumes "takes_value f" "CHR ''='' \<notin> set f" "f \<noteq> []" "f \<noteq> ''--''"
  shows "parse_arguments (f # v # ts) s = parse_arguments ts (apply_value f (Some v) s)"
proof -
  have "split_flag f = (f, None)" using assms(2) by (rule split_short)
  then show ?thesis using assms by simp
qed

lemma parse_X: "parse_arguments (''-X'' # v # ts) s = parse_arguments ts (s\<lparr>cs_method := Some v\<rparr>)"
proof -
  have "takes_value ''-X''" by code_simp
  then have "parse_arguments (''-X'' # v # ts) s = parse_arguments ts (apply_value ''-X'' (Some v) s)" by (rule parse_option) simp_all
  then show ?thesis by (simp add: apply_value_def METHOD_FLAGS_def)
qed

lemma parse_H: "parseHeader v = Some h \<Longrightarrow> parse_arguments (''-H'' # v # ts) s = parse_arguments ts (s\<lparr>cs_headers := cs_headers s @ [h]\<rparr>)"
proof -
  assume h: "parseHeader v = Some h"
  have "takes_value ''-H''" by code_simp
  then have "parse_arguments (''-H'' # v # ts) s = parse_arguments ts (apply_value ''-H'' (Some v) s)" by (rule parse_option) simp_all
  then show ?thesis using h by (simp add: apply_value_def METHOD_FLAGS_def HEADER_FLAGS_def add_header_def value_or_empty_def)
qed

lemma parse_d: "parse_arguments (''-d'' # v # ts) s = parse_arguments ts (add_data v s)"
proof -
  have "takes_value ''-d''" by code_simp
  then have "parse_arguments (''-d'' # v # ts) s = parse_arguments ts (apply_value ''-d'' (Some v) s)" by (rule parse_option) simp_all
  then show ?thesis by (simp add: apply_value_def METHOD_FLAGS_def HEADER_FLAGS_def DATA_FLAGS_def value_or_empty_def)
qed

lemma parse_ignored: "parse_arguments (''--fail-with-body'' # ts) s = parse_arguments ts s"
proof -
  have "split_flag ''--fail-with-body'' = (''--fail-with-body'', None)" by (rule split_short) simp
  moreover have "\<not> takes_value ''--fail-with-body''" by code_simp
  moreover have "apply_plain ''--fail-with-body'' ''--fail-with-body'' s = s" by (simp add: apply_plain_def IGNORED_FLAGS_def)
  ultimately show ?thesis by simp
qed

lemma parse_headers:
  "\<forall>h \<in> set hs. parseHeader (header_text h) = Some h \<Longrightarrow>
    parse_arguments (concat (map (\<lambda>h. [''-H'', header_text h]) hs) @ ts) s = parse_arguments ts (s\<lparr>cs_headers := cs_headers s @ hs\<rparr>)"
proof (induction hs arbitrary: s)
  case (Cons h hs)
  then show ?case by (simp add: parse_H del: parse_arguments.simps)
qed simp

lemma method_read_back: "inferMethod (Some (method_text m)) b False = m"
proof -
  have "list_all (\<lambda>m. map_of REQUEST_METHODS (map upper_ascii (trim (method_text m))) = Some m) [GET, POST, PUT, PATCH, DELETE]" by code_simp
  moreover have "m \<in> set [GET, POST, PUT, PATCH, DELETE]" by (cases m) simp_all
  ultimately have "map_of REQUEST_METHODS (map upper_ascii (trim (method_text m))) = Some m" unfolding list_all_iff by blast
  then show ?thesis by (simp add: inferMethod_def)
qed

definition written_state :: "url_env \<Rightarrow> edge_options \<Rightarrow> curl_state" where
  "written_state U o1 = \<lparr>cs_method = Some (method_text (eo_method o1)), cs_url = command_url U o1, cs_body = eo_body o1, cs_get = False, cs_multipart = False,
     cs_headers = sent_headers o1, cs_form = [], cs_warnings = []\<rparr>"

lemma command_parsed:
  assumes "has_scheme (command_url U o1)" "\<forall>h \<in> set (sent_headers o1). parseHeader (header_text h) = Some h"
    and "eo_mode o1 = Json_body" "eo_method o1 \<noteq> GET" "trim (eo_body o1) \<noteq> []" "eo_output o1 = []"
  shows "parse_arguments (tl (concat (command_words (\<lambda>v. v) (\<lambda>_. header_text) U o1))) curl_start = written_state U o1"
proof -
  have "tl (concat (command_words (\<lambda>v. v) (\<lambda>_. header_text) U o1))
      = ''-X'' # method_text (eo_method o1) # command_url U o1 # ''--fail-with-body'' # concat (map (\<lambda>h. [''-H'', header_text h]) (sent_headers o1)) @ [''-d'', eo_body o1]"
    using assms(3-6) by (simp add: command_words_def body_words_def)
  then show ?thesis
    by (simp add: parse_X parse_url assms(1) parse_ignored parse_headers [OF assms(2)] parse_d curl_start_def add_data_def written_state_def
        del: parse_arguments.simps(2)) 
qed


definition sample_export :: edge_options where
  "sample_export = sample_options\<lparr>eo_headers := [\<lparr>kv_name = ''X-Trace'', kv_value = [SQ, BS, DQ]\<rparr>, \<lparr>kv_name = ''Content-Type'', kv_value = ''application/json''\<rparr>]\<rparr>"


section \<open>Commands that are misread\<close>

text \<open>
  A body without a content type is imported in the mode without a body, so that the command written from it has none; the value of an
  unknown short option is taken for the URL; a line continuation inside single quotes, which a shell keeps, becomes a blank; and the
  quotes with a dollar sign that browsers write are not known.
\<close>

lemma body_without_type_is_lost:
  "map_option er_mode (case parseEdgeCurl sample_urls ''curl -d {} http://g'' of Inr p \<Rightarrow> Some p | Inl _ \<Rightarrow> None) = Some No_body"
  "map_option er_body (case parseEdgeCurl sample_urls ''curl -d {} http://g'' of Inr p \<Rightarrow> Some p | Inl _ \<Rightarrow> None) = Some ''{}''"
  by code_simp+

lemma proxy_is_taken_for_the_url:
  "map_option er_url (case parseEdgeCurl sample_urls ''curl -x http://p http://g'' of Inr p \<Rightarrow> Some p | Inl _ \<Rightarrow> None) = Some ''http://p''"
  by code_simp

lemma continuation_in_quotes_is_removed: "tokenizeCurl [SQ, CHR ''a'', BS, NL, CHR ''b'', SQ] = [''a b'']"
  by code_simp

lemma dollar_quotes_are_misread: "tokenizeCurl (CHR ''$'' # [SQ] @ ''it'' @ [BS, SQ] @ ''s'' @ [SQ]) = [''$it'' @ [BS] @ ''s'']"
  by code_simp

end
