(* ===== verification/Spec2Isabelle.thy ===== *)
theory Spec2Isabelle
  imports Windsurf_Server Cursor_Server Arena_Session Tele_Server Front_Client Front_Router Front_Tasks Front_Email Ops_Delegate Zcode_Verifier Setup_Cli Admin_Effects Edge_Laws
begin

text \<open>
  A verification library for sub2api. The repository is a gateway: a Go backend, a web console, and small
  adapters that offer an account of a third-party service under the OpenAI interface. The library models
  JavaScript and TypeScript code: under \<^verbatim>\<open>src/tools\<close> the four Node.js adapters, the verifier of \<^verbatim>\<open>zcode2api\<close>, \<^verbatim>\<open>ops-auto-delegate\<close>
  and \<^verbatim>\<open>sub2api-codex-setup\<close>, under \<^verbatim>\<open>src/skills\<close> the command \<^verbatim>\<open>sub2api-admin\<close>, and of the web console under \<^verbatim>\<open>src/frontend/src\<close> the sign-in session, the pages and their guard, the stores, the tables and the workbench for edge services.

  \<^bold>\<open>How the parts interact.\<close> An adapter is a process with an HTTP server (\<^verbatim>\<open>server.mjs\<close>) that checks the adapter
  key, validates a chat request (\<^verbatim>\<open>request.mjs\<close>), takes a slot, has its runtime talk to the service (\<^verbatim>\<open>runtime.mjs\<close>,
  \<^verbatim>\<open>upstream.mjs\<close>), and answers with JSON or with a stream of events. Administrators sign in through sessions
  kept in memory (\<^verbatim>\<open>login.mjs\<close>). The console keeps its session in \<^verbatim>\<open>localStorage\<close>, which the tabs of a browser
  share; its HTTP client refreshes the access token when a request is refused, and the guard of its router reads the
  session before every page. \<^verbatim>\<open>ops-auto-delegate\<close> is a command that a timer starts: it collects the errors the gateway
  logged, and delegates them to an agent when there are enough. The verifier answers requests of the Go adapter of \<^verbatim>\<open>zcode2api\<close> one
  after the other with a page that it keeps loaded. \<^verbatim>\<open>sub2api-codex-setup\<close> installs a client on a user's machine and writes its
  configuration. \<^verbatim>\<open>sub2api-admin\<close> is a client of the administration API of the backend.

  \<^bold>\<open>Theories.\<close>

  \<^item> \<open>Js_Base\<close>, \<open>Js_Json\<close>, \<open>Js_Uri\<close>: the prelude. Thrown values and the result type \<open>thrown + 'a\<close>, JSON values, strings
    as lists of the characters below 256, UTF-8, \<^verbatim>\<open>Map\<close> as an association list, \<^verbatim>\<open>JSON.stringify\<close>, \<^verbatim>\<open>encodeURIComponent\<close>,
    with the injectivity facts on which digests, prompts and names rest.
  \<^item> \<open>Chat_Request\<close> (locale \<open>chat_normalizer\<close>), \<open>Login_Base\<close> (locale \<open>owned_sessions\<close>), \<open>Http_Base\<close> (locale \<open>slot_pool\<close>) and
    \<open>Http_Slots\<close> (locale \<open>request_slots\<close>, a sublocale of \<open>slot_pool\<close>): the contracts the adapters share. Every adapter that
    has the part interprets the locale on its own definitions, and the properties rest on the interpreted facts.
  \<^item> \<open>Windsurf_*\<close> for \<^verbatim>\<open>windsurf2api\<close>: \<open>Proto\<close> the protobuf wire format of \<^verbatim>\<open>proto.mjs\<close>, with numbers as the code has them
    (\<^verbatim>\<open>BigInt\<close> masked to 64 bits, doubles above \<open>2 ^ 53\<close> rounded); \<open>Connect\<close> the framing of \<^verbatim>\<open>connect.mjs\<close>; \<open>Protocol\<close> the messages
    of \<^verbatim>\<open>protocol.mjs\<close>; \<open>Request\<close> the validation; \<open>Runtime\<close> the catalogue cache, the resolution of models and the response
    stream as a machine over its events; \<open>Login\<close> the sign-in sessions; \<open>Server\<close> routing, slots and streamed answers.
  \<^item> \<open>Cursor_*\<close> for \<^verbatim>\<open>cursor2api\<close>: \<open>Request\<close>; \<open>Runtime\<close> models, variants and the shared catalogue queries; \<open>Worker\<close> the channel to the
    worker process and the generation; \<open>Login\<close>; \<open>Server\<close>.
  \<^item> \<open>Arena_*\<close> for \<^verbatim>\<open>arena2api\<close>: \<open>Request\<close>; \<open>State\<close> the record of sessions and turns on disk, with crashes and failing writes; \<open>Login\<close> the
    classification of failures and the sign-in sessions; \<open>Server\<close>; \<open>Runtime\<close> the configured models and the guard around the
    third-party bridge; \<open>Session\<close> the sign-in and the preparation of a session.
  \<^item> \<open>Tele_*\<close> for \<^verbatim>\<open>teleagent2api\<close>: \<open>Accounts\<close> the account store and its files; \<open>Welfare\<close> the daily claim with its retries; \<open>Login\<close>; \<open>Server\<close>
    with the signature of upstream requests and the two capacity counters.
  \<^item> \<open>Front_Storage\<close>, \<open>Front_Refresh\<close> (\<^verbatim>\<open>api/tokenRefresh.ts\<close>), \<open>Front_Auth\<close> (\<^verbatim>\<open>stores/auth.ts\<close>, \<^verbatim>\<open>api/auth.ts\<close>), \<open>Front_Client\<close>
    (\<^verbatim>\<open>api/client.ts\<close>, \<^verbatim>\<open>api/adminUIRequest.ts\<close>): the session of the console, across tabs.
  \<^item> \<open>Front_Stores\<close> (\<^verbatim>\<open>stores/subscriptions.ts\<close>, \<^verbatim>\<open>stores/adminCompliance.ts\<close>, \<^verbatim>\<open>stores/announcements.ts\<close>; locale \<open>generations\<close>, which each of the
    three interprets), \<open>Front_Router\<close> (\<^verbatim>\<open>router\<close>: the table of the pages, the guard, the titles), \<open>Front_Tables\<close> (page sizes, loader, selection,
    all accounts), \<open>Front_Tasks\<close> (searches while typing, the second factor, the periodic refresh), \<open>Front_Email\<close> (domains of
    registration, referral codes).
  \<^item> \<open>Ops_Config\<close>, \<open>Ops_Cluster\<close>, \<open>Ops_Lock\<close>, \<open>Ops_Delegate\<close> for \<^verbatim>\<open>ops-auto-delegate.mjs\<close>: the options; signatures, clusters and triggers; the lock
    file; the state file, the decision and its recording.
  \<^item> \<open>Zcode_Page\<close> (\<^verbatim>\<open>verifyInPage\<close> as a machine over the callbacks of the SDK and its timers), \<open>Zcode_Server\<close> (\<^verbatim>\<open>verifier/server.mjs\<close>: admission,
    the queue of verifications, cancellation), \<open>Zcode_Verifier\<close> (the configuration and the page that both verifiers keep; locale
    \<open>check_pages\<close>, interpreted on \<^verbatim>\<open>browser.mjs\<close> and \<^verbatim>\<open>electron.mjs\<close>).
  \<^item> \<open>Setup_Text\<close> (literals and how a shell, PowerShell and TOML read them, POSIX paths), \<open>Setup_Install\<close> (\<^verbatim>\<open>install.ts\<close>: directories, scripts,
    plans), \<open>Setup_Cli\<close> (\<^verbatim>\<open>config.ts\<close>, \<^verbatim>\<open>cli.ts\<close>: the configuration and the run as a list of effects with their outcomes).
  \<^item> \<open>Admin_Api\<close>, \<open>Admin_Commands\<close> (\<^verbatim>\<open>sub2api-admin.js\<close>: arguments, queries and requests; the commands and their tables, as functions of the
    events so far), \<open>Admin_Laws\<close> (which requests a command can send at all; locale \<open>request_policy\<close>, interpreted on four policies),
    \<open>Admin_Effects\<close> (exactly which requests the two commands send that change several accounts).
  \<^item> \<open>Edge_Curl\<close>, \<open>Edge_Build\<close> (\<^verbatim>\<open>features/edge/curl.ts\<close> of the console: reading a curl command into a request, writing a request as one),
    \<open>Edge_Words\<close> (how the workbench and a POSIX shell read the written command; locales \<open>word_reader\<close> and \<open>quote_reader\<close>, interpreted on
    both), \<open>Edge_Laws\<close> (credentials, and a request that is written and read again).
  \<^item> this theory: the properties that span the adapters.

  \<^bold>\<open>Correspondence.\<close> An object with methods is a record of its state with one function per method, returning the result and
  the new state. An object that is shared is a reference into a list of objects, the heap. An asynchronous function is split at
  its waits; what happens between them is left to a step relation, whose runs are the interleavings. A throw or a rejection is
  the left of a sum.

  \<^bold>\<open>Lemma groups.\<close> Round trips: wire format, frames, streamed replies, the account store, a reload of the console. Invariants by rule
  induction over step relations: slots, sign-in sessions, catalogue caches, the turn record, claims, capacity, the worker channel,
  timers, tokens and users of the browser. Equality with a reference: frames against the undivided stream. Refinement: the events of
  a stream against the reply. Bounds, error tables and access control of each server.

  \<^bold>\<open>Bounds and fuel.\<close> Loops are structural or carry a measure: parsing consumes a byte a step,
  the preparation of a session looks three times at the page and eight times for a token, the wait for another tab ends at its
  deadline because each look is at least 25 ms later. The one exception is \<open>navigate\<close> of \<open>Front_Router\<close>, whose fuel counts the
  redirections and is proved to be enough at 3. Runs are of any length.

  \<^bold>\<open>Parameters.\<close> \<^verbatim>\<open>JSON.parse\<close>, the decimal text of a number and \<^verbatim>\<open>Number\<close> of a text, hashes, gzip, random values, the clock, the file
  system's outcomes, and the third-party packages (\<^verbatim>\<open>arena-local-bridge\<close>, \<^verbatim>\<open>@cursor/sdk\<close>, Playwright, Axios) are arguments. A
  property that needs a law of them states it as a hypothesis and has a witness where it holds.

  \<^bold>\<open>Not modelled.\<close> Characters above 255 and the rounding of doubles outside the wire format. Of the adapters: \<^verbatim>\<open>import-account.mjs\<close> of
  teleagent2api and the terminal input of the management command, which are input and output only, and listening, timers' clocks and
  logging in the start-up files. Of \<^verbatim>\<open>ops-auto-delegate\<close>: the query, the prompt, and the
  detection of addresses and binaries. The backend, most other tools and the edge services are written in Go, Python, shell and Kotlin. The rest of
  the console is Vue components and views (templates and styles around calls of the API), wrappers that name one endpoint each,
  translations, types and tests. Its formatting helpers and the generation of code for edge services are not modelled either, nor are the paths of Windows, the parsing of options by
  Node.js and the start-up of the verifier. Of \<^verbatim>\<open>sub2api-admin\<close> the usage text, options and subcommands named like a member of
  \<^verbatim>\<open>Object.prototype\<close>, and infinite numbers are left out.
\<close>

section \<open>Across the adapters\<close>

text \<open>
  What a client of an adapter's sign-in sessions learns about the session \<open>i\<close>: for its owner,
  a live session as it is; for anyone else, the answer for a session that does not exist, and the
  sessions are left alone.
\<close>

definition private_session :: "('s \<Rightarrow> (string \<times> nat) list) \<Rightarrow> ('s \<Rightarrow> nat \<Rightarrow> string) \<Rightarrow> ('s \<Rightarrow> nat \<Rightarrow> int) \<Rightarrow> thrown
    \<Rightarrow> string \<Rightarrow> string \<Rightarrow> int \<Rightarrow> 's \<Rightarrow> (thrown + nat) \<times> 's \<Rightarrow> bool" where
  "private_session filing owner expiry missing ow i now s reply = (case map_of (filing s) i of
     None \<Rightarrow> reply = (Inl missing, s)
   | Some r \<Rightarrow> if owner s r = ow
       then (case reply of (Inr q, s') \<Rightarrow> q = r \<and> now < expiry s r \<and> s' = s | (Inl _, _) \<Rightarrow> True)
       else reply = (Inl missing, s))"



definition witness_environ :: "string \<Rightarrow> string option" where
  "witness_environ n = (if n = ''WINDSURF_ADAPTER_KEY'' \<or> n = ''CURSOR_ADAPTER_KEY'' then Some ''s3cret''
     else if n = ''TELEAGENT_ADAPTER_KEY'' then Some ''a-key-of-24-characters-or-more'' else None)"


end
